(* ===== verification/Prelude.thy ===== *)
theory Prelude
  imports Main "HOL-Library.Monad_Syntax" "HOL-Library.Word"
    "HOL-Library.Signed_Division" "HOL-Library.Product_Lexorder"
begin

text \<open>
  What the components share.  A C function whose only abnormal outcomes are a failed
  \<open>assert\<close>, a wild or dangling pointer, or a loop that never ends is a function into
  \<open>option\<close>: \<open>None\<close> is "does not return normally".  A C function that may end the
  process on purpose (\<open>err_quit\<close>, \<open>abort\<close>, \<open>assert\<close>) and whose effects up to that
  moment matter is a function into \<open>fault + state\<close>.

  Singly linked lists of the code are kept as they are: a store from addresses to nodes, each
  node holding the address of the next one.  \<open>lchain nx h p as\<close> says that the nodes
  reached from \<open>p\<close> are exactly \<open>as\<close>, in this order, ending in the null pointer;
  \<open>lseg nx h p as q\<close> says the same of a segment that ends at \<open>q\<close>.
\<close>

unbundle bit_operations_syntax

type_synonym addr = nat

named_theorems chain_simps \<open>linked lists in a store\<close>

section \<open>Linked lists in a store\<close>

primrec lseg :: "('n \<Rightarrow> addr option) \<Rightarrow> (addr \<rightharpoonup> 'n) \<Rightarrow> addr option \<Rightarrow> addr list \<Rightarrow> addr option \<Rightarrow> bool" where
  "lseg nx h p [] q \<longleftrightarrow> p = q"
| "lseg nx h p (a # as) q \<longleftrightarrow> p = Some a \<and> (\<exists>n. h a = Some n \<and> lseg nx h (nx n) as q)"

abbreviation lchain :: "('n \<Rightarrow> addr option) \<Rightarrow> (addr \<rightharpoonup> 'n) \<Rightarrow> addr option \<Rightarrow> addr list \<Rightarrow> bool" where
  "lchain nx h p as \<equiv> lseg nx h p as None"

lemma lseg_append [chain_simps]:
  "lseg nx h p (as @ bs) q \<longleftrightarrow> (\<exists>m. lseg nx h p as m \<and> lseg nx h m bs q)"
  by (induction as arbitrary: p) auto

lemma lchain_None [simp]: "lchain nx h None as \<longleftrightarrow> as = []"
  by (cases as) auto

lemma lchain_Some: "lchain nx h (Some a) as \<longleftrightarrow>
    (\<exists>bs n. as = a # bs \<and> h a = Some n \<and> lchain nx h (nx n) bs)"
  by (cases as) auto

lemma lseg_upd_notin [simp]: "a \<notin> set as \<Longrightarrow> lseg nx (h(a := v)) p as q = lseg nx h p as q"
  by (induction as arbitrary: p) (auto simp: fun_upd_def)

lemma lseg_cong: "(\<And>a. a \<in> set as \<Longrightarrow> map_option nx (h' a) = map_option nx (h a)) \<Longrightarrow>
    lseg nx h' p as q = lseg nx h p as q"
proof (induction as arbitrary: p)
  case (Cons a as)
  from Cons.prems [of a] show ?case
    by (cases "h a"; cases "h' a") (auto simp: Cons.IH [OF Cons.prems])
qed simp

lemma lseg_upd_same: "h a = Some n \<Longrightarrow> nx n' = nx n \<Longrightarrow>
    lseg nx (h(a \<mapsto> n')) p as q = lseg nx h p as q"
  by (rule lseg_cong) auto

lemma lseg_dom: "lseg nx h p as q \<Longrightarrow> a \<in> set as \<Longrightarrow> a \<in> dom h"
  by (induction as arbitrary: p) auto

lemma lchain_unique: "lchain nx h p as \<Longrightarrow> lchain nx h p bs \<Longrightarrow> as = bs"
proof (induction as arbitrary: p bs)
  case (Cons a as)
  then show ?case by (cases bs) auto
qed simp

lemma lchain_distinct: "lchain nx h p as \<Longrightarrow> distinct as"
proof (induction as arbitrary: p)
  case (Cons a as)
  then obtain n where n: "h a = Some n" "lchain nx h (nx n) as" by auto
  have "a \<notin> set as"
  proof
    assume "a \<in> set as"
    then obtain us vs where as: "as = us @ a # vs" by (meson split_list)
    with n have "lchain nx h (Some a) (a # vs)" by (auto simp: lseg_append)
    with n have "vs = as" using lchain_unique [of nx h "nx n" vs as] by auto
    with as show False by (metis append_Cons append_eq_append_conv append_is_Nil_conv
        length_Cons length_append not_Cons_self2 self_append_conv2)
  qed
  with n Cons.IH show ?case by auto
qed simp

lemma lseg_link: \<comment> \<open>redirecting the last node of a segment\<close>
  "lseg nx h p (as @ [a]) q \<Longrightarrow> distinct (as @ [a]) \<Longrightarrow> h a = Some n \<Longrightarrow> nx n' = r \<Longrightarrow>
    lseg nx (h(a \<mapsto> n')) p (as @ [a]) r"
  by (auto simp: lseg_append)

text \<open>The address a segment starts at, and the last address passed when walking over one.\<close>

definition first_of :: "addr list \<Rightarrow> addr option" where
  "first_of as = (case as of [] \<Rightarrow> None | a # _ \<Rightarrow> Some a)"

definition last_or :: "addr option \<Rightarrow> addr list \<Rightarrow> addr option" where
  "last_or p as = (if as = [] then p else Some (last as))"

lemma first_of_simps [simp]: "first_of [] = None" "first_of (a # as) = Some a"
  by (simp_all add: first_of_def)

lemma first_of_append: "first_of (as @ bs) = (if as = [] then first_of bs else first_of as)"
  by (cases as) auto

lemma last_or_simps [simp]: "last_or p [] = p" "last_or p (as @ [a]) = Some a"
    "last_or p (a # as) = last_or (Some a) as"
  by (simp_all add: last_or_def)

lemma last_or_append [simp]: "last_or (last_or p as) bs = last_or p (as @ bs)"
  by (simp add: last_or_def)

lemma lchain_first: "lchain nx h p as \<Longrightarrow> p = first_of as"
  by (cases as) auto

lemma lchain_suffix: "lchain nx h p (as @ bs) \<Longrightarrow> lchain nx h (first_of bs) bs"
  by (auto simp: lseg_append dest: lchain_first)

section \<open>Reads that may be out of bounds\<close>

fun nth_opt :: "'a list \<Rightarrow> nat \<Rightarrow> 'a option" where
  "nth_opt [] _ = None"
| "nth_opt (x # xs) 0 = Some x"
| "nth_opt (x # xs) (Suc n) = nth_opt xs n"

lemma nth_opt_conv [simp]: "nth_opt xs n = (if n < length xs then Some (xs ! n) else None)"
  by (induction xs n rule: nth_opt.induct) auto

section \<open>Running a list of commands\<close>

text \<open>
  A call-back of the program acts on a component only through the component's interface, so it
  is a list of interface calls.  \<open>cmds_ok\<close> says that each call is legal in the state it
  is made in.
\<close>

primrec run_cmds :: "('c \<Rightarrow> 'w \<Rightarrow> 'w option) \<Rightarrow> 'c list \<Rightarrow> 'w \<Rightarrow> 'w option" where
  "run_cmds f [] w = Some w"
| "run_cmds f (c # cs) w = f c w \<bind> run_cmds f cs"

primrec cmds_ok :: "('c \<Rightarrow> 'w \<Rightarrow> 'w option) \<Rightarrow> ('c \<Rightarrow> 'w \<Rightarrow> bool) \<Rightarrow> 'c list \<Rightarrow> 'w \<Rightarrow> bool" where
  "cmds_ok f ok [] w \<longleftrightarrow> True"
| "cmds_ok f ok (c # cs) w \<longleftrightarrow>
     ok c w \<and> (case f c w of None \<Rightarrow> False | Some w' \<Rightarrow> cmds_ok f ok cs w')"

lemma run_cmds_Some: "cmds_ok f ok cs w \<Longrightarrow> \<exists>w'. run_cmds f cs w = Some w'"
  by (induction cs arbitrary: w) (auto split: option.splits)

locale interface_step =
  fixes step :: "'c \<Rightarrow> 'w \<Rightarrow> 'w option"
    and ok :: "'c \<Rightarrow> 'w \<Rightarrow> bool"
    and inv :: "'w \<Rightarrow> bool"
    and frame :: "'w \<Rightarrow> 'w \<Rightarrow> bool"
  assumes total: "inv w \<Longrightarrow> ok c w \<Longrightarrow> \<exists>w'. step c w = Some w'"
    and keeps: "inv w \<Longrightarrow> ok c w \<Longrightarrow> step c w = Some w' \<Longrightarrow> inv w' \<and> frame w w'"
    and frame_refl: "frame w w"
    and frame_trans: "frame u v \<Longrightarrow> frame v w \<Longrightarrow> frame u w"
begin

lemma run_keeps:
  "inv w \<Longrightarrow> cmds_ok step ok cs w \<Longrightarrow> \<exists>w'. run_cmds step cs w = Some w' \<and> inv w' \<and> frame w w'"
proof (induction cs arbitrary: w)
  case Nil
  then show ?case by (simp add: frame_refl)
next
  case (Cons c cs)
  then obtain v where v: "step c w = Some v" "cmds_ok step ok cs v"
    by (auto split: option.splits)
  with Cons keeps [of w c v] have "inv v" "frame w v" by auto
  with v Cons.IH [of v] show ?case by (auto intro: frame_trans)
qed

end

end
