(* ===== verification/SelectTimer.thy ===== *)
theory SelectTimer
  imports Prelude
begin

text \<open>
  \<open>src/src/generic/ac/SelectTimer.c\<close>: call-back timers and a call-back table of file
  descriptors around one \<open>poll\<close> call.  Timer records live in a store and are linked by
  their \<open>next\<close> field, as in the code: one list of running timers ordered by expiry, one
  list of at most four reusable records, and at most one active timer whose time-out handler
  is running.  \<open>None\<close> is a failed \<open>assert\<close>, a wild pointer or an endless loop.
  \<open>malloc\<close> is taken to succeed and to return an address not used before (the code never
  looks at its result).

  The outside world is the record \<open>env\<close>: the readings of \<open>gettimeofday\<close> one after
  another, the answers of \<open>poll\<close>, and the user's handlers.  A handler reaches the timers
  only by calling this interface, so it is the list of calls it makes.
  The build without \<open>DEBUG_SELTIMER\<close> is modelled.
\<close>

section \<open>Data\<close>

datatype TimerState = Running | Active | Deleted

record timeval =
  tv_sec :: int
  tv_usec :: int

record TimerInternal =
  mS :: int
  sr :: nat
  tref :: nat
  expires :: timeval
  lastsec :: int
  tstate :: TimerState
  tnext :: "addr option"

record pollfd =
  fd :: int
  events :: "16 word"
  revents :: "16 word"

record PollFn =
  fn :: nat
  userRef :: nat

record pollextensions =
  maxfd :: nat
  spollfd :: "pollfd list"
  nfds :: nat
  spollfn :: "PollFn list"

text \<open>A handle together with the store its timer records live in.\<close>

record TimeHandle =
  store :: "addr \<rightharpoonup> TimerInternal"
  brk :: addr              \<comment> \<open>addresses from here on were never allocated\<close>
  readings :: nat          \<comment> \<open>\<open>gettimeofday\<close> calls so far\<close>
  polls :: nat             \<comment> \<open>\<open>poll\<close> calls so far\<close>
  delay :: timeval
  timers :: "addr option"
  freeTimerList :: "addr option"
  freeTimers :: int
  activeTimer :: "addr option"
  polld :: "pollextensions option"

datatype api_call =
    Start int nat nat
  | Stop addr
  | Modify addr int nat
  | SetCb nat pollfd nat
  | UnsetCb int

record poll_answer =
  pa_rc :: int
  pa_eintr :: bool
  pa_revents :: "nat \<Rightarrow> 16 word"

record env =
  gettimeofday :: "nat \<Rightarrow> timeval"
  poll_sys :: "nat \<Rightarrow> pollfd list \<Rightarrow> int \<Rightarrow> poll_answer"
  on_timeout :: "nat \<Rightarrow> nat \<Rightarrow> TimeHandle \<Rightarrow> api_call list \<times> int"
  on_fd :: "nat \<Rightarrow> pollfd \<Rightarrow> nat \<Rightarrow> TimeHandle \<Rightarrow> api_call list"
  garbage_fd :: pollfd       \<comment> \<open>what fresh \<open>malloc\<close> memory holds\<close>
  garbage_fn :: PollFn

definition POLLERR :: "16 word" where "POLLERR = 8"
definition POLLHUP :: "16 word" where "POLLHUP = 16"
definition POLLNVAL :: "16 word" where "POLLNVAL = 32"

section \<open>Handles\<close>

definition timerCreateHandle_r :: "TimeHandle" where
  "timerCreateHandle_r = \<lparr>store = Map.empty, brk = 0, readings = 0, polls = 0,
     delay = \<lparr>tv_sec = 0, tv_usec = 0\<rparr>, timers = None, freeTimerList = None,
     freeTimers = 0, activeTimer = None, polld = None\<rparr>"

partial_function (option) free_list ::
    "(addr \<rightharpoonup> TimerInternal) \<Rightarrow> addr option \<Rightarrow> (addr \<rightharpoonup> TimerInternal) option" where
  "free_list h p = (case p of None \<Rightarrow> Some h
     | Some a \<Rightarrow> h a \<bind> (\<lambda>n. free_list (h(a := None)) (tnext n)))"

definition free_one :: "(addr \<rightharpoonup> TimerInternal) \<Rightarrow> addr option \<Rightarrow> (addr \<rightharpoonup> TimerInternal) option" where
  "free_one h p = (case p of None \<Rightarrow> Some h
     | Some a \<Rightarrow> h a \<bind> (\<lambda>_. Some (h(a := None))))"

text \<open>
  The result is the store after the handle is gone; the poll extension and the handle itself
  are freed with it.
\<close>

definition timerDestroyHandle_r :: "TimeHandle \<Rightarrow> (addr \<rightharpoonup> TimerInternal) option" where
  "timerDestroyHandle_r w = do {
     h \<leftarrow> free_list (store w) (timers w);
     h \<leftarrow> free_list h (freeTimerList w);
     free_one h (activeTimer w) }"

section \<open>The queue of running timers\<close>

definition add_ms :: "timeval \<Rightarrow> int \<Rightarrow> timeval" where
  "add_ms e ms =
     (let s = tv_sec e + ms sdiv 1000; u = tv_usec e + (ms smod 1000) * 1000
      in if u > 1000000 then \<lparr>tv_sec = s + 1, tv_usec = u - 1000000\<rparr>
         else \<lparr>tv_sec = s, tv_usec = u\<rparr>)"

definition earlier :: "timeval \<Rightarrow> timeval \<Rightarrow> bool" where
  "earlier a b \<longleftrightarrow> tv_sec a < tv_sec b \<or> (tv_sec a = tv_sec b \<and> tv_usec a < tv_usec b)"

definition new_expiry :: "timeval \<Rightarrow> int \<Rightarrow> timeval option \<Rightarrow> timeval" where
  "new_expiry e ms tv = (let e = add_ms e ms in
     case tv of None \<Rightarrow> e | Some now \<Rightarrow> if earlier e now then add_ms now ms else e)"

text \<open>
  \<open>while (item \<and> \<dots>) { prev = item; item = item->next; }\<close>: the loop of both sorting passes of
  \<open>rescedule\<close> and of the search in \<open>timerStop_r\<close>.
\<close>

partial_function (option) walk ::
    "(addr \<Rightarrow> TimerInternal \<Rightarrow> bool) \<Rightarrow> (addr \<rightharpoonup> TimerInternal) \<Rightarrow> addr option \<Rightarrow> addr option \<Rightarrow>
     (addr option \<times> addr option) option" where
  "walk c h prev item = (case item of None \<Rightarrow> Some (prev, None)
     | Some a \<Rightarrow> h a \<bind> (\<lambda>n. if c a n then walk c h (Some a) (tnext n) else Some (prev, item)))"

definition sec_pass :: "timeval \<Rightarrow> addr \<Rightarrow> TimerInternal \<Rightarrow> bool" where
  "sec_pass e a m \<longleftrightarrow> tv_sec (expires m) < tv_sec e"

definition usec_pass :: "timeval \<Rightarrow> addr \<Rightarrow> TimerInternal \<Rightarrow> bool" where
  "usec_pass e a m \<longleftrightarrow> tv_sec (expires m) = tv_sec e \<and> tv_usec (expires m) < tv_usec e"

definition insert_after :: "addr option \<Rightarrow> addr \<Rightarrow> TimeHandle \<Rightarrow> TimeHandle option" where
  "insert_after prev t w = (case prev of
     None \<Rightarrow> Some (w\<lparr>timers := Some t\<rparr>)
   | Some p \<Rightarrow> store w p \<bind> (\<lambda>m. Some (w\<lparr>store := (store w)(p \<mapsto> m\<lparr>tnext := Some t\<rparr>)\<rparr>)))"

definition rescedule :: "TimeHandle \<Rightarrow> addr \<Rightarrow> timeval option \<Rightarrow> TimeHandle option" where
  "rescedule w t tv = do {
     n \<leftarrow> store w t;
     let e = new_expiry (expires n) (mS n) tv;
     let w = w\<lparr>store := (store w)(t \<mapsto> n\<lparr>expires := e\<rparr>)\<rparr>;
     (prev, item) \<leftarrow> walk (sec_pass e) (store w) None (timers w);
     (prev, item) \<leftarrow> walk (usec_pass e) (store w) prev item;
     w \<leftarrow> insert_after prev t w;
     n \<leftarrow> store w t;
     Some (w\<lparr>store := (store w)(t \<mapsto> n\<lparr>tnext := item, tstate := Running\<rparr>)\<rparr>) }"

text \<open>What becomes of a record that is no longer in use.\<close>

definition recycle :: "TimeHandle \<Rightarrow> addr \<Rightarrow> TimeHandle option" where
  "recycle w t = do {
     n \<leftarrow> store w t;
     Some (if freeTimers w < 4
       then w\<lparr>store := (store w)(t \<mapsto> n\<lparr>tnext := freeTimerList w\<rparr>),
              freeTimerList := Some t, freeTimers := freeTimers w + 1\<rparr>
       else w\<lparr>store := (store w)(t := None)\<rparr>) }"

text \<open>The record to use for a new timer: a reusable one, or fresh memory with old contents.\<close>

definition take_record :: "TimeHandle \<Rightarrow> (addr \<times> TimeHandle) option" where
  "take_record w =
     (if freeTimers w > 0 then
        (case freeTimerList w of None \<Rightarrow> None
         | Some t \<Rightarrow> store w t \<bind> (\<lambda>n.
             Some (t, w\<lparr>freeTimerList := tnext n, freeTimers := freeTimers w - 1\<rparr>)))
      else if freeTimerList w \<noteq> None then None
      else Some (brk w, w\<lparr>brk := Suc (brk w)\<rparr>))"

definition timerStart_r :: "env \<Rightarrow> TimeHandle \<Rightarrow> int \<Rightarrow> nat \<Rightarrow> nat \<Rightarrow> (addr \<times> TimeHandle) option" where
  "timerStart_r E w ms s r = do {
     (t, w) \<leftarrow> take_record w;
     let n = \<lparr>mS = ms, sr = s, tref = r, expires = gettimeofday E (readings w), lastsec = 0,
              tstate = Running, tnext = None\<rparr>;
     let w = w\<lparr>store := (store w)(t \<mapsto> n), readings := Suc (readings w)\<rparr>;
     w \<leftarrow> rescedule w t None;
     Some (t, w) }"

definition unlink_after :: "addr option \<Rightarrow> addr \<Rightarrow> TimeHandle \<Rightarrow> TimeHandle option" where
  "unlink_after prev i w = do {
     n \<leftarrow> store w i;
     case prev of None \<Rightarrow> Some (w\<lparr>timers := tnext n\<rparr>)
     | Some p \<Rightarrow> store w p \<bind> (\<lambda>m. Some (w\<lparr>store := (store w)(p \<mapsto> m\<lparr>tnext := tnext n\<rparr>)\<rparr>)) }"

definition timerStop_r :: "TimeHandle \<Rightarrow> addr \<Rightarrow> TimeHandle option" where
  "timerStop_r w t = do {
     n \<leftarrow> store w t;
     if tstate n = Running then do {
       (prev, item) \<leftarrow> walk (\<lambda>a _. t \<noteq> a) (store w) None (timers w);
       (case item of None \<Rightarrow> Some w
        | Some i \<Rightarrow> unlink_after prev i w \<bind> (\<lambda>w. recycle w i)) }
     else Some (w\<lparr>store := (store w)(t \<mapsto> n\<lparr>tstate := Deleted\<rparr>)\<rparr>) }"

definition timerModify :: "TimeHandle \<Rightarrow> addr \<Rightarrow> int \<Rightarrow> nat \<Rightarrow> TimeHandle option" where
  "timerModify w t ms r = do {
     n \<leftarrow> store w t;
     Some (w\<lparr>store := (store w)(t \<mapsto> n\<lparr>mS := ms, tref := r\<rparr>)\<rparr>) }"

section \<open>The table of file descriptors\<close>

definition poll_maxfd :: "env \<Rightarrow> TimeHandle \<Rightarrow> int \<Rightarrow> TimeHandle option" where
  "poll_maxfd E w m =
     (if polld w \<noteq> None \<or> m \<le> 0 then None
      else Some (w\<lparr>polld := Some \<lparr>maxfd = nat m, spollfd = replicate (nat m) (garbage_fd E),
             nfds = 0, spollfn = replicate (nat m) (garbage_fn E)\<rparr>\<rparr>))"

fun find_fd :: "int \<Rightarrow> pollfd list \<Rightarrow> nat \<Rightarrow> nat option" where
  "find_fd d (p # ps) (Suc n) = (if d = fd p then Some 0 else map_option Suc (find_fd d ps n))"
| "find_fd d _ _ = None"

definition poll_setcallback :: "TimeHandle \<Rightarrow> nat \<Rightarrow> pollfd \<Rightarrow> nat \<Rightarrow> (int \<times> TimeHandle) option" where
  "poll_setcallback w f p r = do {
     e \<leftarrow> polld w;
     (case find_fd (fd p) (spollfd e) (nfds e) of
        Some i \<Rightarrow> do {
          q \<leftarrow> nth_opt (spollfd e) i;
          Some (1, w\<lparr>polld := Some (e\<lparr>spollfd := (spollfd e)[i := q\<lparr>events := events p\<rparr>],
                      spollfn := (spollfn e)[i := \<lparr>fn = f, userRef = r\<rparr>]\<rparr>)\<rparr>) }
      | None \<Rightarrow>
          if nfds e < maxfd e then
            Some (0, w\<lparr>polld := Some (e\<lparr>nfds := Suc (nfds e),
                      spollfd := (spollfd e)[nfds e := p\<lparr>revents := 0\<rparr>],
                      spollfn := (spollfn e)[nfds e := \<lparr>fn = f, userRef = r\<rparr>]\<rparr>)\<rparr>)
          else if nfds e = maxfd e then Some (-1, w)
          else None) }"

text \<open>\<open>Pack the arrays\<close>: move each entry behind \<open>i\<close> one place down.\<close>

function pack :: "nat \<Rightarrow> pollextensions \<Rightarrow> pollextensions option" where
  "pack i e = (if i < nfds e then do {
       p \<leftarrow> nth_opt (spollfd e) (Suc i);
       f \<leftarrow> nth_opt (spollfn e) (Suc i);
       pack (Suc i) (e\<lparr>spollfd := (spollfd e)[i := p], spollfn := (spollfn e)[i := f]\<rparr>) }
     else Some e)"
  by pat_completeness auto
termination
  by (relation "measure (\<lambda>(i, e). nfds e - i)") auto

declare pack.simps [simp del]

definition poll_unsetcallback :: "TimeHandle \<Rightarrow> int \<Rightarrow> TimeHandle option" where
  "poll_unsetcallback w d = do {
     e \<leftarrow> polld w;
     (case find_fd d (spollfd e) (nfds e) of
        None \<Rightarrow> Some w
      | Some i \<Rightarrow>
          if nfds e > 0 then do {
            e \<leftarrow> pack i (e\<lparr>nfds := nfds e - 1\<rparr>);
            Some (w\<lparr>polld := Some e\<rparr>) }
          else None) }"

section \<open>Handlers and the poll loop\<close>

fun api_step :: "env \<Rightarrow> api_call \<Rightarrow> TimeHandle \<Rightarrow> TimeHandle option" where
  "api_step E (Start ms s r) w = map_option snd (timerStart_r E w ms s r)"
| "api_step E (Stop t) w = timerStop_r w t"
| "api_step E (Modify t ms r) w = timerModify w t ms r"
| "api_step E (SetCb f p r) w = map_option snd (poll_setcallback w f p r)"
| "api_step E (UnsetCb d) w = poll_unsetcallback w d"

text \<open>Take the head of the queue and run its handler: \<open>rc\<close> is what the handler returns.\<close>

definition run_timeout :: "env \<Rightarrow> TimeHandle \<Rightarrow> addr \<Rightarrow> (int \<times> TimeHandle) option" where
  "run_timeout E w item = do {
     n \<leftarrow> store w item;
     let w = w\<lparr>timers := tnext n, store := (store w)(item \<mapsto> n\<lparr>tstate := Active\<rparr>)\<rparr>;
     if activeTimer w \<noteq> None then None
     else do {
       let w = w\<lparr>activeTimer := Some item\<rparr>;
       let (cs, rc) = on_timeout E (sr n) (tref n) w;
       w \<leftarrow> run_cmds (api_step E) cs w;
       Some (rc, w\<lparr>activeTimer := None\<rparr>) } }"

definition retire :: "TimeHandle \<Rightarrow> addr \<Rightarrow> int \<Rightarrow> timeval \<Rightarrow> TimeHandle option" where
  "retire w item rc tv = do {
     n \<leftarrow> store w item;
     if tstate n = Deleted \<or> rc = 0 then recycle w item
     else do {
       w \<leftarrow> rescedule w item (Some tv);
       n \<leftarrow> store w item;
       Some (w\<lparr>store := (store w)(item \<mapsto> n\<lparr>lastsec := tv_sec tv\<rparr>)\<rparr>) } }"

definition step_back :: "TimeHandle \<Rightarrow> addr \<Rightarrow> timeval \<Rightarrow> TimeHandle option" where
  "step_back w item tv = do {
     n \<leftarrow> store w item;
     if lastsec n > tv_sec tv then
       rescedule (w\<lparr>timers := tnext n,
         store := (store w)(item \<mapsto> n\<lparr>tstate := Active, expires := (expires n)\<lparr>tv_sec := tv_sec tv\<rparr>\<rparr>)\<rparr>)
         item None
     else Some w }"

partial_function (option) expire_loop :: "env \<Rightarrow> TimeHandle \<Rightarrow> timeval \<Rightarrow> (timeval \<times> TimeHandle) option" where
  "expire_loop E w tv = (case timers w of None \<Rightarrow> Some (tv, w)
     | Some item \<Rightarrow> store w item \<bind> (\<lambda>n.
         if earlier (expires n) tv then
           run_timeout E w item \<bind> (\<lambda>p.
             retire ((snd p)\<lparr>readings := Suc (readings (snd p))\<rparr>) item (fst p)
               (gettimeofday E (readings (snd p))) \<bind> (\<lambda>w'.
             expire_loop E w' (gettimeofday E (readings (snd p)))))
         else step_back w item tv \<bind> (\<lambda>w'. Some (tv, w'))))"

definition set_delay :: "TimeHandle \<Rightarrow> timeval \<Rightarrow> (timeval option \<times> TimeHandle) option" where
  "set_delay w tv = (case timers w of None \<Rightarrow> Some (None, w)
     | Some item \<Rightarrow> do {
         n \<leftarrow> store w item;
         let e = expires n;
         let d = (if tv_usec tv > tv_usec e
            then \<lparr>tv_sec = tv_sec e - tv_sec tv - 1, tv_usec = tv_usec e + 1000000 - tv_usec tv\<rparr>
            else \<lparr>tv_sec = tv_sec e - tv_sec tv, tv_usec = tv_usec e - tv_usec tv\<rparr>);
         Some (Some d, w\<lparr>delay := d\<rparr>) })"

definition timerGetDelay_r :: "env \<Rightarrow> TimeHandle \<Rightarrow> (timeval option \<times> TimeHandle) option" where
  "timerGetDelay_r E w = do {
     let tv = gettimeofday E (readings w);
     (tv, w) \<leftarrow> expire_loop E (w\<lparr>readings := Suc (readings w)\<rparr>) tv;
     set_delay w tv }"

text \<open>\<open>long\<close> to \<open>int\<close>: the low 32 bits, read as a signed number.\<close>

definition to_int32 :: "int \<Rightarrow> int" where
  "to_int32 x = (x + 2 ^ 31) mod 2 ^ 32 - 2 ^ 31"

definition poll_timeout :: "timeval \<Rightarrow> int" where
  "poll_timeout d = (if tv_sec d > 0x7fffffff div 2 ^ 10 then 0x7ffff300
     else to_int32 (tv_sec d * 1000 + tv_usec d sdiv 1000))"

definition dispatchable :: "pollfd \<Rightarrow> bool" where
  "dispatchable p \<longleftrightarrow> revents p \<noteq> 0 \<and> revents p AND POLLERR = 0 \<and>
     revents p AND POLLHUP = 0 \<and> revents p AND POLLNVAL = 0"

partial_function (option) poll_dispatch :: "env \<Rightarrow> TimeHandle \<Rightarrow> nat \<Rightarrow> int \<Rightarrow> TimeHandle option" where
  "poll_dispatch E w i rc = polld w \<bind> (\<lambda>e.
     if i < nfds e then
       nth_opt (spollfd e) i \<bind> (\<lambda>p.
       if dispatchable p then
         nth_opt (spollfn e) i \<bind> (\<lambda>f.
         run_cmds (api_step E) (on_fd E (fn f) p (userRef f) w) w \<bind> (\<lambda>w'.
         if rc - 1 = 0 then Some w'
         else polld w' \<bind> (\<lambda>e'. nth_opt (spollfd e') i \<bind> (\<lambda>p'.
           poll_dispatch E w' (if fd p = fd p' then Suc i else i) (rc - 1)))))
       else poll_dispatch E w (Suc i) rc)
     else Some w)"

text \<open>
  \<open>do { rc = poll(\<dots>); if (rc < 0 \<and> errno == EINTR) continue; } while (0)\<close>: \<open>continue\<close> goes
  to the test, which is false, so the body runs once whatever \<open>poll\<close> answers.
\<close>

definition poll_once :: "env \<Rightarrow> TimeHandle \<Rightarrow> int \<Rightarrow> (int \<times> TimeHandle) option" where
  "poll_once E w timeout = do {
     e \<leftarrow> polld w;
     let a = poll_sys E (polls w) (take (nfds e) (spollfd e)) timeout;
     let w = w\<lparr>polls := Suc (polls w)\<rparr>;
     Some (pa_rc a, if pa_rc a < 0 then w
       else w\<lparr>polld := Some (e\<lparr>spollfd := map (\<lambda>(i, p). if i < nfds e
              then p\<lparr>revents := pa_revents a i\<rparr> else p) (enumerate 0 (spollfd e))\<rparr>)\<rparr>) }"

definition poll_execute :: "env \<Rightarrow> TimeHandle \<Rightarrow> (int \<times> TimeHandle) option" where
  "poll_execute E w =
     (if polld w = None then None
      else do {
        (tvp, w) \<leftarrow> timerGetDelay_r E w;
        e \<leftarrow> polld w;
        if tvp = None \<and> nfds e = 0 then Some (-1, w)
        else do {
          (rc, w) \<leftarrow> poll_once E w (case tvp of None \<Rightarrow> -1 | Some d \<Rightarrow> poll_timeout d);
          if rc < 0 then Some (rc, w)
          else if rc > 0 then map_option (\<lambda>w. (0, w)) (poll_dispatch E w 0 rc)
          else Some (0, w) } })"

end
