(* ===== verification/TimerQueue.thy ===== *)
theory TimerQueue
  imports SelectTimer
begin

text \<open>
  What \<open>rescedule\<close> does to the list of running timers: the two sorting passes find the place
  of \<open>insort_key\<close> (ordered by seconds, then micro seconds), and relinking the node before
  that place changes nothing else in the store.  \<open>payload h a\<close> is what a record holds besides
  its link.
\<close>

definition key :: "timeval \<Rightarrow> int \<times> int" where
  "key e = (tv_sec e, tv_usec e)"

lemma earlier_key: "earlier a b \<longleftrightarrow> key a < key b"
  by (auto simp: earlier_def key_def less_prod_def')

definition key_at :: "(addr \<rightharpoonup> TimerInternal) \<Rightarrow> addr \<Rightarrow> int \<times> int" where
  "key_at h a = (case h a of None \<Rightarrow> (0, 0) | Some n \<Rightarrow> key (expires n))"

definition payload :: "(addr \<rightharpoonup> TimerInternal) \<Rightarrow> addr \<Rightarrow> TimerInternal option" where
  "payload h a = map_option (\<lambda>n. n\<lparr>tnext := None\<rparr>) (h a)"

lemma payload_Some: "payload h a = Some p \<Longrightarrow> \<exists>n. h a = Some n \<and> p = n\<lparr>tnext := None\<rparr>"
  by (auto simp: payload_def)

lemma payload_upd [simp]: "payload (h(a := v)) = (payload h)(a := map_option (\<lambda>n. n\<lparr>tnext := None\<rparr>) v)"
  by (auto simp: payload_def)

lemma key_at_payload: "payload h' a = payload h a \<Longrightarrow> key_at h' a = key_at h a"
  by (cases "h a"; cases "h' a") (auto simp: payload_def key_at_def; metis TimerInternal.surjective TimerInternal.update_convs(7) TimerInternal.ext_inject)+

lemma walk_chain:
  assumes "lchain tnext h item as"
  shows "walk c h prev item =
    Some (last_or prev (takeWhile (\<lambda>a. c a (the (h a))) as),
          first_of (dropWhile (\<lambda>a. c a (the (h a))) as))"
  using assms
proof (induction as arbitrary: prev item)
  case Nil
  then show ?case by (simp add: walk.simps)
next
  case (Cons a as)
  then obtain n where n: "item = Some a" "h a = Some n" "lchain tnext h (tnext n) as" by auto
  then show ?case
    using Cons.IH [OF n(3), of "Some a"] by (simp add: walk.simps [of c h prev "Some a"])
qed

lemma two_passes:
  assumes "sorted (map k as)"
    and "\<And>a. a \<in> set as \<Longrightarrow> k a = (s a, u a)"
  shows "takeWhile (\<lambda>a. s a < S) as @ takeWhile (\<lambda>a. s a = S \<and> u a < U) (dropWhile (\<lambda>a. s a < S) as)
       = takeWhile (\<lambda>a. k a < (S, U)) as"
    and "dropWhile (\<lambda>a. s a = S \<and> u a < U) (dropWhile (\<lambda>a. s a < S) as)
       = dropWhile (\<lambda>a. k a < (S, U)) as"
proof -
  show "takeWhile (\<lambda>a. s a < S) as @ takeWhile (\<lambda>a. s a = S \<and> u a < U) (dropWhile (\<lambda>a. s a < S) as)
       = takeWhile (\<lambda>a. k a < (S, U)) as" using assms
  proof (induction as)
    case (Cons a as)
    show ?case
    proof (cases "s a < S")
      case True
      then show ?thesis using Cons by (auto simp: less_prod_def')
    next
      case False
      have "takeWhile (\<lambda>a. s a = S \<and> u a < U) (a # as) = takeWhile (\<lambda>a. k a < (S, U)) (a # as)"
      proof (rule takeWhile_cong)
        fix b assume "b \<in> set (a # as)"
        then have "k a \<le> k b" "k b = (s b, u b)" "k a = (s a, u a)" using Cons.prems by auto
        then show "(s b = S \<and> u b < U) = (k b < (S, U))" using False by (auto simp: less_prod_def' less_eq_prod_def)
      qed simp
      then show ?thesis using False by simp
    qed
  qed simp
  show "dropWhile (\<lambda>a. s a = S \<and> u a < U) (dropWhile (\<lambda>a. s a < S) as)
       = dropWhile (\<lambda>a. k a < (S, U)) as" using assms
  proof (induction as)
    case (Cons a as)
    show ?case
    proof (cases "s a < S")
      case True
      then show ?thesis using Cons by (auto simp: less_prod_def')
    next
      case False
      have "dropWhile (\<lambda>a. s a = S \<and> u a < U) (a # as) = dropWhile (\<lambda>a. k a < (S, U)) (a # as)"
      proof (rule dropWhile_cong)
        fix b assume "b \<in> set (a # as)"
        then have "k a \<le> k b" "k b = (s b, u b)" "k a = (s a, u a)" using Cons.prems by auto
        then show "(s b = S \<and> u b < U) = (k b < (S, U))" using False by (auto simp: less_prod_def' less_eq_prod_def)
      qed simp
      then show ?thesis using False by simp
    qed
  qed simp
qed

lemma insort_key_cong:
  "(\<And>a. a \<in> set (x # as) \<Longrightarrow> k a = k' a) \<Longrightarrow> insort_key k x as = insort_key k' x as"
  by (induction as) auto

lemma insort_key_split:
  "insort_key k x as = takeWhile (\<lambda>a. k a < k x) as @ x # dropWhile (\<lambda>a. k a < k x) as"
  by (induction as) (auto simp: not_less)


lemma sorted_insort_at:
  "sorted (map k as) \<Longrightarrow> sorted (map k (insort_key k x as))"
  by (simp add: sorted_insort_key)

text \<open>Storing at \<open>t\<close> and relinking the node before it inserts \<open>t\<close> there.\<close>

lemma insert_after_chain:
  assumes ch: "lchain tnext (store w) (timers w) (us @ vs)" and t: "t \<notin> set (us @ vs)"
    and tn: "store w t = Some n"
  shows "\<exists>h' tm. insert_after (last_or None us) t w = Some (w\<lparr>store := h', timers := tm\<rparr>) \<and>
           h' t = Some n \<and>
           lchain tnext (h'(t \<mapsto> n\<lparr>tnext := first_of vs, tstate := s\<rparr>)) tm (us @ t # vs) \<and>
           payload h' = payload (store w) \<and> (\<forall>a. a \<notin> set us \<longrightarrow> h' a = store w a)"
proof -
  obtain m where m: "lseg tnext (store w) (timers w) us m" "lchain tnext (store w) m vs"
    using ch by (auto simp: lseg_append)
  have m_first: "m = first_of vs" using m(2) by (rule lchain_first)
  have dist: "distinct (us @ vs)" using ch by (rule lchain_distinct)
  show ?thesis
  proof (cases us rule: rev_cases)
    case Nil
    then show ?thesis using m m_first t tn
      by (intro exI [of _ "store w"] exI [of _ "Some t"]) (auto simp: insert_after_def)
  next
    case (snoc ws p)
    then obtain q where q: "store w p = Some q" using ch by (auto simp: lseg_append)
    let ?h = "(store w)(p \<mapsto> q\<lparr>tnext := Some t\<rparr>)"
    have "lseg tnext ?h (timers w) us (Some t)"
      using m(1) dist q unfolding snoc by (intro lseg_link) auto
    moreover have "lchain tnext ?h m vs" using m(2) dist snoc by auto
    ultimately have "lchain tnext (?h(t \<mapsto> n\<lparr>tnext := first_of vs, tstate := s\<rparr>)) (timers w) (us @ t # vs)"
      using t m_first by (auto simp: lseg_append)
    moreover have "payload ?h = payload (store w)" using q by (auto simp: payload_def)
    ultimately show ?thesis using snoc q t tn
      by (intro exI [of _ ?h] exI [of _ "timers w"]) (auto simp: insert_after_def)
  qed
qed

lemma sort_position:
  fixes e
  assumes ch: "lchain tnext h p ts" and srt: "sorted (map (key_at h) ts)"
  shows "\<exists>prev1 item1. walk (sec_pass e) h None p = Some (prev1, item1) \<and>
     walk (usec_pass e) h prev1 item1 =
       Some (last_or None (takeWhile (\<lambda>a. key_at h a < key e) ts),
             first_of (dropWhile (\<lambda>a. key_at h a < key e) ts))"
proof -
  let ?s = "\<lambda>a. tv_sec (expires (the (h a)))" and ?u = "\<lambda>a. tv_usec (expires (the (h a)))"
  have kat: "key_at h a = (?s a, ?u a)" if "a \<in> set ts" for a
    using lseg_dom [OF ch that] by (auto simp: key_at_def key_def)
  let ?us1 = "takeWhile (\<lambda>a. ?s a < tv_sec e) ts" and ?vs1 = "dropWhile (\<lambda>a. ?s a < tv_sec e) ts"
  note passes = two_passes [where k = "key_at h" and s = ?s and u = ?u and S = "tv_sec e" and U = "tv_usec e",
      OF srt kat, unfolded key_def [symmetric]]
  have ch1: "lchain tnext h (first_of ?vs1) ?vs1"
    using ch by (intro lchain_suffix [of _ _ p ?us1]) simp
  have "walk (usec_pass e) h (last_or None ?us1) (first_of ?vs1) =
       Some (last_or None (takeWhile (\<lambda>a. key_at h a < key e) ts),
             first_of (dropWhile (\<lambda>a. key_at h a < key e) ts))"
    unfolding walk_chain [OF ch1] usec_pass_def last_or_append
    by (simp only: passes)
  moreover have "walk (sec_pass e) h None p = Some (last_or None ?us1, first_of ?vs1)"
    unfolding walk_chain [OF ch] sec_pass_def ..
  ultimately show ?thesis by blast
qed

lemma rescedule_spec:
  fixes tv
  assumes ch: "lchain tnext (store w) (timers w) ts" and t: "t \<notin> set ts"
    and n: "store w t = Some n" and srt: "sorted (map (key_at (store w)) ts)"
  defines "e \<equiv> new_expiry (expires n) (mS n) tv"
  defines "ts' \<equiv> insort_key ((key_at (store w))(t := key e)) t ts"
  shows "\<exists>h' tm. rescedule w t tv = Some (w\<lparr>store := h', timers := tm\<rparr>) \<and>
           lchain tnext h' tm ts' \<and>
           payload h' = (payload (store w))(t \<mapsto> n\<lparr>expires := e, tstate := Running, tnext := None\<rparr>) \<and>
           (\<forall>a. a \<notin> set ts \<union> {t} \<longrightarrow> h' a = store w a)"
proof -
  let ?n = "n\<lparr>expires := e\<rparr>"
  let ?h = "(store w)(t \<mapsto> ?n)"
  let ?P = "\<lambda>a. key_at ?h a < key e" and ?w = "w\<lparr>store := ?h\<rparr>"
  define us vs where usvs: "us = takeWhile ?P ts" "vs = dropWhile ?P ts"
  have ts: "ts = us @ vs" by (simp add: usvs)
  have ch': "lchain tnext ?h (timers w) ts" using ch t by simp
  have keys: "key_at ?h a = key_at (store w) a" if "a \<in> set ts" for a
    using that t by (auto simp: key_at_def)
  have srt': "sorted (map (key_at ?h) ts)" using srt by (simp only: keys cong: map_cong)
  have ts': "ts' = us @ t # vs"
  proof -
    have "insort_key ((key_at (store w))(t := key e)) t ts = insort_key (key_at ?h) t ts"
      by (rule insort_key_cong) (auto simp: key_at_def t)
    then show ?thesis by (simp add: ts'_def insort_key_split usvs key_at_def)
  qed
  obtain h' tm where ins: "insert_after (last_or None us) t ?w = Some (?w\<lparr>store := h', timers := tm\<rparr>)"
      "h' t = Some ?n"
      "lchain tnext (h'(t \<mapsto> ?n\<lparr>tnext := first_of vs, tstate := Running\<rparr>)) tm (us @ t # vs)"
      "payload h' = payload ?h" "\<forall>a. a \<notin> set us \<longrightarrow> h' a = ?h a"
    using insert_after_chain [of ?w us vs t ?n Running] ch' t ts by auto
  obtain prev1 item1 where pos: "walk (sec_pass e) ?h None (timers w) = Some (prev1, item1)"
     "walk (usec_pass e) ?h prev1 item1 = Some (last_or None us, first_of vs)"
    using sort_position [OF ch' srt', of e] unfolding usvs by blast
  let ?h2 = "h'(t \<mapsto> ?n\<lparr>tnext := first_of vs, tstate := Running\<rparr>)"
  have "rescedule w t tv = Some (w\<lparr>store := ?h2, timers := tm\<rparr>)"
    using n pos ins(1,2) by (simp add: rescedule_def e_def [symmetric])
  moreover have "payload ?h2 = (payload (store w))(t \<mapsto> n\<lparr>expires := e, tstate := Running, tnext := None\<rparr>)"
    using ins(4) by auto
  moreover have "\<forall>a. a \<notin> set ts \<union> {t} \<longrightarrow> ?h2 a = store w a"
    using ins(5) ts by auto
  ultimately show ?thesis using ins(3) ts' by blast
qed

lemma sorted_map_cong: "(\<And>a. a \<in> set ts \<Longrightarrow> k a = k' a) \<Longrightarrow> sorted (map k ts) = sorted (map k' ts)"
  by (simp only: cong: map_cong)

lemma sorted_key_upd [simp]: "t \<notin> set ts \<Longrightarrow>
    sorted (map (key_at (h(t := v))) ts) = sorted (map (key_at h) ts)"
  by (rule sorted_map_cong) (auto simp: key_at_def)

end
