(* ===== verification/TimerInv.thy ===== *)
theory TimerInv
  imports TimerQueue
begin

text \<open>
  The invariant of a handle, with the list of running timers and the list of reusable records as
  ghost arguments: the two lists and the active timer are disjoint and together own every
  allocated record, running timers are in state \<open>Running\<close> and ordered by expiry, and at most
  four records are kept for reuse.  Each operation on timers keeps it and always returns.
\<close>

definition state_at :: "(addr \<rightharpoonup> TimerInternal) \<Rightarrow> addr \<Rightarrow> TimerState option" where
  "state_at h a = map_option tstate (h a)"

lemma state_at_payload: "state_at h a = map_option tstate (payload h a)"
  by (auto simp: state_at_def payload_def option.map_comp o_def)

lemma key_at_payload': "key_at h a = (case payload h a of None \<Rightarrow> (0, 0) | Some n \<Rightarrow> key (expires n))"
  by (auto simp: key_at_def payload_def split: option.splits)

lemma dom_payload [simp]: "dom (payload h) = dom h"
  by (auto simp: payload_def dom_def)

definition owned :: "TimeHandle \<Rightarrow> addr list \<Rightarrow> addr list \<Rightarrow> addr set" where
  "owned w ts fs = set ts \<union> set fs \<union> set_option (activeTimer w)"

definition timers_inv :: "TimeHandle \<Rightarrow> addr list \<Rightarrow> addr list \<Rightarrow> bool" where
  "timers_inv w ts fs \<longleftrightarrow>
     lchain tnext (store w) (timers w) ts \<and> lchain tnext (store w) (freeTimerList w) fs \<and>
     set ts \<inter> set fs = {} \<and> set_option (activeTimer w) \<inter> (set ts \<union> set fs) = {} \<and>
     freeTimers w = int (length fs) \<and> length fs \<le> 4 \<and>
     dom (store w) = owned w ts fs \<and> (\<forall>a \<in> owned w ts fs. a < brk w) \<and>
     (\<forall>a \<in> set ts. state_at (store w) a = Some Running) \<and>
     (\<forall>a \<in> set_option (activeTimer w). state_at (store w) a \<noteq> Some Running) \<and>
     sorted (map (key_at (store w)) ts)"

lemma timers_invD:
  assumes "timers_inv w ts fs"
  shows "lchain tnext (store w) (timers w) ts" "lchain tnext (store w) (freeTimerList w) fs"
    "set ts \<inter> set fs = {}" "set_option (activeTimer w) \<inter> (set ts \<union> set fs) = {}"
    "freeTimers w = int (length fs)" "length fs \<le> 4"
    "dom (store w) = owned w ts fs" "\<And>a. a \<in> owned w ts fs \<Longrightarrow> a < brk w"
    "\<And>a. a \<in> set ts \<Longrightarrow> state_at (store w) a = Some Running"
    "\<And>a. a \<in> set_option (activeTimer w) \<Longrightarrow> state_at (store w) a \<noteq> Some Running"
    "sorted (map (key_at (store w)) ts)" "distinct ts" "distinct fs"
  using assms by (auto simp: timers_inv_def dest: lchain_distinct)

lemma timers_inv_create: "timers_inv timerCreateHandle_r [] []"
  by (simp add: timers_inv_def timerCreateHandle_r_def owned_def)

text \<open>A state between two operations: the record \<open>t\<close> is allocated but on no list.\<close>

definition detached :: "TimeHandle \<Rightarrow> addr \<Rightarrow> TimerInternal \<Rightarrow> addr list \<Rightarrow> addr list \<Rightarrow> bool" where
  "detached w t n ts fs \<longleftrightarrow>
     lchain tnext (store w) (timers w) ts \<and> lchain tnext (store w) (freeTimerList w) fs \<and>
     set ts \<inter> set fs = {} \<and> set_option (activeTimer w) \<inter> (set ts \<union> set fs) = {} \<and>
     freeTimers w = int (length fs) \<and> length fs \<le> 4 \<and>
     store w t = Some n \<and> t \<notin> owned w ts fs \<and>
     dom (store w) = insert t (owned w ts fs) \<and> (\<forall>a \<in> insert t (owned w ts fs). a < brk w) \<and>
     (\<forall>a \<in> set ts. state_at (store w) a = Some Running) \<and>
     (\<forall>a \<in> set_option (activeTimer w). state_at (store w) a \<noteq> Some Running) \<and>
     sorted (map (key_at (store w)) ts)"

lemma rescedule_inv:
  fixes tv
  assumes det: "detached w t n ts fs"
  defines "e \<equiv> new_expiry (expires n) (mS n) tv"
  shows "\<exists>h' tm. rescedule w t tv = Some (w\<lparr>store := h', timers := tm\<rparr>) \<and>
     timers_inv (w\<lparr>store := h', timers := tm\<rparr>) (insort_key (key_at h') t ts) fs \<and>
     payload h' = (payload (store w))(t \<mapsto> n\<lparr>expires := e, tstate := Running, tnext := None\<rparr>)"
proof -
  have ch: "lchain tnext (store w) (timers w) ts" "lchain tnext (store w) (freeTimerList w) fs"
    and disj: "set ts \<inter> set fs = {}" "set_option (activeTimer w) \<inter> (set ts \<union> set fs) = {}"
    and fr: "freeTimers w = int (length fs)" "length fs \<le> 4"
    and t: "store w t = Some n" "t \<notin> set ts" "t \<notin> set fs" "t \<notin> set_option (activeTimer w)"
    and dom: "dom (store w) = insert t (owned w ts fs)" "\<forall>a \<in> insert t (owned w ts fs). a < brk w"
    and st: "\<forall>a \<in> set ts. state_at (store w) a = Some Running"
      "\<forall>a \<in> set_option (activeTimer w). state_at (store w) a \<noteq> Some Running"
    and srt: "sorted (map (key_at (store w)) ts)"
    using det by (auto simp: detached_def owned_def)
  obtain h' tm where r: "rescedule w t tv = Some (w\<lparr>store := h', timers := tm\<rparr>)"
      "lchain tnext h' tm (insort_key ((key_at (store w))(t := key e)) t ts)"
      "payload h' = (payload (store w))(t \<mapsto> n\<lparr>expires := e, tstate := Running, tnext := None\<rparr>)"
      "\<forall>a. a \<notin> set ts \<union> {t} \<longrightarrow> h' a = store w a"
    using rescedule_spec [OF ch(1) t(2,1) srt, of tv] unfolding e_def by blast
  have k: "key_at h' = (key_at (store w))(t := key e)"
    using r(3) by (auto simp: key_at_payload' fun_eq_iff)
  have s: "state_at h' = (state_at (store w))(t := Some Running)"
    using r(3) by (auto simp: state_at_payload fun_eq_iff)
  have "lchain tnext h' (freeTimerList w) fs"
    using ch(2) r(4) disj(1) t(3) by (subst lseg_cong [where h = "store w"]) auto
  moreover have "dom h' = insert t (owned w ts fs)"
    using arg_cong [OF r(3), of dom] dom(1) t(1) by auto
  moreover have "sorted (map (key_at h') (insort_key (key_at h') t ts))"
    using srt t(2) sorted_map_cong [of ts "key_at h'" "key_at (store w)"]
    by (simp add: sorted_insort_key k)
  ultimately have "timers_inv (w\<lparr>store := h', timers := tm\<rparr>) (insort_key (key_at h') t ts) fs"
    using r(2) disj fr dom(2) st t unfolding k [symmetric]
    by (auto simp: timers_inv_def owned_def set_insort_key s)
  with r show ?thesis by blast
qed

text \<open>Only the store and the two lists differ.\<close>

definition same_rest :: "TimeHandle \<Rightarrow> TimeHandle \<Rightarrow> bool" where
  "same_rest w w' \<longleftrightarrow> brk w' = brk w \<and> readings w' = readings w \<and> polls w' = polls w \<and>
     delay w' = delay w \<and> activeTimer w' = activeTimer w \<and> polld w' = polld w"

lemma recycle_inv:
  assumes det: "detached w t n ts fs"
  shows "\<exists>w' fs'. recycle w t = Some w' \<and> timers_inv w' ts fs' \<and>
     fs' = (if length fs < 4 then t # fs else fs) \<and>
     payload (store w') = (payload (store w))(t := if length fs < 4 then payload (store w) t else None) \<and>
     same_rest w w' \<and> timers w' = timers w"
proof (cases "length fs < 4")
  case True
  let ?h = "(store w)(t \<mapsto> n\<lparr>tnext := freeTimerList w\<rparr>)"
  have "sorted (map (key_at ?h) ts)" using det by (auto simp: detached_def owned_def)
  with det True show ?thesis
    by (intro exI [of _ "w\<lparr>store := ?h, freeTimerList := Some t, freeTimers := freeTimers w + 1\<rparr>"]
        exI [of _ "t # fs"])
      (auto simp: recycle_def detached_def timers_inv_def owned_def state_at_def payload_def same_rest_def)
next
  case False
  let ?h = "(store w)(t := None)"
  have "sorted (map (key_at ?h) ts)" using det by (auto simp: detached_def owned_def)
  with det False show ?thesis
    by (intro exI [of _ "w\<lparr>store := ?h\<rparr>"] exI [of _ fs])
      (auto simp: recycle_def detached_def timers_inv_def owned_def state_at_def payload_def same_rest_def)
qed

lemma take_record_spec:
  assumes inv: "timers_inv w ts fs"
  shows "\<exists>t w' fs'. take_record w = Some (t, w') \<and> t \<notin> owned w ts fs' \<and>
    (fs = t # fs' \<or> fs = [] \<and> fs' = [] \<and> t = brk w) \<and>
    lchain tnext (store w) (freeTimerList w') fs' \<and>
    w' = w\<lparr>brk := brk w', freeTimerList := freeTimerList w', freeTimers := int (length fs')\<rparr> \<and>
    (\<forall>a \<in> insert t (owned w ts fs'). a < brk w')"
proof (cases fs)
  case Nil
  with timers_invD [OF inv] show ?thesis
    by (intro exI [of _ "brk w"] exI [of _ "w\<lparr>brk := Suc (brk w)\<rparr>"] exI [of _ "[]"])
      (auto simp: take_record_def less_Suc_eq dest: less_not_refl2)
next
  case (Cons t fs')
  note D = timers_invD [OF inv, unfolded Cons]
  from D(2) obtain n where n: "freeTimerList w = Some t" "store w t = Some n" "lchain tnext (store w) (tnext n) fs'"
    by auto
  with D Cons show ?thesis
    by (intro exI [of _ t] exI [of _ "w\<lparr>freeTimerList := tnext n, freeTimers := int (length fs')\<rparr>"] exI [of _ fs'])
      (auto simp: take_record_def owned_def)
qed

lemma start_spec:
  assumes inv: "timers_inv w ts fs"
  shows "\<exists>t w' fs'. timerStart_r E w ms s r = Some (t, w') \<and>
     (fs = t # fs' \<or> fs = [] \<and> fs' = [] \<and> t \<notin> dom (store w)) \<and> t \<notin> set ts \<and>
     timers_inv w' (insort_key (key_at (store w')) t ts) fs' \<and>
     payload (store w') = (payload (store w))(t \<mapsto> \<lparr>mS = ms, sr = s, tref = r,
        expires = add_ms (gettimeofday E (readings w)) ms, lastsec = 0, tstate = Running, tnext = None\<rparr>) \<and>
     activeTimer w' = activeTimer w \<and> polld w' = polld w \<and> readings w' = Suc (readings w)"
proof -
  note D = timers_invD [OF inv]
  obtain t w1 fs' where tk: "take_record w = Some (t, w1)" "t \<notin> owned w ts fs'"
    "fs = t # fs' \<or> fs = [] \<and> fs' = [] \<and> t = brk w"
    "lchain tnext (store w) (freeTimerList w1) fs'"
    "w1 = w\<lparr>brk := brk w1, freeTimerList := freeTimerList w1, freeTimers := int (length fs')\<rparr>"
    "\<forall>a \<in> insert t (owned w ts fs'). a < brk w1"
    using take_record_spec [OF inv] by metis
  let ?n = "\<lparr>mS = ms, sr = s, tref = r, expires = gettimeofday E (readings w), lastsec = 0,
              tstate = Running, tnext = None\<rparr>"
  let ?w = "w1\<lparr>store := (store w1)(t \<mapsto> ?n), readings := Suc (readings w1)\<rparr>"
  have eqs: "store w1 = store w" "timers w1 = timers w" "activeTimer w1 = activeTimer w"
    "readings w1 = readings w" "polld w1 = polld w" "freeTimers w1 = int (length fs')"
    by (subst tk(5), simp)+
  have tn: "t \<notin> set ts" "t \<notin> set fs'" "t \<notin> set_option (activeTimer w)"
    using tk(2) by (auto simp: owned_def)
  have ow: "owned ?w ts fs' = owned w ts fs'" by (simp add: owned_def eqs)
  have fresh: "fs = [] \<Longrightarrow> t \<notin> dom (store w)" using tk(2,3) D(7) by auto
  have dom: "insert t (dom (store w)) = insert t (owned w ts fs')"
    using tk(3) D(7) by (auto simp: owned_def)
  have det: "detached ?w t ?n ts fs'"
  proof -
    have "sorted (map (key_at (store ?w)) ts)" using D(11) tn(1) by (simp add: eqs)
    moreover have "dom (store ?w) = insert t (owned ?w ts fs')" using dom unfolding ow by (simp add: eqs)
    ultimately show ?thesis using D tk(2,3,4,6) tn ow eqs
      unfolding detached_def by (auto simp: state_at_def)
  qed
  obtain h' tm where r: "rescedule ?w t None = Some (?w\<lparr>store := h', timers := tm\<rparr>)"
     "timers_inv (?w\<lparr>store := h', timers := tm\<rparr>) (insort_key (key_at h') t ts) fs'"
     "payload h' = (payload (store ?w))(t \<mapsto> ?n\<lparr>expires := new_expiry (expires ?n) (mS ?n) None,
        tstate := Running, tnext := None\<rparr>)"
    using rescedule_inv [OF det, of None] by blast
  show ?thesis
    using tk(1,3) r tn(1) fresh
    by (intro exI [of _ t] exI [of _ "?w\<lparr>store := h', timers := tm\<rparr>"] exI [of _ fs'])
      (auto simp: timerStart_r_def eqs new_expiry_def)
qed

lemma unlink_chain:
  assumes ch: "lchain tnext (store w) (timers w) (us @ t # vs)"
  shows "\<exists>h' tm. unlink_after (last_or None us) t w = Some (w\<lparr>store := h', timers := tm\<rparr>) \<and>
     lchain tnext h' tm (us @ vs) \<and> payload h' = payload (store w) \<and>
     (\<forall>a. a \<notin> set us \<longrightarrow> h' a = store w a)"
proof -
  obtain n where n: "lseg tnext (store w) (timers w) us (Some t)" "store w t = Some n"
      "lchain tnext (store w) (tnext n) vs"
    using ch by (auto simp: lseg_append)
  have dist: "distinct (us @ t # vs)" using ch by (rule lchain_distinct)
  show ?thesis
  proof (cases us rule: rev_cases)
    case Nil
    then show ?thesis using n
      by (intro exI [of _ "store w"] exI [of _ "tnext n"]) (auto simp: unlink_after_def)
  next
    case (snoc ws p)
    then obtain q where q: "store w p = Some q" using ch by (auto simp: lseg_append)
    let ?h = "(store w)(p \<mapsto> q\<lparr>tnext := tnext n\<rparr>)"
    have "lseg tnext ?h (timers w) us (tnext n)"
      using n(1) dist q unfolding snoc by (intro lseg_link) auto
    moreover have "lchain tnext ?h (tnext n) vs" using n(3) dist snoc by auto
    ultimately have "lchain tnext ?h (timers w) (us @ vs)" by (auto simp: lseg_append)
    moreover have "payload ?h = payload (store w)" using q by (auto simp: payload_def)
    ultimately show ?thesis using snoc q n
      by (intro exI [of _ ?h] exI [of _ "timers w"]) (auto simp: unlink_after_def)
  qed
qed

text \<open>A change that keeps links, keys and run states keeps the invariant.\<close>

lemma timers_inv_same:
  assumes inv: "timers_inv w ts fs" and st: "store w t = Some n"
    and n': "tnext n' = tnext n" "expires n' = expires n" "t \<in> set ts \<Longrightarrow> tstate n' = Running"
      "t \<in> set_option (activeTimer w) \<Longrightarrow> tstate n' \<noteq> Running"
  shows "timers_inv (w\<lparr>store := (store w)(t \<mapsto> n')\<rparr>) ts fs"
proof -
  have "key_at ((store w)(t \<mapsto> n')) = key_at (store w)"
    using st n'(2) by (auto simp: key_at_def fun_eq_iff)
  moreover have "lseg tnext ((store w)(t \<mapsto> n')) p as q = lseg tnext (store w) p as q" for p as q
    using st n'(1) by (rule lseg_upd_same)
  ultimately show ?thesis
    using inv st n'(3,4) by (auto simp: timers_inv_def owned_def state_at_def)
qed

lemma unlink_detached:
  assumes inv: "timers_inv w ts fs" and t: "t \<in> set ts"
  shows "\<exists>h' tm n. (walk (\<lambda>a _. t \<noteq> a) (store w) None (timers w) \<bind>
        (\<lambda>(prev, item). case item of None \<Rightarrow> Some w | Some i \<Rightarrow> unlink_after prev i w \<bind> (\<lambda>w. recycle w i)))
        = recycle (w\<lparr>store := h', timers := tm\<rparr>) t \<and>
     detached (w\<lparr>store := h', timers := tm\<rparr>) t n (remove1 t ts) fs \<and> payload h' = payload (store w)"
proof -
  note D = timers_invD [OF inv]
  obtain us vs where ts: "ts = us @ t # vs" and us: "t \<notin> set us" using split_list_first [OF t] by blast
  have wh1: "takeWhile (\<lambda>a. t \<noteq> a) ts = us"
    unfolding ts by (subst takeWhile_append2) (use us in auto)
  have wh2: "dropWhile (\<lambda>a. t \<noteq> a) ts = t # vs"
    unfolding ts by (subst dropWhile_append2) (use us in auto)
  have rem: "remove1 t ts = us @ vs" using us ts by (simp add: remove1_append)
  obtain h' tm where u: "unlink_after (last_or None us) t w = Some (w\<lparr>store := h', timers := tm\<rparr>)"
     "lchain tnext h' tm (us @ vs)" "payload h' = payload (store w)" "\<forall>a. a \<notin> set us \<longrightarrow> h' a = store w a"
    using unlink_chain D(1) unfolding ts by blast
  have k: "key_at h' = key_at (store w)" "state_at h' = state_at (store w)"
    using u(3) by (auto simp: key_at_payload' state_at_payload fun_eq_iff)
  have dom: "dom h' = dom (store w)" using arg_cong [OF u(3), of dom] by simp
  obtain n where n: "h' t = Some n" using dom D(7) t by (auto simp: owned_def dom_def)
  have "lchain tnext h' (freeTimerList w) fs"
    using D(2,3) u(4) ts by (subst lseg_cong [where h = "store w"]) auto
  moreover have "sorted (map (key_at (store w)) (us @ vs))" using D(11) ts by (auto simp: sorted_append)
  moreover have "set ts = insert t (set (us @ vs))" "t \<notin> set (us @ vs)" using D(12) ts by auto
  ultimately have "detached (w\<lparr>store := h', timers := tm\<rparr>) t n (us @ vs) fs"
    using D(3-10) u(2) n dom unfolding detached_def by (auto simp: owned_def k)
  moreover have "(walk (\<lambda>a _. t \<noteq> a) (store w) None (timers w) \<bind>
        (\<lambda>(prev, item). case item of None \<Rightarrow> Some w | Some i \<Rightarrow> unlink_after prev i w \<bind> (\<lambda>w. recycle w i)))
        = recycle (w\<lparr>store := h', timers := tm\<rparr>) t"
    unfolding walk_chain [OF D(1)] wh1 wh2 using u(1) by simp
  ultimately show ?thesis using u(3) unfolding rem by blast
qed

lemma stop_spec:
  assumes inv: "timers_inv w ts fs" and t: "t \<in> dom (store w)"
  shows "\<exists>w' fs'. timerStop_r w t = Some w' \<and> timers_inv w' (remove1 t ts) fs' \<and>
     same_rest w w' \<and>
     (\<forall>a. a \<noteq> t \<longrightarrow> payload (store w') a = payload (store w) a) \<and>
     (\<forall>m. payload (store w') t = Some m \<longrightarrow>
        (\<exists>n. payload (store w) t = Some n \<and> mS m = mS n \<and> lastsec m = lastsec n)) \<and>
     (activeTimer w = Some t \<longrightarrow> state_at (store w') t = Some Deleted)"
proof -
  note D = timers_invD [OF inv]
  from t obtain n where n: "store w t = Some n" by auto
  consider (run) "t \<in> set ts" | (idle) "t \<in> set fs" "tstate n = Running" | (other) "t \<notin> set ts" "tstate n \<noteq> Running"
    using D(7,10) t n by (auto simp: owned_def state_at_def)
  then show ?thesis
  proof cases
    case run
    obtain h' tm m where u: "(walk (\<lambda>a _. t \<noteq> a) (store w) None (timers w) \<bind>
        (\<lambda>(prev, item). case item of None \<Rightarrow> Some w | Some i \<Rightarrow> unlink_after prev i w \<bind> (\<lambda>w. recycle w i)))
        = recycle (w\<lparr>store := h', timers := tm\<rparr>) t"
      "detached (w\<lparr>store := h', timers := tm\<rparr>) t m (remove1 t ts) fs" "payload h' = payload (store w)"
      using unlink_detached [OF inv run] by blast
    have "tstate n = Running" using D(9) [OF run] n by (simp add: state_at_def)
    moreover have "activeTimer w \<noteq> Some t" using D(4) run by auto
    moreover obtain w' fs' where r: "recycle (w\<lparr>store := h', timers := tm\<rparr>) t = Some w'"
      "timers_inv w' (remove1 t ts) fs'"
      "payload (store w') = (payload h')(t := if length fs < 4 then payload h' t else None)"
      "same_rest w w'"
      using recycle_inv [OF u(2)] by (auto simp: same_rest_def)
    moreover have "timerStop_r w t = recycle (w\<lparr>store := h', timers := tm\<rparr>) t"
      unfolding timerStop_r_def n using u(1) \<open>tstate n = Running\<close> by simp
    ultimately show ?thesis using u(3)
      by (intro exI [of _ w'] exI [of _ fs']) simp
  next
    case idle
    then have "t \<notin> set ts" using D(3) by auto
    moreover have "activeTimer w \<noteq> Some t" using D(4) idle by auto
    moreover have dw: "dropWhile (\<lambda>a. t \<noteq> a) ts = []" using \<open>t \<notin> set ts\<close> by auto
    moreover have "timerStop_r w t = Some w"
      unfolding timerStop_r_def n walk_chain [OF D(1)] dw using idle by simp
    ultimately show ?thesis using inv
      by (intro exI [of _ w] exI [of _ fs]) (simp add: same_rest_def remove1_idem)
  next
    case other
    then show ?thesis using n timers_inv_same [OF inv n, of "n\<lparr>tstate := Deleted\<rparr>"]
      by (intro exI [of _ "w\<lparr>store := (store w)(t \<mapsto> n\<lparr>tstate := Deleted\<rparr>)\<rparr>"] exI [of _ fs])
        (auto simp: timerStop_r_def remove1_idem state_at_def payload_def same_rest_def)
  qed
qed

lemma modify_spec:
  assumes inv: "timers_inv w ts fs" and t: "store w t = Some n"
  shows "timerModify w t ms r = Some (w\<lparr>store := (store w)(t \<mapsto> n\<lparr>mS := ms, tref := r\<rparr>)\<rparr>) \<and>
     timers_inv (w\<lparr>store := (store w)(t \<mapsto> n\<lparr>mS := ms, tref := r\<rparr>)\<rparr>) ts fs"
proof -
  have "timers_inv (w\<lparr>store := (store w)(t \<mapsto> n\<lparr>mS := ms, tref := r\<rparr>)\<rparr>) ts fs"
    by (rule timers_inv_same [OF inv t])
      (use t timers_invD(9,10) [OF inv, of t] in \<open>auto simp: state_at_def\<close>)
  then show ?thesis using t by (simp add: timerModify_def)
qed


end
