(* ===== verification/PollTable.thy ===== *)
theory PollTable
  imports SelectTimer
begin

text \<open>
  The table of file descriptors as a map from descriptors to the events and the call-back they
  are registered with: \<open>poll_setcallback\<close> updates it, \<open>poll_unsetcallback\<close> (which packs both
  arrays) removes a key, and neither writes outside the arrays.
\<close>

section \<open>The table of file descriptors\<close>

definition poll_ext_inv :: "pollextensions \<Rightarrow> bool" where
  "poll_ext_inv e \<longleftrightarrow> length (spollfd e) = maxfd e \<and> length (spollfn e) = maxfd e \<and>
     nfds e \<le> maxfd e \<and>
     (\<forall>i < nfds e. \<forall>j < nfds e. fd (spollfd e ! i) = fd (spollfd e ! j) \<longrightarrow> i = j)"

definition poll_inv :: "TimeHandle \<Rightarrow> bool" where
  "poll_inv w \<longleftrightarrow> (case polld w of None \<Rightarrow> True | Some e \<Rightarrow> poll_ext_inv e)"

text \<open>What a descriptor is registered with: the events and the call-back.\<close>

definition lookup_fd :: "pollextensions \<Rightarrow> int \<Rightarrow> (16 word \<times> PollFn) option" where
  "lookup_fd e d = map_option (\<lambda>i. (events (spollfd e ! i), spollfn e ! i)) (find_fd d (spollfd e) (nfds e))"

lemma find_fd_None: "n \<le> length ps \<Longrightarrow> find_fd d ps n = None \<longleftrightarrow> (\<forall>i < n. fd (ps ! i) \<noteq> d)"
proof (induction d ps n rule: find_fd.induct)
  case (1 d p ps n)
  then show ?case by (auto simp: less_Suc_eq_0_disj)
qed auto

lemma find_fd_Some: "n \<le> length ps \<Longrightarrow> find_fd d ps n = Some i \<Longrightarrow> i < n \<and> fd (ps ! i) = d"
  by (induction d ps n arbitrary: i rule: find_fd.induct) (auto split: if_splits)

lemma find_fd_iff:
  assumes "poll_ext_inv e"
  shows "find_fd d (spollfd e) (nfds e) = Some i \<longleftrightarrow> i < nfds e \<and> fd (spollfd e ! i) = d"
proof
  assume "find_fd d (spollfd e) (nfds e) = Some i"
  then show "i < nfds e \<and> fd (spollfd e ! i) = d"
    using assms find_fd_Some [of "nfds e" "spollfd e" d i] by (simp add: poll_ext_inv_def)
next
  assume i: "i < nfds e \<and> fd (spollfd e ! i) = d"
  then obtain j where j: "find_fd d (spollfd e) (nfds e) = Some j"
    using assms find_fd_None [of "nfds e" "spollfd e" d] by (auto simp: poll_ext_inv_def)
  with i show "find_fd d (spollfd e) (nfds e) = Some i"
    using assms find_fd_Some [of "nfds e" "spollfd e" d j] by (auto simp: poll_ext_inv_def)
qed

lemma lookup_fd_iff: "poll_ext_inv e \<Longrightarrow> lookup_fd e d = Some v \<longleftrightarrow>
    (\<exists>i < nfds e. fd (spollfd e ! i) = d \<and> v = (events (spollfd e ! i), spollfn e ! i))"
  by (auto simp: lookup_fd_def find_fd_iff)

lemma lookup_fd_None: "poll_ext_inv e \<Longrightarrow> lookup_fd e d = None \<longleftrightarrow> find_fd d (spollfd e) (nfds e) = None"
  by (simp add: lookup_fd_def)

lemma pack_spec:
  assumes "length (spollfd e) = maxfd e" "length (spollfn e) = maxfd e" "nfds e < maxfd e" "i \<le> nfds e"
  shows "\<exists>e'. pack i e = Some e' \<and> maxfd e' = maxfd e \<and> nfds e' = nfds e \<and>
     length (spollfd e') = maxfd e \<and> length (spollfn e') = maxfd e \<and>
     (\<forall>j. j < maxfd e \<longrightarrow> spollfd e' ! j = (if i \<le> j \<and> j < nfds e then spollfd e ! Suc j else spollfd e ! j)) \<and>
     (\<forall>j. j < maxfd e \<longrightarrow> spollfn e' ! j = (if i \<le> j \<and> j < nfds e then spollfn e ! Suc j else spollfn e ! j))"
  using assms
proof (induction i e rule: pack.induct)
  case (1 i e)
  show ?case
  proof (cases "i < nfds e")
    case True
    then have lt: "Suc i < length (spollfd e)" "Suc i < length (spollfn e)" using "1.prems" by auto
    let ?e = "e\<lparr>spollfd := (spollfd e)[i := spollfd e ! Suc i], spollfn := (spollfn e)[i := spollfn e ! Suc i]\<rparr>"
    have "pack i e = pack (Suc i) ?e" using True lt by (simp add: pack.simps [of i e])
    moreover obtain e' where "pack (Suc i) ?e = Some e'" "maxfd e' = maxfd ?e" "nfds e' = nfds ?e"
     "length (spollfd e') = maxfd ?e" "length (spollfn e') = maxfd ?e"
     "\<And>j. j < maxfd ?e \<Longrightarrow> spollfd e' ! j = (if Suc i \<le> j \<and> j < nfds ?e then spollfd ?e ! Suc j else spollfd ?e ! j)"
     "\<And>j. j < maxfd ?e \<Longrightarrow> spollfn e' ! j = (if Suc i \<le> j \<and> j < nfds ?e then spollfn ?e ! Suc j else spollfn ?e ! j)"
      using "1.IH" [of "spollfd e ! Suc i" "spollfn e ! Suc i"] True lt "1.prems" by auto
    ultimately show ?thesis using True lt "1.prems"
      by (intro exI [of _ e']) (auto simp: nth_list_update)
  next
    case False
    then have "pack i e = Some e" by (simp add: pack.simps [of i e])
    with False "1.prems" show ?thesis by (intro exI [of _ e]) auto
  qed
qed


lemma option_ext: "(\<And>v. x = Some v \<longleftrightarrow> y = Some v) \<Longrightarrow> x = y"
  by (cases x; cases y) auto

lemma setcallback_spec:
  assumes e: "polld w = Some e" and inv: "poll_ext_inv e"
  shows "\<exists>rc e'. poll_setcallback w f p r = Some (rc, w\<lparr>polld := Some e'\<rparr>) \<and> poll_ext_inv e' \<and>
     maxfd e' = maxfd e \<and>
     rc = (if lookup_fd e (fd p) \<noteq> None then 1 else if nfds e < maxfd e then 0 else -1) \<and>
     nfds e' = (if rc = 0 then Suc (nfds e) else nfds e) \<and>
     lookup_fd e' = (if rc = -1 then lookup_fd e
                     else (lookup_fd e)(fd p \<mapsto> (events p, \<lparr>fn = f, userRef = r\<rparr>)))"
proof (cases "find_fd (fd p) (spollfd e) (nfds e)")
  case (Some i)
  then have i: "i < nfds e" "fd (spollfd e ! i) = fd p" using find_fd_iff [OF inv] by auto
  let ?e = "e\<lparr>spollfd := (spollfd e)[i := (spollfd e ! i)\<lparr>events := events p\<rparr>],
              spollfn := (spollfn e)[i := \<lparr>fn = f, userRef = r\<rparr>]\<rparr>"
  have fds: "fd (spollfd ?e ! j) = fd (spollfd e ! j)" if "j < nfds e" for j
    using that inv by (cases "j = i") (auto simp: poll_ext_inv_def)
  have inv': "poll_ext_inv ?e"
    unfolding poll_ext_inv_def using inv fds by (simp add: poll_ext_inv_def)
  have find: "find_fd d (spollfd ?e) (nfds ?e) = find_fd d (spollfd e) (nfds e)" for d
    by (rule option_ext, unfold find_fd_iff [OF inv'] find_fd_iff [OF inv]) (use fds in auto)
  have "lookup_fd ?e d = ((lookup_fd e)(fd p \<mapsto> (events p, \<lparr>fn = f, userRef = r\<rparr>))) d" for d
  proof (cases "d = fd p")
    case True
    then show ?thesis unfolding lookup_fd_def find using Some i inv by (simp add: poll_ext_inv_def)
  next
    case False
    then have "find_fd d (spollfd e) (nfds e) \<noteq> Some i" using i by (auto simp: find_fd_iff [OF inv])
    then show ?thesis unfolding lookup_fd_def find using False
      by (cases "find_fd d (spollfd e) (nfds e)") auto
  qed
  then have "lookup_fd ?e = (lookup_fd e)(fd p \<mapsto> (events p, \<lparr>fn = f, userRef = r\<rparr>))" by (rule ext)
  with Some i e inv inv' show ?thesis
    by (intro exI [of _ 1] exI [of _ ?e]) (auto simp: poll_setcallback_def lookup_fd_def poll_ext_inv_def)
next
  case None
  then have none: "\<forall>i < nfds e. fd (spollfd e ! i) \<noteq> fd p"
    using find_fd_None inv by (auto simp: poll_ext_inv_def)
  show ?thesis
  proof (cases "nfds e < maxfd e")
    case True
    let ?e = "e\<lparr>nfds := Suc (nfds e), spollfd := (spollfd e)[nfds e := p\<lparr>revents := 0\<rparr>],
                spollfn := (spollfn e)[nfds e := \<lparr>fn = f, userRef = r\<rparr>]\<rparr>"
    have inv': "poll_ext_inv ?e"
      using inv none True by (auto simp: poll_ext_inv_def nth_list_update less_Suc_eq)
    have "lookup_fd ?e = (lookup_fd e)(fd p \<mapsto> (events p, \<lparr>fn = f, userRef = r\<rparr>))"
    proof (rule ext, rule option_ext)
      fix d v
      show "lookup_fd ?e d = Some v \<longleftrightarrow> ((lookup_fd e)(fd p \<mapsto> (events p, \<lparr>fn = f, userRef = r\<rparr>))) d = Some v"
        using inv none True unfolding lookup_fd_iff [OF inv']
        by (cases "d = fd p") (auto simp: lookup_fd_iff nth_list_update poll_ext_inv_def less_Suc_eq, metis less_irrefl_nat)
    qed
    with None True e inv' show ?thesis
      by (intro exI [of _ 0] exI [of _ ?e]) (auto simp: poll_setcallback_def lookup_fd_def)
  next
    case False
    with None e inv show ?thesis
      by (intro exI [of _ "-1"] exI [of _ e]) (auto simp: poll_setcallback_def lookup_fd_def poll_ext_inv_def)
  qed
qed

lemma unsetcallback_spec:
  assumes e: "polld w = Some e" and inv: "poll_ext_inv e"
  shows "\<exists>e'. poll_unsetcallback w d = Some (w\<lparr>polld := Some e'\<rparr>) \<and> poll_ext_inv e' \<and>
     maxfd e' = maxfd e \<and>
     nfds e' = (if lookup_fd e d = None then nfds e else nfds e - 1) \<and>
     lookup_fd e' = (lookup_fd e)(d := None)"
proof (cases "find_fd d (spollfd e) (nfds e)")
  case None
  then have "(lookup_fd e)(d := None) = lookup_fd e" by (auto simp: lookup_fd_def)
  with None e inv show ?thesis
    by (intro exI [of _ e]) (auto simp: poll_unsetcallback_def lookup_fd_def)
next
  case (Some i)
  then have i: "i < nfds e" "fd (spollfd e ! i) = d" using find_fd_iff [OF inv] by auto
  have bnd: "nfds e - 1 < maxfd e" "i \<le> nfds e - 1" using i inv by (auto simp: poll_ext_inv_def)
  obtain e' where p: "pack i (e\<lparr>nfds := nfds e - 1\<rparr>) = Some e'" "maxfd e' = maxfd e" "nfds e' = nfds e - 1"
     "length (spollfd e') = maxfd e" "length (spollfn e') = maxfd e"
     "\<And>j. j < maxfd e \<Longrightarrow> spollfd e' ! j = (if i \<le> j \<and> j < nfds e - 1 then spollfd e ! Suc j else spollfd e ! j)"
     "\<And>j. j < maxfd e \<Longrightarrow> spollfn e' ! j = (if i \<le> j \<and> j < nfds e - 1 then spollfn e ! Suc j else spollfn e ! j)"
    using pack_spec [of "e\<lparr>nfds := nfds e - 1\<rparr>" i] inv i bnd
    by (auto simp: poll_ext_inv_def cong: if_cong)
  have le: "nfds e \<le> maxfd e" using inv by (simp add: poll_ext_inv_def)
  define ix where "ix j = (if i \<le> j then Suc j else j)" for j
  have moved: "spollfd e' ! j = spollfd e ! ix j" "spollfn e' ! j = spollfn e ! ix j" "ix j < nfds e" "ix j \<noteq> i"
    if "j < nfds e - 1" for j using that p(6,7) [of j] le by (auto simp: ix_def)
  have onto: "\<exists>k < nfds e - 1. ix k = j" if "j < nfds e" "j \<noteq> i" for j
    using that i by (intro exI [of _ "if j < i then j else j - 1"]) (auto simp: ix_def)
  have inj: "ix j = ix k \<Longrightarrow> j = k" for j k by (auto simp: ix_def split: if_splits)
  have uniq: "j = k" if "j < nfds e" "k < nfds e" "fd (spollfd e ! j) = fd (spollfd e ! k)" for j k
    using inv that unfolding poll_ext_inv_def by blast
  have "j = k" if "j < nfds e'" "k < nfds e'" "fd (spollfd e' ! j) = fd (spollfd e' ! k)" for j k
  proof -
    have jk: "j < nfds e - 1" "k < nfds e - 1" using that p(3) by simp_all
    have "fd (spollfd e ! ix j) = fd (spollfd e ! ix k)" using that(3) unfolding moved(1) [OF jk(1)] moved(1) [OF jk(2)] .
    then show ?thesis by (rule inj [OF uniq [OF moved(3) [OF jk(1)] moved(3) [OF jk(2)]]])
  qed
  then have inv': "poll_ext_inv e'"
    unfolding poll_ext_inv_def p(2,3,4,5) using le by auto
  have "lookup_fd e' = (lookup_fd e)(d := None)"
  proof (rule ext, rule option_ext)
    fix c v
    have "lookup_fd e' c = Some v \<longleftrightarrow>
        (\<exists>k < nfds e - 1. fd (spollfd e ! ix k) = c \<and> v = (events (spollfd e ! ix k), spollfn e ! ix k))"
      unfolding lookup_fd_iff [OF inv'] p(3) using moved(1,2) by metis
    also have "\<dots> \<longleftrightarrow> (\<exists>j < nfds e. j \<noteq> i \<and> fd (spollfd e ! j) = c \<and> v = (events (spollfd e ! j), spollfn e ! j))"
      using moved(3,4) onto by blast
    also have "\<dots> \<longleftrightarrow> c \<noteq> d \<and> lookup_fd e c = Some v"
      unfolding lookup_fd_iff [OF inv] using uniq i by blast
    finally show "lookup_fd e' c = Some v \<longleftrightarrow> ((lookup_fd e)(d := None)) c = Some v" by auto
  qed
  with Some i p(1,2,3) e inv' show ?thesis
    by (intro exI [of _ e']) (auto simp: poll_unsetcallback_def lookup_fd_def)
qed

end
