(* ===== verification/TimerRun.thy ===== *)
theory TimerRun
  imports TimerInv PollTable
begin

text \<open>
  Handlers and the loop of \<open>timerGetDelay_r\<close>.  The interface calls a handler may make form an
  \<open>interface_step\<close>: each keeps the invariant of the handle and leaves the active timer and the
  size of the table alone, so any sequence of calls does.  Interpreted a second time, with the
  set of expired timers in the frame, the same contract gives termination of the loop for a
  clock that does not move during the call.
\<close>

definition handle_inv :: "TimeHandle \<Rightarrow> bool" where
  "handle_inv w \<longleftrightarrow> (\<exists>ts fs. timers_inv w ts fs) \<and> poll_inv w"

definition handle_frame :: "TimeHandle \<Rightarrow> TimeHandle \<Rightarrow> bool" where
  "handle_frame w w' \<longleftrightarrow> activeTimer w' = activeTimer w \<and>
     map_option maxfd (polld w') = map_option maxfd (polld w)"

fun api_ok :: "api_call \<Rightarrow> TimeHandle \<Rightarrow> bool" where
  "api_ok (Start ms s r) w \<longleftrightarrow> True"
| "api_ok (Stop t) w \<longleftrightarrow> t \<in> dom (store w)"
| "api_ok (Modify t ms r) w \<longleftrightarrow> t \<in> dom (store w)"
| "api_ok (SetCb f p r) w \<longleftrightarrow> polld w \<noteq> None"
| "api_ok (UnsetCb d) w \<longleftrightarrow> polld w \<noteq> None"

lemma timers_inv_irrelevant [simp]:
  "timers_inv (w\<lparr>polld := e\<rparr>) ts fs = timers_inv w ts fs"
  "timers_inv (w\<lparr>readings := k\<rparr>) ts fs = timers_inv w ts fs"
  "timers_inv (w\<lparr>polls := k\<rparr>) ts fs = timers_inv w ts fs"
  "timers_inv (w\<lparr>delay := d\<rparr>) ts fs = timers_inv w ts fs"
  by (simp_all add: timers_inv_def owned_def)

lemma poll_inv_cong: "polld w' = polld w \<Longrightarrow> poll_inv w' = poll_inv w"
  by (simp add: poll_inv_def)

text \<open>The effect of one call on the two ghost lists.\<close>

lemma api_step_spec:
  assumes inv: "timers_inv w ts fs" "poll_inv w" and ok: "api_ok c w"
  shows "\<exists>w' ts' fs'. api_step E c w = Some w' \<and> timers_inv w' ts' fs' \<and> poll_inv w' \<and>
    handle_frame w w' \<and>
    ts' = (case c of Start ms s r \<Rightarrow> insort_key (key_at (store w')) (fst (the (timerStart_r E w ms s r))) ts
           | Stop t \<Rightarrow> remove1 t ts | _ \<Rightarrow> ts)"
proof (cases c)
  case (Start ms s r)
  with start_spec [OF inv(1), of E ms s r] inv(2) show ?thesis
    by (fastforce simp: handle_frame_def poll_inv_def)
next
  case (Stop t)
  with ok have t: "t \<in> dom (store w)" by simp
  from stop_spec [OF inv(1) t] inv(2) Stop show ?thesis
    by (fastforce simp: handle_frame_def poll_inv_def same_rest_def)
next
  case (Modify t ms r)
  with ok obtain n where n: "store w t = Some n" by auto
  from modify_spec [OF inv(1) n, of ms r] inv(2) Modify show ?thesis
    by (fastforce simp: handle_frame_def poll_inv_def)
next
  case (SetCb f p r)
  with ok obtain e where e: "polld w = Some e" by auto
  have "poll_ext_inv e" using inv(2) e by (simp add: poll_inv_def)
  from setcallback_spec [OF e this, of f p r] inv(1) e SetCb show ?thesis
    by (fastforce simp: handle_frame_def poll_inv_def)
next
  case (UnsetCb d)
  with ok obtain e where e: "polld w = Some e" by auto
  have "poll_ext_inv e" using inv(2) e by (simp add: poll_inv_def)
  from unsetcallback_spec [OF e this, of d] inv(1) e UnsetCb show ?thesis
    by (fastforce simp: handle_frame_def poll_inv_def)
qed

lemma api_step_keeps:
  "handle_inv w \<Longrightarrow> api_ok c w \<Longrightarrow> \<exists>w'. api_step E c w = Some w' \<and> handle_inv w' \<and> handle_frame w w'"
  unfolding handle_inv_def using api_step_spec [of w _ _ c E] by blast

interpretation api: interface_step "api_step E" api_ok handle_inv handle_frame for E
  by unfold_locales (use api_step_keeps [of _ _ E] in \<open>fastforce simp: handle_frame_def\<close>)+

definition handlers_ok :: "env \<Rightarrow> bool" where
  "handlers_ok E \<longleftrightarrow> (\<forall>s r w. handle_inv w \<longrightarrow> activeTimer w \<noteq> None \<longrightarrow>
       cmds_ok (api_step E) api_ok (fst (on_timeout E s r w)) w) \<and>
     (\<forall>f p r w. handle_inv w \<longrightarrow> cmds_ok (api_step E) api_ok (on_fd E f p r w) w)"

section \<open>One expired timer\<close>

text \<open>The state in which the handler of the head of the queue runs.\<close>

definition activated :: "TimeHandle \<Rightarrow> addr \<Rightarrow> TimerInternal \<Rightarrow> TimeHandle" where
  "activated w item n = w\<lparr>timers := tnext n, store := (store w)(item \<mapsto> n\<lparr>tstate := Active\<rparr>),
     activeTimer := Some item\<rparr>"

lemma activated_inv:
  assumes inv: "timers_inv w (item # ts) fs" and act: "activeTimer w = None"
    and n: "store w item = Some n"
  shows "timers_inv (activated w item n) ts fs"
proof -
  note D = timers_invD [OF inv]
  have notin: "item \<notin> set ts" "item \<notin> set fs" using D(3,12) by auto
  have "lchain tnext (store w) (tnext n) ts" using D(1) n by auto
  moreover have "sorted (map (key_at (store w)) ts)" using D(11) by auto
  ultimately show ?thesis
    using D notin n act unfolding timers_inv_def activated_def
    by (auto simp: owned_def state_at_def)
qed

lemma deactivate_detached:
  assumes inv: "timers_inv w ts fs" and act: "activeTimer w = Some item"
  shows "\<exists>n. detached (w\<lparr>activeTimer := None\<rparr>) item n ts fs \<and> tstate n \<noteq> Running"
proof -
  note D = timers_invD [OF inv]
  obtain n where n: "store w item = Some n" using D(7) act by (auto simp: owned_def)
  then have "detached (w\<lparr>activeTimer := None\<rparr>) item n ts fs"
    using D act unfolding detached_def by (auto simp: owned_def)
  moreover have "tstate n \<noteq> Running" using D(10) [of item] act n by (simp add: state_at_def)
  ultimately show ?thesis by blast
qed

lemma run_timeout_spec:
  assumes inv: "timers_inv w (item # ts) fs" "poll_inv w" and act: "activeTimer w = None"
    and n: "store w item = Some n"
    and ok: "cmds_ok (api_step E) api_ok (fst (on_timeout E (sr n) (tref n) (activated w item n))) (activated w item n)"
  shows "\<exists>v. run_cmds (api_step E) (fst (on_timeout E (sr n) (tref n) (activated w item n))) (activated w item n) = Some v \<and>
     run_timeout E w item = Some (snd (on_timeout E (sr n) (tref n) (activated w item n)), v\<lparr>activeTimer := None\<rparr>) \<and>
     handle_inv v \<and> activeTimer v = Some item \<and>
     map_option maxfd (polld v) = map_option maxfd (polld w)"
proof -
  have "handle_inv (activated w item n)"
    using activated_inv [OF inv(1) act n] inv(2)
    by (auto simp: handle_inv_def activated_def poll_inv_def)
  then obtain v where v: "run_cmds (api_step E) (fst (on_timeout E (sr n) (tref n) (activated w item n))) (activated w item n) = Some v"
      "handle_inv v" "handle_frame (activated w item n) v"
    using api.run_keeps ok by blast
  then show ?thesis using n act
    by (auto simp: run_timeout_def activated_def handle_frame_def Let_def split: prod.splits)
qed

text \<open>What happens to the record after its handler: back in the queue, or out of use.\<close>

lemma retire_spec:
  assumes det: "detached w item n ts fs" and pinv: "poll_inv w"
  shows "\<exists>w' ts' fs'. retire w item rc tv = Some w' \<and> timers_inv w' ts' fs' \<and> poll_inv w' \<and>
     activeTimer w' = activeTimer w \<and> readings w' = readings w \<and> polld w' = polld w \<and>
     (\<forall>a. a \<noteq> item \<longrightarrow> payload (store w') a = payload (store w) a) \<and>
     (if tstate n = Deleted \<or> rc = 0
      then ts' = ts \<and> payload (store w') item \<in> {None, payload (store w) item}
      else ts' = insort_key (key_at (store w')) item ts \<and>
        payload (store w') item = Some (n\<lparr>expires := new_expiry (expires n) (mS n) (Some tv),
           tstate := Running, tnext := None, lastsec := tv_sec tv\<rparr>))"
proof -
  have n: "store w item = Some n" using det by (simp add: detached_def)
  show ?thesis
  proof (cases "tstate n = Deleted \<or> rc = 0")
    case True
    from recycle_inv [OF det] obtain w' fs' where r: "recycle w item = Some w'" "timers_inv w' ts fs'"
      "payload (store w') = (payload (store w))(item := if length fs < 4 then payload (store w) item else None)"
      "same_rest w w'" by auto
    have "retire w item rc tv = recycle w item" using n True by (simp add: retire_def)
    with r True pinv show ?thesis
      by (intro exI [of _ w'] exI [of _ ts] exI [of _ fs']) (auto simp: same_rest_def poll_inv_def)
  next
    case False
    from rescedule_inv [OF det, of "Some tv"] obtain h' tm where r:
      "rescedule w item (Some tv) = Some (w\<lparr>store := h', timers := tm\<rparr>)"
      "timers_inv (w\<lparr>store := h', timers := tm\<rparr>) (insort_key (key_at h') item ts) fs"
      "payload h' = (payload (store w))(item \<mapsto> n\<lparr>expires := new_expiry (expires n) (mS n) (Some tv),
         tstate := Running, tnext := None\<rparr>)" by blast
    from payload_Some [of h' item] r(3) obtain m where m: "h' item = Some m"
      "n\<lparr>expires := new_expiry (expires n) (mS n) (Some tv), tstate := Running, tnext := None\<rparr> = m\<lparr>tnext := None\<rparr>"
      by auto
    let ?w = "w\<lparr>timers := tm, store := h'(item \<mapsto> m\<lparr>lastsec := tv_sec tv\<rparr>)\<rparr>"
    have "tstate m = Running" using arg_cong [OF m(2), of tstate] by simp
    moreover have "activeTimer w \<noteq> Some item" using det by (auto simp: detached_def owned_def)
    ultimately have inv: "timers_inv ?w (insort_key (key_at h') item ts) fs"
      using timers_inv_same [OF r(2), of item m "m\<lparr>lastsec := tv_sec tv\<rparr>"] m(1) by simp
    have key: "key_at (h'(item \<mapsto> m\<lparr>lastsec := tv_sec tv\<rparr>)) = key_at h'"
      using m(1) by (auto simp: key_at_def fun_eq_iff)
    have "m\<lparr>lastsec := tv_sec tv, tnext := None\<rparr> = n\<lparr>expires := new_expiry (expires n) (mS n) (Some tv),
           tstate := Running, tnext := None, lastsec := tv_sec tv\<rparr>"
      using m(2) by (cases m; cases n) simp
    moreover have "retire w item rc tv = Some ?w" using n False r(1) m(1) by (simp add: retire_def)
    ultimately show ?thesis using inv key False r(3) m(1) pinv
      by - (rule exI [of _ ?w], rule exI [of _ "insort_key (key_at h') item ts"], rule exI [of _ fs],
        auto simp: poll_inv_def)
  qed
qed

end
