(* ===== verification/TimerClock.thy ===== *)
theory TimerClock
  imports TimerRun
begin

text \<open>
  Rounds of the loop of \<open>timerGetDelay_r\<close> under a clock that does not move during the call:
  each round fires an expired timer, which is then not expired any more, and no call a handler
  makes adds an expired one.  So the loop ends, and the delay is exact.
\<close>

definition running :: "TimeHandle \<Rightarrow> addr set" where
  "running w = {a. \<exists>ts. lchain tnext (store w) (timers w) ts \<and> a \<in> set ts}"

definition expired :: "timeval \<Rightarrow> TimeHandle \<Rightarrow> addr set" where
  "expired tv w = {a \<in> running w. key_at (store w) a < key tv}"

lemma running_inv: "timers_inv w ts fs \<Longrightarrow> running w = set ts"
  using timers_invD(1) [of w ts fs] lchain_unique [of tnext "store w" "timers w" ts]
  unfolding running_def by blast

lemma finite_expired: "timers_inv w ts fs \<Longrightarrow> finite (expired tv w)"
  by (simp add: expired_def running_inv)

lemma add_ms_later: "0 \<le> ms \<Longrightarrow> key tv \<le> key (add_ms tv ms)"
proof -
  assume "0 \<le> ms"
  then have "0 \<le> ms sdiv 1000" "0 \<le> ms smod 1000"
    by (simp_all add: signed_divide_int_def signed_modulo_int_def sgn_if)
  then show ?thesis by (auto simp: add_ms_def key_def Let_def)
qed

lemma new_expiry_later: "0 \<le> ms \<Longrightarrow> key tv \<le> key (new_expiry e ms (Some tv))"
  using add_ms_later [of ms tv] by (auto simp: new_expiry_def Let_def earlier_key)

text \<open>Periods are not negative, and no timer was last restarted after second \<open>L\<close>.\<close>

definition calm :: "nat \<Rightarrow> TimeHandle \<Rightarrow> bool" where
  "calm L w \<longleftrightarrow> handle_inv w \<and> (\<forall>a n. store w a = Some n \<longrightarrow> 0 \<le> mS n \<and> lastsec n \<le> int L)"

lemma calm_payload: "calm L w \<longleftrightarrow> handle_inv w \<and>
    (\<forall>a n. payload (store w) a = Some n \<longrightarrow> 0 \<le> mS n \<and> lastsec n \<le> int L)"
  by (force simp: calm_def payload_def)

fun calm_ok :: "api_call \<Rightarrow> TimeHandle \<Rightarrow> bool" where
  "calm_ok (Start ms s r) w \<longleftrightarrow> 0 \<le> ms"
| "calm_ok (Modify t ms r) w \<longleftrightarrow> 0 \<le> ms \<and> t \<in> dom (store w)"
| "calm_ok c w \<longleftrightarrow> api_ok c w"

definition calm_frame :: "timeval \<Rightarrow> TimeHandle \<Rightarrow> TimeHandle \<Rightarrow> bool" where
  "calm_frame tv w w' \<longleftrightarrow> handle_frame w w' \<and> expired tv w' \<subseteq> expired tv w"

definition frozen :: "env \<Rightarrow> timeval \<Rightarrow> env" where
  "frozen E tv = E\<lparr>gettimeofday := \<lambda>_. tv\<rparr>"

lemma expired_mono:
  assumes "timers_inv w ts fs" "timers_inv w' ts' fs'"
    and "\<And>a. a \<in> set ts' \<Longrightarrow> key_at (store w') a < key tv \<Longrightarrow> a \<in> set ts \<and> key_at (store w) a < key tv"
  shows "expired tv w' \<subseteq> expired tv w"
  using assms by (auto simp: expired_def running_inv)

lemma set_only: "api_step E (SetCb f p r) w = Some w' \<Longrightarrow> \<exists>e. w' = w\<lparr>polld := e\<rparr>"
  by (auto simp: poll_setcallback_def Let_def split: Option.bind_splits option.splits if_splits)
    (metis TimeHandle.surjective TimeHandle.update_convs(10))+

lemma unset_only: "api_step E (UnsetCb d) w = Some w' \<Longrightarrow> \<exists>e. w' = w\<lparr>polld := e\<rparr>"
  by (auto simp: poll_unsetcallback_def Let_def split: Option.bind_splits option.splits if_splits)
    (metis TimeHandle.surjective TimeHandle.update_convs(10))+

lemma calm_step:
  assumes calm: "calm L w" and ok: "calm_ok c w"
  shows "\<exists>w'. api_step (frozen E tv) c w = Some w' \<and> calm L w' \<and> calm_frame tv w w'"
proof -
  from calm obtain ts fs where inv: "timers_inv w ts fs" "poll_inv w" by (auto simp: calm_def handle_inv_def)
  have pay: "\<And>a n. payload (store w) a = Some n \<Longrightarrow> 0 \<le> mS n \<and> lastsec n \<le> int L"
    using calm by (auto simp: calm_payload)
  have "api_ok c w" using ok by (cases c) auto
  then obtain w' where st: "api_step (frozen E tv) c w = Some w'" "handle_inv w'" "handle_frame w w'"
    using api_step_keeps [of w c "frozen E tv"] calm by (auto simp: calm_def)
  have "(\<forall>a n. payload (store w') a = Some n \<longrightarrow> 0 \<le> mS n \<and> lastsec n \<le> int L) \<and> expired tv w' \<subseteq> expired tv w"
  proof (cases c)
    case (Start ms s r)
    from start_spec [OF inv(1), of "frozen E tv" ms s r] obtain t v fs' where v:
      "timerStart_r (frozen E tv) w ms s r = Some (t, v)" "t \<notin> set ts"
      "timers_inv v (insort_key (key_at (store v)) t ts) fs'"
      "payload (store v) = (payload (store w))(t \<mapsto> \<lparr>mS = ms, sr = s, tref = r,
        expires = add_ms tv ms, lastsec = 0, tstate = Running, tnext = None\<rparr>)"
      unfolding frozen_def by auto
    have "v = w'" using st(1) v(1) Start by simp
    note r = v [unfolded this]
    have "\<not> key_at (store w') t < key tv" "\<And>a. a \<noteq> t \<Longrightarrow> key_at (store w') a = key_at (store w) a"
      using r(4) add_ms_later [of ms tv] ok Start by (auto simp: key_at_payload')
    then have "expired tv w' \<subseteq> expired tv w"
      using r(2) by (intro expired_mono [OF inv(1) r(3)]) (auto simp: set_insort_key, metis)
    then show ?thesis using pay r(4) ok Start by auto
  next
    case (Stop t)
    with ok have "t \<in> dom (store w)" by simp
    from stop_spec [OF inv(1) this] obtain fs' where r: "timers_inv w' (remove1 t ts) fs'"
      "\<forall>a. a \<noteq> t \<longrightarrow> payload (store w') a = payload (store w) a"
      "\<forall>m. payload (store w') t = Some m \<longrightarrow>
        (\<exists>n. payload (store w) t = Some n \<and> mS m = mS n \<and> lastsec m = lastsec n)"
      using st(1) Stop by auto
    have k: "\<And>a. a \<noteq> t \<Longrightarrow> key_at (store w') a = key_at (store w) a"
      using r(2) by (simp add: key_at_payload')
    have "t \<notin> set (remove1 t ts)" using timers_invD(12) [OF inv(1)] by simp
    then have "expired tv w' \<subseteq> expired tv w"
      using k by (intro expired_mono [OF inv(1) r(1)]) (auto dest: set_remove1_subset [THEN subsetD], metis)
    moreover have "\<forall>n. payload (store w') t = Some n \<longrightarrow> 0 \<le> mS n \<and> lastsec n \<le> int L"
      using r(3) pay by metis
    ultimately show ?thesis using pay r(2) by metis
  next
    case (Modify t ms r)
    with ok obtain n where n: "store w t = Some n" by auto
    from modify_spec [OF inv(1) n, of ms r] st(1) Modify
    have r: "w' = w\<lparr>store := (store w)(t \<mapsto> n\<lparr>mS := ms, tref := r\<rparr>)\<rparr>"
      "timers_inv w' ts fs" by auto
    have "payload (store w) t = Some (n\<lparr>tnext := None\<rparr>)" using n by (simp add: payload_def)
    moreover have "key_at (store w') = key_at (store w)" using n r(1) by (auto simp: key_at_def fun_eq_iff)
    then have "expired tv w' \<subseteq> expired tv w" by (intro expired_mono [OF inv(1) r(2)]) auto
    ultimately show ?thesis using r(1) pay [of t] pay ok Modify by auto
  next
    case (SetCb f p r)
    then obtain e where "w' = w\<lparr>polld := e\<rparr>" using st(1) set_only [of "frozen E tv" f p r w w'] by auto
    then show ?thesis using pay by (simp add: expired_def running_def)
  next
    case (UnsetCb d)
    then obtain e where "w' = w\<lparr>polld := e\<rparr>" using st(1) unset_only [of "frozen E tv" d w w'] by auto
    then show ?thesis using pay by (simp add: expired_def running_def)
  qed
  with st show ?thesis by (auto simp: calm_payload calm_frame_def)
qed


interpretation calm: interface_step "api_step (frozen E tv)" calm_ok "calm L" "calm_frame tv" for E tv L
proof unfold_locales
  show "calm L w \<Longrightarrow> calm_ok c w \<Longrightarrow> \<exists>w'. api_step (frozen E tv) c w = Some w'" for w c
    using calm_step [of L w c E tv] by blast
  show "calm L w \<Longrightarrow> calm_ok c w \<Longrightarrow> api_step (frozen E tv) c w = Some w' \<Longrightarrow> calm L w' \<and> calm_frame tv w w'"
    for w c w' using calm_step [of L w c E tv] by auto
qed (auto simp: calm_frame_def handle_frame_def)

definition calm_handlers :: "env \<Rightarrow> nat \<Rightarrow> bool" where
  "calm_handlers E L \<longleftrightarrow> (\<forall>s r w. calm L w \<longrightarrow> activeTimer w \<noteq> None \<longrightarrow>
     cmds_ok (api_step E) calm_ok (fst (on_timeout E s r w)) w)"

lemma expired_sub_dom: "calm L w \<Longrightarrow> finite (expired tv w)"
  by (auto simp: calm_def handle_inv_def finite_expired)

text \<open>One round of the loop removes the timer it fired from the expired ones and adds none.\<close>

lemma expire_round:
  assumes calm: "calm L w" and act: "activeTimer w = None" and hd: "timers w = Some item"
    and n: "store w item = Some n" and exp: "earlier (expires n) tv"
    and hs: "calm_handlers (frozen E tv) L" and L: "int L = tv_sec tv"
  shows "\<exists>rc v w'. run_timeout (frozen E tv) w item = Some (rc, v) \<and>
     retire (v\<lparr>readings := Suc (readings v)\<rparr>) item rc tv = Some w' \<and>
     calm L w' \<and> activeTimer w' = None \<and> expired tv w' \<subseteq> expired tv w - {item} \<and> item \<in> expired tv w \<and>
     map_option maxfd (polld w') = map_option maxfd (polld w)"
proof -
  let ?E = "frozen E tv"
  from calm obtain ts0 fs where inv0: "timers_inv w ts0 fs" and pinv: "poll_inv w"
    by (auto simp: calm_def handle_inv_def)
  from timers_invD(1) [OF inv0] hd obtain ts where ts0: "ts0 = item # ts" by (auto simp: lchain_Some)
  note inv = inv0 [unfolded ts0]
  have dist: "item \<notin> set ts" using timers_invD(12) [OF inv] by simp
  let ?a = "activated w item n"
  have ainv: "timers_inv ?a ts fs" using activated_inv [OF inv act n] .
  have acalm: "calm L ?a"
    using ainv pinv calm n by (auto simp: calm_def handle_inv_def activated_def poll_inv_def)
  have aexp: "expired tv ?a = expired tv w - {item}"
    using dist unfolding expired_def running_inv [OF ainv] running_inv [OF inv]
    by (auto simp: activated_def key_at_def)
  have item: "item \<in> expired tv w"
    using exp n by (auto simp: expired_def running_inv [OF inv] key_at_def earlier_key)
  have cok: "cmds_ok (api_step ?E) calm_ok (fst (on_timeout ?E (sr n) (tref n) ?a)) ?a"
    using hs acalm by (auto simp: calm_handlers_def activated_def)
  obtain v where v: "run_cmds (api_step ?E) (fst (on_timeout ?E (sr n) (tref n) ?a)) ?a = Some v"
     "calm L v" "calm_frame tv ?a v"
    using calm.run_keeps [OF acalm cok] by blast
  have va: "activeTimer v = Some item" "map_option maxfd (polld v) = map_option maxfd (polld w)"
    using v(3) by (auto simp: calm_frame_def handle_frame_def activated_def)
  let ?rc = "snd (on_timeout ?E (sr n) (tref n) ?a)"
  have run: "run_timeout ?E w item = Some (?rc, v\<lparr>activeTimer := None\<rparr>)"
    using n act v(1) by (auto simp: run_timeout_def activated_def Let_def split: prod.splits)
  from v(2) obtain us gs where vinv: "timers_inv v us gs" "poll_inv v" by (auto simp: calm_def handle_inv_def)
  let ?v = "v\<lparr>activeTimer := None, readings := Suc (readings v)\<rparr>"
  obtain m where m: "detached ?v item m us gs"
    using deactivate_detached [OF vinv(1) va(1)] by (auto simp: detached_def owned_def)
  have "poll_inv ?v" using vinv(2) by (simp add: poll_inv_def)
  from retire_spec [OF m this, of ?rc tv] obtain w' ts' fs' where w': "retire ?v item ?rc tv = Some w'"
     "timers_inv w' ts' fs'" "poll_inv w'" "activeTimer w' = None" "polld w' = polld v"
     "\<forall>a. a \<noteq> item \<longrightarrow> payload (store w') a = payload (store v) a"
     and fate: "if tstate m = Deleted \<or> ?rc = 0
      then ts' = us \<and> payload (store w') item \<in> {None, payload (store ?v) item}
      else ts' = insort_key (key_at (store w')) item us \<and>
        payload (store w') item = Some (m\<lparr>expires := new_expiry (expires m) (mS m) (Some tv),
           tstate := Running, tnext := None, lastsec := tv_sec tv\<rparr>)"
    by auto
  have mpay: "payload (store v) item = Some (m\<lparr>tnext := None\<rparr>)" "item \<notin> set us"
    using m by (auto simp: detached_def payload_def owned_def)
  have mms: "0 \<le> mS m" "lastsec m \<le> int L"
    using v(2) [unfolded calm_payload] mpay(1) by force+
  have notexp: "item \<in> set ts' \<Longrightarrow> \<not> key_at (store w') item < key tv"
    using fate mpay(2) new_expiry_later [OF mms(1), of tv "expires m"]
    by (auto simp: key_at_payload' split: if_splits)
  have sub: "set ts' \<subseteq> insert item (set us)"
    using fate by (auto simp: set_insort_key split: if_splits)
  have keys: "a \<noteq> item \<Longrightarrow> key_at (store w') a = key_at (store v) a" for a
    using w'(6) by (simp add: key_at_payload')
  have "expired tv w' \<subseteq> expired tv v - {item}"
    using notexp sub keys unfolding expired_def running_inv [OF w'(2)] running_inv [OF vinv(1)]
    by (auto, metis)
  moreover have "expired tv v \<subseteq> expired tv w - {item}" using v(3) aexp by (simp add: calm_frame_def)
  moreover have "calm L w'"
  proof -
    have "0 \<le> mS k \<and> lastsec k \<le> int L" if "payload (store w') a = Some k" for a k
    proof (cases "a = item")
      case True
      then show ?thesis using fate that mpay(1) mms L by (auto split: if_splits)
    next
      case False
      then show ?thesis using that w'(6) v(2) by (auto simp: calm_payload)
    qed
    then show ?thesis using w'(2,3) by (auto simp: calm_payload handle_inv_def)
  qed
  ultimately show ?thesis using run w'(1,4,5) va(2) item
    by (intro exI [of _ ?rc] exI [of _ "v\<lparr>activeTimer := None\<rparr>"] exI [of _ w']) auto
qed

lemma gettimeofday_frozen [simp]: "gettimeofday (frozen E tv) k = tv"
  by (simp add: frozen_def)

lemma head_least:
  assumes inv: "timers_inv w ts fs" and hd: "timers w = Some item" and n: "store w item = Some n"
    and ne: "\<not> earlier (expires n) tv"
  shows "expired tv w = {}"
proof -
  from timers_invD(1) [OF inv] hd obtain us where ts: "ts = item # us" by (auto simp: lchain_Some)
  have "key_at (store w) item \<le> key_at (store w) a" if "a \<in> set ts" for a
    using timers_invD(11) [OF inv] that unfolding ts by auto
  moreover have "\<not> key_at (store w) item < key tv" using ne n by (simp add: key_at_def earlier_key)
  ultimately show ?thesis unfolding expired_def running_inv [OF inv] by force
qed

lemma expire_loop_frozen:
  assumes calm: "calm L w" and act: "activeTimer w = None"
    and hs: "calm_handlers (frozen E tv) L" and L: "int L = tv_sec tv"
  shows "\<exists>w'. expire_loop (frozen E tv) w tv = Some (tv, w') \<and> calm L w' \<and> activeTimer w' = None \<and>
     expired tv w' = {} \<and> map_option maxfd (polld w') = map_option maxfd (polld w)"
  using calm act
proof (induction "card (expired tv w)" arbitrary: w rule: less_induct)
  case less
  note unf = expire_loop.simps [of "frozen E tv" w tv]
  from less.prems(1) obtain ts fs where inv: "timers_inv w ts fs" by (auto simp: calm_def handle_inv_def)
  show ?case
  proof (cases "timers w")
    case None
    then have "expired tv w = {}" by (simp add: expired_def running_def)
    then show ?thesis using None less.prems by (simp add: unf)
  next
    case (Some item)
    then have "item \<in> set ts" using timers_invD(1) [OF inv] by (auto simp: lchain_Some)
    then obtain n where n: "store w item = Some n" using timers_invD(7) [OF inv] by (auto simp: owned_def)
    show ?thesis
    proof (cases "earlier (expires n) tv")
      case True
      obtain rc v w' where r: "run_timeout (frozen E tv) w item = Some (rc, v)"
        "retire (v\<lparr>readings := Suc (readings v)\<rparr>) item rc tv = Some w'"
        "calm L w'" "activeTimer w' = None" "expired tv w' \<subseteq> expired tv w - {item}" "item \<in> expired tv w"
        "map_option maxfd (polld w') = map_option maxfd (polld w)"
        using expire_round [OF less.prems Some n True hs L] by blast
      have "expired tv w' \<subset> expired tv w" using r(5,6) by blast
      then have "card (expired tv w') < card (expired tv w)"
        by (rule psubset_card_mono [OF expired_sub_dom [OF less.prems(1)]])
      from less.hyps [OF this r(3,4)] show ?thesis
        using Some n True r(1,2,7) by (auto simp: unf)
    next
      case False
      have "lastsec n \<le> tv_sec tv" using less.prems(1) n L by (auto simp: calm_def)
      then have "step_back w item tv = Some w" using n by (simp add: step_back_def)
      moreover have "expired tv w = {}" by (rule head_least [OF inv Some n False])
      ultimately show ?thesis using less.prems Some n False by (simp add: unf)
    qed
  qed
qed

text \<open>Microseconds.\<close>

definition usecs :: "timeval \<Rightarrow> int" where
  "usecs t = 1000000 * tv_sec t + tv_usec t"

lemma set_delay_spec:
  assumes "timers w = Some item" and "store w item = Some n"
  shows "\<exists>d. set_delay w tv = Some (Some d, w\<lparr>delay := d\<rparr>) \<and> usecs d = usecs (expires n) - usecs tv \<and>
     (\<not> earlier (expires n) tv \<longrightarrow> 0 \<le> tv_sec d)"
  using assms by (auto simp: set_delay_def usecs_def Let_def earlier_def)

text \<open>The loop of \<open>poll_execute\<close> over the ready descriptors.\<close>

lemma poll_dispatch_total:
  assumes inv: "handle_inv w" and e: "polld w = Some e" and rc: "0 < rc" and hs: "handlers_ok E"
  shows "\<exists>w'. poll_dispatch E w i rc = Some w' \<and> handle_inv w' \<and> handle_frame w w'"
  using inv e rc
proof (induction "nat rc + (maxfd e - i)" arbitrary: w e i rc rule: less_induct)
  case less
  note unf = poll_dispatch.simps [of E w i rc]
  have pe: "poll_ext_inv e" using less.prems by (simp add: handle_inv_def poll_inv_def)
  show ?case
  proof (cases "i < nfds e")
    case False
    then show ?thesis using less.prems by (auto simp: unf handle_frame_def)
  next
    case True
    then have lt: "i < length (spollfd e)" "i < length (spollfn e)" "i < maxfd e"
      using pe by (auto simp: poll_ext_inv_def)
    let ?p = "spollfd e ! i" and ?f = "spollfn e ! i"
    show ?thesis
    proof (cases "dispatchable ?p")
      case False
      have "nat rc + (maxfd e - Suc i) < nat rc + (maxfd e - i)" using lt by simp
      from less.hyps [OF this less.prems] show ?thesis
        using less.prems True lt False by (simp add: unf)
    next
      case disp: True
      have cok: "cmds_ok (api_step E) api_ok (on_fd E (fn ?f) ?p (userRef ?f) w) w"
        using hs less.prems(1) by (simp add: handlers_ok_def)
      obtain v where v: "run_cmds (api_step E) (on_fd E (fn ?f) ?p (userRef ?f) w) w = Some v"
        "handle_inv v" "handle_frame w v"
        using api.run_keeps [OF less.prems(1) cok] by blast
      then obtain e' where e': "polld v = Some e'" "maxfd e' = maxfd e"
        using less.prems(2) by (auto simp: handle_frame_def)
      have lt': "i < length (spollfd e')" using v(2) e' lt by (auto simp: handle_inv_def poll_inv_def poll_ext_inv_def)
      show ?thesis
      proof (cases "rc = 1")
        case True
        then show ?thesis using less.prems \<open>i < nfds e\<close> lt disp v
          by (simp add: poll_dispatch.simps [of E w i 1])
      next
        case False
        let ?i = "if fd ?p = fd (spollfd e' ! i) then Suc i else i"
        have m: "nat (rc - 1) + (maxfd e' - ?i) < nat rc + (maxfd e - i)" "0 < rc - 1"
          using e'(2) less.prems(3) False by auto
        obtain w' where "poll_dispatch E v ?i (rc - 1) = Some w'" "handle_inv w'" "handle_frame v w'"
          using less.hyps [OF m(1) v(2) e'(1) m(2)] by blast
        then show ?thesis using less.prems \<open>i < nfds e\<close> lt lt' disp v e' False
          by (auto simp: unf intro: api.frame_trans)
      qed
    qed
  qed
qed

end
