(* ===== verification/TimerProps.thy ===== *)
theory TimerProps
  imports TimerClock
begin

text \<open>
  What \<open>SelectTimer.c\<close> guarantees to its users: timers, the table of descriptors as a
  registry, and one pass of the poll loop.
\<close>

section \<open>The registry of descriptors\<close>

text \<open>
  The contract a user of the call-back table relies on.  \<open>reg\<close> answers 1 for a changed entry,
  0 for a new one and -1 when the table is full.
\<close>

locale fd_registry =
  fixes reg :: "'t \<Rightarrow> 'd \<Rightarrow> 'v \<Rightarrow> (int \<times> 't) option"
    and unreg :: "'t \<Rightarrow> 'd \<Rightarrow> 't option"
    and lookup :: "'t \<Rightarrow> 'd \<Rightarrow> 'v option"
    and used :: "'t \<Rightarrow> nat"
    and capacity :: "'t \<Rightarrow> nat"
    and inv :: "'t \<Rightarrow> bool"
  assumes reg_law: "inv t \<Longrightarrow> \<exists>rc t'. reg t d v = Some (rc, t') \<and> inv t' \<and> capacity t' = capacity t \<and>
      rc = (if lookup t d \<noteq> None then 1 else if used t < capacity t then 0 else -1) \<and>
      used t' = (if rc = 0 then Suc (used t) else used t) \<and>
      lookup t' = (if rc = -1 then lookup t else (lookup t)(d \<mapsto> v))"
    and unreg_law: "inv t \<Longrightarrow> \<exists>t'. unreg t d = Some t' \<and> inv t' \<and> capacity t' = capacity t \<and>
      used t' = (if lookup t d = None then used t else used t - 1) \<and> lookup t' = (lookup t)(d := None)"
begin

lemma reg_then_lookup: "inv t \<Longrightarrow> reg t d v = Some (rc, t') \<Longrightarrow> 0 \<le> rc \<Longrightarrow> lookup t' d = Some v"
  using reg_law [of t d v] by auto

lemma reg_full: "inv t \<Longrightarrow> lookup t d = None \<Longrightarrow> used t = capacity t \<Longrightarrow>
    \<exists>t'. reg t d v = Some (-1, t') \<and> lookup t' = lookup t"
  using reg_law [of t d v] by auto

lemma reg_unreg:
  assumes "inv t" "reg t d v = Some (rc, t')"
  shows "\<exists>t''. unreg t' d = Some t'' \<and> inv t'' \<and> lookup t'' = (lookup t)(d := None)"
proof -
  from reg_law [OF assms(1), of d v] assms(2)
  have "inv t'" and l: "lookup t' = (if rc = -1 then lookup t else (lookup t)(d \<mapsto> v))" by auto
  with unreg_law [of t' d] show ?thesis by (fastforce split: if_splits)
qed

lemma reg_two:
  assumes inv: "inv t" and cap: "used t + 2 \<le> capacity t" and new: "lookup t c = None" "lookup t d = None" and "c \<noteq> d"
  shows "\<exists>t1 t2. reg t c u = Some (0, t1) \<and> reg t1 d v = Some (0, t2) \<and> inv t2 \<and>
     lookup t2 = (lookup t)(c \<mapsto> u, d \<mapsto> v)"
proof -
  from reg_law [OF inv, of c u] cap new obtain t1 where
    t1: "reg t c u = Some (0, t1)" "inv t1" "capacity t1 = capacity t" "used t1 = Suc (used t)"
      "lookup t1 = (lookup t)(c \<mapsto> u)" by auto
  with reg_law [of t1 d v] cap new \<open>c \<noteq> d\<close> show ?thesis by auto
qed

end

definition set_cb :: "TimeHandle \<Rightarrow> int \<Rightarrow> 16 word \<times> PollFn \<Rightarrow> (int \<times> TimeHandle) option" where
  "set_cb w d v = poll_setcallback w (fn (snd v)) \<lparr>fd = d, events = fst v, revents = 0\<rparr> (userRef (snd v))"

definition registered :: "TimeHandle \<Rightarrow> int \<Rightarrow> (16 word \<times> PollFn) option" where
  "registered w d = (case polld w of None \<Rightarrow> None | Some e \<Rightarrow> lookup_fd e d)"

definition with_table :: "TimeHandle \<Rightarrow> bool" where
  "with_table w \<longleftrightarrow> (case polld w of None \<Rightarrow> False | Some e \<Rightarrow> poll_ext_inv e)"

definition table_used :: "TimeHandle \<Rightarrow> nat" where
  "table_used w = (case polld w of None \<Rightarrow> 0 | Some e \<Rightarrow> nfds e)"

definition table_size :: "TimeHandle \<Rightarrow> nat" where
  "table_size w = (case polld w of None \<Rightarrow> 0 | Some e \<Rightarrow> maxfd e)"

lemmas table_defs = registered_def with_table_def table_used_def table_size_def

interpretation fds: fd_registry set_cb poll_unsetcallback registered table_used table_size with_table
proof unfold_locales
  fix t d v
  assume "with_table t"
  then obtain e where e: "polld t = Some e" "poll_ext_inv e" by (auto simp: with_table_def split: option.splits)
  show "\<exists>rc t'. set_cb t d v = Some (rc, t') \<and> with_table t' \<and> table_size t' = table_size t \<and>
      rc = (if registered t d \<noteq> None then 1 else if table_used t < table_size t then 0 else -1) \<and>
      table_used t' = (if rc = 0 then Suc (table_used t) else table_used t) \<and>
      registered t' = (if rc = -1 then registered t else (registered t)(d \<mapsto> v))"
    using setcallback_spec [OF e, of "fn (snd v)" "\<lparr>fd = d, events = fst v, revents = 0\<rparr>" "userRef (snd v)"] e
    unfolding set_cb_def table_defs fun_eq_iff by (cases v) auto
  show "\<exists>t'. poll_unsetcallback t d = Some t' \<and> with_table t' \<and> table_size t' = table_size t \<and>
      table_used t' = (if registered t d = None then table_used t else table_used t - 1) \<and>
      registered t' = (registered t)(d := None)"
    using unsetcallback_spec [OF e, of d] e unfolding table_defs fun_eq_iff by auto
qed


section \<open>Destroying a handle\<close>

lemma free_list_chain:
  "lchain tnext h p as \<Longrightarrow> distinct as \<Longrightarrow> free_list h p = Some (\<lambda>a. if a \<in> set as then None else h a)"
proof (induction as arbitrary: h p)
  case Nil
  then show ?case by (simp add: free_list.simps)
next
  case (Cons a as)
  then obtain n where n: "p = Some a" "h a = Some n" "lchain tnext h (tnext n) as" by auto
  then have "lchain tnext (h(a := None)) (tnext n) as" using Cons.prems by simp
  then have "free_list h p = Some (\<lambda>b. if b \<in> set as then None else (h(a := None)) b)"
    using Cons.IH [OF \<open>lchain tnext (h(a := None)) (tnext n) as\<close>] Cons.prems(2) n(1,2)
    by (simp add: free_list.simps [of h "Some a"] del: fun_upd_apply)
  moreover have "(\<lambda>b. if b \<in> set as then None else (h(a := None)) b) = (\<lambda>b. if b \<in> set (a # as) then None else h b)"
    by auto
  ultimately show ?case by simp
qed

lemma destroy_empty:
  assumes "timers_inv w ts fs"
  shows "timerDestroyHandle_r w = Some Map.empty"
proof -
  note D = timers_invD [OF assms]
  let ?h1 = "\<lambda>a. if a \<in> set ts then None else store w a"
  have "lchain tnext ?h1 (freeTimerList w) fs"
    using D(2,3) by (subst lseg_cong [where h = "store w"]) auto
  from free_list_chain [OF this D(13)]
  have f: "free_list ?h1 (freeTimerList w) = Some (\<lambda>a. if a \<in> set fs \<union> set ts then None else store w a)"
    by (simp add: fun_eq_iff)
  have rest: "a \<notin> set ts \<union> set fs \<Longrightarrow> activeTimer w \<noteq> Some a \<Longrightarrow> store w a = None" for a
    using D(7) by (auto simp: owned_def dom_def)
  show ?thesis
    using free_list_chain [OF D(1,12)] f D(4,7) rest
    by (auto simp: timerDestroyHandle_r_def free_one_def owned_def dom_def fun_eq_iff split: option.splits)
qed

section \<open>One pass of the poll loop\<close>

lemma handle_inv_polls [simp]: "handle_inv (w\<lparr>polls := k\<rparr>) = handle_inv w"
  by (simp add: handle_inv_def poll_inv_def)

lemma handle_inv_polld: "handle_inv w \<Longrightarrow> poll_ext_inv e \<Longrightarrow> handle_inv (w\<lparr>polld := Some e\<rparr>)"
  by (simp add: handle_inv_def poll_inv_def)

lemma poll_once_spec:
  assumes "handle_inv w" and e: "polld w = Some e"
  shows "\<exists>rc w'. poll_once E w t = Some (rc, w') \<and> handle_inv w' \<and> handle_frame w w' \<and>
     rc = pa_rc (poll_sys E (polls w) (take (nfds e) (spollfd e)) t) \<and> polls w' = Suc (polls w) \<and>
     activeTimer w' = activeTimer w"
proof -
  let ?ps = "map (\<lambda>(i, p). if i < nfds e then p\<lparr>revents := pa_revents (poll_sys E (polls w) (take (nfds e) (spollfd e)) t) i\<rparr> else p)
              (enumerate 0 (spollfd e))"
  have len: "length ?ps = length (spollfd e)" by simp
  have "fd (?ps ! i) = fd (spollfd e ! i)" if "i < length (spollfd e)" for i
    using that by (simp add: nth_enumerate_eq)
  then have "poll_ext_inv (e\<lparr>spollfd := ?ps\<rparr>)"
    using assms unfolding handle_inv_def poll_inv_def poll_ext_inv_def by (simp del: map_map)
  then have "handle_inv (w\<lparr>polls := Suc (polls w), polld := Some (e\<lparr>spollfd := ?ps\<rparr>)\<rparr>)"
    using assms(1) by (simp add: handle_inv_polld)
  moreover have "handle_inv (w\<lparr>polls := Suc (polls w)\<rparr>)" using assms(1) by simp
  ultimately show ?thesis using e
    by (simp add: poll_once_def Let_def handle_frame_def)
qed

lemma get_delay_frozen:
  assumes "calm L w" "activeTimer w = None" "calm_handlers (frozen E tv) L" "int L = tv_sec tv"
  shows "\<exists>r w'. timerGetDelay_r (frozen E tv) w = Some (r, w') \<and> calm L w' \<and> activeTimer w' = None \<and>
     expired tv w' = {} \<and> (r = None \<longleftrightarrow> timers w' = None) \<and>
     map_option maxfd (polld w') = map_option maxfd (polld w) \<and>
     (\<forall>d. r = Some d \<longrightarrow> (\<exists>item n. timers w' = Some item \<and> store w' item = Some n \<and>
        usecs d = usecs (expires n) - usecs tv \<and> 0 \<le> tv_sec d))"
proof -
  let ?w = "w\<lparr>readings := Suc (readings w)\<rparr>"
  have "calm L ?w" using assms(1) by (auto simp: calm_def handle_inv_def poll_inv_def)
  from expire_loop_frozen [OF this _ assms(3,4)] assms(2) obtain v where v:
    "expire_loop (frozen E tv) ?w tv = Some (tv, v)" "calm L v" "activeTimer v = None"
    "expired tv v = {}" "map_option maxfd (polld v) = map_option maxfd (polld w)"
    by (auto simp del: gettimeofday_frozen)
  show ?thesis
  proof (cases "timers v")
    case None
    then show ?thesis using v by (auto simp: timerGetDelay_r_def set_delay_def Let_def)
  next
    case (Some item)
    from v(2) obtain ts fs where inv: "timers_inv v ts fs" by (auto simp: calm_def handle_inv_def)
    have mem: "item \<in> set ts" using timers_invD(1) [OF inv] Some by (auto simp: lchain_Some)
    then obtain n where n: "store v item = Some n" using timers_invD(7) [OF inv] by (auto simp: owned_def)
    have ne: "\<not> earlier (expires n) tv"
      using v(4) mem n by (auto simp: expired_def running_inv [OF inv] key_at_def earlier_key)
    obtain d where d: "set_delay v tv = Some (Some d, v\<lparr>delay := d\<rparr>)" "usecs d = usecs (expires n) - usecs tv" "0 \<le> tv_sec d"
      using set_delay_spec [OF Some n, of tv] ne by blast
    have "calm L (v\<lparr>delay := d\<rparr>)" using v(2) by (auto simp: calm_def handle_inv_def poll_inv_def)
    then show ?thesis using v d Some n
      by (intro exI [of _ "Some d"] exI [of _ "v\<lparr>delay := d\<rparr>"])
        (auto simp: timerGetDelay_r_def Let_def expired_def running_def)
  qed
qed

lemma poll_execute_waits:
  assumes "polld w \<noteq> None" "timerGetDelay_r E w = Some (r, v)" "polld v = Some e" "\<not> (r = None \<and> nfds e = 0)"
    "poll_once E v (case r of None \<Rightarrow> -1 | Some d \<Rightarrow> poll_timeout d) = Some (rc, u)"
  shows "poll_execute E w = (if rc > 0 then map_option (\<lambda>w. (0, w)) (poll_dispatch E u 0 rc) else Some (rc, u))"
  unfolding poll_execute_def assms(2) using assms(4) by (simp add: assms(1,3,5) if_not_P)

lemma poll_execute_frozen:
  assumes calm: "calm L w" and act: "activeTimer w = None" and e: "polld w = Some e"
    and hs: "calm_handlers (frozen E tv) L" "handlers_ok (frozen E tv)" and L: "int L = tv_sec tv"
  shows "\<exists>rc w'. poll_execute (frozen E tv) w = Some (rc, w') \<and> handle_inv w' \<and> activeTimer w' = None \<and> rc \<le> 0"
proof -
  obtain r v where v: "timerGetDelay_r (frozen E tv) w = Some (r, v)" "calm L v" "activeTimer v = None"
    "map_option maxfd (polld v) = map_option maxfd (polld w)"
    using get_delay_frozen [OF calm act hs(1) L] by (elim exE conjE) (rule that)
  from v(4) e obtain e' where e': "polld v = Some e'" by auto
  have hv: "handle_inv v" using v(2) by (simp add: calm_def)
  show ?thesis
  proof (cases "r = None \<and> nfds e' = 0")
    case True
    then show ?thesis using e v hv e' by (auto simp: poll_execute_def)
  next
    case False
    let ?t = "case r of None \<Rightarrow> -1 | Some d \<Rightarrow> poll_timeout d"
    obtain rc u where u: "poll_once (frozen E tv) v ?t = Some (rc, u)" "handle_inv u" "handle_frame v u"
      "activeTimer u = None"
      using poll_once_spec [OF hv e', of "frozen E tv" ?t] v(3) by metis
    then obtain e'' where e'': "polld u = Some e''" using e' by (auto simp: handle_frame_def)
    show ?thesis
    proof (cases "rc > 0")
      case True
      from poll_dispatch_total [OF u(2) e'' True hs(2)] obtain w' where
        "poll_dispatch (frozen E tv) u 0 rc = Some w'" "handle_inv w'" "handle_frame u w'" by blast
      moreover have "poll_execute (frozen E tv) w = map_option (\<lambda>w. (0, w)) (poll_dispatch (frozen E tv) u 0 rc)"
        using True e by (simp add: poll_execute_waits [OF _ v(1) e' False u(1)])
      ultimately show ?thesis using u(4) by (auto simp: handle_frame_def)
    next
      case F: False
      have "poll_execute (frozen E tv) w = Some (rc, u)"
        using F e by (simp add: poll_execute_waits [OF _ v(1) e' False u(1)])
      then show ?thesis using u(2,4) F by auto
    qed
  qed
qed

section \<open>A timer stopped by its own handler\<close>

definition doomed :: "addr \<Rightarrow> TimeHandle \<Rightarrow> bool" where
  "doomed t w \<longleftrightarrow> handle_inv w \<and> activeTimer w = Some t \<and> state_at (store w) t = Some Deleted"

lemma state_at_cong: "payload h' t = payload h t \<Longrightarrow> state_at h' t = state_at h t"
  by (simp add: state_at_payload)

lemma active_kept:
  assumes inv: "timers_inv w ts fs" and act: "activeTimer w = Some t" and step: "api_step E c w = Some w'"
    and ok: "api_ok c w" and del: "state_at (store w) t = Some Deleted \<or> c = Stop t"
  shows "state_at (store w') t = Some Deleted"
proof (cases c)
  case (Start ms s r)
  obtain u v fs' where v: "timerStart_r E w ms s r = Some (u, v)" "fs = u # fs' \<or> u \<notin> dom (store w)"
    "payload (store v) = (payload (store w))(u \<mapsto> \<lparr>mS = ms, sr = s, tref = r,
        expires = add_ms (gettimeofday E (readings w)) ms, lastsec = 0, tstate = Running, tnext = None\<rparr>)"
    using start_spec [OF inv, of E ms s r] by metis
  have "u \<noteq> t" using v(2) timers_invD(4,7) [OF inv] act by (auto simp: owned_def)
  then show ?thesis using v(1,3) step Start del state_at_cong [of "store v" t "store w"] by auto
next
  case (Stop u)
  then have "u \<in> dom (store w)" using ok by simp
  from stop_spec [OF inv this] Stop step have r: "u \<noteq> t \<longrightarrow> payload (store w') t = payload (store w) t"
    "u = t \<longrightarrow> state_at (store w') t = Some Deleted" using act by auto
  then show ?thesis using del Stop state_at_cong [of "store w'" t "store w"] by (cases "u = t") auto
next
  case (Modify u ms r)
  then obtain n where n: "store w u = Some n" using ok by auto
  then show ?thesis using Modify step del modify_spec [OF inv n, of ms r] by (auto simp: state_at_def)
next
  case (SetCb f p r)
  then show ?thesis using step del set_only [of E f p r w w'] by auto
next
  case (UnsetCb d)
  then show ?thesis using step del unset_only [of E d w w'] by auto
qed

interpretation doomed: interface_step "api_step E" api_ok "doomed t" handle_frame for E t
proof unfold_locales
  fix w c
  assume d: "doomed t w" and ok: "api_ok c w"
  from d obtain ts fs where inv: "timers_inv w ts fs" by (auto simp: doomed_def handle_inv_def)
  show "\<exists>w'. api_step E c w = Some w'" using api.total d ok unfolding doomed_def by blast
  fix w'
  assume "api_step E c w = Some w'"
  with active_kept [OF inv _ this ok, of t] api.keeps [OF _ ok this] d
  show "doomed t w' \<and> handle_frame w w'" by (auto simp: doomed_def handle_frame_def)
qed (auto simp: handle_frame_def)

lemma run_cmds_append: "run_cmds f (cs @ ds) w = run_cmds f cs w \<bind> run_cmds f ds"
  by (induction cs arbitrary: w) (auto split: Option.bind_splits)

lemma cmds_ok_append: "cmds_ok f ok (cs @ ds) w \<longleftrightarrow> cmds_ok f ok cs w \<and>
    (case run_cmds f cs w of None \<Rightarrow> True | Some w' \<Rightarrow> cmds_ok f ok ds w')"
  by (induction cs arbitrary: w) (auto split: option.splits Option.bind_splits)

lemma stop_dooms:
  assumes inv: "handle_inv w" and act: "activeTimer w = Some t"
    and ok: "cmds_ok (api_step E) api_ok (as @ Stop t # bs) w"
  shows "\<exists>v. run_cmds (api_step E) (as @ Stop t # bs) w = Some v \<and> doomed t v"
proof -
  from ok have "cmds_ok (api_step E) api_ok as w" by (simp add: cmds_ok_append)
  from api.run_keeps [OF inv this] obtain u where u: "run_cmds (api_step E) as w = Some u"
    "handle_inv u" "activeTimer u = Some t" using act by (auto simp: handle_frame_def)
  with ok have ok2: "cmds_ok (api_step E) api_ok (Stop t # bs) u" by (simp add: cmds_ok_append)
  then have okS: "api_ok (Stop t) u" by simp
  from u(2) okS obtain u' where u': "api_step E (Stop t) u = Some u'" "handle_inv u'" "handle_frame u u'"
    using api_step_keeps by blast
  from u(2) obtain ts fs where "timers_inv u ts fs" by (auto simp: handle_inv_def)
  from active_kept [OF this u(3) u'(1) okS] u'(2,3) u(3) have "doomed t u'"
    by (simp add: doomed_def handle_frame_def)
  moreover have "cmds_ok (api_step E) api_ok bs u'" using ok2 u'(1) by simp
  ultimately obtain v where "run_cmds (api_step E) bs u' = Some v" "doomed t v"
    using doomed.run_keeps by blast
  then show ?thesis using u(1) u'(1) by (auto simp: run_cmds_append)
qed

lemma doomed_retired:
  assumes d: "doomed item v" and inv: "poll_inv v"
  shows "\<exists>w'. retire (v\<lparr>activeTimer := None\<rparr>) item rc tv = Some w' \<and> handle_inv w' \<and> item \<notin> running w'"
proof -
  from d obtain ts fs where t: "timers_inv v ts fs" "activeTimer v = Some item"
    by (auto simp: doomed_def handle_inv_def)
  from deactivate_detached [OF t] obtain n where n: "detached (v\<lparr>activeTimer := None\<rparr>) item n ts fs" by blast
  have del: "tstate n = Deleted" "item \<notin> set ts"
    using n d by (auto simp: detached_def doomed_def state_at_def owned_def)
  have "poll_inv (v\<lparr>activeTimer := None\<rparr>)" using inv by (simp add: poll_inv_def)
  from retire_spec [OF n this, of rc tv] del(1) obtain w' fs' where
    "retire (v\<lparr>activeTimer := None\<rparr>) item rc tv = Some w'" "timers_inv w' ts fs'" "poll_inv w'" by auto
  then show ?thesis using del(2) by (auto simp: handle_inv_def running_inv)
qed

end
