(* ===== verification/TimerContract.thy ===== *)
theory TimerContract
  imports TimerProps
begin

text \<open>
  The properties of \<open>SelectTimer.c\<close>, each applied to a concrete handle: three timers in the
  queue, one reusable record, and a table of two descriptors of four.
\<close>

section \<open>A concrete handle\<close>

definition demo_timer :: "int \<Rightarrow> int \<Rightarrow> int \<Rightarrow> addr option \<Rightarrow> TimerInternal" where
  "demo_timer ms s u nx = \<lparr>mS = ms, sr = 7, tref = 3, expires = \<lparr>tv_sec = s, tv_usec = u\<rparr>, lastsec = 0,
     tstate = Running, tnext = nx\<rparr>"

definition demo_fd :: "int \<Rightarrow> pollfd" where
  "demo_fd d = \<lparr>fd = d, events = 1, revents = 0\<rparr>"

definition demo :: "TimeHandle" where
  "demo = \<lparr>store = [0 \<mapsto> demo_timer 200 10 300000 (Some 1), 1 \<mapsto> demo_timer 100 11 0 None,
       2 \<mapsto> demo_timer 50 10 100000 (Some 0), 3 \<mapsto> demo_timer 50 9 0 None],
     brk = 4, readings = 0, polls = 0, delay = \<lparr>tv_sec = 0, tv_usec = 0\<rparr>, timers = Some 2,
     freeTimerList = Some 3, freeTimers = 1, activeTimer = None,
     polld = Some \<lparr>maxfd = 4, spollfd = [demo_fd 5, demo_fd 6, demo_fd 0, demo_fd 0], nfds = 2,
       spollfn = replicate 4 \<lparr>fn = 1, userRef = 2\<rparr>\<rparr>\<rparr>"

definition late_timer :: "TimerInternal" where
  "late_timer = \<lparr>mS = 500, sr = 7, tref = 3, expires = \<lparr>tv_sec = 16, tv_usec = 100000\<rparr>, lastsec = 15,
     tstate = Running, tnext = None\<rparr>"

definition demo_env :: "api_call list \<Rightarrow> int \<Rightarrow> env" where
  "demo_env cs rc = \<lparr>gettimeofday = \<lambda>k. \<lparr>tv_sec = 10, tv_usec = 200000\<rparr>,
     poll_sys = \<lambda>k ps t. \<lparr>pa_rc = -1, pa_eintr = True, pa_revents = \<lambda>i. 0\<rparr>,
     on_timeout = \<lambda>s r w. (cs, rc), on_fd = \<lambda>f p r w. [],
     garbage_fd = demo_fd 0, garbage_fn = \<lparr>fn = 0, userRef = 0\<rparr>\<rparr>"

lemma demo_timers_inv: "timers_inv demo [2, 0, 1] [3]"
  by (auto simp: timers_inv_def demo_def demo_timer_def owned_def state_at_def key_at_def key_def)

lemma demo_poll_inv: "poll_inv demo"
  by (auto simp: poll_inv_def demo_def demo_fd_def poll_ext_inv_def less_Suc_eq numeral_eq_Suc)

lemma demo_inv: "handle_inv demo"
  using demo_timers_inv demo_poll_inv by (auto simp: handle_inv_def)

lemma demo_calm: "calm 10 demo"
  using demo_inv by (auto simp: calm_def demo_def demo_timer_def split: if_splits)

lemma demo_fields: "activeTimer demo = None" "timers demo = Some 2"
    "store demo 2 = Some (demo_timer 50 10 100000 (Some 0))"
    "\<exists>e. polld demo = Some e" "polld demo \<noteq> None" "2 \<in> dom (store demo)"
  by (auto simp: demo_def)

lemma demo_calm_handlers: "calm_handlers (frozen (demo_env [] rc) tv) L" "handlers_ok (frozen (demo_env [] rc) tv)"
  by (auto simp: calm_handlers_def handlers_ok_def frozen_def demo_env_def)

section \<open>Starting and stopping timers\<close>

text \<open>
  C8. \<open>timerStart_r\<close> always returns; it takes a reusable record or fresh memory, sets the
  expiry to now plus the delay, and inserts the timer into the queue in order of expiry, in front
  of timers of the same expiry, with every other record unchanged and the invariant kept.
\<close>

theorem timer_start_inserts_sorted:
  assumes "timers_inv w ts fs"
  shows "\<exists>t w' fs'. timerStart_r E w ms s r = Some (t, w') \<and> t \<notin> set ts \<and>
     (fs = t # fs' \<or> fs = [] \<and> fs' = [] \<and> t \<notin> dom (store w)) \<and>
     timers_inv w' (insort_key (key_at (store w')) t ts) fs' \<and>
     payload (store w') = (payload (store w))(t \<mapsto> \<lparr>mS = ms, sr = s, tref = r,
        expires = add_ms (gettimeofday E (readings w)) ms, lastsec = 0, tstate = Running, tnext = None\<rparr>)"
  using start_spec [OF assms, of E ms s r] by metis

theorem timer_start_inserts_sorted_witness:
  "timers_inv demo [2, 0, 1] [3] \<and>
   (\<exists>w'. timerStart_r (demo_env [] 0) demo 500 9 8 = Some (3, w') \<and> timers_inv w' [2, 0, 3, 1] [])"
proof -
  obtain t w' fs' where w': "timerStart_r (demo_env [] 0) demo 500 9 8 = Some (t, w')" "[3] = t # fs'"
    "timers_inv w' (insort_key (key_at (store w')) t [2, 0, 1]) fs'"
    "payload (store w') = (payload (store demo))(t \<mapsto> \<lparr>mS = 500, sr = 9, tref = 8,
        expires = add_ms (gettimeofday (demo_env [] 0) (readings demo)) 500, lastsec = 0, tstate = Running, tnext = None\<rparr>)"
    using timer_start_inserts_sorted [OF demo_timers_inv, of "demo_env [] 0" 500 9 8] by auto
  have k: "key_at (store w') a = (case payload (store w') a of None \<Rightarrow> (0, 0) | Some n \<Rightarrow> key (expires n))" for a
    by (simp add: key_at_payload')
  have "insort_key (key_at (store w')) 3 [2, 0, 1] = [2, 0, 3, 1]"
    unfolding k w'(4) using w'(2)
    by (simp add: payload_def demo_def demo_timer_def demo_env_def add_ms_def key_def
      signed_divide_int_def signed_modulo_int_def)
  with w' demo_timers_inv show ?thesis by auto
qed

text \<open>
  C25. \<open>timerStop_r\<close> of any allocated record returns and takes the timer out of the queue,
  leaving the order of the others; a timer whose handler is running is marked \<open>Deleted\<close>
  instead of being reused under the running handler.
\<close>

theorem timer_stop_removes:
  assumes "timers_inv w ts fs" "t \<in> dom (store w)"
  shows "\<exists>w' fs'. timerStop_r w t = Some w' \<and> timers_inv w' (remove1 t ts) fs' \<and>
     activeTimer w' = activeTimer w \<and> polld w' = polld w \<and>
     (\<forall>a. a \<noteq> t \<longrightarrow> payload (store w') a = payload (store w) a) \<and>
     (activeTimer w = Some t \<longrightarrow> state_at (store w') t = Some Deleted)"
  using stop_spec [OF assms] by (auto simp: same_rest_def)

theorem timer_stop_removes_witness:
  "0 \<in> dom (store demo) \<and> (\<exists>w' fs'. timerStop_r demo 0 = Some w' \<and> timers_inv w' [2, 1] fs')"
proof -
  have d: "0 \<in> dom (store demo)" by (auto simp: demo_def)
  from timer_stop_removes [OF demo_timers_inv d] d show ?thesis by auto
qed

text \<open>
  C14. A handler that stops its own timer ends it: whatever other calls the handler makes before
  or after, and whatever value it returns, the timer is not put back into the queue.
\<close>

theorem stop_in_own_handler_is_final:
  assumes "timers_inv w (item # ts) fs" "poll_inv w" "activeTimer w = None" "store w item = Some n"
    and "on_timeout E (sr n) (tref n) (activated w item n) = (as @ Stop item # bs, rc)"
    and "cmds_ok (api_step E) api_ok (as @ Stop item # bs) (activated w item n)"
  shows "\<exists>v w'. run_timeout E w item = Some (rc, v) \<and> retire v item rc tv = Some w' \<and>
     handle_inv w' \<and> item \<notin> running w'"
proof -
  have "handle_inv (activated w item n)"
    using activated_inv [OF assms(1,3,4)] assms(2) by (auto simp: handle_inv_def activated_def poll_inv_def)
  from stop_dooms [OF this _ assms(6)] obtain v where
    v: "run_cmds (api_step E) (as @ Stop item # bs) (activated w item n) = Some v" "doomed item v"
    by (auto simp: activated_def)
  have "run_timeout E w item = Some (rc, v\<lparr>activeTimer := None\<rparr>)"
    using run_timeout_spec [OF assms(1-4), of E] assms(5,6) v(1) by auto
  moreover have "poll_inv v" using v(2) by (auto simp: doomed_def handle_inv_def)
  ultimately show ?thesis using doomed_retired [OF v(2)] by blast
qed

theorem stop_in_own_handler_is_final_witness:
  "\<exists>v w'. run_timeout (demo_env [Start 10 1 1, Stop 2] 1) demo 2 = Some (1, v) \<and>
     retire v 2 1 \<lparr>tv_sec = 10, tv_usec = 200000\<rparr> = Some w' \<and> handle_inv w' \<and> 2 \<notin> running w'"
proof -
  let ?E = "demo_env [Start 10 1 1, Stop 2] 1" and ?n = "demo_timer 50 10 100000 (Some 0)"
  have a: "timers_inv (activated demo 2 ?n) [0, 1] [3]"
    using activated_inv [OF demo_timers_inv demo_fields(1,3)] .
  from start_spec [OF a, of ?E 10 1 1] obtain t v where
    v: "timerStart_r ?E (activated demo 2 ?n) 10 1 1 = Some (t, v)" "t = 3"
      "payload (store v) = (payload (store (activated demo 2 ?n)))(t \<mapsto> \<lparr>mS = 10, sr = 1, tref = 1,
        expires = add_ms (gettimeofday ?E (readings (activated demo 2 ?n))) 10, lastsec = 0, tstate = Running, tnext = None\<rparr>)"
    by auto
  have "2 \<in> dom (payload (store v))" unfolding v(3) by (auto simp: activated_def)
  then have dv: "2 \<in> dom (store v)" by simp
  from start_spec [OF a, of ?E 10 1 1] v(1) obtain ts' fs' where "timers_inv v ts' fs'" by auto
  from stop_spec [OF this dv] obtain u where "timerStop_r v 2 = Some u" by auto
  then have ok: "cmds_ok (api_step ?E) api_ok ([Start 10 1 1] @ Stop 2 # []) (activated demo 2 ?n)"
    using v(1) dv by auto
  have h: "on_timeout ?E (sr ?n) (tref ?n) (activated demo 2 ?n) = ([Start 10 1 1] @ Stop 2 # [], 1)"
    by (simp add: demo_env_def)
  show ?thesis
    by (rule stop_in_own_handler_is_final [OF demo_timers_inv demo_poll_inv demo_fields(1,3) h ok])
qed

text \<open>
  C26. \<open>timerDestroyHandle_r\<close> frees every timer record that was ever allocated and not yet
  freed, each exactly once, for any handle in a legal state.
\<close>

theorem destroy_frees_every_record:
  assumes "timers_inv w ts fs"
  shows "timerDestroyHandle_r w = Some Map.empty"
  using assms by (rule destroy_empty)

theorem destroy_frees_every_record_witness: "timerDestroyHandle_r demo = Some Map.empty"
  by (rule destroy_frees_every_record [OF demo_timers_inv])

section \<open>Waiting\<close>

text \<open>
  C16. Under a clock that stands still during the call and handlers that keep to the interface with
  periods that are not negative, \<open>timerGetDelay_r\<close> returns: afterwards no timer is
  expired, no timer is active, and the answer is exactly the time left of the first timer, or
  nothing when there is no timer.
\<close>

theorem get_delay_exact:
  assumes "calm L w" "activeTimer w = None" "calm_handlers (frozen E tv) L" "int L = tv_sec tv"
  shows "\<exists>r w'. timerGetDelay_r (frozen E tv) w = Some (r, w') \<and> calm L w' \<and> activeTimer w' = None \<and>
     expired tv w' = {} \<and> (r = None \<longleftrightarrow> timers w' = None) \<and>
     (\<forall>d. r = Some d \<longrightarrow> (\<exists>item n. timers w' = Some item \<and> store w' item = Some n \<and>
        usecs d = usecs (expires n) - usecs tv \<and> 0 \<le> tv_sec d))"
  using get_delay_frozen [OF assms] by (elim exE conjE) (intro exI conjI)

theorem get_delay_exact_witness:
  "\<exists>r w'. timerGetDelay_r (frozen (demo_env [] 1) \<lparr>tv_sec = 10, tv_usec = 200000\<rparr>) demo = Some (r, w') \<and>
     expired \<lparr>tv_sec = 10, tv_usec = 200000\<rparr> w' = {} \<and> expired \<lparr>tv_sec = 10, tv_usec = 200000\<rparr> demo = {2}"
proof -
  have "expired \<lparr>tv_sec = 10, tv_usec = 200000\<rparr> demo = {2}"
    unfolding expired_def running_inv [OF demo_timers_inv]
    by (auto simp: demo_def demo_timer_def key_at_def key_def)
  with get_delay_exact [OF demo_calm demo_fields(1) demo_calm_handlers(1) [of 1 "\<lparr>tv_sec = 10, tv_usec = 200000\<rparr>"]]
  show ?thesis by auto
qed

text \<open>
  C27. One pass of \<open>poll_execute\<close> returns 0 or a negative value under the same conditions,
  with the invariants of the timers and of the table kept, whatever \<open>poll\<close> answers.
\<close>

theorem poll_execute_returns:
  assumes "calm L w" "activeTimer w = None" "polld w = Some e"
    and "calm_handlers (frozen E tv) L" "handlers_ok (frozen E tv)" "int L = tv_sec tv"
  shows "\<exists>rc w'. poll_execute (frozen E tv) w = Some (rc, w') \<and> handle_inv w' \<and> activeTimer w' = None \<and> rc \<le> 0"
  using poll_execute_frozen [OF assms] .

theorem poll_execute_returns_witness:
  "\<exists>rc w'. poll_execute (frozen (demo_env [] 1) \<lparr>tv_sec = 10, tv_usec = 0\<rparr>) demo = Some (rc, w') \<and> handle_inv w' \<and> rc \<le> 0"
  using demo_fields(4) poll_execute_returns [OF demo_calm demo_fields(1) _
      demo_calm_handlers [of 1 "\<lparr>tv_sec = 10, tv_usec = 0\<rparr>"]] by auto

text \<open>
  The time-out handed to \<open>poll\<close> for a delay that is not negative is not negative, and for
  a delay of at most 2097151 seconds it is the delay in milliseconds, rounded down.
\<close>

theorem poll_timeout_in_range:
  assumes "0 \<le> tv_sec d" "0 \<le> tv_usec d" "tv_usec d < 1000000"
  shows "0 \<le> poll_timeout d \<and> poll_timeout d < 2 ^ 31 \<and>
    (tv_sec d \<le> 2097151 \<longrightarrow> poll_timeout d * 1000 \<le> usecs d \<and> usecs d < (poll_timeout d + 1) * 1000)"
proof (cases "tv_sec d \<le> 2097151")
  case True
  have "tv_usec d sdiv 1000 = tv_usec d div 1000"
    using assms(2) by (auto simp: signed_divide_int_def sgn_if)
  moreover have "(tv_sec d * 1000 + tv_usec d div 1000 + 2147483648) mod 4294967296 =
      tv_sec d * 1000 + tv_usec d div 1000 + 2147483648"
    using True assms by (intro mod_pos_pos_trivial) auto
  ultimately have "poll_timeout d = tv_sec d * 1000 + tv_usec d div 1000"
    using True by (simp add: poll_timeout_def to_int32_def)
  moreover have "tv_usec d div 1000 * 1000 \<le> tv_usec d" "tv_usec d < (tv_usec d div 1000 + 1) * 1000" by auto
  ultimately show ?thesis using True assms by (auto simp: usecs_def)
qed (simp add: poll_timeout_def)

theorem poll_timeout_in_range_witness:
  "0 \<le> poll_timeout \<lparr>tv_sec = 2, tv_usec = 999999\<rparr> \<and> poll_timeout \<lparr>tv_sec = 2, tv_usec = 999999\<rparr> = 2999"
proof -
  have "poll_timeout \<lparr>tv_sec = 2, tv_usec = 999999\<rparr> = 2999"
    by (simp add: poll_timeout_def to_int32_def signed_divide_int_def)
  with poll_timeout_in_range [of "\<lparr>tv_sec = 2, tv_usec = 999999\<rparr>"] show ?thesis by simp
qed

text \<open>
  A negative answer of \<open>poll\<close>, an interrupted call included, ends \<open>poll_execute\<close> with
  that answer after exactly one call: \<open>continue\<close> inside \<open>do \<dots> while (0)\<close> does not retry.
\<close>

theorem interrupted_poll_is_not_retried:
  assumes "polld w \<noteq> None" "timerGetDelay_r E w = Some (r, v)" "polld v = Some e"
    and "\<not> (r = None \<and> nfds e = 0)"
    and "pa_rc (poll_sys E (polls v) (take (nfds e) (spollfd e))
          (case r of None \<Rightarrow> -1 | Some d \<Rightarrow> poll_timeout d)) < 0"
  shows "\<exists>w'. poll_execute E w = Some (pa_rc (poll_sys E (polls v) (take (nfds e) (spollfd e))
          (case r of None \<Rightarrow> -1 | Some d \<Rightarrow> poll_timeout d)), w') \<and> polls w' = Suc (polls v)"
  using assms(5) poll_execute_waits [OF assms(1-4)] assms(3) by (auto simp: poll_once_def Let_def)

theorem interrupted_poll_is_not_retried_witness:
  "\<exists>r v. timerGetDelay_r (frozen (demo_env [] 1) \<lparr>tv_sec = 10, tv_usec = 0\<rparr>) demo = Some (r, v) \<and>
    (\<exists>w'. poll_execute (frozen (demo_env [] 1) \<lparr>tv_sec = 10, tv_usec = 0\<rparr>) demo = Some (-1, w') \<and> polls w' = Suc (polls v))"
proof -
  let ?tv = "\<lparr>tv_sec = 10, tv_usec = 0\<rparr>"
  let ?E = "frozen (demo_env [] 1) ?tv"
  have ne: "\<not> earlier (expires (demo_timer 50 10 100000 (Some 0))) ?tv" by (simp add: demo_timer_def earlier_def)
  have sb: "step_back (demo\<lparr>readings := Suc 0\<rparr>) 2 ?tv = Some (demo\<lparr>readings := Suc 0\<rparr>)"
    using demo_fields(3) by (simp add: step_back_def demo_timer_def)
  have "expire_loop ?E (demo\<lparr>readings := Suc 0\<rparr>) ?tv = Some (?tv, demo\<lparr>readings := Suc 0\<rparr>)"
    using demo_fields(2,3) ne sb by (simp add: expire_loop.simps [of ?E "demo\<lparr>readings := Suc 0\<rparr>" ?tv])
  moreover have "readings demo = 0" by (simp add: demo_def)
  ultimately obtain d v where d: "timerGetDelay_r ?E demo = Some (Some d, v)" "polld v = polld demo"
    using demo_fields(2,3) by (auto simp: timerGetDelay_r_def set_delay_def Let_def)
  obtain e where e: "polld v = Some e" using d(2) demo_fields(4) by auto
  have a: "pa_rc (poll_sys ?E k ps t) = -1" for k ps t by (simp add: frozen_def demo_env_def)
  from interrupted_poll_is_not_retried [OF demo_fields(5) d(1) e] a d(1) show ?thesis by auto
qed

section \<open>The table of descriptors\<close>

text \<open>
  C18. The call-back table is a bounded registry: an entry is found under the descriptor it was
  registered with until it is unregistered, a full table answers -1 and stays as it is, and
  unregistering (which packs both arrays) removes that descriptor and nothing else.
\<close>

theorem fd_table_register_unregister:
  assumes "with_table w" "set_cb w d v = Some (rc, w')"
  shows "(0 \<le> rc \<longrightarrow> registered w' d = Some v) \<and>
    (\<exists>w''. poll_unsetcallback w' d = Some w'' \<and> with_table w'' \<and> registered w'' = (registered w)(d := None))"
  using fds.reg_then_lookup [OF assms] fds.reg_unreg [OF assms] by blast

theorem fd_table_register_unregister_witness:
  "\<exists>rc w'. set_cb demo 9 (4, \<lparr>fn = 5, userRef = 6\<rparr>) = Some (rc, w') \<and> rc = 0 \<and>
     registered w' 9 = Some (4, \<lparr>fn = 5, userRef = 6\<rparr>) \<and> (\<exists>w''. poll_unsetcallback w' 9 = Some w'')"
proof -
  have t: "with_table demo" using demo_poll_inv by (auto simp: with_table_def poll_inv_def demo_def)
  obtain w' where w': "set_cb demo 9 (4, \<lparr>fn = 5, userRef = 6\<rparr>) = Some (0, w')"
    by (simp add: set_cb_def poll_setcallback_def demo_def demo_fd_def numeral_eq_Suc)
  from fd_table_register_unregister [OF t w'] w' show ?thesis by auto
qed

section \<open>Departures from the intent\<close>

text \<open>
  A clock set back can make \<open>poll\<close> block for ever although a timer is pending: the
  repair in \<open>timerGetDelay_r\<close> keeps the microseconds of the old expiry, so a 500 ms timer
  last restarted at second 15 gets an expiry before the present time 10.9 s; the delay is
  negative and \<open>poll\<close> is given a negative time-out.
\<close>

theorem clock_set_back_blocks:
  "step_back (demo\<lparr>store := [0 \<mapsto> late_timer], timers := Some 0\<rparr>) 0 \<lparr>tv_sec = 10, tv_usec = 900000\<rparr>
    = Some (demo\<lparr>store := [0 \<mapsto> late_timer\<lparr>expires := \<lparr>tv_sec = 10, tv_usec = 600000\<rparr>\<rparr>], timers := Some 0\<rparr>) \<and>
   map_option fst (set_delay (demo\<lparr>store := [0 \<mapsto> late_timer\<lparr>expires := \<lparr>tv_sec = 10, tv_usec = 600000\<rparr>\<rparr>],
       timers := Some 0\<rparr>) \<lparr>tv_sec = 10, tv_usec = 900000\<rparr>) = Some (Some \<lparr>tv_sec = -1, tv_usec = 700000\<rparr>) \<and>
   poll_timeout \<lparr>tv_sec = -1, tv_usec = 700000\<rparr> = -300"
  by (simp add: step_back_def rescedule_def walk.simps insert_after_def new_expiry_def add_ms_def late_timer_def
      set_delay_def Let_def poll_timeout_def to_int32_def signed_divide_int_def signed_modulo_int_def)


text \<open>
  The cap on the time-out is applied too early: a timer due in 2097152 seconds makes
  \<open>poll\<close> sleep for 2147480.320 seconds, so it wakes up more than half a day late.
\<close>

theorem poll_timeout_cap_oversleeps:
  "poll_timeout \<lparr>tv_sec = 2097152, tv_usec = 0\<rparr> * 1000 - usecs \<lparr>tv_sec = 2097152, tv_usec = 0\<rparr> = 50328320000"
  by (simp add: poll_timeout_def usecs_def)

end
