(* ===== verification/Effects.thy ===== *)
theory Effects
  imports Prelude
begin

text \<open>
  Code that talks to its surroundings and may end the process.  A function of this kind takes the
  state and gives \<open>Inl (f, w)\<close> when the process ends by fault \<open>f\<close> in state \<open>w\<close>, and
  \<open>Inr (r, w)\<close> when it returns \<open>r\<close>; the state holds the trace of all calls made so far,
  so the effects before the end of the process are kept.
\<close>

datatype fault =
    Quit      \<comment> \<open>\<open>err_quit\<close>: logs and leaves with \<open>_exit(1)\<close>\<close>
  | Abort     \<comment> \<open>\<open>abort()\<close>\<close>
  | Assert    \<comment> \<open>a failed \<open>assert\<close>\<close>
  | Wild      \<comment> \<open>a null, wild or dangling pointer is used\<close>
  | Overflow  \<comment> \<open>a write outside an array\<close>
  | Uninit    \<comment> \<open>a variable is read that was never assigned\<close>
  | Killed    \<comment> \<open>a signal ends the process\<close>

type_synonym ('w, 'a) res = "fault \<times> 'w + 'a \<times> 'w"

definition ret :: "'a \<Rightarrow> 'w \<Rightarrow> ('w, 'a) res" where
  "ret r w = Inr (r, w)"

definition halt :: "fault \<Rightarrow> 'w \<Rightarrow> ('w, 'a) res" where
  "halt f w = Inl (f, w)"

definition ebind :: "('w, 'a) res \<Rightarrow> ('a \<times> 'w \<Rightarrow> ('w, 'b) res) \<Rightarrow> ('w, 'b) res" where
  "ebind x f = (case x of Inl e \<Rightarrow> Inl e | Inr p \<Rightarrow> f p)"

lemma ebind_simps [simp]:
  "ebind (Inl e) f = Inl e" "ebind (Inr p) f = f p"
  "ebind (ret r w) f = f (r, w)" "ebind (halt x w) f = Inl (x, w)"
  by (simp_all add: ebind_def ret_def halt_def)

lemma ebind_Inr: "ebind x f = Inr q \<longleftrightarrow> (\<exists>p. x = Inr p \<and> f p = Inr q)"
  by (cases x) auto

lemma ebind_Inl: "ebind x f = Inl e \<longleftrightarrow> x = Inl e \<or> (\<exists>p. x = Inr p \<and> f p = Inl e)"
  by (cases x) auto

lemma ret_eq [simp]: "ret r w = Inr p \<longleftrightarrow> p = (r, w)" "ret r w \<noteq> Inl e"
  by (auto simp: ret_def)

lemma halt_eq [simp]: "halt x w = Inl e \<longleftrightarrow> e = (x, w)" "halt x w \<noteq> Inr p"
  by (auto simp: halt_def)

lemma ebind_cong [fundef_cong]: "x = y \<Longrightarrow> (\<And>p. y = Inr p \<Longrightarrow> f p = g p) \<Longrightarrow> ebind x f = ebind y g"
  by (cases y) auto

text \<open>The state a result carries, whether the process goes on or not.\<close>

definition final :: "('w, 'a) res \<Rightarrow> 'w" where
  "final x = (case x of Inl (f, w) \<Rightarrow> w | Inr (r, w) \<Rightarrow> w)"

lemma final_simps [simp]: "final (Inl (f, w)) = w" "final (Inr (r, w)) = w"
    "final (ret r w) = w" "final (halt f w) = w"
  by (simp_all add: final_def ret_def halt_def)

text \<open>
  The macro \<open>SAF_API_CALL\<close>: repeat a call that answers "try again", at most \<open>n\<close> more
  times, pausing before each repetition.
\<close>

primrec retry :: "('r \<Rightarrow> bool) \<Rightarrow> nat \<Rightarrow> ('w \<Rightarrow> 'r \<times> 'w) \<Rightarrow> ('w \<Rightarrow> 'w) \<Rightarrow> 'w \<Rightarrow> 'r \<times> 'w" where
  "retry again 0 f pause w = f w"
| "retry again (Suc n) f pause w =
     (let (r, w) = f w in if again r then retry again n f pause (pause w) else (r, w))"

lemma retry_invariant:
  assumes f: "\<And>w. P w \<Longrightarrow> P (snd (f w))" and p: "\<And>w. P w \<Longrightarrow> P (pause w)"
  shows "P w \<Longrightarrow> P (snd (retry again n f pause w))"
  by (induction n arbitrary: w) (auto simp: f p split: prod.splits dest: f [THEN back_subst [of P]])

end
