(* ===== verification/SafTypes.thy ===== *)
theory SafTypes
  imports Main
begin

text \<open>
  Return codes of the SA Forum services (\<open>saAis.h\<close>) and of MAF
  (\<open>MafMgmtSpiCommon.h\<close>), and the translation \<open>maf_coremw_rc\<close> between them.
  A C enum variable may hold a value outside the enumeration: \<open>SA_AIS_VALUE n\<close> stands for
  such a value.
\<close>

datatype (plugins only: code) SaAisErrorT =
    SA_AIS_OK
  | SA_AIS_ERR_LIBRARY
  | SA_AIS_ERR_VERSION
  | SA_AIS_ERR_INIT
  | SA_AIS_ERR_TIMEOUT
  | SA_AIS_ERR_TRY_AGAIN
  | SA_AIS_ERR_INVALID_PARAM
  | SA_AIS_ERR_NO_MEMORY
  | SA_AIS_ERR_BAD_HANDLE
  | SA_AIS_ERR_BUSY
  | SA_AIS_ERR_ACCESS
  | SA_AIS_ERR_NOT_EXIST
  | SA_AIS_ERR_NAME_TOO_LONG
  | SA_AIS_ERR_EXIST
  | SA_AIS_ERR_NO_SPACE
  | SA_AIS_ERR_INTERRUPT
  | SA_AIS_ERR_NAME_NOT_FOUND
  | SA_AIS_ERR_NO_RESOURCES
  | SA_AIS_ERR_NOT_SUPPORTED
  | SA_AIS_ERR_BAD_OPERATION
  | SA_AIS_ERR_FAILED_OPERATION
  | SA_AIS_ERR_MESSAGE_ERROR
  | SA_AIS_ERR_QUEUE_FULL
  | SA_AIS_ERR_QUEUE_NOT_AVAILABLE
  | SA_AIS_ERR_BAD_FLAGS
  | SA_AIS_ERR_TOO_BIG
  | SA_AIS_ERR_NO_SECTIONS
  | SA_AIS_ERR_NO_OP
  | SA_AIS_ERR_REPAIR_PENDING
  | SA_AIS_ERR_NO_BINDINGS
  | SA_AIS_ERR_UNAVAILABLE
  | SA_AIS_ERR_CAMPAIGN_ERROR_DETECTED
  | SA_AIS_ERR_CAMPAIGN_PROC_FAILED
  | SA_AIS_ERR_CAMPAIGN_CANCELED
  | SA_AIS_ERR_CAMPAIGN_FAILED
  | SA_AIS_ERR_CAMPAIGN_SUSPENDED
  | SA_AIS_ERR_CAMPAIGN_SUSPENDING
  | SA_AIS_ERR_ACCESS_DENIED
  | SA_AIS_ERR_NOT_READY
  | SA_AIS_ERR_DEPLOYMENT
  | SA_AIS_VALUE int

datatype MafReturnT =
    MafOk | MafTryAgain | MafNotActive | MafFailure | MafNotExist | MafAlreadyExist | MafAborted | MafObjectLocked
  | MafPrepareFailed | MafCommitFailed | MafInvalidArgument | MafValidationFailed | MafNoResources | MafTimeOut

fun maf_coremw_rc :: "SaAisErrorT \<Rightarrow> MafReturnT" where
  "maf_coremw_rc SA_AIS_OK = MafOk"
| "maf_coremw_rc SA_AIS_ERR_LIBRARY = MafFailure"
| "maf_coremw_rc SA_AIS_ERR_VERSION = MafFailure"
| "maf_coremw_rc SA_AIS_ERR_INIT = MafFailure"
| "maf_coremw_rc SA_AIS_ERR_TIMEOUT = MafTimeOut"
| "maf_coremw_rc SA_AIS_ERR_TRY_AGAIN = MafTryAgain"
| "maf_coremw_rc SA_AIS_ERR_INVALID_PARAM = MafFailure"
| "maf_coremw_rc SA_AIS_ERR_NO_MEMORY = MafNoResources"
| "maf_coremw_rc SA_AIS_ERR_BAD_HANDLE = MafFailure"
| "maf_coremw_rc SA_AIS_ERR_BUSY = MafFailure"
| "maf_coremw_rc SA_AIS_ERR_ACCESS = MafFailure"
| "maf_coremw_rc SA_AIS_ERR_NOT_EXIST = MafNotExist"
| "maf_coremw_rc SA_AIS_ERR_NAME_TOO_LONG = MafFailure"
| "maf_coremw_rc SA_AIS_ERR_EXIST = MafAlreadyExist"
| "maf_coremw_rc SA_AIS_ERR_NO_SPACE = MafNoResources"
| "maf_coremw_rc SA_AIS_ERR_INTERRUPT = MafFailure"
| "maf_coremw_rc SA_AIS_ERR_NAME_NOT_FOUND = MafNotExist"
| "maf_coremw_rc SA_AIS_ERR_NO_RESOURCES = MafFailure"
| "maf_coremw_rc SA_AIS_ERR_NOT_SUPPORTED = MafFailure"
| "maf_coremw_rc SA_AIS_ERR_BAD_OPERATION = MafFailure"
| "maf_coremw_rc SA_AIS_ERR_FAILED_OPERATION = MafFailure"
| "maf_coremw_rc SA_AIS_ERR_MESSAGE_ERROR = MafFailure"
| "maf_coremw_rc SA_AIS_ERR_QUEUE_FULL = MafNoResources"
| "maf_coremw_rc SA_AIS_ERR_QUEUE_NOT_AVAILABLE = MafFailure"
| "maf_coremw_rc SA_AIS_ERR_BAD_FLAGS = MafFailure"
| "maf_coremw_rc SA_AIS_ERR_TOO_BIG = MafFailure"
| "maf_coremw_rc SA_AIS_ERR_NO_SECTIONS = MafFailure"
| "maf_coremw_rc SA_AIS_ERR_NO_OP = MafFailure"
| "maf_coremw_rc SA_AIS_ERR_REPAIR_PENDING = MafFailure"
| "maf_coremw_rc SA_AIS_ERR_NO_BINDINGS = MafFailure"
| "maf_coremw_rc SA_AIS_ERR_UNAVAILABLE = MafFailure"
| "maf_coremw_rc SA_AIS_ERR_CAMPAIGN_ERROR_DETECTED = MafFailure"
| "maf_coremw_rc SA_AIS_ERR_CAMPAIGN_PROC_FAILED = MafFailure"
| "maf_coremw_rc SA_AIS_ERR_CAMPAIGN_CANCELED = MafFailure"
| "maf_coremw_rc SA_AIS_ERR_CAMPAIGN_FAILED = MafFailure"
| "maf_coremw_rc SA_AIS_ERR_CAMPAIGN_SUSPENDED = MafFailure"
| "maf_coremw_rc SA_AIS_ERR_CAMPAIGN_SUSPENDING = MafFailure"
| "maf_coremw_rc SA_AIS_ERR_ACCESS_DENIED = MafFailure"
| "maf_coremw_rc SA_AIS_ERR_NOT_READY = MafFailure"
| "maf_coremw_rc SA_AIS_ERR_DEPLOYMENT = MafFailure"
| "maf_coremw_rc (SA_AIS_VALUE n) = MafFailure"

end
