(* ===== verification/AcEvents.thy ===== *)
theory AcEvents
  imports Effects SafTypes
begin

text \<open>
  \<open>src/src/generic/ac/ComSAAc.c\<close>, part 1: the state of the availability controller, the calls
  it makes to its surroundings, and the event queue between the COM thread and the AMF thread.

  The static variables of the file are the record \<open>ac\<close>.  Events are \<open>malloc\<close>ed objects in
  a store; the address of an event is the "invocation" COM hands back in its answer.  Calls of
  AMF, COM, other components and the system are recorded with their answers in \<open>tr\<close>; the
  record \<open>ac_env\<close> answers each call as a function of the calls made before.  System calls whose
  effect is part of the model (the event pipe, locks, memory) are asked for their result and not
  recorded.  Log and trace output is not modelled.
\<close>

section \<open>Data\<close>

datatype CoremwEventType =
    EVENT_None | EVENT_Terminate | EVENT_healthCheckReport | EVENT_haModeAssumed
  | EVENT_prepareTerminationResponse

datatype MafMwSpiHaModeT = MafMwSpiHaModeUnassigned | MafMwSpiHaModeActive | MafMwSpiHaModeStandby

datatype MafMwSpiHaReasonT = MafMwSpiHaReasonInit | MafMwSpiHaReasonFail | MafMwSpiHaReasonSwitchover

datatype MafMwSpiRecommendedRecoveryT =
    MafMwSpiRecommendedRecoveryRestart | MafMwSpiRecommendedRecoveryFailover

datatype SaAmfRecommendedRecoveryT = SA_AMF_COMPONENT_RESTART | SA_AMF_COMPONENT_FAILOVER

datatype SaAmfHAStateT =
    SA_AMF_HA_ACTIVE | SA_AMF_HA_STANDBY | SA_AMF_HA_QUIESCED | SA_AMF_HA_QUIESCING | SA_AMF_HA_OTHER nat

datatype SaAmfCSITransitionDescriptorT =
    SA_AMF_CSI_NEW_ASSIGN | SA_AMF_CSI_QUIESCED | SA_AMF_CSI_NOT_QUIESCED | SA_AMF_CSI_STILL_ACTIVE

record maf_CoremwEvent =
  ev_next :: "addr option"
  event_type :: CoremwEventType
  saf_invokation :: nat
  flags :: nat
  ev_error :: MafReturnT
  recommendedRecovery :: MafMwSpiRecommendedRecoveryT

datatype thread = AmfThread | NtfThread

datatype (plugins only: code) xcall =
    SaAmfInitialize | SaAmfFinalize | SaAmfSelectionObjectGet | SaAmfComponentNameGet
  | SaAmfComponentRegister | SaAmfHealthcheckStart string | SaAmfDispatch
  | SaAmfResponse nat SaAisErrorT
  | SaAmfCSIQuiescingComplete nat SaAisErrorT
  | SaAmfComponentErrorReport SaAmfRecommendedRecoveryT
  | SetHaMode addr MafMwSpiHaModeT MafMwSpiHaReasonT
  | HealthCheck addr | PrepareTermination addr | TerminateProcess
  | PthreadAttrInit | PthreadCreate thread | PthreadCancel thread | PthreadJoin thread
  | NtfPipeWrite | Sleep nat | Usleep nat | PollExecute thread
  | ProcessOpen string | Getenv string | Remove string | GetClearStorage
  | ObjImp_init_imm | RemoveFileMConsumer | KillChildIfAny | SetUpInstanceModelConsumers
  | ServiceOpen string | ServiceClose string
  | Pipe | FcntlGet | FcntlSet | GetPortal string | XmlNewParserCtxt | XmlRead string
  | TimerCreate thread | RegisterComponent | UnregisterComponent | ComponentInit string
  | ComponentFinalize string | ClearOamContextTransactionMap
  | Dlopen string | Dlsym string | Dlclose | Rfc5424Open nat | Rfc5424Close | AuditLog string
  | StopLogEventProducer

datatype answer = Sa SaAisErrorT | Maf MafReturnT | Num int | Str "string option" | Void

record ac_env =
  sa_answer :: "(xcall \<times> answer) list \<Rightarrow> xcall \<Rightarrow> SaAisErrorT"
  maf_answer :: "(xcall \<times> answer) list \<Rightarrow> xcall \<Rightarrow> MafReturnT"
  num_answer :: "(xcall \<times> answer) list \<Rightarrow> xcall \<Rightarrow> int"
  str_answer :: "(xcall \<times> answer) list \<Rightarrow> xcall \<Rightarrow> string option"
  malloc_fails :: "(xcall \<times> answer) list \<Rightarrow> bool"
  lock_fails :: "(xcall \<times> answer) list \<Rightarrow> bool"
  unlock_fails :: "(xcall \<times> answer) list \<Rightarrow> bool"
  write_fails :: "(xcall \<times> answer) list \<Rightarrow> bool"
  read_fails :: "(xcall \<times> answer) list \<Rightarrow> bool"   \<comment> \<open>an error other than an empty pipe\<close>
  fresh_event :: maf_CoremwEvent      \<comment> \<open>what fresh \<open>malloc\<close> memory holds\<close>

record ac =
  tr :: "(xcall \<times> answer) list"
  evs :: "addr \<rightharpoonup> maf_CoremwEvent"
  ebrk :: addr
  maf_eventq_head :: "addr option"
  maf_eventq_tail :: "addr option"
  event_pipe :: nat                   \<comment> \<open>bytes in the pipe\<close>
  maf_acCallbacks :: "addr option"
  amf_pthread_isrunning :: bool
  ntf_pthread_isrunning :: bool
  stop_thread :: bool
  maf_com_ha_state :: MafMwSpiHaModeT
  maf_new_com_ha_state :: MafMwSpiHaModeT
  alertalarm :: int
  comsa_sshd_control :: bool
  cc_name :: string                   \<comment> \<open>\<open>_CC_NAME\<close>: "com" or "lm"\<close>

section \<open>Calls\<close>

definition sa_call :: "ac_env \<Rightarrow> xcall \<Rightarrow> ac \<Rightarrow> SaAisErrorT \<times> ac" where
  "sa_call E c w = (let r = sa_answer E (tr w) c in (r, w\<lparr>tr := tr w @ [(c, Sa r)]\<rparr>))"

definition maf_call :: "ac_env \<Rightarrow> xcall \<Rightarrow> ac \<Rightarrow> MafReturnT \<times> ac" where
  "maf_call E c w = (let r = maf_answer E (tr w) c in (r, w\<lparr>tr := tr w @ [(c, Maf r)]\<rparr>))"

definition num_call :: "ac_env \<Rightarrow> xcall \<Rightarrow> ac \<Rightarrow> int \<times> ac" where
  "num_call E c w = (let r = num_answer E (tr w) c in (r, w\<lparr>tr := tr w @ [(c, Num r)]\<rparr>))"

definition str_call :: "ac_env \<Rightarrow> xcall \<Rightarrow> ac \<Rightarrow> string option \<times> ac" where
  "str_call E c w = (let r = str_answer E (tr w) c in (r, w\<lparr>tr := tr w @ [(c, Str r)]\<rparr>))"

definition void_call :: "xcall \<Rightarrow> ac \<Rightarrow> ac" where
  "void_call c w = w\<lparr>tr := tr w @ [(c, Void)]\<rparr>"

text \<open>\<open>SAF_API_CALL\<close> and \<open>SAF_API_INIT_CALL\<close>: at most ten more tries, two seconds apart.\<close>

definition saf_api_call :: "ac_env \<Rightarrow> xcall \<Rightarrow> ac \<Rightarrow> SaAisErrorT \<times> ac" where
  "saf_api_call E c w = retry (\<lambda>r. r = SA_AIS_ERR_TRY_AGAIN) 10 (sa_call E c) (void_call (Sleep 2)) w"

definition saAmfResponse_wrapper :: "ac_env \<Rightarrow> nat \<Rightarrow> SaAisErrorT \<Rightarrow> ac \<Rightarrow> (ac, unit) res" where
  "saAmfResponse_wrapper E iv error w =
     (let (rc, w) = saf_api_call E (SaAmfResponse iv error) w
      in if rc \<noteq> SA_AIS_OK then halt Quit w else ret () w)"

section \<open>The event queue\<close>

definition maf_new_event ::
    "ac_env \<Rightarrow> CoremwEventType \<Rightarrow> nat \<Rightarrow> nat \<Rightarrow> ac \<Rightarrow> (ac, addr) res" where
  "maf_new_event E ty iv fl w =
     (if malloc_fails E (tr w) then halt Abort w
      else ret (ebrk w) (w\<lparr>ebrk := Suc (ebrk w),
        evs := (evs w)(ebrk w \<mapsto> (fresh_event E)\<lparr>event_type := ty, saf_invokation := iv, flags := fl\<rparr>)\<rparr>))"

definition maf_event_add :: "ac_env \<Rightarrow> addr \<Rightarrow> ac \<Rightarrow> (ac, unit) res" where
  "maf_event_add E p w =
     (if lock_fails E (tr w) then halt Abort w
      else case evs w p of None \<Rightarrow> halt Wild w
      | Some ev \<Rightarrow>
        let w = w\<lparr>evs := (evs w)(p \<mapsto> ev\<lparr>ev_next := None\<rparr>)\<rparr> in
        ebind
          (case maf_eventq_tail w of
             None \<Rightarrow>
               if maf_eventq_head w \<noteq> None then halt Assert w
               else let w = w\<lparr>maf_eventq_head := Some p, maf_eventq_tail := Some p\<rparr>
                 in if write_fails E (tr w) then halt Abort w
                    else ret () (w\<lparr>event_pipe := event_pipe w + 1\<rparr>)
           | Some t \<Rightarrow>
               if maf_eventq_head w = None then halt Assert w
               else case evs w t of None \<Rightarrow> halt Wild w
                 | Some te \<Rightarrow> ret () (w\<lparr>evs := (evs w)(t \<mapsto> te\<lparr>ev_next := Some p\<rparr>),
                                       maf_eventq_tail := Some p\<rparr>))
          (\<lambda>(_, w). if unlock_fails E (tr w) then halt Abort w else ret () w))"

definition maf_event_getq :: "ac_env \<Rightarrow> ac \<Rightarrow> (ac, addr option) res" where
  "maf_event_getq E w =
     (if lock_fails E (tr w) then halt Abort w
      else let eventq = maf_eventq_head w;
               w = w\<lparr>maf_eventq_head := None, maf_eventq_tail := None\<rparr>
        in if read_fails E (tr w) then halt Quit w
           else let w = w\<lparr>event_pipe := event_pipe w - min 16 (event_pipe w)\<rparr>
             in if unlock_fails E (tr w) then halt Abort w else ret eventq w)"

section \<open>The interface COM calls\<close>

definition maf_coremw_start :: "ac \<Rightarrow> MafReturnT \<times> ac" where
  "maf_coremw_start w = (MafOk, w)"

text \<open>
  \<open>maf_coremw_stop\<close> up to the moment it waits for the AMF thread, and what it does when
  that thread has ended.
\<close>

definition stop_ntf :: "ac \<Rightarrow> ac" where
  "stop_ntf w =
     (let w = void_call KillChildIfAny w
      in if ntf_pthread_isrunning w
         then (void_call (PthreadJoin NtfThread) (void_call (PthreadCancel NtfThread)
                 (void_call NtfPipeWrite w)))\<lparr>ntf_pthread_isrunning := False\<rparr>
         else w)"

definition stop_request :: "ac_env \<Rightarrow> ac \<Rightarrow> (ac, unit) res" where
  "stop_request E w =
     (let w = stop_ntf w
      in if amf_pthread_isrunning w
         then ebind (maf_new_event E EVENT_Terminate 0 0 w) (\<lambda>(event, w). maf_event_add E event w)
         else ret () w)"

definition stop_done :: "ac \<Rightarrow> ac" where
  "stop_done w =
     (if amf_pthread_isrunning w
      then (void_call (PthreadJoin AmfThread) w)\<lparr>amf_pthread_isrunning := False\<rparr>
      else w)\<lparr>maf_acCallbacks := None\<rparr>"

definition maf_coremw_stop :: "ac_env \<Rightarrow> ac \<Rightarrow> (ac, MafReturnT) res" where
  "maf_coremw_stop E w = ebind (stop_request E w) (\<lambda>(_, w). ret MafOk (stop_done w))"

definition maf_coremw_acInitialize :: "ac_env \<Rightarrow> addr option \<Rightarrow> ac \<Rightarrow> MafReturnT \<times> ac" where
  "maf_coremw_acInitialize E cb w =
     (let w = w\<lparr>maf_acCallbacks := cb\<rparr>; (r, w) = num_call E PthreadAttrInit w
      in if r \<noteq> 0 then (MafFailure, w)
         else let (r, w) = num_call E (PthreadCreate AmfThread) w
           in if r \<noteq> 0 then (MafFailure, w) else (MafOk, w\<lparr>amf_pthread_isrunning := True\<rparr>))"

definition maf_coremw_healthCheckReport ::
    "ac_env \<Rightarrow> addr \<Rightarrow> MafReturnT \<Rightarrow> MafMwSpiRecommendedRecoveryT \<Rightarrow> ac \<Rightarrow> (ac, MafReturnT) res" where
  "maf_coremw_healthCheckReport E invocation report recovery w =
     ebind (if invocation = 0 then maf_new_event E EVENT_healthCheckReport 0 1 w else ret invocation w)
     (\<lambda>(p, w). case evs w p of None \<Rightarrow> halt Wild w
        | Some ev \<Rightarrow>
          if event_type ev \<noteq> EVENT_healthCheckReport then halt Quit w
          else ebind (maf_event_add E p (w\<lparr>evs := (evs w)(p \<mapsto>
                       ev\<lparr>ev_error := report, recommendedRecovery := recovery\<rparr>)\<rparr>))
               (\<lambda>(_, w). ret MafOk w))"

definition maf_coremw_haModeAssumed :: "ac_env \<Rightarrow> addr \<Rightarrow> MafReturnT \<Rightarrow> ac \<Rightarrow> (ac, MafReturnT) res" where
  "maf_coremw_haModeAssumed E p err w =
     (case evs w p of None \<Rightarrow> halt Wild w
      | Some ev \<Rightarrow>
        if event_type ev \<noteq> EVENT_haModeAssumed then halt Quit w
        else ebind (maf_event_add E p (w\<lparr>evs := (evs w)(p \<mapsto> ev\<lparr>ev_error := err\<rparr>)\<rparr>))
             (\<lambda>(_, w). ret MafOk w))"

definition maf_coremw_prepareTerminationResponse ::
    "ac_env \<Rightarrow> addr \<Rightarrow> MafReturnT \<Rightarrow> ac \<Rightarrow> (ac, MafReturnT) res" where
  "maf_coremw_prepareTerminationResponse E p err w =
     (case evs w p of None \<Rightarrow> halt Wild w
      | Some ev \<Rightarrow>
        if event_type ev \<noteq> EVENT_prepareTerminationResponse then halt Quit w
        else ebind (maf_event_add E p (w\<lparr>evs := (evs w)(p \<mapsto> ev\<lparr>ev_error := err\<rparr>)\<rparr>))
             (\<lambda>(_, w). ret MafOk w))"

end
