(* ===== verification/AcAmf.thy ===== *)
theory AcAmf
  imports AcEvents
begin

text \<open>
  \<open>src/src/generic/ac/ComSAAc.c\<close>, part 2: the call-backs AMF makes in the AMF thread, the
  handling of the events COM answered with, and the two threads.
\<close>

section \<open>Assigning a workload\<close>

text \<open>The parts of \<open>maf_amf_csi_set_callback\<close>: one per value of the requested HA state.\<close>

definition open_logs :: "ac_env \<Rightarrow> ac \<Rightarrow> ac" where
  "open_logs E w =
     (if alertalarm w \<noteq> 1 then
        let w = w\<lparr>alertalarm := 1\<rparr>;
            (_, w) = maf_call E (ServiceOpen ''AlarmAndAlertLog'') w;
            (_, w) = maf_call E (ServiceOpen ''cmdLog'') w;
            (_, w) = maf_call E (ServiceOpen ''secLog'') w
        in w
      else w)"

definition csi_set_active ::
    "ac_env \<Rightarrow> nat \<Rightarrow> SaAmfCSITransitionDescriptorT \<Rightarrow> ac \<Rightarrow> (ac, MafMwSpiHaReasonT) res" where
  "csi_set_active E iv transition w =
     (let w = (if cc_name w \<noteq> ''lm'' then
                 snd (num_call E (ProcessOpen ''cmw-modelconsumer-ready COM_R1 /opt/com/util/comsa_mdf_consumer'') w)
               else w);
          w = w\<lparr>maf_new_com_ha_state := MafMwSpiHaModeActive\<rparr>;
          reason = (if transition = SA_AMF_CSI_NEW_ASSIGN then MafMwSpiHaReasonInit
                    else if transition = SA_AMF_CSI_NOT_QUIESCED then MafMwSpiHaReasonFail
                    else MafMwSpiHaReasonSwitchover);
          (r, w) = maf_call E ObjImp_init_imm w
      in ebind
        (if r = MafFailure then
           ebind (maf_new_event E EVENT_prepareTerminationResponse iv 0 w) (\<lambda>(p, w).
             if maf_acCallbacks w = None then halt Wild w
             else ret () (void_call (PrepareTermination p) w))
         else ret () w)
        (\<lambda>(_, w). ret reason (if cc_name w \<noteq> ''lm'' then open_logs E w else w)))"

definition removeSecretAttrFile :: "ac_env \<Rightarrow> ac \<Rightarrow> ac" where
  "removeSecretAttrFile E w = snd (num_call E (Remove ''/opt/com/run/reencryptor-model-data'') w)"

definition csi_set_standby :: "ac_env \<Rightarrow> ac \<Rightarrow> MafMwSpiHaReasonT \<times> ac" where
  "csi_set_standby E w =
     (let w = (if cc_name w = ''com'' then
         let w = (if comsa_sshd_control w then
             let (sudo, w) = str_call E (Getenv ''SUDO_CMD'') w;
                 prefix = (case sudo of None \<Rightarrow> [] | Some s \<Rightarrow> s);
                 (_, w) = num_call E (ProcessOpen (prefix @ '' /usr/bin/update_sshd -d'')) w;
                 (_, w) = num_call E (ProcessOpen (prefix @ '' /usr/bin/reload_sshd'')) w
             in w
           else w)
         in removeSecretAttrFile E w
       else w)
      in (MafMwSpiHaReasonInit, w\<lparr>maf_new_com_ha_state := MafMwSpiHaModeStandby\<rparr>))"

definition csi_set_quiesced :: "ac_env \<Rightarrow> ac \<Rightarrow> MafMwSpiHaReasonT \<times> ac" where
  "csi_set_quiesced E w =
     (let w = void_call RemoveFileMConsumer w;
          w = (if cc_name w = ''com'' then removeSecretAttrFile E w else w)
      in (MafMwSpiHaReasonSwitchover, w\<lparr>maf_new_com_ha_state := MafMwSpiHaModeUnassigned\<rparr>))"

definition csi_set_quiescing :: "ac_env \<Rightarrow> ac \<Rightarrow> MafMwSpiHaReasonT \<times> ac" where
  "csi_set_quiescing E w =
     (let w = (if cc_name w = ''com'' then removeSecretAttrFile E w else w)
      in (MafMwSpiHaReasonSwitchover, w\<lparr>maf_new_com_ha_state := MafMwSpiHaModeUnassigned\<rparr>))"

definition csi_set_prepare ::
    "ac_env \<Rightarrow> nat \<Rightarrow> SaAmfHAStateT \<Rightarrow> SaAmfCSITransitionDescriptorT \<Rightarrow> ac \<Rightarrow> (ac, MafMwSpiHaReasonT) res" where
  "csi_set_prepare E iv ha_state transition w = (case ha_state of
       SA_AMF_HA_ACTIVE \<Rightarrow> csi_set_active E iv transition w
     | SA_AMF_HA_STANDBY \<Rightarrow> (let (r, w) = csi_set_standby E w in ret r w)
     | SA_AMF_HA_QUIESCED \<Rightarrow> (let (r, w) = csi_set_quiesced E w in ret r w)
     | SA_AMF_HA_QUIESCING \<Rightarrow> (let (r, w) = csi_set_quiescing E w in ret r w)
     | SA_AMF_HA_OTHER n \<Rightarrow> halt Assert w)"

text \<open>The second half: answer AMF at once, or ask COM to change its mode.\<close>

definition csi_same_state :: "ac_env \<Rightarrow> nat \<Rightarrow> SaAmfHAStateT \<Rightarrow> ac \<Rightarrow> (ac, unit) res" where
  "csi_same_state E iv ha_state w =
     ebind (saAmfResponse_wrapper E iv SA_AIS_OK w) (\<lambda>(_, w).
       if ha_state = SA_AMF_HA_QUIESCING then
         let (rc, w) = sa_call E (SaAmfCSIQuiescingComplete iv SA_AIS_OK) w
         in if rc \<noteq> SA_AIS_OK then halt Quit w else ret () w
       else ret () w)"

definition csi_ask_com :: "ac_env \<Rightarrow> nat \<Rightarrow> SaAmfHAStateT \<Rightarrow> MafMwSpiHaReasonT \<Rightarrow> ac \<Rightarrow> (ac, unit) res" where
  "csi_ask_com E iv ha_state reason w =
     ebind
       (if ha_state = SA_AMF_HA_QUIESCING
        then ebind (saAmfResponse_wrapper E iv SA_AIS_OK w) (\<lambda>(_, w).
               maf_new_event E EVENT_haModeAssumed iv 1 w)
        else maf_new_event E EVENT_haModeAssumed iv 0 w)
       (\<lambda>(p, w). ret () (void_call (SetHaMode p (maf_new_com_ha_state w) reason) w))"

definition maf_amf_csi_set_callback ::
    "ac_env \<Rightarrow> nat \<Rightarrow> SaAmfHAStateT \<Rightarrow> SaAmfCSITransitionDescriptorT \<Rightarrow> ac \<Rightarrow> (ac, unit) res" where
  "maf_amf_csi_set_callback E iv ha_state transition w =
     ebind (csi_set_prepare E iv ha_state transition w) (\<lambda>(reason, w).
       if maf_acCallbacks w = None \<or> maf_com_ha_state w = maf_new_com_ha_state w
       then csi_same_state E iv ha_state w
       else csi_ask_com E iv ha_state reason w)"

definition maf_amf_csi_remove_callback :: "ac_env \<Rightarrow> nat \<Rightarrow> ac \<Rightarrow> (ac, unit) res" where
  "maf_amf_csi_remove_callback E iv w =
     (if maf_com_ha_state w = MafMwSpiHaModeUnassigned then saAmfResponse_wrapper E iv SA_AIS_OK w
      else maf_amf_csi_set_callback E iv SA_AMF_HA_QUIESCED SA_AMF_CSI_NEW_ASSIGN w)"

section \<open>Health checks and termination\<close>

definition maf_amf_healthcheck_callback :: "ac_env \<Rightarrow> nat \<Rightarrow> ac \<Rightarrow> (ac, unit) res" where
  "maf_amf_healthcheck_callback E iv w =
     (if maf_acCallbacks w = None then saAmfResponse_wrapper E iv SA_AIS_OK w
      else ebind (maf_new_event E EVENT_healthCheckReport iv 0 w) (\<lambda>(p, w).
        ret () (void_call (HealthCheck p) w)))"

definition maf_amf_comp_terminate_callback :: "ac_env \<Rightarrow> nat \<Rightarrow> ac \<Rightarrow> (ac, unit) res" where
  "maf_amf_comp_terminate_callback E iv w =
     (if maf_acCallbacks w = None
      then ebind (saAmfResponse_wrapper E iv SA_AIS_OK w) (\<lambda>(_, w). halt Quit w)
      else ebind (maf_new_event E EVENT_prepareTerminationResponse iv 0 w) (\<lambda>(p, w).
        ret () (void_call (PrepareTermination p) w)))"

section \<open>Events\<close>

text \<open>\<open>rm -rf\<close> of the hand-shake file until it succeeds, at most 20 more times.\<close>

fun handshake_loop :: "ac_env \<Rightarrow> string \<Rightarrow> nat \<Rightarrow> int \<Rightarrow> ac \<Rightarrow> int \<times> ac" where
  "handshake_loop E cmd n r w =
     (if r = 1 \<and> n > 0
      then let (r, w) = num_call E (ProcessOpen cmd) (void_call (Usleep 1000) w)
        in handshake_loop E cmd (n - 1) r w
      else (r, w))"

declare handshake_loop.simps [simp del]

definition handshakeToComsaMimTool :: "ac_env \<Rightarrow> ac \<Rightarrow> ac" where
  "handshakeToComsaMimTool E w =
     (let (dir, w) = str_call E GetClearStorage w;
          path = (case dir of None \<Rightarrow> [] | Some d \<Rightarrow> d);
          cmd = ''rm -rf '' @ path @ ''/comsa_for_coremw-apr9010555/pending_comsa_restart'';
          (r, w) = num_call E (ProcessOpen cmd) w
      in snd (handshake_loop E cmd 20 r w))"

definition start_ntf_thread :: "ac_env \<Rightarrow> ac \<Rightarrow> bool \<times> ac" where
  "start_ntf_thread E w =
     (let (r, w) = num_call E PthreadAttrInit w
      in if r \<noteq> 0 then (False, w)
         else let (r, w) = num_call E (PthreadCreate NtfThread) w
           in if r \<noteq> 0 then (False, w) else (True, w\<lparr>ntf_pthread_isrunning := True\<rparr>))"

definition maf_coremw_haModeAssumed_event :: "ac_env \<Rightarrow> maf_CoremwEvent \<Rightarrow> ac \<Rightarrow> (ac, unit) res" where
  "maf_coremw_haModeAssumed_event E ev w =
     (let (response, going, w) =
        (if ev_error ev = MafOk then
           let w = w\<lparr>maf_com_ha_state := maf_new_com_ha_state w\<rparr>
           in if maf_new_com_ha_state w = MafMwSpiHaModeActive
              then let (ok, w) = start_ntf_thread E w in (SA_AIS_OK, ok, w)
              else (SA_AIS_OK, True, w)
         else (SA_AIS_ERR_FAILED_OPERATION, True, w))
      in if \<not> going then ret () w
         else if flags ev = 1 then
           let (rc, w) = sa_call E (SaAmfCSIQuiescingComplete (saf_invokation ev) response) w
           in if rc \<noteq> SA_AIS_OK then halt Quit w else ret () w
         else
           let w = (if (maf_new_com_ha_state w = MafMwSpiHaModeActive \<or>
                        maf_new_com_ha_state w = MafMwSpiHaModeStandby) \<and> cc_name w \<noteq> ''lm''
                    then handshakeToComsaMimTool E w else w)
           in saAmfResponse_wrapper E (saf_invokation ev) response w)"

definition maf_coremw_healthCheckReport_event :: "ac_env \<Rightarrow> maf_CoremwEvent \<Rightarrow> ac \<Rightarrow> (ac, unit) res" where
  "maf_coremw_healthCheckReport_event E ev w =
     (let response = (if ev_error ev = MafOk then SA_AIS_OK else SA_AIS_ERR_FAILED_OPERATION)
      in if flags ev = 0 then saAmfResponse_wrapper E (saf_invokation ev) response w
         else
           let recover = (if recommendedRecovery ev = MafMwSpiRecommendedRecoveryFailover
                          then SA_AMF_COMPONENT_FAILOVER else SA_AMF_COMPONENT_RESTART);
               (rc, w) = sa_call E (SaAmfComponentErrorReport recover) w
           in if rc \<noteq> SA_AIS_OK then halt Quit w else ret () w)"

definition maf_coremw_prepareTerminationResponse_event ::
    "ac_env \<Rightarrow> maf_CoremwEvent \<Rightarrow> ac \<Rightarrow> (ac, unit) res" where
  "maf_coremw_prepareTerminationResponse_event E ev w =
     (let response = (if ev_error ev = MafOk then SA_AIS_OK else SA_AIS_ERR_FAILED_OPERATION)
      in ebind (saAmfResponse_wrapper E (saf_invokation ev) response w) (\<lambda>(_, w).
           if maf_acCallbacks w = None then halt Assert w else ret () (void_call TerminateProcess w)))"

text \<open>One round of the loop of \<open>maf_handle_events\<close>: handle the event at \<open>p\<close>, free it, go on.\<close>

definition handle_one :: "ac_env \<Rightarrow> addr \<Rightarrow> ac \<Rightarrow> (ac, addr option) res" where
  "handle_one E p w = (case evs w p of None \<Rightarrow> halt Wild w
     | Some ev \<Rightarrow>
       ebind (case event_type ev of
           EVENT_Terminate \<Rightarrow> ret () (w\<lparr>stop_thread := True\<rparr>)
         | EVENT_haModeAssumed \<Rightarrow> maf_coremw_haModeAssumed_event E ev w
         | EVENT_healthCheckReport \<Rightarrow> maf_coremw_healthCheckReport_event E ev w
         | EVENT_prepareTerminationResponse \<Rightarrow> maf_coremw_prepareTerminationResponse_event E ev w
         | EVENT_None \<Rightarrow> halt Assert w)
       (\<lambda>(_, w). case evs w p of None \<Rightarrow> halt Wild w
          | Some ev \<Rightarrow> ret (ev_next ev) (w\<lparr>evs := (evs w)(p := None)\<rparr>)))"

partial_function (option) handle_loop :: "ac_env \<Rightarrow> addr option \<Rightarrow> ac \<Rightarrow> (ac, unit) res option" where
  "handle_loop E p w = (case p of None \<Rightarrow> Some (ret () w)
     | Some a \<Rightarrow> (case handle_one E a w of Inl e \<Rightarrow> Some (Inl e)
         | Inr (q, w') \<Rightarrow> handle_loop E q w'))"

definition maf_handle_events :: "ac_env \<Rightarrow> ac \<Rightarrow> (ac, unit) res option" where
  "maf_handle_events E w = (case maf_event_getq E w of Inl e \<Rightarrow> Some (Inl e)
     | Inr (q, w') \<Rightarrow> handle_loop E q w')"

section \<open>The threads\<close>

text \<open>
  \<open>ntf_thread\<close>, for the values of \<open>ntf_stop_thread\<close> its loop reads one after another;
  \<open>None\<close> says that it is still running.  The poll loop itself is \<open>SelectTimer\<close>.
\<close>

primrec ntf_thread :: "ac_env \<Rightarrow> bool list \<Rightarrow> ac \<Rightarrow> (ac, unit) res option" where
  "ntf_thread E [] w = None"
| "ntf_thread E (s # ss) w =
     (if s then Some (ret () w)
      else let (r, w) = num_call E (PollExecute NtfThread) w
        in if r \<noteq> 0 then Some (halt Quit w) else ntf_thread E ss w)"

text \<open>The up-calls AMF may make from \<open>saAmfDispatch\<close>.\<close>

datatype upcall =
    CSISet nat SaAmfHAStateT SaAmfCSITransitionDescriptorT
  | CSIRemove nat
  | Healthcheck nat
  | ComponentTerminate nat

fun do_upcall :: "ac_env \<Rightarrow> upcall \<Rightarrow> ac \<Rightarrow> (ac, unit) res" where
  "do_upcall E (CSISet iv h t) w = maf_amf_csi_set_callback E iv h t w"
| "do_upcall E (CSIRemove iv) w = maf_amf_csi_remove_callback E iv w"
| "do_upcall E (Healthcheck iv) w = maf_amf_healthcheck_callback E iv w"
| "do_upcall E (ComponentTerminate iv) w = maf_amf_comp_terminate_callback E iv w"

primrec upcalls :: "ac_env \<Rightarrow> upcall list \<Rightarrow> ac \<Rightarrow> (ac, unit) res" where
  "upcalls E [] w = ret () w"
| "upcalls E (u # us) w = ebind (do_upcall E u w) (\<lambda>(_, w). upcalls E us w)"

definition dispatch_amf :: "ac_env \<Rightarrow> upcall list \<Rightarrow> ac \<Rightarrow> (ac, unit) res" where
  "dispatch_amf E us w =
     ebind (upcalls E us w) (\<lambda>(_, w).
       let (rc, w) = sa_call E SaAmfDispatch w
       in if rc \<noteq> SA_AIS_OK then halt Quit w else ret () w)"

text \<open>
  The start of \<open>maf_amf_thread\<close>: five calls, each retried, each ending the process when it
  fails in the end, after an attempt to finalize.
\<close>

primrec amf_setup :: "ac_env \<Rightarrow> xcall list \<Rightarrow> ac \<Rightarrow> (ac, unit) res" where
  "amf_setup E [] w = ret () w"
| "amf_setup E (c # cs) w =
     (let (rc, w) = saf_api_call E c w
      in if rc \<noteq> SA_AIS_OK then halt Quit (snd (saf_api_call E SaAmfFinalize w))
         else amf_setup E cs w)"

definition amf_setup_calls :: "ac \<Rightarrow> xcall list" where
  "amf_setup_calls w =
     [SaAmfInitialize, SaAmfSelectionObjectGet, SaAmfComponentNameGet, SaAmfComponentRegister,
      SaAmfHealthcheckStart (if cc_name w \<noteq> ''lm'' then ''COM_SA'' else ''LM_SA'')]"

text \<open>
  What one pass of \<open>poll_execute\<close> does for this thread: its return value, the up-calls AMF has
  ready when its descriptor is readable, and whether the event pipe is served; the pipe is only
  served when it holds a byte.
\<close>

record poll_pass =
  pp_rc :: int
  pp_amf :: "upcall list option"
  pp_events :: bool

definition run_pass :: "ac_env \<Rightarrow> poll_pass \<Rightarrow> ac \<Rightarrow> (ac, int) res option" where
  "run_pass E p w =
     (case (case pp_amf p of None \<Rightarrow> ret () w | Some us \<Rightarrow> dispatch_amf E us w) of
        Inl e \<Rightarrow> Some (Inl e)
      | Inr (_, w) \<Rightarrow>
        (if pp_events p \<and> event_pipe w > 0
         then map_option (\<lambda>x. ebind x (\<lambda>(_, w). ret (pp_rc p) w)) (maf_handle_events E w)
         else Some (ret (pp_rc p) w)))"

primrec amf_loop :: "ac_env \<Rightarrow> poll_pass list \<Rightarrow> ac \<Rightarrow> (ac, unit) res option" where
  "amf_loop E [] w = (if stop_thread w then Some (ret () w) else None)"
| "amf_loop E (p # ps) w =
     (if stop_thread w then Some (ret () w)
      else case run_pass E p w of None \<Rightarrow> None
        | Some (Inl e) \<Rightarrow> Some (Inl e)
        | Some (Inr (rc, w)) \<Rightarrow>
            if rc \<noteq> 0 then Some (halt Quit (snd (saf_api_call E SaAmfFinalize w)))
            else amf_loop E ps w)"

definition maf_amf_thread :: "ac_env \<Rightarrow> poll_pass list \<Rightarrow> ac \<Rightarrow> (ac, unit) res option" where
  "maf_amf_thread E ps w =
     (case amf_setup E (amf_setup_calls w) w of Inl e \<Rightarrow> Some (Inl e)
      | Inr (_, w) \<Rightarrow>
        (case amf_loop E ps w of None \<Rightarrow> None
         | Some (Inl e) \<Rightarrow> Some (Inl e)
         | Some (Inr (_, w)) \<Rightarrow>
             if cc_name w \<noteq> ''lm'' then
               let (rc, w) = saf_api_call E SaAmfFinalize w
               in Some (if rc \<noteq> SA_AIS_OK then halt Quit w else ret () w)
             else Some (ret () w)))"

end
