(* ===== verification/AcQueue.thy ===== *)
theory AcQueue
  imports AcEvents
begin

text \<open>
  The event queue as a queue: \<open>maf_event_add\<close> appends, \<open>maf_event_getq\<close> takes all events in
  the order they were added, and the pipe holds one byte exactly while the queue is not empty, so
  the AMF thread is woken up for every event.
\<close>

section \<open>The contract of a queue with a wake-up\<close>

locale wakeup_queue =
  fixes add :: "'e \<Rightarrow> 's \<Rightarrow> 's option"
    and take_all :: "'s \<Rightarrow> ('e list \<times> 's) option"
    and holds :: "'s \<Rightarrow> 'e list \<Rightarrow> bool"
    and ready :: "'s \<Rightarrow> 'e \<Rightarrow> bool"
    and awake :: "'s \<Rightarrow> bool"
  assumes add_law: "holds s xs \<Longrightarrow> ready s x \<Longrightarrow> x \<notin> set xs \<Longrightarrow>
      \<exists>s'. add x s = Some s' \<and> holds s' (xs @ [x]) \<and> (\<forall>y. ready s y \<longrightarrow> ready s' y)"
    and take_law: "holds s xs \<Longrightarrow> \<exists>s'. take_all s = Some (xs, s') \<and> holds s' [] \<and> (\<forall>y. ready s y \<longrightarrow> ready s' y)"
    and awake_law: "holds s xs \<Longrightarrow> awake s \<longleftrightarrow> xs \<noteq> []"
begin

lemma adds_law:
  "holds s ys \<Longrightarrow> distinct (ys @ xs) \<Longrightarrow> \<forall>x \<in> set xs. ready s x \<Longrightarrow>
   \<exists>s'. run_cmds add xs s = Some s' \<and> holds s' (ys @ xs) \<and> (\<forall>y. ready s y \<longrightarrow> ready s' y)"
proof (induction xs arbitrary: s ys)
  case (Cons x xs)
  then obtain t where t: "add x s = Some t" "holds t (ys @ [x])" "\<forall>y. ready s y \<longrightarrow> ready t y"
    using add_law [of s ys x] by auto
  with Cons.IH [of t "ys @ [x]"] Cons.prems show ?case by auto
qed simp

lemma fifo:
  assumes "holds s []" "distinct xs" "\<forall>x \<in> set xs. ready s x"
  shows "\<exists>s' s''. run_cmds add xs s = Some s' \<and> (awake s' \<longleftrightarrow> xs \<noteq> []) \<and> take_all s' = Some (xs, s'') \<and>
    holds s'' [] \<and> \<not> awake s''"
proof -
  obtain s' where "run_cmds add xs s = Some s'" "holds s' xs" using adds_law [of s "[]" xs] assms by auto
  with take_law [of s' xs] awake_law show ?thesis by blast
qed

end

section \<open>The event queue\<close>

definition system_ok :: "ac_env \<Rightarrow> bool" where
  "system_ok E \<longleftrightarrow> (\<forall>t. \<not> malloc_fails E t \<and> \<not> lock_fails E t \<and> \<not> unlock_fails E t \<and>
     \<not> write_fails E t \<and> \<not> read_fails E t)"

definition queue_inv :: "ac \<Rightarrow> addr list \<Rightarrow> bool" where
  "queue_inv w as \<longleftrightarrow> lchain ev_next (evs w) (maf_eventq_head w) as \<and>
     maf_eventq_tail w = last_or None as \<and> event_pipe w = (if as = [] then 0 else 1)"

text \<open>An event without its link.\<close>

definition content :: "(addr \<rightharpoonup> maf_CoremwEvent) \<Rightarrow> addr \<rightharpoonup> maf_CoremwEvent" where
  "content h a = map_option (\<lambda>n. n\<lparr>ev_next := None\<rparr>) (h a)"

lemma content_upd: "content (h(a \<mapsto> n)) = (content h)(a \<mapsto> n\<lparr>ev_next := None\<rparr>)"
  by (auto simp: content_def)

lemma content_relink: "h a = Some n \<Longrightarrow> content (h(a \<mapsto> n\<lparr>ev_next := p\<rparr>)) = content h"
  by (auto simp: content_def)

lemma content_dom [simp]: "dom (content h) = dom h"
  by (auto simp: content_def dom_def)

lemma event_add_spec:
  assumes q: "queue_inv w as" and p: "evs w p = Some ev" "p \<notin> set as" and ok: "system_ok E"
  shows "\<exists>h k. maf_event_add E p w = Inr ((), w\<lparr>evs := h, maf_eventq_head := first_of (as @ [p]),
       maf_eventq_tail := Some p, event_pipe := 1\<rparr>) \<and>
     queue_inv (w\<lparr>evs := h, maf_eventq_head := first_of (as @ [p]), maf_eventq_tail := Some p, event_pipe := 1\<rparr>) (as @ [p]) \<and>
     content h = content (evs w) \<and> (\<forall>a. a \<noteq> p \<longrightarrow> a \<notin> set as \<longrightarrow> h a = evs w a)"
proof -
  let ?h1 = "(evs w)(p \<mapsto> ev\<lparr>ev_next := None\<rparr>)"
  have ch: "lchain ev_next (evs w) (maf_eventq_head w) as" and tl: "maf_eventq_tail w = last_or None as"
    and pipe: "event_pipe w = (if as = [] then 0 else 1)" using q by (auto simp: queue_inv_def)
  have hd: "maf_eventq_head w = first_of as" using ch by (rule lchain_first)
  have ok': "\<not> lock_fails E t" "\<not> write_fails E t" "\<not> unlock_fails E t" for t using ok by (auto simp: system_ok_def)
  show ?thesis
  proof (cases as rule: rev_cases)
    case Nil
    have "maf_event_add E p w = Inr ((), w\<lparr>evs := ?h1, maf_eventq_head := Some p, maf_eventq_tail := Some p, event_pipe := 1\<rparr>)"
      using p tl hd pipe ok' unfolding maf_event_add_def Nil by (simp add: ret_def)
    moreover have "content ?h1 = content (evs w)" using p(1) by (rule content_relink)
    ultimately show ?thesis using Nil p
      by (intro exI [of _ ?h1]) (auto simp: queue_inv_def)
  next
    case (snoc us t)
    have tp: "t \<noteq> p" using p(2) snoc by auto
    obtain te where te: "evs w t = Some te" using lseg_dom [OF ch, of t] snoc by auto
    let ?h = "?h1(t \<mapsto> te\<lparr>ev_next := Some p\<rparr>)"
    have "maf_eventq_tail w = Some t" "maf_eventq_head w \<noteq> None"
      using tl hd snoc by (auto simp: first_of_def split: list.splits)
    moreover have "w\<lparr>evs := ?h, maf_eventq_tail := Some p\<rparr> =
        w\<lparr>evs := ?h, maf_eventq_head := first_of (as @ [p]), maf_eventq_tail := Some p, event_pipe := 1\<rparr>"
      using hd pipe snoc by (cases w) (simp add: first_of_append)
    ultimately have "maf_event_add E p w = Inr ((), w\<lparr>evs := ?h, maf_eventq_head := first_of (as @ [p]),
        maf_eventq_tail := Some p, event_pipe := 1\<rparr>)"
      using p(1) te tp ok' unfolding maf_event_add_def by (auto simp: ret_def)
    moreover have "lchain ev_next ?h (first_of (as @ [p])) (as @ [p])"
    proof -
      have "lseg ev_next (evs w) (maf_eventq_head w) (us @ [t]) None" using ch snoc by simp
      then have "lseg ev_next ?h1 (maf_eventq_head w) (us @ [t]) None" using p(2) snoc by simp
      then have "lseg ev_next ?h (maf_eventq_head w) (us @ [t]) (Some p)"
        using lchain_distinct [OF ch] te tp unfolding snoc by (intro lseg_link) auto
      moreover have "first_of (as @ [p]) = maf_eventq_head w" using hd snoc by (simp add: first_of_append)
      ultimately show ?thesis using tp unfolding snoc by (auto simp: lseg_append)
    qed
    moreover have "content ?h = content (evs w)"
      using content_relink [of ?h1 t te "Some p"] content_relink [of "evs w" p ev None] p(1) te tp by simp
    ultimately show ?thesis using snoc
      by (intro exI [of _ ?h]) (auto simp: queue_inv_def last_or_def)
  qed
qed

lemma event_getq_spec:
  assumes q: "queue_inv w as" and ok: "system_ok E"
  shows "maf_event_getq E w = Inr (first_of as, w\<lparr>maf_eventq_head := None, maf_eventq_tail := None, event_pipe := 0\<rparr>) \<and>
    queue_inv (w\<lparr>maf_eventq_head := None, maf_eventq_tail := None, event_pipe := 0\<rparr>) [] \<and>
    lchain ev_next (evs w) (first_of as) as"
proof -
  have "maf_eventq_head w = first_of as" using q by (auto simp: queue_inv_def dest: lchain_first)
  moreover have "event_pipe w - min 16 (event_pipe w) = 0" using q by (auto simp: queue_inv_def)
  ultimately show ?thesis using q ok
    by (auto simp: maf_event_getq_def queue_inv_def system_ok_def ret_def Let_def)
qed

text \<open>
  The same when the system may refuse: an operation that returns does what it does when the system
  refuses nothing, and a refusal ends the process.
\<close>

definition willing :: "ac_env \<Rightarrow> ac_env" where
  "willing E = E\<lparr>malloc_fails := \<lambda>t. False, lock_fails := \<lambda>t. False, unlock_fails := \<lambda>t. False,
     write_fails := \<lambda>t. False, read_fails := \<lambda>t. False\<rparr>"

lemma willing_ok [simp]: "system_ok (willing E)"
  by (simp add: willing_def system_ok_def)

lemma event_add_willing: "maf_event_add E p w = Inr (u, v) \<Longrightarrow> maf_event_add (willing E) p w = Inr (u, v)"
  by (auto simp: maf_event_add_def willing_def ebind_Inr Let_def split: if_splits option.splits)

lemma event_getq_willing: "maf_event_getq E w = Inr (q, v) \<Longrightarrow> maf_event_getq (willing E) w = Inr (q, v)"
  by (auto simp: maf_event_getq_def willing_def Let_def split: if_splits)

text \<open>The events reached from a pointer.\<close>

partial_function (option) drain :: "(addr \<rightharpoonup> maf_CoremwEvent) \<Rightarrow> addr option \<Rightarrow> addr list option" where
  "drain h p = (case p of None \<Rightarrow> Some []
     | Some a \<Rightarrow> h a \<bind> (\<lambda>n. drain h (ev_next n) \<bind> (\<lambda>as. Some (a # as))))"

lemma drain_chain: "lchain ev_next h p as \<Longrightarrow> drain h p = Some as"
  by (induction as arbitrary: p) (auto simp: drain.simps)

definition enqueue :: "ac_env \<Rightarrow> addr \<Rightarrow> ac \<Rightarrow> ac option" where
  "enqueue E p w = (case maf_event_add E p w of Inl _ \<Rightarrow> None | Inr (_, w') \<Rightarrow> Some w')"

definition dequeue_all :: "ac_env \<Rightarrow> ac \<Rightarrow> (addr list \<times> ac) option" where
  "dequeue_all E w = (case maf_event_getq E w of Inl _ \<Rightarrow> None
     | Inr (q, w') \<Rightarrow> map_option (\<lambda>as. (as, w')) (drain (evs w') q))"

definition allocated :: "ac \<Rightarrow> addr \<Rightarrow> bool" where
  "allocated w p \<longleftrightarrow> evs w p \<noteq> None"

definition pipe_readable :: "ac \<Rightarrow> bool" where
  "pipe_readable w \<longleftrightarrow> event_pipe w > 0"

definition queue_holds :: "ac_env \<Rightarrow> ac \<Rightarrow> addr list \<Rightarrow> bool" where
  "queue_holds E w as \<longleftrightarrow> system_ok E \<and> queue_inv w as"

interpretation evq: wakeup_queue "enqueue E" "dequeue_all E" "queue_holds E" allocated pipe_readable for E
proof unfold_locales
  fix s xs x
  assume h: "queue_holds E s xs" and r: "allocated s x" and n: "x \<notin> set xs"
  from r obtain ev where ev: "evs s x = Some ev" by (auto simp: allocated_def)
  obtain h' where h': "maf_event_add E x s = Inr ((), s\<lparr>evs := h', maf_eventq_head := first_of (xs @ [x]),
       maf_eventq_tail := Some x, event_pipe := 1\<rparr>)"
     "queue_inv (s\<lparr>evs := h', maf_eventq_head := first_of (xs @ [x]), maf_eventq_tail := Some x, event_pipe := 1\<rparr>) (xs @ [x])"
     "content h' = content (evs s)"
    using event_add_spec [OF _ ev n] h by (auto simp: queue_holds_def)
  have "dom h' = dom (evs s)" using arg_cong [OF h'(3), of dom] by simp
  then have "\<forall>y. evs s y \<noteq> None \<longrightarrow> h' y \<noteq> None" by (auto simp: dom_def)
  with h'(1,2) h show "\<exists>s'. enqueue E x s = Some s' \<and> queue_holds E s' (xs @ [x]) \<and> (\<forall>y. allocated s y \<longrightarrow> allocated s' y)"
    by (auto simp: enqueue_def queue_holds_def allocated_def)
next
  fix s xs
  assume "queue_holds E s xs"
  with event_getq_spec [of s xs E]
  show "\<exists>s'. dequeue_all E s = Some (xs, s') \<and> queue_holds E s' [] \<and> (\<forall>y. allocated s y \<longrightarrow> allocated s' y)"
    by (auto simp: dequeue_all_def queue_holds_def allocated_def drain_chain)
qed (auto simp: queue_holds_def queue_inv_def pipe_readable_def)

end
