(* ===== verification/AcLedger.thy ===== *)
theory AcLedger
  imports AcAmf AcQueue
begin

text \<open>
  The ledger of AMF's requests.  A request (an "invocation") is settled either by a response AMF
  has accepted or by an event that still owes one; \<open>settled\<close> counts both.  Each up-call adds
  one to the count of its invocation and handling an event keeps it, except where the object
  implementer cannot be initialized (one more) or the NTF thread cannot be started (one less).
\<close>

section \<open>Counting responses\<close>

definition is_response :: "nat \<Rightarrow> xcall \<times> answer \<Rightarrow> bool" where
  "is_response iv p = (case p of (SaAmfResponse i e, a) \<Rightarrow> i = iv \<and> a = Sa SA_AIS_OK | _ \<Rightarrow> False)"

definition accepted :: "nat \<Rightarrow> (xcall \<times> answer) list \<Rightarrow> nat" where
  "accepted iv t = length (filter (is_response iv) t)"

lemma accepted_append [simp]: "accepted iv (s @ t) = accepted iv s + accepted iv t"
  by (simp add: accepted_def)

lemma accepted_Nil [simp]: "accepted iv [] = 0"
  by (simp add: accepted_def)

lemma accepted_one [simp]: "accepted iv (p # t) = (if is_response iv p then 1 else 0) + accepted iv t"
  by (simp add: accepted_def)

definition owed_event :: "nat \<Rightarrow> maf_CoremwEvent \<Rightarrow> bool" where
  "owed_event iv ev \<longleftrightarrow> saf_invokation ev = iv \<and> flags ev = 0 \<and>
     event_type ev \<in> {EVENT_healthCheckReport, EVENT_haModeAssumed, EVENT_prepareTerminationResponse}"

definition owed :: "nat \<Rightarrow> (addr \<rightharpoonup> maf_CoremwEvent) \<Rightarrow> nat" where
  "owed iv h = card {a. \<exists>ev. h a = Some ev \<and> owed_event iv ev}"

definition settled :: "nat \<Rightarrow> ac \<Rightarrow> nat" where
  "settled iv w = accepted iv (tr w) + owed iv (evs w)"

lemma owed_upd_new:
  assumes "h a = None" "finite (dom h)"
  shows "owed iv (h(a \<mapsto> ev)) = owed iv h + (if owed_event iv ev then 1 else 0)"
proof -
  let ?S = "{b. \<exists>ev. h b = Some ev \<and> owed_event iv ev}"
  have "finite ?S" using assms(2) by (rule finite_subset [rotated]) auto
  moreover have "a \<notin> ?S" using assms(1) by auto
  moreover have "{b. \<exists>e. (h(a \<mapsto> ev)) b = Some e \<and> owed_event iv e} = (if owed_event iv ev then insert a ?S else ?S)"
    using assms(1) by auto
  ultimately show ?thesis by (simp add: owed_def)
qed

lemma owed_free:
  assumes "h a = Some ev" "finite (dom h)"
  shows "owed iv h = owed iv (h(a := None)) + (if owed_event iv ev then 1 else 0)"
  using owed_upd_new [of "h(a := None)" a iv ev] assms by (simp add: map_upd_triv)

lemma owed_cong:
  assumes "\<And>a. map_option (owed_event iv) (h' a) = map_option (owed_event iv) (h a)"
  shows "owed iv h' = owed iv h"
proof -
  have "(\<exists>ev. h' a = Some ev \<and> owed_event iv ev) \<longleftrightarrow> (\<exists>ev. h a = Some ev \<and> owed_event iv ev)" for a
    using assms [of a] by (cases "h a"; cases "h' a") auto
  then show ?thesis by (simp add: owed_def)
qed

lemma owed_content: "content h' = content h \<Longrightarrow> owed iv h' = owed iv h"
proof (rule owed_cong)
  fix a
  assume "content h' = content h"
  then have "content h' a = content h a" by simp
  then show "map_option (owed_event iv) (h' a) = map_option (owed_event iv) (h a)"
    by (cases "h a"; cases "h' a") (auto simp: content_def owed_event_def, (metis maf_CoremwEvent.ext_inject maf_CoremwEvent.surjective maf_CoremwEvent.update_convs(1))+)
qed

section \<open>Failures\<close>

definition objimp_failure :: "xcall \<times> answer \<Rightarrow> bool" where
  "objimp_failure p \<longleftrightarrow> p = (ObjImp_init_imm, Maf MafFailure)"

definition ntf_failure :: "xcall \<times> answer \<Rightarrow> bool" where
  "ntf_failure p = (case p of (PthreadAttrInit, Num r) \<Rightarrow> r \<noteq> 0 | (PthreadCreate NtfThread, Num r) \<Rightarrow> r \<noteq> 0 | _ \<Rightarrow> False)"

lemma failure_simps [simp]:
  "objimp_failure (ObjImp_init_imm, Maf r) \<longleftrightarrow> r = MafFailure"
  "\<not> objimp_failure (PthreadAttrInit, a)" "\<not> objimp_failure (PthreadCreate t, a)"
  "ntf_failure (PthreadAttrInit, Num n) \<longleftrightarrow> n \<noteq> 0" "ntf_failure (PthreadCreate NtfThread, Num n) \<longleftrightarrow> n \<noteq> 0"
  "\<not> ntf_failure (ObjImp_init_imm, a)" "\<not> ntf_failure (c, Sa rc)" "\<not> ntf_failure (c, Void)"
  "\<not> objimp_failure (c, Sa rc)" "\<not> objimp_failure (c, Void)"
  by (auto simp: objimp_failure_def ntf_failure_def split: xcall.split thread.split)

definition failed :: "(xcall \<times> answer) list \<Rightarrow> (xcall \<times> answer) list" where
  "failed t = filter (\<lambda>p. objimp_failure p \<or> ntf_failure p) t"

lemma failed_simps [simp]: "failed [] = []" "failed (s @ t) = failed s @ failed t"
  "failed (p # t) = (if objimp_failure p \<or> ntf_failure p then p # failed t else failed t)"
  by (simp_all add: failed_def)

section \<open>Calls that leave the queue alone\<close>

text \<open>
  \<open>d iv\<close> responses to invocation \<open>iv\<close> were accepted, and the calls \<open>f\<close> have failed; queue and
  events are as before.
\<close>

definition responds :: "(nat \<Rightarrow> nat) \<Rightarrow> (xcall \<times> answer) list \<Rightarrow> ac \<Rightarrow> ac \<Rightarrow> bool" where
  "responds d f w w' \<longleftrightarrow> failed (tr w') = failed (tr w) @ f \<and> evs w' = evs w \<and> ebrk w' = ebrk w \<and> maf_eventq_head w' = maf_eventq_head w \<and>
     maf_eventq_tail w' = maf_eventq_tail w \<and> event_pipe w' = event_pipe w \<and>
     maf_acCallbacks w' = maf_acCallbacks w \<and> cc_name w' = cc_name w \<and> stop_thread w' = stop_thread w \<and>
     (\<forall>iv. accepted iv (tr w') = accepted iv (tr w) + d iv)"

abbreviation answers :: "(nat \<Rightarrow> nat) \<Rightarrow> ac \<Rightarrow> ac \<Rightarrow> bool" where
  "answers d \<equiv> responds d []"

lemmas answers_def = responds_def

abbreviation quiet :: "ac \<Rightarrow> ac \<Rightarrow> bool" where
  "quiet \<equiv> answers (\<lambda>_. 0)"

definition one :: "nat \<Rightarrow> nat \<Rightarrow> nat" where
  "one iv = (\<lambda>i. if i = iv then 1 else 0)"

lemma quiet_refl: "quiet w w"
  by (simp add: answers_def)

lemma answers_trans: "answers d u v \<Longrightarrow> answers e v w \<Longrightarrow> answers (\<lambda>i. d i + e i) u w"
  by (simp add: answers_def)

lemma quiet_trans: "quiet u v \<Longrightarrow> responds d f v w \<Longrightarrow> responds d f u w"
  by (simp add: answers_def)

lemma trans_quiet: "responds d f u v \<Longrightarrow> quiet v w \<Longrightarrow> responds d f u w"
  by (simp add: answers_def)

definition silent :: "xcall \<Rightarrow> bool" where
  "silent c \<longleftrightarrow> (\<forall>iv a. \<not> is_response iv (c, a) \<and> \<not> objimp_failure (c, a) \<and> \<not> ntf_failure (c, a))"

lemma silent_calls [simp]:
  "silent (Sleep n)" "silent (Usleep n)" "silent (ProcessOpen s)" "silent (Getenv s)" "silent (Remove s)"
  "silent GetClearStorage" "silent RemoveFileMConsumer" "silent (ServiceOpen s)"
  "silent (PthreadJoin t)" "silent (PthreadCancel t)"
  "silent NtfPipeWrite" "silent KillChildIfAny" "silent TerminateProcess" "silent (SetHaMode p m r)"
  "silent (HealthCheck p)" "silent (PrepareTermination p)" "silent (SaAmfComponentErrorReport rr)"
  "silent (SaAmfCSIQuiescingComplete i e)"
  by (simp_all add: silent_def is_response_def objimp_failure_def ntf_failure_def)

lemma call_quiet:
  "silent c \<Longrightarrow> quiet w (snd (sa_call E c w))" "silent c \<Longrightarrow> quiet w (snd (maf_call E c w))"
  "silent c \<Longrightarrow> quiet w (snd (num_call E c w))" "silent c \<Longrightarrow> quiet w (snd (str_call E c w))"
  "silent c \<Longrightarrow> quiet w (void_call c w)"
  by (simp_all add: answers_def silent_def sa_call_def maf_call_def num_call_def str_call_def void_call_def Let_def)

lemma saf_retry_quiet:
  "(\<And>a. a \<noteq> Sa SA_AIS_OK \<Longrightarrow> \<not> is_response iv (c, a)) \<Longrightarrow>
   retry (\<lambda>r. r = SA_AIS_ERR_TRY_AGAIN) n (sa_call E c) (void_call (Sleep 2)) w = (rc, w') \<Longrightarrow>
   accepted iv (tr w') = accepted iv (tr w) + (if is_response iv (c, Sa rc) then 1 else 0) \<and>
   failed (tr w') = failed (tr w) \<and> (\<exists>t. w' = w\<lparr>tr := t\<rparr>)"
proof (induction n arbitrary: w)
  case 0
  then show ?case by (auto simp: sa_call_def Let_def)
next
  case (Suc n)
  let ?r = "sa_answer E (tr w) c"
  have call: "sa_call E c w = (?r, w\<lparr>tr := tr w @ [(c, Sa ?r)]\<rparr>)" by (simp add: sa_call_def Let_def)
  show ?case
  proof (cases "?r = SA_AIS_ERR_TRY_AGAIN")
    case True
    let ?v = "void_call (Sleep 2) (w\<lparr>tr := tr w @ [(c, Sa ?r)]\<rparr>)"
    have "retry (\<lambda>r. r = SA_AIS_ERR_TRY_AGAIN) n (sa_call E c) (void_call (Sleep 2)) ?v = (rc, w')"
      using Suc.prems(2) True call by simp
    from Suc.IH [OF Suc.prems(1) this] obtain t where
      "accepted iv (tr w') = accepted iv (tr ?v) + (if is_response iv (c, Sa rc) then 1 else 0)"
      "failed (tr w') = failed (tr ?v)" "w' = ?v\<lparr>tr := t\<rparr>"
      by auto
    moreover have "accepted iv (tr ?v) = accepted iv (tr w)"
      using Suc.prems(1) [of "Sa ?r"] True by (simp add: void_call_def is_response_def)
    ultimately show ?thesis by (auto simp: void_call_def)
  next
    case False
    then show ?thesis using Suc.prems(2) call by auto
  qed
qed

lemma response_wrapper_answers:
  assumes "saAmfResponse_wrapper E iv e w = Inr (u, w')"
  shows "answers (one iv) w w' \<and> (\<exists>t. w' = w\<lparr>tr := t\<rparr>)"
proof -
  obtain rc v where rc: "saf_api_call E (SaAmfResponse iv e) w = (rc, v)" by fastforce
  then have v: "rc = SA_AIS_OK" "v = w'"
    using assms by (auto simp: saAmfResponse_wrapper_def split: if_splits)
  have a: "accepted i (tr w') = accepted i (tr w) + one iv i" "failed (tr w') = failed (tr w)" "\<exists>t. w' = w\<lparr>tr := t\<rparr>" for i
    using saf_retry_quiet [of i "SaAmfResponse iv e" 10 E w rc v] rc v
    by (auto simp: saf_api_call_def is_response_def one_def)
  from a(3) obtain t where "w' = w\<lparr>tr := t\<rparr>" by auto
  with a(1,2) show ?thesis by (auto simp: answers_def)
qed

lemma settled_answers: "responds d f w w' \<Longrightarrow> settled iv w' = settled iv w + d iv"
  by (simp add: answers_def settled_def)


section \<open>Up-calls of AMF\<close>

definition event_ok :: "maf_CoremwEvent \<Rightarrow> bool" where
  "event_ok ev \<longleftrightarrow> flags ev \<le> 1 \<and> event_type ev \<noteq> EVENT_None \<and>
     (event_type ev = EVENT_prepareTerminationResponse \<longrightarrow> flags ev = 0)"

definition store_ok :: "ac \<Rightarrow> bool" where
  "store_ok w \<longleftrightarrow> finite (dom (evs w)) \<and> (\<forall>a \<in> dom (evs w). a < ebrk w)"

text \<open>
  What an up-call leaves behind: the queue is as before, events are new or as before, the calls
  \<open>f\<close> have failed, and \<open>d iv\<close> responses or events that owe one were added for invocation \<open>iv\<close>.
\<close>

definition grown :: "(nat \<Rightarrow> nat) \<Rightarrow> (xcall \<times> answer) list \<Rightarrow> ac \<Rightarrow> ac \<Rightarrow> bool" where
  "grown d f w w' \<longleftrightarrow> maf_eventq_head w' = maf_eventq_head w \<and> maf_eventq_tail w' = maf_eventq_tail w \<and>
     event_pipe w' = event_pipe w \<and> maf_acCallbacks w' = maf_acCallbacks w \<and>
     failed (tr w') = failed (tr w) @ f \<and> ebrk w \<le> ebrk w' \<and>
     (\<forall>a < ebrk w. evs w' a = evs w a) \<and> (\<forall>a ev. ebrk w \<le> a \<longrightarrow> evs w' a = Some ev \<longrightarrow> event_ok ev \<or> evs w a = Some ev) \<and>
     (store_ok w \<longrightarrow> store_ok w' \<and> (\<forall>i. settled i w' = settled i w + d i))"

lemma grown_eq: "grown d f w w' \<Longrightarrow> (\<And>i. d i = e i) \<Longrightarrow> grown e f w w'"
  by (simp add: grown_def)

lemma responds_grown: "responds d f w w' \<Longrightarrow> grown d f w w'"
  using settled_answers [of d f w w'] by (simp add: grown_def responds_def store_ok_def)

lemma grown_trans:
  assumes "grown d f u v" "grown e g v w"
  shows "grown (\<lambda>i. d i + e i) (f @ g) u w"
proof -
  have "event_ok ev \<or> evs u a = Some ev" if "ebrk u \<le> a" "evs w a = Some ev" for a ev
    using assms that unfolding grown_def by (cases "ebrk v \<le> a") (metis not_le)+
  then show ?thesis using assms unfolding grown_def by auto
qed

lemmas grown_more = grown_trans [OF _ responds_grown] grown_trans [OF responds_grown]

lemma new_event_Inr:
  "maf_new_event E ty iv fl w = Inr (p, w') \<longleftrightarrow> \<not> malloc_fails E (tr w) \<and> p = ebrk w \<and>
     w' = w\<lparr>ebrk := Suc (ebrk w),
       evs := (evs w)(ebrk w \<mapsto> (fresh_event E)\<lparr>event_type := ty, saf_invokation := iv, flags := fl\<rparr>)\<rparr>"
  by (auto simp: maf_new_event_def)

lemma new_grown:
  assumes n: "maf_new_event E ty iv fl w = Inr (p, v)" and c: "silent c"
    and ty: "ty \<in> {EVENT_healthCheckReport, EVENT_haModeAssumed, EVENT_prepareTerminationResponse}" "fl \<le> 1"
    "ty = EVENT_prepareTerminationResponse \<longrightarrow> fl = 0"
  shows "grown (\<lambda>i. if fl = 0 then one iv i else 0) [] w (void_call c v)"
proof -
  let ?ev = "(fresh_event E)\<lparr>event_type := ty, saf_invokation := iv, flags := fl\<rparr>"
  have "event_ok ?ev" using ty by (auto simp: event_ok_def)
  moreover have "settled i v = settled i w + (if fl = 0 then one iv i else 0)" "evs w (ebrk w) = None" if "store_ok w" for i
  proof -
    show "evs w (ebrk w) = None" using that by (auto simp: store_ok_def)
    then show "settled i v = settled i w + (if fl = 0 then one iv i else 0)"
      using that n ty owed_upd_new [of "evs w" "ebrk w" i ?ev]
      by (auto simp: new_event_Inr settled_def store_ok_def owed_event_def one_def)
  qed
  ultimately have "grown (\<lambda>i. if fl = 0 then one iv i else 0) [] w v"
    using n by (auto simp: grown_def new_event_Inr store_ok_def less_Suc_eq)
  from grown_trans [OF this responds_grown [OF call_quiet(5) [OF c, of v]]] show ?thesis by simp
qed

lemma quiet_ac_upd [simp]:
  "responds d f w (v\<lparr>maf_new_com_ha_state := m\<rparr>) = responds d f w v"
  "responds d f w (v\<lparr>maf_com_ha_state := m\<rparr>) = responds d f w v"
  "responds d f w (v\<lparr>alertalarm := k\<rparr>) = responds d f w v"
  "responds d f w (v\<lparr>ntf_pthread_isrunning := b\<rparr>) = responds d f w v"
  "responds d f w (v\<lparr>amf_pthread_isrunning := b\<rparr>) = responds d f w v"
  by (simp_all add: answers_def)

lemma open_logs_quiet: "quiet w (open_logs E w)"
  by (auto simp: open_logs_def maf_call_def answers_def Let_def is_response_def objimp_failure_def ntf_failure_def)

lemma removeSecret_quiet: "quiet w (removeSecretAttrFile E w)"
  by (simp add: removeSecretAttrFile_def call_quiet)

lemma csi_set_standby_quiet: "quiet w (snd (csi_set_standby E w))"
  by (auto simp: csi_set_standby_def removeSecretAttrFile_def num_call_def str_call_def answers_def Let_def
      is_response_def objimp_failure_def ntf_failure_def)

lemma csi_set_quiesced_quiet: "quiet w (snd (csi_set_quiesced E w))"
  by (auto simp: csi_set_quiesced_def removeSecretAttrFile_def num_call_def void_call_def answers_def Let_def
      is_response_def objimp_failure_def ntf_failure_def)

lemma csi_set_quiescing_quiet: "quiet w (snd (csi_set_quiescing E w))"
  by (auto simp: csi_set_quiescing_def removeSecretAttrFile_def num_call_def answers_def Let_def
      is_response_def objimp_failure_def ntf_failure_def)

definition objimp_ok :: "ac_env \<Rightarrow> bool" where
  "objimp_ok E \<longleftrightarrow> (\<forall>t. maf_answer E t ObjImp_init_imm \<noteq> MafFailure)"

lemma csi_set_active_cases:
  assumes "csi_set_active E iv t w = Inr (reason, w')"
  shows "quiet w w' \<or> \<not> objimp_ok E \<and> grown (one iv) [(ObjImp_init_imm, Maf MafFailure)] w w'"
proof -
  let ?u = "(if cc_name w \<noteq> ''lm'' then
                 snd (num_call E (ProcessOpen ''cmw-modelconsumer-ready COM_R1 /opt/com/util/comsa_mdf_consumer'') w)
               else w)\<lparr>maf_new_com_ha_state := MafMwSpiHaModeActive\<rparr>"
  let ?v = "snd (maf_call E ObjImp_init_imm ?u)"
  let ?r = "fst (maf_call E ObjImp_init_imm ?u)"
  let ?fin = "\<lambda>x. if cc_name x \<noteq> ''lm'' then open_logs E x else x"
  have u: "quiet w ?u" by (simp add: call_quiet quiet_refl)
  have ends: "quiet x (?fin x)" for x using open_logs_quiet [of x E] by (simp add: quiet_refl)
  have v: "responds (\<lambda>_. 0) (if ?r = MafFailure then [(ObjImp_init_imm, Maf MafFailure)] else []) ?u ?v"
    by (simp add: maf_call_def responds_def is_response_def Let_def)
  show ?thesis
  proof (cases "?r = MafFailure")
    case False
    then have "w' = ?fin ?v" using assms unfolding csi_set_active_def Let_def case_prod_beta by simp
    moreover have "quiet w (?fin ?v)" using quiet_trans [OF u] trans_quiet [OF v ends] False by simp
    ultimately show ?thesis by blast
  next
    case True
    then obtain p y where y: "maf_new_event E EVENT_prepareTerminationResponse iv 0 ?v = Inr (p, y)"
      "w' = ?fin (void_call (PrepareTermination p) y)"
      using assms unfolding csi_set_active_def Let_def case_prod_beta by (auto simp: ebind_Inr split: if_splits)
    have "grown (one iv) [] ?v (void_call (PrepareTermination p) y)"
      using new_grown [OF y(1), of "PrepareTermination p"] by (rule grown_eq) simp_all
    from grown_trans [OF this responds_grown [OF ends]] have "grown (one iv) [] ?v w'" unfolding y(2) by simp
    with grown_trans [OF responds_grown [OF quiet_trans [OF u v]] this] True
    have "grown (one iv) [(ObjImp_init_imm, Maf MafFailure)] w w'" by simp
    moreover have "\<not> objimp_ok E" using True by (auto simp: maf_call_def objimp_ok_def Let_def)
    ultimately show ?thesis by blast
  qed
qed

lemma csi_set_prepare_cases:
  assumes "csi_set_prepare E iv h t w = Inr (reason, w')"
  shows "quiet w w' \<or> \<not> objimp_ok E \<and> grown (one iv) [(ObjImp_init_imm, Maf MafFailure)] w w'"
  using assms csi_set_active_cases [of E iv t w reason w'] csi_set_standby_quiet [of w E]
    csi_set_quiesced_quiet [of w E] csi_set_quiescing_quiet [of w E]
  by (cases h) (auto simp: csi_set_prepare_def split: prod.splits)

lemma csi_same_state_grown:
  assumes "csi_same_state E iv h v = Inr (u, w')"
  shows "grown (one iv) [] v w'"
proof -
  obtain x where x: "saAmfResponse_wrapper E iv SA_AIS_OK v = Inr ((), x)"
    "(if h = SA_AMF_HA_QUIESCING then
       let (rc, w) = sa_call E (SaAmfCSIQuiescingComplete iv SA_AIS_OK) x
       in if rc \<noteq> SA_AIS_OK then halt Quit w else ret () w
     else ret () x) = Inr (u, w')"
    using assms by (auto simp: csi_same_state_def ebind_Inr)
  have "quiet x w'" using x(2) call_quiet(1) [of "SaAmfCSIQuiescingComplete iv SA_AIS_OK" x E]
    by (auto simp: quiet_refl Let_def split: if_splits prod.splits)
  from trans_quiet [OF conjunct1 [OF response_wrapper_answers [OF x(1)]] this] show ?thesis by (rule responds_grown)
qed

lemma csi_ask_com_grown:
  assumes "csi_ask_com E iv h reason v = Inr (u, w')"
  shows "grown (one iv) [] v w'"
proof (cases "h = SA_AMF_HA_QUIESCING")
  case True
  with assms obtain x p y where x: "saAmfResponse_wrapper E iv SA_AIS_OK v = Inr ((), x)"
    "maf_new_event E EVENT_haModeAssumed iv 1 x = Inr (p, y)"
    "w' = void_call (SetHaMode p (maf_new_com_ha_state y) reason) y"
    by (auto simp: csi_ask_com_def ebind_Inr)
  have "grown (\<lambda>_. 0) [] x w'" unfolding x(3) by (rule grown_eq [OF new_grown [OF x(2)]]) simp_all
  with grown_trans [OF responds_grown [OF conjunct1 [OF response_wrapper_answers [OF x(1)]]] this] show ?thesis by simp
next
  case False
  with assms obtain p y where x: "maf_new_event E EVENT_haModeAssumed iv 0 v = Inr (p, y)"
    "w' = void_call (SetHaMode p (maf_new_com_ha_state y) reason) y"
    by (auto simp: csi_ask_com_def ebind_Inr)
  show ?thesis unfolding x(2) by (rule grown_eq [OF new_grown [OF x(1)]]) simp_all
qed

text \<open>One entry of the ledger, and one more for each failure of the object implementer.\<close>

definition request_grown :: "ac_env \<Rightarrow> nat \<Rightarrow> ac \<Rightarrow> ac \<Rightarrow> bool" where
  "request_grown E iv w w' \<longleftrightarrow> (\<exists>f. set f \<subseteq> {(ObjImp_init_imm, Maf MafFailure)} \<and> (objimp_ok E \<longrightarrow> f = []) \<and>
     grown (\<lambda>i. Suc (length f) * one iv i) f w w')"

lemma request_grown_one: "grown (one iv) [] w w' \<Longrightarrow> request_grown E iv w w'"
  unfolding request_grown_def by (intro exI [of _ "[]"]) simp

lemma csi_set_grown:
  assumes r: "maf_amf_csi_set_callback E iv h t w = Inr (u, w')"
  shows "request_grown E iv w w'"
proof -
  obtain reason v where v: "csi_set_prepare E iv h t w = Inr (reason, v)"
    and rest: "(if maf_acCallbacks v = None \<or> maf_com_ha_state v = maf_new_com_ha_state v
       then csi_same_state E iv h v else csi_ask_com E iv h reason v) = Inr (u, w')"
    using r unfolding maf_amf_csi_set_callback_def ebind_Inr by auto
  have g: "grown (one iv) [] v w'"
    using rest csi_same_state_grown csi_ask_com_grown by (simp split: if_splits)
  from csi_set_prepare_cases [OF v] show ?thesis
  proof
    assume "quiet w v"
    from grown_trans [OF responds_grown [OF this] g] show ?thesis by (simp add: request_grown_one)
  next
    assume f: "\<not> objimp_ok E \<and> grown (one iv) [(ObjImp_init_imm, Maf MafFailure)] w v"
    with grown_trans [OF _ g] have "grown (\<lambda>i. one iv i + one iv i) ([(ObjImp_init_imm, Maf MafFailure)] @ []) w w'" by blast
    then show ?thesis using f unfolding request_grown_def
      by (intro exI [of _ "[(ObjImp_init_imm, Maf MafFailure)]"]) (simp add: mult_2 [symmetric] grown_eq)
  qed
qed

fun upcall_inv :: "upcall \<Rightarrow> nat" where
  "upcall_inv (CSISet iv h t) = iv"
| "upcall_inv (CSIRemove iv) = iv"
| "upcall_inv (Healthcheck iv) = iv"
| "upcall_inv (ComponentTerminate iv) = iv"

lemma upcall_grown:
  assumes r: "do_upcall E c w = Inr (u, w')"
  shows "request_grown E (upcall_inv c) w w'"
proof (cases c)
  case (CSISet iv h t)
  then show ?thesis using csi_set_grown r by simp
next
  case (CSIRemove iv)
  then show ?thesis using csi_set_grown [of E iv SA_AMF_HA_QUIESCED SA_AMF_CSI_NEW_ASSIGN w u w'] r
      response_wrapper_answers [of E iv SA_AIS_OK w u w']
    by (auto simp: maf_amf_csi_remove_callback_def split: if_splits intro: request_grown_one responds_grown)
next
  case (Healthcheck iv)
  show ?thesis
  proof (cases "maf_acCallbacks w = None")
    case True
    then show ?thesis using Healthcheck r response_wrapper_answers [of E iv SA_AIS_OK w u w']
      by (auto simp: maf_amf_healthcheck_callback_def intro: request_grown_one responds_grown)
  next
    case False
    then obtain p v where v: "maf_new_event E EVENT_healthCheckReport iv 0 w = Inr (p, v)"
      "w' = void_call (HealthCheck p) v"
      using Healthcheck r by (auto simp: maf_amf_healthcheck_callback_def ebind_Inr)
    have "grown (one iv) [] w w'" unfolding v(2) by (rule grown_eq [OF new_grown [OF v(1)]]) simp_all
    then show ?thesis using Healthcheck by (simp add: request_grown_one)
  qed
next
  case (ComponentTerminate iv)
  then obtain p v where v: "maf_new_event E EVENT_prepareTerminationResponse iv 0 w = Inr (p, v)"
      "w' = void_call (PrepareTermination p) v"
    using r by (auto simp: maf_amf_comp_terminate_callback_def ebind_Inr split: if_splits)
  have "grown (one iv) [] w w'" unfolding v(2) by (rule grown_eq [OF new_grown [OF v(1)]]) simp_all
  then show ?thesis using ComponentTerminate by (simp add: request_grown_one)
qed


section \<open>Handling events\<close>

lemma handshake_loop_quiet: "quiet w (snd (handshake_loop E cmd n r w))"
proof (induction n arbitrary: r w)
  case 0
  then show ?case by (simp add: handshake_loop.simps quiet_refl)
next
  case (Suc n)
  let ?v = "void_call (Usleep 1000) w"
  have "quiet w (snd (num_call E (ProcessOpen cmd) ?v))"
    by (rule quiet_trans [OF call_quiet(5) call_quiet(3)]) auto
  then show ?case using Suc.IH [of "snd (num_call E (ProcessOpen cmd) ?v)" "fst (num_call E (ProcessOpen cmd) ?v)"]
    by (auto simp: handshake_loop.simps [of E cmd "Suc n"] quiet_refl split: prod.splits intro: quiet_trans)
qed

lemma handshake_quiet: "quiet w (handshakeToComsaMimTool E w)"
proof -
  let ?v = "snd (str_call E GetClearStorage w)"
  have "quiet w (snd (num_call E c ?v))" if "silent c" for c
    by (rule quiet_trans [OF call_quiet(4) call_quiet(3)]) (simp_all add: that)
  then show ?thesis
    by (auto simp: handshakeToComsaMimTool_def Let_def case_prod_beta intro: quiet_trans [OF _ handshake_loop_quiet])
qed

definition threads_ok :: "ac_env \<Rightarrow> bool" where
  "threads_ok E \<longleftrightarrow> (\<forall>t. num_answer E t PthreadAttrInit = 0 \<and> num_answer E t (PthreadCreate NtfThread) = 0)"

lemma start_ntf_cases:
  "\<exists>f. responds (\<lambda>_. 0) f w (snd (start_ntf_thread E w)) \<and> list_all ntf_failure f \<and>
     length f = (if fst (start_ntf_thread E w) then 0 else 1)"
proof (cases "num_answer E (tr w) PthreadAttrInit = 0")
  case False
  then show ?thesis
    by (intro exI [of _ "[(PthreadAttrInit, Num (num_answer E (tr w) PthreadAttrInit))]"])
      (simp add: start_ntf_thread_def num_call_def responds_def Let_def is_response_def)
next
  case a: True
  let ?c = "num_answer E (tr w @ [(PthreadAttrInit, Num 0)]) (PthreadCreate NtfThread)"
  show ?thesis using a
    by (intro exI [of _ "if ?c = 0 then [] else [(PthreadCreate NtfThread, Num ?c)]"])
      (simp add: start_ntf_thread_def num_call_def responds_def Let_def is_response_def)
qed

lemma start_ntf_ok: "threads_ok E \<Longrightarrow> fst (start_ntf_thread E w)"
  by (auto simp: start_ntf_thread_def num_call_def threads_ok_def Let_def)

text \<open>What an event changes: the response it owes is given, unless the NTF thread has failed to start.\<close>

definition event_responds :: "ac_env \<Rightarrow> maf_CoremwEvent \<Rightarrow> (nat \<Rightarrow> nat) \<Rightarrow> ac \<Rightarrow> ac \<Rightarrow> bool" where
  "event_responds E ev d w w' \<longleftrightarrow> (\<exists>f. list_all ntf_failure f \<and> length f \<le> 1 \<and> (threads_ok E \<longrightarrow> f = []) \<and>
     responds (if f = [] then d else (\<lambda>_. 0)) f w w')"

lemma event_responds_answers: "answers d w w' \<Longrightarrow> event_responds E ev d w w'"
  unfolding event_responds_def by (intro exI [of _ "[]"]) simp

lemma ha_event_answers:
  assumes r: "maf_coremw_haModeAssumed_event E ev w = Inr (u, w')"
  shows "event_responds E ev (if flags ev = 1 then (\<lambda>_. 0) else one (saf_invokation ev)) w w'"
proof -
  let ?w1 = "w\<lparr>maf_com_ha_state := maf_new_com_ha_state w\<rparr>"
  define p where "p = (if ev_error ev = MafOk then
           (if maf_new_com_ha_state w = MafMwSpiHaModeActive
              then (SA_AIS_OK, fst (start_ntf_thread E ?w1), snd (start_ntf_thread E ?w1))
              else (SA_AIS_OK, True, ?w1))
         else (SA_AIS_ERR_FAILED_OPERATION, True, w))"
  obtain response going v where pv: "p = (response, going, v)" by (cases p)
  have w1: "responds d f ?w1 v = responds d f w v" for d f v by (simp add: responds_def)
  obtain f where f: "responds (\<lambda>_. 0) f w v" "list_all ntf_failure f" "length f = (if going then 0 else 1)"
  proof (cases "ev_error ev = MafOk \<and> maf_new_com_ha_state w = MafMwSpiHaModeActive")
    case True
    then show ?thesis using start_ntf_cases [of ?w1 E] pv that unfolding w1 by (auto simp: p_def)
  next
    case False
    then have "quiet w v" "going" using pv by (auto simp: p_def quiet_refl split: if_splits)
    then show ?thesis using that [of "[]"] by simp
  qed
  have g: going if "threads_ok E" using pv start_ntf_ok [OF that, of ?w1] by (auto simp: p_def split: if_splits)
  have p': "p = (if ev_error ev = MafOk then
           let w = w\<lparr>maf_com_ha_state := maf_new_com_ha_state w\<rparr>
           in if maf_new_com_ha_state w = MafMwSpiHaModeActive
              then let (ok, w) = start_ntf_thread E w in (SA_AIS_OK, ok, w)
              else (SA_AIS_OK, True, w)
         else (SA_AIS_ERR_FAILED_OPERATION, True, w))"
    by (simp add: p_def Let_def case_prod_beta)
  have r': "(if flags ev = 1 then
           let (rc, w) = sa_call E (SaAmfCSIQuiescingComplete (saf_invokation ev) response) v
           in if rc \<noteq> SA_AIS_OK then halt Quit w else ret () w
         else saAmfResponse_wrapper E (saf_invokation ev) response
           (if (maf_new_com_ha_state v = MafMwSpiHaModeActive \<or> maf_new_com_ha_state v = MafMwSpiHaModeStandby)
               \<and> cc_name v \<noteq> ''lm'' then handshakeToComsaMimTool E v else v)) = Inr (u, w')"
    if going
    using r that unfolding maf_coremw_haModeAssumed_event_def p' [symmetric] pv
    by (cases "flags ev = 1") (simp_all add: Let_def split: if_splits)
  show ?thesis
  proof (cases going)
    case False
    then have "w' = v" using r unfolding maf_coremw_haModeAssumed_event_def p' [symmetric] pv by (simp add: Let_def)
    then show ?thesis using f g False unfolding event_responds_def by (intro exI [of _ f]) (auto split: if_splits)
  next
    case True
    note r' = r' [OF this]
    have q: "quiet w v" using f True by simp
    have "answers (if flags ev = 1 then (\<lambda>_. 0) else one (saf_invokation ev)) w w'"
  proof (cases "flags ev = 1")
    case True
    then have "w' = snd (sa_call E (SaAmfCSIQuiescingComplete (saf_invokation ev) response) v)"
      using r' by (auto simp: case_prod_beta split: if_splits)
    moreover have "quiet w (snd (sa_call E (SaAmfCSIQuiescingComplete (saf_invokation ev) response) v))"
      by (rule quiet_trans [OF q call_quiet(1)]) simp
    ultimately show ?thesis using True by simp
  next
    case False
    let ?x = "if (maf_new_com_ha_state v = MafMwSpiHaModeActive \<or> maf_new_com_ha_state v = MafMwSpiHaModeStandby)
               \<and> cc_name v \<noteq> ''lm'' then handshakeToComsaMimTool E v else v"
    have "quiet w ?x" using quiet_trans [OF q handshake_quiet [of v E]] q by simp
    moreover have "answers (one (saf_invokation ev)) ?x w'"
      using r' False response_wrapper_answers by fastforce
    ultimately show ?thesis using False by (auto intro: quiet_trans)
  qed
    then show ?thesis by (rule event_responds_answers)
  qed
qed

lemma hc_event_answers:
  assumes "maf_coremw_healthCheckReport_event E ev w = Inr (u, w')"
  shows "answers (if flags ev = 0 then one (saf_invokation ev) else (\<lambda>_. 0)) w w'"
  using assms response_wrapper_answers [of E "saf_invokation ev" _ w u w']
    call_quiet(1) [of "SaAmfComponentErrorReport _" w E]
  by (auto simp: maf_coremw_healthCheckReport_event_def Let_def case_prod_beta split: if_splits)

lemma pt_event_answers:
  assumes "maf_coremw_prepareTerminationResponse_event E ev w = Inr (u, w')"
  shows "answers (one (saf_invokation ev)) w w'"
  using assms response_wrapper_answers [of E "saf_invokation ev" _ w "()"] call_quiet(5) [of TerminateProcess]
  by (auto simp: maf_coremw_prepareTerminationResponse_event_def Let_def ebind_Inr split: if_splits intro: trans_quiet)

lemma handle_one_spec:
  assumes ev: "evs w p = Some ev" "event_ok ev" "finite (dom (evs w))"
    and r: "handle_one E p w = Inr (q, w')"
  shows "q = ev_next ev \<and> evs w' = (evs w)(p := None) \<and> ebrk w' = ebrk w \<and>
     maf_eventq_head w' = maf_eventq_head w \<and> maf_eventq_tail w' = maf_eventq_tail w \<and>
     event_pipe w' = event_pipe w \<and> maf_acCallbacks w' = maf_acCallbacks w \<and>
     (stop_thread w' \<longleftrightarrow> stop_thread w \<or> event_type ev = EVENT_Terminate) \<and>
     (\<exists>f. failed (tr w') = failed (tr w) @ f \<and> list_all ntf_failure f \<and> (threads_ok E \<longrightarrow> f = []) \<and>
       (\<forall>i. settled i w' + (if flags ev = 0 then length f * one (saf_invokation ev) i else 0) = settled i w))"
proof -
  obtain u v where h: "(case event_type ev of
           EVENT_Terminate \<Rightarrow> ret () (w\<lparr>stop_thread := True\<rparr>)
         | EVENT_haModeAssumed \<Rightarrow> maf_coremw_haModeAssumed_event E ev w
         | EVENT_healthCheckReport \<Rightarrow> maf_coremw_healthCheckReport_event E ev w
         | EVENT_prepareTerminationResponse \<Rightarrow> maf_coremw_prepareTerminationResponse_event E ev w
         | EVENT_None \<Rightarrow> halt Assert w) = Inr (u, v)"
    and w': "(case evs v p of None \<Rightarrow> halt Wild v
          | Some ev \<Rightarrow> ret (ev_next ev) (v\<lparr>evs := (evs v)(p := None)\<rparr>)) = Inr (q, w')"
    using r ev(1) by (auto simp: handle_one_def ebind_Inr)
  let ?w = "w\<lparr>stop_thread := stop_thread w \<or> event_type ev = EVENT_Terminate\<rparr>"
  have same: "event_type ev \<noteq> EVENT_Terminate \<Longrightarrow> ?w = w" by simp
  let ?d = "if flags ev = 0 \<and> event_type ev \<noteq> EVENT_Terminate then one (saf_invokation ev) else (\<lambda>_. 0)"
  have "event_responds E ev ?d ?w v"
    using same h ev(2) ha_event_answers [of E ev w u v] hc_event_answers [of E ev w u v] pt_event_answers [of E ev w u v]
      event_responds_answers [OF quiet_refl, of E ev ?w]
    by (cases "event_type ev") (auto simp: event_ok_def split: if_splits intro: event_responds_answers)
  then obtain f where f: "list_all ntf_failure f" "length f \<le> 1" "threads_ok E \<longrightarrow> f = []"
    and a: "responds (if f = [] then ?d else (\<lambda>_. 0)) f ?w v"
    unfolding event_responds_def by blast
  then have e: "evs v = evs w" by (simp add: responds_def)
  have T: "f = []" if "event_type ev = EVENT_Terminate"
    using a h that by (auto simp: responds_def)
  have own: "owed_event i ev \<longleftrightarrow> flags ev = 0 \<and> event_type ev \<noteq> EVENT_Terminate \<and> saf_invokation ev = i" for i
    using ev(2) by (cases "event_type ev") (auto simp: owed_event_def event_ok_def)
  have w': "w' = v\<lparr>evs := (evs v)(p := None)\<rparr>" "q = ev_next ev" using w' ev(1) e by auto
  have "settled i w' + (if flags ev = 0 then length f * one (saf_invokation ev) i else 0) = settled i w" for i
  proof -
    have "settled i ?w = settled i w" by (simp add: settled_def)
    then have "settled i v = settled i w +
        (if f = [] \<and> flags ev = 0 \<and> event_type ev \<noteq> EVENT_Terminate then one (saf_invokation ev) i else 0)"
      using settled_answers [OF a, of i] by (simp split: if_splits)
    moreover have "owed i (evs v) = owed i ((evs v)(p := None)) + (if owed_event i ev then 1 else 0)"
      using ev(1,3) e by (intro owed_free) auto
    moreover have "f = [] \<or> length f = 1" using f(2) by (cases f) auto
    moreover have "settled i v = settled i w' + (if owed_event i ev then 1 else 0)"
      using calculation(2) w'(1) by (simp add: settled_def)
    ultimately show ?thesis using T unfolding own
      by (cases "event_type ev = EVENT_Terminate"; cases "flags ev = 0"; cases "i = saf_invokation ev"; cases "f = []") (auto simp: one_def)
  qed
  then show ?thesis using a e w' f by (auto simp: responds_def intro!: exI [of _ f])
qed

end
