(* ===== verification/AcSystem.thy ===== *)
theory AcSystem
  imports AcLedger
begin

text \<open>
  The COM thread and the AMF thread together.  A step is a call of COM into this component, an
  up-call of AMF, the AMF thread taking the queue, or the AMF thread handling the next event it
  took; they happen in any order.  \<open>unanswered\<close> holds the invocations COM was given and has not
  answered, \<open>asked\<close> the requests AMF has made so far.  Two lists are kept for the statements only:
  \<open>doubled\<close> has the invocation of a request once for each failure of the object implementer during
  it, \<open>dropped\<close> that of an answer that owed a response when the NTF thread failed to start.  COM keeps to the interface: it answers an
  invocation it was given, and only once.
\<close>

section \<open>Steps\<close>

datatype com_call =
    HealthCheckReport addr MafReturnT MafMwSpiRecommendedRecoveryT
  | SpontaneousReport MafReturnT MafMwSpiRecommendedRecoveryT
  | HaModeAssumed addr MafReturnT
  | PrepareTerminationResponse addr MafReturnT
  | StopRequest

definition drop_result :: "(ac, 'a) res \<Rightarrow> (ac, unit) res" where
  "drop_result x = ebind x (\<lambda>(_, w). ret () w)"

fun do_com_call :: "ac_env \<Rightarrow> com_call \<Rightarrow> ac \<Rightarrow> (ac, unit) res" where
  "do_com_call E (HealthCheckReport p r rec) w = drop_result (maf_coremw_healthCheckReport E p r rec w)"
| "do_com_call E (SpontaneousReport r rec) w = drop_result (maf_coremw_healthCheckReport E 0 r rec w)"
| "do_com_call E (HaModeAssumed p r) w = drop_result (maf_coremw_haModeAssumed E p r w)"
| "do_com_call E (PrepareTerminationResponse p r) w = drop_result (maf_coremw_prepareTerminationResponse E p r w)"
| "do_com_call E StopRequest w = stop_request E w"

fun answered :: "com_call \<Rightarrow> addr option" where
  "answered (HealthCheckReport p r rec) = Some p"
| "answered (HaModeAssumed p r) = Some p"
| "answered (PrepareTerminationResponse p r) = Some p"
| "answered (SpontaneousReport r rec) = None"
| "answered StopRequest = None"

record sys =
  world :: ac
  pending :: "addr option"
  unanswered :: "addr set"
  asked :: "nat list"
  doubled :: "nat list"
  dropped :: "nat list"

definition new_failures :: "((xcall \<times> answer) \<Rightarrow> bool) \<Rightarrow> ac \<Rightarrow> ac \<Rightarrow> nat" where
  "new_failures P w w' = length (filter P (tr w')) - length (filter P (tr w))"

definition drops :: "maf_CoremwEvent option \<Rightarrow> nat \<Rightarrow> nat list" where
  "drops e n = (case e of None \<Rightarrow> [] | Some ev \<Rightarrow> if flags ev = 0 then replicate n (saf_invokation ev) else [])"

lemma drops_0 [simp]: "drops e 0 = []"
  by (simp add: drops_def split: option.split)

inductive ac_step :: "ac_env \<Rightarrow> sys \<Rightarrow> sys \<Rightarrow> bool" for E where
  com: "do_com_call E c (world s) = Inr (u, w) \<Longrightarrow> set_option (answered c) \<subseteq> unanswered s \<Longrightarrow>
     ac_step E s (s\<lparr>world := w, unanswered := unanswered s - set_option (answered c)\<rparr>)"
| request: "pending s = None \<Longrightarrow> do_upcall E c (world s) = Inr (u, w) \<Longrightarrow>
     ac_step E s (s\<lparr>world := w, unanswered := unanswered s \<union> (dom (evs w) - dom (evs (world s))),
                    asked := upcall_inv c # asked s,
                    doubled := replicate (new_failures objimp_failure (world s) w) (upcall_inv c) @ doubled s\<rparr>)"
| take: "pending s = None \<Longrightarrow> event_pipe (world s) > 0 \<Longrightarrow> maf_event_getq E (world s) = Inr (q, w) \<Longrightarrow>
     ac_step E s (s\<lparr>world := w, pending := q\<rparr>)"
| handle: "pending s = Some a \<Longrightarrow> handle_one E a (world s) = Inr (q, w) \<Longrightarrow>
     ac_step E s (s\<lparr>world := w, pending := q,
                    dropped := drops (evs (world s) a) (new_failures ntf_failure (world s) w) @ dropped s\<rparr>)"

definition sys_start :: "ac \<Rightarrow> sys" where
  "sys_start w = \<lparr>world = w, pending = None, unanswered = {}, asked = [], doubled = [], dropped = []\<rparr>"

text \<open>The controller when the library is loaded.\<close>

definition ac_start :: "string \<Rightarrow> ac" where
  "ac_start cc = \<lparr>tr = [], evs = Map.empty, ebrk = 1, maf_eventq_head = None, maf_eventq_tail = None,
     event_pipe = 0, maf_acCallbacks = Some 1, amf_pthread_isrunning = True, ntf_pthread_isrunning = False,
     stop_thread = False, maf_com_ha_state = MafMwSpiHaModeUnassigned,
     maf_new_com_ha_state = MafMwSpiHaModeUnassigned, alertalarm = 0, comsa_sshd_control = True, cc_name = cc\<rparr>"

inductive reached :: "ac_env \<Rightarrow> string \<Rightarrow> sys \<Rightarrow> bool" for E cc where
  start: "reached E cc (sys_start (ac_start cc))"
| step: "reached E cc s \<Longrightarrow> ac_step E s t \<Longrightarrow> reached E cc t"

section \<open>Invariant\<close>

definition sys_inv :: "sys \<Rightarrow> addr list \<Rightarrow> addr list \<Rightarrow> bool" where
  "sys_inv s as ps \<longleftrightarrow> (let w = world s in
     queue_inv w as \<and> lchain ev_next (evs w) (pending s) ps \<and> set as \<inter> set ps = {} \<and>
     unanswered s \<inter> (set as \<union> set ps) = {} \<and>
     dom (evs w) = unanswered s \<union> set as \<union> set ps \<and> finite (unanswered s) \<and>
     (\<forall>a \<in> dom (evs w). 0 < a \<and> a < ebrk w) \<and> 0 < ebrk w \<and>
     (\<forall>a ev. content (evs w) a = Some ev \<longrightarrow> event_ok ev) \<and>
     (\<forall>i. settled i w + count_list (dropped s) i = count_list (asked s) i + count_list (doubled s) i))"

lemma event_ok_link [simp]: "event_ok (ev\<lparr>ev_next := p\<rparr>) = event_ok ev"
  by (simp add: event_ok_def)

lemma content_ok: "(\<forall>a ev. content h a = Some ev \<longrightarrow> event_ok ev) \<longleftrightarrow> (\<forall>a ev. h a = Some ev \<longrightarrow> event_ok ev)"
  by (force simp: content_def)

lemma start_inv: "sys_inv (sys_start (ac_start cc)) [] []"
  by (simp add: sys_inv_def sys_start_def ac_start_def queue_inv_def settled_def owed_def content_def)

lemma inv_dom:
  assumes "sys_inv s as ps"
  shows "dom (evs (world s)) = unanswered s \<union> set as \<union> set ps"
    "\<And>a. a \<in> dom (evs (world s)) \<Longrightarrow> 0 < a \<and> a < ebrk (world s)"
  using assms by (simp_all add: sys_inv_def Let_def)

lemma inv_allocated: "sys_inv s as ps \<Longrightarrow> evs (world s) p = None \<longleftrightarrow> p \<notin> unanswered s \<union> set as \<union> set ps"
  using inv_dom(1) [of s as ps] by (metis domIff)

lemma inv_unanswered: "sys_inv s as ps \<Longrightarrow> p \<in> unanswered s \<Longrightarrow> 0 < p \<and> p < ebrk (world s)"
  using inv_dom(2) [of s as ps p] inv_dom(1) [of s as ps] by simp

text \<open>Adding an event of the store that is on no list.\<close>

lemma inv_add:
  assumes inv: "sys_inv s as ps" and p: "p \<in> unanswered s" "evs (world s) p = Some ev"
    and ev': "event_ok ev'" "\<And>i. owed_event i ev' = owed_event i ev"
    and r: "maf_event_add E p ((world s)\<lparr>evs := (evs (world s))(p \<mapsto> ev')\<rparr>) = Inr (u, w)"
  shows "sys_inv (s\<lparr>world := w, unanswered := unanswered s - {p}\<rparr>) (as @ [p]) ps"
proof -
  let ?w = "(world s)\<lparr>evs := (evs (world s))(p \<mapsto> ev')\<rparr>"
  note D = inv [unfolded sys_inv_def Let_def]
  have np: "p \<notin> set as" "p \<notin> set ps" using D p(1) by auto
  have q: "queue_inv ?w as" using D np by (simp add: queue_inv_def)
  have "evs ?w p = Some ev'" by simp
  from event_add_spec [OF q this np(1) willing_ok [of E]] event_add_willing [OF r] obtain h where h:
    "w = ?w\<lparr>evs := h, maf_eventq_head := first_of (as @ [p]), maf_eventq_tail := Some p, event_pipe := 1\<rparr>"
    "queue_inv w (as @ [p])" "content h = content (evs ?w)" "\<forall>a. a \<noteq> p \<longrightarrow> a \<notin> set as \<longrightarrow> h a = evs ?w a"
    by auto
  have dom: "dom h = dom (evs (world s))" using arg_cong [OF h(3), of dom] p(2) by auto
  have "lchain ev_next h (pending s) ps"
  proof (subst lseg_cong [where h = "evs (world s)"])
    fix a
    assume a: "a \<in> set ps"
    then have "a \<noteq> p" "a \<notin> set as" using np D by auto
    then show "map_option ev_next (h a) = map_option ev_next (evs (world s) a)" using h(4) by simp
  qed (use D in auto)
  moreover have "owed i h = owed i (evs (world s))" for i
  proof -
    have "owed i h = owed i (evs ?w)" by (rule owed_content) (rule h(3))
    also have "\<dots> = owed i (evs (world s))" by (rule owed_cong) (use p(2) ev'(2) in auto)
    finally show ?thesis .
  qed
  moreover have "\<forall>a e. content h a = Some e \<longrightarrow> event_ok e"
    using D ev'(1) unfolding h(3) by (auto simp: content_upd)
  moreover have "tr w = tr (world s)" "evs w = h" "ebrk w = ebrk (world s)" using h(1) by simp_all
  ultimately show ?thesis using D dom h(2) np p(1)
    unfolding sys_inv_def Let_def settled_def by auto
qed

text \<open>Allocating a new event.\<close>

lemma inv_new:
  assumes inv: "sys_inv s as ps" and r: "maf_new_event E ty iv fl (world s) = Inr (p, w)"
    and ok: "event_ok ((fresh_event E)\<lparr>event_type := ty, saf_invokation := iv, flags := fl\<rparr>)"
    and own: "\<And>i. \<not> owed_event i ((fresh_event E)\<lparr>event_type := ty, saf_invokation := iv, flags := fl\<rparr>)"
  shows "sys_inv (s\<lparr>world := w, unanswered := insert p (unanswered s)\<rparr>) as ps \<and> 0 < p \<and>
     evs w p = Some ((fresh_event E)\<lparr>event_type := ty, saf_invokation := iv, flags := fl\<rparr>)"
proof -
  note D = inv [unfolded sys_inv_def Let_def]
  let ?ev = "(fresh_event E)\<lparr>event_type := ty, saf_invokation := iv, flags := fl\<rparr>"
  have w: "p = ebrk (world s)" "w = (world s)\<lparr>ebrk := Suc (ebrk (world s)), evs := (evs (world s))(p \<mapsto> ?ev)\<rparr>"
    using r by (auto simp: new_event_Inr)
  have fresh: "evs (world s) p = None" using D w(1) by (auto simp: dom_def)
  then have notin: "p \<notin> set as" "p \<notin> set ps" "p \<notin> unanswered s" unfolding inv_allocated [OF inv] by auto
  have "finite (dom (evs (world s)))" using D by simp
  from owed_upd_new [OF fresh this] own have "owed i ((evs (world s))(p \<mapsto> ?ev)) = owed i (evs (world s))" for i by simp
  moreover have "0 < p" using D w(1) by simp
  ultimately show ?thesis using D notin ok w
    unfolding sys_inv_def Let_def by (auto simp: queue_inv_def settled_def content_upd intro: less_SucI)
qed

lemma inv_world_quiet:
  assumes inv: "sys_inv s as ps" and q: "quiet (world s) w"
  shows "sys_inv (s\<lparr>world := w\<rparr>) as ps"
  using inv q settled_answers [OF q] unfolding sys_inv_def Let_def by (simp add: answers_def queue_inv_def)

lemma stop_ntf_quiet: "quiet w (stop_ntf w)"
  by (auto simp: stop_ntf_def Let_def answers_def void_call_def is_response_def)

lemma stop_ntf_running [simp]: "amf_pthread_isrunning (stop_ntf w) = amf_pthread_isrunning w"
  by (simp add: stop_ntf_def Let_def void_call_def)

text \<open>The event that stops the AMF thread.\<close>

lemma inv_stop_event:
  assumes inv: "sys_inv s as ps" and n: "maf_new_event E EVENT_Terminate 0 0 (stop_ntf (world s)) = Inr (q, y)"
  shows "sys_inv (s\<lparr>world := y, unanswered := insert q (unanswered s)\<rparr>) as ps \<and> q \<notin> unanswered s \<and>
    evs y q = Some ((fresh_event E)\<lparr>event_type := EVENT_Terminate, saf_invokation := 0, flags := 0\<rparr>)"
proof -
  have i: "sys_inv (s\<lparr>world := stop_ntf (world s)\<rparr>) as ps" by (rule inv_world_quiet [OF inv stop_ntf_quiet])
  have "q \<notin> unanswered s" using inv_unanswered [OF i, of q] n by (auto simp: new_event_Inr)
  with inv_new [OF i, of E EVENT_Terminate 0 0 q y] n show ?thesis by (auto simp: event_ok_def owed_event_def)
qed

lemma com_keeps:
  assumes inv: "sys_inv s as ps" and c: "set_option (answered c) \<subseteq> unanswered s"
    and r: "do_com_call E c (world s) = Inr (u, w)"
  shows "\<exists>as'. sys_inv (s\<lparr>world := w, unanswered := unanswered s - set_option (answered c)\<rparr>) as' ps"
proof -
  note D = inv [unfolded sys_inv_def Let_def]
  have evok: "event_ok ev" if "evs (world s) p = Some ev" for p ev
    using D that by (auto simp: content_ok)
  have "0 \<notin> unanswered s" using D by auto
  show ?thesis
  proof (cases c)
    case (HealthCheckReport p r rec)
    then have p: "p \<in> unanswered s" "p \<noteq> 0" using c \<open>0 \<notin> unanswered s\<close> by (auto intro: ccontr)
    then obtain ev where ev: "evs (world s) p = Some ev" using inv_allocated [OF inv, of p] by auto
    let ?ev = "ev\<lparr>ev_error := r, recommendedRecovery := rec\<rparr>"
    have "maf_event_add E p ((world s)\<lparr>evs := (evs (world s))(p \<mapsto> ?ev)\<rparr>) = Inr ((), w)"
      using r HealthCheckReport ev p
      by (auto simp: maf_coremw_healthCheckReport_def drop_result_def ebind_Inr split: if_splits)
    from inv_add [OF inv p(1) ev _ _ this] HealthCheckReport evok [OF ev] show ?thesis
      by (auto simp: event_ok_def owed_event_def)
  next
    case (HaModeAssumed p r)
    then have p: "p \<in> unanswered s" using c by auto
    then obtain ev where ev: "evs (world s) p = Some ev" using inv_allocated [OF inv, of p] by auto
    have "maf_event_add E p ((world s)\<lparr>evs := (evs (world s))(p \<mapsto> ev\<lparr>ev_error := r\<rparr>)\<rparr>) = Inr ((), w)"
      using r HaModeAssumed ev p
      by (auto simp: maf_coremw_haModeAssumed_def drop_result_def ebind_Inr split: if_splits)
    from inv_add [OF inv p(1) ev _ _ this] HaModeAssumed evok [OF ev] show ?thesis
      by (auto simp: event_ok_def owed_event_def)
  next
    case (PrepareTerminationResponse p r)
    then have p: "p \<in> unanswered s" using c by auto
    then obtain ev where ev: "evs (world s) p = Some ev" using inv_allocated [OF inv, of p] by auto
    have "maf_event_add E p ((world s)\<lparr>evs := (evs (world s))(p \<mapsto> ev\<lparr>ev_error := r\<rparr>)\<rparr>) = Inr ((), w)"
      using r PrepareTerminationResponse ev p
      by (auto simp: maf_coremw_prepareTerminationResponse_def drop_result_def ebind_Inr split: if_splits)
    from inv_add [OF inv p(1) ev _ _ this] PrepareTerminationResponse evok [OF ev] show ?thesis
      by (auto simp: event_ok_def owed_event_def)
  next
    case (SpontaneousReport r rec)
    let ?ev = "(fresh_event E)\<lparr>event_type := EVENT_healthCheckReport, saf_invokation := 0, flags := 1\<rparr>"
    obtain p v where n: "maf_new_event E EVENT_healthCheckReport 0 1 (world s) = Inr (p, v)"
      and a: "(case evs v p of None \<Rightarrow> halt Wild v
        | Some ev \<Rightarrow>
          if event_type ev \<noteq> EVENT_healthCheckReport then halt Quit v
          else ebind (maf_event_add E p (v\<lparr>evs := (evs v)(p \<mapsto>
                       ev\<lparr>ev_error := r, recommendedRecovery := rec\<rparr>)\<rparr>))
               (\<lambda>(_, w). ret MafOk w)) = Inr (MafOk, w)"
      using r SpontaneousReport
      by (auto simp: maf_coremw_healthCheckReport_def drop_result_def ebind_Inr split: option.splits if_splits)
    have i: "sys_inv (s\<lparr>world := v, unanswered := insert p (unanswered s)\<rparr>) as ps" "evs v p = Some ?ev"
      using inv_new [OF inv n] by (auto simp: event_ok_def owed_event_def)
    have pn: "p \<notin> unanswered s" using inv_unanswered [OF inv, of p] n by (auto simp: new_event_Inr)
    have "maf_event_add E p (v\<lparr>evs := (evs v)(p \<mapsto> ?ev\<lparr>ev_error := r, recommendedRecovery := rec\<rparr>)\<rparr>) = Inr ((), w)"
      using a i(2) by (auto simp: ebind_Inr)
    then have "maf_event_add E p ((world (s\<lparr>world := v, unanswered := insert p (unanswered s)\<rparr>))\<lparr>evs :=
        (evs (world (s\<lparr>world := v, unanswered := insert p (unanswered s)\<rparr>)))(p \<mapsto> ?ev\<lparr>ev_error := r, recommendedRecovery := rec\<rparr>)\<rparr>) = Inr ((), w)"
      by simp
    from inv_add [OF i(1) _ _ _ _ this] i(2) pn SpontaneousReport show ?thesis
      by (auto simp: event_ok_def owed_event_def)
  next
    case StopRequest
    let ?v = "stop_ntf (world s)"
    show ?thesis
    proof (cases "amf_pthread_isrunning (world s)")
      case False
      then have "w = ?v" using r StopRequest by (simp add: stop_request_def)
      then show ?thesis using inv_world_quiet [OF inv stop_ntf_quiet] StopRequest by auto
    next
      case True
      let ?ev = "(fresh_event E)\<lparr>event_type := EVENT_Terminate, saf_invokation := 0, flags := 0\<rparr>"
      from True r StopRequest obtain p x where n: "maf_new_event E EVENT_Terminate 0 0 ?v = Inr (p, x)"
        and a: "maf_event_add E p x = Inr ((), w)"
        by (auto simp: stop_request_def ebind_Inr)
      note i = inv_stop_event [OF inv n]
      have "x\<lparr>evs := (evs x)(p \<mapsto> ?ev)\<rparr> = x" using i by (simp add: map_upd_triv)
      then have "maf_event_add E p ((world (s\<lparr>world := x, unanswered := insert p (unanswered s)\<rparr>))\<lparr>evs :=
        (evs (world (s\<lparr>world := x, unanswered := insert p (unanswered s)\<rparr>)))(p \<mapsto> ?ev)\<rparr>) = Inr ((), w)"
        using a by simp
      from inv_add [OF conjunct1 [OF i] _ _ _ _ this] i StopRequest show ?thesis
        by (auto simp: event_ok_def)
    qed
  qed
qed

lemma filter_failed:
  "filter objimp_failure (failed t) = filter objimp_failure t" "filter ntf_failure (failed t) = filter ntf_failure t"
  unfolding failed_def filter_filter by (meson filter_cong)+

lemma new_failures_failed:
  assumes "failed (tr w') = failed (tr w) @ f"
  shows "new_failures objimp_failure w w' = length (filter objimp_failure f)"
    "new_failures ntf_failure w w' = length (filter ntf_failure f)"
  using arg_cong [OF assms, of "\<lambda>t. length (filter objimp_failure t)"] arg_cong [OF assms, of "\<lambda>t. length (filter ntf_failure t)"]
  by (simp_all add: new_failures_def filter_failed)

lemma count_replicate [simp]: "count_list (replicate n x) i = n * one x i"
  by (induction n) (auto simp: one_def)

lemma upcall_keeps:
  assumes inv: "sys_inv s as ps" and r: "do_upcall E c (world s) = Inr (u, w)"
  shows "sys_inv (s\<lparr>world := w, unanswered := unanswered s \<union> (dom (evs w) - dom (evs (world s))),
                    asked := upcall_inv c # asked s,
                    doubled := replicate (new_failures objimp_failure (world s) w) (upcall_inv c) @ doubled s\<rparr>) as ps"
proof -
  note D = inv [unfolded sys_inv_def Let_def]
  obtain f where f: "set f \<subseteq> {(ObjImp_init_imm, Maf MafFailure)}"
    and g: "grown (\<lambda>i. Suc (length f) * one (upcall_inv c) i) f (world s) w"
    using upcall_grown [OF r] unfolding request_grown_def by blast
  note G = g [unfolded grown_def]
  have so: "store_ok (world s)" using D by (auto simp: store_ok_def)
  have "filter objimp_failure f = f" using f by (intro filter_True) auto
  then have n: "new_failures objimp_failure (world s) w = length f" using G new_failures_failed(1) by metis
  have old: "evs w a = evs (world s) a" if "a \<in> dom (evs (world s))" for a using G so that by (auto simp: store_ok_def)
  then have sub: "dom (evs (world s)) \<subseteq> dom (evs w)" by (metis domIff subsetI)
  have above: "ebrk (world s) \<le> a" if "a \<in> dom (evs w)" "a \<notin> dom (evs (world s))" for a
    using G that by (metis domIff not_le)
  have ok0: "event_ok ev" if "evs (world s) a = Some ev" for a ev using D that unfolding content_ok by blast
  have ok: "event_ok ev" if "evs w a = Some ev" for a ev
  proof (cases "a \<in> dom (evs (world s))")
    case True
    then show ?thesis using ok0 [of a ev] old that by simp
  next
    case False
    then show ?thesis using G above [of a] ok0 [of a ev] that by blast
  qed
  have as: "a \<in> dom (evs (world s))" if "a \<in> set as \<or> a \<in> set ps \<or> a \<in> unanswered s" for a using D that by auto
  have ch: "lchain ev_next (evs w) (maf_eventq_head (world s)) as" "lchain ev_next (evs w) (pending s) ps"
    using D lseg_cong [of as ev_next "evs w" "evs (world s)"] lseg_cong [of ps ev_next "evs w" "evs (world s)"] old as
    by (auto simp: queue_inv_def)
  have "sys_inv (s\<lparr>world := w, unanswered := unanswered s \<union> (dom (evs w) - dom (evs (world s))),
     asked := upcall_inv c # asked s, doubled := replicate (length f) (upcall_inv c) @ doubled s\<rparr>) as ps"
  proof -
    have dom: "dom (evs w) = unanswered s \<union> (dom (evs w) - dom (evs (world s))) \<union> set as \<union> set ps" using D sub by auto
    have new: "(unanswered s \<union> (dom (evs w) - dom (evs (world s)))) \<inter> (set as \<union> set ps) = {}" using D as by auto
    have q: "queue_inv w as" using ch(1) G D by (simp add: queue_inv_def)
    have pos: "0 < a \<and> a < ebrk w" if "a \<in> dom (evs w)" for a
      using G D so above [OF that] inv_dom(2) [OF inv, of a] that by (cases "a \<in> dom (evs (world s))") (auto simp: store_ok_def)
    have fin: "finite (unanswered s \<union> (dom (evs w) - dom (evs (world s))))" using G so D by (simp add: store_ok_def)
    have "settled i w + count_list (dropped s) i = count_list (upcall_inv c # asked s) i +
        count_list (replicate (length f) (upcall_inv c) @ doubled s) i" for i
    proof -
      have "settled i (world s) + count_list (dropped s) i = count_list (asked s) i + count_list (doubled s) i" using D by blast
      moreover have "settled i w = settled i (world s) + Suc (length f) * one (upcall_inv c) i" using G so by blast
      ultimately show ?thesis by (simp add: one_def)
    qed
    then show ?thesis using q ch(2) D new dom pos fin ok G unfolding sys_inv_def Let_def content_ok by simp
  qed
  then show ?thesis by (simp only: n)
qed

lemma take_keeps:
  assumes inv: "sys_inv s as ps" and p: "pending s = None"
    and r: "maf_event_getq E (world s) = Inr (q, w)"
  shows "sys_inv (s\<lparr>world := w, pending := q\<rparr>) [] as"
proof -
  note D = inv [unfolded sys_inv_def Let_def]
  have "queue_inv (world s) as" using D by blast
  from event_getq_spec [OF this willing_ok [of E]] event_getq_willing [OF r] have "q = first_of as" "w = (world s)\<lparr>maf_eventq_head := None,
      maf_eventq_tail := None, event_pipe := 0\<rparr>" "queue_inv w []" "lchain ev_next (evs (world s)) (first_of as) as"
    by auto
  moreover have "ps = []" using D p by simp
  ultimately show ?thesis using D unfolding sys_inv_def Let_def settled_def by auto
qed

lemma handle_keeps:
  assumes inv: "sys_inv s as ps" and p: "pending s = Some a"
    and r: "handle_one E a (world s) = Inr (q, w)"
  shows "\<exists>ps'. ps = a # ps' \<and> sys_inv (s\<lparr>world := w, pending := q,
     dropped := drops (evs (world s) a) (new_failures ntf_failure (world s) w) @ dropped s\<rparr>) as ps'"
proof -
  note D = inv [unfolded sys_inv_def Let_def]
  from D p obtain ps' ev where ps: "ps = a # ps'" "evs (world s) a = Some ev" "lchain ev_next (evs (world s)) (ev_next ev) ps'"
    by (auto simp: lchain_Some)
  have ch: "lchain ev_next (evs (world s)) (pending s) ps" using D by blast
  have dist: "a \<notin> set ps'" using lchain_distinct [OF ch] ps(1) by simp
  have "event_ok ev" "finite (dom (evs (world s)))" using D ps(2) by (auto simp: content_ok)
  from handle_one_spec [OF ps(2) this r] obtain f where h: "q = ev_next ev" "evs w = (evs (world s))(a := None)"
    "ebrk w = ebrk (world s)" "maf_eventq_head w = maf_eventq_head (world s)"
    "maf_eventq_tail w = maf_eventq_tail (world s)" "event_pipe w = event_pipe (world s)"
    "failed (tr w) = failed (tr (world s)) @ f" "list_all ntf_failure f"
    "\<And>i. settled i w + (if flags ev = 0 then length f * one (saf_invokation ev) i else 0) = settled i (world s)" by blast
  have "filter ntf_failure f = f" using h(8) by (simp add: list_all_iff)
  then have n: "new_failures ntf_failure (world s) w = length f" using new_failures_failed(2) [OF h(7)] by simp
  have led: "settled i w + (count_list (drops (evs (world s) a) (length f)) i + count_list (dropped s) i) =
      count_list (asked s) i + count_list (doubled s) i" for i
  proof -
    have "settled i (world s) + count_list (dropped s) i = count_list (asked s) i + count_list (doubled s) i" using D by blast
    then show ?thesis using h(9) [of i] ps(2) by (auto simp: drops_def split: if_splits)
  qed
  have "a \<notin> set as" "a \<notin> unanswered s" using D ps(1) by auto
  moreover have "content (evs w) = (content (evs (world s)))(a := None)" using h(2) by (auto simp: content_def)
  ultimately have "sys_inv (s\<lparr>world := w, pending := q,
      dropped := drops (evs (world s) a) (length f) @ dropped s\<rparr>) as ps'"
    using D ps dist h(1-6) led unfolding sys_inv_def Let_def by (auto simp: queue_inv_def)
  then show ?thesis using ps(1) n by simp
qed

lemma reached_inv:
  assumes "reached E cc s"
  shows "\<exists>as ps. sys_inv s as ps"
  using assms(1)
proof induction
  case start
  then show ?case using start_inv by blast
next
  case (step s t)
  then obtain as ps where inv: "sys_inv s as ps" by blast
  from step.hyps(2) show ?case
  proof cases
    case (com c u w)
    then show ?thesis using com_keeps [OF inv com(3,2)] by auto
  next
    case (request c u w)
    then show ?thesis using upcall_keeps [OF inv request(3)] by auto
  next
    case (take q w)
    then show ?thesis using take_keeps [OF inv take(2,4)] by auto
  next
    case (handle a q w)
    then show ?thesis using handle_keeps [OF inv handle(2,3)] by auto
  qed
qed

text \<open>Nothing is doubled or dropped where the two calls do not fail.\<close>

lemma reached_no_failures:
  assumes "reached E cc s"
  shows "(objimp_ok E \<longrightarrow> doubled s = []) \<and> (threads_ok E \<longrightarrow> dropped s = [])"
  using assms
proof induction
  case start
  then show ?case by (simp add: sys_start_def)
next
  case (step s t)
  obtain as ps where inv: "sys_inv s as ps" using reached_inv [OF step.hyps(1)] by blast
  note D = inv [unfolded sys_inv_def Let_def]
  from step.hyps(2) show ?case
  proof cases
    case (request c u w)
    obtain f where "objimp_ok E \<longrightarrow> f = []" "failed (tr w) = failed (tr (world s)) @ f"
      using upcall_grown [OF request(3)] unfolding request_grown_def grown_def by blast
    then show ?thesis using step.IH request(1) new_failures_failed(1) [of w "world s" f] by auto
  next
    case (handle a q w)
    obtain ev where ev: "evs (world s) a = Some ev" "event_ok ev" using D handle(2) by (auto simp: lchain_Some content_ok)
    obtain f where "threads_ok E \<longrightarrow> f = []" "failed (tr w) = failed (tr (world s)) @ f"
      using handle_one_spec [OF ev _ handle(3)] D by auto
    then show ?thesis using step.IH handle(1) new_failures_failed(2) [of w "world s" f] ev(1) by (auto simp: drops_def)
  qed (use step.IH in simp_all)
qed

end
