(* ===== verification/AcSafe.thy ===== *)
theory AcSafe
  imports AcSystem
begin

text \<open>
  What can end the process.  In a reached state the only ways are \<open>err_quit\<close> after a refused
  call, the assertion on an HA state outside the enumeration, and \<open>abort\<close> when the system refuses a lock,
  memory or a write to the pipe: no event is used after it was freed and no null pointer is followed.  Then: how the AMF thread is stopped.
\<close>

section \<open>Only \<open>err_quit\<close>\<close>

definition only :: "fault set \<Rightarrow> (ac, 'a) res \<Rightarrow> bool" where
  "only F x \<longleftrightarrow> (\<forall>f w. x = Inl (f, w) \<longrightarrow> f \<in> F)"

lemma only_simps [simp]: "only F (ret r w)" "only F (Inr p)" "only F (halt f w) \<longleftrightarrow> f \<in> F" "only F (Inl (f, w)) \<longleftrightarrow> f \<in> F"
  by (auto simp: only_def ret_def halt_def)

lemma only_ebind: "only F x \<Longrightarrow> (\<And>p. x = Inr p \<Longrightarrow> only F (g p)) \<Longrightarrow> only F (ebind x g)"
  by (cases x) (auto simp: only_def)

lemma only_wrapper: "Quit \<in> F \<Longrightarrow> only F (saAmfResponse_wrapper E iv e w)"
  by (auto simp: saAmfResponse_wrapper_def split: prod.splits)

definition aborts :: "ac_env \<Rightarrow> fault set" where
  "aborts E = (if system_ok E then {} else {Abort})"

lemma only_mono: "only F x \<Longrightarrow> F \<subseteq> G \<Longrightarrow> only G x"
  by (auto simp: only_def)

lemma only_new_event: "aborts E \<subseteq> F \<Longrightarrow> only F (maf_new_event E ty iv fl w)"
  by (auto simp: maf_new_event_def system_ok_def aborts_def split: if_splits)

lemma only_ha_event: "only {Quit} (maf_coremw_haModeAssumed_event E ev w)"
  by (auto simp: maf_coremw_haModeAssumed_event_def Let_def case_prod_beta only_wrapper)

lemma only_hc_event: "only {Quit} (maf_coremw_healthCheckReport_event E ev w)"
  by (auto simp: maf_coremw_healthCheckReport_event_def Let_def case_prod_beta only_wrapper)

lemma only_pt_event: "maf_acCallbacks w \<noteq> None \<Longrightarrow> only {Quit} (maf_coremw_prepareTerminationResponse_event E ev w)"
  unfolding maf_coremw_prepareTerminationResponse_event_def Let_def
proof (rule only_ebind)
  fix p
  assume cb: "maf_acCallbacks w \<noteq> None"
    and r: "saAmfResponse_wrapper E (saf_invokation ev) (if ev_error ev = MafOk then SA_AIS_OK else SA_AIS_ERR_FAILED_OPERATION) w = Inr p"
  obtain u v where p: "p = (u, v)" by (cases p)
  from response_wrapper_answers [OF r [unfolded p]] cb p
  show "only {Quit} (case p of (_, w) \<Rightarrow> if maf_acCallbacks w = None then halt Assert w else ret () (void_call TerminateProcess w))"
    by (simp add: answers_def)
qed (simp add: only_wrapper)

lemma only_handle_one:
  assumes ev: "evs w p = Some ev" "event_ok ev" and cb: "maf_acCallbacks w \<noteq> None"
  shows "only {Quit} (handle_one E p w)"
proof -
  have "only {Quit} (case event_type ev of
           EVENT_Terminate \<Rightarrow> ret () (w\<lparr>stop_thread := True\<rparr>)
         | EVENT_haModeAssumed \<Rightarrow> maf_coremw_haModeAssumed_event E ev w
         | EVENT_healthCheckReport \<Rightarrow> maf_coremw_healthCheckReport_event E ev w
         | EVENT_prepareTerminationResponse \<Rightarrow> maf_coremw_prepareTerminationResponse_event E ev w
         | EVENT_None \<Rightarrow> halt Assert w)"
    using ev(2) only_pt_event [OF cb] only_ha_event only_hc_event
    by (cases "event_type ev") (auto simp: event_ok_def)
  moreover have "evs v = evs w" if "(case event_type ev of
           EVENT_Terminate \<Rightarrow> ret () (w\<lparr>stop_thread := True\<rparr>)
         | EVENT_haModeAssumed \<Rightarrow> maf_coremw_haModeAssumed_event E ev w
         | EVENT_healthCheckReport \<Rightarrow> maf_coremw_healthCheckReport_event E ev w
         | EVENT_prepareTerminationResponse \<Rightarrow> maf_coremw_prepareTerminationResponse_event E ev w
         | EVENT_None \<Rightarrow> halt Assert w) = Inr (u, v)" for u v
    using that ha_event_answers [of E ev w u v] hc_event_answers [of E ev w u v] pt_event_answers [of E ev w u v]
    by (cases "event_type ev") (auto simp: responds_def event_responds_def)
  ultimately show ?thesis unfolding handle_one_def using ev(1)
    by (auto intro!: only_ebind)
qed

lemma only_add:
  assumes "queue_inv w as" "evs w p = Some ev" "p \<notin> set as" "aborts E \<subseteq> F"
  shows "only F (maf_event_add E p w)"
proof (cases "system_ok E")
  case True
  then show ?thesis using event_add_spec [OF assms(1-3)] by fastforce
next
  case False
  then have F: "Abort \<in> F" using assms(4) by (simp add: aborts_def)
  obtain h where "maf_event_add (willing E) p w = Inr ((), h)" using event_add_spec [OF assms(1-3) willing_ok [of E]] by fast
  then have "only {Abort} (maf_event_add E p w)"
    by (auto simp: maf_event_add_def willing_def Let_def ebind_Inr only_def halt_def ret_def ebind_def
        split: if_splits option.splits sum.splits)
  then show ?thesis by (rule only_mono) (use F in simp)
qed

lemma only_prepare:
  assumes "maf_acCallbacks w \<noteq> None"
  shows "only ({Quit, Assert} \<union> aborts E) (csi_set_prepare E iv h t w)"
proof -
  let ?u = "(if cc_name w \<noteq> ''lm'' then
                 snd (num_call E (ProcessOpen ''cmw-modelconsumer-ready COM_R1 /opt/com/util/comsa_mdf_consumer'') w)
               else w)\<lparr>maf_new_com_ha_state := MafMwSpiHaModeActive\<rparr>"
  have "maf_acCallbacks (snd (maf_call E ObjImp_init_imm ?u)) \<noteq> None"
    using assms by (simp add: maf_call_def num_call_def Let_def)
  then have "only ({Quit, Assert} \<union> aborts E) (csi_set_active E iv t w)"
    unfolding csi_set_active_def Let_def case_prod_beta
    by (intro only_ebind) (auto intro!: only_ebind only_new_event simp: new_event_Inr)
  then show ?thesis by (cases h) (auto simp: csi_set_prepare_def case_prod_beta)
qed

lemma only_csi_set:
  assumes "maf_acCallbacks w \<noteq> None"
  shows "only ({Quit, Assert} \<union> aborts E) (maf_amf_csi_set_callback E iv h t w)"
  unfolding maf_amf_csi_set_callback_def
proof (rule only_ebind [OF only_prepare [OF assms]])
  fix p :: "MafMwSpiHaReasonT \<times> ac"
  obtain r v where "p = (r, v)" by (cases p)
  moreover have "only ({Quit, Assert} \<union> aborts E) (csi_same_state E iv h v)"
    unfolding csi_same_state_def by (auto intro!: only_ebind only_wrapper simp: Let_def case_prod_beta)
  moreover have "only ({Quit, Assert} \<union> aborts E) (csi_ask_com E iv h r v)"
    unfolding csi_ask_com_def by (auto intro!: only_ebind only_wrapper only_new_event)
  ultimately show "only ({Quit, Assert} \<union> aborts E) (case p of (reason, w) \<Rightarrow>
       if maf_acCallbacks w = None \<or> maf_com_ha_state w = maf_new_com_ha_state w
       then csi_same_state E iv h w else csi_ask_com E iv h reason w)" by simp
qed

lemma only_upcall:
  assumes "maf_acCallbacks w \<noteq> None"
  shows "only ({Quit, Assert} \<union> aborts E) (do_upcall E c w)"
  using only_csi_set [OF assms, of E]
  by (cases c)
    (auto simp: maf_amf_csi_remove_callback_def maf_amf_healthcheck_callback_def maf_amf_comp_terminate_callback_def
      intro!: only_ebind only_wrapper only_new_event)

section \<open>Handling what was taken\<close>

lemma handle_loop_chain:
  "lchain ev_next (evs w) p as \<Longrightarrow> finite (dom (evs w)) \<Longrightarrow>
    \<forall>a ev. evs w a = Some ev \<longrightarrow> event_ok ev \<Longrightarrow>
    \<exists>r. handle_loop E p w = Some r \<and> (\<forall>u w'. r = Inr (u, w') \<longrightarrow>
      dom (evs w') = dom (evs w) - set as \<and>
      (stop_thread w' \<longleftrightarrow> stop_thread w \<or> (\<exists>a \<in> set as. \<exists>ev. evs w a = Some ev \<and> event_type ev = EVENT_Terminate)))"
proof (induction as arbitrary: p w)
  case Nil
  then show ?case by (simp add: handle_loop.simps)
next
  case (Cons a as)
  then obtain ev where ev: "p = Some a" "evs w a = Some ev" "lchain ev_next (evs w) (ev_next ev) as" by auto
  show ?case
  proof (cases "handle_one E a w")
    case (Inl e)
    then show ?thesis using ev by (simp add: handle_loop.simps)
  next
    case (Inr qv)
    then obtain q v where qv: "handle_one E a w = Inr (q, v)" by (cases qv) auto
    have "event_ok ev" using Cons.prems(3) ev(2) by blast
    from handle_one_spec [OF ev(2) this Cons.prems(2) qv] have v: "q = ev_next ev" "evs v = (evs w)(a := None)"
      "stop_thread v \<longleftrightarrow> stop_thread w \<or> event_type ev = EVENT_Terminate" by blast+
    have a: "a \<notin> set as" using lchain_distinct [OF Cons.prems(1)] by simp
    have "lchain ev_next (evs v) q as" using ev(3) a v(1,2) by simp
    moreover have "finite (dom (evs v))" "\<forall>b e. evs v b = Some e \<longrightarrow> event_ok e"
      using Cons.prems(2,3) v(2) by auto
    ultimately obtain r where r: "handle_loop E q v = Some r" "\<forall>u w'. r = Inr (u, w') \<longrightarrow>
      dom (evs w') = dom (evs v) - set as \<and>
      (stop_thread w' \<longleftrightarrow> stop_thread v \<or> (\<exists>b \<in> set as. \<exists>e. evs v b = Some e \<and> event_type e = EVENT_Terminate))"
      using Cons.IH [of v q] by blast
    have "handle_loop E p w = Some r" using ev(1) qv r(1) by (simp add: handle_loop.simps [of E "Some a" w])
    moreover have "(\<exists>b \<in> set as. \<exists>e. evs v b = Some e \<and> event_type e = EVENT_Terminate) \<longleftrightarrow>
        (\<exists>b \<in> set as. \<exists>e. evs w b = Some e \<and> event_type e = EVENT_Terminate)"
      using a v(2) by (metis fun_upd_other)
    ultimately show ?thesis using r(2) v ev(2) by auto
  qed
qed


section \<open>COM's call-backs stay known\<close>

lemma event_add_callbacks: "maf_event_add E p w = Inr (u, w') \<Longrightarrow> maf_acCallbacks w' = maf_acCallbacks w"
  by (auto simp: maf_event_add_def ebind_Inr Let_def split: if_splits option.splits)

lemma com_callbacks:
  assumes "do_com_call E c w = Inr (u, w')"
  shows "maf_acCallbacks w' = maf_acCallbacks w"
proof (cases c)
  case StopRequest
  then show ?thesis using assms
    by (auto simp: stop_request_def stop_ntf_def Let_def ebind_Inr new_event_Inr void_call_def split: if_splits
      dest!: event_add_callbacks)
qed (use assms in \<open>auto simp: drop_result_def maf_coremw_healthCheckReport_def maf_coremw_haModeAssumed_def
      maf_coremw_prepareTerminationResponse_def ebind_Inr new_event_Inr split: if_splits option.splits
      dest!: event_add_callbacks\<close>)

lemma reached_callbacks:
  assumes "reached E cc s"
  shows "maf_acCallbacks (world s) \<noteq> None"
  using assms(1)
proof induction
  case start
  then show ?case by (simp add: sys_start_def ac_start_def)
next
  case (step s t)
  obtain as ps where inv: "sys_inv s as ps" using reached_inv [OF step.hyps(1)] by blast
  note D = inv [unfolded sys_inv_def Let_def]
  from step.hyps(2) show ?case
  proof cases
    case (com c u w)
    then show ?thesis using step.IH com_callbacks [OF com(2)] by simp
  next
    case (request c u w)
    then show ?thesis using step.IH upcall_grown [OF request(3)]
      by (auto simp: request_grown_def grown_def)
  next
    case (take q w)
    have "queue_inv (world s) as" using D by blast
    from event_getq_spec [OF this willing_ok [of E]] event_getq_willing [OF take(4)] take(1) step.IH show ?thesis by auto
  next
    case (handle a q w)
    then obtain ev where "evs (world s) a = Some ev" "event_ok ev" using D by (auto simp: lchain_Some content_ok)
    from handle_one_spec [OF this _ handle(3)] D handle(1) step.IH show ?thesis by auto
  qed
qed

lemma only_com_call:
  assumes inv: "sys_inv s as ps" and c: "set_option (answered c) \<subseteq> unanswered s"
  shows "only ({Quit} \<union> aborts E) (do_com_call E c (world s))"
proof -
  note D = inv [unfolded sys_inv_def Let_def]
  have q: "queue_inv (world s) as" using D by blast
  have add: "only ({Quit} \<union> aborts E) (maf_event_add E p ((world s)\<lparr>evs := (evs (world s))(p \<mapsto> ev')\<rparr>))"
    if "p \<in> unanswered s" for p ev'
  proof -
    have p: "p \<notin> set as" using D that by auto
    have "queue_inv ((world s)\<lparr>evs := (evs (world s))(p \<mapsto> ev')\<rparr>) as" using q p by (simp add: queue_inv_def)
    then show ?thesis by (rule only_add [where ev = ev', OF _ _ p]) auto
  qed
  have new: "only ({Quit} \<union> aborts E) (maf_event_add E p v)" if i: "sys_inv (t\<lparr>world := v, unanswered := insert p (unanswered t)\<rparr>) as ps"
      "evs v p = Some ev" for t v p ev
  proof (rule only_add [where as = as, OF _ that(2)])
    show "queue_inv v as" "p \<notin> set as" using i(1) by (auto simp: sys_inv_def Let_def)
  qed blast
  have alloc: "\<exists>ev. evs (world s) p = Some ev" if "p \<in> unanswered s" for p
    using inv_allocated [OF inv, of p] that by auto
  show ?thesis
  proof (cases c)
    case (HealthCheckReport p r rec)
    then have "p \<in> unanswered s" "p \<noteq> 0" using c inv_unanswered [OF inv, of p] by auto
    with alloc [of p] add [of p] HealthCheckReport show ?thesis
      by (auto simp: maf_coremw_healthCheckReport_def drop_result_def intro!: only_ebind)
  next
    case (HaModeAssumed p r)
    then have "p \<in> unanswered s" using c by auto
    with alloc [of p] add [of p] HaModeAssumed show ?thesis
      by (auto simp: maf_coremw_haModeAssumed_def drop_result_def intro!: only_ebind)
  next
    case (PrepareTerminationResponse p r)
    then have "p \<in> unanswered s" using c by auto
    with alloc [of p] add [of p] PrepareTerminationResponse show ?thesis
      by (auto simp: maf_coremw_prepareTerminationResponse_def drop_result_def intro!: only_ebind)
  next
    case (SpontaneousReport r rec)
    have "only ({Quit} \<union> aborts E) (maf_event_add E p (v\<lparr>evs := (evs v)(p \<mapsto> ev\<lparr>ev_error := r, recommendedRecovery := rec\<rparr>)\<rparr>))"
      if n: "maf_new_event E EVENT_healthCheckReport 0 1 (world s) = Inr (p, v)" and ev: "evs v p = Some ev" for p v ev
    proof (rule only_add [where as = as])
      have "queue_inv v as \<and> p \<notin> set as"
        using inv_new [OF inv n] by (auto simp: event_ok_def owed_event_def sys_inv_def Let_def)
      then show "queue_inv (v\<lparr>evs := (evs v)(p \<mapsto> ev\<lparr>ev_error := r, recommendedRecovery := rec\<rparr>)\<rparr>) as" "p \<notin> set as"
        by (simp_all add: queue_inv_def)
    qed auto
    with SpontaneousReport show ?thesis
      by (auto simp: maf_coremw_healthCheckReport_def drop_result_def new_event_Inr
        intro!: only_ebind only_new_event split: option.splits)
  next
    case StopRequest
    have "only ({Quit} \<union> aborts E) (maf_event_add E p x)" if n: "maf_new_event E EVENT_Terminate 0 0 (stop_ntf (world s)) = Inr (p, x)" for p x
      using new [where t = s and v = x and p = p] inv_stop_event [OF inv n] by simp
    then show ?thesis using StopRequest
      by (auto simp: stop_request_def Let_def intro!: only_ebind only_new_event)
  qed
qed

text \<open>What \<open>stop_request\<close> leaves in the queue.\<close>

lemma stop_request_queued:
  assumes inv: "sys_inv s as ps" and run: "amf_pthread_isrunning (world s)"
    and r: "stop_request E (world s) = Inr (u, v)"
  shows "\<exists>q e. sys_inv (s\<lparr>world := v\<rparr>) (as @ [q]) ps \<and> evs v q = Some e \<and> event_type e = EVENT_Terminate"
proof -
  obtain q y where y: "maf_new_event E EVENT_Terminate 0 0 (stop_ntf (world s)) = Inr (q, y)" "maf_event_add E q y = Inr ((), v)"
    using r run by (auto simp: stop_request_def Let_def ebind_Inr)
  let ?ev = "(fresh_event E)\<lparr>event_type := EVENT_Terminate, saf_invokation := 0, flags := 0\<rparr>"
  let ?t = "s\<lparr>world := y, unanswered := insert q (unanswered s)\<rparr>"
  note i = inv_stop_event [OF inv y(1)]
  have same: "(world ?t)\<lparr>evs := (evs (world ?t))(q \<mapsto> ?ev)\<rparr> = y" using i by (simp add: map_upd_triv)
  have "sys_inv (?t\<lparr>world := v, unanswered := unanswered ?t - {q}\<rparr>) (as @ [q]) ps"
    by (rule inv_add [OF conjunct1 [OF i], of q ?ev ?ev]) (use i y(2) same in \<open>auto simp: event_ok_def\<close>)
  then have v: "sys_inv (s\<lparr>world := v\<rparr>) (as @ [q]) ps" using i by simp
  have "queue_inv y as" "q \<notin> set as" using i by (auto simp: sys_inv_def Let_def)
  from event_add_spec [OF this(1) _ this(2) willing_ok [of E], of ?ev] event_add_willing [OF y(2)] i have c: "content (evs v) = content (evs y)" by auto
  then have "content (evs v) q = Some (?ev\<lparr>ev_next := None\<rparr>)" using i by (simp add: content_def)
  then obtain e where e: "evs v q = Some e" "e\<lparr>ev_next := None\<rparr> = ?ev\<lparr>ev_next := None\<rparr>" by (auto simp: content_def)
  from arg_cong [OF e(2), of event_type] v e(1) show ?thesis by auto
qed

end
