(* ===== verification/AcInit.thy ===== *)
theory AcInit
  imports AcAmf
begin

text \<open>
  \<open>src/src/generic/ac/ComSAAc.c\<close>, part 3: loading and unloading the library
  (\<open>mafLCMinit\<close>, \<open>mafLCMterminate\<close>), the audit logger, the configuration, and the
  start-up decision on who controls SSHD.  The XML parser is \<open>libxml2\<close>: the function
  \<open>xml_parse\<close> of the environment.  The names the library goes by come from the build's
  \<open>CC_NAME\<close>.
\<close>

section \<open>Configuration\<close>

datatype xml =
    XML_ELEMENT_NODE string "(string \<times> xml list) list" "xml list"
  | XML_TEXT_NODE string
  | XML_OTHER_NODE

fun is_element :: "string \<Rightarrow> xml \<Rightarrow> bool" where
  "is_element s (XML_ELEMENT_NODE n as cs) \<longleftrightarrow> n = s"
| "is_element s _ \<longleftrightarrow> False"

fun children :: "xml \<Rightarrow> xml list" where
  "children (XML_ELEMENT_NODE n as cs) = cs"
| "children _ = []"

fun node_content :: "xml \<Rightarrow> string option" where
  "node_content (XML_TEXT_NODE s) = Some s"
| "node_content _ = None"

text \<open>
  \<open>a->children->content\<close> of the first attribute of that name: the outer \<open>None\<close> is the null
  pointer of an attribute with no children.
\<close>

fun coremw_xmlnode_get_attribute :: "xml \<Rightarrow> string \<Rightarrow> string option option" where
  "coremw_xmlnode_get_attribute (XML_ELEMENT_NODE n as cs) s =
     (case find (\<lambda>a. fst a = s) as of
        None \<Rightarrow> Some None
      | Some (_, []) \<Rightarrow> None
      | Some (_, c # _) \<Rightarrow> Some (node_content c))"
| "coremw_xmlnode_get_attribute _ s = Some None"

fun coremw_xmlnode_contents :: "xml option \<Rightarrow> string option" where
  "coremw_xmlnode_contents None = None"
| "coremw_xmlnode_contents (Some (XML_ELEMENT_NODE n as [])) = None"
| "coremw_xmlnode_contents (Some (XML_ELEMENT_NODE n as (c # cs))) = node_content c"
| "coremw_xmlnode_contents (Some (XML_TEXT_NODE s)) = Some s"
| "coremw_xmlnode_contents (Some XML_OTHER_NODE) = None"

definition component_named :: "string \<Rightarrow> xml \<Rightarrow> bool" where
  "component_named c k \<longleftrightarrow> is_element ''component'' k \<and>
     (\<exists>n \<in> set (children k). is_element ''name'' n \<and> coremw_xmlnode_contents (Some n) = Some c)"

definition coremw_find_config_item :: "xml option \<Rightarrow> string \<Rightarrow> string \<Rightarrow> xml option" where
  "coremw_find_config_item doc c item = (case doc of None \<Rightarrow> None
     | Some root \<Rightarrow> (case find (component_named c) (children root) of None \<Rightarrow> None
        | Some k \<Rightarrow> find (is_element item) (children k)))"

section \<open>The library's own state\<close>

record lcm =
  ctl :: ac
  lib :: bool
  audit_logging :: bool
  rfc5424_open :: bool
  rfc5424_close :: bool
  portal_MAF :: bool
  portal_3_1 :: bool
  ctxt :: bool
  doc :: "xml option"
  trace_v2 :: bool                  \<comment> \<open>which trace interface is registered\<close>
  cc_upper :: "string option"       \<comment> \<open>\<open>_CC_NAME_UPPERCASE\<close>\<close>
  cc_sa :: "string option"          \<comment> \<open>\<open>_CC_NAME_SA\<close>\<close>

record lcm_env =
  aenv :: ac_env
  xml_parse :: "string \<Rightarrow> xml option"
  CC_NAME_define :: string

definition lcm_num :: "lcm_env \<Rightarrow> xcall \<Rightarrow> lcm \<Rightarrow> int \<times> lcm" where
  "lcm_num L c s = (let (r, w) = num_call (aenv L) c (ctl s) in (r, s\<lparr>ctl := w\<rparr>))"

definition lcm_maf :: "lcm_env \<Rightarrow> xcall \<Rightarrow> lcm \<Rightarrow> MafReturnT \<times> lcm" where
  "lcm_maf L c s = (let (r, w) = maf_call (aenv L) c (ctl s) in (r, s\<lparr>ctl := w\<rparr>))"

definition lcm_str :: "lcm_env \<Rightarrow> xcall \<Rightarrow> lcm \<Rightarrow> string option \<times> lcm" where
  "lcm_str L c s = (let (r, w) = str_call (aenv L) c (ctl s) in (r, s\<lparr>ctl := w\<rparr>))"

definition lcm_void :: "xcall \<Rightarrow> lcm \<Rightarrow> lcm" where
  "lcm_void c s = s\<lparr>ctl := void_call c (ctl s)\<rparr>"

definition to_lower :: "char \<Rightarrow> char" where
  "to_lower c = (let n = (of_char c :: nat) in if 65 \<le> n \<and> n \<le> 90 then char_of (n + 32) else c)"

definition to_upper :: "char \<Rightarrow> char" where
  "to_upper c = (let n = (of_char c :: nat) in if 97 \<le> n \<and> n \<le> 122 then char_of (n - 32) else c)"

section \<open>The audit logger\<close>

definition auditlogger :: "string \<Rightarrow> lcm \<Rightarrow> lcm" where
  "auditlogger msg s = (if audit_logging s then lcm_void (AuditLog msg) s else s)"

definition load_logger_library :: "lcm_env \<Rightarrow> lcm \<Rightarrow> lcm" where
  "load_logger_library L s =
     (let (stream, s) = lcm_str L (Getenv ''SECURITY_STREAM'') s
      in if stream = None then s
         else let (l, s) = lcm_num L (Dlopen ''/usr/lib64/liblde-logger.so'') s; s = s\<lparr>lib := l \<noteq> 0\<rparr>
           in if l \<noteq> 0 then
                let (a, s) = lcm_num L (Dlsym ''rfc5424_open'') s; s = s\<lparr>rfc5424_open := a \<noteq> 0\<rparr>;
                    (b, s) = lcm_num L (Dlsym ''rfc5424_syslog'') s; s = s\<lparr>audit_logging := b \<noteq> 0\<rparr>;
                    (c, s) = lcm_num L (Dlsym ''rfc5424_close'') s; s = s\<lparr>rfc5424_close := c \<noteq> 0\<rparr>
                in if b = 0
                   then (lcm_void Dlclose s)\<lparr>lib := False, rfc5424_open := False, rfc5424_close := False\<rparr>
                   else s
              else s)"

section \<open>Who controls SSHD\<close>

text \<open>Run two commands; the first that fails ends the sequence.\<close>

definition two_commands :: "lcm_env \<Rightarrow> string \<Rightarrow> string \<Rightarrow> lcm \<Rightarrow> MafReturnT \<times> lcm" where
  "two_commands L c d s =
     (let (r, s) = lcm_num L (ProcessOpen c) s
      in if r \<noteq> 0 then (MafFailure, s)
         else let (r, s) = lcm_num L (ProcessOpen d) s
           in (if r \<noteq> 0 then MafFailure else MafOk, s))"

definition InitAmfSshdControl :: "lcm_env \<Rightarrow> lcm \<Rightarrow> MafReturnT \<times> lcm" where
  "InitAmfSshdControl L s =
     (let (r, s) = lcm_num L (ProcessOpen ''is-com-sshd-flag-enabled.sh'') s
      in if r = 0
         then two_commands L ''rm -f /opt/com/run/ComSA_handles_SSHD'' ''touch /opt/com/run/AMF_handles_SSHD''
                (s\<lparr>ctl := (ctl s)\<lparr>comsa_sshd_control := False\<rparr>\<rparr>)
         else two_commands L ''rm -f /opt/com/run/AMF_handles_SSHD'' ''touch /opt/com/run/ComSA_handles_SSHD''
                (s\<lparr>ctl := (ctl s)\<lparr>comsa_sshd_control := True\<rparr>\<rparr>))"

section \<open>Loading\<close>

text \<open>The parts of \<open>mafLCMinit\<close>, in order; \<open>Some rc\<close> ends it with that code.\<close>

definition lcm_names :: "lcm_env \<Rightarrow> lcm \<Rightarrow> lcm" where
  "lcm_names L s =
     (let up = map to_upper (CC_NAME_define L)
      in s\<lparr>ctl := (ctl s)\<lparr>cc_name := map to_lower (CC_NAME_define L)\<rparr>, cc_upper := Some up,
           cc_sa := (case cc_sa s of None \<Rightarrow> Some (up @ ''_SA'') | Some n \<Rightarrow> Some n)\<rparr>)"

definition lcm_open :: "lcm_env \<Rightarrow> lcm \<Rightarrow> (lcm, MafReturnT option) res" where
  "lcm_open L s =
     (let s = load_logger_library L s;
          s = (if rfc5424_open s then lcm_void (Rfc5424Open 104) s else s);
          (r, s) = lcm_num L Pipe s
      in if r \<noteq> 0 then ret (Some MafFailure) s
         else let s = s\<lparr>ctl := (ctl s)\<lparr>event_pipe := 0\<rparr>\<rparr>; (r, s) = lcm_num L FcntlGet s
           in if r < 0 then halt Abort s
              else let (r, s) = lcm_num L FcntlSet s
                in if r \<noteq> 0 then halt Abort s
                   else let (_, s) = lcm_num L (ProcessOpen (cc_name (ctl s) @ ''sa_pso start'')) s;
                            (r, s) = lcm_num L (GetPortal ''3'') s; s = s\<lparr>portal_MAF := r \<noteq> 0\<rparr>
                     in ret (if r = 0 then Some MafFailure else None) s)"

definition lcm_config :: "lcm_env \<Rightarrow> string option \<Rightarrow> lcm \<Rightarrow> (lcm, unit) res" where
  "lcm_config L config s = (case config of None \<Rightarrow> ret () s
     | Some c \<Rightarrow>
       let (r, s) = lcm_num L XmlNewParserCtxt s; s = s\<lparr>ctxt := r \<noteq> 0\<rparr>
       in if r = 0 then halt Quit s
          else ret () ((lcm_void (XmlRead c) s)\<lparr>doc := xml_parse L c\<rparr>))"

definition lcm_services :: "lcm_env \<Rightarrow> lcm \<Rightarrow> lcm" where
  "lcm_services L s =
     (let s = lcm_void (TimerCreate NtfThread) (lcm_void (TimerCreate AmfThread) s);
          s = s\<lparr>trace_v2 := (cc_name (ctl s) = ''lm'')\<rparr>;
          (r, s) = lcm_maf L (ServiceOpen ''ComLogService'') s;
          s = (if r \<noteq> MafOk then s else auditlogger ''Com LogService successfully opened'' s)
      in if cc_name (ctl s) \<noteq> ''lm'' then snd (lcm_maf L (ServiceOpen ''comSATrace'') s)
         else snd (lcm_maf L (ServiceOpen ''lmSATrace'') s))"

primrec lcm_components :: "lcm_env \<Rightarrow> xcall list \<Rightarrow> lcm \<Rightarrow> MafReturnT \<times> lcm" where
  "lcm_components L [] s = (MafOk, s)"
| "lcm_components L (c # cs) s =
     (let (r, s) = lcm_maf L c s in if r \<noteq> MafOk then (r, s) else lcm_components L cs s)"

definition lcm_register :: "lcm_env \<Rightarrow> lcm \<Rightarrow> MafReturnT \<times> lcm" where
  "lcm_register L s =
     (let (r, s) = lcm_components L [RegisterComponent, ComponentInit ''MwComponent'', ComponentInit ''OamComponent'',
            ComponentInit ''MgmtSpiThreadCont'', ComponentInit ''oamSAOiProxy''] s
      in if r \<noteq> MafOk then (r, s)
         else let s = lcm_void ClearOamContextTransactionMap (lcm_void SetUpInstanceModelConsumers s);
                  (r, s) = (if cc_name (ctl s) \<noteq> ''lm'' then InitAmfSshdControl L s else (MafOk, s))
           in if r \<noteq> MafOk then (r, s)
              else let (p, s) = lcm_num L (GetPortal ''3_1'') s; s = s\<lparr>portal_3_1 := p \<noteq> 0\<rparr>
                in (if p = 0 then MafFailure else MafOk, s))"

definition mafLCMinit :: "lcm_env \<Rightarrow> string option \<Rightarrow> lcm \<Rightarrow> (lcm, MafReturnT) res" where
  "mafLCMinit L config s =
     ebind (lcm_open L (lcm_names L s)) (\<lambda>(stop, s). case stop of Some rc \<Rightarrow> ret rc s
       | None \<Rightarrow> ebind (lcm_config L config s) (\<lambda>(_, s). Inr (lcm_register L (lcm_services L s))))"

section \<open>Unloading\<close>

definition close_logs :: "lcm_env \<Rightarrow> lcm \<Rightarrow> lcm" where
  "close_logs L s =
     (if cc_name (ctl s) \<noteq> ''lm'' then
        let s = (if alertalarm (ctl s) \<noteq> 0 then
            let s = s\<lparr>ctl := (ctl s)\<lparr>alertalarm := 0\<rparr>\<rparr>;
                (_, s) = lcm_maf L (ServiceClose ''AlarmAndAlertLog'') s;
                (_, s) = lcm_maf L (ServiceClose ''cmdLog'') s;
                (_, s) = lcm_maf L (ServiceClose ''secLog'') s
            in s else s)
        in lcm_void (ServiceClose ''comSATrace'') s
      else lcm_void (ServiceClose ''lmSATrace'') s)"

definition mafLCMterminate :: "lcm_env \<Rightarrow> lcm \<Rightarrow> lcm" where
  "mafLCMterminate L s =
     (let s = close_logs L s;
          s = lcm_void (ComponentFinalize ''OamComponent'') s;
          s = lcm_void (ComponentFinalize ''MwComponent'') s;
          s = lcm_void StopLogEventProducer s;
          s = lcm_void (ServiceClose ''ComLogService'') s;
          s = lcm_void UnregisterComponent s;
          s = s\<lparr>cc_upper := None, cc_sa := None\<rparr>;
          s = (if rfc5424_close s then lcm_void Rfc5424Close s else s)
      in if lib s then (lcm_void Dlclose s)\<lparr>lib := False, audit_logging := False, rfc5424_open := False,
              rfc5424_close := False\<rparr>
         else s)"

text \<open>\<open>unsigned long long\<close> milliseconds since 1970.\<close>

definition getMillisecondsSinceEpochUnixTime :: "int \<Rightarrow> int \<Rightarrow> 64 word" where
  "getMillisecondsSinceEpochUnixTime sec usec = word_of_int sec * 1000 + word_of_int usec div 1000"

end
