(* ===== verification/AcContract.thy ===== *)
theory AcContract
  imports AcSafe AcInit
begin

text \<open>
  The properties of \<open>ComSAAc.c\<close>, with a concrete environment in which AMF, COM and the system
  accept every call.
\<close>

section \<open>A concrete environment\<close>

definition some_event :: "maf_CoremwEvent" where
  "some_event = \<lparr>ev_next = Some 99, event_type = EVENT_None, saf_invokation = 5, flags = 3, ev_error = MafTimeOut,
     recommendedRecovery = MafMwSpiRecommendedRecoveryRestart\<rparr>"

definition ok_num :: "(xcall \<times> answer) list \<Rightarrow> xcall \<Rightarrow> int" where
  "ok_num t c = (case c of GetPortal s \<Rightarrow> 1 | XmlNewParserCtxt \<Rightarrow> 1 | _ \<Rightarrow> 0)"

definition ok_env :: "ac_env" where
  "ok_env = \<lparr>sa_answer = \<lambda>t c. SA_AIS_OK, maf_answer = \<lambda>t c. MafOk, num_answer = ok_num,
     str_answer = \<lambda>t c. None, malloc_fails = \<lambda>t. False, lock_fails = \<lambda>t. False, unlock_fails = \<lambda>t. False,
     write_fails = \<lambda>t. False, read_fails = \<lambda>t. False, fresh_event = some_event\<rparr>"

lemma ok_env_ok: "system_ok ok_env" "objimp_ok ok_env" "threads_ok ok_env"
  by (simp_all add: system_ok_def objimp_ok_def threads_ok_def ok_env_def ok_num_def)

definition after_healthcheck :: "sys" where
  "after_healthcheck = (let w = snd (projr (do_upcall ok_env (Healthcheck 7) (ac_start ''com'')))
     in \<lparr>world = w, pending = None, unanswered = {1}, asked = [7], doubled = [], dropped = []\<rparr>)"

definition after_report :: "sys" where
  "after_report = (let c = HealthCheckReport 1 MafOk MafMwSpiRecommendedRecoveryRestart;
       w = snd (projr (do_com_call ok_env c (world after_healthcheck)))
     in \<lparr>world = w, pending = None, unanswered = {}, asked = [7], doubled = [], dropped = []\<rparr>)"

definition after_take :: "sys" where
  "after_take = \<lparr>world = snd (projr (maf_event_getq ok_env (world after_report))), pending = Some 1,
     unanswered = {}, asked = [7], doubled = [], dropped = []\<rparr>"

definition after_handle :: "sys" where
  "after_handle = \<lparr>world = snd (projr (handle_one ok_env 1 (world after_take))), pending = None,
     unanswered = {}, asked = [7], doubled = [], dropped = []\<rparr>"

lemma run_upcall: "do_upcall ok_env (Healthcheck 7) (ac_start ''com'') = Inr ((), world after_healthcheck)"
  by (simp add: after_healthcheck_def ok_env_def ac_start_def maf_amf_healthcheck_callback_def maf_new_event_def
      ret_def)

lemma after_healthcheck_world: "world after_healthcheck = (ac_start ''com'')\<lparr>tr := [(HealthCheck 1, Void)], ebrk := 2,
    evs := [1 \<mapsto> some_event\<lparr>event_type := EVENT_healthCheckReport, saf_invokation := 7, flags := 0\<rparr>]\<rparr>"
  using run_upcall by (simp add: ok_env_def ac_start_def maf_amf_healthcheck_callback_def maf_new_event_def void_call_def)

lemma run_report: "do_com_call ok_env (HealthCheckReport 1 MafOk MafMwSpiRecommendedRecoveryRestart) (world after_healthcheck)
    = Inr ((), world after_report)"
  by (simp add: after_report_def after_healthcheck_world ok_env_def ac_start_def drop_result_def
      maf_coremw_healthCheckReport_def maf_event_add_def ret_def)

lemma after_report_world: "world after_report = (world after_healthcheck)\<lparr>evs := [1 \<mapsto> some_event\<lparr>ev_next := None,
      event_type := EVENT_healthCheckReport, saf_invokation := 7, flags := 0, ev_error := MafOk,
      recommendedRecovery := MafMwSpiRecommendedRecoveryRestart\<rparr>],
    maf_eventq_head := Some 1, maf_eventq_tail := Some 1, event_pipe := 1\<rparr>"
  using run_report by (simp add: after_healthcheck_world ok_env_def ac_start_def drop_result_def
      maf_coremw_healthCheckReport_def maf_event_add_def some_event_def)

lemma run_take: "maf_event_getq ok_env (world after_report) = Inr (Some 1, world after_take)"
  by (simp add: after_take_def after_report_world ok_env_def maf_event_getq_def ret_def)

lemma after_take_world: "world after_take = (world after_report)\<lparr>maf_eventq_head := None, maf_eventq_tail := None, event_pipe := 0\<rparr>"
  using run_take by (simp add: after_report_world ok_env_def maf_event_getq_def)

lemma run_handle: "handle_one ok_env 1 (world after_take) = Inr (None, world after_handle)"
  by (simp add: after_handle_def after_take_world after_report_world after_healthcheck_world handle_one_def
      maf_coremw_healthCheckReport_event_def saAmfResponse_wrapper_def saf_api_call_def sa_call_def ok_env_def
      ac_start_def some_event_def numeral_eq_Suc ret_def)

lemma reached_eq: "reached E cc s \<Longrightarrow> ac_step E s t \<Longrightarrow> t = t' \<Longrightarrow> reached E cc t'"
  using reached.step by simp

lemma reached_demo: "reached ok_env ''com'' after_healthcheck" "reached ok_env ''com'' after_report"
    "reached ok_env ''com'' after_take" "reached ok_env ''com'' after_handle"
proof -
  have w: "world (sys_start (ac_start ''com'')) = ac_start ''com''" by (simp add: sys_start_def)
  have r: "do_upcall ok_env (Healthcheck 7) (world (sys_start (ac_start ''com''))) = Inr ((), world after_healthcheck)"
    unfolding w by (rule run_upcall)
  show 1: "reached ok_env ''com'' after_healthcheck"
    by (rule reached_eq [OF reached.start ac_step.request [where c = "Healthcheck 7", OF _ r]])
      (simp_all add: sys_start_def, simp add: after_healthcheck_def ac_start_def Let_def
        maf_amf_healthcheck_callback_def maf_new_event_def ok_env_def void_call_def ret_def new_failures_def
        objimp_failure_def)
  show 2: "reached ok_env ''com'' after_report"
    by (rule reached_eq [OF 1 ac_step.com [OF run_report]])
      (simp_all add: after_healthcheck_def after_report_def Let_def)
  show 3: "reached ok_env ''com'' after_take"
    by (rule reached_eq [OF 2 ac_step.take [OF _ _ run_take]], simp_all add: after_report_world)
      (simp_all add: after_report_def after_take_def Let_def)
  have "tr (world after_handle) = tr (world after_take) @ [(SaAmfResponse 7 SA_AIS_OK, Sa SA_AIS_OK)]"
    by (simp add: after_handle_def after_take_world after_report_world after_healthcheck_world handle_one_def
      maf_coremw_healthCheckReport_event_def saAmfResponse_wrapper_def saf_api_call_def sa_call_def ok_env_def
      ac_start_def some_event_def numeral_eq_Suc ret_def)
  then have n: "new_failures ntf_failure (world after_take) (world after_handle) = 0"
    by (simp add: new_failures_def ntf_failure_def)
  show "reached ok_env ''com'' after_handle"
    by (rule reached_eq [OF 3 ac_step.handle [OF _ run_handle]])
      (simp_all only: n drops_0, simp_all add: after_take_def after_handle_def)
qed


section \<open>Requests, answers and the queue\<close>

text \<open>
  C4. The ledger of AMF's requests balances.  In every reached state, for every invocation: the responses
  AMF has accepted, the events that still owe one, and the responses dropped because the NTF thread failed to
  start are together exactly as many as the requests made, plus one for each time the object implementer
  failed during such a request.  Where neither fails, every request is settled exactly once.
\<close>

theorem request_ledger_balances:
  assumes "reached E cc s"
  shows "accepted iv (tr (world s)) + owed iv (evs (world s)) + count_list (dropped s) iv =
      count_list (asked s) iv + count_list (doubled s) iv \<and>
    (objimp_ok E \<longrightarrow> doubled s = []) \<and> (threads_ok E \<longrightarrow> dropped s = [])"
  using reached_inv [OF assms] reached_no_failures [OF assms] by (auto simp: sys_inv_def settled_def Let_def)

theorem request_ledger_balances_witness:
  "reached ok_env ''com'' after_handle \<and> accepted 7 (tr (world after_handle)) = 1"
proof -
  have "evs (world after_handle) = Map.empty"
    using handle_one_spec [OF _ _ _ run_handle]
    by (auto simp: after_take_world after_report_world after_healthcheck_world event_ok_def some_event_def)
  then have "owed 7 (evs (world after_handle)) = 0" by (simp add: owed_def)
  with request_ledger_balances [OF reached_demo(4), of 7] reached_demo(4)
  show ?thesis by (simp add: after_handle_def)
qed

text \<open>
  C6. No wake-up is lost and none is sent twice: in every reached state the event pipe holds
  exactly one byte while the queue holds an event, and none while it is empty.
\<close>

theorem no_lost_wakeup:
  assumes "reached E cc s"
  shows "event_pipe (world s) = (if maf_eventq_head (world s) = None then 0 else 1)"
proof -
  obtain as ps where "sys_inv s as ps" using reached_inv [OF assms] by blast
  then have "queue_inv (world s) as" by (simp add: sys_inv_def Let_def)
  then show ?thesis by (cases as) (auto simp: queue_inv_def)
qed

theorem no_lost_wakeup_witness:
  "reached ok_env ''com'' after_report \<and> event_pipe (world after_report) = 1"
  using no_lost_wakeup [OF reached_demo(2)] reached_demo(2) by (simp add: after_report_world)

text \<open>
  C5. Memory safety of the event objects under every interleaving: in a reached state neither a
  call of COM, nor an up-call of AMF, nor the handling of an event uses a freed event or a null
  pointer, whatever fails outside; the process can only end through \<open>err_quit\<close>, through the
  assertion on an HA state outside the enumeration, or through \<open>abort\<close> where the system refuses memory, a lock
  or the pipe.
\<close>

theorem no_wild_pointer:
  assumes "reached E cc s"
  shows "only ({Quit, Assert} \<union> aborts E) (do_upcall E u (world s)) \<and>
    (pending s = Some a \<longrightarrow> only {Quit} (handle_one E a (world s))) \<and>
    (set_option (answered c) \<subseteq> unanswered s \<longrightarrow> only ({Quit} \<union> aborts E) (do_com_call E c (world s)))"
proof -
  obtain as ps where inv: "sys_inv s as ps" using reached_inv [OF assms] by blast
  have "only {Quit} (handle_one E a (world s))" if "pending s = Some a"
  proof -
    from inv that obtain ev where "evs (world s) a = Some ev" "event_ok ev"
      by (auto simp: sys_inv_def Let_def lchain_Some content_ok)
    then show ?thesis using only_handle_one reached_callbacks [OF assms] by blast
  qed
  then show ?thesis using only_upcall [OF reached_callbacks [OF assms]] only_com_call [OF inv] by blast
qed

theorem no_wild_pointer_witness:
  "reached ok_env ''com'' after_take \<and> only {Quit} (handle_one ok_env 1 (world after_take))"
  using no_wild_pointer [OF reached_demo(3), of "Healthcheck 1" 1 StopRequest] reached_demo(3)
  by (simp add: after_take_def)

text \<open>
  C28. The event queue is first in, first out: events added to an empty queue are taken by one
  call, all of them and in the order they were added, after which queue and pipe are empty.
\<close>

theorem event_queue_is_fifo:
  assumes "queue_holds E s []" "distinct xs" "\<forall>x \<in> set xs. allocated s x"
  shows "\<exists>s' s''. run_cmds (enqueue E) xs s = Some s' \<and> (pipe_readable s' \<longleftrightarrow> xs \<noteq> []) \<and>
    dequeue_all E s' = Some (xs, s'') \<and> queue_holds E s'' [] \<and> \<not> pipe_readable s''"
  using assms by (rule evq.fifo)

theorem event_queue_is_fifo_witness:
  "\<exists>s' s''. run_cmds (enqueue ok_env) [3, 1, 2]
      ((ac_start ''com'')\<lparr>evs := [1 \<mapsto> some_event, 2 \<mapsto> some_event, 3 \<mapsto> some_event]\<rparr>) = Some s' \<and>
    dequeue_all ok_env s' = Some ([3, 1, 2], s'')"
proof -
  let ?s = "(ac_start ''com'')\<lparr>evs := [1 \<mapsto> some_event, 2 \<mapsto> some_event, 3 \<mapsto> some_event]\<rparr>"
  have "queue_holds ok_env ?s []" using ok_env_ok(1) by (simp add: queue_holds_def queue_inv_def ac_start_def)
  moreover have "\<forall>x \<in> set [3, 1, 2]. allocated ?s x" by (simp add: allocated_def)
  ultimately show ?thesis using event_queue_is_fifo [of ok_env ?s "[3, 1, 2]"] by auto
qed

text \<open>
  C29. Stopping works: after \<open>maf_coremw_stop\<close> has queued its event, the next pass of
  \<open>maf_handle_events\<close> ends, and when it returns the stop flag is set, so the AMF thread leaves
  its loop without another poll.
\<close>

theorem stop_request_ends_loop:
  assumes "reached E cc s"
    and "amf_pthread_isrunning (world s)" "stop_request E (world s) = Inr (u, v)"
  shows "\<exists>r. maf_handle_events E v = Some r \<and>
    (\<forall>u' w'. r = Inr (u', w') \<longrightarrow> stop_thread w' \<and> amf_loop E (p # ps) w' = Some (ret () w'))"
proof -
  obtain as qs where inv: "sys_inv s as qs" using reached_inv [OF assms(1)] by blast
  obtain q e where v: "sys_inv (s\<lparr>world := v\<rparr>) (as @ [q]) qs" "evs v q = Some e" "event_type e = EVENT_Terminate"
    using stop_request_queued [OF inv assms(2,3)] by blast
  show ?thesis
  proof (cases "maf_event_getq E v")
    case (Inl f)
    then show ?thesis by (simp add: maf_handle_events_def)
  next
    case (Inr qw)
    then obtain q' w where getq: "maf_event_getq E v = Inr (q', w)" by (cases qw) simp
    note D = v(1) [unfolded sys_inv_def Let_def, simplified]
    have w: "q' = first_of (as @ [q])" "evs w = evs v" "lchain ev_next (evs v) (first_of (as @ [q])) (as @ [q])"
      using event_getq_spec [OF _ willing_ok [of E]] D event_getq_willing [OF getq] by fastforce+
    have "finite (dom (evs w))" "\<forall>a ev. evs w a = Some ev \<longrightarrow> event_ok ev"
      using D unfolding w(2) content_ok by auto
    then obtain r where r: "handle_loop E (first_of (as @ [q])) w = Some r" "\<forall>u w'. r = Inr (u, w') \<longrightarrow>
        (stop_thread w' \<longleftrightarrow> stop_thread w \<or> (\<exists>a \<in> set (as @ [q]). \<exists>ev. evs w a = Some ev \<and> event_type ev = EVENT_Terminate))"
      using handle_loop_chain [of w "first_of (as @ [q])" "as @ [q]" E] w(2,3) by auto
    have "\<exists>a \<in> set (as @ [q]). \<exists>ev. evs w a = Some ev \<and> event_type ev = EVENT_Terminate"
      using v(2,3) w(2) by auto
    then show ?thesis using r w(1) getq by (auto simp: maf_handle_events_def)
  qed
qed

theorem stop_request_ends_loop_witness:
  "\<exists>v r. stop_request ok_env (world after_report) = Inr ((), v) \<and> maf_handle_events ok_env v = Some r"
proof -
  have run: "amf_pthread_isrunning (world after_report)"
    by (simp add: after_report_world after_healthcheck_world ac_start_def)
  obtain as ps where inv: "sys_inv after_report as ps" using reached_inv [OF reached_demo(2)] by blast
  have "\<exists>v. stop_request ok_env (world after_report) = Inr ((), v)"
    by (simp add: stop_request_def stop_ntf_def after_report_world after_healthcheck_world ac_start_def void_call_def
        maf_new_event_def maf_event_add_def ok_env_def ret_def)
  with stop_request_ends_loop [OF reached_demo(2) run] show ?thesis by blast
qed


section \<open>HA states\<close>

definition mode_of :: "SaAmfHAStateT \<Rightarrow> MafMwSpiHaModeT" where
  "mode_of h = (case h of SA_AMF_HA_ACTIVE \<Rightarrow> MafMwSpiHaModeActive | SA_AMF_HA_STANDBY \<Rightarrow> MafMwSpiHaModeStandby
     | _ \<Rightarrow> MafMwSpiHaModeUnassigned)"

lemma response_keeps:
  "saAmfResponse_wrapper E iv e w = Inr (u, w') \<Longrightarrow>
   maf_com_ha_state w' = maf_com_ha_state w \<and> maf_new_com_ha_state w' = maf_new_com_ha_state w"
  using response_wrapper_answers [of E iv e w u w'] by auto

text \<open>When the object implementer does not start, COM is asked to prepare the termination, with an event for the same assignment.\<close>

definition objimp_failed :: "xcall \<times> answer" where
  "objimp_failed = (ObjImp_init_imm, Maf MafFailure)"

definition terminate_event :: "ac_env \<Rightarrow> nat \<Rightarrow> maf_CoremwEvent" where
  "terminate_event E iv = (fresh_event E)\<lparr>event_type := EVENT_prepareTerminationResponse, saf_invokation := iv, flags := 0\<rparr>"

definition termination_asked :: "ac_env \<Rightarrow> nat \<Rightarrow> ac \<Rightarrow> ac \<Rightarrow> bool" where
  "termination_asked E iv w v \<longleftrightarrow> failed (tr v) = failed (tr w) @ [objimp_failed] \<and>
     evs v = (evs w)(ebrk w \<mapsto> terminate_event E iv) \<and> ebrk v = Suc (ebrk w) \<and> maf_acCallbacks v = maf_acCallbacks w \<and>
     accepted iv (tr v) = accepted iv (tr w) \<and> (PrepareTermination (ebrk w), Void) \<in> set (tr v)"

lemma open_logs_tr: "set (tr w) \<subseteq> set (tr (open_logs E w))"
  by (auto simp: open_logs_def maf_call_def Let_def)

lemma csi_active_failed:
  assumes "csi_set_active E iv t w = Inr (reason, v)"
  shows "quiet w v \<or> termination_asked E iv w v"
proof -
  let ?u = "(if cc_name w \<noteq> ''lm'' then
                 snd (num_call E (ProcessOpen ''cmw-modelconsumer-ready COM_R1 /opt/com/util/comsa_mdf_consumer'') w)
               else w)\<lparr>maf_new_com_ha_state := MafMwSpiHaModeActive\<rparr>"
  let ?v = "snd (maf_call E ObjImp_init_imm ?u)"
  have u: "quiet w ?u" by (simp add: call_quiet quiet_refl)
  show ?thesis
  proof (cases "fst (maf_call E ObjImp_init_imm ?u) = MafFailure")
    case False
    have v: "quiet ?u ?v" using False by (simp add: maf_call_def responds_def is_response_def Let_def)
    have "v = (if cc_name ?v \<noteq> ''lm'' then open_logs E ?v else ?v)"
      using False assms unfolding csi_set_active_def Let_def case_prod_beta by simp
    then show ?thesis using quiet_trans [OF u v] trans_quiet [OF _ open_logs_quiet] by simp
  next
    case True
    have f: "responds (\<lambda>_. 0) [objimp_failed] w ?v"
      by (rule quiet_trans [OF u]) (use True in \<open>simp add: maf_call_def responds_def is_response_def objimp_failed_def Let_def\<close>)
    obtain p y where y: "maf_new_event E EVENT_prepareTerminationResponse iv 0 ?v = Inr (p, y)"
      "v = (if cc_name y \<noteq> ''lm'' then open_logs E (void_call (PrepareTermination p) y) else void_call (PrepareTermination p) y)"
      using assms True unfolding csi_set_active_def Let_def case_prod_beta by (auto simp: ebind_Inr void_call_def split: if_splits)
    let ?x = "void_call (PrepareTermination p) y"
    have "termination_asked E iv w ?x" using f y(1)
      by (auto simp: termination_asked_def responds_def new_event_Inr void_call_def terminate_event_def is_response_def objimp_failure_def ntf_failure_def)
    then show ?thesis using y(2) open_logs_quiet [of ?x E] open_logs_tr [of ?x E]
      by (auto simp: termination_asked_def responds_def)
  qed
qed

lemma csi_prepare_mode:
  assumes "csi_set_prepare E iv h t w = Inr (reason, v)"
  shows "maf_new_com_ha_state v = mode_of h" "maf_com_ha_state v = maf_com_ha_state w"
    "quiet w v \<or> h = SA_AMF_HA_ACTIVE \<and> termination_asked E iv w v"
proof -
  have act: "maf_new_com_ha_state v = MafMwSpiHaModeActive \<and> maf_com_ha_state v = maf_com_ha_state w"
    if "csi_set_active E iv t w = Inr (reason, v)"
    using that by (auto simp: csi_set_active_def open_logs_def num_call_def maf_call_def void_call_def ebind_Inr new_event_Inr
        Let_def case_prod_beta split: if_splits)
  have "maf_new_com_ha_state v = mode_of h \<and> maf_com_ha_state v = maf_com_ha_state w"
    using assms act
    by (cases h) (auto simp: csi_set_prepare_def mode_of_def csi_set_standby_def csi_set_quiesced_def
      csi_set_quiescing_def removeSecretAttrFile_def num_call_def str_call_def void_call_def Let_def)
  then show "maf_new_com_ha_state v = mode_of h" "maf_com_ha_state v = maf_com_ha_state w" by simp_all
  show "quiet w v \<or> h = SA_AMF_HA_ACTIVE \<and> termination_asked E iv w v"
    using assms csi_active_failed [of E iv t w reason v] csi_set_standby_quiet [of w E]
      csi_set_quiesced_quiet [of w E] csi_set_quiescing_quiet [of w E]
    by (cases h) (auto simp: csi_set_prepare_def split: prod.splits)
qed

lemma response_wrapper_tr: "saAmfResponse_wrapper E iv e w = Inr (u, w') \<Longrightarrow> set (tr w) \<subseteq> set (tr w')"
proof -
  have "retry P n (sa_call E c) (void_call (Sleep 2)) w = (rc, x) \<Longrightarrow> set (tr w) \<subseteq> set (tr x)" for P n c rc x w
    by (induction n arbitrary: w) (fastforce simp: sa_call_def void_call_def Let_def split: if_splits)+
  then show "saAmfResponse_wrapper E iv e w = Inr (u, w') \<Longrightarrow> set (tr w) \<subseteq> set (tr w')"
    by (auto simp: saAmfResponse_wrapper_def saf_api_call_def split: prod.splits if_splits)
qed

text \<open>The second half of the call-back.\<close>

lemma csi_same_ends:
  assumes "csi_same_state E iv h v = Inr (u, w')"
  shows "maf_new_com_ha_state w' = maf_new_com_ha_state v \<and> maf_com_ha_state w' = maf_com_ha_state v \<and> failed (tr w') = failed (tr v) \<and>
    set (tr v) \<subseteq> set (tr w') \<and> evs w' = evs v \<and> accepted iv (tr w') = Suc (accepted iv (tr v))"
proof -
  obtain x where x: "saAmfResponse_wrapper E iv SA_AIS_OK v = Inr ((), x)"
    "w' = x \<or> w' = snd (sa_call E (SaAmfCSIQuiescingComplete iv SA_AIS_OK) x)"
    using assms by (auto simp: csi_same_state_def ebind_Inr Let_def case_prod_beta split: if_splits)
  show ?thesis using x(2) response_wrapper_answers [OF x(1)] response_keeps [OF x(1)] response_wrapper_tr [OF x(1)]
    by (auto simp: answers_def one_def sa_call_def Let_def is_response_def objimp_failure_def ntf_failure_def)
qed

lemma csi_ask_ends:
  assumes "csi_ask_com E iv h reason v = Inr (u, w')"
  shows "maf_new_com_ha_state w' = maf_new_com_ha_state v \<and> maf_com_ha_state w' = maf_com_ha_state v \<and> failed (tr w') = failed (tr v) \<and>
    set (tr v) \<subseteq> set (tr w') \<and> last (tr w') = (SetHaMode (ebrk v) (maf_new_com_ha_state v) reason, Void) \<and>
    (\<exists>ev. evs w' = (evs v)(ebrk v \<mapsto> ev) \<and> event_type ev = EVENT_haModeAssumed \<and> saf_invokation ev = iv)"
proof -
  obtain x p y fl where x: "x = v \<or> saAmfResponse_wrapper E iv SA_AIS_OK v = Inr ((), x)"
    "maf_new_event E EVENT_haModeAssumed iv fl x = Inr (p, y)" "w' = void_call (SetHaMode p (maf_new_com_ha_state y) reason) y"
    using assms by (auto simp: csi_ask_com_def ebind_Inr split: if_splits)
  have v: "ebrk x = ebrk v" "evs x = evs v" "maf_new_com_ha_state x = maf_new_com_ha_state v" "maf_com_ha_state x = maf_com_ha_state v"
    "failed (tr x) = failed (tr v)" "set (tr v) \<subseteq> set (tr x)"
    using x(1) response_keeps [of E iv SA_AIS_OK v "()" x] response_wrapper_answers [of E iv SA_AIS_OK v "()" x]
      response_wrapper_tr [of E iv SA_AIS_OK v "()" x] by (auto simp: answers_def)
  show ?thesis using x(2,3) v by (auto simp: new_event_Inr void_call_def objimp_failure_def ntf_failure_def)
qed

text \<open>
  C30. A CSI assignment maps the HA state of AMF to the mode of COM, and does not change the mode
  that is in force, which waits for COM's answer.  If COM is already in that mode, AMF gets its
  response at once and COM is not asked for a mode; otherwise the last thing done is to ask COM for exactly
  that mode, under the address of the new event.  No other event is made, unless the object implementer
  does not start, which only happens when the assignment is active: then COM is asked to prepare the termination
  first, with an event of its own for the same assignment.
\<close>

theorem csi_assignment_modes:
  assumes "maf_acCallbacks w \<noteq> None"
    and "maf_amf_csi_set_callback E iv h t w = Inr (u, w')"
  shows "maf_new_com_ha_state w' = mode_of h \<and> maf_com_ha_state w' = maf_com_ha_state w \<and>
    (\<exists>f. failed (tr w') = failed (tr w) @ f \<and>
      (f = [] \<or> f = [objimp_failed] \<and> h = SA_AMF_HA_ACTIVE \<and> (PrepareTermination (ebrk w), Void) \<in> set (tr w')) \<and>
      (let before = (if f = [] then evs w else (evs w)(ebrk w \<mapsto> terminate_event E iv)); p = ebrk w + length f
       in if maf_com_ha_state w = mode_of h then evs w' = before \<and> accepted iv (tr w') = Suc (accepted iv (tr w))
          else \<exists>reason ev. last (tr w') = (SetHaMode p (mode_of h) reason, Void) \<and> evs w' = before(p \<mapsto> ev) \<and>
            event_type ev = EVENT_haModeAssumed \<and> saf_invokation ev = iv))"
proof -
  obtain reason v where v: "csi_set_prepare E iv h t w = Inr (reason, v)"
    and rest: "(if maf_acCallbacks v = None \<or> maf_com_ha_state v = maf_new_com_ha_state v
       then csi_same_state E iv h v else csi_ask_com E iv h reason v) = Inr (u, w')"
    using assms(2) unfolding maf_amf_csi_set_callback_def ebind_Inr by auto
  note m = csi_prepare_mode(1,2) [OF v]
  define f where "f = (if quiet w v then [] else [objimp_failed])"
  define before where "before = (if f = [] then evs w else (evs w)(ebrk w \<mapsto> terminate_event E iv))"
  have q: "failed (tr v) = failed (tr w) @ f" "evs v = before" "ebrk v = ebrk w + length f" "maf_acCallbacks v = maf_acCallbacks w"
    "accepted iv (tr v) = accepted iv (tr w)"
    "f = [] \<or> f = [objimp_failed] \<and> h = SA_AMF_HA_ACTIVE \<and> (PrepareTermination (ebrk w), Void) \<in> set (tr v)"
    using csi_prepare_mode(3) [OF v] by (auto simp: f_def before_def termination_asked_def responds_def)
  show ?thesis
  proof (cases "maf_com_ha_state w = mode_of h")
    case True
    then have "csi_same_state E iv h v = Inr (u, w')" using rest m by simp
    from csi_same_ends [OF this] show ?thesis
      unfolding before_def [symmetric] using True m q by (intro conjI exI [of _ f]) (auto simp: before_def Let_def)
  next
    case False
    then have "csi_ask_com E iv h reason v = Inr (u, w')" using rest m assms(1) q(4) by simp
    from csi_ask_ends [OF this] obtain ev where *: "maf_new_com_ha_state w' = mode_of h" "maf_com_ha_state w' = maf_com_ha_state w"
      "failed (tr w') = failed (tr w) @ f" "set (tr v) \<subseteq> set (tr w')"
      "last (tr w') = (SetHaMode (ebrk w + length f) (mode_of h) reason, Void)"
      "evs w' = before(ebrk w + length f \<mapsto> ev)" "event_type ev = EVENT_haModeAssumed" "saf_invokation ev = iv"
      using q(1-3) m by auto
    then show ?thesis using q(6) False by (intro conjI exI [of _ f]) (auto simp: before_def Let_def)
  qed
qed

theorem csi_assignment_modes_witness:
  "\<exists>w'. maf_amf_csi_set_callback ok_env 4 SA_AMF_HA_STANDBY SA_AMF_CSI_NEW_ASSIGN (ac_start ''lm'') = Inr ((), w') \<and>
     maf_new_com_ha_state w' = MafMwSpiHaModeStandby \<and> maf_com_ha_state w' = MafMwSpiHaModeUnassigned"
proof -
  have cb: "maf_acCallbacks (ac_start ''lm'') \<noteq> None" by (simp add: ac_start_def)
  obtain w' where w': "maf_amf_csi_set_callback ok_env 4 SA_AMF_HA_STANDBY SA_AMF_CSI_NEW_ASSIGN (ac_start ''lm'') = Inr ((), w')"
    by (simp add: maf_amf_csi_set_callback_def csi_set_prepare_def csi_set_standby_def csi_ask_com_def
        maf_new_event_def ac_start_def ok_env_def Let_def ret_def)
  from csi_assignment_modes [OF cb w'] w' show ?thesis by (auto simp: mode_of_def ac_start_def)
qed

text \<open>
  COM's answer to a mode change commits it exactly when it is positive: then the mode in force
  becomes the requested one, otherwise it stays, whether the process goes on or ends.
\<close>

theorem ha_mode_commit:
  "maf_com_ha_state (final (maf_coremw_haModeAssumed_event E ev w)) =
     (if ev_error ev = MafOk then maf_new_com_ha_state w else maf_com_ha_state w)"
proof -
  have wr: "maf_com_ha_state (final (saAmfResponse_wrapper E iv e v)) = maf_com_ha_state v" for iv e v
  proof -
    obtain rc x where rc: "saf_api_call E (SaAmfResponse iv e) v = (rc, x)" by fastforce
    have "\<And>a. a \<noteq> Sa SA_AIS_OK \<Longrightarrow> \<not> is_response 0 (SaAmfResponse iv e, a)" by (simp add: is_response_def)
    from saf_retry_quiet [OF this, of 10 E v rc x] rc show ?thesis
      by (auto simp: saAmfResponse_wrapper_def saf_api_call_def)
  qed
  have hl: "maf_com_ha_state (snd (handshake_loop E cmd n r v)) = maf_com_ha_state v" for cmd n r v
  proof (induction n arbitrary: r v)
    case (Suc n)
    then show ?case by (auto simp: handshake_loop.simps [of E cmd "Suc n"] num_call_def void_call_def Let_def)
  qed (simp add: handshake_loop.simps)
  have hs: "maf_com_ha_state (handshakeToComsaMimTool E v) = maf_com_ha_state v" for v
    by (simp add: handshakeToComsaMimTool_def str_call_def num_call_def Let_def hl)
  have nt: "maf_com_ha_state (snd (start_ntf_thread E v)) = maf_com_ha_state v" for v
    by (simp add: start_ntf_thread_def num_call_def Let_def)
  show ?thesis
    by (simp add: maf_coremw_haModeAssumed_event_def Let_def case_prod_beta wr hs nt sa_call_def split: if_splits)
qed


section \<open>Where the ledger does not balance\<close>

text \<open>
  When the object implementer cannot be initialized on the way to ACTIVE, the request gets
  two events: COM is asked to prepare for termination and is asked for the mode ACTIVE as well,
  each under its own invocation, so AMF is to be answered twice.
\<close>

theorem failed_objimp_doubles_request:
  assumes "\<forall>t. maf_answer E t ObjImp_init_imm = MafFailure" "system_ok E"
    and "maf_acCallbacks w \<noteq> None" "maf_com_ha_state w \<noteq> MafMwSpiHaModeActive"
  shows "\<exists>w'. maf_amf_csi_set_callback E iv SA_AMF_HA_ACTIVE t w = Inr ((), w') \<and>
    (\<exists>a b. a \<noteq> b \<and> map_option saf_invokation (evs w' a) = Some iv \<and> map_option saf_invokation (evs w' b) = Some iv \<and>
      (PrepareTermination a, Void) \<in> set (tr w') \<and>
      (\<exists>r. last (tr w') = (SetHaMode b MafMwSpiHaModeActive r, Void)))"
proof -
  have m: "\<not> malloc_fails E t" for t using assms(2) by (simp add: system_ok_def)
  let ?u = "(if cc_name w \<noteq> ''lm'' then
                 snd (num_call E (ProcessOpen ''cmw-modelconsumer-ready COM_R1 /opt/com/util/comsa_mdf_consumer'') w)
               else w)\<lparr>maf_new_com_ha_state := MafMwSpiHaModeActive\<rparr>"
  let ?v = "snd (maf_call E ObjImp_init_imm ?u)"
  have f: "fst (maf_call E ObjImp_init_imm ?u) = MafFailure" using assms(1) by (simp add: maf_call_def Let_def)
  have v: "maf_acCallbacks ?v = maf_acCallbacks w" "maf_com_ha_state ?v = maf_com_ha_state w"
    "maf_new_com_ha_state ?v = MafMwSpiHaModeActive"
    by (simp_all add: num_call_def maf_call_def Let_def)
  let ?ev = "(fresh_event E)\<lparr>event_type := EVENT_prepareTerminationResponse, saf_invokation := iv, flags := 0\<rparr>"
  let ?y = "void_call (PrepareTermination (ebrk ?v)) (?v\<lparr>ebrk := Suc (ebrk ?v), evs := (evs ?v)(ebrk ?v \<mapsto> ?ev)\<rparr>)"
  let ?z = "if cc_name ?y \<noteq> ''lm'' then open_logs E ?y else ?y"
  obtain reason where p: "csi_set_prepare E iv SA_AMF_HA_ACTIVE t w = Inr (reason, ?z)"
    using f m v assms(3) unfolding csi_set_prepare_def csi_set_active_def Let_def case_prod_beta
    by (simp add: maf_new_event_def ret_def)
  have z: "evs ?z = evs ?y" "ebrk ?z = Suc (ebrk ?v)" "maf_acCallbacks ?z = maf_acCallbacks w"
    "maf_com_ha_state ?z = maf_com_ha_state w" "maf_new_com_ha_state ?z = MafMwSpiHaModeActive"
    "(PrepareTermination (ebrk ?v), Void) \<in> set (tr ?z)"
    using v by (simp_all add: open_logs_def maf_call_def void_call_def Let_def)
  have "\<exists>w'. csi_ask_com E iv SA_AMF_HA_ACTIVE reason ?z = Inr ((), w') \<and>
      evs w' = (evs ?z)(ebrk ?z \<mapsto> (fresh_event E)\<lparr>event_type := EVENT_haModeAssumed, saf_invokation := iv, flags := 0\<rparr>) \<and>
      tr w' = tr ?z @ [(SetHaMode (ebrk ?z) MafMwSpiHaModeActive reason, Void)]"
    using m z(5) by (simp add: csi_ask_com_def maf_new_event_def void_call_def ret_def)
  then obtain w' where w': "csi_ask_com E iv SA_AMF_HA_ACTIVE reason ?z = Inr ((), w')"
      "evs w' = (evs ?z)(ebrk ?z \<mapsto> (fresh_event E)\<lparr>event_type := EVENT_haModeAssumed, saf_invokation := iv, flags := 0\<rparr>)"
      "tr w' = tr ?z @ [(SetHaMode (ebrk ?z) MafMwSpiHaModeActive reason, Void)]" by blast
  have "maf_amf_csi_set_callback E iv SA_AMF_HA_ACTIVE t w = Inr ((), w')"
    unfolding maf_amf_csi_set_callback_def p using z(3-5) assms(3,4) w'(1) by (simp del: not_None_eq)
  moreover have "evs ?z (ebrk ?v) = Some ?ev" "ebrk ?z \<noteq> ebrk ?v" using z(1,2) by (simp_all add: void_call_def)
  ultimately show ?thesis using w'(2,3) z(6)
    by (intro exI [of _ w'] conjI exI [of _ "ebrk ?v"] exI [of _ "ebrk ?z"]) auto
qed

definition failing_env :: "ac_env" where
  "failing_env = ok_env\<lparr>maf_answer := \<lambda>t c. if c = ObjImp_init_imm then MafFailure else MafOk,
     num_answer := \<lambda>t c. if c = PthreadCreate NtfThread then 11 else 0\<rparr>"

theorem failed_objimp_doubles_request_witness:
  "\<exists>w' a b. maf_amf_csi_set_callback failing_env 4 SA_AMF_HA_ACTIVE SA_AMF_CSI_NEW_ASSIGN (ac_start ''com'') = Inr ((), w') \<and>
     a \<noteq> b \<and> map_option saf_invokation (evs w' a) = Some 4 \<and> map_option saf_invokation (evs w' b) = Some 4"
proof -
  have "\<forall>t. maf_answer failing_env t ObjImp_init_imm = MafFailure" "system_ok failing_env"
    using ok_env_ok(1) by (simp_all add: failing_env_def system_ok_def)
  from failed_objimp_doubles_request [OF this, of "ac_start ''com''" 4 SA_AMF_CSI_NEW_ASSIGN] show ?thesis
    by (auto simp: ac_start_def)
qed

text \<open>
  When the NTF thread cannot be created, COM's positive answer to ACTIVE is dropped: the mode
  ACTIVE is in force, the function returns, and AMF never gets a response for the request.
\<close>

theorem failed_ntf_thread_drops_response:
  assumes "ev_error ev = MafOk" "maf_new_com_ha_state w = MafMwSpiHaModeActive"
    and "\<forall>t. num_answer E t (PthreadCreate NtfThread) \<noteq> 0"
  shows "\<exists>w'. maf_coremw_haModeAssumed_event E ev w = Inr ((), w') \<and>
    maf_com_ha_state w' = MafMwSpiHaModeActive \<and> (\<forall>iv. accepted iv (tr w') = accepted iv (tr w))"
proof -
  let ?w = "w\<lparr>maf_com_ha_state := maf_new_com_ha_state w\<rparr>"
  let ?v = "snd (start_ntf_thread E ?w)"
  have "\<not> fst (start_ntf_thread E ?w)" using assms(3) by (simp add: start_ntf_thread_def num_call_def Let_def)
  then have "maf_coremw_haModeAssumed_event E ev w = Inr ((), ?v)"
    using assms(1,2) by (simp add: maf_coremw_haModeAssumed_event_def Let_def case_prod_beta ret_def)
  moreover have "maf_com_ha_state ?v = MafMwSpiHaModeActive" using assms(2)
    by (simp add: start_ntf_thread_def num_call_def Let_def)
  ultimately show ?thesis using start_ntf_cases [of ?w E] by (auto simp: responds_def)
qed

theorem failed_ntf_thread_drops_response_witness:
  "\<exists>w'. maf_coremw_haModeAssumed_event failing_env
       (some_event\<lparr>event_type := EVENT_haModeAssumed, saf_invokation := 4, flags := 0, ev_error := MafOk\<rparr>)
       ((ac_start ''com'')\<lparr>maf_new_com_ha_state := MafMwSpiHaModeActive\<rparr>) = Inr ((), w') \<and>
     maf_com_ha_state w' = MafMwSpiHaModeActive \<and> accepted 4 (tr w') = 0"
  using failed_ntf_thread_drops_response
    [of "some_event\<lparr>event_type := EVENT_haModeAssumed, saf_invokation := 4, flags := 0, ev_error := MafOk\<rparr>"
        "(ac_start ''com'')\<lparr>maf_new_com_ha_state := MafMwSpiHaModeActive\<rparr>" failing_env]
  by (auto simp: failing_env_def ac_start_def)

text \<open>
  The NTF thread is started on every move to ACTIVE, also when it is still running from an
  earlier one: nothing stops it when COM leaves ACTIVE, so after a second move two threads serve
  the same poll handle and only the last can be joined.
\<close>

theorem second_active_starts_second_thread:
  assumes "threads_ok E"
  shows "\<exists>w'. start_ntf_thread E w = (True, w') \<and> ntf_pthread_isrunning w' \<and>
    (PthreadCreate NtfThread, Num 0) \<in> set (drop (length (tr w)) (tr w')) \<and>
    (\<forall>r. (PthreadJoin NtfThread, r) \<notin> set (drop (length (tr w)) (tr w')))"
  using assms by (simp add: start_ntf_thread_def num_call_def threads_ok_def Let_def)

theorem second_active_starts_second_thread_witness:
  "\<exists>w'. start_ntf_thread ok_env ((ac_start ''com'')\<lparr>ntf_pthread_isrunning := True\<rparr>) = (True, w') \<and>
     (PthreadCreate NtfThread, Num 0) \<in> set (tr w')"
  using second_active_starts_second_thread [OF ok_env_ok(3), of "(ac_start ''com'')\<lparr>ntf_pthread_isrunning := True\<rparr>"]
  by (auto simp: ac_start_def)

end
