(* ===== verification/AcStart.thy ===== *)
theory AcStart
  imports AcContract
begin

text \<open>
  Properties of the calls of \<open>ComSAAc.c\<close> that repeat, set up, load and unload: how often a call is
  tried, in which order and with which results the AMF thread and the library start, what the
  configuration look-up finds.
\<close>

section \<open>Repeated calls\<close>

definition tries :: "xcall \<Rightarrow> nat \<Rightarrow> SaAisErrorT \<Rightarrow> (xcall \<times> answer) list" where
  "tries c k rc = concat (replicate k [(c, Sa SA_AIS_ERR_TRY_AGAIN), (Sleep 2, Void)]) @ [(c, Sa rc)]"

lemma retry_tries:
  "\<exists>k rc. retry (\<lambda>r. r = SA_AIS_ERR_TRY_AGAIN) n (sa_call E c) (void_call (Sleep 2)) w
      = (rc, w\<lparr>tr := tr w @ tries c k rc\<rparr>) \<and> k \<le> n \<and> (rc = SA_AIS_ERR_TRY_AGAIN \<longrightarrow> k = n)"
proof (induction n arbitrary: w)
  case 0
  then show ?case by (intro exI [of _ 0] exI [of _ "sa_answer E (tr w) c"]) (simp add: sa_call_def tries_def Let_def)
next
  case (Suc n)
  let ?r = "sa_answer E (tr w) c"
  have call: "sa_call E c w = (?r, w\<lparr>tr := tr w @ [(c, Sa ?r)]\<rparr>)" by (simp add: sa_call_def Let_def)
  show ?case
  proof (cases "?r = SA_AIS_ERR_TRY_AGAIN")
    case True
    let ?v = "w\<lparr>tr := tr w @ [(c, Sa ?r), (Sleep 2, Void)]\<rparr>"
    have v: "void_call (Sleep 2) (w\<lparr>tr := tr w @ [(c, Sa ?r)]\<rparr>) = ?v" by (simp add: void_call_def)
    from Suc.IH [of ?v] obtain k rc where
      "retry (\<lambda>r. r = SA_AIS_ERR_TRY_AGAIN) n (sa_call E c) (void_call (Sleep 2)) ?v = (rc, ?v\<lparr>tr := tr ?v @ tries c k rc\<rparr>)"
      "k \<le> n" "rc = SA_AIS_ERR_TRY_AGAIN \<longrightarrow> k = n" by blast
    then show ?thesis using True call v
      by (intro exI [of _ "Suc k"] exI [of _ rc]) (simp add: tries_def)
  next
    case False
    then show ?thesis using call by (intro exI [of _ 0] exI [of _ ?r]) (simp add: tries_def)
  qed
qed

text \<open>
  \<open>SAF_API_CALL\<close> makes at most eleven calls, two seconds apart, stops at the first answer
  other than "try again", and gives "try again" back only if all eleven calls answered so.
\<close>

theorem saf_call_tries:
  "\<exists>k rc. saf_api_call E c w = (rc, w\<lparr>tr := tr w @ tries c k rc\<rparr>) \<and> k \<le> 10 \<and>
     (rc = SA_AIS_ERR_TRY_AGAIN \<longrightarrow> k = 10)"
  unfolding saf_api_call_def by (rule retry_tries)

definition busy_env :: "ac_env" where
  "busy_env = ok_env\<lparr>sa_answer := \<lambda>t c. SA_AIS_ERR_TRY_AGAIN\<rparr>"

theorem saf_call_tries_witness:
  "saf_api_call busy_env SaAmfDispatch (ac_start ''com'') =
     (SA_AIS_ERR_TRY_AGAIN,
      (ac_start ''com'')\<lparr>tr := tr (ac_start ''com'') @ tries SaAmfDispatch 10 SA_AIS_ERR_TRY_AGAIN\<rparr>)"
proof -
  have "fst (saf_api_call busy_env SaAmfDispatch (ac_start ''com'')) = SA_AIS_ERR_TRY_AGAIN"
    by (simp add: saf_api_call_def numeral_eq_Suc sa_call_def Let_def busy_env_def)
  with saf_call_tries [of busy_env SaAmfDispatch "ac_start ''com''"] show ?thesis by auto
qed

lemma saf_tries:
  assumes "saf_api_call E c w = (rc, w')"
  shows "\<exists>k. w' = w\<lparr>tr := tr w @ tries c k rc\<rparr>"
  using retry_tries [of 10 E c w] assms by (auto simp: saf_api_call_def)

section \<open>The AMF thread\<close>

lemma amf_setup_trace:
  "\<exists>t. tr (final (amf_setup E cs w)) = tr w @ t \<and>
     (case amf_setup E cs w of Inl (f, w') \<Rightarrow> f = Quit \<and> (\<exists>r. (SaAmfFinalize, r) \<in> set t)
      | Inr (u, w') \<Rightarrow> \<forall>c \<in> set cs. (c, Sa SA_AIS_OK) \<in> set t)"
proof (induction cs arbitrary: w)
  case (Cons c cs)
  obtain rc v where v: "saf_api_call E c w = (rc, v)" by fastforce
  obtain k where k: "v = w\<lparr>tr := tr w @ tries c k rc\<rparr>" using saf_tries [OF v] by blast
  show ?case
  proof (cases "rc = SA_AIS_OK")
    case True
    from Cons.IH [of v] obtain t where t: "tr (final (amf_setup E cs v)) = tr v @ t"
      "case amf_setup E cs v of Inl (f, w') \<Rightarrow> f = Quit \<and> (\<exists>r. (SaAmfFinalize, r) \<in> set t)
      | Inr (u, w') \<Rightarrow> \<forall>c \<in> set cs. (c, Sa SA_AIS_OK) \<in> set t" by blast
    have "amf_setup E (c # cs) w = amf_setup E cs v" using v True by simp
    moreover have "(c, Sa SA_AIS_OK) \<in> set (tries c k rc)" using True by (simp add: tries_def)
    ultimately show ?thesis using t k by (intro exI [of _ "tries c k rc @ t"]) (auto split: sum.splits)
  next
    case False
    obtain rc' x where x: "saf_api_call E SaAmfFinalize v = (rc', x)" by fastforce
    obtain j where j: "x = v\<lparr>tr := tr v @ tries SaAmfFinalize j rc'\<rparr>" using saf_tries [OF x] by blast
    have r: "amf_setup E (c # cs) w = Inl (Quit, x)" using v x False by (simp add: halt_def)
    have "\<exists>r. (SaAmfFinalize, r) \<in> set (tries c k rc @ tries SaAmfFinalize j rc')" by (auto simp: tries_def)
    then show ?thesis unfolding r using k j
      by (intro exI [of _ "tries c k rc @ tries SaAmfFinalize j rc'"]) simp
  qed
qed (simp add: ret_def)

lemma amf_setup_world: "amf_setup E cs w = Inr (u, v) \<Longrightarrow> \<exists>t. v = w\<lparr>tr := t\<rparr>"
proof (induction cs arbitrary: w)
  case Nil
  then show ?case by (auto intro: exI [of _ "tr w"])
next
  case (Cons c cs)
  obtain rc x where x: "saf_api_call E c w = (rc, x)" by fastforce
  with Cons.prems have "amf_setup E cs x = Inr (u, v)" by (simp split: if_splits)
  with Cons.IH saf_tries [OF x] show ?case by fastforce
qed

text \<open>
  The AMF thread starts serving only if all five set-up calls were accepted in the end;
  otherwise it tries to finalize its AMF handle and ends the process through \<open>err_quit\<close>.
\<close>

theorem amf_setup_all_or_quit:
  "case amf_setup E (amf_setup_calls w) w of
     Inl (f, w') \<Rightarrow> f = Quit \<and> (\<exists>r. (SaAmfFinalize, r) \<in> set (drop (length (tr w)) (tr w')))
   | Inr (u, w') \<Rightarrow> \<forall>c \<in> {SaAmfInitialize, SaAmfSelectionObjectGet, SaAmfComponentNameGet, SaAmfComponentRegister}.
        (c, Sa SA_AIS_OK) \<in> set (drop (length (tr w)) (tr w'))"
proof -
  obtain t where t: "tr (final (amf_setup E (amf_setup_calls w) w)) = tr w @ t"
     "case amf_setup E (amf_setup_calls w) w of Inl (f, w') \<Rightarrow> f = Quit \<and> (\<exists>r. (SaAmfFinalize, r) \<in> set t)
      | Inr (u, w') \<Rightarrow> \<forall>c \<in> set (amf_setup_calls w). (c, Sa SA_AIS_OK) \<in> set t"
    using amf_setup_trace [of E "amf_setup_calls w" w] by blast
  have "{SaAmfInitialize, SaAmfSelectionObjectGet, SaAmfComponentNameGet, SaAmfComponentRegister} \<subseteq> set (amf_setup_calls w)"
    by (simp add: amf_setup_calls_def)
  with t show ?thesis by (cases "amf_setup E (amf_setup_calls w) w") auto
qed

theorem amf_setup_all_or_quit_witness:
  "\<exists>w'. amf_setup ok_env (amf_setup_calls (ac_start ''com'')) (ac_start ''com'') = Inr ((), w') \<and>
     (SaAmfComponentRegister, Sa SA_AIS_OK) \<in> set (tr w')"
proof -
  have "\<exists>w'. amf_setup ok_env (amf_setup_calls (ac_start ''com'')) (ac_start ''com'') = Inr ((), w')"
    by (simp add: amf_setup_calls_def saf_api_call_def numeral_eq_Suc sa_call_def Let_def ok_env_def ret_def)
  with amf_setup_all_or_quit [where E = ok_env and w = "ac_start ''com''"] show ?thesis by (auto simp: ac_start_def)
qed

text \<open>
  The stop flag is never cleared: if the component is stopped and \<open>acInitialize\<close> is called
  again, the new AMF thread registers with AMF and leaves without serving a single event.
\<close>

theorem restarted_thread_serves_nothing:
  assumes "stop_thread w"
  shows "maf_amf_thread E ps (snd (maf_coremw_acInitialize E cb w)) =
    maf_amf_thread E [] (snd (maf_coremw_acInitialize E cb w))"
proof -
  let ?w = "snd (maf_coremw_acInitialize E cb w)"
  have "stop_thread ?w" using assms by (simp add: maf_coremw_acInitialize_def num_call_def Let_def)
  then have "stop_thread v" if "amf_setup E cs ?w = Inr (u, v)" for cs u v
    using amf_setup_world [OF that] by auto
  moreover have "amf_loop E ps v = amf_loop E [] v" if "stop_thread v" for v using that by (cases ps) auto
  ultimately show ?thesis by (auto simp: maf_amf_thread_def split: sum.splits)
qed

theorem restarted_thread_serves_nothing_witness:
  "maf_amf_thread ok_env [\<lparr>pp_rc = 0, pp_amf = Some [Healthcheck 3], pp_events = True\<rparr>]
     (snd (maf_coremw_acInitialize ok_env (Some 1) ((ac_start ''lm'')\<lparr>stop_thread := True\<rparr>))) =
   maf_amf_thread ok_env [] (snd (maf_coremw_acInitialize ok_env (Some 1) ((ac_start ''lm'')\<lparr>stop_thread := True\<rparr>)))"
  by (rule restarted_thread_serves_nothing) simp

section \<open>Return codes\<close>

text \<open>
  \<open>maf_coremw_rc\<close> gives \<open>MafOk\<close> for \<open>SA_AIS_OK\<close> only and "try again" for "try again"
  only; the other codes that are not a plain failure come from exactly the listed causes, and a
  value outside the enumeration is a failure.
\<close>

theorem maf_coremw_rc_table:
  "(maf_coremw_rc rc = MafOk \<longleftrightarrow> rc = SA_AIS_OK) \<and>
   (maf_coremw_rc rc = MafTryAgain \<longleftrightarrow> rc = SA_AIS_ERR_TRY_AGAIN) \<and>
   (maf_coremw_rc rc = MafTimeOut \<longleftrightarrow> rc = SA_AIS_ERR_TIMEOUT) \<and>
   (maf_coremw_rc rc = MafAlreadyExist \<longleftrightarrow> rc = SA_AIS_ERR_EXIST) \<and>
   (maf_coremw_rc rc = MafNotExist \<longleftrightarrow> rc \<in> {SA_AIS_ERR_NOT_EXIST, SA_AIS_ERR_NAME_NOT_FOUND}) \<and>
   (maf_coremw_rc rc = MafNoResources \<longleftrightarrow> rc \<in> {SA_AIS_ERR_NO_MEMORY, SA_AIS_ERR_NO_SPACE, SA_AIS_ERR_QUEUE_FULL})"
  by (cases rc) simp_all

section \<open>The hand-shake\<close>

lemma handshake_loop_count:
  "\<exists>k r' t. handshake_loop E cmd n r w = (r', w\<lparr>tr := tr w @ t\<rparr>) \<and> k \<le> n \<and>
     length (filter (\<lambda>p. fst p = ProcessOpen cmd) t) = k \<and> (r' = 1 \<longrightarrow> k = n) \<and>
     length (filter (\<lambda>p. fst p = Usleep 1000) t) = k"
proof (induction n arbitrary: r w)
  case 0
  then show ?case
    by (intro exI [of _ 0] exI [of _ r] exI [of _ "[]"]) (simp add: handshake_loop.simps)
next
  case (Suc n)
  show ?case
  proof (cases "r = 1")
    case True
    let ?v = "void_call (Usleep 1000) w"
    let ?r = "num_answer E (tr ?v) (ProcessOpen cmd)"
    let ?x = "?v\<lparr>tr := tr ?v @ [(ProcessOpen cmd, Num ?r)]\<rparr>"
    from Suc.IH [of ?r ?x] obtain k r' t where t: "handshake_loop E cmd n ?r ?x = (r', ?x\<lparr>tr := tr ?x @ t\<rparr>)"
      "k \<le> n" "length (filter (\<lambda>p. fst p = ProcessOpen cmd) t) = k" "r' = 1 \<longrightarrow> k = n"
      "length (filter (\<lambda>p. fst p = Usleep 1000) t) = k" by blast
    have "handshake_loop E cmd (Suc n) r w = handshake_loop E cmd n ?r ?x"
      using True by (simp add: handshake_loop.simps [of E cmd "Suc n"] num_call_def Let_def)
    then show ?thesis using t
      by (intro exI [of _ "Suc k"] exI [of _ r'] exI [of _ "[(Usleep 1000, Void), (ProcessOpen cmd, Num ?r)] @ t"])
        (simp add: void_call_def)
  next
    case False
    then show ?thesis
      by (intro exI [of _ 0] exI [of _ r] exI [of _ "[]"]) (simp add: handshake_loop.simps)
  qed
qed

text \<open>
  The hand-shake with the MIM tool runs its command at least once and at most 21 times, one
  millisecond apart, so it waits 20 milliseconds at most.
\<close>

theorem handshake_bounded:
  "\<exists>cmd t. tr (handshakeToComsaMimTool E w) = tr w @ t \<and>
     0 < length (filter (\<lambda>p. fst p = ProcessOpen cmd) t) \<and>
     length (filter (\<lambda>p. fst p = ProcessOpen cmd) t) \<le> 21 \<and> length (filter (\<lambda>p. fst p = Usleep 1000) t) \<le> 20"
proof -
  let ?d = "str_answer E (tr w) GetClearStorage"
  let ?v = "w\<lparr>tr := tr w @ [(GetClearStorage, Str ?d)]\<rparr>"
  let ?cmd = "''rm -rf '' @ (case ?d of None \<Rightarrow> [] | Some d \<Rightarrow> d) @ ''/comsa_for_coremw-apr9010555/pending_comsa_restart''"
  let ?r = "num_answer E (tr ?v) (ProcessOpen ?cmd)"
  let ?x = "?v\<lparr>tr := tr ?v @ [(ProcessOpen ?cmd, Num ?r)]\<rparr>"
  have e: "handshakeToComsaMimTool E w = snd (handshake_loop E ?cmd 20 ?r ?x)"
    by (simp add: handshakeToComsaMimTool_def str_call_def num_call_def Let_def)
  obtain k r' t where t: "handshake_loop E ?cmd 20 ?r ?x = (r', ?x\<lparr>tr := tr ?x @ t\<rparr>)" "k \<le> 20"
    "length (filter (\<lambda>p. fst p = ProcessOpen ?cmd) t) = k" "length (filter (\<lambda>p. fst p = Usleep 1000) t) = k"
    using handshake_loop_count [of E ?cmd 20 ?r ?x] by blast
  show ?thesis unfolding e t(1) using t(2-4)
    by (intro exI [of _ ?cmd] exI [of _ "[(GetClearStorage, Str ?d), (ProcessOpen ?cmd, Num ?r)] @ t"]) simp
qed


section \<open>Loading the library\<close>

text \<open>
  The decision on SSHD: when \<open>InitAmfSshdControl\<close> returns \<open>MafOk\<close>, the flag and the two
  files agree: the file of the side that does not control SSHD was removed first, and the file of
  the side that does was touched after it.
\<close>

theorem sshd_control_consistent:
  assumes "InitAmfSshdControl L s = (MafOk, s')"
  shows "\<exists>r. tr (ctl s') = tr (ctl s) @ (ProcessOpen ''is-com-sshd-flag-enabled.sh'', Num r) #
    (if comsa_sshd_control (ctl s')
     then [(ProcessOpen ''rm -f /opt/com/run/AMF_handles_SSHD'', Num 0), (ProcessOpen ''touch /opt/com/run/ComSA_handles_SSHD'', Num 0)]
     else [(ProcessOpen ''rm -f /opt/com/run/ComSA_handles_SSHD'', Num 0), (ProcessOpen ''touch /opt/com/run/AMF_handles_SSHD'', Num 0)]) \<and>
    (comsa_sshd_control (ctl s') \<longleftrightarrow> r \<noteq> 0)"
  using assms by (auto simp: InitAmfSshdControl_def two_commands_def lcm_num_def num_call_def Let_def split: if_splits)

definition ok_lcm_env :: "lcm_env" where
  "ok_lcm_env = \<lparr>aenv = ok_env, xml_parse = \<lambda>s. None, CC_NAME_define = ''COM''\<rparr>"

definition unloaded :: "lcm" where
  "unloaded = \<lparr>ctl = ac_start [], lib = False, audit_logging = False, rfc5424_open = False, rfc5424_close = False,
     portal_MAF = False, portal_3_1 = False, ctxt = False, doc = None, trace_v2 = False, cc_upper = None, cc_sa = None\<rparr>"

theorem sshd_control_consistent_witness:
  "\<exists>s'. InitAmfSshdControl ok_lcm_env unloaded = (MafOk, s') \<and> \<not> comsa_sshd_control (ctl s')"
proof -
  obtain s' where s': "InitAmfSshdControl ok_lcm_env unloaded = (MafOk, s')"
    "tr (ctl s') = (ProcessOpen ''is-com-sshd-flag-enabled.sh'', Num 0) #
      [(ProcessOpen ''rm -f /opt/com/run/ComSA_handles_SSHD'', Num 0), (ProcessOpen ''touch /opt/com/run/AMF_handles_SSHD'', Num 0)]"
    by (simp add: InitAmfSshdControl_def two_commands_def lcm_num_def num_call_def Let_def ok_lcm_env_def ok_env_def
        ok_num_def unloaded_def ac_start_def)
  from sshd_control_consistent [OF s'(1)] s' show ?thesis by (auto simp: unloaded_def ac_start_def)
qed

lemma lcm_maf_trace: "lcm_maf L c s = (r, s') \<Longrightarrow> tr (ctl s') = tr (ctl s) @ [(c, Maf r)] \<and> cc_name (ctl s') = cc_name (ctl s)"
  by (auto simp: lcm_maf_def maf_call_def Let_def)

lemma lcm_components_trace:
  "lcm_components L cs s = (r, s') \<Longrightarrow> \<exists>t. tr (ctl s') = tr (ctl s) @ t \<and> portal_MAF s' = portal_MAF s \<and>
    (r = MafOk \<longrightarrow> t = map (\<lambda>c. (c, Maf MafOk)) cs)"
proof (induction cs arbitrary: s)
  case (Cons c cs)
  obtain rc x where x: "lcm_maf L c s = (rc, x)" by fastforce
  then have t: "tr (ctl x) = tr (ctl s) @ [(c, Maf rc)]" "portal_MAF x = portal_MAF s"
    by (auto simp: lcm_maf_def maf_call_def Let_def)
  show ?case
  proof (cases "rc = MafOk")
    case True
    with Cons.prems x have "lcm_components L cs x = (r, s')" by simp
    from Cons.IH [OF this] t True show ?thesis by auto
  next
    case False
    with Cons.prems x t show ?thesis by auto
  qed
qed simp

lemma sshd_trace: "InitAmfSshdControl L s = (r, s') \<Longrightarrow> (\<exists>t. tr (ctl s') = tr (ctl s) @ t) \<and> portal_MAF s' = portal_MAF s"
  by (auto simp: InitAmfSshdControl_def two_commands_def lcm_num_def num_call_def Let_def split: if_splits)

text \<open>The order in which \<open>mafLCMinit\<close> initializes the parts of the component.\<close>

definition init_order :: "xcall list" where
  "init_order = [RegisterComponent, ComponentInit ''MwComponent'', ComponentInit ''OamComponent'',
     ComponentInit ''MgmtSpiThreadCont'', ComponentInit ''oamSAOiProxy'']"

lemma lcm_register_ok:
  assumes "lcm_register L s = (MafOk, s')"
  shows "portal_3_1 s' \<and> portal_MAF s' = portal_MAF s \<and>
    (\<exists>t. tr (ctl s') = tr (ctl s) @ map (\<lambda>c. (c, Maf MafOk)) init_order @ t)"
proof -
  obtain r x where x: "lcm_components L init_order s = (r, x)" by fastforce
  have r: "r = MafOk" using assms x by (auto simp: lcm_register_def init_order_def split: if_splits)
  from lcm_components_trace [OF x] r have t: "tr (ctl x) = tr (ctl s) @ map (\<lambda>c. (c, Maf MafOk)) init_order"
    "portal_MAF x = portal_MAF s" by auto
  let ?y = "lcm_void ClearOamContextTransactionMap (lcm_void SetUpInstanceModelConsumers x)"
  obtain q z where z: "(if cc_name (ctl ?y) \<noteq> ''lm'' then InitAmfSshdControl L ?y else (MafOk, ?y)) = (q, z)" by fastforce
  have "(if q \<noteq> MafOk then (q, z)
              else let (p, s) = lcm_num L (GetPortal ''3_1'') z; s = s\<lparr>portal_3_1 := p \<noteq> 0\<rparr>
                in (if p = 0 then MafFailure else MafOk, s)) = (MafOk, s')"
    using assms x r z unfolding lcm_register_def init_order_def by simp
  then have s': "q = MafOk" "portal_3_1 s'" "portal_MAF s' = portal_MAF z" "\<exists>a. tr (ctl s') = tr (ctl z) @ [a]"
    by (auto simp: lcm_num_def num_call_def Let_def split: if_splits)
  have "(\<exists>u. tr (ctl z) = tr (ctl ?y) @ u) \<and> portal_MAF z = portal_MAF ?y"
    using z sshd_trace [of L ?y q z] by (auto split: if_splits)
  moreover have "portal_MAF ?y = portal_MAF x" "\<exists>u. tr (ctl ?y) = tr (ctl x) @ u"
    by (simp_all add: lcm_void_def void_call_def)
  ultimately show ?thesis using s' t by auto
qed

text \<open>
  C31. \<open>mafLCMinit\<close> returns \<open>MafOk\<close> only after the component was registered with MAF and
  then the replicated list, the OAM part, the thread context and the OI proxy were initialized, all
  with \<open>MafOk\<close> and in this order, and both portals were found.  (A log or trace service that
  does not start is no obstacle.)
\<close>

theorem init_ok_means_registered:
  assumes "mafLCMinit L config s = Inr (MafOk, s')"
  shows "portal_MAF s' \<and> portal_3_1 s' \<and>
    (\<exists>t u. tr (ctl s') = t @ map (\<lambda>c. (c, Maf MafOk)) init_order @ u)"
proof -
  obtain x y where x: "lcm_open L (lcm_names L s) = Inr (None, x)" "lcm_config L config x = Inr ((), y)"
    "lcm_register L (lcm_services L y) = (MafOk, s')"
    using assms by (auto simp: mafLCMinit_def ebind_Inr lcm_open_def Let_def case_prod_beta split: option.splits if_splits)
  have "portal_MAF x" using x(1)
    by (auto simp: lcm_open_def Let_def case_prod_beta split: if_splits)
  moreover have "portal_MAF y = portal_MAF x" using x(2)
    by (auto simp: lcm_config_def lcm_num_def lcm_void_def Let_def case_prod_beta split: option.splits if_splits)
  moreover have "portal_MAF (lcm_services L y) = portal_MAF y"
    by (simp add: lcm_services_def lcm_maf_def lcm_void_def auditlogger_def Let_def case_prod_beta)
  ultimately show ?thesis using lcm_register_ok [OF x(3)] by blast
qed

theorem init_ok_means_registered_witness:
  "\<exists>s'. mafLCMinit ok_lcm_env None unloaded = Inr (MafOk, s') \<and> portal_3_1 s'"
proof -
  have "\<exists>s'. mafLCMinit ok_lcm_env None unloaded = Inr (MafOk, s')"
    by (simp add: mafLCMinit_def lcm_open_def lcm_names_def lcm_config_def lcm_services_def lcm_register_def
        load_logger_library_def InitAmfSshdControl_def two_commands_def auditlogger_def
        lcm_num_def lcm_maf_def lcm_str_def lcm_void_def num_call_def maf_call_def str_call_def void_call_def
        Let_def ok_lcm_env_def ok_env_def ok_num_def unloaded_def ac_start_def to_lower_def ret_def)
  with init_ok_means_registered show ?thesis by blast
qed

lemma find_split: "find P xs = Some x \<longleftrightarrow> (\<exists>us vs. xs = us @ x # vs \<and> (\<forall>u \<in> set us. \<not> P u) \<and> P x)"
proof (induction xs)
  case (Cons a xs)
  show ?case
  proof (cases "P a")
    case True
    have "a = x" if "a # xs = us @ x # vs" "\<forall>u \<in> set us. \<not> P u" for us vs
      using that True by (cases us) auto
    moreover have "a # xs = [] @ a # xs" by simp
    ultimately have "(\<exists>us vs. a # xs = us @ x # vs \<and> (\<forall>u \<in> set us. \<not> P u) \<and> P x) \<longleftrightarrow> a = x"
      using True by (metis empty_iff list.set(1))
    with True show ?thesis by simp
  next
    case False
    have "(\<exists>us vs. a # xs = us @ x # vs \<and> (\<forall>u \<in> set us. \<not> P u) \<and> P x) \<longleftrightarrow>
        (\<exists>us vs. xs = us @ x # vs \<and> (\<forall>u \<in> set us. \<not> P u) \<and> P x)" (is "?A \<longleftrightarrow> ?B")
    proof
      assume ?A
      then obtain us vs where u: "a # xs = us @ x # vs" "\<forall>u \<in> set us. \<not> P u" "P x" by blast
      with False obtain us' where "us = a # us'" by (cases us) auto
      with u show ?B by auto
    next
      assume ?B
      then obtain us vs where "xs = us @ x # vs" "\<forall>u \<in> set us. \<not> P u" "P x" by blast
      with False show ?A by (intro exI [of _ "a # us"] exI [of _ vs]) auto
    qed
    with False Cons show ?thesis by simp
  qed
qed simp

text \<open>
  \<open>coremw_find_config_item\<close> finds an item exactly when the configuration has a component
  with that name that has such an element, and looks only into the first component of that name.
\<close>

theorem find_config_item_spec:
  "coremw_find_config_item d c item = Some n \<longleftrightarrow>
    (\<exists>root before comp1 after before' after'. d = Some root \<and> children root = before @ comp1 # after \<and>
       (\<forall>k \<in> set before. \<not> component_named c k) \<and> component_named c comp1 \<and>
       children comp1 = before' @ n # after' \<and> (\<forall>k \<in> set before'. \<not> is_element item k) \<and> is_element item n)"
  (is "?L \<longleftrightarrow> ?R")
proof
  assume ?L
  then obtain root k where r: "d = Some root" "find (component_named c) (children root) = Some k"
    "find (is_element item) (children k) = Some n"
    by (auto simp: coremw_find_config_item_def split: option.splits)
  from r(2) [unfolded find_split] r(3) [unfolded find_split] r(1) show ?R by blast
next
  assume ?R
  then obtain root before comp1 after before' after' where r: "d = Some root"
    "children root = before @ comp1 # after \<and> (\<forall>k \<in> set before. \<not> component_named c k) \<and> component_named c comp1"
    "children comp1 = before' @ n # after' \<and> (\<forall>k \<in> set before'. \<not> is_element item k) \<and> is_element item n"
    by blast
  have "find (component_named c) (children root) = Some comp1" using r(2) unfolding find_split by blast
  moreover have "find (is_element item) (children comp1) = Some n" using r(3) unfolding find_split by blast
  ultimately show ?L using r(1) by (simp add: coremw_find_config_item_def)
qed

theorem find_config_item_spec_witness:
  "coremw_find_config_item (Some (XML_ELEMENT_NODE ''r'' [] [XML_ELEMENT_NODE ''component'' []
      [XML_ELEMENT_NODE ''name'' [] [XML_TEXT_NODE ''MW_BASE''], XML_ELEMENT_NODE ''traceconfig'' [] []]]))
      ''MW_BASE'' ''traceconfig'' = Some (XML_ELEMENT_NODE ''traceconfig'' [] [])"
  unfolding find_config_item_spec
  by (rule exI, rule exI [of _ "[]"], rule exI, rule exI [of _ "[]"],
      rule exI [of _ "[XML_ELEMENT_NODE ''name'' [] [XML_TEXT_NODE ''MW_BASE'']]"], rule exI [of _ "[]"])
    (auto simp: component_named_def)

end
