(* ===== verification/NtfData.thy ===== *)
theory NtfData
  imports SafTypes "HOL-Library.Word"
begin

text \<open>
  The data of the notification service: notifications as the SA Forum library delivers them
  (\<open>saNtf.h\<close>), alarms as COM gets them (\<open>MafOamSpiNotificationFm_4.h\<close> and \<open>_2.h\<close>) and
  filters.  The alarm and the security alarm structures begin with the same fields and are read
  through either by the code, so one record stands for both; an object name is the string in it.
\<close>

datatype SaNtfNotificationTypeT =
    SA_NTF_TYPE_OBJECT_CREATE_DELETE | SA_NTF_TYPE_ATTRIBUTE_CHANGE | SA_NTF_TYPE_STATE_CHANGE
  | SA_NTF_TYPE_ALARM | SA_NTF_TYPE_SECURITY_ALARM
  | SA_NTF_ALARM_QOS      \<comment> \<open>an event type, which the code compares with notification types\<close>
  | SA_NTF_TYPE_VALUE nat

datatype SaNtfValueTypeT = SA_NTF_VALUE_STRING | SA_NTF_VALUE_LDAP_NAME | SA_NTF_VALUE_TYPE nat

text \<open>A value is an offset into memory of the library: \<open>saNtfPtrValGet\<close> looks it up.\<close>

record SaNtfAdditionalInfoT =
  infoId :: "16 word"
  infoType :: SaNtfValueTypeT
  infoValue :: nat

text \<open>The numbers of \<open>SaNtfThresholdInformationT\<close>; the text of a floating point number is given.\<close>

datatype threshold_value =
    Uint8Val "8 word" | Int8Val "8 word" | Uint16Val "16 word" | Int16Val "16 word"
  | Uint32Val "32 word" | Int32Val "32 word" | Uint64Val "64 word" | Int64Val "64 word"
  | FloatVal string | DoubleVal string | OtherVal

record SaNtfThresholdInformationT =
  observedValue :: threshold_value
  thresholdValue :: threshold_value
  thresholdId :: "16 word"

datatype SaNtfProbableCauseT = SA_NTF_UNSPECIFIED_REASON | SA_NTF_CAUSE nat
datatype SaNtfSeverityTrendT = SA_NTF_TREND_NO_CHANGE | SA_NTF_TREND nat

text \<open>
  \<open>notificationId\<close> is a pointer: \<open>notificationId_ptr\<close> is its value, \<open>notificationId\<close> what it points to.
\<close>

record SaNtfNotificationHeaderT =
  nh_eventType :: SaNtfNotificationTypeT
  notificationObject :: string
  notifyingObject :: string
  vendorId :: "32 word"
  majorId :: "16 word"
  minorId :: "16 word"
  nh_eventTime :: "64 word"
  notificationId_ptr :: "64 word"
  notificationId :: "64 word"
  nh_additionalText :: "string option"
  nh_additionalInfo :: "SaNtfAdditionalInfoT list"

record SaNtfNotificationsT =
  notificationType :: SaNtfNotificationTypeT
  notificationHandle :: "64 word"
  notificationHeader :: SaNtfNotificationHeaderT
  perceivedSeverity :: nat                       \<comment> \<open>of a security alarm: \<open>severity\<close>\<close>
  thresholdInformation :: "SaNtfThresholdInformationT option"
  probableCause :: SaNtfProbableCauseT
  trend :: SaNtfSeverityTrendT

record MafOamSpiNotificationFmStruct_4T =
  fm_dn :: "string option"
  majorType :: "32 word"
  minorType :: "32 word"
  eventTime :: "64 word"
  additionalText :: "string option"
  fm_severity :: nat
  additionalInfo :: "(string \<times> string) list"

text \<open>The older structure has the same fields without \<open>additionalInfo\<close>, and shares the strings.\<close>

record MafOamSpiNotificationFmStruct_2T =
  fm2_dn :: "string option"
  fm2_majorType :: "32 word"
  fm2_minorType :: "32 word"
  fm2_eventTime :: "64 word"
  fm2_additionalText :: "string option"
  fm2_severity :: nat

text \<open>
  A filter is an array of name-value pairs that ends with a null pointer.  The code compares the
  addresses of filters, and reads the value of the first pair: \<open>f_first\<close> is \<open>None\<close> for the empty
  array, \<open>Some None\<close> for a null value.
\<close>

record ntf_filter =
  f_addr :: nat
  f_first :: "64 word option option"

datatype SaNtfSearchModeT = SA_NTF_SEARCH_ONLY_FILTER | SA_NTF_SEARCH_NOTIFICATION_ID

datatype ntf_lock = ListLock | NotifyLock | CmNotificationLock | AlarmQueueLock

text \<open>The calls of the notification service, of the event router of MAF, and of the rest of the component.\<close>

datatype (plugins only: code) ntf_call =
    MutexLock ntf_lock | MutexUnlock ntf_lock
  | SaNtfInitialize "char \<times> nat \<times> nat" | SaNtfSelectionObjectGet "64 word" | SaNtfDispatch "64 word" | SaNtfFinalize "64 word"
  | SaNtfAlarmNotificationFilterAllocate "64 word" | SaNtfSecurityAlarmNotificationFilterAllocate "64 word"
  | SaNtfObjectCreateDeleteNotificationFilterAllocate "64 word" | SaNtfStateChangeNotificationFilterAllocate "64 word"
  | SaNtfAttributeChangeNotificationFilterAllocate "64 word"
  | SaNtfNotificationFilterFree "64 word" | SaNtfNotificationSubscribe "64 word list" "32 word"
  | SaNtfNotificationUnsubscribe "32 word"
  | SaNtfNotificationReadInitialize SaNtfSearchModeT "64 word" "64 word" "64 word list"
  | SaNtfNotificationReadNext "64 word" | SaNtfNotificationReadFinalize "64 word"
  | SaNtfNotificationFree "64 word"
  | SaNtfAlarmNotificationAllocate "64 word" "16 word" "16 word" | SaNtfNotificationSend SaNtfNotificationsT
  | SaNtfPtrValGet "64 word" nat | SaNtfPtrValAllocate "64 word" nat
  | NtfPtrWrite nat string      \<comment> \<open>the string copied to memory the call before gave\<close>
  | RouterNotify "64 word" "64 word" string "ntf_filter option" nat
  | RouterAddSubscription "64 word" string | RouterRemoveSubscription "64 word" string
  | RouterRegisterProducer | RouterUnregisterProducer "64 word"
  | RouterAddProducerEvent "64 word" string | RouterRemoveProducerEvent "64 word" string
  | RouterRegisterConsumer | RouterUnregisterConsumer "64 word"
  | PortalGetEventService
  | StartCmEventHandler | StopCmEventHandler | GetTime | PushCmOverflow "64 word"
  | ConvertCMNotificationHeader SaNtfNotificationsT
  | ReaderThreadCreate | ReaderThreadDetach | NtfPipeRead nat
  | ConvertTo3Gpp string | ConvertToImm string

end
