(* ===== verification/Outside.thy ===== *)
theory Outside
  imports Effects NtfData
begin

text \<open>
  What the services of the repository share of the outside world: the calls into the SA Forum
  libraries and the operating system, their answers, and the trace of both, which every service
  state extends.  A program may return, end the process (\<open>Effects.fault\<close>) or never return; the
  last is \<open>None\<close>.  \<open>malloc\<close> is taken to succeed.  The macros that only write debug or
  internal trace messages (\<open>ENTER_\<close>, \<open>LEAVE_\<close>, \<open>DEBUG_\<close>, \<open>LOG_\<close>,
  \<open>WARN_\<close> and \<open>ERR_\<close> followed by a component's name) are left out; direct calls of \<open>syslog\<close>
  are kept.
\<close>

section \<open>Values of the information model service\<close>

datatype imm_type = SA_IMM_ATTR_SAINT32T | SA_IMM_ATTR_SAUINT32T | SA_IMM_ATTR_SAINT64T
  | SA_IMM_ATTR_SAUINT64T | SA_IMM_ATTR_SATIMET | SA_IMM_ATTR_SANAMET | SA_IMM_ATTR_SAFLOATT
  | SA_IMM_ATTR_SADOUBLET | SA_IMM_ATTR_SASTRINGT | SA_IMM_ATTR_SAANYT

datatype imm_value = VInt32 "32 word" | VUint32 "32 word" | VInt64 "64 word" | VUint64 "64 word"
  | VString string | VName string | VBytes string

record imm_attr =
  attrName :: string
  attrValueType :: imm_type
  attrValues :: "imm_value list"

datatype imm_mod_type = SA_IMM_ATTR_VALUES_ADD | SA_IMM_ATTR_VALUES_DELETE | SA_IMM_ATTR_VALUES_REPLACE

record imm_mod =
  modType :: imm_mod_type
  modAttr :: imm_attr

datatype imm_flag = SA_IMM_ATTR_RUNTIME | SA_IMM_ATTR_RDN | SA_IMM_ATTR_CACHED

record imm_attr_def =
  defName :: string
  defType :: imm_type
  defFlags :: "imm_flag list"

section \<open>Calls and answers\<close>

type_synonym handle = "64 word"

type_synonym version = "char \<times> nat \<times> nat"   \<comment> \<open>\<open>SaVersionT\<close>: release code, major and minor version\<close>

datatype log_id = TheLog | AlarmLog | AlertLog | CmdLog | SecLog

text \<open>Calls of the operating system on threads, files and the environment, and of the portal.\<close>

datatype (plugins only: code) sys_call =
    C_stat string | C_fopen_wb string | C_fopen_rb string | C_fwrite string | C_fread nat | C_remove string
  | C_opendir string | C_readdir | C_closedir | C_rmdir string | C_getenv string | C_unsetenv string
  | C_portal_register string | C_portal_unregister string
  | C_thread_create log_id | C_thread_detach nat | C_thread_kill nat | C_thread_join nat
  | C_pipe | C_getfl int | C_setfl int int
  | C_symlink string string | C_popen string | C_fgets nat | C_pclose | C_fopen string | C_fclose

datatype (plugins only: code) ocall =
    SaImmOiInitialize_2 nat version | SaImmOiSelectionObjectGet handle
  | SaImmOiClassImplementerSet handle string | SaImmOiClassImplementerRelease handle string
  | SaImmOiObjectImplementerSet handle string nat | SaImmOiObjectImplementerRelease handle string nat
  | SaImmOiImplementerSet handle string | SaImmOiImplementerClear handle
  | SaImmOiRtObjectCreate_2 handle string "string option" "imm_attr list" | SaImmOiRtObjectDelete handle string
  | SaImmOiRtObjectUpdate_2 handle string "imm_mod list"
  | SaImmOiAdminOperationResult_o2 handle nat SaAisErrorT nat | SaImmOiFinalize handle
  | SaImmOmInitialize nat version | SaImmOmFinalize handle
  | SaImmOmSearchInitialize_2 handle "string option" nat nat "imm_attr option" "string list"
  | SaImmOmSearchNext_2 handle | SaImmOmSearchFinalize handle
  | SaImmOmAccessorInitialize handle | SaImmOmAccessorFinalize handle
  | SaImmOmAccessorGet_2 handle string "string list"
  | SaImmOmClassDescriptionGet_2 handle string | SaImmOmClassCreate_2 handle string nat "imm_attr_def list"
  | SaImmOmClassDelete handle string | SaImmOmClassDescriptionMemoryFree_2 handle
  | SaImmOmAccessorGetNull handle | SaImmOiRtObjectUpdateNull handle string | SaImmOiRtObjectCreateNull handle string
  | SaImmOmAdminOwnerInitialize handle string | SaImmOmAdminOwnerFinalize handle
  | SaImmOmAdminOwnerSet handle "string list" | SaImmOmAdminOwnerRelease handle "string list"
  | SaImmOmCcbInitialize handle | SaImmOmCcbObjectModify_2 handle string "imm_mod list"
  | SaImmOmCcbValidate handle | SaImmOmCcbApply handle
  | SaLogInitialize log_id | SaLogSelectionObjectGet handle | SaLogDispatch handle
  | SaLogStreamOpen_2 handle string | SaLogStreamClose handle | SaLogFinalize handle
  | SaLogWriteLogAsync handle string "16 word" string
  | PushLogEvent "16 word" nat | PushComDebugLogLevelEvent
  | TraceWrite nat string | AuditLogger string int string | Syslog int string
  | Usleep nat | SleepSec nat | Nanosleep int int
  | GetClearStorage | Sys sys_call | Ntf ntf_call

abbreviation PthreadCreate :: "log_id \<Rightarrow> ocall" where "PthreadCreate l \<equiv> Sys (C_thread_create l)"
abbreviation PthreadDetach :: "nat \<Rightarrow> ocall" where "PthreadDetach t \<equiv> Sys (C_thread_detach t)"
abbreviation PthreadKill :: "nat \<Rightarrow> ocall" where "PthreadKill t \<equiv> Sys (C_thread_kill t)"
abbreviation PthreadJoin :: "nat \<Rightarrow> ocall" where "PthreadJoin t \<equiv> Sys (C_thread_join t)"
abbreviation Pipe :: ocall where "Pipe \<equiv> Sys C_pipe"
abbreviation FcntlGetfl :: "int \<Rightarrow> ocall" where "FcntlGetfl fd \<equiv> Sys (C_getfl fd)"
abbreviation Popen :: "string \<Rightarrow> ocall" where "Popen c \<equiv> Sys (C_popen c)"
abbreviation Fgets :: "nat \<Rightarrow> ocall" where "Fgets n \<equiv> Sys (C_fgets n)"
abbreviation Pclose :: ocall where "Pclose \<equiv> Sys C_pclose"
abbreviation Fopen :: "string \<Rightarrow> ocall" where "Fopen p \<equiv> Sys (C_fopen p)"
abbreviation Fclose :: ocall where "Fclose \<equiv> Sys C_fclose"
abbreviation FcntlSetfl :: "int \<Rightarrow> int \<Rightarrow> ocall" where "FcntlSetfl fd f \<equiv> Sys (C_setfl fd f)"
abbreviation Symlink :: "string \<Rightarrow> string \<Rightarrow> ocall" where "Symlink a b \<equiv> Sys (C_symlink a b)"
abbreviation StatFile :: "string \<Rightarrow> ocall" where "StatFile p \<equiv> Sys (C_stat p)"
abbreviation FopenWb :: "string \<Rightarrow> ocall" where "FopenWb p \<equiv> Sys (C_fopen_wb p)"
abbreviation FopenRb :: "string \<Rightarrow> ocall" where "FopenRb p \<equiv> Sys (C_fopen_rb p)"
abbreviation Fwrite :: "string \<Rightarrow> ocall" where "Fwrite b \<equiv> Sys (C_fwrite b)"
abbreviation Fread :: "nat \<Rightarrow> ocall" where "Fread n \<equiv> Sys (C_fread n)"
abbreviation RemoveFile :: "string \<Rightarrow> ocall" where "RemoveFile p \<equiv> Sys (C_remove p)"
abbreviation Opendir :: "string \<Rightarrow> ocall" where "Opendir d \<equiv> Sys (C_opendir d)"
abbreviation Readdir :: ocall where "Readdir \<equiv> Sys C_readdir"
abbreviation Closedir :: ocall where "Closedir \<equiv> Sys C_closedir"
abbreviation Rmdir :: "string \<Rightarrow> ocall" where "Rmdir d \<equiv> Sys (C_rmdir d)"
abbreviation GetEnv :: "string \<Rightarrow> ocall" where "GetEnv n \<equiv> Sys (C_getenv n)"
abbreviation UnsetEnv :: "string \<Rightarrow> ocall" where "UnsetEnv n \<equiv> Sys (C_unsetenv n)"
abbreviation PortalRegister :: "string \<Rightarrow> ocall" where "PortalRegister c \<equiv> Sys (C_portal_register c)"
abbreviation PortalUnregister :: "string \<Rightarrow> ocall" where "PortalUnregister c \<equiv> Sys (C_portal_unregister c)"

text \<open>
  Three of the calls above are calls of a library with a null pointer where a name belongs, which
  the replicated list can make: \<open>SaImmOmAccessorGetNull\<close> has no object name,
  \<open>SaImmOiRtObjectUpdateNull\<close> and \<open>SaImmOiRtObjectCreateNull\<close> have attributes without a name.
\<close>

text \<open>
  An answer holds everything a call may give back: the return code of an SA Forum or a MAF call, an
  output handle, the attribute or the array of all attributes read, the result, error number,
  output numbers and text of a system call, the version a library leaves in an in-out parameter, a
  notification.
\<close>

record answer =
  a_rc :: SaAisErrorT
  a_maf :: MafReturnT
  a_handle :: handle
  a_attr :: "imm_attr option"
  a_attrs :: "imm_attr list option"
  a_num :: int
  a_errno :: int
  a_out :: "int \<times> int"
  a_text :: "string option"
  a_version :: version
  a_ntf :: "SaNtfNotificationsT option"

type_synonym history = "(ocall \<times> answer) list"

type_synonym outside = "history \<Rightarrow> ocall \<Rightarrow> answer"

record world =
  hist :: history
  imm_version_latest :: version    \<comment> \<open>a global of \<open>utils/saname_utils.cc\<close>\<close>

section \<open>Programs\<close>

type_synonym ('w, 'a) prog = "'w \<Rightarrow> ('w, 'a) res option"

definition return :: "'a \<Rightarrow> ('w, 'a) prog" where
  "return r = (\<lambda>w. Some (Inr (r, w)))"

definition die :: "fault \<Rightarrow> ('w, 'a) prog" where
  "die f = (\<lambda>w. Some (Inl (f, w)))"

definition bnd :: "('w, 'a) prog \<Rightarrow> ('a \<Rightarrow> ('w, 'b) prog) \<Rightarrow> ('w, 'b) prog" where
  "bnd m k = (\<lambda>w. case m w of None \<Rightarrow> None | Some (Inl e) \<Rightarrow> Some (Inl e) | Some (Inr (a, w)) \<Rightarrow> k a w)"

definition andthen :: "('w, 'a) prog \<Rightarrow> ('w, 'b) prog \<Rightarrow> ('w, 'b) prog" where
  "andthen m k = bnd m (\<lambda>_. k)"

definition gets :: "('w \<Rightarrow> 'a) \<Rightarrow> ('w, 'a) prog" where
  "gets f = (\<lambda>w. Some (Inr (f w, w)))"

definition modify :: "('w \<Rightarrow> 'w) \<Rightarrow> ('w, unit) prog" where
  "modify f = (\<lambda>w. Some (Inr ((), f w)))"

definition unless :: "bool \<Rightarrow> ('w, unit) prog \<Rightarrow> ('w, unit) prog" where
  "unless b m = (if b then return () else m)"

definition call :: "outside \<Rightarrow> ocall \<Rightarrow> ('b world_scheme, answer) prog" where
  "call E c = (\<lambda>w. let a = E (hist w) c in Some (Inr (a, w\<lparr>hist := hist w @ [(c, a)]\<rparr>)))"

definition sa_rc :: "outside \<Rightarrow> ocall \<Rightarrow> ('b world_scheme, SaAisErrorT) prog" where
  "sa_rc E c = bnd (call E c) (\<lambda>a. return (a_rc a))"

definition do_call :: "outside \<Rightarrow> ocall \<Rightarrow> ('b world_scheme, unit) prog" where
  "do_call E c = bnd (call E c) (\<lambda>a. return ())"

lemma bnd_mono [partial_function_mono]:
  assumes "mono_option (\<lambda>f. B f w)" "\<And>a v. mono_option (\<lambda>f. C f a v)"
  shows "mono_option (\<lambda>f. bnd (B f) (C f) w)"
proof (rule monotoneI)
  fix f g :: "'a \<Rightarrow> 'b option"
  assume fg: "fun_ord (flat_ord None) f g"
  have B: "flat_ord None (B f w) (B g w)" using assms(1) fg by (auto dest: monotoneD)
  have C: "flat_ord None (C f a v) (C g a v)" for a v using assms(2) fg by (auto dest: monotoneD)
  show "flat_ord None (bnd (B f) (C f) w) (bnd (B g) (C g) w)"
  proof (cases "B f w")
    case None
    then show ?thesis by (simp add: bnd_def flat_ord_def)
  next
    case (Some r)
    with B have g: "B g w = Some r" by (simp add: flat_ord_def)
    show ?thesis using Some g C by (cases r) (auto simp: bnd_def flat_ord_def)
  qed
qed

text \<open>The loop \<open>while (b a) a = body a\<close>.\<close>

partial_function (option) while_prog ::
    "('a \<Rightarrow> bool) \<Rightarrow> ('a \<Rightarrow> ('w, 'a) prog) \<Rightarrow> 'a \<Rightarrow> ('w, 'a) prog" where
  "while_prog b body a w = (if b a then bnd (body a) (\<lambda>a v. while_prog b body a v) w else return a w)"

section \<open>Weakest preconditions\<close>

text \<open>
  \<open>wp d m Q F w\<close>: from \<open>w\<close>, program \<open>m\<close> returns with \<open>Q\<close>, or ends the process with
  \<open>F\<close>, or, only if \<open>d\<close>, never returns.
\<close>

definition wp :: "bool \<Rightarrow> ('w, 'a) prog \<Rightarrow> ('a \<Rightarrow> 'w \<Rightarrow> bool) \<Rightarrow> (fault \<Rightarrow> 'w \<Rightarrow> bool) \<Rightarrow> 'w \<Rightarrow> bool" where
  "wp d m Q F w = (case m w of None \<Rightarrow> d | Some (Inl (f, v)) \<Rightarrow> F f v | Some (Inr (a, v)) \<Rightarrow> Q a v)"

named_theorems wps

lemma wp_basic [simp, wps]:
  "wp d (return r) Q F w = Q r w"
  "wp d (die f) Qd F w = F f w"
  "wp d (gets g) Qg F w = Qg (g w) w"
  "wp d (modify h) Qm F w = Qm () (h w)"
  by (simp_all add: wp_def return_def die_def gets_def modify_def)

lemma wp_bnd [simp, wps]: "wp d (bnd m k) Q F w = wp d m (\<lambda>a. wp d (k a) Q F) F w"
  by (simp add: wp_def bnd_def split: option.splits sum.splits prod.splits)

lemma wp_andthen [simp, wps]: "wp d (andthen m k) Q F w = wp d m (\<lambda>a. wp d k Q F) F w"
  by (simp add: andthen_def)

lemma wp_if [simp]: "wp d (if b then m else k) Q F w = (if b then wp d m Q F w else wp d k Q F w)"
  by simp

lemma wp_unless [simp, wps]: "wp d (unless b m) Q F w = (if b then Q () w else wp d m Q F w)"
  by (simp add: unless_def)

lemma wp_call [wps]:
  "wp d (call E c) Q F w = Q (E (hist w) c) (w\<lparr>hist := hist w @ [(c, E (hist w) c)]\<rparr>)"
  by (simp add: wp_def call_def Let_def)

lemma wp_sa_rc [wps]:
  "wp d (sa_rc E c) Q F w = Q (a_rc (E (hist w) c)) (w\<lparr>hist := hist w @ [(c, E (hist w) c)]\<rparr>)"
  by (simp add: sa_rc_def wp_call)

lemma wp_do_call [wps]:
  "wp d (do_call E c) Q F w = Q () (w\<lparr>hist := hist w @ [(c, E (hist w) c)]\<rparr>)"
  by (simp add: do_call_def wp_call)

lemma wp_mono:
  "wp d m Q F w \<Longrightarrow> (\<And>a v. Q a v \<Longrightarrow> Q' a v) \<Longrightarrow> (\<And>f v. F f v \<Longrightarrow> F' f v) \<Longrightarrow> wp d m Q' F' w"
  by (auto simp: wp_def split: option.splits sum.splits)

lemma wp_partial: "wp False m Q F w \<Longrightarrow> wp True m Q F w"
  by (simp add: wp_def split: option.splits)

lemma wp_conj: "wp d m Q F w \<Longrightarrow> wp d m Q' F' w \<Longrightarrow> wp d m (\<lambda>a v. Q a v \<and> Q' a v) (\<lambda>f v. F f v \<and> F' f v) w"
  by (auto simp: wp_def split: option.splits sum.splits)

lemma wp_Inr: "wp d m Q F w \<Longrightarrow> m w = Some (Inr (a, v)) \<Longrightarrow> Q a v"
  by (simp add: wp_def)

lemma wp_Inl: "wp d m Q F w \<Longrightarrow> m w = Some (Inl (f, v)) \<Longrightarrow> F f v"
  by (simp add: wp_def)

lemma wp_ends: "wp False m Q F w \<Longrightarrow> \<exists>r. m w = Some r"
  by (cases "m w") (auto simp: wp_def)

lemma bnd_Some [simp]: "m w = Some (Inr (a, v)) \<Longrightarrow> bnd m k w = k a v"
  by (simp add: bnd_def)

lemma wp_admissible:
  "option.admissible (\<lambda>g. \<forall>a x. I a x \<longrightarrow> wp True (\<lambda>v. g (((b, body), a), v)) Q F x)"
proof -
  have "(\<lambda>g. \<forall>a x. I a x \<longrightarrow> wp True (\<lambda>v. g (((b, body), a), v)) Q F x) =
    (\<lambda>g. \<forall>x y. g x = Some y \<longrightarrow> (\<forall>a w. x = (((b, body), a), w) \<longrightarrow> I a w \<longrightarrow>
       (case y of Inl (f, v) \<Rightarrow> F f v | Inr (a, v) \<Rightarrow> Q a v)))"
    by (rule ext) (auto simp: wp_def split: option.splits)
  then show ?thesis by (simp only: option_admissible)
qed

lemma while_partial:
  assumes step: "\<And>a v. I a v \<Longrightarrow> if b a then wp True (body a) I F v else Q a v"
  shows "I a w \<Longrightarrow> wp True (while_prog b body a) Q F w"
proof (induction arbitrary: a w rule: while_prog.fixp_induct)
  case 1
  show ?case using wp_admissible [of I b body Q F] by (simp add: curry_def)
next
  case 2
  show ?case by (simp add: wp_def)
next
  case (3 g)
  show ?case
  proof (cases "b a")
    case True
    then have "wp True (bnd (body a) (g b body)) Q F w"
      using step [OF 3(2)] 3(1) by (auto intro: wp_mono)
    then show ?thesis using True by (simp add: wp_def)
  next
    case False
    then show ?thesis using step [OF 3(2)] by (simp add: wp_def return_def)
  qed
qed

lemma while_unfold:
  "wp d (while_prog b body a) Q F w =
     (if b a then wp d (body a) (\<lambda>a. wp d (while_prog b body a) Q F) F w else Q a w)"
proof (cases "b a")
  case True
  then have "while_prog b body a w = bnd (body a) (while_prog b body) w" by (subst while_prog.simps) simp
  then have "wp d (while_prog b body a) Q F w = wp d (bnd (body a) (while_prog b body)) Q F w" by (simp only: wp_def)
  with True show ?thesis by simp
next
  case False
  then have "while_prog b body a w = return a w" by (subst while_prog.simps) simp
  then have "wp d (while_prog b body a) Q F w = wp d (return a) Q F w" by (simp only: wp_def)
  with False show ?thesis by simp
qed

lemma while_total:
  assumes step: "\<And>a v. I a v \<Longrightarrow>
      if b a then wp False (body a) (\<lambda>a' v'. I a' v' \<and> (\<mu> a' v' :: nat) < \<mu> a v) F v else Q a v"
  shows "I a w \<Longrightarrow> wp False (while_prog b body a) Q F w"
proof (induction "\<mu> a w" arbitrary: a w rule: less_induct)
  case less
  show ?case
  proof (cases "b a")
    case True
    then have "wp False (body a) (\<lambda>a' v'. I a' v' \<and> \<mu> a' v' < \<mu> a w) F w" using step [OF less.prems] by simp
    then have "wp False (body a) (\<lambda>a. wp False (while_prog b body a) Q F) F w"
      by (rule wp_mono) (use less.hyps in auto)
    with True show ?thesis by (simp add: while_unfold)
  next
    case False
    then show ?thesis using step [OF less.prems] by (simp add: while_unfold)
  qed
qed

end
