(* ===== verification/LogConf.thy ===== *)
theory LogConf
  imports Outside
begin

text \<open>
  The configuration of the log files (\<open>log/ComSALogService.c\<close>): the attributes of the alarm, alert
  and command log, their defaults, and the parser of the file \<open>com_sa_log.cfg\<close>.  A C string is
  the list of its characters without the final NUL.  \<open>None\<close> stands for a write outside a buffer;
  all buffers of the parser have 50 bytes.
\<close>

section \<open>Characters and numbers\<close>

definition newline :: char where "newline = CHR 0x0A"

definition isdigit :: "char \<Rightarrow> bool" where
  "isdigit c \<longleftrightarrow> 48 \<le> (of_char c :: nat) \<and> (of_char c :: nat) \<le> 57"

definition digit_value :: "char \<Rightarrow> nat" where
  "digit_value c = of_char c - 48"

definition digits_value :: "nat \<Rightarrow> string \<Rightarrow> nat" where
  "digits_value b ds = foldl (\<lambda>v c. v * b + digit_value c) 0 ds"

text \<open>
  \<open>strtoull (ds, NULL, 0)\<close> on a string of decimal digits: base 0 reads a number that begins with
  0 as octal, up to the first character that is no octal digit; too large numbers give
  \<open>ULLONG_MAX\<close>.
\<close>

definition strtoull0 :: "string \<Rightarrow> 64 word" where
  "strtoull0 ds =
     (let n = (case ds of [] \<Rightarrow> 0
          | c # cs \<Rightarrow> if c = CHR ''0'' then digits_value 8 (takeWhile (\<lambda>c. digit_value c < 8) cs)
                     else digits_value 10 ds)
      in of_nat (min n (2 ^ 64 - 1)))"

text \<open>Numbers written in decimal, as \<open>printf\<close> does, and read back.\<close>

definition digit_char :: "nat \<Rightarrow> char" where
  "digit_char d = char_of (48 + d)"

fun decimal :: "nat \<Rightarrow> string" where
  "decimal n = (if n < 10 then [digit_char n] else decimal (n div 10) @ [digit_char (n mod 10)])"

declare decimal.simps [simp del]

lemma digit_char [simp]: "d < 10 \<Longrightarrow> digit_value (digit_char d) = d" "d < 10 \<Longrightarrow> isdigit (digit_char d)"
  by (simp_all add: digit_char_def digit_value_def isdigit_def)

lemma digit_char_0: "digit_char 0 = CHR ''0''"
  using char_of_char [of "CHR ''0''", where 'a = nat] by (simp add: digit_char_def)

lemma decimal_digits: "list_all isdigit (decimal n)"
  by (induction n rule: decimal.induct) (simp add: decimal.simps)

lemma decimal_value: "digits_value 10 (decimal n) = n"
  by (induction n rule: decimal.induct) (subst decimal.simps, simp add: digits_value_def)

lemma decimal_length: "n < 10 ^ k \<Longrightarrow> 0 < k \<Longrightarrow> length (decimal n) \<le> k"
proof (induction n arbitrary: k rule: decimal.induct)
  case (1 n)
  show ?case
  proof (cases "n < 10")
    case False
    obtain k' where k: "k = Suc k'" using 1(3) by (cases k) auto
    have "k' \<noteq> 0" using False 1(2) k by (intro notI) simp
    with k have k': "k = Suc k'" "0 < k'" by simp_all
    have "n < 10 ^ k' * 10" using 1(2) unfolding k by (simp only: power_Suc mult.commute)
    then have "n div 10 < 10 ^ k'" by (rule less_mult_imp_div_less)
    then have "length (decimal (n div 10)) \<le> k'" using 1(1) [OF False] k' by blast
    moreover have "decimal n = decimal (n div 10) @ [digit_char (n mod 10)]"
      using False by (simp add: decimal.simps [of n])
    ultimately show ?thesis using k' by simp
  qed (use 1(3) in \<open>simp add: decimal.simps [of n]\<close>)
qed

lemma decimal_hd: "0 < n \<Longrightarrow> \<exists>c cs. decimal n = c # cs \<and> c \<noteq> CHR ''0''"
proof (induction n rule: decimal.induct)
  case (1 n)
  show ?case
  proof (cases "n < 10")
    case True
    have "digit_char n \<noteq> CHR ''0''"
    proof
      assume "digit_char n = CHR ''0''"
      then have "digit_value (digit_char n) = 0" by (simp add: digit_value_def)
      then show False using True 1(2) by simp
    qed
    then show ?thesis using True by (simp add: decimal.simps [of n])
  next
    case False
    then have "0 < n div 10" by (simp add: div_greater_zero_iff)
    then obtain c cs where "decimal (n div 10) = c # cs" "c \<noteq> CHR ''0''" using 1(1) [OF False] by blast
    moreover have "decimal n = decimal (n div 10) @ [digit_char (n mod 10)]"
      using False by (simp add: decimal.simps [of n])
    ultimately show ?thesis by simp
  qed
qed

section \<open>Attributes\<close>

datatype SaLogFileFullActionT = SA_LOG_FILE_FULL_ACTION_WRAP | SA_LOG_FILE_FULL_ACTION_HALT
  | SA_LOG_FILE_FULL_ACTION_ROTATE

record SaLogFileCreateAttributesT_2 =
  logFileName :: string
  logFilePathName :: string
  maxLogFileSize :: "64 word"
  maxLogRecordSize :: "32 word"
  haProperty :: bool
  logFileFullAction :: SaLogFileFullActionT
  maxFilesRotated :: "16 word"
  logFileFmt :: string

record log_conf =
  alarmLogFileAttributes :: SaLogFileCreateAttributesT_2
  alertLogFileAttributes :: SaLogFileCreateAttributesT_2
  cmdLogFileAttributes :: SaLogFileCreateAttributesT_2

definition AlarmLogFileName :: string where "AlarmLogFileName = ''AlarmLogFileName=''"
definition AlertLogFileName :: string where "AlertLogFileName = ''AlertLogFileName=''"
definition CmdLogFileName :: string where "CmdLogFileName = ''CommandLogFileName=''"
definition AlarmFilesRotated :: string where "AlarmFilesRotated = ''AlarmFilesRotated=''"
definition AlertFilesRotated :: string where "AlertFilesRotated = ''AlertFilesRotated=''"
definition CmdFilesRotated :: string where "CmdFilesRotated = ''CommandFilesRotated=''"
definition AlarmMaxLogFileSize :: string where "AlarmMaxLogFileSize = ''AlarmMaxLogFileSize=''"
definition AlertMaxLogFileSize :: string where "AlertMaxLogFileSize = ''AlertMaxLogFileSize=''"
definition CmdMaxLogFileSize :: string where "CmdMaxLogFileSize = ''CommandMaxLogFileSize=''"
definition AlarmMaxLogRecordSize :: string where "AlarmMaxLogRecordSize = ''AlarmMaxLogRecordSize=''"
definition AlertMaxLogRecordSize :: string where "AlertMaxLogRecordSize = ''AlertMaxLogRecordSize=''"
definition CmdMaxLogRecordSize :: string where "CmdMaxLogRecordSize = ''CommandMaxLogRecordSize=''"

lemmas config_keys = AlarmLogFileName_def AlertLogFileName_def CmdLogFileName_def
  AlarmFilesRotated_def AlertFilesRotated_def CmdFilesRotated_def
  AlarmMaxLogFileSize_def AlertMaxLogFileSize_def CmdMaxLogFileSize_def
  AlarmMaxLogRecordSize_def AlertMaxLogRecordSize_def CmdMaxLogRecordSize_def

section \<open>The parser of one line\<close>

text \<open>The chain of \<open>strcmp (type, ...)\<close> tests at the end of every parse function.\<close>

definition update_attrs :: "string \<Rightarrow> (SaLogFileCreateAttributesT_2 \<Rightarrow> SaLogFileCreateAttributesT_2) \<Rightarrow>
    log_conf \<Rightarrow> log_conf" where
  "update_attrs ty f c =
     (if ty = ''alarm'' then c\<lparr>alarmLogFileAttributes := f (alarmLogFileAttributes c)\<rparr>
      else if ty = ''alert'' then c\<lparr>alertLogFileAttributes := f (alertLogFileAttributes c)\<rparr>
      else if ty = ''commandLog'' then c\<lparr>cmdLogFileAttributes := f (cmdLogFileAttributes c)\<rparr>
      else c)"

definition parseLogFileName :: "string \<Rightarrow> string \<Rightarrow> string \<Rightarrow> log_conf \<Rightarrow> log_conf option" where
  "parseLogFileName configText cmpText ty c =
     (if take (length cmpText) configText = cmpText then
        let name = drop (length cmpText) configText in
        if ty \<in> {''alarm'', ''alert'', ''commandLog''} \<and> \<not> length name < 50 then None
        else Some (update_attrs ty (\<lambda>a. a\<lparr>logFileName := name\<rparr>) c)
      else Some c)"

datatype copied = Copied string | Illegal | Overrun

fun copy_digits :: "nat \<Rightarrow> string \<Rightarrow> copied" where
  "copy_digits i [] = (if i < 50 then Copied [] else Overrun)"
| "copy_digits i (c # cs) =
     (if isdigit c then
        if i < 50 then (case copy_digits (Suc i) cs of Copied ds \<Rightarrow> Copied (c # ds) | r \<Rightarrow> r)
        else Overrun
      else Illegal)"

definition parse_number :: "(64 word \<Rightarrow> SaLogFileCreateAttributesT_2 \<Rightarrow> SaLogFileCreateAttributesT_2) \<Rightarrow>
    string \<Rightarrow> string \<Rightarrow> string \<Rightarrow> log_conf \<Rightarrow> log_conf option" where
  "parse_number f configText cmpText ty c =
     (if take (length cmpText) configText = cmpText then
        (case copy_digits 0 (drop (length cmpText) configText) of
           Illegal \<Rightarrow> Some c
         | Overrun \<Rightarrow> None
         | Copied ds \<Rightarrow> Some (update_attrs ty (f (strtoull0 ds)) c))
      else Some c)"

definition parseFilesRotated :: "string \<Rightarrow> string \<Rightarrow> string \<Rightarrow> log_conf \<Rightarrow> log_conf option" where
  "parseFilesRotated = parse_number (\<lambda>n a. a\<lparr>maxFilesRotated := ucast n\<rparr>)"

definition parseFileSize :: "string \<Rightarrow> string \<Rightarrow> string \<Rightarrow> log_conf \<Rightarrow> log_conf option" where
  "parseFileSize = parse_number (\<lambda>n a. a\<lparr>maxLogFileSize := n\<rparr>)"

definition parseRecordSize :: "string \<Rightarrow> string \<Rightarrow> string \<Rightarrow> log_conf \<Rightarrow> log_conf option" where
  "parseRecordSize = parse_number (\<lambda>n a. a\<lparr>maxLogRecordSize := ucast n\<rparr>)"

definition not_blank :: "char \<Rightarrow> bool" where
  "not_blank c \<longleftrightarrow> c \<noteq> CHR '' '' \<and> c \<noteq> newline"

definition parse_keys :: "string \<Rightarrow> log_conf \<Rightarrow> log_conf option" where
  "parse_keys buffer c = do {
     c \<leftarrow> parseLogFileName buffer AlarmLogFileName ''alarm'' c;
     c \<leftarrow> parseLogFileName buffer AlertLogFileName ''alert'' c;
     c \<leftarrow> parseLogFileName buffer CmdLogFileName ''commandLog'' c;
     c \<leftarrow> parseFilesRotated buffer AlarmFilesRotated ''alarm'' c;
     c \<leftarrow> parseFilesRotated buffer AlertFilesRotated ''alert'' c;
     c \<leftarrow> parseFilesRotated buffer CmdFilesRotated ''commandLog'' c;
     c \<leftarrow> parseFileSize buffer AlarmMaxLogFileSize ''alarm'' c;
     c \<leftarrow> parseFileSize buffer AlertMaxLogFileSize ''alert'' c;
     c \<leftarrow> parseFileSize buffer CmdMaxLogFileSize ''commandLog'' c;
     c \<leftarrow> parseRecordSize buffer AlarmMaxLogRecordSize ''alarm'' c;
     c \<leftarrow> parseRecordSize buffer AlertMaxLogRecordSize ''alert'' c;
     parseRecordSize buffer CmdMaxLogRecordSize ''commandLog'' c }"

definition parseSaLogConfig :: "string \<Rightarrow> log_conf \<Rightarrow> log_conf option" where
  "parseSaLogConfig configText c =
     (if length configText \<le> 50 then
        let buffer = filter not_blank configText in
        if length buffer < 50 then parse_keys buffer c else None
      else Some c)"

section \<open>The defaults and the file\<close>

definition default_log_conf :: log_conf where
  "default_log_conf = \<lparr>
     alarmLogFileAttributes = \<lparr>logFileName = ''FmAlarmLog'', logFilePathName = ''FaultManagementLog/alarm'',
        maxLogFileSize = 500000, maxLogRecordSize = 1024, haProperty = True,
        logFileFullAction = SA_LOG_FILE_FULL_ACTION_ROTATE, maxFilesRotated = 11, logFileFmt = ''@Cb''\<rparr>,
     alertLogFileAttributes = \<lparr>logFileName = ''FmAlertLog'', logFilePathName = ''FaultManagementLog/alert'',
        maxLogFileSize = 500000, maxLogRecordSize = 1024, haProperty = True,
        logFileFullAction = SA_LOG_FILE_FULL_ACTION_ROTATE, maxFilesRotated = 11, logFileFmt = ''@Cb''\<rparr>,
     cmdLogFileAttributes = \<lparr>logFileName = ''ComCliCommandLog'', logFilePathName = ''COM'',
        maxLogFileSize = 5000000, maxLogRecordSize = 0, haProperty = True,
        logFileFullAction = SA_LOG_FILE_FULL_ACTION_ROTATE, maxFilesRotated = 11, logFileFmt = ''@Cb''\<rparr>\<rparr>"

text \<open>\<open>fgets\<close> with a buffer of \<open>n + 1\<close> bytes: at most \<open>n\<close> characters, up to a newline.\<close>

fun fgets_from :: "nat \<Rightarrow> string \<Rightarrow> string \<times> string" where
  "fgets_from (Suc n) (c # cs) =
     (if c = newline then ([c], cs) else let (l, r) = fgets_from n cs in (c # l, r))"
| "fgets_from n cs = ([], cs)"

lemma fgets_from_append: "fgets_from n cs = (l, r) \<Longrightarrow> cs = l @ r"
  by (induction n cs arbitrary: l r rule: fgets_from.induct) (auto split: if_splits prod.splits)

lemma fgets_from_shorter: "fgets_from n cs = (l, r) \<Longrightarrow> 0 < n \<Longrightarrow> cs \<noteq> [] \<Longrightarrow> length r < length cs"
  using fgets_from_append [of n cs l r] by (cases "(n, cs)" rule: fgets_from.cases) (auto split: if_splits prod.splits)

text \<open>The loop of \<open>loadSaLogConfig\<close> over the content of the file, with its buffer of 256 bytes.\<close>

function parse_file :: "string \<Rightarrow> log_conf \<Rightarrow> log_conf option" where
  "parse_file content c =
     (case content of [] \<Rightarrow> Some c
      | _ \<Rightarrow> let (buf, rest) = fgets_from 255 content in
            (case parseSaLogConfig buf c of None \<Rightarrow> None | Some c \<Rightarrow> parse_file rest c))"
  by pat_completeness auto

termination
proof (relation "measure (\<lambda>(s, c). length s)", goal_cases)
  case (2 content c x21 x22 x buf rest c')
  then show ?case using fgets_from_shorter [of 255 content buf rest] by simp
qed simp

declare parse_file.simps [simp del]

section \<open>White space\<close>

text \<open>\<open>None\<close> is the null pointer; the result is the returned truth value and the string left behind.\<close>

fun hasWhiteSpace :: "string option \<Rightarrow> bool" where
  "hasWhiteSpace None = False"
| "hasWhiteSpace (Some []) = False"
| "hasWhiteSpace (Some (c # cs)) = (if c = CHR '' '' \<or> c = CHR 0x09 then True else hasWhiteSpace (Some cs))"

definition is_space :: "char \<Rightarrow> bool" where
  "is_space c \<longleftrightarrow> c = CHR '' '' \<or> c = CHR 0x09 \<or> c = newline"

function first_letter :: "string \<Rightarrow> nat \<Rightarrow> nat" where
  "first_letter str pos =
     (if pos < length str then if \<not> is_space (str ! pos) then pos else first_letter str (Suc pos) else pos)"
  by pat_completeness auto

termination by (relation "measure (\<lambda>(str, pos). length str - pos)") auto

declare first_letter.simps [simp del]

fun last_letter :: "string \<Rightarrow> nat \<Rightarrow> nat" where
  "last_letter str 0 = 0"
| "last_letter str (Suc pos) = (if \<not> is_space (str ! Suc pos) then Suc pos else last_letter str pos)"

definition trimWhiteSpace :: "string option \<Rightarrow> bool \<times> string option" where
  "trimWhiteSpace arg = (case arg of None \<Rightarrow> (False, None) | Some str \<Rightarrow>
     (if str = [] then (True, Some str)
      else
        let pos = first_letter str 0 in
        if pos = length str then (True, Some [])
        else
          let str = drop pos str; pos = last_letter str (length str - 1) in
          if pos = length str - 1 then (True, Some str)
          else if pos = 0 then
            if \<not> is_space (str ! pos) then (True, Some (take (pos + 1) str)) else (True, Some (take pos str))
          else (True, Some (take (pos + 1) str))))"

end
