(* ===== verification/LogParse.thy ===== *)
theory LogParse
  imports LogConf "HOL-Library.Sublist"
begin

text \<open>
  Properties of the configuration parser: which lines overrun the buffer, the table of settings
  it implements, and that every number written in decimal is read back.
\<close>

section \<open>One line\<close>

lemma copy_digits_spec:
  "i + length cs < 50 \<Longrightarrow> copy_digits i cs = (if list_all isdigit cs then Copied cs else Illegal)"
  by (induction i cs rule: copy_digits.induct) auto

text \<open>The settings, and what a line gives to each: the reference the parser is compared with.\<close>

datatype config_field = FileName | FilesRotated | FileSize | RecordSize

definition config_table :: "(string \<times> string \<times> config_field) list" where
  "config_table =
    [(''AlarmLogFileName='', ''alarm'', FileName), (''AlertLogFileName='', ''alert'', FileName),
     (''CommandLogFileName='', ''commandLog'', FileName),
     (''AlarmFilesRotated='', ''alarm'', FilesRotated), (''AlertFilesRotated='', ''alert'', FilesRotated),
     (''CommandFilesRotated='', ''commandLog'', FilesRotated),
     (''AlarmMaxLogFileSize='', ''alarm'', FileSize), (''AlertMaxLogFileSize='', ''alert'', FileSize),
     (''CommandMaxLogFileSize='', ''commandLog'', FileSize),
     (''AlarmMaxLogRecordSize='', ''alarm'', RecordSize), (''AlertMaxLogRecordSize='', ''alert'', RecordSize),
     (''CommandMaxLogRecordSize='', ''commandLog'', RecordSize)]"

fun put_number :: "config_field \<Rightarrow> 64 word \<Rightarrow> SaLogFileCreateAttributesT_2 \<Rightarrow> SaLogFileCreateAttributesT_2" where
  "put_number FilesRotated n a = a\<lparr>maxFilesRotated := ucast n\<rparr>"
| "put_number FileSize n a = a\<lparr>maxLogFileSize := n\<rparr>"
| "put_number RecordSize n a = a\<lparr>maxLogRecordSize := ucast n\<rparr>"
| "put_number FileName n a = a"

definition put_field :: "config_field \<Rightarrow> string \<Rightarrow> SaLogFileCreateAttributesT_2 \<Rightarrow> SaLogFileCreateAttributesT_2" where
  "put_field f v =
     (if f = FileName then (\<lambda>a. a\<lparr>logFileName := v\<rparr>)
      else if list_all isdigit v then put_number f (strtoull0 v) else id)"

fun apply_row :: "string \<Rightarrow> string \<times> string \<times> config_field \<Rightarrow> log_conf \<Rightarrow> log_conf" where
  "apply_row buffer (key, ty, f) = update_attrs ty (put_field f (drop (length key) buffer))"

fun matches :: "string \<Rightarrow> string \<times> string \<times> config_field \<Rightarrow> bool" where
  "matches buffer (key, _) = (take (length key) buffer = key)"

definition apply_line :: "string \<Rightarrow> log_conf \<Rightarrow> log_conf" where
  "apply_line buffer c =
     (case List.find (matches buffer) config_table of None \<Rightarrow> c | Some r \<Rightarrow> apply_row buffer r c)"

lemma update_attrs_id [simp]: "update_attrs ty id c = c"
  by (simp add: update_attrs_def)

lemma parse_number_row:
  assumes "length buffer < 50" "f \<noteq> FileName"
  shows "parse_number (put_number f) buffer key ty c =
     Some ((if matches buffer (key, ty, f) then apply_row buffer (key, ty, f) else id) c)"
  using assms by (simp add: parse_number_def copy_digits_spec put_field_def)

lemma put_number_fun:
  "put_number FilesRotated n = maxFilesRotated_update (\<lambda>_. ucast n)"
  "put_number FileSize n = maxLogFileSize_update (\<lambda>_. n)"
  "put_number RecordSize n = maxLogRecordSize_update (\<lambda>_. ucast n)"
  by (simp_all add: fun_eq_iff)

lemma parse_numbers:
  "parseFilesRotated = parse_number (put_number FilesRotated)"
  "parseFileSize = parse_number (put_number FileSize)"
  "parseRecordSize = parse_number (put_number RecordSize)"
  by (simp_all add: parseFilesRotated_def parseFileSize_def parseRecordSize_def fun_eq_iff parse_number_def
      put_number_fun split: copied.split)

definition step_row :: "string \<Rightarrow> string \<times> string \<times> config_field \<Rightarrow> log_conf \<Rightarrow> log_conf" where
  "step_row buffer r = (if matches buffer r then apply_row buffer r else id)"

lemma parse_steps:
  assumes "length buffer < 50"
  shows "ty \<in> {''alarm'', ''alert'', ''commandLog''} \<Longrightarrow>
      parseLogFileName buffer key ty c = Some (step_row buffer (key, ty, FileName) c)"
   and "parseFilesRotated buffer key ty c = Some (step_row buffer (key, ty, FilesRotated) c)"
   and "parseFileSize buffer key ty c = Some (step_row buffer (key, ty, FileSize) c)"
   and "parseRecordSize buffer key ty c = Some (step_row buffer (key, ty, RecordSize) c)"
  using assms by (auto simp: parse_numbers parse_number_row step_row_def parseLogFileName_def Let_def put_field_def
      simp del: config_field.distinct)

lemma table_prefix_free:
  "list_all (\<lambda>r. list_all (\<lambda>r'. r = r' \<or> \<not> prefix (fst r) (fst r')) config_table) config_table"
  by (simp add: config_table_def)

lemma match_unique:
  assumes "r \<in> set config_table" "r' \<in> set config_table" "matches b r" "matches b r'"
  shows "r = r'"
proof -
  have pre: "prefix (fst x) b" if "matches b x" for x
    using that by (cases x) (auto simp: prefix_def, metis append_take_drop_id)
  have "prefix (fst r) (fst r') \<or> prefix (fst r') (fst r)"
    using pre [OF assms(3)] pre [OF assms(4)] by (rule prefix_same_cases)
  moreover have "r = r' \<or> \<not> prefix (fst r) (fst r')" "r' = r \<or> \<not> prefix (fst r') (fst r)"
    using table_prefix_free assms(1,2) unfolding list_all_iff by blast+
  ultimately show ?thesis by blast
qed

lemma find_unique:
  "r \<in> set rs \<Longrightarrow> P r \<Longrightarrow> (\<And>x. x \<in> set rs \<Longrightarrow> P x \<Longrightarrow> x = r) \<Longrightarrow> List.find P rs = Some r"
proof (induction rs)
  case (Cons a rs)
  show ?case
  proof (cases "P a")
    case True
    then have "a = r" using Cons.prems(3) [of a] by simp
    then show ?thesis using True by simp
  next
    case False
    then have "r \<in> set rs" using Cons.prems(1,2) by auto
    then have "List.find P rs = Some r" using Cons.prems(2,3) by (intro Cons.IH) auto
    then show ?thesis using False by simp
  qed
qed simp

lemma fold_unique:
  assumes "\<And>r r'. r \<in> set rs \<Longrightarrow> r' \<in> set rs \<Longrightarrow> matches b r \<Longrightarrow> matches b r' \<Longrightarrow> r = r'" "distinct rs"
  shows "fold (step_row b) rs c =
     (case List.find (matches b) rs of None \<Rightarrow> c | Some r \<Rightarrow> apply_row b r c)"
  using assms
proof (induction rs arbitrary: c)
  case (Cons r rs)
  show ?case
  proof (cases "matches b r")
    case True
    have "\<not> matches b x" if "x \<in> set rs" for x
      using Cons.prems(1) [of r x] Cons.prems(2) that True by auto
    then have "List.find (matches b) rs = None" unfolding find_None_iff by blast
    with Cons True show ?thesis by (simp add: step_row_def)
  next
    case False
    with Cons show ?thesis by (simp add: step_row_def)
  qed
qed simp

lemma parse_keys_apply_line:
  assumes "length buffer < 50"
  shows "parse_keys buffer c = Some (apply_line buffer c)"
proof -
  have "distinct config_table" by (simp add: config_table_def)
  then have "apply_line buffer c = fold (step_row buffer) config_table c"
    using fold_unique [of config_table buffer c] match_unique [of _ _ buffer] by (auto simp: apply_line_def)
  then show ?thesis
    unfolding parse_keys_def config_keys config_table_def
    by (simp add: parse_steps [OF assms] del: apply_row.simps matches.simps)
qed

text \<open>
  C38. A line of the configuration file changes exactly the setting the table names for it: the
  chain of twelve parse calls behind the blank filter is a look-up in \<open>config_table\<close>, a number
  with anything but digits changes nothing, lines above 50 characters are skipped, and the one
  line that writes outside the buffer is a line of exactly 50 characters without a blank.
\<close>

theorem parse_line_is_table_lookup:
  "parseSaLogConfig line c =
     (if 50 < length line then Some c
      else if length line = 50 \<and> filter not_blank line = line then None
      else Some (apply_line (filter not_blank line) c))"
proof -
  have "length (filter not_blank line) < 50" if "length line \<le> 50" "\<not> (length line = 50 \<and> filter not_blank line = line)"
  proof (cases "length line = 50")
    case True
    then have "\<exists>x\<in>set line. \<not> not_blank x" using that filter_id_conv [of not_blank line] by blast
    then show ?thesis using True length_filter_less [of _ line not_blank] by auto
  qed (use that length_filter_le [of not_blank line] in linarith)
  moreover have "length (filter not_blank line) = 50" if "length line = 50 \<and> filter not_blank line = line"
    using that by simp
  ultimately show ?thesis by (auto simp: parseSaLogConfig_def Let_def parse_keys_apply_line)
qed

section \<open>Numbers are read back\<close>

lemma strtoull0_decimal: "n < 2 ^ 64 \<Longrightarrow> strtoull0 (decimal n) = of_nat n"
proof (cases "n = 0")
  case True
  then show ?thesis by (simp add: strtoull0_def decimal.simps [of 0] digit_char_0 digits_value_def)
next
  case False
  assume n: "n < 2 ^ 64"
  from False obtain c cs where d: "decimal n = c # cs" "c \<noteq> CHR ''0''" using decimal_hd by blast
  have "strtoull0 (decimal n) = of_nat (min (digits_value 10 (decimal n)) (2 ^ 64 - 1))"
    using d by (simp add: strtoull0_def)
  then show ?thesis using n by (simp add: decimal_value min_def)
qed

lemma not_blank_digits: "list_all isdigit ds \<Longrightarrow> filter not_blank ds = ds"
  by (induction ds) (auto simp: isdigit_def not_blank_def newline_def)

lemma table_keys: "list_all (\<lambda>(key, ty, f). filter not_blank key = key \<and> length key < 25) config_table"
  by (simp add: config_table_def not_blank_def newline_def)

text \<open>
  C37. A number below \<open>2^64\<close> written in decimal after one of the nine numeric keys, alone on its
  line, is read back: the attribute of the named log becomes that number, cut to the width of the
  attribute, and nothing else changes.
\<close>

theorem number_line_roundtrip:
  assumes "(key, ty, f) \<in> set config_table" "f \<noteq> FileName" "n < 2 ^ 64"
  shows "parseSaLogConfig (key @ decimal n @ [newline]) c = Some (update_attrs ty (put_number f (of_nat n)) c)"
proof -
  have key: "filter not_blank key = key" "length key < 25" using table_keys assms(1) by (auto simp: list_all_iff)
  have len: "length (decimal n) \<le> 20" using decimal_length [of n 20] assms(3) by simp
  have blank: "filter not_blank (key @ decimal n @ [newline]) = key @ decimal n"
    using key not_blank_digits [OF decimal_digits] by (simp add: not_blank_def)
  have m: "matches (key @ decimal n) (key, ty, f)" by simp
  have "List.find (matches (key @ decimal n)) config_table = Some (key, ty, f)"
    using find_unique [OF assms(1), of "matches (key @ decimal n)"] match_unique [OF _ assms(1) _ m] m by blast
  then have "apply_line (key @ decimal n) c = update_attrs ty (put_number f (of_nat n)) c"
    using assms(2) by (simp add: apply_line_def put_field_def decimal_digits strtoull0_decimal [OF assms(3)])
  moreover have "filter not_blank (key @ decimal n @ [newline]) \<noteq> key @ decimal n @ [newline]"
    by (simp only: blank) simp
  ultimately show ?thesis using key len
    by (simp only: parse_line_is_table_lookup blank) simp
qed

theorem number_line_roundtrip_witness:
  "parseSaLogConfig (''AlertMaxLogFileSize='' @ decimal 18446744073709551615 @ [newline]) default_log_conf =
     Some (update_attrs ''alert'' (\<lambda>a. a\<lparr>maxLogFileSize := of_nat 18446744073709551615\<rparr>) default_log_conf)"
  using number_line_roundtrip [of "''AlertMaxLogFileSize=''" "''alert''" FileSize 18446744073709551615 default_log_conf]
  by (simp only: put_number_fun) (simp add: config_table_def)

section \<open>The file\<close>

lemma fgets_line: "newline \<notin> set l \<Longrightarrow> length l < n \<Longrightarrow> fgets_from n (l @ newline # r) = (l @ [newline], r)"
proof (induction l arbitrary: n)
  case Nil
  then show ?case by (cases n) auto
next
  case (Cons a l)
  then show ?case by (cases n) auto
qed

lemma fgets_full: "newline \<notin> set l \<Longrightarrow> length l = n \<Longrightarrow> fgets_from n (l @ r) = (l, r)"
proof (induction l arbitrary: n)
  case (Cons a l)
  then show ?case by (cases n) auto
qed simp

lemma fgets_all: "newline \<notin> set l \<Longrightarrow> length l < n \<Longrightarrow> fgets_from n l = (l, [])"
proof (induction l arbitrary: n)
  case (Cons a l)
  then show ?case by (cases n) auto
qed simp

lemma parse_file_step:
  "s \<noteq> [] \<Longrightarrow> fgets_from 255 s = (l, r) \<Longrightarrow> parse_file s c = Option.bind (parseSaLogConfig l c) (parse_file r)"
  by (subst parse_file.simps) (auto split: list.splits option.splits)

text \<open>
  C36. A configuration file whose lines fit the read buffer is parsed line by line, from the first
  to the last, each line on what the lines before it left.
\<close>

theorem config_file_by_lines:
  assumes "list_all (\<lambda>l. length l < 255 \<and> newline \<notin> set l) ls"
  shows "parse_file (concat (map (\<lambda>l. l @ [newline]) ls)) c =
     foldl (\<lambda>r l. Option.bind r (parseSaLogConfig (l @ [newline]))) (Some c) ls"
  using assms
proof (induction ls arbitrary: c)
  case Nil
  then show ?case by (simp add: parse_file.simps)
next
  case (Cons l ls)
  have none: "foldl (\<lambda>r l. Option.bind r (parseSaLogConfig (l @ [newline]))) None ks = None" for ks
    by (induction ks) auto
  have "parse_file (concat (map (\<lambda>l. l @ [newline]) (l # ls))) c =
      Option.bind (parseSaLogConfig (l @ [newline]) c) (parse_file (concat (map (\<lambda>l. l @ [newline]) ls)))"
    by (rule parse_file_step) (use Cons.prems fgets_line [of l 255] in auto)
  also have "\<dots> = foldl (\<lambda>r l. Option.bind r (parseSaLogConfig (l @ [newline]))) (Some c) (l # ls)"
    using Cons.IH Cons.prems none by (cases "parseSaLogConfig (l @ [newline]) c") auto
  finally show ?case .
qed

theorem config_file_by_lines_witness:
  "parse_file (concat (map (\<lambda>l. l @ [newline]) [''AlarmFilesRotated=5'', ''# comment'', ''AlarmFilesRotated=7''])) default_log_conf =
     Some (update_attrs ''alarm'' (\<lambda>a. a\<lparr>maxFilesRotated := 7\<rparr>) default_log_conf)"
  apply (subst config_file_by_lines)
   apply (simp add: newline_def)
  apply (simp add: parse_line_is_table_lookup not_blank_def newline_def apply_line_def config_table_def put_field_def
    isdigit_def strtoull0_def digits_value_def digit_value_def update_attrs_def default_log_conf_def)
  done

text \<open>
  The part of a line behind its 255th character is read as a line of its own: a setting
  there is obeyed, whatever stands before it.
\<close>

theorem long_line_tail_is_parsed:
  assumes "length l = 255" "newline \<notin> set l"
  shows "parse_file (l @ r) c = parse_file r c"
proof -
  have "parse_file (l @ r) c = Option.bind (parseSaLogConfig l c) (parse_file r)"
    by (rule parse_file_step) (use assms fgets_full [of l 255 r] in auto)
  then show ?thesis using assms by (simp add: parseSaLogConfig_def)
qed

theorem long_line_tail_is_parsed_witness:
  "parse_file (replicate 255 CHR ''#'' @ ''AlarmFilesRotated=1'') default_log_conf =
     Some (update_attrs ''alarm'' (\<lambda>a. a\<lparr>maxFilesRotated := 1\<rparr>) default_log_conf)"
proof -
  have "parse_file (replicate 255 CHR ''#'' @ ''AlarmFilesRotated=1'') default_log_conf =
      parse_file ''AlarmFilesRotated=1'' default_log_conf"
    by (rule long_line_tail_is_parsed) (simp_all add: newline_def)
  also have "\<dots> = parse_file [] (update_attrs ''alarm'' (\<lambda>a. a\<lparr>maxFilesRotated := 1\<rparr>) default_log_conf)"
  proof (subst parse_file_step [where r = "[]"])
    show "fgets_from 255 ''AlarmFilesRotated=1'' = (''AlarmFilesRotated=1'', [])"
      by (rule fgets_all) (simp_all add: newline_def)
    show "Option.bind (parseSaLogConfig ''AlarmFilesRotated=1'' default_log_conf) (parse_file []) =
       parse_file [] (update_attrs ''alarm'' (\<lambda>a. a\<lparr>maxFilesRotated := 1\<rparr>) default_log_conf)"
      by (simp add: parse_line_is_table_lookup not_blank_def newline_def apply_line_def
        config_table_def put_field_def isdigit_def strtoull0_def digits_value_def digit_value_def put_number_fun)
  qed simp
  finally show ?thesis by (simp add: parse_file.simps)
qed

section \<open>White space\<close>

lemma first_letter_drop: "pos \<le> length s \<Longrightarrow> drop (first_letter s pos) s = dropWhile is_space (drop pos s) \<and>
    first_letter s pos \<le> length s"
proof (induction s pos rule: first_letter.induct)
  case (1 s pos)
  show ?case
  proof (cases "pos < length s")
    case True
    then have drop: "drop pos s = s ! pos # drop (Suc pos) s" by (rule Cons_nth_drop_Suc [symmetric])
    show ?thesis
    proof (cases "is_space (s ! pos)")
      case space: True
      then have "first_letter s pos = first_letter s (Suc pos)" using True by (simp add: first_letter.simps [of s pos])
      with 1 True space show ?thesis by (simp add: drop)
    next
      case False
      then have "first_letter s pos = pos" using True by (simp add: first_letter.simps [of s pos])
      with False True show ?thesis by (simp add: drop)
    qed
  next
    case False
    then have "first_letter s pos = pos" by (simp add: first_letter.simps [of s pos])
    with False 1 show ?thesis by simp
  qed
qed

lemma last_letter_take:
  "pos < length s \<Longrightarrow> \<not> is_space (s ! 0) \<Longrightarrow>
     take (Suc (last_letter s pos)) s = rev (dropWhile is_space (rev (take (Suc pos) s)))"
  by (induction pos) (auto simp: take_Suc_conv_app_nth)

text \<open>
  \<open>trimWhiteSpace\<close> is the removal of all spaces, tabs and newlines at both ends, whatever
  the string: its index arithmetic never leaves the string.
\<close>

theorem trim_is_strip:
  "trimWhiteSpace (Some s) = (True, Some (rev (dropWhile is_space (rev (dropWhile is_space s)))))"
proof (cases "first_letter s 0 = length s")
  case True
  then have e: "dropWhile is_space s = []" using first_letter_drop [of 0 s] by simp
  show ?thesis unfolding e using True by (simp add: trimWhiteSpace_def)
next
  case False
  define t where "t = drop (first_letter s 0) s"
  have "first_letter s 0 \<le> length s" using first_letter_drop [of 0 s] by blast
  then have "t \<noteq> []" using False by (simp add: t_def)
  moreover have "t = dropWhile is_space s" using first_letter_drop [of 0 s] by (simp add: t_def)
  ultimately have t: "t = dropWhile is_space s" "t \<noteq> []" by blast+
  then have hd: "\<not> is_space (t ! 0)" using hd_dropWhile [of is_space s] by (simp add: hd_conv_nth)
  have take: "take (Suc (last_letter t (length t - 1))) t = rev (dropWhile is_space (rev t))"
    using last_letter_take [of "length t - 1" t] hd t(2) by simp
  have "s \<noteq> []" using t by auto
  then have "trimWhiteSpace (Some s) = (True, Some (take (Suc (last_letter t (length t - 1))) t))"
    using False hd t(2) unfolding trimWhiteSpace_def Let_def by (simp add: t_def [symmetric])
  then show ?thesis by (simp only: take t(1) [symmetric])
qed

end
