(* ===== verification/ImmUtils.thy ===== *)
theory ImmUtils
  imports Outside
begin

text \<open>
  The wrappers around the information model service (\<open>utils/imm_utils.cc\<close>): every call is
  repeated as long as the service answers "try again", and the helpers that build attribute
  modifications and name the error codes.
\<close>

section \<open>Calls that are repeated\<close>

record ImmAutoRetryProfile =
  errorsAreNonFatal :: int
  nTries :: "32 word"
  retryInterval :: "32 word"

definition immAutoRetryProfile :: ImmAutoRetryProfile where
  "immAutoRetryProfile = \<lparr>errorsAreNonFatal = 1, nTries = 25, retryInterval = 400\<rparr>"

definition imm_version :: version where
  "imm_version = (CHR ''A'', 2, 15)"

definition try_again :: "SaAisErrorT \<Rightarrow> bool" where
  "try_again rc \<longleftrightarrow> rc = SA_AIS_ERR_TRY_AGAIN"

definition again_or_exist :: "SaAisErrorT \<Rightarrow> bool" where
  "again_or_exist rc \<longleftrightarrow> rc = SA_AIS_ERR_TRY_AGAIN \<or> rc = SA_AIS_ERR_EXIST"

text \<open>
  The shape all wrappers share: \<open>c\<close> is the first call, \<open>nxt\<close> the call to repeat after an answer
  (a version parameter may have changed), \<open>again\<close> the codes that ask for a repetition.
\<close>

definition retry_more :: "(SaAisErrorT \<Rightarrow> bool) \<Rightarrow> answer \<times> 32 word \<Rightarrow> bool" where
  "retry_more again = (\<lambda>(a, n). again (a_rc a) \<and>
     (n < nTries immAutoRetryProfile \<or> errorsAreNonFatal immAutoRetryProfile \<noteq> 0))"

definition retry_body :: "outside \<Rightarrow> (answer \<Rightarrow> ocall) \<Rightarrow> answer \<times> 32 word \<Rightarrow>
    ('b world_scheme, answer \<times> 32 word) prog" where
  "retry_body E nxt = (\<lambda>(a, n).
     andthen (do_call E (Usleep (unat (retryInterval immAutoRetryProfile * 1000))))
       (bnd (call E (nxt a)) (\<lambda>a. return (a, n + 1))))"

definition auto_retry_from :: "outside \<Rightarrow> (SaAisErrorT \<Rightarrow> bool) \<Rightarrow> (answer \<Rightarrow> ocall) \<Rightarrow> ocall \<Rightarrow>
    ('b world_scheme, answer) prog" where
  "auto_retry_from E again nxt c =
     bnd (call E c) (\<lambda>a. bnd (while_prog (retry_more again) (retry_body E nxt) (a, 1))
       (\<lambda>(a, n). return a))"

definition auto_retry :: "outside \<Rightarrow> (SaAisErrorT \<Rightarrow> bool) \<Rightarrow> ocall \<Rightarrow> ('b world_scheme, answer) prog" where
  "auto_retry E again c = auto_retry_from E again (\<lambda>a. c) c"

section \<open>Object implementer\<close>

definition autoRetry_saImmOiInitialize_2 :: "outside \<Rightarrow> nat \<Rightarrow> version \<Rightarrow> ('b world_scheme, answer) prog" where
  "autoRetry_saImmOiInitialize_2 E callbacks ver =
     bnd (auto_retry E try_again (SaImmOiInitialize_2 callbacks ver))
       (\<lambda>a. andthen (modify (\<lambda>w. w\<lparr>imm_version_latest := a_version a\<rparr>)) (return a))"

definition autoRetry_saImmOiSelectionObjectGet :: "outside \<Rightarrow> handle \<Rightarrow> ('b world_scheme, answer) prog" where
  "autoRetry_saImmOiSelectionObjectGet E h = auto_retry E try_again (SaImmOiSelectionObjectGet h)"

definition autoRetry_saImmOiClassImplementerSet :: "outside \<Rightarrow> handle \<Rightarrow> string \<Rightarrow> ('b world_scheme, answer) prog" where
  "autoRetry_saImmOiClassImplementerSet E h className = auto_retry E again_or_exist (SaImmOiClassImplementerSet h className)"

definition autoRetry_saImmOiClassImplementerRelease :: "outside \<Rightarrow> handle \<Rightarrow> string \<Rightarrow> ('b world_scheme, answer) prog" where
  "autoRetry_saImmOiClassImplementerRelease E h className = auto_retry E try_again (SaImmOiClassImplementerRelease h className)"

definition autoRetry_saImmOiObjectImplementerSet :: "outside \<Rightarrow> handle \<Rightarrow> string \<Rightarrow> nat \<Rightarrow> ('b world_scheme, answer) prog" where
  "autoRetry_saImmOiObjectImplementerSet E h objectName scope = auto_retry E try_again (SaImmOiObjectImplementerSet h objectName scope)"

definition autoRetry_saImmOiObjectImplementerRelease :: "outside \<Rightarrow> handle \<Rightarrow> string \<Rightarrow> nat \<Rightarrow> ('b world_scheme, answer) prog" where
  "autoRetry_saImmOiObjectImplementerRelease E h objectName scope = auto_retry E try_again (SaImmOiObjectImplementerRelease h objectName scope)"

definition autoRetry_saImmOiImplementerSet :: "outside \<Rightarrow> handle \<Rightarrow> string \<Rightarrow> ('b world_scheme, answer) prog" where
  "autoRetry_saImmOiImplementerSet E h implementerName = auto_retry E try_again (SaImmOiImplementerSet h implementerName)"

definition autoRetry_saImmOiImplementerClear :: "outside \<Rightarrow> handle \<Rightarrow> ('b world_scheme, answer) prog" where
  "autoRetry_saImmOiImplementerClear E h = auto_retry E try_again (SaImmOiImplementerClear h)"

definition autoRetry_saImmOiRtObjectCreate_2 :: "outside \<Rightarrow> handle \<Rightarrow> string \<Rightarrow> string option \<Rightarrow> imm_attr list \<Rightarrow> ('b world_scheme, answer) prog" where
  "autoRetry_saImmOiRtObjectCreate_2 E h className parentName attrs = auto_retry E try_again (SaImmOiRtObjectCreate_2 h className parentName attrs)"

definition autoRetry_saImmOiRtObjectDelete :: "outside \<Rightarrow> handle \<Rightarrow> string \<Rightarrow> ('b world_scheme, answer) prog" where
  "autoRetry_saImmOiRtObjectDelete E h objectName = auto_retry E try_again (SaImmOiRtObjectDelete h objectName)"

definition autoRetry_saImmOiRtObjectUpdate_2 :: "outside \<Rightarrow> handle \<Rightarrow> string \<Rightarrow> imm_mod list \<Rightarrow> ('b world_scheme, answer) prog" where
  "autoRetry_saImmOiRtObjectUpdate_2 E h objectName attrMods = auto_retry E try_again (SaImmOiRtObjectUpdate_2 h objectName attrMods)"

definition autoRetry_saImmOiAdminOperationResult_o2 :: "outside \<Rightarrow> handle \<Rightarrow> nat \<Rightarrow> SaAisErrorT \<Rightarrow> nat \<Rightarrow> ('b world_scheme, answer) prog" where
  "autoRetry_saImmOiAdminOperationResult_o2 E h invocation result returnParams = auto_retry E try_again (SaImmOiAdminOperationResult_o2 h invocation result returnParams)"

definition autoRetry_saImmOiFinalize :: "outside \<Rightarrow> handle \<Rightarrow> ('b world_scheme, answer) prog" where
  "autoRetry_saImmOiFinalize E h = auto_retry E try_again (SaImmOiFinalize h)"

section \<open>Object management\<close>

definition autoRetry_saImmOmInitializeAttempt :: "outside \<Rightarrow> nat \<Rightarrow> version \<Rightarrow>
    ('b world_scheme, answer \<times> version) prog" where
  "autoRetry_saImmOmInitializeAttempt E callbacks ver =
     bnd (auto_retry_from E try_again (\<lambda>a. SaImmOmInitialize callbacks (a_version a))
            (SaImmOmInitialize callbacks ver))
       (\<lambda>a. return (a, if a_rc a = SA_AIS_OK then a_version a else ver))"

definition autoRetry_saImmOmInitialize :: "outside \<Rightarrow> nat \<Rightarrow> version \<Rightarrow> ('b world_scheme, answer) prog" where
  "autoRetry_saImmOmInitialize E callbacks ver =
     bnd (autoRetry_saImmOmInitializeAttempt E callbacks ver) (\<lambda>(a, localVersion). return a)"

definition autoRetry_saImmOmInitialize_getVersion :: "outside \<Rightarrow> nat \<Rightarrow> version \<Rightarrow>
    ('b world_scheme, answer \<times> version) prog" where
  "autoRetry_saImmOmInitialize_getVersion E callbacks ver =
     bnd (autoRetry_saImmOmInitializeAttempt E callbacks ver)
       (\<lambda>(a, localVersion). return (a, if a_rc a = SA_AIS_OK then localVersion else ver))"

definition autoRetry_saImmOmSearchInitialize_2 :: "outside \<Rightarrow> handle \<Rightarrow> string option \<Rightarrow> nat \<Rightarrow> nat \<Rightarrow> imm_attr option \<Rightarrow> string list \<Rightarrow> ('b world_scheme, answer) prog" where
  "autoRetry_saImmOmSearchInitialize_2 E h rootName scope searchOptions searchParam attrNames = auto_retry E try_again (SaImmOmSearchInitialize_2 h rootName scope searchOptions searchParam attrNames)"

definition autoRetry_saImmOmSearchNext_2 :: "outside \<Rightarrow> handle \<Rightarrow> ('b world_scheme, answer) prog" where
  "autoRetry_saImmOmSearchNext_2 E h = auto_retry E try_again (SaImmOmSearchNext_2 h)"

definition autoRetry_saImmOmSearchFinalize :: "outside \<Rightarrow> handle \<Rightarrow> ('b world_scheme, answer) prog" where
  "autoRetry_saImmOmSearchFinalize E h = auto_retry E try_again (SaImmOmSearchFinalize h)"

definition autoRetry_saImmOmFinalize :: "outside \<Rightarrow> handle \<Rightarrow> ('b world_scheme, answer) prog" where
  "autoRetry_saImmOmFinalize E h = auto_retry E try_again (SaImmOmFinalize h)"

definition autoRetry_saImmOmAccessorFinalize :: "outside \<Rightarrow> handle \<Rightarrow> ('b world_scheme, answer) prog" where
  "autoRetry_saImmOmAccessorFinalize E h = auto_retry E try_again (SaImmOmAccessorFinalize h)"

definition autoRetry_saImmOmAccessorInitialize :: "outside \<Rightarrow> handle \<Rightarrow> ('b world_scheme, answer) prog" where
  "autoRetry_saImmOmAccessorInitialize E h = auto_retry E try_again (SaImmOmAccessorInitialize h)"

definition autoRetry_saImmOmAccessorGet_2 :: "outside \<Rightarrow> handle \<Rightarrow> string \<Rightarrow> string list \<Rightarrow> ('b world_scheme, answer) prog" where
  "autoRetry_saImmOmAccessorGet_2 E h objectName attrNames = auto_retry E try_again (SaImmOmAccessorGet_2 h objectName attrNames)"

definition autoRetry_saImmOmClassDescriptionGet_2 :: "outside \<Rightarrow> handle \<Rightarrow> string \<Rightarrow> ('b world_scheme, answer) prog" where
  "autoRetry_saImmOmClassDescriptionGet_2 E h className = auto_retry E try_again (SaImmOmClassDescriptionGet_2 h className)"

definition autoRetry_saImmOmClassCreate_2 :: "outside \<Rightarrow> handle \<Rightarrow> string \<Rightarrow> nat \<Rightarrow> imm_attr_def list \<Rightarrow> ('b world_scheme, answer) prog" where
  "autoRetry_saImmOmClassCreate_2 E h className classCategory attrDefs = auto_retry E try_again (SaImmOmClassCreate_2 h className classCategory attrDefs)"

definition autoRetry_saImmOmClassDelete :: "outside \<Rightarrow> handle \<Rightarrow> string \<Rightarrow> ('b world_scheme, answer) prog" where
  "autoRetry_saImmOmClassDelete E h className = auto_retry E try_again (SaImmOmClassDelete h className)"

definition om_imm_finalize :: "outside \<Rightarrow> handle \<Rightarrow> handle \<Rightarrow> ('b world_scheme, unit) prog" where
  "om_imm_finalize E immOmHandle accessorHandle =
     unless (immOmHandle = 0)
       (andthen (unless (accessorHandle = 0) (do_call E (SaImmOmAccessorFinalize accessorHandle)))
         (bnd (autoRetry_saImmOmFinalize E immOmHandle) (\<lambda>a. return ())))"

section \<open>Error names\<close>

text \<open>The numbers of the enumeration.\<close>

fun ais_code :: "SaAisErrorT \<Rightarrow> int" where
  "ais_code SA_AIS_OK = 1"
| "ais_code SA_AIS_ERR_LIBRARY = 2"
| "ais_code SA_AIS_ERR_VERSION = 3"
| "ais_code SA_AIS_ERR_INIT = 4"
| "ais_code SA_AIS_ERR_TIMEOUT = 5"
| "ais_code SA_AIS_ERR_TRY_AGAIN = 6"
| "ais_code SA_AIS_ERR_INVALID_PARAM = 7"
| "ais_code SA_AIS_ERR_NO_MEMORY = 8"
| "ais_code SA_AIS_ERR_BAD_HANDLE = 9"
| "ais_code SA_AIS_ERR_BUSY = 10"
| "ais_code SA_AIS_ERR_ACCESS = 11"
| "ais_code SA_AIS_ERR_NOT_EXIST = 12"
| "ais_code SA_AIS_ERR_NAME_TOO_LONG = 13"
| "ais_code SA_AIS_ERR_EXIST = 14"
| "ais_code SA_AIS_ERR_NO_SPACE = 15"
| "ais_code SA_AIS_ERR_INTERRUPT = 16"
| "ais_code SA_AIS_ERR_NAME_NOT_FOUND = 17"
| "ais_code SA_AIS_ERR_NO_RESOURCES = 18"
| "ais_code SA_AIS_ERR_NOT_SUPPORTED = 19"
| "ais_code SA_AIS_ERR_BAD_OPERATION = 20"
| "ais_code SA_AIS_ERR_FAILED_OPERATION = 21"
| "ais_code SA_AIS_ERR_MESSAGE_ERROR = 22"
| "ais_code SA_AIS_ERR_QUEUE_FULL = 23"
| "ais_code SA_AIS_ERR_QUEUE_NOT_AVAILABLE = 24"
| "ais_code SA_AIS_ERR_BAD_FLAGS = 25"
| "ais_code SA_AIS_ERR_TOO_BIG = 26"
| "ais_code SA_AIS_ERR_NO_SECTIONS = 27"
| "ais_code SA_AIS_ERR_NO_OP = 28"
| "ais_code SA_AIS_ERR_REPAIR_PENDING = 29"
| "ais_code SA_AIS_ERR_NO_BINDINGS = 30"
| "ais_code SA_AIS_ERR_UNAVAILABLE = 31"
| "ais_code SA_AIS_ERR_CAMPAIGN_ERROR_DETECTED = 32"
| "ais_code SA_AIS_ERR_CAMPAIGN_PROC_FAILED = 33"
| "ais_code SA_AIS_ERR_CAMPAIGN_CANCELED = 34"
| "ais_code SA_AIS_ERR_CAMPAIGN_FAILED = 35"
| "ais_code SA_AIS_ERR_CAMPAIGN_SUSPENDED = 36"
| "ais_code SA_AIS_ERR_CAMPAIGN_SUSPENDING = 37"
| "ais_code SA_AIS_ERR_ACCESS_DENIED = 38"
| "ais_code SA_AIS_ERR_NOT_READY = 39"
| "ais_code SA_AIS_ERR_DEPLOYMENT = 40"
| "ais_code (SA_AIS_VALUE n) = n"

definition saf_error_name :: "string list" where
  "saf_error_name =
    [''OUT_OF_RANGE'', ''SA_AIS_OK (1)'',
     ''SA_AIS_ERR_LIBRARY (2)'', ''SA_AIS_ERR_VERSION (3)'',
     ''SA_AIS_ERR_INIT (4)'', ''SA_AIS_ERR_TIMEOUT (5)'',
     ''SA_AIS_ERR_TRY_AGAIN (6)'', ''SA_AIS_ERR_INVALID_PARAM (7)'',
     ''SA_AIS_ERR_NO_MEMORY (8)'', ''SA_AIS_ERR_BAD_HANDLE (9)'',
     ''SA_AIS_ERR_BUSY (10)'', ''SA_AIS_ERR_ACCESS (11)'',
     ''SA_AIS_ERR_NOT_EXIST (12)'', ''SA_AIS_ERR_NAME_TOO_LONG (13)'',
     ''SA_AIS_ERR_EXIST (14)'', ''SA_AIS_ERR_NO_SPACE (15)'',
     ''SA_AIS_ERR_INTERRUPT (16)'', ''SA_AIS_ERR_NAME_NOT_FOUND (17)'',
     ''SA_AIS_ERR_NO_RESOURCES (18)'', ''SA_AIS_ERR_NOT_SUPPORTED (19)'',
     ''SA_AIS_ERR_BAD_OPERATION (20)'', ''SA_AIS_ERR_FAILED_OPERATION (21)'',
     ''SA_AIS_ERR_MESSAGE_ERROR (22)'', ''SA_AIS_ERR_QUEUE_FULL (23)'',
     ''SA_AIS_ERR_QUEUE_NOT_AVAILABLE (24)'', ''SA_AIS_ERR_BAD_FLAGS (25)'',
     ''SA_AIS_ERR_TOO_BIG (26)'', ''SA_AIS_ERR_NO_SECTIONS (27)'',
     ''SA_AIS_ERR_NO_OP (28)'', ''SA_AIS_ERR_REPAIR_PENDING (29)'',
     ''SA_AIS_ERR_NO_BINDINGS (30)'', ''SA_AIS_ERR_UNAVAILABLE (31)'',
     ''SA_AIS_ERR_CAMPAIGN_ERROR_DETECTED (32)'', ''SA_AIS_ERR_CAMPAIGN_PROC_FAILED (33)'',
     ''SA_AIS_ERR_CAMPAIGN_CANCELED (34)'', ''SA_AIS_ERR_CAMPAIGN_FAILED (35)'',
     ''SA_AIS_ERR_CAMPAIGN_SUSPENDED (36)'', ''SA_AIS_ERR_CAMPAIGN_SUSPENDING (37)'',
     ''SA_AIS_ERR_ACCESS_DENIED (38)'', ''SA_AIS_ERR_NOT_READY (39)'',
     ''SA_AIS_ERR_DEPLOYMENT (40)'']"

definition getOpenSAFErrorString :: "int \<Rightarrow> string" where
  "getOpenSAFErrorString error =
     (if error < 0 \<or> error > ais_code SA_AIS_ERR_DEPLOYMENT then saf_error_name ! 0
      else saf_error_name ! nat error)"

section \<open>Attribute modifications\<close>

definition allocateUint32AttrValueArray :: "32 word \<Rightarrow> imm_value list" where
  "allocateUint32AttrValueArray v = [VUint32 v]"

definition allocateUint32AttrMod :: "string \<Rightarrow> 32 word \<Rightarrow> imm_mod" where
  "allocateUint32AttrMod name v = \<lparr>modType = SA_IMM_ATTR_VALUES_REPLACE,
     modAttr = \<lparr>attrName = name, attrValueType = SA_IMM_ATTR_SAUINT32T,
       attrValues = allocateUint32AttrValueArray v\<rparr>\<rparr>"

definition allocateUint64AttrValueArray :: "64 word \<Rightarrow> imm_value list" where
  "allocateUint64AttrValueArray v = [VUint64 v]"

definition allocateUint64AttrMod :: "string \<Rightarrow> 64 word \<Rightarrow> imm_mod" where
  "allocateUint64AttrMod name v = \<lparr>modType = SA_IMM_ATTR_VALUES_REPLACE,
     modAttr = \<lparr>attrName = name, attrValueType = SA_IMM_ATTR_SAUINT64T,
       attrValues = allocateUint64AttrValueArray v\<rparr>\<rparr>"

definition allocateStringAttrValueArray :: "string \<Rightarrow> imm_value list" where
  "allocateStringAttrValueArray v = [VString v]"

definition allocateStringAttrMod :: "string \<Rightarrow> string \<Rightarrow> imm_mod" where
  "allocateStringAttrMod name v = \<lparr>modType = SA_IMM_ATTR_VALUES_REPLACE,
     modAttr = \<lparr>attrName = name, attrValueType = SA_IMM_ATTR_SASTRINGT,
       attrValues = allocateStringAttrValueArray v\<rparr>\<rparr>"

end
