(* ===== verification/LogStream.thy ===== *)
theory LogStream
  imports LogConf ImmUtils SelectTimer
begin

unbundle bit_operations_syntax

text \<open>
  The five log streams of \<open>log/ComSALogService.c\<close>: what the file keeps of each, the call-backs of
  the log library, the threads that open a stream and the functions that close it.  The
  call-backs are registered with the poll table \<open>comSASThandle_ntf\<close> of \<open>SelectTimer\<close>.
  The text of a \<open>syslog\<close> call is the fixed part of its message.
\<close>

section \<open>State\<close>

record log_stream =
  log_handle :: handle
  stream_handle :: handle
  file_open :: bool
  logger_name :: string
  stream_name :: string
  selection_object :: int
  open_thread :: nat
  sev_flags :: "16 word"

record log_world = world +
  streams :: "log_id \<Rightarrow> log_stream"
  log_attrs :: log_conf
  update_name :: "log_id \<Rightarrow> bool"
  write_status :: "log_id \<Rightarrow> bool"       \<comment> \<open>\<open>log_status\<close>, \<open>alarm_status\<close>, \<open>alert_status\<close>\<close>
  logMEnabled :: bool
  traceWrite :: bool                     \<comment> \<open>the pointer is not null\<close>
  IdentityString :: "string option"
  cmdLogString :: "string option"
  trace_flag :: int                      \<comment> \<open>a global of the trace service\<close>
  ntf_event_pipe :: "int \<times> int"
  ntf_poll :: TimeHandle                 \<comment> \<open>\<open>comSASThandle_ntf\<close>\<close>
  cc_name :: string                      \<comment> \<open>\<open>_CC_NAME\<close>\<close>
  cc_name_upper :: string
  audit_logging :: bool                  \<comment> \<open>the pointer of \<open>ac/ComSAAc.c\<close> is not null\<close>

type_synonym 'a logp = "(log_world, 'a) prog"

text \<open>The statics when the library is loaded.\<close>

definition SA_LOG_SEV_FLAG_ALL :: "16 word" where "SA_LOG_SEV_FLAG_ALL = 0x007F"
definition SALOG_SEV_FLAG_INFO_OFF :: "16 word" where "SALOG_SEV_FLAG_INFO_OFF = 0x003F"

definition zero_attrs :: SaLogFileCreateAttributesT_2 where
  "zero_attrs = \<lparr>logFileName = [], logFilePathName = [], maxLogFileSize = 0, maxLogRecordSize = 0,
     haProperty = False, logFileFullAction = SA_LOG_FILE_FULL_ACTION_WRAP, maxFilesRotated = 0, logFileFmt = []\<rparr>"

definition log_init :: "string \<Rightarrow> string \<Rightarrow> bool \<Rightarrow> TimeHandle \<Rightarrow> log_world" where
  "log_init cc upper audit poll = \<lparr>hist = [], imm_version_latest = (CHR 0x00, 0, 0),
     streams = (\<lambda>l. \<lparr>log_handle = 0, stream_handle = 0, file_open = False, logger_name = [], stream_name = [],
        selection_object = 0, open_thread = 0,
        sev_flags = (if l = AlarmLog \<or> l = AlertLog then SA_LOG_SEV_FLAG_ALL else SALOG_SEV_FLAG_INFO_OFF)\<rparr>),
     log_attrs = \<lparr>alarmLogFileAttributes = zero_attrs, alertLogFileAttributes = zero_attrs,
        cmdLogFileAttributes = zero_attrs\<rparr>,
     update_name = (\<lambda>l. False), write_status = (\<lambda>l. False), logMEnabled = False, traceWrite = False,
     IdentityString = None, cmdLogString = None, trace_flag = 0, ntf_event_pipe = (0, 0),
     ntf_poll = poll, cc_name = cc, cc_name_upper = upper,
     audit_logging = audit\<rparr>"

definition get_stream :: "log_id \<Rightarrow> (log_stream \<Rightarrow> 'a) \<Rightarrow> 'a logp" where
  "get_stream l f = gets (\<lambda>w. f (streams w l))"

definition put_stream :: "log_id \<Rightarrow> (log_stream \<Rightarrow> log_stream) \<Rightarrow> unit logp" where
  "put_stream l f = modify (\<lambda>w. w\<lparr>streams := (streams w)(l := f (streams w l))\<rparr>)"

definition LOG_USER :: int where "LOG_USER = 8"
definition LOG_ERR :: int where "LOG_ERR = 3"
definition LOG_WARNING :: int where "LOG_WARNING = 4"
definition LOG_NOTICE :: int where "LOG_NOTICE = 5"
definition LOG_INFO :: int where "LOG_INFO = 6"

definition SALOGSYSTEM_LOG :: nat where "SALOGSYSTEM_LOG = 502"
definition SECURITY_LOG :: nat where "SECURITY_LOG = 500"
definition COMMAND_LOG :: nat where "COMMAND_LOG = 300"
definition ALARM_LOG :: nat where "ALARM_LOG = 100"
definition ALERT_LOG :: nat where "ALERT_LOG = 101"

definition SA_LOG_STREAM_SYSTEM :: string where
  "SA_LOG_STREAM_SYSTEM = ''safLgStrCfg=saLogSystem,safApp=safLogService''"
definition ALARM_LOG_STREAM_DN :: string where
  "ALARM_LOG_STREAM_DN = ''safLgStrCfg=FaultManagementCfgLogAlarmStream,safApp=safLogService''"
definition ALERT_LOG_STREAM_DN :: string where
  "ALERT_LOG_STREAM_DN = ''safLgStrCfg=FaultManagementCfgLogAlertStream,safApp=safLogService''"
definition CMD_LOG_STREAM_DN :: string where
  "CMD_LOG_STREAM_DN = ''safLgStrCfg=ComCliCmdLogStream,safApp=safLogService''"
definition SECURITY_LOG_STREAM_DN :: string where
  "SECURITY_LOG_STREAM_DN = ''safLgStrCfg=ComSecLogStream,safApp=safLogService''"

text \<open>\<open>auditlogger\<close> of \<open>ac/ComSAAc.c\<close>: without the logger library the message is dropped.\<close>

definition auditlogger :: "outside \<Rightarrow> string \<Rightarrow> int \<Rightarrow> string \<Rightarrow> unit logp" where
  "auditlogger E tag priority msg =
     bnd (gets audit_logging) (\<lambda>l. unless (\<not> l) (do_call E (AuditLogger tag priority msg)))"

section \<open>Level events\<close>

definition pushSaSystemLogLevelEvent :: "outside \<Rightarrow> unit logp" where
  "pushSaSystemLogLevelEvent E =
     bnd (get_stream TheLog sev_flags) (\<lambda>s. do_call E (PushLogEvent s SALOGSYSTEM_LOG))"

definition pushComSecLogLevelEvent :: "outside \<Rightarrow> unit logp" where
  "pushComSecLogLevelEvent E =
     bnd (get_stream SecLog sev_flags) (\<lambda>s. do_call E (PushLogEvent s SECURITY_LOG))"

definition pushComCommandLogLevelEvent :: "outside \<Rightarrow> unit logp" where
  "pushComCommandLogLevelEvent E =
     bnd (get_stream CmdLog sev_flags) (\<lambda>s. do_call E (PushLogEvent s COMMAND_LOG))"

definition pushComLogLevelEvents :: "outside \<Rightarrow> unit logp" where
  "pushComLogLevelEvents E = bnd (gets logMEnabled) (\<lambda>e. unless (\<not> e)
     (andthen (pushSaSystemLogLevelEvent E)
     (andthen (pushComSecLogLevelEvent E)
     (andthen (pushComCommandLogLevelEvent E)
       (do_call E PushComDebugLogLevelEvent)))))"

section \<open>Call-backs of the log library\<close>

definition write_callback :: "outside \<Rightarrow> log_id \<Rightarrow> string \<Rightarrow> SaAisErrorT \<Rightarrow> unit logp" where
  "write_callback E l name error =
     (if error \<noteq> SA_AIS_OK then
        if error = SA_AIS_ERR_TRY_AGAIN then
          bnd (gets (\<lambda>w. write_status w l)) (\<lambda>s. unless s
            (andthen (do_call E (Syslog (LOG_USER * 8 + LOG_WARNING) name))
              (modify (\<lambda>w. w\<lparr>write_status := (write_status w)(l := True)\<rparr>))))
        else
          andthen (do_call E (Syslog (LOG_USER * 8 + LOG_WARNING) name))
            (modify (\<lambda>w. w\<lparr>write_status := (write_status w)(l := False)\<rparr>))
      else return ())"

definition logWriteLogCallbackT :: "outside \<Rightarrow> SaAisErrorT \<Rightarrow> unit logp" where
  "logWriteLogCallbackT E = write_callback E TheLog ''logWriteLogCallbackT''"

definition alarmLogWriteLogCallbackT :: "outside \<Rightarrow> SaAisErrorT \<Rightarrow> unit logp" where
  "alarmLogWriteLogCallbackT E = write_callback E AlarmLog ''alarmLogWriteLogCallbackT''"

definition alertLogWriteLogCallbackT :: "outside \<Rightarrow> SaAisErrorT \<Rightarrow> unit logp" where
  "alertLogWriteLogCallbackT E = write_callback E AlertLog ''alertLogWriteLogCallbackT''"

definition alarmLogFilterSetCallbackT :: "16 word \<Rightarrow> unit logp" where
  "alarmLogFilterSetCallbackT sev = put_stream AlarmLog (\<lambda>s. s\<lparr>sev_flags := sev\<rparr>)"

definition alertLogFilterSetCallbackT :: "16 word \<Rightarrow> unit logp" where
  "alertLogFilterSetCallbackT sev = put_stream AlertLog (\<lambda>s. s\<lparr>sev_flags := sev\<rparr>)"

definition logFilterSetCallbackT :: "outside \<Rightarrow> 16 word \<Rightarrow> unit logp" where
  "logFilterSetCallbackT E sev =
     andthen (put_stream TheLog (\<lambda>s. s\<lparr>sev_flags := sev\<rparr>)) (pushSaSystemLogLevelEvent E)"

definition cmdLogFilterSetCallbackT :: "outside \<Rightarrow> 16 word \<Rightarrow> unit logp" where
  "cmdLogFilterSetCallbackT E sev =
     andthen (put_stream CmdLog (\<lambda>s. s\<lparr>sev_flags := sev\<rparr>)) (pushComCommandLogLevelEvent E)"

definition secLogFilterSetCallbackT :: "outside \<Rightarrow> 16 word \<Rightarrow> unit logp" where
  "secLogFilterSetCallbackT E sev =
     andthen (put_stream SecLog (\<lambda>s. s\<lparr>sev_flags := sev\<rparr>)) (pushComSecLogLevelEvent E)"

definition dispatch :: "outside \<Rightarrow> log_id \<Rightarrow> unit logp" where
  "dispatch E l = bnd (get_stream l log_handle) (\<lambda>h. do_call E (SaLogDispatch h))"

definition fdCallbackFn :: "outside \<Rightarrow> unit logp" where "fdCallbackFn E = dispatch E TheLog"
definition alarm_fdCallbackFn :: "outside \<Rightarrow> unit logp" where "alarm_fdCallbackFn E = dispatch E AlarmLog"
definition alert_fdCallbackFn :: "outside \<Rightarrow> unit logp" where "alert_fdCallbackFn E = dispatch E AlertLog"
definition cmd_fdCallbackFn :: "outside \<Rightarrow> unit logp" where "cmd_fdCallbackFn E = dispatch E CmdLog"
definition sec_fdCallbackFn :: "outside \<Rightarrow> unit logp" where "sec_fdCallbackFn E = dispatch E SecLog"

section \<open>Calls that are repeated\<close>

text \<open>\<open>LOG_API_CALL\<close>: without a limit.\<close>

definition log_api_call :: "outside \<Rightarrow> ocall \<Rightarrow> ('b world_scheme, answer) prog" where
  "log_api_call E c = bnd (call E c)
     (while_prog (\<lambda>a. a_rc a = SA_AIS_ERR_TRY_AGAIN) (\<lambda>a. andthen (do_call E (SleepSec 1)) (call E c)))"

primrec more_tries :: "outside \<Rightarrow> (SaAisErrorT \<Rightarrow> bool) \<Rightarrow> ocall \<Rightarrow> ocall \<Rightarrow> nat \<Rightarrow> answer \<Rightarrow>
    ('b world_scheme, answer) prog" where
  "more_tries E again p c 0 a = return a"
| "more_tries E again p c (Suc n) a =
     (if again (a_rc a) then andthen (do_call E p) (bnd (call E c) (more_tries E again p c n)) else return a)"

text \<open>\<open>LOG_API_CALL_TRY_AGAIN\<close>: at most four repetitions; \<open>IMM_API_CALL\<close>: at most three.\<close>

definition log_api_call_try_again :: "outside \<Rightarrow> ocall \<Rightarrow> ('b world_scheme, SaAisErrorT) prog" where
  "log_api_call_try_again E c =
     bnd (bnd (call E c) (more_tries E (\<lambda>rc. rc = SA_AIS_ERR_TRY_AGAIN) (Usleep 25000) c 4)) (\<lambda>a. return (a_rc a))"

definition imm_api_call :: "outside \<Rightarrow> ocall \<Rightarrow> ('b world_scheme, answer) prog" where
  "imm_api_call E c = bnd (call E c)
     (more_tries E (\<lambda>rc. rc = SA_AIS_ERR_TRY_AGAIN \<or> rc = SA_AIS_ERR_BUSY) (Usleep 500000) c 3)"

section \<open>The threads that open a stream\<close>

definition EINTR :: int where "EINTR = 4"

text \<open>Sleep a minute, going back to sleep after a signal; \<open>False\<close> if \<open>nanosleep\<close> fails otherwise.\<close>

definition sleep_minute :: "outside \<Rightarrow> ('b world_scheme, bool) prog" where
  "sleep_minute E =
     bnd (bnd (call E (Nanosleep 60 0))
       (while_prog (\<lambda>a. a_num a \<noteq> 0 \<and> a_errno a = EINTR)
         (\<lambda>a. call E (Nanosleep (fst (a_out a)) (snd (a_out a))))))
     (\<lambda>a. return (a_num a = 0))"

definition sleep_three :: "outside \<Rightarrow> ('b world_scheme, unit) prog" where
  "sleep_three E = bnd (bnd (call E (Nanosleep 3 0))
     (while_prog (\<lambda>a. a_num a \<noteq> 0) (\<lambda>a. call E (Nanosleep 3 0)))) (\<lambda>a. return ())"

definition open_stream :: "outside \<Rightarrow> log_id \<Rightarrow> SaAisErrorT logp" where
  "open_stream E l =
     bnd (get_stream l log_handle) (\<lambda>h. bnd (get_stream l stream_name) (\<lambda>name.
     bnd (log_api_call E (SaLogStreamOpen_2 h name)) (\<lambda>a.
     andthen (unless (a_rc a \<noteq> SA_AIS_OK) (put_stream l (\<lambda>s. s\<lparr>stream_handle := a_handle a\<rparr>)))
       (return (a_rc a)))))"

text \<open>
  The loop of the threads: \<open>Some Errt\<close> is the last code, \<open>None\<close> the jump to \<open>end_exit\<close> after a
  failed \<open>nanosleep\<close>.  \<open>wait\<close> is what the thread does after any other error.
\<close>

definition open_try :: "outside \<Rightarrow> log_id \<Rightarrow> string \<Rightarrow> unit logp \<Rightarrow> SaAisErrorT option logp" where
  "open_try E l msg wait =
     bnd (open_stream E l) (\<lambda>Errt.
       if Errt = SA_AIS_ERR_TIMEOUT then
         andthen (do_call E (Syslog (LOG_USER * 8 + LOG_WARNING) (msg @ ''time-out''))) (return (Some Errt))
       else if Errt = SA_AIS_ERR_UNAVAILABLE then
         andthen (do_call E (Syslog (LOG_USER * 8 + LOG_WARNING) (msg @ ''unavailable'')))
         (bnd (sleep_minute E) (\<lambda>slept.
           if slept then return (Some Errt)
           else andthen (do_call E (Syslog (LOG_USER * 8 + LOG_ERR) (msg @ ''nanosleep''))) (return None)))
       else if Errt \<noteq> SA_AIS_OK then andthen wait (return (Some Errt))
       else return (Some Errt))"

definition open_loop :: "outside \<Rightarrow> log_id \<Rightarrow> string \<Rightarrow> unit logp \<Rightarrow> SaAisErrorT option logp" where
  "open_loop E l msg wait =
     while_prog (\<lambda>s. s \<noteq> None \<and> s \<noteq> Some SA_AIS_OK) (\<lambda>s. open_try E l msg wait) (Some SA_AIS_ERR_TRY_AGAIN)"

definition POLLIN :: "16 word" where "POLLIN = 1"

text \<open>The numbers of the registered call-backs, and of \<open>stop_ntf_polling\<close>.\<close>

fun fd_callback :: "log_id \<Rightarrow> nat" where
  "fd_callback TheLog = 1" | "fd_callback AlarmLog = 2" | "fd_callback AlertLog = 3"
| "fd_callback CmdLog = 4" | "fd_callback SecLog = 5"

definition stop_ntf_polling_callback :: nat where "stop_ntf_polling_callback = 6"

definition poll_set :: "nat \<Rightarrow> int \<Rightarrow> int logp" where
  "poll_set f d = (\<lambda>w. case poll_setcallback (ntf_poll w) f \<lparr>fd = d, events = POLLIN, revents = 0\<rparr> 0 of
     None \<Rightarrow> die Assert w
   | Some (rc, h) \<Rightarrow> return rc (w\<lparr>ntf_poll := h\<rparr>))"

definition poll_unset :: "int \<Rightarrow> unit logp" where
  "poll_unset d = (\<lambda>w. case poll_unsetcallback (ntf_poll w) d of
     None \<Rightarrow> die Assert w
   | Some h \<Rightarrow> return () (w\<lparr>ntf_poll := h\<rparr>))"

definition detach_thread :: "outside \<Rightarrow> log_id \<Rightarrow> unit logp" where
  "detach_thread E l = bnd (get_stream l open_thread) (\<lambda>t. bnd (call E (PthreadDetach t)) (\<lambda>a.
     unless (a_num a = 0) (do_call E (Syslog (LOG_USER * 8 + LOG_WARNING) ''failed to detach thread''))))"

definition O_NONBLOCK :: int where "O_NONBLOCK = 2048"

definition LogServiceOpenThread :: "outside \<Rightarrow> unit logp" where
  "LogServiceOpenThread E =
     andthen (put_stream TheLog (\<lambda>s. s\<lparr>stream_name := SA_LOG_STREAM_SYSTEM\<rparr>))
    (andthen (detach_thread E TheLog)
    (bnd (open_loop E TheLog ''saLogStreamOpen_2: '' (return ())) (\<lambda>s.
      if s = None then return ()
      else
        bnd (get_stream TheLog selection_object) (\<lambda>sel.
        bnd (poll_set (fd_callback TheLog) sel) (\<lambda>rc.
        if rc \<noteq> 0 then return ()
        else
          andthen (put_stream TheLog (\<lambda>s. s\<lparr>file_open := True\<rparr>))
         (andthen (put_stream TheLog (\<lambda>s. s\<lparr>open_thread := 0\<rparr>))
         (bnd (call E Pipe) (\<lambda>p.
          if a_num p \<noteq> 0 then return ()
          else
            andthen (modify (\<lambda>w. w\<lparr>ntf_event_pipe := a_out p\<rparr>))
           (bnd (call E (FcntlGetfl (fst (a_out p)))) (\<lambda>g.
            if a_num g < 0 then die Abort
            else bnd (call E (FcntlSetfl (fst (a_out p)) (a_num g OR O_NONBLOCK))) (\<lambda>r.
              if a_num r \<noteq> 0 then die Abort
              else bnd (poll_set stop_ntf_polling_callback (fst (a_out p))) (\<lambda>rc. return ()))))))))))))"

text \<open>The other four threads; the command and security log also tell \<open>syslog\<close>.\<close>

definition stream_open_thread :: "outside \<Rightarrow> log_id \<Rightarrow> string \<Rightarrow> string option \<Rightarrow> unit logp" where
  "stream_open_thread E l dn opened =
     andthen (put_stream l (\<lambda>s. s\<lparr>stream_name := dn\<rparr>))
    (andthen (detach_thread E l)
    (bnd (open_loop E l ''saLogStreamOpen_2: '' (sleep_three E)) (\<lambda>s.
      if s = None then return ()
      else
        andthen (case opened of None \<Rightarrow> return () | Some m \<Rightarrow> do_call E (Syslog (LOG_USER * 8 + LOG_INFO) m))
       (andthen (put_stream l (\<lambda>s. s\<lparr>file_open := True\<rparr>))
       (bnd (get_stream l selection_object) (\<lambda>sel.
        bnd (poll_set (fd_callback l) sel) (\<lambda>rc.
        if rc \<noteq> 0 then return ()
        else put_stream l (\<lambda>s. s\<lparr>open_thread := 0\<rparr>))))))))"

definition alarmLogServiceOpenThread :: "outside \<Rightarrow> unit logp" where
  "alarmLogServiceOpenThread E = stream_open_thread E AlarmLog ALARM_LOG_STREAM_DN None"

definition alertLogServiceOpenThread :: "outside \<Rightarrow> unit logp" where
  "alertLogServiceOpenThread E = stream_open_thread E AlertLog ALERT_LOG_STREAM_DN None"

definition cmdLogServiceOpenThread :: "outside \<Rightarrow> unit logp" where
  "cmdLogServiceOpenThread E =
     stream_open_thread E CmdLog CMD_LOG_STREAM_DN (Some ''CmdLogService is successfully opened'')"

definition secLogServiceOpenThread :: "outside \<Rightarrow> unit logp" where
  "secLogServiceOpenThread E =
     stream_open_thread E SecLog SECURITY_LOG_STREAM_DN (Some ''secLogService is successfully opened'')"

section \<open>Closing\<close>

text \<open>
  A delivered \<open>SIGKILL\<close> ends the whole process, also when it is sent to one thread.
\<close>

definition kill_thread :: "outside \<Rightarrow> nat \<Rightarrow> unit logp" where
  "kill_thread E t = bnd (call E (PthreadKill t)) (\<lambda>a. if a_num a = 0 then die Killed else return ())"

definition close_stream :: "outside \<Rightarrow> log_id \<Rightarrow> string option \<Rightarrow> MafReturnT \<Rightarrow> MafReturnT logp" where
  "close_stream E l closed myRetVal =
     bnd (get_stream l open_thread) (\<lambda>t.
     andthen (unless (t = 0) (andthen (kill_thread E t) (do_call E (PthreadJoin t))))
    (bnd (get_stream l selection_object) (\<lambda>sel.
     andthen (poll_unset sel)
    (andthen (put_stream l (\<lambda>s. s\<lparr>file_open := False\<rparr>))
    (bnd (get_stream l stream_handle) (\<lambda>sh.
     bnd (if sh \<noteq> 0 then
            bnd (log_api_call_try_again E (SaLogStreamClose sh)) (\<lambda>Errt.
            andthen (if Errt \<noteq> SA_AIS_OK then return ()
                     else case closed of None \<Rightarrow> return () | Some m \<Rightarrow> do_call E (Syslog (LOG_USER * 8 + LOG_INFO) m))
           (andthen (put_stream l (\<lambda>s. s\<lparr>stream_handle := 0\<rparr>))
             (return (if Errt \<noteq> SA_AIS_OK then MafFailure else myRetVal))))
          else return myRetVal) (\<lambda>myRetVal.
     bnd (get_stream l log_handle) (\<lambda>h.
     if h \<noteq> 0 then
       bnd (log_api_call_try_again E (SaLogFinalize h)) (\<lambda>Errt.
       andthen (put_stream l (\<lambda>s. s\<lparr>log_handle := 0\<rparr>))
         (return (if Errt \<noteq> SA_AIS_OK then MafFailure else myRetVal)))
     else return myRetVal))))))))"

definition AlarmAndAlertLogServiceClose :: "outside \<Rightarrow> MafReturnT logp" where
  "AlarmAndAlertLogServiceClose E = bnd (close_stream E AlarmLog None MafOk) (close_stream E AlertLog None)"

definition cmdLogServiceClose :: "outside \<Rightarrow> MafReturnT logp" where
  "cmdLogServiceClose E =
     bnd (close_stream E CmdLog (Some ''cmdLogService is successfully closed'') MafOk) (\<lambda>myRetVal.
     andthen (modify (\<lambda>w. w\<lparr>cmdLogString := None\<rparr>)) (return myRetVal))"

definition secLogServiceClose :: "outside \<Rightarrow> MafReturnT logp" where
  "secLogServiceClose E = close_stream E SecLog (Some ''SecLogService is successfully closed'') MafOk"

definition ComLogServiceClose :: "outside \<Rightarrow> MafReturnT logp" where
  "ComLogServiceClose E =
     bnd (get_stream TheLog open_thread) (\<lambda>t.
     andthen (unless (t = 0) (kill_thread E t))
    (bnd (get_stream TheLog selection_object) (\<lambda>sel.
     andthen (poll_unset sel)
    (andthen (put_stream TheLog (\<lambda>s. s\<lparr>file_open := False\<rparr>))
    (bnd (get_stream TheLog stream_handle) (\<lambda>sh.
     bnd (log_api_call_try_again E (SaLogStreamClose sh)) (\<lambda>Errt.
     andthen (unless (Errt \<noteq> SA_AIS_OK)
        (auditlogger E ''com'' LOG_INFO ''Com LogService successfully closed''))
    (bnd (get_stream TheLog log_handle) (\<lambda>h.
     bnd (log_api_call_try_again E (SaLogFinalize h)) (\<lambda>Errt'.
     andthen (modify (\<lambda>w. w\<lparr>IdentityString := None\<rparr>))
       (return (if Errt \<noteq> SA_AIS_OK \<or> Errt' \<noteq> SA_AIS_OK then MafFailure else MafOk))))))))))))"

end
