(* ===== verification/LogService.thy ===== *)
theory LogService
  imports LogStream
begin

text \<open>
  The rest of \<open>log/ComSALogService.c\<close>: the configuration read from and written to the
  information model, the functions that open the services, and the write function behind the
  log interface offered to the component.
\<close>

section \<open>Severities\<close>

definition SEVERITY_FLAG :: "16 word \<Rightarrow> 16 word" where
  "SEVERITY_FLAG s =
     (if s = 0 then 0x0001 else if s = 1 then 0x0002 else if s = 2 then 0x0004 else if s = 3 then 0x0008
      else if s = 4 then 0x0010 else if s = 5 then 0x0020 else if s = 6 then 0x0040 else 0x0040)"

definition SYSLOG_LEVEL :: "16 word \<Rightarrow> int" where
  "SYSLOG_LEVEL s = uint s"

definition MW_SA_LOG_SEV_NOTICE :: "16 word" where "MW_SA_LOG_SEV_NOTICE = 5"
definition MW_SA_LOG_SEV_INFO :: "16 word" where "MW_SA_LOG_SEV_INFO = 6"

section \<open>Links to the log directories\<close>

definition EEXIST :: int where "EEXIST = 17"

definition createSymLinkForAlarmsAndAlerts :: "outside \<Rightarrow> string option \<Rightarrow> string option \<Rightarrow> string option \<Rightarrow>
    string option \<Rightarrow> bool logp" where
  "createSymLinkForAlarmsAndAlerts E path directory linkDir linkName =
     (case (path, directory, linkDir, linkName) of
        (Some p, Some d, Some ld, Some ln) \<Rightarrow>
          let directoryPath = p @ ''/'' @ d; linkPath = ld @ ''/'' @ ln in
          if length directoryPath < 500 \<and> length linkPath < 500 then
            bnd (call E (Symlink directoryPath linkPath)) (\<lambda>a.
              return (\<not> (a_num a \<noteq> 0 \<and> a_errno a \<noteq> EEXIST)))
          else die Overflow
      | _ \<Rightarrow> return False)"

text \<open>
  The result is what the caller's buffer holds afterwards: the assignment of the default path
  changes only the local pointer.
\<close>

definition getIntRootDir :: "outside \<Rightarrow> string \<Rightarrow> string logp" where
  "getIntRootDir E rootDir =
     bnd (call E (Popen ''/opt/com/comea/bin/comea file-system internalRoot'')) (\<lambda>fp.
     if a_num fp \<noteq> 0 then
       bnd (call E (Fgets 1024)) (\<lambda>r.
       case a_text r of
         Some readStr \<Rightarrow>
           (case snd (trimWhiteSpace (Some readStr)) of
              Some str \<Rightarrow> andthen (do_call E Pclose) (return (if str \<noteq> [] then str else rootDir))
            | None \<Rightarrow> die Wild)
       | None \<Rightarrow> andthen (do_call E Pclose) (return rootDir))
     else return rootDir)"

section \<open>The configuration file\<close>

text \<open>The directory name the make file sets for the two products.\<close>

definition COMSA_FOR_COREMW_DIR :: "string \<Rightarrow> string" where
  "COMSA_FOR_COREMW_DIR cc = (if cc = ''lm'' then ''lmsa-apr9010528'' else ''comsa_for_coremw-apr9010555'')"

definition loadSaLogConfig :: "outside \<Rightarrow> unit logp" where
  "loadSaLogConfig E =
     andthen (modify (\<lambda>w. w\<lparr>log_attrs := default_log_conf\<rparr>))
    (bnd (call E GetClearStorage) (\<lambda>a.
     bnd (gets cc_name) (\<lambda>cc.
     let path = (case a_text a of Some s \<Rightarrow> s | None \<Rightarrow> []) @ ''/'' @ COMSA_FOR_COREMW_DIR cc @ ''/'' @ cc @ ''_sa_log.cfg'' in
     if 256 \<le> length path then die Overflow
     else bnd (call E (Fopen path)) (\<lambda>f.
       case a_text f of
         None \<Rightarrow> return ()
       | Some content \<Rightarrow>
           bnd (gets log_attrs) (\<lambda>c.
           case parse_file content c of
             None \<Rightarrow> die Overflow
           | Some c \<Rightarrow> andthen (modify (\<lambda>w. w\<lparr>log_attrs := c\<rparr>)) (do_call E Fclose))))))"

section \<open>The log streams in the information model\<close>

definition LOG_STREAM_FILENAME_PARAM :: string where "LOG_STREAM_FILENAME_PARAM = ''saLogStreamFileName''"
definition LOGM_LOG_SEVERITYFILTER :: string where "LOGM_LOG_SEVERITYFILTER = ''severityFilter''"

definition modifyLogStreamAttr :: "outside \<Rightarrow> handle \<Rightarrow> string \<Rightarrow> SaLogFileCreateAttributesT_2 \<Rightarrow> bool \<Rightarrow>
    SaAisErrorT logp" where
  "modifyLogStreamAttr E ccbHandle object logFileAttributes updateFileSizeAttr =
     bnd (imm_api_call E (SaImmOmCcbObjectModify_2 ccbHandle object
       ([allocateUint64AttrMod ''saLogStreamMaxLogFileSize'' (maxLogFileSize logFileAttributes),
         allocateUint32AttrMod ''saLogStreamMaxFilesRotated'' (ucast (maxFilesRotated logFileAttributes)),
         allocateUint32AttrMod ''saLogStreamFixedLogRecordSize'' (maxLogRecordSize logFileAttributes)]
        @ (if updateFileSizeAttr
           then [allocateStringAttrMod LOG_STREAM_FILENAME_PARAM (logFileName logFileAttributes)] else []))))
     (\<lambda>a. return (a_rc a))"

definition log_imm_finalize :: "outside \<Rightarrow> handle \<Rightarrow> handle \<Rightarrow> unit logp" where
  "log_imm_finalize E immOmHandle adminOwnerHandle =
     andthen (unless (adminOwnerHandle = 0)
        (bnd (imm_api_call E (SaImmOmAdminOwnerFinalize adminOwnerHandle)) (\<lambda>a. return ())))
       (unless (immOmHandle = 0)
        (bnd (imm_api_call E (SaImmOmFinalize immOmHandle)) (\<lambda>a. return ())))"

text \<open>The steps every exit of \<open>modifyCfgLogStreamInstances\<close> has in common once the objects are owned.\<close>

definition release_and_finalize :: "outside \<Rightarrow> handle \<Rightarrow> handle \<Rightarrow> string list \<Rightarrow> MafReturnT \<Rightarrow> MafReturnT logp" where
  "release_and_finalize E om ao objDns result =
     bnd (imm_api_call E (SaImmOmAdminOwnerRelease ao objDns)) (\<lambda>a.
     andthen (log_imm_finalize E om ao) (return result))"

definition modify_streams :: "outside \<Rightarrow> handle \<Rightarrow> SaAisErrorT logp" where
  "modify_streams E ccb =
     bnd (gets log_attrs) (\<lambda>c. bnd (gets update_name) (\<lambda>u.
     bnd (modifyLogStreamAttr E ccb ALARM_LOG_STREAM_DN (alarmLogFileAttributes c) (u AlarmLog)) (\<lambda>rc.
     bnd (if rc = SA_AIS_OK
          then modifyLogStreamAttr E ccb ALERT_LOG_STREAM_DN (alertLogFileAttributes c) (u AlertLog)
          else return rc) (\<lambda>rc.
     if rc = SA_AIS_OK then modifyLogStreamAttr E ccb CMD_LOG_STREAM_DN (cmdLogFileAttributes c) (u CmdLog)
     else return rc))))"

definition modifyCfgLogStreamInstances :: "outside \<Rightarrow> MafReturnT logp" where
  "modifyCfgLogStreamInstances E =
     bnd (autoRetry_saImmOmInitialize E 0 imm_version) (\<lambda>i.
     if a_rc i \<noteq> SA_AIS_OK then return MafFailure
     else
       let om = a_handle i in
       bnd (imm_api_call E (SaImmOmAdminOwnerInitialize om ''OAMSALOG'')) (\<lambda>o1.
       if a_rc o1 \<noteq> SA_AIS_OK then andthen (log_imm_finalize E om 0) (return MafFailure)
       else
         let ao = a_handle o1; objDns = [ALARM_LOG_STREAM_DN, ALERT_LOG_STREAM_DN, CMD_LOG_STREAM_DN] in
         bnd (imm_api_call E (SaImmOmAdminOwnerSet ao objDns)) (\<lambda>s.
         if a_rc s \<noteq> SA_AIS_OK then andthen (log_imm_finalize E om ao) (return MafFailure)
         else
           bnd (imm_api_call E (SaImmOmCcbInitialize ao)) (\<lambda>c.
           if a_rc c \<noteq> SA_AIS_OK then release_and_finalize E om ao objDns MafFailure
           else
             let ccb = a_handle c in
             bnd (modify_streams E ccb) (\<lambda>rc.
             if rc \<noteq> SA_AIS_OK then release_and_finalize E om ao objDns MafFailure
             else
               bnd (imm_api_call E (SaImmOmCcbValidate ccb)) (\<lambda>v.
               if a_rc v \<noteq> SA_AIS_OK then release_and_finalize E om ao objDns MafFailure
               else
                 bnd (imm_api_call E (SaImmOmCcbApply ccb)) (\<lambda>p.
                 if a_rc p \<noteq> SA_AIS_OK then release_and_finalize E om ao objDns MafFailure
                 else release_and_finalize E om ao objDns MafOk)))))))"

text \<open>Reading one attribute: a null pointer in the answer is dereferenced.\<close>

definition getSeverityFilter :: "outside \<Rightarrow> handle \<Rightarrow> string \<Rightarrow> (SaAisErrorT \<times> 16 word option) logp" where
  "getSeverityFilter E accessorHandle dnName =
     (if accessorHandle \<noteq> 0 then
        bnd (autoRetry_saImmOmAccessorGet_2 E accessorHandle dnName [LOGM_LOG_SEVERITYFILTER]) (\<lambda>a.
        if a_rc a \<noteq> SA_AIS_OK then return (a_rc a, None)
        else (case a_attr a of
            None \<Rightarrow> die Wild
          | Some v \<Rightarrow>
              if attrName v \<noteq> LOGM_LOG_SEVERITYFILTER then return (SA_AIS_ERR_INVALID_PARAM, None)
              else if attrValueType v \<noteq> SA_IMM_ATTR_SAINT32T then return (SA_AIS_ERR_INVALID_PARAM, None)
              else (case those (map (\<lambda>x. case x of VInt32 n \<Rightarrow> Some n | _ \<Rightarrow> None) (attrValues v)) of
                  None \<Rightarrow> die Wild
                | Some ns \<Rightarrow>
                    andthen (modify (\<lambda>w. w\<lparr>logMEnabled := True\<rparr>))
                      (return (SA_AIS_OK, Some (foldl (\<lambda>f n. f OR SEVERITY_FLAG (ucast n)) 0 ns))))))
      else return (SA_AIS_ERR_BAD_HANDLE, None))"

definition get_string_attr :: "outside \<Rightarrow> handle \<Rightarrow> string \<Rightarrow> string \<Rightarrow> (SaAisErrorT \<times> string option) logp" where
  "get_string_attr E accessorHandle dnName attr =
     bnd (autoRetry_saImmOmAccessorGet_2 E accessorHandle dnName [attr]) (\<lambda>a.
     if a_rc a \<noteq> SA_AIS_OK then return (a_rc a, None)
     else (case a_attr a of
         None \<Rightarrow> die Wild
       | Some v \<Rightarrow>
           if attrName v \<noteq> attr then return (SA_AIS_ERR_INVALID_PARAM, None)
           else if attrValueType v \<noteq> SA_IMM_ATTR_SASTRINGT then return (SA_AIS_ERR_INVALID_PARAM, None)
           else (case attrValues v of VString s # _ \<Rightarrow> return (SA_AIS_OK, Some s) | _ \<Rightarrow> die Wild)))"

definition getLogStreamFileName :: "outside \<Rightarrow> handle \<Rightarrow> string \<Rightarrow> (SaAisErrorT \<times> string option) logp" where
  "getLogStreamFileName E accessorHandle dnName =
     (if accessorHandle \<noteq> 0 then get_string_attr E accessorHandle dnName LOG_STREAM_FILENAME_PARAM
      else return (SA_AIS_ERR_BAD_HANDLE, None))"

definition updateLogStreamFileNameNeeded :: "outside \<Rightarrow> handle \<Rightarrow> string \<Rightarrow> SaLogFileCreateAttributesT_2 \<Rightarrow> bool logp" where
  "updateLogStreamFileNameNeeded E accessorHandle logStreamDn logFileAttributes =
     bnd (getLogStreamFileName E accessorHandle logStreamDn) (\<lambda>(error, name).
     if error \<noteq> SA_AIS_OK then return False
     else (case name of None \<Rightarrow> die Wild | Some n \<Rightarrow> return (n \<noteq> logFileName logFileAttributes)))"

definition read_filter :: "outside \<Rightarrow> handle \<Rightarrow> string \<Rightarrow> log_id \<Rightarrow> unit logp" where
  "read_filter E accessorHandle dnName l =
     bnd (getSeverityFilter E accessorHandle dnName) (\<lambda>(error, f).
     case f of None \<Rightarrow> return () | Some f \<Rightarrow> put_stream l (\<lambda>s. s\<lparr>sev_flags := f\<rparr>))"

definition set_update_name :: "log_id \<Rightarrow> bool \<Rightarrow> unit logp" where
  "set_update_name l b = modify (\<lambda>w. w\<lparr>update_name := (update_name w)(l := b)\<rparr>)"

definition readCfgLogStreamsInfoFromImm :: "outside \<Rightarrow> unit logp" where
  "readCfgLogStreamsInfoFromImm E =
     bnd (autoRetry_saImmOmInitialize E 0 imm_version) (\<lambda>i.
     if a_rc i \<noteq> SA_AIS_OK then return ()
     else
       bnd (autoRetry_saImmOmAccessorInitialize E (a_handle i)) (\<lambda>a.
       let acc = (if a_rc a \<noteq> SA_AIS_OK then 0 else a_handle a) in
       andthen
         (if a_rc a \<noteq> SA_AIS_OK then return ()
          else
            bnd (gets log_attrs) (\<lambda>c.
            bnd (updateLogStreamFileNameNeeded E acc ALARM_LOG_STREAM_DN (alarmLogFileAttributes c)) (\<lambda>b.
            andthen (set_update_name AlarmLog b)
           (bnd (updateLogStreamFileNameNeeded E acc ALERT_LOG_STREAM_DN (alertLogFileAttributes c)) (\<lambda>b.
            andthen (set_update_name AlertLog b)
           (bnd (updateLogStreamFileNameNeeded E acc CMD_LOG_STREAM_DN (cmdLogFileAttributes c)) (\<lambda>b.
            andthen (set_update_name CmdLog b)
           (andthen (read_filter E acc ''logId=FaultManagementCfgLogAlarmStream,CmwLogMlogMId=1'' AlarmLog)
           (andthen (read_filter E acc ''logId=FaultManagementCfgLogAlertStream,CmwLogMlogMId=1'' AlertLog)
           (andthen (read_filter E acc ''logId=ComCliCmdLogStream,CmwLogMlogMId=1'' CmdLog)
             (read_filter E acc ''logId=ComSecLogStream,CmwLogMlogMId=1'' SecLog)))))))))))
         (om_imm_finalize E (a_handle i) acc)))"

definition readSafLogPath :: "outside \<Rightarrow> (SaAisErrorT \<times> string option) logp" where
  "readSafLogPath E =
     bnd (autoRetry_saImmOmInitialize E 0 imm_version) (\<lambda>i.
     if a_rc i \<noteq> SA_AIS_OK then return (a_rc i, None)
     else
       bnd (autoRetry_saImmOmAccessorInitialize E (a_handle i)) (\<lambda>a.
       let acc = (if a_rc a \<noteq> SA_AIS_OK then 0 else a_handle a) in
       bnd (if a_rc a \<noteq> SA_AIS_OK then return (a_rc a, None)
            else get_string_attr E acc ''logConfig=1,safApp=safLogService'' ''logRootDirectory'') (\<lambda>r.
       andthen (om_imm_finalize E (a_handle i) acc) (return r))))"

definition setSaLogSystemSevFilter :: "outside \<Rightarrow> unit logp" where
  "setSaLogSystemSevFilter E =
     bnd (autoRetry_saImmOmInitialize E 0 imm_version) (\<lambda>i.
     if a_rc i \<noteq> SA_AIS_OK then return ()
     else
       bnd (autoRetry_saImmOmAccessorInitialize E (a_handle i)) (\<lambda>a.
       let acc = (if a_rc a \<noteq> SA_AIS_OK then 0 else a_handle a) in
       andthen
         (if a_rc a \<noteq> SA_AIS_OK then return ()
          else
            bnd (getSeverityFilter E acc ''logId=saLogSystem,CmwLogMlogMId=1'') (\<lambda>(error, f).
            if error \<noteq> SA_AIS_OK then return ()
            else andthen (put_stream TheLog (\<lambda>s. s\<lparr>sev_flags := (case f of Some f \<Rightarrow> f | None \<Rightarrow> 0)\<rparr>))
              (modify (\<lambda>w. w\<lparr>logMEnabled := True\<rparr>))))
         (om_imm_finalize E (a_handle i) acc)))"

section \<open>Opening\<close>

definition saLogInit :: "outside \<Rightarrow> log_id \<Rightarrow> bool logp" where
  "saLogInit E l =
     bnd (log_api_call E (SaLogInitialize l)) (\<lambda>a.
     if a_rc a \<noteq> SA_AIS_OK then return False
     else
       andthen (put_stream l (\<lambda>s. s\<lparr>log_handle := a_handle a\<rparr>))
      (bnd (log_api_call E (SaLogSelectionObjectGet (a_handle a))) (\<lambda>b.
       if a_rc b \<noteq> SA_AIS_OK then return False
       else andthen (put_stream l (\<lambda>s. s\<lparr>selection_object := a_num b\<rparr>)) (return True))))"

definition create_thread :: "outside \<Rightarrow> log_id \<Rightarrow> bool logp" where
  "create_thread E l =
     bnd (call E (PthreadCreate l)) (\<lambda>a.
     if a_num a \<noteq> 0 then
       andthen (do_call E (Syslog (LOG_USER * 8 + LOG_ERR) ''failed to create open thread'')) (return False)
     else andthen (put_stream l (\<lambda>s. s\<lparr>open_thread := nat (fst (a_out a))\<rparr>)) (return True))"

definition set_logger_name :: "log_id \<Rightarrow> string option \<Rightarrow> unit logp" where
  "set_logger_name l name =
     (case name of None \<Rightarrow> die Wild | Some n \<Rightarrow> put_stream l (\<lambda>s. s\<lparr>logger_name := n\<rparr>))"

definition AlarmAndAlertLogServiceOpen :: "outside \<Rightarrow> MafReturnT logp" where
  "AlarmAndAlertLogServiceOpen E =
     bnd (readSafLogPath E) (\<lambda>(retVal, safLogPath).
     if retVal \<noteq> SA_AIS_OK then return MafFailure
     else
       bnd (getIntRootDir E []) (\<lambda>rootDir.
       bnd (createSymLinkForAlarmsAndAlerts E safLogPath (Some ''FaultManagementLog/alarm'') (Some rootDir) (Some ''AlarmLogs'')) (\<lambda>r1.
       bnd (createSymLinkForAlarmsAndAlerts E safLogPath (Some ''FaultManagementLog/alert'') (Some rootDir) (Some ''AlertLogs'')) (\<lambda>r2.
       bnd (gets IdentityString) (\<lambda>ident.
       andthen (set_logger_name AlarmLog ident)
      (andthen (set_logger_name AlertLog ident)
      (bnd (saLogInit E AlarmLog) (\<lambda>ok.
       if \<not> ok then return MafFailure
       else bnd (saLogInit E AlertLog) (\<lambda>ok.
         if \<not> ok then return MafFailure
         else
           andthen (loadSaLogConfig E)
          (andthen (readCfgLogStreamsInfoFromImm E)
          (bnd (modifyCfgLogStreamInstances E) (\<lambda>ignored.
           bnd (create_thread E AlarmLog) (\<lambda>ok.
           if \<not> ok then return MafOk
           else bnd (create_thread E AlertLog) (\<lambda>ok. return MafOk))))))))))))))"

definition cmdLogServiceOpen :: "outside \<Rightarrow> MafReturnT logp" where
  "cmdLogServiceOpen E =
     andthen (modify (\<lambda>w. w\<lparr>cmdLogString := Some ''COM CLI''\<rparr>))
    (andthen (set_logger_name CmdLog (Some ''COM CLI''))
    (bnd (saLogInit E CmdLog) (\<lambda>ok.
     if \<not> ok then return MafFailure
     else bnd (create_thread E CmdLog) (\<lambda>ok. return MafOk))))"

definition secLogServiceOpen :: "outside \<Rightarrow> MafReturnT logp" where
  "secLogServiceOpen E =
     bnd (gets IdentityString) (\<lambda>ident.
     andthen (set_logger_name SecLog ident)
    (bnd (saLogInit E SecLog) (\<lambda>ok.
     if \<not> ok then return MafFailure
     else bnd (create_thread E SecLog) (\<lambda>ok. return MafOk))))"

definition maf_ComLogServiceOpen :: "outside \<Rightarrow> MafReturnT logp" where
  "maf_ComLogServiceOpen E =
     andthen (modify (\<lambda>w. w\<lparr>traceWrite := True\<rparr>))
    (andthen (modify (\<lambda>w. w\<lparr>IdentityString := Some (cc_name_upper w @ '' SA logger'')\<rparr>))
    (bnd (gets IdentityString) (\<lambda>ident.
     andthen (set_logger_name TheLog ident)
    (bnd (saLogInit E TheLog) (\<lambda>ok.
     if \<not> ok then return MafFailure
     else
       andthen (setSaLogSystemSevFilter E)
      (bnd (create_thread E TheLog) (\<lambda>ok. return MafOk)))))))"

section \<open>Writing\<close>

text \<open>
  What \<open>getLoggerInfo\<close> gives its caller: pointers to the variables of one stream (\<open>None\<close> would
  be a null pointer), the severity, and whether the stream's filter lets it through.
\<close>

record logger_info =
  li_isLogFileOpen :: "log_id option"
  li_stream :: log_id
  li_severity :: "16 word"
  li_isLogAllowed :: bool

definition logger_info_of :: "log_world \<Rightarrow> log_id \<Rightarrow> 16 word \<Rightarrow> logger_info" where
  "logger_info_of w l s = \<lparr>li_isLogFileOpen = Some l, li_stream = l, li_severity = s,
     li_isLogAllowed = (sev_flags (streams w l) AND SEVERITY_FLAG s \<noteq> 0)\<rparr>"

definition getLoggerInfo :: "log_world \<Rightarrow> nat \<Rightarrow> 16 word \<Rightarrow> logger_info" where
  "getLoggerInfo w facility severity =
     (if cc_name w = ''lm'' then logger_info_of w TheLog severity
      else if facility = ALARM_LOG then logger_info_of w AlarmLog severity
      else if facility = ALERT_LOG then logger_info_of w AlertLog severity
      else if facility = COMMAND_LOG then logger_info_of w CmdLog severity
      else if facility = SECURITY_LOG then logger_info_of w SecLog severity
      else
        let severity = (if severity = MW_SA_LOG_SEV_INFO then MW_SA_LOG_SEV_NOTICE else severity) in
        logger_info_of w TheLog severity)"

definition SECURITY_AUTHORIZATION_MESSAGE_1 :: nat where "SECURITY_AUTHORIZATION_MESSAGE_1 = 4"
definition SECURITY_AUTHORIZATION_MESSAGE_2 :: nat where "SECURITY_AUTHORIZATION_MESSAGE_2 = 10"
definition LOG_AUDIT_MESSAGE :: nat where "LOG_AUDIT_MESSAGE = 13"
definition LOG_AUDIT_MESSAGE_LOCAL1 :: nat where "LOG_AUDIT_MESSAGE_LOCAL1 = 17"

definition logWrite :: "outside \<Rightarrow> 16 word \<Rightarrow> nat \<Rightarrow> string \<Rightarrow> MafReturnT logp" where
  "logWrite E severity facility databuffer =
     (if facility = SECURITY_AUTHORIZATION_MESSAGE_1 \<or> facility = SECURITY_AUTHORIZATION_MESSAGE_2 then
        andthen (do_call E (Syslog (SYSLOG_LEVEL severity + int facility * 8) databuffer)) (return MafOk)
      else if facility = LOG_AUDIT_MESSAGE \<or> facility = LOG_AUDIT_MESSAGE_LOCAL1 then
        andthen (auditlogger E ''com'' LOG_NOTICE databuffer) (return MafOk)
      else if facility = COMMAND_LOG \<or> facility = SECURITY_LOG then
        andthen (auditlogger E ''com'' (SYSLOG_LEVEL severity) databuffer) (return MafOk)
      else
        bnd (gets (\<lambda>w. getLoggerInfo w facility severity)) (\<lambda>info.
        bnd (gets trace_flag) (\<lambda>tf.
        if li_isLogAllowed info \<or> tf = 1 then
          if li_isLogFileOpen info = None then
            andthen (do_call E (Syslog (LOG_USER * 8 + LOG_WARNING) databuffer)) (return MafOk)
          else
            bnd (gets traceWrite) (\<lambda>tw.
            andthen (unless (\<not> (facility \<noteq> SECURITY_LOG \<and> facility \<noteq> COMMAND_LOG \<and> tw))
               (do_call E (TraceWrite 0 databuffer)))
           (bnd (get_stream (li_stream info) stream_handle) (\<lambda>sh.
            bnd (get_stream (li_stream info) logger_name) (\<lambda>name.
            bnd (log_api_call E (SaLogWriteLogAsync sh name (li_severity info) databuffer)) (\<lambda>a.
            return (if a_rc a \<noteq> SA_AIS_OK then MafFailure else MafOk))))))
        else return MafOk)))"

definition maf_logWrite :: "outside \<Rightarrow> 16 word \<Rightarrow> nat \<Rightarrow> string \<Rightarrow> MafReturnT logp" where
  "maf_logWrite E severity facility databuffer = logWrite E severity facility databuffer"

end
