(* ===== verification/ImmRetry.thy ===== *)
theory ImmRetry
  imports ImmUtils
begin

text \<open>
  What the repeating wrappers of \<open>utils/imm_utils.cc\<close> do: they return exactly when the service
  ever gives an answer that is not to be repeated, with the first such answer, after one pause
  per repetition.
\<close>

section \<open>The sequence of attempts\<close>

definition pause :: ocall where
  "pause = Usleep 400000"

lemma pause_interval: "Usleep (unat (retryInterval immAutoRetryProfile * 1000)) = pause"
  by (simp add: pause_def immAutoRetryProfile_def)

text \<open>The call and the history before attempt \<open>k\<close>, counted from 0.\<close>

definition attempt_step :: "outside \<Rightarrow> (answer \<Rightarrow> ocall) \<Rightarrow> ocall \<times> history \<Rightarrow> ocall \<times> history" where
  "attempt_step E nxt = (\<lambda>(c, h). let a = E h c; h = h @ [(c, a)] in (nxt a, h @ [(pause, E h pause)]))"

definition attempt :: "outside \<Rightarrow> (answer \<Rightarrow> ocall) \<Rightarrow> ocall \<Rightarrow> history \<Rightarrow> nat \<Rightarrow> ocall \<times> history" where
  "attempt E nxt c h k = (attempt_step E nxt ^^ k) (c, h)"

definition attempt_answer :: "outside \<Rightarrow> (answer \<Rightarrow> ocall) \<Rightarrow> ocall \<Rightarrow> history \<Rightarrow> nat \<Rightarrow> answer" where
  "attempt_answer E nxt c h k = (let (d, g) = attempt E nxt c h k in E g d)"

definition attempt_history :: "outside \<Rightarrow> (answer \<Rightarrow> ocall) \<Rightarrow> ocall \<Rightarrow> history \<Rightarrow> nat \<Rightarrow> history" where
  "attempt_history E nxt c h k = (let (d, g) = attempt E nxt c h k in g @ [(d, E g d)])"

lemma attempt_simps:
  "attempt_answer E nxt c h 0 = E h c" "attempt_history E nxt c h 0 = h @ [(c, E h c)]"
  by (simp_all add: attempt_answer_def attempt_history_def attempt_def)

lemma attempt_shift:
  "attempt E nxt c h (Suc k) =
     attempt E nxt (nxt (E h c)) (h @ [(c, E h c)] @ [(pause, E (h @ [(c, E h c)]) pause)]) k"
  by (simp add: attempt_def funpow_swap1 attempt_step_def Let_def del: funpow.simps(2))
    (simp add: attempt_step_def funpow_Suc_right Let_def del: funpow.simps(2))

lemma attempt_last:
  "attempt E nxt c h (Suc k) =
     (let h' = attempt_history E nxt c h k
      in (nxt (attempt_answer E nxt c h k), h' @ [(pause, E h' pause)]))"
  by (simp add: attempt_def attempt_answer_def attempt_history_def Let_def split_beta attempt_step_def)

section \<open>The wrappers\<close>

lemma retry_more_iff [simp]: "retry_more again (a, n) = again (a_rc a)"
  by (simp add: retry_more_def immAutoRetryProfile_def)

lemma wp_retry_body:
  "wp d (retry_body E nxt (a, n)) Q F w =
     (let h = hist w @ [(pause, E (hist w) pause)]; c = nxt a
      in Q (E h c, n + 1) (w\<lparr>hist := h @ [(c, E h c)]\<rparr>))"
  by (simp add: retry_body_def pause_interval wp_do_call wp_call Let_def)

lemma retry_loop_returns:
  assumes "\<not> again (a_rc (attempt_answer E nxt c h k))" "\<And>j. j < k \<Longrightarrow> again (a_rc (attempt_answer E nxt c h j))"
  shows "\<exists>n'. while_prog (retry_more again) (retry_body E nxt) (E h c, n) (w\<lparr>hist := h @ [(c, E h c)]\<rparr>) =
     Some (Inr ((attempt_answer E nxt c h k, n'), w\<lparr>hist := attempt_history E nxt c h k\<rparr>))"
  using assms
proof (induction k arbitrary: c h n)
  case 0
  then show ?case by (subst while_prog.simps) (simp add: attempt_simps return_def)
next
  case (Suc k)
  define h2 where "h2 = h @ [(c, E h c)] @ [(pause, E (h @ [(c, E h c)]) pause)]"
  define c2 where "c2 = nxt (E h c)"
  have shift: "attempt_answer E nxt c h (Suc j) = attempt_answer E nxt c2 h2 j"
    "attempt_history E nxt c h (Suc j) = attempt_history E nxt c2 h2 j" for j
    by (simp_all only: attempt_answer_def attempt_history_def attempt_shift h2_def c2_def)
  have again: "again (a_rc (E h c))" using Suc.prems(2) [of 0] by (simp add: attempt_simps)
  have body: "retry_body E nxt (E h c, n) (w\<lparr>hist := h @ [(c, E h c)]\<rparr>) =
      Some (Inr ((E h2 c2, n + 1), w\<lparr>hist := h2 @ [(c2, E h2 c2)]\<rparr>))"
    by (simp add: retry_body_def pause_interval andthen_def do_call_def call_def bnd_def return_def Let_def h2_def c2_def)
  have "again (a_rc (attempt_answer E nxt c2 h2 j))" if "j < k" for j
    using Suc.prems(2) [of "Suc j"] that by (simp add: shift)
  moreover have "\<not> again (a_rc (attempt_answer E nxt c2 h2 k))" using Suc.prems(1) by (simp add: shift)
  ultimately obtain n' where "while_prog (retry_more again) (retry_body E nxt) (E h2 c2, n + 1)
      (w\<lparr>hist := h2 @ [(c2, E h2 c2)]\<rparr>) =
     Some (Inr ((attempt_answer E nxt c2 h2 k, n'), w\<lparr>hist := attempt_history E nxt c2 h2 k\<rparr>))"
    using Suc.IH by blast
  with again body show ?case by (subst while_prog.simps) (simp add: shift bnd_def)
qed

lemma retry_returns:
  assumes "\<not> again (a_rc (attempt_answer E nxt c (hist w) k))"
    "\<And>j. j < k \<Longrightarrow> again (a_rc (attempt_answer E nxt c (hist w) j))"
  shows "auto_retry_from E again nxt c w =
     Some (Inr (attempt_answer E nxt c (hist w) k, w\<lparr>hist := attempt_history E nxt c (hist w) k\<rparr>))"
  using retry_loop_returns [of again E nxt c "hist w" k 1 w] assms
  by (auto simp: auto_retry_from_def call_def Let_def bnd_def return_def)

lemma retry_diverges:
  assumes again: "\<And>k. again (a_rc (attempt_answer E nxt c (hist w) k))"
  shows "auto_retry_from E again nxt c w = None"
proof -
  let ?I = "\<lambda>(a, n) v. \<exists>k. a = attempt_answer E nxt c (hist w) k \<and> v = w\<lparr>hist := attempt_history E nxt c (hist w) k\<rparr>"
  have "wp True (while_prog (retry_more again) (retry_body E nxt) (a, n)) (\<lambda>a v. False) (\<lambda>f v. False) v"
    if "?I (a, n) v" for a n v
  proof (rule while_partial [where I = ?I])
    fix x :: "answer \<times> 32 word" and v
    assume "?I x v"
    then obtain a n k where x: "x = (a, n)" "a = attempt_answer E nxt c (hist w) k"
      "v = w\<lparr>hist := attempt_history E nxt c (hist w) k\<rparr>" by (cases x) auto
    have "attempt_answer E nxt c (hist w) (Suc k) =
        E (attempt_history E nxt c (hist w) k @ [(pause, E (attempt_history E nxt c (hist w) k) pause)]) (nxt a)"
      by (simp only: attempt_answer_def [of E nxt c "hist w" "Suc k"] attempt_last x Let_def split_conv)
    moreover have "attempt_history E nxt c (hist w) (Suc k) =
        attempt_history E nxt c (hist w) k @ [(pause, E (attempt_history E nxt c (hist w) k) pause)]
          @ [(nxt a, attempt_answer E nxt c (hist w) (Suc k))]"
      by (simp only: attempt_history_def [of E nxt c "hist w" "Suc k"] attempt_answer_def [of E nxt c "hist w" "Suc k"]
          attempt_last x Let_def split_conv append_assoc)
    ultimately have "wp True (retry_body E nxt (a, n)) ?I (\<lambda>f v. False) v"
      using x by (auto simp: wp_retry_body Let_def intro!: exI [of _ "Suc k"])
    then show "if retry_more again x then wp True (retry_body E nxt x) ?I (\<lambda>f v. False) v else False"
      using again x by simp
  qed (rule that)
  moreover have "?I (E (hist w) c, 1) (w\<lparr>hist := hist w @ [(c, E (hist w) c)]\<rparr>)"
    by (auto intro!: exI [of _ 0] simp: attempt_simps)
  ultimately have "wp True (while_prog (retry_more again) (retry_body E nxt) (E (hist w) c, 1))
      (\<lambda>a v. False) (\<lambda>f v. False) (w\<lparr>hist := hist w @ [(c, E (hist w) c)]\<rparr>)" by blast
  then have "wp True (auto_retry_from E again nxt c) (\<lambda>a v. False) (\<lambda>f v. False) w"
    by (auto simp: auto_retry_from_def wp_call elim: wp_mono)
  then show ?thesis by (auto simp: wp_def split: option.splits sum.splits)
qed

text \<open>
  C35. A repeating wrapper returns exactly when some attempt gets an answer that is not to be
  repeated; it then returns the first such answer, having made one call and one pause for each
  attempt before it.  If every attempt is answered "try again", it never returns: the limit of
  25 tries in the profile has no effect, because its errors are declared not fatal.
\<close>

theorem auto_retry_until_answered:
  "auto_retry E again c w =
     (if \<forall>k. again (a_rc (attempt_answer E (\<lambda>a. c) c (hist w) k)) then None
      else let k = LEAST k. \<not> again (a_rc (attempt_answer E (\<lambda>a. c) c (hist w) k))
           in Some (Inr (attempt_answer E (\<lambda>a. c) c (hist w) k, w\<lparr>hist := attempt_history E (\<lambda>a. c) c (hist w) k\<rparr>)))"
proof (cases "\<forall>k. again (a_rc (attempt_answer E (\<lambda>a. c) c (hist w) k))")
  case True
  then show ?thesis by (simp add: auto_retry_def retry_diverges)
next
  case False
  let ?P = "\<lambda>k. \<not> again (a_rc (attempt_answer E (\<lambda>a. c) c (hist w) k))"
  have "?P (LEAST k. ?P k)" using False by (metis (mono_tags, lifting) LeastI_ex)
  moreover have "again (a_rc (attempt_answer E (\<lambda>a. c) c (hist w) j))" if "j < (LEAST k. ?P k)" for j
    using not_less_Least [OF that] by simp
  ultimately have "auto_retry_from E again (\<lambda>a. c) c w = Some (Inr (attempt_answer E (\<lambda>a. c) c (hist w) (LEAST k. ?P k),
      w\<lparr>hist := attempt_history E (\<lambda>a. c) c (hist w) (LEAST k. ?P k)\<rparr>))" by (rule retry_returns)
  with False show ?thesis by (simp only: auto_retry_def Let_def if_False)
qed

section \<open>A rule for programs that use the wrappers\<close>

text \<open>
  The trace \<open>t\<close> of a repeated call that ended with answer \<open>a\<close>: calls of the kind \<open>P\<close>, all but
  the last one answered by a code to repeat, with pauses \<open>p\<close> between them.
\<close>

definition retried :: "ocall \<Rightarrow> (SaAisErrorT \<Rightarrow> bool) \<Rightarrow> (ocall \<Rightarrow> bool) \<Rightarrow> answer \<Rightarrow> history \<Rightarrow> bool" where
  "retried p again P a t \<longleftrightarrow> (\<exists>s c. t = s @ [(c, a)] \<and> P c \<and>
     list_all (\<lambda>(d, b). d = p \<or> P d \<and> again (a_rc b)) s)"

definition answered :: "outside \<Rightarrow> answer \<Rightarrow> bool" where
  "answered E a \<longleftrightarrow> (\<exists>h c. a = E h c)"

lemma answered [simp]: "answered E (E h c)"
  by (auto simp: answered_def)

lemma retried_one: "P c \<Longrightarrow> retried p again P a [(c, a)]"
  by (simp add: retried_def)

lemma retried_more:
  "retried p again P a t \<Longrightarrow> again (a_rc a) \<Longrightarrow> P d \<Longrightarrow> retried p again P b (t @ [(p, q)] @ [(d, b)])"
  by (fastforce simp: retried_def)

lemma retried_step:
  "retried p again P a t \<Longrightarrow> again (a_rc a) \<Longrightarrow> P d \<Longrightarrow>
     \<exists>t'. retried p again P b t' \<and> w\<lparr>hist := h @ t @ [(p, q), (d, b)]\<rparr> = w\<lparr>hist := h @ t'\<rparr>"
  using retried_more [of p again P a t d b q] by auto

lemma wp_auto_retry_from:
  assumes P: "P c" "\<And>a. P (nxt a)"
    and Q: "\<And>a t. retried pause again P a t \<Longrightarrow> \<not> again (a_rc a) \<Longrightarrow> answered E a \<Longrightarrow> Q a (w\<lparr>hist := hist w @ t\<rparr>)"
  shows "wp True (auto_retry_from E again nxt c) Q F w"
proof -
  let ?I = "\<lambda>(a, n) v. answered E a \<and> (\<exists>t. retried pause again P a t \<and> v = w\<lparr>hist := hist w @ t\<rparr>)"
  have "wp True (while_prog (retry_more again) (retry_body E nxt) (E (hist w) c, 1))
      (\<lambda>(a, n). Q a) F (w\<lparr>hist := hist w @ [(c, E (hist w) c)]\<rparr>)"
  proof (rule while_partial [where I = ?I])
    fix x :: "answer \<times> 32 word" and v
    assume "?I x v"
    then obtain a n t where x: "x = (a, n)" "retried pause again P a t" "v = w\<lparr>hist := hist w @ t\<rparr>" "answered E a"
      by (cases x) auto
    show "if retry_more again x then wp True (retry_body E nxt x) ?I F v else (case x of (a, n) \<Rightarrow> Q a) v"
      using Q x retried_step [OF x(2) _ P(2)] by (auto simp: wp_retry_body Let_def)
  next
    show "?I (E (hist w) c, 1) (w\<lparr>hist := hist w @ [(c, E (hist w) c)]\<rparr>)" using retried_one P(1) by fastforce
  qed
  then show ?thesis by (auto simp: auto_retry_from_def wp_call elim: wp_mono)
qed

lemma wp_auto_retry:
  assumes "\<And>a t. retried pause again (\<lambda>d. d = c) a t \<Longrightarrow> \<not> again (a_rc a) \<Longrightarrow> answered E a \<Longrightarrow> Q a (w\<lparr>hist := hist w @ t\<rparr>)"
  shows "wp True (auto_retry E again c) Q F w"
  unfolding auto_retry_def by (rule wp_auto_retry_from [where P = "\<lambda>d. d = c"]) (use assms in auto)

definition is_om_init :: "ocall \<Rightarrow> bool" where
  "is_om_init d = (case d of SaImmOmInitialize cb v \<Rightarrow> True | _ \<Rightarrow> False)"

lemma is_om_init [simp]: "is_om_init (SaImmOmInitialize cb v)"
  by (simp add: is_om_init_def)

lemma wp_om_initialize:
  assumes "\<And>a t. retried pause try_again is_om_init a t \<Longrightarrow>
      a_rc a \<noteq> SA_AIS_ERR_TRY_AGAIN \<Longrightarrow> answered E a \<Longrightarrow> Q a (w\<lparr>hist := hist w @ t\<rparr>)"
  shows "wp True (autoRetry_saImmOmInitialize E cb ver) Q F w"
  unfolding autoRetry_saImmOmInitialize_def autoRetry_saImmOmInitializeAttempt_def
  by (simp, rule wp_auto_retry_from [where P = is_om_init]) (use assms in \<open>simp_all add: try_again_def\<close>)

lemma om_initialize_reuses_version:
  "attempt E (\<lambda>a. SaImmOmInitialize cb (a_version a)) (SaImmOmInitialize cb ver) h 1 =
     (let a = E h (SaImmOmInitialize cb ver); h = h @ [(SaImmOmInitialize cb ver, a)]
      in (SaImmOmInitialize cb (a_version a), h @ [(pause, E h pause)]))"
  by (simp add: attempt_def attempt_step_def Let_def)

end
