(* ===== verification/LogRules.thy ===== *)
theory LogRules
  imports LogService ImmRetry
begin

text \<open>
  Rules for programs of the log service: what the repeating calls leave in the trace.
\<close>

lemma wp_log_api_call:
  assumes "\<And>a t. retried (SleepSec 1) (\<lambda>rc. rc = SA_AIS_ERR_TRY_AGAIN) (\<lambda>d. d = c) a t \<Longrightarrow>
      a_rc a \<noteq> SA_AIS_ERR_TRY_AGAIN \<Longrightarrow> answered E a \<Longrightarrow> Q a (w\<lparr>hist := hist w @ t\<rparr>)"
  shows "wp True (log_api_call E c) Q F w"
proof -
  let ?R = "retried (SleepSec 1) (\<lambda>rc. rc = SA_AIS_ERR_TRY_AGAIN) (\<lambda>d. d = c)"
  let ?I = "\<lambda>a v. answered E a \<and> (\<exists>t. ?R a t \<and> v = w\<lparr>hist := hist w @ t\<rparr>)"
  have "wp True (while_prog (\<lambda>a. a_rc a = SA_AIS_ERR_TRY_AGAIN) (\<lambda>a. andthen (do_call E (SleepSec 1)) (call E c))
      (E (hist w) c)) Q F (w\<lparr>hist := hist w @ [(c, E (hist w) c)]\<rparr>)"
  proof (rule while_partial [where I = ?I])
    fix a v
    assume "?I a v"
    then obtain t where t: "?R a t" "v = w\<lparr>hist := hist w @ t\<rparr>" and E: "answered E a" by blast
    show "if a_rc a = SA_AIS_ERR_TRY_AGAIN then wp True (andthen (do_call E (SleepSec 1)) (call E c)) ?I F v else Q a v"
    proof (cases "a_rc a = SA_AIS_ERR_TRY_AGAIN")
      case True
      then show ?thesis using retried_step [OF t(1) True refl]
        by (simp add: wp_do_call wp_call t(2) del: One_nat_def)
    next
      case False
      then show ?thesis using assms [OF t(1) False E] t(2) by simp
    qed
  next
    show "?I (E (hist w) c) (w\<lparr>hist := hist w @ [(c, E (hist w) c)]\<rparr>)"
      using retried_one [of "\<lambda>d. d = c" c] by fastforce
  qed
  then show ?thesis by (simp add: log_api_call_def wp_call)
qed

lemma wp_more_tries:
  assumes "\<And>a t. retried p again (\<lambda>d. d = c) a t \<Longrightarrow> answered E a \<Longrightarrow> Q a (w\<lparr>hist := hist w @ t\<rparr>)"
  shows "retried p again (\<lambda>d. d = c) a t \<Longrightarrow> answered E a \<Longrightarrow> wp d (more_tries E again p c n a) Q F (w\<lparr>hist := hist w @ t\<rparr>)"
proof (induction n arbitrary: a t)
  case 0
  then show ?case using assms by simp
next
  case (Suc n)
  then show ?case using assms [of a t] retried_more [OF Suc.prems(1)] Suc.IH by (simp add: wp_do_call wp_call)
qed

lemma wp_imm_api_call:
  assumes "\<And>a t. retried (Usleep 500000) (\<lambda>rc. rc = SA_AIS_ERR_TRY_AGAIN \<or> rc = SA_AIS_ERR_BUSY) (\<lambda>d. d = c) a t \<Longrightarrow>
      answered E a \<Longrightarrow> Q a (w\<lparr>hist := hist w @ t\<rparr>)"
  shows "wp d (imm_api_call E c) Q F w"
  unfolding imm_api_call_def wp_bnd wp_call
  by (rule wp_more_tries) (rule assms, assumption+, simp_all add: retried_one)

lemma wp_log_api_call_try_again:
  assumes "\<And>a t. retried (Usleep 25000) (\<lambda>rc. rc = SA_AIS_ERR_TRY_AGAIN) (\<lambda>d. d = c) a t \<Longrightarrow>
      answered E a \<Longrightarrow> Q (a_rc a) (w\<lparr>hist := hist w @ t\<rparr>)"
  shows "wp d (log_api_call_try_again E c) Q F w"
  unfolding log_api_call_try_again_def wp_bnd wp_call wp_basic
  by (rule wp_more_tries) (rule assms, assumption+, simp_all add: retried_one)

lemma wp_get_stream [wps]: "wp d (get_stream l f) Q F w = Q (f (streams w l)) w"
  by (simp add: get_stream_def)

lemma wp_put_stream [wps]: "wp d (put_stream l f) Q F w = Q () (w\<lparr>streams := (streams w)(l := f (streams w l))\<rparr>)"
  by (simp add: put_stream_def)

lemma wp_case_prod [wps]: "wp d (case p of (x, y) \<Rightarrow> m x y) Q F w = (case p of (x, y) \<Rightarrow> wp d (m x y) Q F w)"
  by (cases p) simp

lemma wp_case_option [wps]:
  "wp d (case x of None \<Rightarrow> m | Some y \<Rightarrow> k y) Q F w = (case x of None \<Rightarrow> wp d m Q F w | Some y \<Rightarrow> wp d (k y) Q F w)"
  by (cases x) simp_all

lemma wp_Let [wps]: "wp d (Let x m) Q F w = (let y = x in wp d (m y) Q F w)"
  by simp

section \<open>Runs in which the first attempt is answered\<close>

lemma call_run: "call E c w = Some (Inr (E (hist w) c, w\<lparr>hist := hist w @ [(c, E (hist w) c)]\<rparr>))"
  by (simp add: call_def Let_def)

lemma auto_retry_from_once: "\<not> again (a_rc (E (hist w) c)) \<Longrightarrow>
    auto_retry_from E again nxt c w = Some (Inr (E (hist w) c, w\<lparr>hist := hist w @ [(c, E (hist w) c)]\<rparr>))"
  using retry_returns [of again E nxt c w 0] by (simp add: attempt_simps)

lemma auto_retry_once: "\<not> again (a_rc (E (hist w) c)) \<Longrightarrow>
    auto_retry E again c w = Some (Inr (E (hist w) c, w\<lparr>hist := hist w @ [(c, E (hist w) c)]\<rparr>))"
  by (simp add: auto_retry_def auto_retry_from_once)

lemma om_init_once: "a_rc (E (hist w) (SaImmOmInitialize cb ver)) \<noteq> SA_AIS_ERR_TRY_AGAIN \<Longrightarrow>
    autoRetry_saImmOmInitialize E cb ver w = Some (Inr (E (hist w) (SaImmOmInitialize cb ver),
      w\<lparr>hist := hist w @ [(SaImmOmInitialize cb ver, E (hist w) (SaImmOmInitialize cb ver))]\<rparr>))"
  by (simp add: autoRetry_saImmOmInitialize_def autoRetry_saImmOmInitializeAttempt_def bnd_def
      auto_retry_from_once try_again_def return_def)

lemma more_tries_once: "\<not> again (a_rc a) \<Longrightarrow> more_tries E again p c n a = return a"
  by (cases n) simp_all

lemma imm_api_call_once: "a_rc (E (hist w) c) \<noteq> SA_AIS_ERR_TRY_AGAIN \<Longrightarrow> a_rc (E (hist w) c) \<noteq> SA_AIS_ERR_BUSY \<Longrightarrow>
    imm_api_call E c w = Some (Inr (E (hist w) c, w\<lparr>hist := hist w @ [(c, E (hist w) c)]\<rparr>))"
  by (simp add: imm_api_call_def bnd_def call_run more_tries_once return_def)

lemma log_api_call_once: "a_rc (E (hist w) c) \<noteq> SA_AIS_ERR_TRY_AGAIN \<Longrightarrow>
    log_api_call E c w = Some (Inr (E (hist w) c, w\<lparr>hist := hist w @ [(c, E (hist w) c)]\<rparr>))"
  by (simp add: log_api_call_def bnd_def call_run) (subst while_prog.simps, simp add: return_def)

lemma log_api_call_try_again_once: "a_rc (E (hist w) c) \<noteq> SA_AIS_ERR_TRY_AGAIN \<Longrightarrow>
    log_api_call_try_again E c w = Some (Inr (a_rc (E (hist w) c), w\<lparr>hist := hist w @ [(c, E (hist w) c)]\<rparr>))"
  by (simp add: log_api_call_try_again_def bnd_def call_run more_tries_once return_def)

lemmas once = call_run auto_retry_once om_init_once imm_api_call_once log_api_call_once log_api_call_try_again_once

lemmas prog_defs = bnd_def andthen_def return_def gets_def modify_def unless_def do_call_def sa_rc_def
  get_stream_def put_stream_def die_def

text \<open>Surroundings in which every call succeeds, for examples.\<close>

definition yes :: answer where
  "yes = \<lparr>a_rc = SA_AIS_OK, a_maf = MafOk, a_handle = 7, a_attr = None, a_attrs = None, a_num = 0, a_errno = 0, a_out = (5, 6),
     a_text = None, a_version = imm_version, a_ntf = None\<rparr>"

definition log_start :: log_world where
  "log_start = log_init ''com'' ''COM'' True timerCreateHandle_r"

end
