(* ===== verification/TraceObserver.thy ===== *)
theory TraceObserver
  imports LogRules
begin

text \<open>
  An observer folds a function over the trace of calls.  The locale states what the repeating
  calls need of it: pauses and attempts that were not answered with success leave no mark.  Its
  lemmas give, for every building block of a program, what has to hold for a relation between the
  observation before and after the program; a predicate \<open>I\<close> on the rest of the state is carried along.
\<close>

text \<open>The calls into the SA Forum libraries, which are the ones the macros and wrappers repeat.\<close>

definition lib_call :: "ocall \<Rightarrow> bool" where
  "lib_call c = (case c of
     PushLogEvent f t \<Rightarrow> False | PushComDebugLogLevelEvent \<Rightarrow> False | TraceWrite g m \<Rightarrow> False
   | AuditLogger t p m \<Rightarrow> False | Syslog p m \<Rightarrow> False | Usleep n \<Rightarrow> False | SleepSec n \<Rightarrow> False
   | Nanosleep n m \<Rightarrow> False | PthreadCreate l \<Rightarrow> False | PthreadDetach t \<Rightarrow> False | PthreadKill t \<Rightarrow> False
   | PthreadJoin t \<Rightarrow> False | Pipe \<Rightarrow> False | FcntlGetfl d \<Rightarrow> False | FcntlSetfl d m \<Rightarrow> False
   | Symlink s t \<Rightarrow> False | Popen s \<Rightarrow> False | Fgets n \<Rightarrow> False | Pclose \<Rightarrow> False | Fopen s \<Rightarrow> False
   | Fclose \<Rightarrow> False | GetClearStorage \<Rightarrow> False
   | StatFile s \<Rightarrow> False | FopenWb s \<Rightarrow> False | FopenRb s \<Rightarrow> False | Fwrite s \<Rightarrow> False
   | Fread n \<Rightarrow> False | RemoveFile s \<Rightarrow> False | Opendir s \<Rightarrow> False | Readdir \<Rightarrow> False
   | Closedir \<Rightarrow> False | Rmdir s \<Rightarrow> False | GetEnv s \<Rightarrow> False | UnsetEnv s \<Rightarrow> False
   | PortalRegister s \<Rightarrow> False | PortalUnregister s \<Rightarrow> False | _ \<Rightarrow> True)"

lemma lib_calls [simp]:
  "lib_call (SaImmOiInitialize_2 a0a a0b)" "lib_call (SaImmOiSelectionObjectGet a1a)"
  "lib_call (SaImmOiClassImplementerSet a2a a2b)" "lib_call (SaImmOiClassImplementerRelease a3a a3b)"
  "lib_call (SaImmOiObjectImplementerSet a4a a4b a4c)"
  "lib_call (SaImmOiObjectImplementerRelease a5a a5b a5c)" "lib_call (SaImmOiImplementerSet a6a a6b)"
  "lib_call (SaImmOiImplementerClear a7a)" "lib_call (SaImmOiRtObjectCreate_2 a8a a8b a8c a8d)"
  "lib_call (SaImmOiRtObjectDelete a9a a9b)" "lib_call (SaImmOiRtObjectUpdate_2 a10a a10b a10c)"
  "lib_call (SaImmOiAdminOperationResult_o2 a11a a11b a11c a11d)" "lib_call (SaImmOiFinalize a12a)"
  "lib_call (SaImmOmInitialize a13a a13b)" "lib_call (SaImmOmFinalize a14a)"
  "lib_call (SaImmOmSearchInitialize_2 a15a a15b a15c a15d a15e a15f)" "lib_call (SaImmOmSearchNext_2 a16a)"
  "lib_call (SaImmOmSearchFinalize a17a)" "lib_call (SaImmOmAccessorInitialize a18a)"
  "lib_call (SaImmOmAccessorFinalize a19a)" "lib_call (SaImmOmAccessorGet_2 a20a a20b a20c)"
  "lib_call (SaImmOmClassDescriptionGet_2 a21a a21b)" "lib_call (SaImmOmClassCreate_2 a22a a22b a22c a22d)"
  "lib_call (SaImmOmClassDelete a23a a23b)" "lib_call (SaImmOmAdminOwnerInitialize a24a a24b)"
  "lib_call (SaImmOmAdminOwnerFinalize a25a)" "lib_call (SaImmOmAdminOwnerSet a26a a26b)"
  "lib_call (SaImmOmAdminOwnerRelease a27a a27b)" "lib_call (SaImmOmCcbInitialize a28a)"
  "lib_call (SaImmOmCcbObjectModify_2 a29a a29b a29c)" "lib_call (SaImmOmCcbValidate a30a)"
  "lib_call (SaImmOmCcbApply a31a)" "lib_call (SaLogInitialize a32a)"
  "lib_call (SaLogSelectionObjectGet a33a)" "lib_call (SaLogDispatch a34a)"
  "lib_call (SaLogStreamOpen_2 a35a a35b)" "lib_call (SaLogStreamClose a36a)" "lib_call (SaLogFinalize a37a)"
  "lib_call (SaLogWriteLogAsync a38a a38b a38c a38d)"
  by (simp_all add: lib_call_def)

locale trace_observer =
  fixes step :: "ocall \<times> answer \<Rightarrow> 's \<Rightarrow> 's"
    and om_init :: "answer \<Rightarrow> 's \<Rightarrow> 's"
    and s0 :: 's
    and I :: "'b world_scheme \<Rightarrow> bool"
  assumes step_pause: "step (Usleep n, q) S = S" "step (SleepSec n, q) S = S"
    and step_again: "lib_call d \<Longrightarrow> a_rc b \<noteq> SA_AIS_OK \<Longrightarrow> step (d, a) (step (d, b) S) = step (d, a) S"
    and step_init: "step (SaImmOmInitialize cb v, a) S = (if a_rc a = SA_AIS_OK then om_init a S else S)"
    and I_hist: "I (w\<lparr>hist := h\<rparr>) = I w"
begin

definition observed :: "history \<Rightarrow> 's" where
  "observed t = fold step t s0"

lemma observed_append: "observed (s @ t) = fold step t (observed s)"
  by (simp add: observed_def)

lemma step_retried:
  assumes "retried p again (\<lambda>d. d = c) a t" "\<And>q S. step (p, q) S = S" "\<not> again SA_AIS_OK" "lib_call c"
  shows "fold step t S = step (c, a) S"
proof -
  obtain s where s: "t = s @ [(c, a)]" "list_all (\<lambda>(d, b). d = p \<or> d = c \<and> again (a_rc b)) s"
    using assms(1) by (auto simp: retried_def)
  have "step (c, a) (fold step s S) = step (c, a) S" using s(2)
  proof (induction s arbitrary: S)
    case (Cons e s)
    obtain d b where e: "e = (d, b)" by fastforce
    then have "d = p \<or> d = c \<and> a_rc b \<noteq> SA_AIS_OK" using Cons.prems assms(3) by auto
    then have "step (c, a) (step e S) = step (c, a) S" using assms(2) e step_again [OF assms(4)] by metis
    then show ?case using Cons by simp
  qed simp
  then show ?thesis by (simp add: s(1))
qed

lemma step_retried_init:
  assumes "retried p again is_om_init a t" "\<And>q S. step (p, q) S = S" "\<not> again SA_AIS_OK"
  shows "fold step t S = (if a_rc a = SA_AIS_OK then om_init a S else S)"
proof -
  have init: "step (d, b) S = (if a_rc b = SA_AIS_OK then om_init b S else S)" if "is_om_init d" for d b S
    using that by (cases d) (auto simp: is_om_init_def step_init)
  obtain s c where s: "t = s @ [(c, a)]" "is_om_init c" "list_all (\<lambda>(d, b). d = p \<or> is_om_init d \<and> again (a_rc b)) s"
    using assms(1) by (auto simp: retried_def)
  have "fold step s S = S" using s(3)
  proof (induction s arbitrary: S)
    case (Cons e s)
    obtain d b where e: "e = (d, b)" by fastforce
    then have "d = p \<or> is_om_init d \<and> a_rc b \<noteq> SA_AIS_OK" using Cons.prems assms(3) by auto
    then have "step e S = S" using assms(2) e init by auto
    then show ?case using Cons by simp
  qed simp
  then show ?thesis by (simp add: s(1) init [OF s(2)])
qed

text \<open>
  \<open>tracked m R S\<close>: if \<open>S\<close> is observed before \<open>m\<close>, then \<open>R\<close> holds of the result of \<open>m\<close> and what is
  observed after it.
\<close>

definition tracked :: "('b world_scheme, 'a) prog \<Rightarrow> ('a \<Rightarrow> 's \<Rightarrow> bool) \<Rightarrow> 's \<Rightarrow> bool" where
  "tracked m R S \<longleftrightarrow> (\<forall>w. observed (hist w) = S \<and> I w \<longrightarrow>
     wp True m (\<lambda>r v. I v \<and> R r (observed (hist v))) (\<lambda>f v. True) w)"

lemma t_return: "R r S \<Longrightarrow> tracked (return r) R S"
  by (simp add: tracked_def)

lemma t_die: "tracked (die f) R S"
  by (simp add: tracked_def)

lemma t_gets: "(\<And>w. I w \<Longrightarrow> R (f w) S) \<Longrightarrow> tracked (gets f) R S"
  by (simp add: tracked_def)

lemma t_modify: "(\<And>w. I w \<Longrightarrow> I (f w) \<and> hist (f w) = hist w) \<Longrightarrow> R () S \<Longrightarrow> tracked (modify f) R S"
  by (simp add: tracked_def)

lemma t_bnd: "tracked m (\<lambda>a. tracked (k a) R) S \<Longrightarrow> tracked (bnd m k) R S"
  unfolding tracked_def wp_bnd by (intro allI impI, erule allE, erule (1) impE, erule wp_mono) auto

lemma t_andthen: "tracked m (\<lambda>a. tracked k R) S \<Longrightarrow> tracked (andthen m k) R S"
  unfolding andthen_def by (rule t_bnd)

lemma t_if: "(b \<Longrightarrow> tracked m R S) \<Longrightarrow> (\<not> b \<Longrightarrow> tracked k R S) \<Longrightarrow> tracked (if b then m else k) R S"
  by simp

lemma t_unless: "(b \<Longrightarrow> R () S) \<Longrightarrow> (\<not> b \<Longrightarrow> tracked m R S) \<Longrightarrow> tracked (unless b m) R S"
  by (simp add: tracked_def)

lemma t_Let: "(\<And>x. x = e \<Longrightarrow> tracked (m x) R S) \<Longrightarrow> tracked (Let e m) R S"
  by simp

lemma t_prod: "(\<And>x y. p = (x, y) \<Longrightarrow> tracked (m x y) R S) \<Longrightarrow> tracked (case p of (x, y) \<Rightarrow> m x y) R S"
  by (cases p) simp

lemma t_option:
  "(x = None \<Longrightarrow> tracked m R S) \<Longrightarrow> (\<And>y. x = Some y \<Longrightarrow> tracked (k y) R S) \<Longrightarrow>
     tracked (case x of None \<Rightarrow> m | Some y \<Rightarrow> k y) R S"
  by (cases x) simp_all

lemma t_do_call: "(\<And>a. R () (step (c, a) S)) \<Longrightarrow> tracked (do_call E c) R S"
  by (simp add: tracked_def wp_do_call observed_append I_hist)

lemma t_call: "(\<And>a. answered E a \<Longrightarrow> R a (step (c, a) S)) \<Longrightarrow> tracked (call E c) R S"
  by (simp add: tracked_def wp_call observed_append I_hist)

lemma t_imm_call:
  "lib_call c \<Longrightarrow> (\<And>a. answered E a \<Longrightarrow> R a (step (c, a) S)) \<Longrightarrow> tracked (imm_api_call E c) R S"
  unfolding tracked_def
  by (auto intro!: wp_imm_api_call simp: I_hist observed_append step_pause
      step_retried [where again = "\<lambda>rc. rc = SA_AIS_ERR_TRY_AGAIN \<or> rc = SA_AIS_ERR_BUSY"])

lemma t_log_call:
  "lib_call c \<Longrightarrow> (\<And>a. answered E a \<Longrightarrow> R a (step (c, a) S)) \<Longrightarrow> tracked (log_api_call E c) R S"
  unfolding tracked_def
  by (auto intro!: wp_log_api_call simp: I_hist observed_append step_pause
      step_retried [where again = "\<lambda>rc. rc = SA_AIS_ERR_TRY_AGAIN"])

lemma t_log_call_try_again:
  "lib_call c \<Longrightarrow> (\<And>a. answered E a \<Longrightarrow> R (a_rc a) (step (c, a) S)) \<Longrightarrow> tracked (log_api_call_try_again E c) R S"
  unfolding tracked_def
  by (auto intro!: wp_log_api_call_try_again simp: I_hist observed_append step_pause
      step_retried [where again = "\<lambda>rc. rc = SA_AIS_ERR_TRY_AGAIN"])

lemma t_auto_retry:
  "lib_call c \<Longrightarrow> (\<And>a. answered E a \<Longrightarrow> R a (step (c, a) S)) \<Longrightarrow> tracked (auto_retry E try_again c) R S"
  unfolding tracked_def
  by (auto intro!: wp_auto_retry simp: I_hist observed_append step_pause pause_def try_again_def
      step_retried [where again = try_again])

lemma t_om_init:
  "(\<And>a. answered E a \<Longrightarrow> R a (if a_rc a = SA_AIS_OK then om_init a S else S)) \<Longrightarrow>
     tracked (autoRetry_saImmOmInitialize E cb ver) R S"
  unfolding tracked_def
  by (intro allI impI, rule wp_om_initialize)
    (simp add: I_hist observed_append step_retried_init [where again = try_again] step_pause try_again_def pause_def)

lemma t_while:
  assumes step: "\<And>a S. J a S \<Longrightarrow> if b a then tracked (body a) J S else R a S"
  shows "J a S \<Longrightarrow> tracked (while_prog b body a) R S"
  unfolding tracked_def
proof (intro allI impI)
  fix w :: "'b world_scheme"
  assume J: "J a S" and w: "observed (hist w) = S \<and> I w"
  show "wp True (while_prog b body a) (\<lambda>r v. I v \<and> R r (observed (hist v))) (\<lambda>f v. True) w"
  proof (rule while_partial [where I = "\<lambda>a v. I v \<and> J a (observed (hist v))"])
    fix a v
    assume "I v \<and> J a (observed (hist v))"
    then show "if b a then wp True (body a) (\<lambda>a v. I v \<and> J a (observed (hist v))) (\<lambda>f v. True) v
        else I v \<and> R a (observed (hist v))"
      using step [of a "observed (hist v)"] by (auto simp: tracked_def)
  qed (use J w in simp)
qed

lemma t_mono: "tracked m R S \<Longrightarrow> (\<And>a T. R a T \<Longrightarrow> R' a T) \<Longrightarrow> tracked m R' S"
  unfolding tracked_def by (intro allI impI, erule allE, erule (1) impE, erule wp_mono) auto

lemmas t_rules = t_bnd t_andthen t_if t_unless t_Let t_prod t_option t_return t_die t_do_call t_call
  t_imm_call t_log_call t_log_call_try_again t_auto_retry t_om_init

lemma tracked_run:
  "tracked m R (observed (hist w)) \<Longrightarrow> I w \<Longrightarrow> m w = Some (Inr (r, v)) \<Longrightarrow> R r (observed (hist v))"
  by (fastforce simp: tracked_def dest: wp_Inr)

end

end
