(* ===== verification/LogImm.thy ===== *)
theory LogImm
  imports TraceObserver
begin

text \<open>
  The traffic of the log service with the information model: every handle is given back, and the
  changes of the log streams are applied as a whole or not at all.  Both are observers of the
  trace.
\<close>

section \<open>Handles are given back\<close>

datatype imm_handle = Om handle | AdminOwner handle | Accessor handle

text \<open>The handles obtained in a trace for which no finalize call was made.\<close>

definition track :: "ocall \<times> answer \<Rightarrow> imm_handle set \<Rightarrow> imm_handle set" where
  "track e S = (case fst e of
     SaImmOmInitialize cb v \<Rightarrow> if a_rc (snd e) = SA_AIS_OK then insert (Om (a_handle (snd e))) S else S
   | SaImmOmAdminOwnerInitialize h n \<Rightarrow>
       if a_rc (snd e) = SA_AIS_OK then insert (AdminOwner (a_handle (snd e))) S else S
   | SaImmOmAccessorInitialize h \<Rightarrow> if a_rc (snd e) = SA_AIS_OK then insert (Accessor (a_handle (snd e))) S else S
   | SaImmOmFinalize h \<Rightarrow> S - {Om h}
   | SaImmOmAdminOwnerFinalize h \<Rightarrow> S - {AdminOwner h}
   | SaImmOmAccessorFinalize h \<Rightarrow> S - {Accessor h}
   | _ \<Rightarrow> S)"

lemma track_simps [simp]:
  "track (SaImmOmInitialize cb v, a) S = (if a_rc a = SA_AIS_OK then insert (Om (a_handle a)) S else S)"
  "track (SaImmOmAdminOwnerInitialize h n, a) S = (if a_rc a = SA_AIS_OK then insert (AdminOwner (a_handle a)) S else S)"
  "track (SaImmOmAccessorInitialize h, a) S = (if a_rc a = SA_AIS_OK then insert (Accessor (a_handle a)) S else S)"
  "track (SaImmOmFinalize h, a) S = S - {Om h}"
  "track (SaImmOmAdminOwnerFinalize h, a) S = S - {AdminOwner h}"
  "track (SaImmOmAccessorFinalize h, a) S = S - {Accessor h}"
  "track (SaImmOmAccessorGet_2 h n l, a) S = S"
  "track (SaImmOmAdminOwnerSet h l, a) S = S" "track (SaImmOmAdminOwnerRelease h l, a) S = S"
  "track (SaImmOmCcbInitialize h, a) S = S" "track (SaImmOmCcbObjectModify_2 h n ms, a) S = S"
  "track (SaImmOmCcbValidate h, a) S = S" "track (SaImmOmCcbApply h, a) S = S"
  by (simp_all add: track_def)

lemma track_again: "a_rc b \<noteq> SA_AIS_OK \<Longrightarrow> track (d, a) (track (d, b) S) = track (d, a) S"
  by (cases d) (auto simp: track_def)

interpretation handles: trace_observer track "\<lambda>a. insert (Om (a_handle a))" "{}" "\<lambda>w. True"
  by unfold_locales (simp_all add: track_again, simp_all add: track_def)

definition unfinalized :: "history \<Rightarrow> imm_handle set" where
  "unfinalized t = fold track t {}"

lemma unfinalized_observed: "handles.observed = unfinalized"
  by (simp add: fun_eq_iff handles.observed_def unfinalized_def)

text \<open>Documented by the SA Forum: a call that succeeds returns a handle that is not 0.\<close>

definition handles_nonzero :: "outside \<Rightarrow> bool" where
  "handles_nonzero E \<longleftrightarrow> (\<forall>h c. a_rc (E h c) = SA_AIS_OK \<longrightarrow> a_handle (E h c) \<noteq> 0)"

lemma handles_nonzeroD: "handles_nonzero E \<Longrightarrow> answered E a \<Longrightarrow> a_rc a = SA_AIS_OK \<Longrightarrow> a_handle a \<noteq> 0"
  by (auto simp: handles_nonzero_def answered_def)

lemmas imm_wrappers = autoRetry_saImmOmAccessorInitialize_def autoRetry_saImmOmAccessorGet_2_def
  autoRetry_saImmOmFinalize_def

lemma h_log_imm_finalize:
  "R () ((if ao = 0 then S else S - {AdminOwner ao}) - (if om = 0 then {} else {Om om})) \<Longrightarrow>
     handles.tracked (log_imm_finalize E om ao) R S"
  unfolding log_imm_finalize_def by (intro handles.t_rules; simp)

lemma h_release:
  "R r ((if ao = 0 then S else S - {AdminOwner ao}) - (if om = 0 then {} else {Om om})) \<Longrightarrow>
     handles.tracked (release_and_finalize E om ao dns r) R S"
  unfolding release_and_finalize_def by (intro handles.t_rules h_log_imm_finalize; simp split: if_splits)

lemma h_modify_streams: "(\<And>rc. R rc S) \<Longrightarrow> handles.tracked (modify_streams E ccb) R S"
  unfolding modify_streams_def modifyLogStreamAttr_def
  by (intro handles.t_rules handles.t_gets; simp)

lemma h_modifyCfg:
  assumes "handles_nonzero E"
  shows "handles.tracked (modifyCfgLogStreamInstances E) (\<lambda>r T. T \<subseteq> S) S"
  unfolding modifyCfgLogStreamInstances_def
  by (intro handles.t_rules h_log_imm_finalize h_release h_modify_streams; simp;
      (auto dest: handles_nonzeroD [OF assms])[])

lemma h_get_string: "(\<And>r. R r S) \<Longrightarrow> handles.tracked (get_string_attr E acc dn at) R S"
  unfolding get_string_attr_def imm_wrappers
  by (intro handles.t_rules; simp) (auto intro!: handles.t_rules split: list.split imm_value.split)

lemma h_getSeverityFilter: "(\<And>r. R r S) \<Longrightarrow> handles.tracked (getSeverityFilter E acc dn) R S"
  unfolding getSeverityFilter_def imm_wrappers by (intro handles.t_rules handles.t_modify; simp)

lemma h_update_needed: "(\<And>r. R r S) \<Longrightarrow> handles.tracked (updateLogStreamFileNameNeeded E acc dn at) R S"
  unfolding updateLogStreamFileNameNeeded_def getLogStreamFileName_def
  by (intro handles.t_rules h_get_string; simp)

lemma h_put_stream: "R () S \<Longrightarrow> handles.tracked (put_stream l f) R S"
  unfolding put_stream_def by (rule handles.t_modify) simp_all

lemma h_read_filter: "R () S \<Longrightarrow> handles.tracked (read_filter E acc dn l) R S"
  unfolding read_filter_def by (intro handles.t_rules h_getSeverityFilter h_put_stream; simp)

lemma h_set_update_name: "R () S \<Longrightarrow> handles.tracked (set_update_name l b) R S"
  unfolding set_update_name_def by (rule handles.t_modify) simp_all

lemma h_om_imm_finalize:
  "R () (if om = 0 then S else (if acc = 0 then S else S - {Accessor acc}) - {Om om}) \<Longrightarrow>
     handles.tracked (om_imm_finalize E om acc) R S"
  unfolding om_imm_finalize_def imm_wrappers by (intro handles.t_rules; simp)

lemma h_accessor_users:
  assumes "handles_nonzero E"
  shows "handles.tracked (readSafLogPath E) (\<lambda>r T. T \<subseteq> S) S"
    and "handles.tracked (readCfgLogStreamsInfoFromImm E) (\<lambda>r T. T \<subseteq> S) S"
    and "handles.tracked (setSaLogSystemSevFilter E) (\<lambda>r T. T \<subseteq> S) S"
  unfolding readSafLogPath_def readCfgLogStreamsInfoFromImm_def setSaLogSystemSevFilter_def imm_wrappers
  by ((intro handles.t_rules handles.t_gets handles.t_modify h_om_imm_finalize h_get_string h_put_stream h_read_filter h_update_needed
      h_set_update_name h_getSeverityFilter; simp; (auto dest: handles_nonzeroD [OF assms])[])+)

text \<open>
  C32. Whatever fails on the way, the four functions that talk to the information model leave no
  handle behind: every object manager, admin owner and accessor handle they obtained has had its
  finalize call when they return.
\<close>

theorem imm_handles_given_back:
  assumes "handles_nonzero E"
  shows "(modifyCfgLogStreamInstances E w = Some (Inr (r1, v1)) \<longrightarrow> unfinalized (hist v1) \<subseteq> unfinalized (hist w)) \<and>
    (readSafLogPath E w = Some (Inr (r2, v2)) \<longrightarrow> unfinalized (hist v2) \<subseteq> unfinalized (hist w)) \<and>
    (readCfgLogStreamsInfoFromImm E w = Some (Inr (r3, v3)) \<longrightarrow> unfinalized (hist v3) \<subseteq> unfinalized (hist w)) \<and>
    (setSaLogSystemSevFilter E w = Some (Inr (r4, v4)) \<longrightarrow> unfinalized (hist v4) \<subseteq> unfinalized (hist w))"
  using handles.tracked_run [OF h_modifyCfg [OF assms], of w r1 v1]
    handles.tracked_run [OF h_accessor_users(1) [OF assms], of w r2 v2]
    handles.tracked_run [OF h_accessor_users(2) [OF assms], of w r3 v3]
    handles.tracked_run [OF h_accessor_users(3) [OF assms], of w r4 v4]
  by (simp add: unfinalized_observed)

lemma modifyCfg_yes: "\<exists>v. modifyCfgLogStreamInstances (\<lambda>h c. yes) log_start = Some (Inr (MafOk, v))"
  by (simp add: modifyCfgLogStreamInstances_def modify_streams_def modifyLogStreamAttr_def release_and_finalize_def
      log_imm_finalize_def prog_defs once yes_def Let_def)

lemma start_hist: "hist log_start = []"
  by (simp add: log_start_def log_init_def)

theorem imm_handles_given_back_witness:
  "\<exists>v. modifyCfgLogStreamInstances (\<lambda>h c. yes) log_start = Some (Inr (MafOk, v)) \<and> unfinalized (hist v) = {}"
proof -
  have "handles_nonzero (\<lambda>h c. yes)" by (simp add: handles_nonzero_def yes_def)
  moreover obtain v where v: "modifyCfgLogStreamInstances (\<lambda>h c. yes) log_start = Some (Inr (MafOk, v))"
    using modifyCfg_yes by blast
  ultimately have "unfinalized (hist v) \<subseteq> unfinalized (hist log_start)"
    using imm_handles_given_back [of "\<lambda>h c. yes" log_start MafOk v] by blast
  with v show ?thesis by (simp add: start_hist unfinalized_def)
qed

section \<open>All changes or none\<close>

text \<open>The calls on a change bundle that succeeded, in order.\<close>

fun is_ccb :: "ocall \<Rightarrow> bool" where
  "is_ccb (SaImmOmCcbObjectModify_2 ccb dn ms) = True"
| "is_ccb (SaImmOmCcbValidate ccb) = True"
| "is_ccb (SaImmOmCcbApply ccb) = True"
| "is_ccb c = False"

definition ccb_step :: "ocall \<times> answer \<Rightarrow> ocall list \<Rightarrow> ocall list" where
  "ccb_step e S = (if is_ccb (fst e) \<and> a_rc (snd e) = SA_AIS_OK then S @ [fst e] else S)"

lemma ccb_step_simps [simp]:
  "\<not> is_ccb c \<Longrightarrow> ccb_step (c, a) S = S"
  "is_ccb c \<Longrightarrow> ccb_step (c, a) S = (if a_rc a = SA_AIS_OK then S @ [c] else S)"
  by (simp_all add: ccb_step_def)

interpretation ccbs: trace_observer ccb_step "\<lambda>a S. S" "[]" "\<lambda>w. log_attrs w = c \<and> update_name w = u" for c and u
  by unfold_locales (simp_all, simp add: ccb_step_def)

definition ccb_done :: "history \<Rightarrow> ocall list" where
  "ccb_done t = map fst (filter (\<lambda>(c, a). is_ccb c \<and> a_rc a = SA_AIS_OK) t)"

lemma ccb_done_fold: "fold ccb_step t S = S @ ccb_done t"
  by (induction t arbitrary: S) (auto simp: ccb_done_def ccb_step_def)

definition modify_call :: "handle \<Rightarrow> string \<Rightarrow> SaLogFileCreateAttributesT_2 \<Rightarrow> bool \<Rightarrow> ocall" where
  "modify_call ccb dn a upd = SaImmOmCcbObjectModify_2 ccb dn
     ([allocateUint64AttrMod ''saLogStreamMaxLogFileSize'' (maxLogFileSize a),
       allocateUint32AttrMod ''saLogStreamMaxFilesRotated'' (ucast (maxFilesRotated a)),
       allocateUint32AttrMod ''saLogStreamFixedLogRecordSize'' (maxLogRecordSize a)]
      @ (if upd then [allocateStringAttrMod LOG_STREAM_FILENAME_PARAM (logFileName a)] else []))"

definition bundle_plan :: "handle \<Rightarrow> log_conf \<Rightarrow> (log_id \<Rightarrow> bool) \<Rightarrow> ocall list" where
  "bundle_plan ccb c u =
    [modify_call ccb ALARM_LOG_STREAM_DN (alarmLogFileAttributes c) (u AlarmLog),
     modify_call ccb ALERT_LOG_STREAM_DN (alertLogFileAttributes c) (u AlertLog),
     modify_call ccb CMD_LOG_STREAM_DN (cmdLogFileAttributes c) (u CmdLog),
     SaImmOmCcbValidate ccb, SaImmOmCcbApply ccb]"

text \<open>
  \<open>planned ccb c u n S T\<close>: \<open>T\<close> extends \<open>S\<close> by the first \<open>n\<close> calls of the plan.
\<close>

lemma b_release:
  "R r S \<Longrightarrow> ccbs.tracked c u (release_and_finalize E om ao dns r) R S"
  unfolding release_and_finalize_def log_imm_finalize_def by (intro ccbs.t_rules; simp)

lemma b_log_imm_finalize: "R () S \<Longrightarrow> ccbs.tracked c u (log_imm_finalize E om ao) R S"
  unfolding log_imm_finalize_def by (intro ccbs.t_rules; simp)

lemma is_ccb_modify [simp]: "is_ccb (modify_call ccb dn a upd)"
  by (simp add: modify_call_def)

lemma b_modify:
  "(\<And>rc. R rc (if rc = SA_AIS_OK then S @ [modify_call ccb dn a upd] else S)) \<Longrightarrow>
     ccbs.tracked c u (modifyLogStreamAttr E ccb dn a upd) R S"
  unfolding modifyLogStreamAttr_def modify_call_def [symmetric]
  by (intro ccbs.t_rules, simp add: modify_call_def) (metis ccb_step_simps(2) is_ccb_modify)

lemma b_modify_streams:
  assumes "\<And>rc n. n \<le> 3 \<Longrightarrow> rc = SA_AIS_OK \<longleftrightarrow> n = 3 \<Longrightarrow> R rc (S @ take n (bundle_plan ccb c u))"
  shows "ccbs.tracked c u (modify_streams E ccb) R S"
proof -
  have R: "rc \<noteq> SA_AIS_OK \<Longrightarrow> R rc S"
    "rc \<noteq> SA_AIS_OK \<Longrightarrow> R rc (S @ [modify_call ccb ALARM_LOG_STREAM_DN (alarmLogFileAttributes c) (u AlarmLog)])"
    "rc \<noteq> SA_AIS_OK \<Longrightarrow> R rc ((S @ [modify_call ccb ALARM_LOG_STREAM_DN (alarmLogFileAttributes c) (u AlarmLog)])
       @ [modify_call ccb ALERT_LOG_STREAM_DN (alertLogFileAttributes c) (u AlertLog)])"
    "R SA_AIS_OK (((S @ [modify_call ccb ALARM_LOG_STREAM_DN (alarmLogFileAttributes c) (u AlarmLog)])
       @ [modify_call ccb ALERT_LOG_STREAM_DN (alertLogFileAttributes c) (u AlertLog)])
       @ [modify_call ccb CMD_LOG_STREAM_DN (cmdLogFileAttributes c) (u CmdLog)])" for rc
    using assms [of 0 rc] assms [of 1 rc] assms [of 2 rc] assms [of 3 SA_AIS_OK]
    by (simp_all add: bundle_plan_def numeral_eq_Suc)
  show ?thesis
    unfolding modify_streams_def
    by (intro ccbs.t_bnd ccbs.t_if ccbs.t_return ccbs.t_gets b_modify; (use R in simp)[])
qed

lemma plan_snoc:
  "take 3 (bundle_plan ccb c u) @ [SaImmOmCcbValidate ccb] = take 4 (bundle_plan ccb c u)"
  "take 4 (bundle_plan ccb c u) @ [SaImmOmCcbApply ccb] = take 5 (bundle_plan ccb c u)"
  by (simp_all add: bundle_plan_def numeral_eq_Suc)

lemma b_modifyCfg:
  "ccbs.tracked c u (modifyCfgLogStreamInstances E)
     (\<lambda>r T. \<exists>ccb n. T = S @ take n (bundle_plan ccb c u) \<and> n \<le> 5 \<and> (r = MafOk \<longleftrightarrow> n = 5)) S"
proof -
  define R where "R = (\<lambda>r T. \<exists>ccb n. T = S @ take n (bundle_plan ccb c u) \<and> n \<le> 5 \<and> (r = MafOk \<longleftrightarrow> n = 5))"
  have R: "n \<noteq> 5 \<Longrightarrow> n \<le> 5 \<Longrightarrow> R MafFailure (S @ take n (bundle_plan ccb c u))" "R MafFailure S"
    "R MafOk (S @ take 5 (bundle_plan ccb c u))" for n ccb
    unfolding R_def by fastforce+
  have "ccbs.tracked c u (modifyCfgLogStreamInstances E) R S"
    unfolding modifyCfgLogStreamInstances_def
    by (intro ccbs.t_rules b_log_imm_finalize b_release b_modify_streams; (use R in \<open>simp add: plan_snoc\<close>)[])
  then show ?thesis by (simp only: R_def)
qed

text \<open>
  C11. The changes of the three log streams take effect as a whole or not at all.  The calls on
  the change bundle that succeed are, in order, a prefix of the plan: the configured attributes of
  the alarm, alert and command log, validate, apply; and the function returns \<open>MafOk\<close> exactly
  when the whole plan, with the final apply, was carried out.
\<close>

theorem changes_all_or_none:
  assumes "modifyCfgLogStreamInstances E w = Some (Inr (r, v))"
  shows "\<exists>ccb n. ccb_done (hist v) = ccb_done (hist w) @ take n (bundle_plan ccb (log_attrs w) (update_name w)) \<and>
     n \<le> 5 \<and> (r = MafOk \<longleftrightarrow> n = 5)"
  using ccbs.tracked_run [OF b_modifyCfg, of w "log_attrs w" "update_name w" E r v] assms
  by (simp add: ccbs.observed_def ccb_done_fold)

theorem changes_all_or_none_witness:
  "\<exists>v. modifyCfgLogStreamInstances (\<lambda>h c. yes) log_start = Some (Inr (MafOk, v)) \<and>
     (\<exists>ccb. ccb_done (hist v) = bundle_plan ccb (log_attrs log_start) (update_name log_start))"
proof -
  obtain v where v: "modifyCfgLogStreamInstances (\<lambda>h c. yes) log_start = Some (Inr (MafOk, v))"
    using modifyCfg_yes by blast
  moreover have "ccb_done (hist log_start) = []" by (simp add: start_hist ccb_done_def)
  ultimately show ?thesis using changes_all_or_none [OF v] by (auto simp: bundle_plan_def)
qed

section \<open>Values have the type they are declared with\<close>

fun value_type :: "imm_value \<Rightarrow> imm_type" where
  "value_type (VInt32 n) = SA_IMM_ATTR_SAINT32T"
| "value_type (VUint32 n) = SA_IMM_ATTR_SAUINT32T"
| "value_type (VInt64 n) = SA_IMM_ATTR_SAINT64T"
| "value_type (VUint64 n) = SA_IMM_ATTR_SAUINT64T"
| "value_type (VString s) = SA_IMM_ATTR_SASTRINGT"
| "value_type (VName s) = SA_IMM_ATTR_SANAMET"
| "value_type (VBytes s) = SA_IMM_ATTR_SAANYT"

definition well_typed :: "imm_mod \<Rightarrow> bool" where
  "well_typed m \<longleftrightarrow> attrValues (modAttr m) \<noteq> [] \<and>
     list_all (\<lambda>v. value_type v = attrValueType (modAttr m)) (attrValues (modAttr m))"

fun typed_call :: "ocall \<Rightarrow> bool" where
  "typed_call (SaImmOmCcbObjectModify_2 ccb dn ms) = list_all well_typed ms"
| "typed_call c = True"

definition typed_step :: "ocall \<times> answer \<Rightarrow> bool \<Rightarrow> bool" where
  "typed_step e b \<longleftrightarrow> b \<and> typed_call (fst e)"

lemma typed_step_simps [simp]: "typed_step (c, a) b \<longleftrightarrow> b \<and> typed_call c"
  by (simp add: typed_step_def)

interpretation types: trace_observer typed_step "\<lambda>a b. b" True "\<lambda>w. True"
  by unfold_locales auto

lemma well_typed_mods [simp]:
  "well_typed (allocateUint32AttrMod n i)" "well_typed (allocateUint64AttrMod n j)" "well_typed (allocateStringAttrMod n s)"
  by (simp_all add: well_typed_def allocateUint32AttrMod_def allocateUint64AttrMod_def allocateStringAttrMod_def
      allocateUint32AttrValueArray_def allocateUint64AttrValueArray_def allocateStringAttrValueArray_def)

lemma ty_log_imm_finalize: "R () S \<Longrightarrow> types.tracked (log_imm_finalize E om ao) R S"
  unfolding log_imm_finalize_def by (intro types.t_rules; simp)

lemma ty_release: "R r S \<Longrightarrow> types.tracked (release_and_finalize E om ao dns r) R S"
  unfolding release_and_finalize_def by (intro types.t_rules ty_log_imm_finalize; simp)

lemma ty_modify: "(\<And>rc. R rc S) \<Longrightarrow> types.tracked (modifyLogStreamAttr E ccb dn a upd) R S"
  unfolding modifyLogStreamAttr_def by (intro types.t_rules; simp)

lemma ty_modifyCfg: "types.tracked (modifyCfgLogStreamInstances E) (\<lambda>r T. T = S) S"
  unfolding modifyCfgLogStreamInstances_def modify_streams_def
  by (intro types.t_rules types.t_gets ty_log_imm_finalize ty_release ty_modify; simp)

definition typed_trace :: "history \<Rightarrow> bool" where
  "typed_trace t \<longleftrightarrow> list_all (\<lambda>(c, a). typed_call c) t"

lemma typed_trace_fold: "fold typed_step t b \<longleftrightarrow> b \<and> typed_trace t"
proof (induction t arbitrary: b)
  case (Cons e t)
  have "fold typed_step (e # t) b \<longleftrightarrow> fold typed_step t (typed_step e b)" by simp
  also have "\<dots> \<longleftrightarrow> b \<and> typed_trace (e # t)"
    unfolding Cons.IH by (simp add: typed_trace_def typed_step_def split_beta conj_assoc)
  finally show ?case .
qed (simp add: typed_trace_def)

text \<open>
  C39. Every attribute modification the log service sends to the information model carries a
  value of the type it declares: the untyped value pointers are never read at another type.
\<close>

theorem modifications_well_typed:
  assumes "modifyCfgLogStreamInstances E w = Some (Inr (r, v))"
  shows "typed_trace (hist v) = typed_trace (hist w)"
  using types.tracked_run [OF ty_modifyCfg, where w = w and r = r and v = v] assms
  by (simp add: types.observed_def typed_trace_fold)

theorem modifications_well_typed_witness:
  "\<exists>v. modifyCfgLogStreamInstances (\<lambda>h c. yes) log_start = Some (Inr (MafOk, v)) \<and> typed_trace (hist v)"
proof -
  obtain v where v: "modifyCfgLogStreamInstances (\<lambda>h c. yes) log_start = Some (Inr (MafOk, v))"
    using modifyCfg_yes by blast
  with modifications_well_typed [OF v] show ?thesis by (simp add: start_hist typed_trace_def)
qed

end
