(* ===== verification/LogWrite.thy ===== *)
theory LogWrite
  imports LogImm
begin

text \<open>
  The write function of the log service: which sink gets a message, which severities the filter
  read from the information model lets through, and what happens while a log is not open.
\<close>

section \<open>The severity filter\<close>

definition severity_bit :: "16 word \<Rightarrow> nat" where
  "severity_bit s = (if s < 6 then unat s else 6)"

lemma SEVERITY_FLAG_bit: "SEVERITY_FLAG s = 2 ^ severity_bit s"
proof (cases "s < 6")
  case True
  then have "unat s < 6" by (simp add: word_less_nat_alt)
  moreover have s: "s = of_nat (unat s)" by simp
  ultimately have "unat s = 0 \<or> unat s = 1 \<or> unat s = 2 \<or> unat s = 3 \<or> unat s = 4 \<or> unat s = 5" by linarith
  then have "s = of_nat 0 \<or> s = of_nat 1 \<or> s = of_nat 2 \<or> s = of_nat 3 \<or> s = of_nat 4 \<or> s = of_nat 5"
    by (metis s)
  then show ?thesis by (auto simp: SEVERITY_FLAG_def severity_bit_def)
next
  case False
  then have "s \<noteq> 0" "s \<noteq> 1" "s \<noteq> 2" "s \<noteq> 3" "s \<noteq> 4" "s \<noteq> 5" by auto
  then show ?thesis using False by (simp add: SEVERITY_FLAG_def severity_bit_def)
qed

lemma severity_bit_le: "severity_bit s \<le> 6"
  by (simp add: severity_bit_def word_less_nat_alt)

lemma flag_AND: "i < 16 \<Longrightarrow> (m :: 16 word) AND 2 ^ i \<noteq> 0 \<longleftrightarrow> bit m i"
  using and_exp_eq_0_iff_not_bit [of m i] by simp

lemma filter_bits: "bit (foldl (\<lambda>f n. f OR SEVERITY_FLAG (ucast n)) (f0 :: 16 word) ns) i \<longleftrightarrow>
    bit f0 i \<or> list_ex (\<lambda>n. severity_bit (ucast (n :: 32 word)) = i) ns"
proof (induction ns arbitrary: f0)
  case (Cons n ns)
  have "bit (SEVERITY_FLAG (ucast n)) i \<longleftrightarrow> severity_bit (ucast n) = i"
    using severity_bit_le [of "ucast n"] by (auto simp: SEVERITY_FLAG_bit bit_simps)
  then show ?case by (simp add: Cons.IH bit_or_iff)
qed simp

text \<open>
  C34. After the filter of the alarm log has been read from the information model, a message is let
  through exactly when the filter attribute lists its severity; all values from 6 on, also those
  that are no severity, stand for "info".
\<close>

theorem severity_filter_exact:
  fixes ns :: "32 word list"
  assumes "cc_name w \<noteq> ''lm''" and "acc \<noteq> 0"
    and "c = SaImmOmAccessorGet_2 acc dn [LOGM_LOG_SEVERITYFILTER]"
    and "a_rc (E (hist w) c) = SA_AIS_OK"
      "a_attr (E (hist w) c) = Some \<lparr>attrName = LOGM_LOG_SEVERITYFILTER, attrValueType = SA_IMM_ATTR_SAINT32T,
         attrValues = map VInt32 ns\<rparr>"
  shows "\<exists>v. read_filter E acc dn AlarmLog w = Some (Inr ((), v)) \<and>
     li_isLogAllowed (getLoggerInfo v ALARM_LOG s) = list_ex (\<lambda>n. severity_bit (ucast n) = severity_bit s) ns"
proof -
  have ns: "those (map (\<lambda>x. case x of VInt32 n \<Rightarrow> Some n | _ \<Rightarrow> None) (map VInt32 ns)) = Some ns"
    by (induction ns) auto
  let ?f = "foldl (\<lambda>f n. f OR SEVERITY_FLAG (ucast n)) 0 ns"
  let ?v = "w\<lparr>hist := hist w @ [(c, E (hist w) c)], logMEnabled := True,
     streams := (streams w)(AlarmLog := (streams w AlarmLog)\<lparr>sev_flags := ?f\<rparr>)\<rparr>"
  have "read_filter E acc dn AlarmLog w = Some (Inr ((), ?v))"
    using assms ns
    by (simp add: read_filter_def getSeverityFilter_def imm_wrappers prog_defs auto_retry_once try_again_def)
  moreover have "li_isLogAllowed (getLoggerInfo ?v ALARM_LOG s) \<longleftrightarrow> ?f AND SEVERITY_FLAG s \<noteq> 0"
    using assms(1) by (simp add: getLoggerInfo_def logger_info_of_def)
  moreover have "\<dots> \<longleftrightarrow> bit ?f (severity_bit s)"
    using flag_AND [of "severity_bit s" ?f] severity_bit_le [of s] by (simp add: SEVERITY_FLAG_bit)
  ultimately show ?thesis by (auto simp: filter_bits intro!: exI [of _ ?v])
qed

theorem severity_filter_exact_witness:
  "\<exists>E v. read_filter E 7 ''alarm'' AlarmLog log_start = Some (Inr ((), v)) \<and>
     li_isLogAllowed (getLoggerInfo v ALARM_LOG 9)"
proof -
  let ?E = "\<lambda>h c. yes\<lparr>a_attr := Some \<lparr>attrName = LOGM_LOG_SEVERITYFILTER, attrValueType = SA_IMM_ATTR_SAINT32T,
         attrValues = map VInt32 [0, 6]\<rparr>\<rparr>"
  have "cc_name log_start \<noteq> ''lm''" by (simp add: log_start_def log_init_def)
  then obtain v where "read_filter ?E 7 ''alarm'' AlarmLog log_start = Some (Inr ((), v))"
    "li_isLogAllowed (getLoggerInfo v ALARM_LOG 9) = list_ex (\<lambda>n. severity_bit (ucast n) = severity_bit 9) [0, 6 :: 32 word]"
    using severity_filter_exact [of log_start 7 "SaImmOmAccessorGet_2 7 ''alarm'' [LOGM_LOG_SEVERITYFILTER]"
        "''alarm''" ?E "[0, 6]" 9] by (auto simp: yes_def)
  moreover have "list_ex (\<lambda>n. severity_bit (ucast n) = severity_bit 9) [0, 6 :: 32 word]"
    by (simp add: severity_bit_def)
  ultimately show ?thesis by blast
qed

section \<open>Sinks\<close>

text \<open>The calls that hand a message to a sink; a write to a log counts when it is accepted.\<close>

definition delivered :: "ocall \<times> answer \<Rightarrow> bool" where
  "delivered e = (case fst e of
     Syslog p m \<Rightarrow> True | AuditLogger t p m \<Rightarrow> True
   | SaLogWriteLogAsync sh name sev m \<Rightarrow> a_rc (snd e) = SA_AIS_OK | _ \<Rightarrow> False)"

definition sinks :: "history \<Rightarrow> ocall list" where
  "sinks t = map fst (filter delivered t)"

definition sink_step :: "ocall \<times> answer \<Rightarrow> ocall list \<Rightarrow> ocall list" where
  "sink_step e S = (if delivered e then S @ [fst e] else S)"

lemma sink_step_simps [simp]:
  "sink_step (Syslog p m, a) S = S @ [Syslog p m]"
  "sink_step (AuditLogger t p m, a) S = S @ [AuditLogger t p m]"
  "sink_step (SaLogWriteLogAsync sh name sev m, a) S =
     (if a_rc a = SA_AIS_OK then S @ [SaLogWriteLogAsync sh name sev m] else S)"
  "sink_step (TraceWrite g m, a) S = S"
  by (simp_all add: sink_step_def delivered_def)

lemma sink_step_again: "lib_call d \<Longrightarrow> a_rc b \<noteq> SA_AIS_OK \<Longrightarrow> sink_step (d, b) S = S"
  by (cases d) (simp_all add: sink_step_def delivered_def lib_call_def)

interpretation sink: trace_observer sink_step "\<lambda>a S. S" "[]"
  "\<lambda>v. streams v = st \<and> trace_flag v = tf \<and> cc_name v = cc \<and> audit_logging v = au" for st and tf and cc and au
  by unfold_locales (simp_all add: sink_step_again, simp_all add: sink_step_def delivered_def)

lemma sinks_fold: "fold sink_step t S = S @ sinks t"
  by (induction t arbitrary: S) (auto simp: sinks_def sink_step_def)

text \<open>
  The sink of a message: \<open>syslog\<close> with the message's own facility, the audit log, or one of the log
  streams; \<open>None\<close> when the filter of the stream holds it back, or when a message for the audit log comes
  while the logger library is not loaded.
\<close>

definition log_of :: "log_world \<Rightarrow> nat \<Rightarrow> log_id option" where
  "log_of w facility = (if facility \<in> {4, 10, 13, 17, 300, 500} then None
     else Some (if cc_name w \<noteq> ''lm'' \<and> facility = 100 then AlarmLog
                else if cc_name w \<noteq> ''lm'' \<and> facility = 101 then AlertLog else TheLog))"

definition severity_sent :: "log_world \<Rightarrow> log_id \<Rightarrow> 16 word \<Rightarrow> 16 word" where
  "severity_sent w l severity = (if l = TheLog \<and> cc_name w \<noteq> ''lm'' \<and> severity = 6 then 5 else severity)"

definition log_write :: "log_world \<Rightarrow> log_id \<Rightarrow> 16 word \<Rightarrow> string \<Rightarrow> ocall" where
  "log_write w l severity msg = SaLogWriteLogAsync (stream_handle (streams w l)) (logger_name (streams w l))
     (severity_sent w l severity) msg"

definition sink_of :: "log_world \<Rightarrow> 16 word \<Rightarrow> nat \<Rightarrow> string \<Rightarrow> ocall option" where
  "sink_of w severity facility msg =
     (case log_of w facility of
        Some l \<Rightarrow> if bit (sev_flags (streams w l)) (severity_bit (severity_sent w l severity)) \<or> trace_flag w = 1
                   then Some (log_write w l severity msg) else None
      | None \<Rightarrow>
          if facility \<in> {4, 10} then Some (Syslog (uint severity + 8 * int facility) msg)
          else if \<not> audit_logging w then None
          else Some (AuditLogger ''com'' (if facility \<in> {13, 17} then 5 else uint severity) msg))"

text \<open>
  The sink the comment in \<open>logWrite\<close> asks for: a message that its filter lets through to a log that is not
  open goes to \<open>syslog\<close> instead, as a warning.
\<close>

definition log_closed :: "log_world \<Rightarrow> nat \<Rightarrow> bool" where
  "log_closed w facility = (case log_of w facility of None \<Rightarrow> False | Some l \<Rightarrow> \<not> file_open (streams w l))"

definition documented_sink :: "log_world \<Rightarrow> 16 word \<Rightarrow> nat \<Rightarrow> string \<Rightarrow> ocall option" where
  "documented_sink w severity facility msg =
     (if log_closed w facility \<and> sink_of w severity facility msg \<noteq> None
      then Some (Syslog (LOG_USER * 8 + LOG_WARNING) msg) else sink_of w severity facility msg)"

lemmas facilities = SECURITY_AUTHORIZATION_MESSAGE_1_def SECURITY_AUTHORIZATION_MESSAGE_2_def LOG_AUDIT_MESSAGE_def
  LOG_AUDIT_MESSAGE_LOCAL1_def COMMAND_LOG_def SECURITY_LOG_def ALARM_LOG_def ALERT_LOG_def

lemma getLoggerInfo_cong: "streams v = streams w \<Longrightarrow> cc_name v = cc_name w \<Longrightarrow> getLoggerInfo v = getLoggerInfo w"
  by (simp add: fun_eq_iff getLoggerInfo_def logger_info_of_def)

lemma getLoggerInfo_open: "li_isLogFileOpen (getLoggerInfo w fac s) \<noteq> None"
  by (simp add: getLoggerInfo_def logger_info_of_def Let_def)

lemma li_allowed: "li_isLogAllowed (getLoggerInfo w fac s) \<longleftrightarrow>
    bit (sev_flags (streams w (li_stream (getLoggerInfo w fac s)))) (severity_bit (li_severity (getLoggerInfo w fac s)))"
proof -
  have "sev_flags (streams w l) AND SEVERITY_FLAG s \<noteq> 0 \<longleftrightarrow> bit (sev_flags (streams w l)) (severity_bit s)" for l s
    using flag_AND [of "severity_bit s"] severity_bit_le [of s] by (simp add: SEVERITY_FLAG_bit)
  then show ?thesis by (simp add: getLoggerInfo_def logger_info_of_def Let_def)
qed

lemma li_stream_other: "fac \<notin> {300, 500} \<Longrightarrow> li_stream (getLoggerInfo w fac s) =
    (if cc_name w \<noteq> ''lm'' \<and> fac = 100 then AlarmLog else if cc_name w \<noteq> ''lm'' \<and> fac = 101 then AlertLog else TheLog)"
  by (simp add: getLoggerInfo_def logger_info_of_def Let_def facilities)

lemma li_severity_other: "fac \<notin> {300, 500} \<Longrightarrow> li_severity (getLoggerInfo w fac s) =
    (if li_stream (getLoggerInfo w fac s) = TheLog \<and> cc_name w \<noteq> ''lm'' \<and> s = 6 then 5 else s)"
  by (simp add: getLoggerInfo_def logger_info_of_def Let_def facilities MW_SA_LOG_SEV_INFO_def MW_SA_LOG_SEV_NOTICE_def)

lemma sink_of_stream:
  assumes "fac \<notin> {4, 10, 13, 17, 300, 500}"
  shows "sink_of w sev fac msg = (let i = getLoggerInfo w fac sev; s = streams w (li_stream i) in
     if li_isLogAllowed i \<or> trace_flag w = 1
     then Some (SaLogWriteLogAsync (stream_handle s) (logger_name s) (li_severity i) msg) else None)"
proof -
  have f: "fac \<notin> {300, 500}" using assms by auto
  have "log_of w fac = Some (li_stream (getLoggerInfo w fac sev))" using assms unfolding li_stream_other [OF f] by (simp add: log_of_def)
  moreover have "severity_sent w (li_stream (getLoggerInfo w fac sev)) sev = li_severity (getLoggerInfo w fac sev)"
    unfolding li_severity_other [OF f] severity_sent_def ..
  ultimately show ?thesis by (simp add: sink_of_def log_write_def li_allowed Let_def)
qed

definition sank :: "ocall option \<Rightarrow> ocall list \<Rightarrow> MafReturnT \<Rightarrow> ocall list \<Rightarrow> bool" where
  "sank c S r T \<longleftrightarrow> T = S @ (case c of None \<Rightarrow> [] | Some c \<Rightarrow> if r = MafOk then [c] else []) \<and>
     (r = MafOk \<or> r = MafFailure \<and> (case c of Some (SaLogWriteLogAsync sh name s m) \<Rightarrow> True | _ \<Rightarrow> False))"

lemma sank_simps:
  "sank None S MafOk S" "sank (Some c) S MafOk (S @ [c])"
  "sank (Some (SaLogWriteLogAsync sh name s m)) S MafFailure S"
  by (simp_all add: sank_def)

lemma s_auditlogger: "sink.tracked st tf cc au (auditlogger E t p m)
    (\<lambda>r T. T = S @ (if au then [AuditLogger t p m] else [])) S"
  unfolding auditlogger_def by (intro sink.t_bnd sink.t_gets sink.t_unless sink.t_do_call) auto

lemma s_logWrite:
  assumes w: "streams w = st" "trace_flag w = tf" "cc_name w = cc" "audit_logging w = au"
  shows "sink.tracked st tf cc au (logWrite E sev fac msg) (sank (sink_of w sev fac msg) S) S"
proof (cases "fac \<in> {4, 10, 13, 17, 300, 500}")
  case True
  then show ?thesis
    unfolding logWrite_def
    by (intro sink.t_if sink.t_andthen sink.t_mono [OF s_auditlogger] sink.t_do_call sink.t_return)
      (use w(4) in \<open>auto simp: sink_of_def log_of_def SYSLOG_LEVEL_def facilities LOG_NOTICE_def
        sank_simps sink.t_return\<close>)
next
  case False
  then have fac: "fac \<noteq> 4" "fac \<noteq> 10" "fac \<noteq> 13" "fac \<noteq> 17" "fac \<noteq> 300" "fac \<noteq> 500" by auto
  define i where "i = getLoggerInfo w fac sev"
  have i: "getLoggerInfo v fac sev = i" if "streams v = st \<and> trace_flag v = tf \<and> cc_name v = cc \<and> audit_logging v = au" for v
    using that w getLoggerInfo_cong [of v w] by (simp add: i_def)
  have op: "li_isLogFileOpen i \<noteq> None" by (simp add: i_def getLoggerInfo_open)
  have c: "sink_of w sev fac msg = (if li_isLogAllowed i \<or> tf = 1
     then Some (SaLogWriteLogAsync (stream_handle (st (li_stream i))) (logger_name (st (li_stream i))) (li_severity i) msg)
     else None)"
    using sink_of_stream [OF False, of w sev msg] w by (simp add: i_def Let_def)
  show ?thesis
    unfolding logWrite_def get_stream_def facilities
    by (intro sink.t_bnd sink.t_if sink.t_gets; (simp add: fac i op)?;
        (intro sink.t_rules sink.t_gets; simp add: c sank_simps)[])
qed

lemma logWrite_sinks:
  assumes "logWrite E sev fac msg w = Some (Inr (r, v))"
  shows "sank (sink_of w sev fac msg) (sinks (hist w)) r (sinks (hist v))"
  using sink.tracked_run [OF s_logWrite [OF refl refl refl refl, where w = w], where w = w and r = r and v = v] assms
  by (simp add: sink.observed_def sinks_fold)

lemma documented_sink_write:
  "(if log_closed w fac \<and> documented_sink w sev fac msg \<noteq> None then Some (log_write w (the (log_of w fac)) sev msg)
    else documented_sink w sev fac msg) = sink_of w sev fac msg"
proof (cases "log_closed w fac \<and> sink_of w sev fac msg \<noteq> None")
  case True
  then obtain l where l: "log_of w fac = Some l" by (auto simp: log_closed_def split: option.splits)
  then have "sink_of w sev fac msg = Some (log_write w l sev msg)" using True by (simp add: sink_of_def split: if_splits)
  then show ?thesis using True l by (simp add: documented_sink_def)
next
  case False
  then have "documented_sink w sev fac msg = sink_of w sev fac msg" unfolding documented_sink_def by (rule if_not_P)
  then show ?thesis using False by simp
qed

lemma sink_of_log:
  assumes "case sink_of w sev fac msg of Some (SaLogWriteLogAsync sh name s m) \<Rightarrow> True | _ \<Rightarrow> False"
  shows "\<exists>l. log_of w fac = Some l \<and> sink_of w sev fac msg = Some (log_write w l sev msg)"
proof (cases "log_of w fac")
  case None
  then show ?thesis using assms by (simp add: sink_of_def split: if_splits)
next
  case (Some l)
  then show ?thesis using assms by (simp add: sink_of_def split: if_splits)
qed

text \<open>
  C12. A message has one sink, chosen by its facility and the filter of its log: \<open>syslog\<close> under its
  own facility, the audit log if the logger library is loaded, or the log stream of its facility, with the
  severity "info" turned into "notice" on the system log.  When the write function returns, the message was
  handed over exactly once if it has a sink and the result is \<open>MafOk\<close>, and not at all otherwise; only a log
  stream can refuse it.  That is the documented sink except in one case: a message for a log that is not
  open is not diverted to \<open>syslog\<close> as a warning but written to the stream handle the log happens to have.
\<close>

theorem logWrite_one_sink:
  assumes "logWrite E sev fac msg w = Some (Inr (r, v))"
  shows "let doc = documented_sink w sev fac msg;
      c = (if log_closed w fac \<and> doc \<noteq> None then Some (log_write w (the (log_of w fac)) sev msg) else doc)
    in sinks (hist v) = sinks (hist w) @ (case c of None \<Rightarrow> [] | Some c \<Rightarrow> if r = MafOk then [c] else []) \<and>
      (r = MafOk \<or> r = MafFailure \<and> (\<exists>l. log_of w fac = Some l \<and> c = Some (log_write w l sev msg)))"
proof -
  define d where "d = documented_sink w sev fac msg"
  define c where "c = (if log_closed w fac \<and> d \<noteq> None then Some (log_write w (the (log_of w fac)) sev msg) else d)"
  have s: "sink_of w sev fac msg = c" unfolding c_def d_def by (rule documented_sink_write [symmetric])
  have "\<exists>l. log_of w fac = Some l \<and> c = Some (log_write w l sev msg)"
    if "case c of Some (SaLogWriteLogAsync sh name s m) \<Rightarrow> True | _ \<Rightarrow> False"
    using that unfolding s [symmetric] by (rule sink_of_log)
  then show ?thesis using logWrite_sinks [OF assms]
    unfolding s sank_def Let_def d_def [symmetric] c_def [symmetric] by blast
qed

theorem logWrite_one_sink_witness:
  "\<exists>v. logWrite (\<lambda>h c. yes) 3 10 ''msg'' log_start = Some (Inr (MafOk, v)) \<and> sinks (hist v) = [Syslog 83 ''msg'']"
proof -
  obtain v where v: "logWrite (\<lambda>h c. yes) 3 10 ''msg'' log_start = Some (Inr (MafOk, v))"
    by (simp add: logWrite_def facilities prog_defs call_def)
  with logWrite_one_sink [OF v] show ?thesis
    by (simp add: documented_sink_def log_closed_def log_of_def sink_of_def start_hist sinks_def)
qed

text \<open>
  While the system log is not open a message is not diverted to \<open>syslog\<close>, contrary to the
  comment in the code: the test looks at the address of the flag, not at the flag, and the message
  is written to the stream handle 0.
\<close>

theorem closed_log_not_diverted:
  assumes "logWrite E sev SALOGSYSTEM_LOG msg w = Some (Inr (r, v))"
    and "\<not> file_open (streams w TheLog)" "stream_handle (streams w TheLog) = 0"
    and "c \<in> set (drop (length (sinks (hist w))) (sinks (hist v)))"
  shows "\<exists>name s. c = SaLogWriteLogAsync 0 name s msg"
  using logWrite_sinks [OF assms(1)] assms(2-)
  by (auto simp: sank_def SALOGSYSTEM_LOG_def sink_of_def log_of_def log_write_def split: if_splits)

theorem closed_log_not_diverted_witness:
  "\<exists>v c. logWrite (\<lambda>h c. yes) 3 SALOGSYSTEM_LOG ''msg'' log_start = Some (Inr (MafOk, v)) \<and>
     sinks (hist v) = [c] \<and> (\<exists>name s. c = SaLogWriteLogAsync 0 name s ''msg'')"
proof -
  have 1: "sink_of log_start 3 SALOGSYSTEM_LOG ''msg'' = Some (SaLogWriteLogAsync 0 [] 3 ''msg'')"
    by (simp add: sink_of_def log_of_def log_write_def severity_sent_def SALOGSYSTEM_LOG_def log_start_def log_init_def severity_bit_def
       SALOG_SEV_FLAG_INFO_OFF_def)
  obtain v where v: "logWrite (\<lambda>h c. yes) 3 SALOGSYSTEM_LOG ''msg'' log_start = Some (Inr (MafOk, v))"
      "hist v = [(SaLogWriteLogAsync 0 [] 3 ''msg'', yes)]"
    by (simp add: logWrite_def facilities prog_defs once SALOGSYSTEM_LOG_def getLoggerInfo_def logger_info_of_def
        MW_SA_LOG_SEV_INFO_def Let_def log_start_def log_init_def yes_def SEVERITY_FLAG_def SALOG_SEV_FLAG_INFO_OFF_def)
  then have "sinks (hist v) = [SaLogWriteLogAsync 0 [] 3 ''msg'']"
    by (simp add: sinks_def delivered_def yes_def)
  with v(1) closed_log_not_diverted [OF v(1), of "SaLogWriteLogAsync 0 [] 3 ''msg''"] show ?thesis
    by (auto simp: start_hist sinks_def log_start_def log_init_def)
qed

end
