(* ===== verification/LogLife.thy ===== *)
theory LogLife
  imports LogWrite PollTable
begin

text \<open>
  The life of a log: opened by its service and a thread, closed again.  The invariant holds at every
  step of every operation; the operations themselves are taken one after another.
\<close>

section \<open>The invariant\<close>

definition poll_ok :: "TimeHandle \<Rightarrow> bool" where
  "poll_ok h \<longleftrightarrow> (\<exists>e. polld h = Some e \<and> poll_ext_inv e)"

definition open_ok :: "(log_id \<Rightarrow> log_stream) \<Rightarrow> bool" where
  "open_ok st \<longleftrightarrow> (\<forall>l. file_open (st l) \<longrightarrow> stream_handle (st l) \<noteq> 0)"

definition log_inv :: "log_world \<Rightarrow> bool" where
  "log_inv w \<longleftrightarrow> poll_ok (ntf_poll w) \<and> open_ok (streams w)"

lemma open_okD: "open_ok st \<Longrightarrow> file_open (st l) \<Longrightarrow> stream_handle (st l) \<noteq> 0"
  by (simp add: open_ok_def)

lemma open_ok_update:
  "open_ok st \<Longrightarrow> file_open s \<longrightarrow> stream_handle s \<noteq> 0 \<Longrightarrow> open_ok (st(l := s))"
  by (simp add: open_ok_def)

interpretation life: trace_observer "\<lambda>e S. S" "\<lambda>a S. S" "0 :: nat" log_inv
  by unfold_locales (simp_all add: log_inv_def)

lemma no_observation: "fold (\<lambda>e S. S) t (0 :: nat) = 0"
  by (induction t) simp_all

text \<open>A program that keeps the invariant at each of its steps, whatever it returns.\<close>

definition kept :: "(log_world, 'a) prog \<Rightarrow> bool" where
  "kept m \<longleftrightarrow> life.tracked m (\<lambda>r S. True) 0"

lemma kept_wp: "kept m \<longleftrightarrow> (\<forall>w. log_inv w \<longrightarrow> wp True m (\<lambda>r v. log_inv v) (\<lambda>f v. True) w)"
  by (simp add: kept_def life.tracked_def life.observed_def no_observation)

lemma keptD: "kept m \<Longrightarrow> log_inv w \<Longrightarrow> m w = Some (Inr (r, v)) \<Longrightarrow> log_inv v"
  by (auto simp: kept_wp dest: wp_Inr)

lemma k_bnd: "kept m \<Longrightarrow> (\<And>a. kept (k a)) \<Longrightarrow> kept (bnd m k)"
  unfolding kept_wp wp_bnd by (intro allI impI, erule allE, erule (1) impE, erule wp_mono) auto

lemma k_andthen: "kept m \<Longrightarrow> kept k \<Longrightarrow> kept (andthen m k)"
  unfolding andthen_def by (rule k_bnd)

lemma k_while: "(\<And>a. b a \<Longrightarrow> kept (body a)) \<Longrightarrow> kept (while_prog b body a)"
  unfolding kept_wp by (intro allI impI while_partial [where I = "\<lambda>a v. log_inv v"]) simp_all

lemma k_put:
  assumes "\<And>s. (file_open s \<longrightarrow> stream_handle s \<noteq> 0) \<Longrightarrow> file_open (f s) \<longrightarrow> stream_handle (f s) \<noteq> 0"
  shows "kept (put_stream l f)"
proof -
  have "open_ok (st(l := f (st l)))" if "open_ok st" for st
    using assms [of "st l"] that by (auto intro!: open_ok_update dest: open_okD)
  then show ?thesis
    unfolding kept_def put_stream_def by (intro life.t_modify) (simp_all add: log_inv_def)
qed

lemma k_modify: "(\<And>w. ntf_poll (f w) = ntf_poll w \<and> streams (f w) = streams w \<and> hist (f w) = hist w) \<Longrightarrow>
    kept (modify f)"
  unfolding kept_def by (rule life.t_modify) (simp_all add: log_inv_def)

lemma poll_ok_set:
  "poll_ok h \<Longrightarrow> \<exists>rc h'. poll_setcallback h f p r = Some (rc, h') \<and> poll_ok h'"
  unfolding poll_ok_def using setcallback_spec by fastforce

lemma poll_ok_unset: "poll_ok h \<Longrightarrow> \<exists>h'. poll_unsetcallback h d = Some h' \<and> poll_ok h'"
  unfolding poll_ok_def using unsetcallback_spec by fastforce

lemma k_poll [simp]: "kept (poll_set f d)" "kept (poll_unset d)"
  unfolding kept_wp
  using poll_ok_set [of _ f "\<lparr>fd = d, events = POLLIN, revents = 0\<rparr>" 0] poll_ok_unset [of _ d]
  by (fastforce simp: wp_def poll_set_def poll_unset_def log_inv_def return_def)+

lemma k_simple [simp]:
  "kept (return r)" "kept (die f)" "kept (gets g)" "kept (get_stream l h)" "kept (do_call E c)" "kept (call E c)"
  "kept (set_update_name l u)"
  unfolding set_update_name_def get_stream_def
  by (rule k_modify; simp | simp add: kept_def life.t_return life.t_die life.t_gets life.t_do_call life.t_call)+

lemma k_lib [simp]:
  "lib_call c \<Longrightarrow> kept (imm_api_call E c)" "lib_call c \<Longrightarrow> kept (log_api_call E c)"
  "lib_call c \<Longrightarrow> kept (log_api_call_try_again E c)" "lib_call c \<Longrightarrow> kept (auto_retry E try_again c)"
  "kept (autoRetry_saImmOmInitialize E cb ver)"
  unfolding kept_def
  by (rule life.t_imm_call life.t_log_call life.t_log_call_try_again life.t_auto_retry life.t_om_init; simp)+

lemma k_unless: "kept m \<Longrightarrow> kept (unless b m)"
  by (simp add: unless_def)

lemma k_if: "(b \<Longrightarrow> kept m) \<Longrightarrow> (\<not> b \<Longrightarrow> kept k) \<Longrightarrow> kept (if b then m else k)"
  by simp

lemma k_prod: "(\<And>x y. kept (m x y)) \<Longrightarrow> kept (case p of (x, y) \<Rightarrow> m x y)"
  by (cases p) simp

lemma k_option: "kept m \<Longrightarrow> (\<And>y. kept (k y)) \<Longrightarrow> kept (case x of None \<Rightarrow> m | Some y \<Rightarrow> k y)"
  by (cases x) simp_all

lemma k_list: "kept m \<Longrightarrow> (\<And>y ys. kept (k y ys)) \<Longrightarrow> kept (case x of [] \<Rightarrow> m | y # ys \<Rightarrow> k y ys)"
  by (cases x) simp_all

lemma k_Let: "(\<And>x. kept (m x)) \<Longrightarrow> kept (Let e m)"
  by simp

lemmas k_rules = k_bnd k_andthen k_while k_unless k_if k_prod k_option k_list k_Let

section \<open>Every operation keeps the invariant\<close>

lemma k_get_string [simp]: "kept (get_string_attr E acc dn at)"
  unfolding get_string_attr_def imm_wrappers by (intro k_rules; simp split: imm_value.split)

lemma k_severity [simp]: "kept (getSeverityFilter E acc dn)"
  unfolding getSeverityFilter_def imm_wrappers by (intro k_rules k_modify; simp)

lemma k_imm [simp]: "kept (om_imm_finalize E om acc)" "kept (log_imm_finalize E om ao)"
  "kept (release_and_finalize E om ao dns r)" "kept (modifyLogStreamAttr E ccb dn a u)"
  unfolding om_imm_finalize_def log_imm_finalize_def release_and_finalize_def modifyLogStreamAttr_def imm_wrappers
  by (intro k_rules; simp)+

lemma k_streams [simp]: "kept (updateLogStreamFileNameNeeded E acc dn at)" "kept (read_filter E acc dn l)"
  "kept (modify_streams E ccb)"
  unfolding updateLogStreamFileNameNeeded_def getLogStreamFileName_def read_filter_def modify_streams_def
  by (intro k_rules k_put; simp)+

lemma k_config [simp]: "kept (modifyCfgLogStreamInstances E)" "kept (readCfgLogStreamsInfoFromImm E)"
  "kept (readSafLogPath E)" "kept (setSaLogSystemSevFilter E)" "kept (loadSaLogConfig E)"
  unfolding modifyCfgLogStreamInstances_def readCfgLogStreamsInfoFromImm_def readSafLogPath_def
    setSaLogSystemSevFilter_def loadSaLogConfig_def imm_wrappers
  by (intro k_rules k_put k_modify; simp)+

lemma k_opening [simp]: "kept (saLogInit E l)" "kept (create_thread E l)" "kept (set_logger_name l n)"
  "kept (createSymLinkForAlarmsAndAlerts E p d ld ln)" "kept (getIntRootDir E r)"
  unfolding saLogInit_def create_thread_def set_logger_name_def createSymLinkForAlarmsAndAlerts_def getIntRootDir_def
  by (intro k_rules k_put; simp)+

lemma k_open: "kept (maf_ComLogServiceOpen E)" "kept (AlarmAndAlertLogServiceOpen E)" "kept (cmdLogServiceOpen E)"
  "kept (secLogServiceOpen E)"
  unfolding maf_ComLogServiceOpen_def AlarmAndAlertLogServiceOpen_def cmdLogServiceOpen_def secLogServiceOpen_def
  by (intro k_rules k_modify; simp)+

text \<open>Once the log is marked closed its handles may be forgotten.\<close>

interpretation shut: trace_observer "\<lambda>e S. S" "\<lambda>a S. S" "0 :: nat" "\<lambda>w. log_inv w \<and> \<not> file_open (streams w l)" for l
  by unfold_locales (simp_all add: log_inv_def)

lemma shut_put: "\<not> file_open (f (streams w l)) \<Longrightarrow> log_inv w \<Longrightarrow>
    log_inv (w\<lparr>streams := (streams w)(l := f (streams w l))\<rparr>)"
  by (simp add: log_inv_def open_ok_update)

lemma k_shut:
  assumes "shut.tracked l m (\<lambda>r S. True) 0"
  shows "kept (andthen (put_stream l (\<lambda>s. s\<lparr>file_open := False\<rparr>)) m)"
  unfolding kept_wp wp_andthen wp_put_stream
proof (intro allI impI)
  fix w
  assume "log_inv w"
  let ?w = "w\<lparr>streams := (streams w)(l := streams w l\<lparr>file_open := False\<rparr>)\<rparr>"
  have "log_inv ?w" using shut_put [of "\<lambda>s. s\<lparr>file_open := False\<rparr>" w l] \<open>log_inv w\<close> by simp
  then have "wp True m (\<lambda>r v. (log_inv v \<and> \<not> file_open (streams v l)) \<and> True) (\<lambda>f v. True) ?w"
    using assms by (simp add: shut.tracked_def shut.observed_def no_observation)
  then show "wp True m (\<lambda>r. log_inv) (\<lambda>f v. True) ?w" by (rule wp_mono) auto
qed

lemma s_put: "(\<And>s. \<not> file_open s \<Longrightarrow> \<not> file_open (f s)) \<Longrightarrow> R () S \<Longrightarrow> shut.tracked l (put_stream l f) R S"
  unfolding put_stream_def using shut_put [of f _ l] by (intro shut.t_modify) simp_all

lemma s_get: "(\<And>x. R x S) \<Longrightarrow> shut.tracked l (get_stream l f) R S"
  unfolding get_stream_def by (rule shut.t_gets)

lemma k_close_stream [simp]: "kept (close_stream E l c r)"
  unfolding close_stream_def kill_thread_def
  by (rule k_bnd, simp, rule k_andthen, intro k_rules; simp?; rule k_bnd, simp, rule k_andthen, simp, rule k_shut;
      intro shut.t_rules s_put s_get; simp)

lemma k_auditlogger [simp]: "kept (auditlogger E t p m)"
  unfolding auditlogger_def by (intro k_rules; simp)

lemma k_close: "kept (ComLogServiceClose E)" "kept (AlarmAndAlertLogServiceClose E)" "kept (cmdLogServiceClose E)"
  "kept (secLogServiceClose E)"
  unfolding ComLogServiceClose_def AlarmAndAlertLogServiceClose_def cmdLogServiceClose_def secLogServiceClose_def
    kill_thread_def
  by ((intro k_rules k_put k_modify)?; simp)+

lemma k_write: "kept (maf_logWrite E sev fac msg)"
  unfolding maf_logWrite_def logWrite_def by (intro k_rules; simp)

lemma k_push: "kept (pushComLogLevelEvents E)" "kept (pushSaSystemLogLevelEvent E)"
  "kept (pushComSecLogLevelEvent E)" "kept (pushComCommandLogLevelEvent E)"
  unfolding pushComLogLevelEvents_def pushSaSystemLogLevelEvent_def pushComSecLogLevelEvent_def
    pushComCommandLogLevelEvent_def
  by (intro k_rules; simp)+

lemma k_callbacks: "kept (write_callback E l n e)" "kept (alarmLogFilterSetCallbackT f)"
  "kept (alertLogFilterSetCallbackT f)" "kept (logFilterSetCallbackT E f)" "kept (cmdLogFilterSetCallbackT E f)"
  "kept (secLogFilterSetCallbackT E f)" "kept (dispatch E l)"
  unfolding write_callback_def alarmLogFilterSetCallbackT_def alertLogFilterSetCallbackT_def
    logFilterSetCallbackT_def cmdLogFilterSetCallbackT_def secLogFilterSetCallbackT_def dispatch_def
  by ((intro k_rules k_put k_modify)?; simp add: k_push)+

text \<open>The threads set the flag only after the stream was opened with success.\<close>

definition only_calls :: "(log_world, 'a) prog \<Rightarrow> bool" where
  "only_calls m \<longleftrightarrow> (\<forall>w h. wp True m (\<lambda>r v. \<exists>h. v = w\<lparr>hist := h\<rparr>) (\<lambda>f v. True) (w\<lparr>hist := h\<rparr>))"

lemma only_callsD:
  assumes "only_calls m" "\<And>r h. Q r (w\<lparr>hist := h\<rparr>)"
  shows "wp True m Q (\<lambda>f v. True) w"
proof -
  have "wp True m (\<lambda>r v. \<exists>h. v = w\<lparr>hist := h\<rparr>) (\<lambda>f v. True) (w\<lparr>hist := hist w\<rparr>)"
    using assms(1) unfolding only_calls_def by blast
  then have "wp True m (\<lambda>r v. \<exists>h. v = w\<lparr>hist := h\<rparr>) (\<lambda>f v. True) w" by simp
  then show ?thesis by (rule wp_mono) (use assms(2) in auto)
qed

lemma only_calls_simple: "only_calls (return r)" "only_calls (call E c)" "only_calls (do_call E c)"
  by (auto simp: only_calls_def wps)

lemma only_calls_bnd: "only_calls m \<Longrightarrow> (\<And>a. only_calls (k a)) \<Longrightarrow> only_calls (bnd m k)"
  unfolding only_calls_def wp_bnd
  by (intro allI, erule allE, erule allE, erule wp_mono) (fastforce, simp)

lemma only_calls_while: "(\<And>a. only_calls (body a)) \<Longrightarrow> only_calls (while_prog b body a)"
  unfolding only_calls_def
  by (intro allI while_partial [where I = "\<lambda>a v. \<exists>h. v = w\<lparr>hist := h\<rparr>" for w]) fastforce+

lemma only_calls_sleep: "only_calls (sleep_minute E)" "only_calls (sleep_three E)"
  unfolding sleep_minute_def sleep_three_def by (intro only_calls_bnd only_calls_while only_calls_simple)+

lemma log_inv_hist [simp]: "log_inv (w\<lparr>hist := h\<rparr>) = log_inv w"
  by (simp add: log_inv_def)

lemma wp_open_stream:
  assumes "handles_nonzero E" "log_inv w"
  shows "wp True (open_stream E l)
    (\<lambda>rc v. log_inv v \<and> (rc = SA_AIS_OK \<longrightarrow> stream_handle (streams v l) \<noteq> 0)) (\<lambda>f v. True) w"
  unfolding open_stream_def
  using assms(2) handles_nonzeroD [OF assms(1)]
  by (auto simp: wps log_inv_def intro!: wp_log_api_call open_ok_update)

definition open_state :: "log_id \<Rightarrow> SaAisErrorT option \<Rightarrow> log_world \<Rightarrow> bool" where
  "open_state l s w \<longleftrightarrow> log_inv w \<and> (s = Some SA_AIS_OK \<longrightarrow> stream_handle (streams w l) \<noteq> 0)"

lemma wp_open_try:
  assumes "handles_nonzero E" "only_calls wait" "log_inv w"
  shows "wp True (open_try E l msg wait) (open_state l) (\<lambda>f v. True) w"
  unfolding open_try_def wp_bnd
  by (rule wp_mono [OF wp_open_stream [OF assms(1,3)]])
    (auto simp: wps open_state_def intro!: only_callsD [OF only_calls_sleep(1)] only_callsD [OF assms(2)])

lemma wp_open_loop:
  assumes "handles_nonzero E" "only_calls wait" "log_inv w"
  shows "wp True (open_loop E l msg wait)
    (\<lambda>s v. log_inv v \<and> (s = None \<or> stream_handle (streams v l) \<noteq> 0)) (\<lambda>f v. True) w"
  unfolding open_loop_def
  by (rule while_partial [where I = "open_state l"])
    (use assms wp_open_try [OF assms(1,2)] in \<open>auto simp: open_state_def\<close>)

interpretation opened: trace_observer "\<lambda>e S. S" "\<lambda>a S. S" "0 :: nat"
    "\<lambda>w. log_inv w \<and> stream_handle (streams w l) \<noteq> 0" for l
  by unfold_locales simp_all

definition stays_open :: "log_id \<Rightarrow> (log_world, 'a) prog \<Rightarrow> bool" where
  "stays_open l m \<longleftrightarrow> opened.tracked l m (\<lambda>r S. True) 0"

lemma stays_open_wp: "stays_open l m \<longleftrightarrow> (\<forall>w. log_inv w \<and> stream_handle (streams w l) \<noteq> 0 \<longrightarrow>
    wp True m (\<lambda>r v. log_inv v \<and> stream_handle (streams v l) \<noteq> 0) (\<lambda>f v. True) w)"
  by (simp add: stays_open_def opened.tracked_def opened.observed_def no_observation)

lemma o_bnd: "stays_open l m \<Longrightarrow> (\<And>a. stays_open l (k a)) \<Longrightarrow> stays_open l (bnd m k)"
  unfolding stays_open_wp wp_bnd by (intro allI impI, erule allE, erule (1) impE, erule wp_mono) auto

lemma o_andthen: "stays_open l m \<Longrightarrow> stays_open l k \<Longrightarrow> stays_open l (andthen m k)"
  unfolding andthen_def by (rule o_bnd)

lemma o_option: "stays_open l m \<Longrightarrow> (\<And>y. stays_open l (k y)) \<Longrightarrow> stays_open l (case x of None \<Rightarrow> m | Some y \<Rightarrow> k y)"
  by (cases x) simp_all

lemma o_if: "(b \<Longrightarrow> stays_open l m) \<Longrightarrow> (\<not> b \<Longrightarrow> stays_open l k) \<Longrightarrow> stays_open l (if b then m else k)"
  by simp

lemma o_simple [simp]: "stays_open l (return r)" "stays_open l (die f)" "stays_open l (call E c)"
  "stays_open l (do_call E c)" "stays_open l (get_stream k g)"
  by (simp_all add: stays_open_wp wps)

lemma o_put: "(\<And>s. stream_handle (f s) = stream_handle s) \<Longrightarrow> stays_open l (put_stream l f)"
  by (auto simp: stays_open_wp wps log_inv_def intro!: open_ok_update)

lemma o_pipe: "stays_open l (modify (\<lambda>w. w\<lparr>ntf_event_pipe := p\<rparr>))"
  by (simp add: stays_open_wp log_inv_def)

lemma o_poll [simp]: "stays_open l (poll_set f d)"
  unfolding stays_open_wp using poll_ok_set [of _ f "\<lparr>fd = d, events = POLLIN, revents = 0\<rparr>" 0]
  by (fastforce simp: wp_def poll_set_def log_inv_def return_def)

lemma k_open_loop:
  assumes "handles_nonzero E" "only_calls wait" and k: "stays_open l k"
  shows "kept (bnd (open_loop E l msg wait) (\<lambda>s. if s = None then return () else k))"
  unfolding kept_wp wp_bnd
proof (intro allI impI, rule wp_mono [OF wp_open_loop [OF assms(1,2)]])
  fix s v
  assume v: "log_inv v \<and> (s = None \<or> stream_handle (streams v l) \<noteq> 0)"
  have "wp True k (\<lambda>r. log_inv) (\<lambda>f v. True) v" if "s \<noteq> None"
  proof -
    have "wp True k (\<lambda>r v. log_inv v \<and> stream_handle (streams v l) \<noteq> 0) (\<lambda>f v. True) v"
      using k v that unfolding stays_open_wp by blast
    then show ?thesis by (rule wp_mono) auto
  qed
  then show "wp True (if s = None then return () else k) (\<lambda>r. log_inv) (\<lambda>f v. True) v" using v by simp
qed simp_all

lemma k_threads:
  assumes "handles_nonzero E"
  shows "kept (stream_open_thread E l dn opened)" "kept (LogServiceOpenThread E)"
  unfolding stream_open_thread_def LogServiceOpenThread_def detach_thread_def
  by ((intro k_andthen k_bnd k_unless k_put k_open_loop [OF assms] only_calls_sleep only_calls_simple o_bnd o_andthen o_if o_option o_put o_pipe;
      simp)+)

section \<open>Reachable states\<close>

text \<open>
  What can happen to the state of the log service: the calls of the other parts of the program,
  the threads it starts, the call-backs of the log library, and other users of the poll table.
\<close>

datatype log_op = OpenCom | OpenAlarmAlert | OpenCmd | OpenSec | CloseCom | CloseAlarmAlert | CloseCmd | CloseSec
  | Thread log_id | Write "16 word" nat string | Acknowledged log_id SaAisErrorT | FilterSet log_id "16 word"
  | Dispatch log_id | PushLevels | Register nat int | Unregister int | SetTraceFlag int

definition ignore :: "(log_world, 'a) prog \<Rightarrow> unit logp" where
  "ignore m = bnd m (\<lambda>a. return ())"

fun thread_of :: "outside \<Rightarrow> log_id \<Rightarrow> unit logp" where
  "thread_of E TheLog = LogServiceOpenThread E"
| "thread_of E AlarmLog = alarmLogServiceOpenThread E"
| "thread_of E AlertLog = alertLogServiceOpenThread E"
| "thread_of E CmdLog = cmdLogServiceOpenThread E"
| "thread_of E SecLog = secLogServiceOpenThread E"

fun filter_callback :: "outside \<Rightarrow> log_id \<Rightarrow> 16 word \<Rightarrow> unit logp" where
  "filter_callback E TheLog f = logFilterSetCallbackT E f"
| "filter_callback E AlarmLog f = alarmLogFilterSetCallbackT f"
| "filter_callback E AlertLog f = alertLogFilterSetCallbackT f"
| "filter_callback E CmdLog f = cmdLogFilterSetCallbackT E f"
| "filter_callback E SecLog f = secLogFilterSetCallbackT E f"

fun run_op :: "outside \<Rightarrow> log_op \<Rightarrow> unit logp" where
  "run_op E OpenCom = ignore (maf_ComLogServiceOpen E)"
| "run_op E OpenAlarmAlert = ignore (AlarmAndAlertLogServiceOpen E)"
| "run_op E OpenCmd = ignore (cmdLogServiceOpen E)"
| "run_op E OpenSec = ignore (secLogServiceOpen E)"
| "run_op E CloseCom = ignore (ComLogServiceClose E)"
| "run_op E CloseAlarmAlert = ignore (AlarmAndAlertLogServiceClose E)"
| "run_op E CloseCmd = ignore (cmdLogServiceClose E)"
| "run_op E CloseSec = ignore (secLogServiceClose E)"
| "run_op E (Thread l) = thread_of E l"
| "run_op E (Write sev fac msg) = ignore (maf_logWrite E sev fac msg)"
| "run_op E (Acknowledged l rc) = write_callback E l [] rc"
| "run_op E (FilterSet l f) = filter_callback E l f"
| "run_op E (Dispatch l) = dispatch E l"
| "run_op E PushLevels = pushComLogLevelEvents E"
| "run_op E (Register f d) = ignore (poll_set f d)"
| "run_op E (Unregister d) = poll_unset d"
| "run_op E (SetTraceFlag n) = modify (\<lambda>w. w\<lparr>trace_flag := n\<rparr>)"

inductive log_step :: "outside \<Rightarrow> log_world \<Rightarrow> log_world \<Rightarrow> bool" for E where
  step: "run_op E op w = Some (Inr ((), v)) \<Longrightarrow> log_step E w v"

inductive log_reach :: "outside \<Rightarrow> log_world \<Rightarrow> bool" for E where
  loaded: "poll_ok h \<Longrightarrow> log_reach E (log_init cc upper audit h)"
| next_step: "log_reach E w \<Longrightarrow> log_step E w v \<Longrightarrow> log_reach E v"

inductive_cases log_stepE: "log_step E w v"

lemma k_ignore: "kept m \<Longrightarrow> kept (ignore m)"
  unfolding ignore_def by (intro k_rules; simp)

lemma k_run_op:
  assumes "handles_nonzero E"
  shows "kept (run_op E op)"
proof (cases op)
  case (Thread l)
  then show ?thesis
    using k_threads [OF assms]
    by (cases l) (simp_all add: alarmLogServiceOpenThread_def alertLogServiceOpenThread_def
      cmdLogServiceOpenThread_def secLogServiceOpenThread_def)
next
  case (FilterSet l f)
  then show ?thesis by (cases l) (simp_all add: k_callbacks)
next
  case (SetTraceFlag n)
  then show ?thesis by (auto intro: k_modify)
qed (simp_all add: k_ignore k_open k_close k_write k_push k_callbacks)

lemma log_reach_inv: "log_reach E w \<Longrightarrow> handles_nonzero E \<Longrightarrow> log_inv w"
proof (induction rule: log_reach.induct)
  case (loaded h cc upper)
  then show ?case by (simp add: log_inv_def log_init_def open_ok_def)
next
  case (next_step w v)
  then show ?case by (auto elim!: log_stepE dest: keptD [OF k_run_op])
qed

definition example_poll :: TimeHandle where
  "example_poll = timerCreateHandle_r\<lparr>polld := Some \<lparr>maxfd = 1, spollfd = [\<lparr>fd = 0, events = 0, revents = 0\<rparr>],
     nfds = 0, spollfn = [\<lparr>fn = 0, userRef = 0\<rparr>]\<rparr>\<rparr>"

definition example_world :: log_world where
  "example_world = log_init ''com'' ''COM'' True example_poll"

lemma example_reach: "log_reach E example_world"
proof -
  have "poll_ok example_poll" by (simp add: poll_ok_def example_poll_def poll_ext_inv_def)
  then show ?thesis unfolding example_world_def by (rule log_reach.loaded)
qed

end
