(* ===== verification/LogOpen.thy ===== *)
theory LogOpen
  imports LogLife
begin

text \<open>
  What the threads and the closing functions achieve: a thread opens its log once the surroundings
  answer, and closing gives every handle back and forgets it.
\<close>

section \<open>Programs that only make calls, and return\<close>

text \<open>From call number \<open>N\<close> on, every call succeeds.\<close>

definition settled :: "outside \<Rightarrow> nat \<Rightarrow> bool" where
  "settled E N \<longleftrightarrow> (\<forall>h c. N \<le> length h \<longrightarrow> a_rc (E h c) = SA_AIS_OK \<and> a_num (E h c) = 0)"

lemma settledD: "settled E N \<Longrightarrow> N \<le> length h \<Longrightarrow> a_rc (E h c) = SA_AIS_OK \<and> a_num (E h c) = 0"
  by (simp add: settled_def)

text \<open>\<open>calls m R\<close>: \<open>m\<close> returns, changes only the trace, makes at least one call, and \<open>R\<close> holds of the
  length of the trace before, the result and the length after.\<close>

definition calls :: "(log_world, 'a) prog \<Rightarrow> (nat \<Rightarrow> 'a \<Rightarrow> nat \<Rightarrow> bool) \<Rightarrow> bool" where
  "calls m R \<longleftrightarrow> (\<forall>w h. wp False m (\<lambda>r v. \<exists>g. v = w\<lparr>hist := g\<rparr> \<and> length h < length g \<and> R (length h) r (length g))
     (\<lambda>f v. False) (w\<lparr>hist := h\<rparr>))"

lemma callsD:
  assumes "calls m R" "\<And>r g. length (hist w) < length g \<Longrightarrow> R (length (hist w)) r (length g) \<Longrightarrow> Q r (w\<lparr>hist := g\<rparr>)"
  shows "wp False m Q (\<lambda>f v. False) w"
proof -
  have "wp False m (\<lambda>r v. \<exists>g. v = w\<lparr>hist := g\<rparr> \<and> length (hist w) < length g \<and> R (length (hist w)) r (length g))
     (\<lambda>f v. False) (w\<lparr>hist := hist w\<rparr>)"
    using assms(1) unfolding calls_def by blast
  then have "wp False m (\<lambda>r v. \<exists>g. v = w\<lparr>hist := g\<rparr> \<and> length (hist w) < length g \<and> R (length (hist w)) r (length g))
     (\<lambda>f v. False) w" by simp
  then show ?thesis by (rule wp_mono) (use assms(2) in auto)
qed

text \<open>A call that is repeated while its answer is not the wanted one ends when the surroundings settle.\<close>

lemma wp_repeat:
  assumes "settled E N"
    and bad: "\<And>a. b a \<Longrightarrow> \<not> (a_rc a = SA_AIS_OK \<and> a_num a = 0)"
    and body: "\<And>a v Q. b a \<Longrightarrow> (\<And>h d. length (hist v) \<le> length h \<Longrightarrow> Q (E h d) (v\<lparr>hist := h @ [(d, E h d)]\<rparr>)) \<Longrightarrow>
       wp False (body a) Q (\<lambda>f v. False) v"
    and Q: "\<And>h d. length (hist w) \<le> length h \<Longrightarrow> \<not> b (E h d) \<Longrightarrow> Q (E h d) (w\<lparr>hist := h @ [(d, E h d)]\<rparr>)"
  shows "wp False (bnd (call E c) (while_prog b body)) Q (\<lambda>f v. False) w"
proof -
  let ?I = "\<lambda>a v. \<exists>h d. length (hist w) \<le> length h \<and> a = E h d \<and> v = w\<lparr>hist := h @ [(d, a)]\<rparr>"
  have "wp False (while_prog b body (E (hist w) c)) Q (\<lambda>f v. False) (w\<lparr>hist := hist w @ [(c, E (hist w) c)]\<rparr>)"
  proof (rule while_total [where I = ?I and \<mu> = "\<lambda>a v. Suc N - length (hist v)"])
    fix a v
    assume "?I a v"
    then obtain h d where I: "length (hist w) \<le> length h" "a = E h d" "v = w\<lparr>hist := h @ [(d, a)]\<rparr>" by blast
    show "if b a then wp False (body a) (\<lambda>a' v'. ?I a' v' \<and> Suc N - length (hist v') < Suc N - length (hist v))
        (\<lambda>f v. False) v else Q a v"
    proof (cases "b a")
      case True
      then have "length h < N" using bad [OF True] settledD [OF assms(1), of h d] I(2) by (meson not_le)
      moreover have "?I (E g d') (v\<lparr>hist := g @ [(d', E g d')]\<rparr>)" if "length (hist v) \<le> length g" for g d'
        using that I by (intro exI [of _ g] exI [of _ d']) simp
      ultimately show ?thesis using True I(3) by (simp, intro body) auto
    next
      case False
      then show ?thesis using Q I by simp
    qed
  qed auto
  then show ?thesis by (simp add: wp_call)
qed

lemma wp_pause_call:
  assumes "\<And>h d. length (hist v) \<le> length h \<Longrightarrow> Q (E h d) (v\<lparr>hist := h @ [(d, E h d)]\<rparr>)"
  shows "wp False (andthen (do_call E p) (call E c)) Q F v"
  using assms [of "hist v @ [(p, E (hist v) p)]" c] by (simp add: wps)

lemma calls_log_api_call:
  assumes "settled E N"
  shows "calls (log_api_call E c) (\<lambda>m a n. answered E a \<and> (N \<le> m \<longrightarrow> a_rc a = SA_AIS_OK))"
  unfolding calls_def log_api_call_def
proof (intro allI wp_repeat [OF assms])
  fix w :: log_world and h g :: history and d :: ocall
  assume "length (hist (w\<lparr>hist := h\<rparr>)) \<le> length g"
  then show "\<exists>k. w\<lparr>hist := h\<rparr>\<lparr>hist := g @ [(d, E g d)]\<rparr> = w\<lparr>hist := k\<rparr> \<and> length h < length k \<and>
      answered E (E g d) \<and> (N \<le> length h \<longrightarrow> a_rc (E g d) = SA_AIS_OK)"
    using settledD [OF assms, of g d] by (intro exI [of _ "g @ [(d, E g d)]"]) simp
qed (simp, rule wp_pause_call, blast)

lemma calls_sleep_three:
  assumes "settled E N"
  shows "calls (sleep_three E) (\<lambda>m a n. True)"
  unfolding calls_def sleep_three_def
proof (intro allI, subst wp_bnd, rule wp_repeat [OF assms])
  fix w :: log_world and h g :: history and d :: ocall
  assume "length (hist (w\<lparr>hist := h\<rparr>)) \<le> length g"
  then show "wp False (return ()) (\<lambda>r v. \<exists>g. v = w\<lparr>hist := g\<rparr> \<and> length h < length g \<and> True) (\<lambda>f v. False)
      (w\<lparr>hist := h\<rparr>\<lparr>hist := g @ [(d, E g d)]\<rparr>)"
    by (simp, intro exI [of _ "g @ [(d, E g d)]"]) simp
qed (simp_all add: wps)

text \<open>\<open>nanosleep\<close> fails only when a signal interrupts it.\<close>

definition sleep_interrupted_only :: "outside \<Rightarrow> bool" where
  "sleep_interrupted_only E \<longleftrightarrow> (\<forall>h c. a_num (E h c) = 0 \<or> a_errno (E h c) = EINTR)"

lemma calls_sleep_minute:
  assumes "settled E N" "sleep_interrupted_only E"
  shows "calls (sleep_minute E) (\<lambda>m slept n. slept)"
  unfolding calls_def sleep_minute_def
proof (intro allI, subst wp_bnd, rule wp_repeat [OF assms(1)])
  fix w :: log_world and h g :: history and d :: ocall
  assume "length (hist (w\<lparr>hist := h\<rparr>)) \<le> length g" "\<not> (a_num (E g d) \<noteq> 0 \<and> a_errno (E g d) = EINTR)"
  then show "wp False (return (a_num (E g d) = 0)) (\<lambda>r v. \<exists>g. v = w\<lparr>hist := g\<rparr> \<and> length h < length g \<and> r)
      (\<lambda>f v. False) (w\<lparr>hist := h\<rparr>\<lparr>hist := g @ [(d, E g d)]\<rparr>)"
    using assms(2) unfolding sleep_interrupted_only_def
    by (simp, intro exI [of _ "g @ [(d, E g d)]"]) auto
qed (simp_all add: wps)

section \<open>The threads open their log\<close>

text \<open>The states an attempt may lead to: the stream handle is set by the successful one only.\<close>

definition tried :: "log_id \<Rightarrow> log_world \<Rightarrow> bool \<Rightarrow> nat \<Rightarrow> log_world \<Rightarrow> bool" where
  "tried l w ok n v \<longleftrightarrow> (\<exists>g x. v = w\<lparr>hist := g, streams := (streams w)(l := (streams w l)\<lparr>stream_handle := x\<rparr>)\<rparr> \<and>
     n < length g \<and> (ok \<longrightarrow> x \<noteq> 0))"

lemma tried_trans: "tried l w False m v \<Longrightarrow> tried l v ok (length (hist v)) u \<Longrightarrow> tried l w ok m u"
  by (fastforce simp: tried_def)

lemma tried_not: "n < length g \<Longrightarrow> tried l w False n (w\<lparr>hist := g\<rparr>)"
  unfolding tried_def by (intro exI [of _ g] exI [of _ "stream_handle (streams w l)"]) simp

lemma tried_set: "n < length g \<Longrightarrow> x \<noteq> 0 \<Longrightarrow>
    tried l w True n (w\<lparr>hist := g, streams := (streams w)(l := (streams w l)\<lparr>stream_handle := x\<rparr>)\<rparr>)"
  unfolding tried_def by blast

lemma wp_open_stream_total:
  assumes "settled E N" "handles_nonzero E"
  shows "wp False (open_stream E l) (\<lambda>rc v. tried l w (rc = SA_AIS_OK) (length (hist w)) v \<and>
      (N \<le> length (hist w) \<longrightarrow> rc = SA_AIS_OK)) (\<lambda>f v. False) w"
  unfolding open_stream_def get_stream_def wp_bnd wp_basic
proof (rule callsD [OF calls_log_api_call [OF assms(1)]])
  fix r and g :: history
  assume g: "length (hist w) < length g" and r: "answered E r \<and> (N \<le> length (hist w) \<longrightarrow> a_rc r = SA_AIS_OK)"
  show "wp False (andthen (unless (a_rc r \<noteq> SA_AIS_OK) (put_stream l (\<lambda>s. s\<lparr>stream_handle := a_handle r\<rparr>))) (return (a_rc r)))
      (\<lambda>rc v. tried l w (rc = SA_AIS_OK) (length (hist w)) v \<and> (N \<le> length (hist w) \<longrightarrow> rc = SA_AIS_OK)) (\<lambda>f v. False)
      (w\<lparr>hist := g\<rparr>)"
  proof (cases "a_rc r = SA_AIS_OK")
    case True
    then show ?thesis using g r handles_nonzeroD [OF assms(2)]
      by (simp add: wps tried_set)
  next
    case False
    then show ?thesis using g r by (simp add: wps tried_not)
  qed
qed

lemma tried_more:
  assumes "tried l w ok n v" "length (hist v) \<le> length g"
  shows "tried l w ok n (v\<lparr>hist := g\<rparr>)"
proof -
  obtain h x where v: "v = w\<lparr>hist := h, streams := (streams w)(l := (streams w l)\<lparr>stream_handle := x\<rparr>)\<rparr>"
    "n < length h" "ok \<longrightarrow> x \<noteq> 0" using assms(1) unfolding tried_def by blast
  then show ?thesis unfolding tried_def using assms(2) by (intro exI [of _ g] exI [of _ x]) simp
qed

lemma ifI: "(b \<Longrightarrow> P) \<Longrightarrow> (\<not> b \<Longrightarrow> Q) \<Longrightarrow> if b then P else Q"
  by simp

lemma wp_open_try_total:
  assumes "settled E N" "handles_nonzero E" "sleep_interrupted_only E"
    and wait: "\<And>w. wp False wait (\<lambda>r v. \<exists>g. v = w\<lparr>hist := g\<rparr> \<and> length (hist w) \<le> length g) (\<lambda>f v. False) w"
  shows "wp False (open_try E l msg wait) (\<lambda>s v. \<exists>rc. s = Some rc \<and> tried l w (rc = SA_AIS_OK) (length (hist w)) v \<and>
      (N \<le> length (hist w) \<longrightarrow> rc = SA_AIS_OK)) (\<lambda>f v. False) w"
proof -
  define Q where "Q = (\<lambda>s v. \<exists>rc. s = Some rc \<and> tried l w (rc = SA_AIS_OK) (length (hist w)) v \<and>
      (N \<le> length (hist w) \<longrightarrow> rc = SA_AIS_OK))"
  have "wp False (open_try E l msg wait) Q (\<lambda>f v. False) w"
    unfolding open_try_def wp_bnd
  proof (rule wp_mono [OF wp_open_stream_total [OF assms(1,2)]])
    fix rc v
    assume v: "tried l w (rc = SA_AIS_OK) (length (hist w)) v \<and> (N \<le> length (hist w) \<longrightarrow> rc = SA_AIS_OK)"
    have more: "Q (Some rc) (v\<lparr>hist := g\<rparr>)" if "length (hist v) \<le> length g" for g
      using tried_more [OF _ that] v unfolding Q_def by blast
    have 1: "Q (Some rc) v" using more [of "hist v"] by simp
    have 2: "Q (Some rc) (v\<lparr>hist := hist v @ [e]\<rparr>)" for e using more [of "hist v @ [e]"] by simp
    have 3: "wp False wait (\<lambda>a v. Q (Some rc) v) (\<lambda>f v. False) v"
      by (rule wp_mono [OF wait]) (use more in blast)+
    have 4: "wp False (sleep_minute E) (\<lambda>slept v. if slept then Q (Some rc) v else P v) (\<lambda>f v. False)
        (v\<lparr>hist := hist v @ [e]\<rparr>)" for e P
      by (rule callsD [OF calls_sleep_minute [OF assms(1,3)]]) (use more in auto)
    show "wp False (if rc = SA_AIS_ERR_TIMEOUT then
           andthen (do_call E (Syslog (LOG_USER * 8 + LOG_WARNING) (msg @ ''time-out''))) (return (Some rc))
         else if rc = SA_AIS_ERR_UNAVAILABLE then
           andthen (do_call E (Syslog (LOG_USER * 8 + LOG_WARNING) (msg @ ''unavailable'')))
           (bnd (sleep_minute E) (\<lambda>slept.
             if slept then return (Some rc)
             else andthen (do_call E (Syslog (LOG_USER * 8 + LOG_ERR) (msg @ ''nanosleep''))) (return None)))
         else if rc \<noteq> SA_AIS_OK then andthen wait (return (Some rc))
         else return (Some rc)) Q (\<lambda>f v. False) v"
      unfolding wp_if wp_andthen wp_bnd wp_basic wp_do_call
      by (intro ifI 1 2 3 4)
  qed simp
  then show ?thesis by (simp only: Q_def)
qed

text \<open>The loop ends, with the log's stream open.\<close>

lemma wp_open_loop_total:
  assumes "settled E N" "handles_nonzero E" "sleep_interrupted_only E"
    and wait: "\<And>w. wp False wait (\<lambda>r v. \<exists>g. v = w\<lparr>hist := g\<rparr> \<and> length (hist w) \<le> length g) (\<lambda>f v. False) w"
  shows "wp False (open_loop E l msg wait) (\<lambda>s v. s \<noteq> None \<and> tried l w True (length (hist w)) v) (\<lambda>f v. False) w"
proof -
  let ?I = "\<lambda>s v. (s = Some SA_AIS_ERR_TRY_AGAIN \<and> v = w) \<or>
     (\<exists>rc. s = Some rc \<and> tried l w (rc = SA_AIS_OK) (length (hist w)) v)"
  let ?m = "\<lambda>s v. if s = Some SA_AIS_OK then 0 else Suc (N - length (hist v))"
  show ?thesis
    unfolding open_loop_def
  proof (rule while_total [where I = ?I and \<mu> = ?m])
    fix s v
    assume I: "?I s v"
    show "if s \<noteq> None \<and> s \<noteq> Some SA_AIS_OK then wp False (open_try E l msg wait) (\<lambda>s' v'. ?I s' v' \<and> ?m s' v' < ?m s v)
        (\<lambda>f v. False) v else s \<noteq> None \<and> tried l w True (length (hist w)) v"
    proof (cases "s = Some SA_AIS_OK")
      case True
      then show ?thesis using I by auto
    next
      case False
      have "?I s' v' \<and> ?m s' v' < ?m s v" if "\<exists>rc. s' = Some rc \<and> tried l v (rc = SA_AIS_OK) (length (hist v)) v' \<and>
        (N \<le> length (hist v) \<longrightarrow> rc = SA_AIS_OK)" for s' v'
      proof -
        obtain rc where rc: "s' = Some rc" "tried l v (rc = SA_AIS_OK) (length (hist v)) v'"
          "N \<le> length (hist v) \<longrightarrow> rc = SA_AIS_OK" using \<open>\<exists>rc. _ rc\<close> by blast
        have "tried l w (rc = SA_AIS_OK) m v = tried l w False m v" if "s = Some rc" for rc m using False that by auto
        then have "v = w \<or> tried l w False (length (hist w)) v" using I by blast
        then have "tried l w (rc = SA_AIS_OK) (length (hist w)) v'"
          using rc(2) tried_trans [of l w "length (hist w)" v "rc = SA_AIS_OK" v'] by blast
        moreover have "length (hist v) < length (hist v')" using rc(2) by (auto simp: tried_def)
        ultimately show ?thesis using rc False by auto
      qed
      then show ?thesis using False I wp_mono [OF wp_open_try_total [OF assms, of l msg v]] by auto
    qed
  qed simp
qed

text \<open>
  What registering the descriptor does to a consistent poll table: a new descriptor is entered if there
  is room, the entry of a known one is replaced, and only the first counts as success for the threads.
\<close>

lemma wp_poll_set:
  assumes "polld (ntf_poll w) = Some e" "poll_ext_inv e"
    and "\<And>rc h e'. polld h = Some e' \<Longrightarrow> rc = (0 :: int) \<longleftrightarrow> lookup_fd e d = None \<and> nfds e < maxfd e \<Longrightarrow>
      lookup_fd e' = (if lookup_fd e d = None \<and> \<not> nfds e < maxfd e then lookup_fd e
        else (lookup_fd e)(d \<mapsto> (POLLIN, \<lparr>fn = f, userRef = 0\<rparr>))) \<Longrightarrow> Q rc (w\<lparr>ntf_poll := h\<rparr>)"
  shows "wp False (poll_set f d) Q F w"
proof -
  obtain rc e' where e': "poll_setcallback (ntf_poll w) f \<lparr>fd = d, events = POLLIN, revents = 0\<rparr> 0 =
      Some (rc, (ntf_poll w)\<lparr>polld := Some e'\<rparr>)"
    "rc = (if lookup_fd e d \<noteq> None then 1 else if nfds e < maxfd e then 0 else -1)"
    "lookup_fd e' = (if rc = -1 then lookup_fd e else (lookup_fd e)(d \<mapsto> (POLLIN, \<lparr>fn = f, userRef = 0\<rparr>)))"
    using setcallback_spec [OF assms(1,2), of f "\<lparr>fd = d, events = POLLIN, revents = 0\<rparr>" 0] by auto
  have "Q rc (w\<lparr>ntf_poll := (ntf_poll w)\<lparr>polld := Some e'\<rparr>\<rparr>)"
    by (rule assms(3) [of _ e']) (cases "lookup_fd e d"; use e'(2,3) in \<open>simp split: if_splits\<close>)+
  then show ?thesis by (simp add: wp_def poll_set_def return_def e'(1))
qed

lemma wp_detach: "(\<And>g. length (hist w) \<le> length g \<Longrightarrow> Q () (w\<lparr>hist := g\<rparr>)) \<Longrightarrow> wp False (detach_thread E l) Q F w"
  by (simp add: detach_thread_def wps)

text \<open>
  The log is marked open and has a stream.  Its descriptor is in the poll table with the right
  call-back, unless the table is full; the number of the thread is forgotten only if the descriptor is new.
\<close>

definition opened_by_thread :: "log_world \<Rightarrow> log_id \<Rightarrow> pollextensions \<Rightarrow> log_world \<Rightarrow> bool" where
  "opened_by_thread w l e v \<longleftrightarrow> (let d = selection_object (streams w l); new = (lookup_fd e d = None); room = nfds e < maxfd e in
     file_open (streams v l) \<and> stream_handle (streams v l) \<noteq> 0 \<and>
     (\<exists>e'. polld (ntf_poll v) = Some e' \<and>
        lookup_fd e' = (if new \<and> \<not> room then lookup_fd e
                        else (lookup_fd e)(d \<mapsto> (POLLIN, \<lparr>fn = fd_callback l, userRef = 0\<rparr>)))) \<and>
     open_thread (streams v l) = (if new \<and> room then 0 else open_thread (streams w l)))"

lemma wp_stream_open_thread:
  assumes "settled E N" "handles_nonzero E" "sleep_interrupted_only E"
    "polld (ntf_poll w) = Some e" "poll_ext_inv e"
  shows "wp False (stream_open_thread E l dn opened) (\<lambda>r v. opened_by_thread w l e v) (\<lambda>f v. False) w"
proof -
  have wait: "wp False (sleep_three E) (\<lambda>r v. \<exists>g. v = w\<lparr>hist := g\<rparr> \<and> length (hist w) \<le> length g) (\<lambda>f v. False) w" for w :: log_world
    by (rule callsD [OF calls_sleep_three [OF assms(1)]]) fastforce
  let ?tail = "\<lambda>s. if s = None then return () else
        andthen (case opened of None \<Rightarrow> return () | Some m \<Rightarrow> do_call E (Syslog (LOG_USER * 8 + LOG_INFO) m))
       (andthen (put_stream l (\<lambda>s. s\<lparr>file_open := True\<rparr>))
       (bnd (get_stream l selection_object) (\<lambda>sel.
        bnd (poll_set (fd_callback l) sel) (\<lambda>rc.
        if rc \<noteq> 0 then return ()
        else put_stream l (\<lambda>s. s\<lparr>open_thread := 0\<rparr>)))))"
  have tail: "wp False (?tail s) (\<lambda>r x. opened_by_thread w l e x) (\<lambda>f v. False) v"
    if "s \<noteq> None" "stream_handle (streams v l) \<noteq> 0" "ntf_poll v = ntf_poll w"
      "selection_object (streams v l) = selection_object (streams w l)" "open_thread (streams v l) = open_thread (streams w l)" for s v
  proof -
    have post: "wp False (poll_set (fd_callback l) (selection_object (streams w l)))
        (\<lambda>rc. wp False (if rc \<noteq> 0 then return () else put_stream l (\<lambda>s. s\<lparr>open_thread := 0\<rparr>))
          (\<lambda>r x. opened_by_thread w l e x) (\<lambda>f v. False)) (\<lambda>f v. False) u"
      if u: "ntf_poll u = ntf_poll w" "file_open (streams u l)" "stream_handle (streams u l) \<noteq> 0"
        "open_thread (streams u l) = open_thread (streams w l)" for u
      by (rule wp_poll_set [where e = e]) (use assms(4,5) u in \<open>auto simp: wps opened_by_thread_def Let_def\<close>)
    show ?thesis using that by (cases opened) (auto simp: wps intro!: post)
  qed
  show ?thesis
    unfolding stream_open_thread_def wp_andthen wp_put_stream wp_bnd
  proof (rule wp_detach, rule wp_mono [OF wp_open_loop_total [OF assms(1-3) wait]])
    fix g s v
    let ?w = "w\<lparr>streams := (streams w)(l := streams w l\<lparr>stream_name := dn\<rparr>)\<rparr>\<lparr>hist := g\<rparr>"
    assume v: "s \<noteq> None \<and> tried l ?w True (length (hist ?w)) v"
    show "wp False (?tail s) (\<lambda>r x. opened_by_thread w l e x) (\<lambda>f v. False) v"
      by (rule tail) (use v in \<open>auto simp: tried_def\<close>)
  qed simp
qed

lemma thread_opens:
  assumes "settled E N" "handles_nonzero E" "sleep_interrupted_only E"
    "polld (ntf_poll w) = Some e" "poll_ext_inv e" "l \<noteq> TheLog"
  shows "\<exists>v. thread_of E l w = Some (Inr ((), v)) \<and> opened_by_thread w l e v"
proof -
  have "wp False (thread_of E l) (\<lambda>r v. opened_by_thread w l e v) (\<lambda>f v. False) w"
    using wp_stream_open_thread [OF assms(1-5)] assms(6)
    by (cases l) (simp_all add: alarmLogServiceOpenThread_def alertLogServiceOpenThread_def
      cmdLogServiceOpenThread_def secLogServiceOpenThread_def)
  then show ?thesis by (auto simp: wp_def split: option.splits sum.splits)
qed

text \<open>
  C10. However often the log library times out, is unavailable or fails otherwise, and however
  often its sleep is interrupted: if the surroundings settle, the thread of the alarm, alert,
  command or security log returns with the log marked open and a stream handle.  From a consistent
  poll table with room and without the log's descriptor, the descriptor is then registered with the
  right call-back and the number of the thread is forgotten.  If the descriptor was there, its entry is
  replaced, and if the table is full it stays as it was; in both cases the log is still marked open and
  the number of the thread, which has ended, is kept.
\<close>

theorem threads_open_their_log:
  assumes "settled E N" "handles_nonzero E" "sleep_interrupted_only E"
    "polld (ntf_poll w) = Some e" "poll_ext_inv e" "l \<noteq> TheLog"
  shows "\<exists>v e'. thread_of E l w = Some (Inr ((), v)) \<and>
    file_open (streams v l) \<and> stream_handle (streams v l) \<noteq> 0 \<and> polld (ntf_poll v) = Some e' \<and>
    (let d = selection_object (streams w l); new = (lookup_fd e d = None); room = nfds e < maxfd e in
       lookup_fd e' = (if new \<and> \<not> room then lookup_fd e
                       else (lookup_fd e)(d \<mapsto> (POLLIN, \<lparr>fn = fd_callback l, userRef = 0\<rparr>))) \<and>
       open_thread (streams v l) = (if new \<and> room then 0 else open_thread (streams w l)))"
  using thread_opens [OF assms] by (auto simp: opened_by_thread_def Let_def)

lemma yes_settled: "settled (\<lambda>h c. yes) 0" "handles_nonzero (\<lambda>h c. yes)" "sleep_interrupted_only (\<lambda>h c. yes)"
  by (simp_all add: settled_def handles_nonzero_def sleep_interrupted_only_def yes_def)

lemma example_table: "\<exists>e. polld (ntf_poll example_world) = Some e \<and> poll_ext_inv e \<and> nfds e < maxfd e \<and> lookup_fd e d = None"
  by (simp add: example_world_def log_init_def example_poll_def poll_ext_inv_def lookup_fd_def)

theorem threads_open_their_log_witness:
  "\<exists>v e. thread_of (\<lambda>h c. yes) CmdLog example_world = Some (Inr ((), v)) \<and> file_open (streams v CmdLog) \<and>
     open_thread (streams v CmdLog) = 0 \<and> polld (ntf_poll v) = Some e \<and>
     lookup_fd e (selection_object (streams example_world CmdLog)) = Some (POLLIN, \<lparr>fn = fd_callback CmdLog, userRef = 0\<rparr>)"
proof -
  let ?d = "selection_object (streams example_world CmdLog)"
  obtain e where e: "polld (ntf_poll example_world) = Some e" "poll_ext_inv e" "nfds e < maxfd e" "lookup_fd e ?d = None"
    using example_table by blast
  from threads_open_their_log [OF yes_settled e(1,2), of CmdLog] e(3,4) show ?thesis by (auto simp: Let_def)
qed

text \<open>
  C9. Whatever sequence of openings, closings, threads, writes and call-backs led here: a log that
  is marked open has a stream handle, and the poll table the logs share with the notification
  service is consistent (no descriptor twice, nothing outside its arrays).
\<close>

theorem open_log_has_stream:
  assumes "log_reach E w" "handles_nonzero E"
  shows "(\<forall>l. file_open (streams w l) \<longrightarrow> stream_handle (streams w l) \<noteq> 0) \<and>
     (\<exists>e. polld (ntf_poll w) = Some e \<and> poll_ext_inv e)"
  using log_reach_inv [OF assms] by (simp add: log_inv_def poll_ok_def open_ok_def)

theorem open_log_has_stream_witness:
  "\<exists>w. log_reach (\<lambda>h c. yes) w \<and> file_open (streams w CmdLog) \<and> stream_handle (streams w CmdLog) \<noteq> 0"
proof -
  obtain v where v: "thread_of (\<lambda>h c. yes) CmdLog example_world = Some (Inr ((), v))" "\<exists>e. opened_by_thread example_world CmdLog e v"
    using thread_opens [OF yes_settled, of example_world _ CmdLog] example_table by blast
  then have "log_step (\<lambda>h c. yes) example_world v" using log_step.step [of _ "Thread CmdLog"] by simp
  then have "log_reach (\<lambda>h c. yes) v" by (rule log_reach.next_step [OF example_reach])
  with v(2) open_log_has_stream [OF this yes_settled(2)] show ?thesis by (auto simp: opened_by_thread_def Let_def)
qed

section \<open>Closing\<close>

definition is_release :: "ocall \<Rightarrow> bool" where
  "is_release c = (case c of SaLogStreamClose h \<Rightarrow> True | SaLogFinalize h \<Rightarrow> True | _ \<Rightarrow> False)"

definition released :: "history \<Rightarrow> ocall list" where
  "released t = map fst (filter (\<lambda>(c, a). is_release c \<and> a_rc a = SA_AIS_OK) t)"

lemma released_simps [simp]: "released [] = []" "released (s @ t) = released s @ released t"
  "released ((Syslog p m, a) # t) = released t"
  by (simp_all add: released_def is_release_def)

lemma released_retried:
  assumes "retried (Usleep n) (\<lambda>rc. rc = SA_AIS_ERR_TRY_AGAIN) (\<lambda>d. d = c) a t" "is_release c"
  shows "released t = (if a_rc a = SA_AIS_OK then [c] else [])"
proof -
  obtain s where s: "t = s @ [(c, a)]"
    "list_all (\<lambda>(d, b). d = Usleep n \<or> d = c \<and> a_rc b = SA_AIS_ERR_TRY_AGAIN) s"
    using assms(1) by (auto simp: retried_def)
  have "released s = []" using s(2) by (induction s) (auto simp: released_def is_release_def)
  then show ?thesis using s(1) assms(2) by (simp add: released_def)
qed

definition offered :: "ocall \<Rightarrow> history \<Rightarrow> bool" where
  "offered c t \<longleftrightarrow> (\<exists>a. (c, a) \<in> set t)"

lemma offered_append [simp]: "offered c (s @ t) \<longleftrightarrow> offered c s \<or> offered c t"
  by (auto simp: offered_def)

lemma offered_syslog [simp]: "offered c ((Syslog p m, a) # t) \<longleftrightarrow> c = Syslog p m \<or> offered c t"
  by (auto simp: offered_def)

lemma wp_release:
  assumes "is_release c"
    "\<And>rc t. released t = (if rc = SA_AIS_OK then [c] else []) \<Longrightarrow> offered c t \<Longrightarrow> Q rc (w\<lparr>hist := hist w @ t\<rparr>)"
  shows "wp d (log_api_call_try_again E c) Q F w"
proof (rule wp_log_api_call_try_again)
  fix a t
  assume t: "retried (Usleep 25000) (\<lambda>rc. rc = SA_AIS_ERR_TRY_AGAIN) (\<lambda>d. d = c) a t"
  then have "offered c t" by (auto simp: retried_def offered_def)
  then show "Q (a_rc a) (w\<lparr>hist := hist w @ t\<rparr>)" using assms(2) released_retried [OF t assms(1)] by blast
qed

lemma wp_poll_unset:
  assumes "poll_ok (ntf_poll w)"
    and "\<And>h e. polld h = Some e \<Longrightarrow> poll_ext_inv e \<Longrightarrow> lookup_fd e d = None \<Longrightarrow> Q () (w\<lparr>ntf_poll := h\<rparr>)"
  shows "wp False (poll_unset d) Q F w"
proof -
  obtain e where e: "polld (ntf_poll w) = Some e" "poll_ext_inv e" using assms(1) by (auto simp: poll_ok_def)
  show ?thesis using unsetcallback_spec [OF e, of d] assms(2) by (fastforce simp: wp_def poll_unset_def return_def)
qed

definition release_plan :: "log_stream \<Rightarrow> ocall list" where
  "release_plan s = (if stream_handle s \<noteq> 0 then [SaLogStreamClose (stream_handle s)] else []) @
     (if log_handle s \<noteq> 0 then [SaLogFinalize (log_handle s)] else [])"

definition closed_log :: "log_stream \<Rightarrow> log_stream" where
  "closed_log s = s\<lparr>file_open := False, stream_handle := 0, log_handle := 0\<rparr>"

text \<open>The effect of closing \<open>l\<close> between \<open>w\<close> and \<open>v\<close>, with the result \<open>r\<close> where \<open>r0\<close> would be success.\<close>

definition closed_well :: "log_id \<Rightarrow> MafReturnT \<Rightarrow> log_world \<Rightarrow> MafReturnT \<Rightarrow> log_world \<Rightarrow> bool" where
  "closed_well l r0 w r v \<longleftrightarrow> streams v = (streams w)(l := closed_log (streams w l)) \<and>
     (\<exists>e. polld (ntf_poll v) = Some e \<and> poll_ext_inv e \<and> lookup_fd e (selection_object (streams w l)) = None) \<and>
     (\<exists>t. hist v = hist w @ t \<and> list_all (\<lambda>c. offered c t) (release_plan (streams w l)) \<and>
        r = (if released t = release_plan (streams w l) then r0 else MafFailure))"

lemma closed_logI:
  "s = closed_log (streams w l) \<Longrightarrow> (streams w)(l := s) = (streams w)(l := closed_log (streams w l))"
  by simp

lemma closed_log_eqs:
  "stream_handle s = 0 \<Longrightarrow> log_handle s = 0 \<Longrightarrow> s\<lparr>file_open := False\<rparr> = closed_log s"
  "stream_handle s = 0 \<Longrightarrow> s\<lparr>file_open := False, log_handle := 0\<rparr> = closed_log s"
  "log_handle s = 0 \<Longrightarrow> s\<lparr>file_open := False, stream_handle := 0\<rparr> = closed_log s"
  "s\<lparr>file_open := False, stream_handle := 0, log_handle := 0\<rparr> = closed_log s"
  by (simp_all add: closed_log_def)

lemma wp_close_stream:
  assumes "open_thread (streams w l) = 0" "poll_ok (ntf_poll w)"
  shows "wp False (close_stream E l c r0) (closed_well l r0 w) (\<lambda>f v. False) w"
  unfolding close_stream_def
  using assms
  by (auto simp: wps closed_well_def is_release_def release_plan_def
      intro!: wp_poll_unset wp_release closed_logI closed_log_eqs split: option.split)

lemma wp_close_both:
  assumes "open_thread (streams w AlarmLog) = 0" "open_thread (streams w AlertLog) = 0" "poll_ok (ntf_poll w)"
  shows "wp False (AlarmAndAlertLogServiceClose E)
    (\<lambda>r v. \<exists>r1 u. closed_well AlarmLog MafOk w r1 u \<and> closed_well AlertLog r1 u r v) (\<lambda>f v. False) w"
  unfolding AlarmAndAlertLogServiceClose_def wp_bnd
proof (rule wp_mono [OF wp_close_stream [OF assms(1,3)]])
  fix r1 u
  assume u: "closed_well AlarmLog MafOk w r1 u"
  then have "open_thread (streams u AlertLog) = 0" "poll_ok (ntf_poll u)"
    using assms(2) by (auto simp: closed_well_def poll_ok_def)
  then show "wp False (close_stream E AlertLog None r1)
      (\<lambda>r v. \<exists>r1 u. closed_well AlarmLog MafOk w r1 u \<and> closed_well AlertLog r1 u r v) (\<lambda>f v. False) u"
    by (rule wp_mono [OF wp_close_stream]) (use u in blast)+
qed simp

text \<open>
  C33. Closing the alarm and alert logs, when no thread is opening them, always returns.  Each log
  is marked closed, its descriptor is out of the poll table, and its handles are forgotten after
  each non-zero one was offered to the library; the result is \<open>MafOk\<close> only if both logs were
  given back completely, stream before handle.
\<close>

theorem closing_gives_back:
  assumes "open_thread (streams w AlarmLog) = 0" "open_thread (streams w AlertLog) = 0" "poll_ok (ntf_poll w)"
  shows "\<exists>u v r1 r2. AlarmAndAlertLogServiceClose E w = Some (Inr (r2, v)) \<and>
     closed_well AlarmLog MafOk w r1 u \<and> closed_well AlertLog r1 u r2 v"
  using wp_close_both [OF assms, of E] by (auto simp: wp_def split: option.splits sum.splits)

theorem closing_gives_back_witness:
  "\<exists>v r. AlarmAndAlertLogServiceClose (\<lambda>h c. yes) example_world = Some (Inr (r, v)) \<and>
     \<not> file_open (streams v AlarmLog) \<and> \<not> file_open (streams v AlertLog)"
proof -
  have 1: "open_thread (streams example_world AlarmLog) = 0" "open_thread (streams example_world AlertLog) = 0"
    by (simp_all add: example_world_def log_init_def)
  have 2: "poll_ok (ntf_poll example_world)"
    using example_table unfolding poll_ok_def by blast
  show ?thesis using closing_gives_back [OF 1 2, of "\<lambda>h c. yes"] by (auto simp: closed_well_def closed_log_def)
qed

text \<open>
  Closing a log while its thread is still opening it does not stop the thread: the delivered
  \<open>SIGKILL\<close> ends the process.
\<close>

theorem closing_while_opening_kills:
  assumes "open_thread (streams w l) \<noteq> 0" "a_num (E (hist w) (PthreadKill (open_thread (streams w l)))) = 0"
  shows "\<exists>v. close_stream E l c r w = Some (Inl (Killed, v))"
proof -
  have "wp False (close_stream E l c r) (\<lambda>r v. False) (\<lambda>f v. f = Killed) w"
    using assms by (simp add: close_stream_def kill_thread_def wps)
  then show ?thesis by (auto simp: wp_def split: option.splits sum.splits)
qed

theorem closing_while_opening_kills_witness:
  "\<exists>v. close_stream (\<lambda>h c. yes) CmdLog None MafOk
     (example_world\<lparr>streams := (streams example_world)(CmdLog := (streams example_world CmdLog)\<lparr>open_thread := 5\<rparr>)\<rparr>) =
     Some (Inl (Killed, v))"
  by (rule closing_while_opening_kills) (simp_all add: yes_def)

end
