(* ===== verification/RlWorld.thy ===== *)
theory RlWorld
  imports LogRules
begin

text \<open>
  The replicated list (\<open>rlist/ComSARlist_imm.cc\<close>), part 1: the state of the service, its names and
  buffers, and its objects in the information model.  A list is an object of the information model
  that holds the size of an item, the number of items and the last item number given out; the
  items are files, or objects of a second class when \<open>replicateInIMM\<close> is set.

  A C string is the list of its characters before the NUL.  A buffer of a caller is the list of its
  bytes, so reading or writing past its end is visible: \<open>Wild\<close> and \<open>Overflow\<close>.  An object name
  (\<open>SaNameT\<close>) is the string in it.
\<close>

section \<open>State\<close>

record MafMwSpiListNameT =
  name_length :: "16 word"
  name_value :: string

definition MW_SPI_MAX_NAME_LENGTH :: "16 word" where "MW_SPI_MAX_NAME_LENGTH = 256"
definition SA_MAX_UNEXTENDED_NAME_LENGTH :: nat where "SA_MAX_UNEXTENDED_NAME_LENGTH = 256"
definition MAX_PATH_DATA_LENGTH :: nat where "MAX_PATH_DATA_LENGTH = 256"
definition RPLIST_MAX_RETRIES :: nat where "RPLIST_MAX_RETRIES = 5"
definition RPLIST_RETRY_SLEEP_SECOND :: nat where "RPLIST_RETRY_SLEEP_SECOND = 1"
definition FM_STATUS_SECTION :: string where "FM_STATUS_SECTION = ''FmStatusSection''"
definition UINT_MAX :: "32 word" where "UINT_MAX = - 1"

text \<open>\<open>it_size\<close> is \<open>None\<close> until it is assigned; \<open>data\<close> is never used.\<close>

record RLIterator =
  it_id :: "32 word"
  it_index :: "32 word"
  it_size :: "64 word option"

text \<open>
  Three fields are not variables of the code: \<open>iters\<close> is the part of the heap that holds iterators;
  \<open>malloc\<close> gives out the address \<open>next_iter\<close>, and none is given out twice, so that every use of a
  freed iterator shows; \<open>slack\<close> says whether the frame of \<open>createDir\<close> happens to have an unused word after its array
  of four pointers (see there).
\<close>

record rl_world = world +
  rplistImmHandle :: handle
  rplistImmOiHandle :: handle
  immAccessHandle :: handle
  rplistOiSetFlag :: bool
  retries :: "16 word"
  pathToStorageDirectory :: string
  strRlistBlockSize :: "string option"
  strRlistLastId :: "string option"
  strRlistNumElements :: "string option"
  rlist_maxsize :: "64 word"
  clearAlarmsOnClusterReboot :: bool
  replicateInIMM :: bool
  bExtendedNameEnabled :: bool
  cc :: string                          \<comment> \<open>\<open>_CC_NAME\<close>: "com" or "lm"\<close>
  CC :: string                          \<comment> \<open>\<open>CC_NAME\<close>: "Com" or "Lm"\<close>
  iters :: "nat \<rightharpoonup> RLIterator"
  next_iter :: nat
  slack :: bool

type_synonym 'a rlp = "(rl_world, 'a) prog"

section \<open>Names and buffers\<close>

definition validateName :: "MafMwSpiListNameT option \<Rightarrow> bool" where
  "validateName name = (case name of None \<Rightarrow> False
     | Some n \<Rightarrow> \<not> (name_length n = 0 \<or> name_length n > MW_SPI_MAX_NAME_LENGTH))"

definition sRuntimeIMMSuffix :: string where "sRuntimeIMMSuffix = ''RT''"
definition sSaRlistRTdn :: string where "sSaRlistRTdn = ''saRlistRTdn''"
definition sData :: string where "sData = ''data''"
definition sEqualSign :: string where "sEqualSign = ''=''"

lemmas rl_strings = sRuntimeIMMSuffix_def sSaRlistRTdn_def sData_def sEqualSign_def

text \<open>
  \<open>saNameSet\<close> without long names enabled copies at most 256 characters into an array of 256 and
  then writes the NUL after them.
\<close>

definition saNameSet :: "string \<Rightarrow> string rlp" where
  "saNameSet s = bnd (gets bExtendedNameEnabled) (\<lambda>e.
     if e then return s
     else let len = min (length s) SA_MAX_UNEXTENDED_NAME_LENGTH in
       if len < SA_MAX_UNEXTENDED_NAME_LENGTH then return (take len s) else die Overflow)"

definition classToObj :: "string \<Rightarrow> string rlp" where
  "classToObj className = saNameSet (className @ ''=1'')"

definition getRTObject :: "string \<Rightarrow> 32 word \<Rightarrow> string" where
  "getRTObject listInstanceName lastId =
     listInstanceName @ sRuntimeIMMSuffix @ sEqualSign @ decimal (unat lastId)"

definition convertToRTObjectName :: "string \<Rightarrow> string \<Rightarrow> (MafReturnT \<times> string option) rlp" where
  "convertToRTObjectName listInstanceName lastId =
     (if lastId = ''0'' then return (MafInvalidArgument, None)
      else bnd (saNameSet (listInstanceName @ sRuntimeIMMSuffix @ sEqualSign @ lastId))
             (\<lambda>immObject. return (MafOk, Some immObject)))"

text \<open>The bytes a call reads from a caller's buffer, and \<open>strlen\<close> of it.\<close>

definition read_bytes :: "string option \<Rightarrow> nat \<Rightarrow> string rlp" where
  "read_bytes buf n = (case buf of None \<Rightarrow> if n = 0 then return [] else die Wild
     | Some b \<Rightarrow> if n \<le> length b then return (take n b) else die Wild)"

definition strlen :: "string option \<Rightarrow> 32 word rlp" where
  "strlen buf = (case buf of None \<Rightarrow> die Wild
     | Some b \<Rightarrow> if CHR 0x00 \<in> set b then return (of_nat (length (takeWhile (\<lambda>c. c \<noteq> CHR 0x00) b)))
        else die Wild)"

section \<open>Handles\<close>

definition unsetFromEnvironment :: "outside \<Rightarrow> string \<Rightarrow> unit rlp" where
  "unsetFromEnvironment E ptr = bnd (call E (GetEnv ptr)) (\<lambda>a.
     case a_text a of None \<Rightarrow> return ()
     | Some v \<Rightarrow> andthen (do_call E (UnsetEnv ptr)) (do_call E (GetEnv ptr)))"

definition comsa_rplist_imm_finalize :: "outside \<Rightarrow> unit rlp" where
  "comsa_rplist_imm_finalize E = bnd (gets rplistImmHandle) (\<lambda>h.
     bnd (autoRetry_saImmOmFinalize E h) (\<lambda>a.
     unless (a_rc a \<noteq> SA_AIS_OK) (modify (\<lambda>w. w\<lparr>rplistImmHandle := 0\<rparr>))))"

definition comsa_rplist_imm_init :: "outside \<Rightarrow> MafReturnT rlp" where
  "comsa_rplist_imm_init E = bnd (autoRetry_saImmOmInitialize E 0 imm_version) (\<lambda>a.
     if a_rc a \<noteq> SA_AIS_OK then andthen (comsa_rplist_imm_finalize E) (return MafFailure)
     else andthen (modify (\<lambda>w. w\<lparr>rplistImmHandle := a_handle a\<rparr>)) (return MafOk))"

text \<open>The handle is a parameter here: the code clears its copy only.\<close>

definition comsa_rplist_immAccess_finalize :: "outside \<Rightarrow> handle \<Rightarrow> unit rlp" where
  "comsa_rplist_immAccess_finalize E immAccessorHandle =
     bnd (autoRetry_saImmOmAccessorFinalize E immAccessorHandle) (\<lambda>a. return ())"

definition comsa_rplist_immAccess_init :: "outside \<Rightarrow> MafReturnT rlp" where
  "comsa_rplist_immAccess_init E = bnd (gets rplistImmHandle) (\<lambda>h.
     bnd (autoRetry_saImmOmAccessorInitialize E h) (\<lambda>a.
     if a_rc a \<noteq> SA_AIS_OK then bnd (gets immAccessHandle) (\<lambda>ah.
       andthen (comsa_rplist_immAccess_finalize E ah) (return MafFailure))
     else andthen (modify (\<lambda>w. w\<lparr>immAccessHandle := a_handle a\<rparr>)) (return MafOk)))"

definition comsa_rplist_immOi_init :: "outside \<Rightarrow> MafReturnT rlp" where
  "comsa_rplist_immOi_init E = bnd (autoRetry_saImmOiInitialize_2 E 0 imm_version) (\<lambda>a.
     if a_rc a \<noteq> SA_AIS_OK then return MafFailure
     else andthen (modify (\<lambda>w. w\<lparr>rplistImmOiHandle := a_handle a\<rparr>)) (return MafOk))"

definition comsa_rplist_immOi_finalize :: "outside \<Rightarrow> unit rlp" where
  "comsa_rplist_immOi_finalize E = bnd (gets rplistImmOiHandle) (\<lambda>h.
     unless (h = 0) (bnd (autoRetry_saImmOiFinalize E h) (\<lambda>a.
       unless (a_rc a \<noteq> SA_AIS_OK) (modify (\<lambda>w. w\<lparr>rplistImmOiHandle := 0\<rparr>)))))"

definition clearAndRefreshIMMHandler :: "outside \<Rightarrow> unit rlp" where
  "clearAndRefreshIMMHandler E = bnd (gets rplistImmOiHandle) (\<lambda>h.
     bnd (autoRetry_saImmOiImplementerClear E h) (\<lambda>a.
     andthen (comsa_rplist_immOi_finalize E)
    (bnd (gets immAccessHandle) (\<lambda>ah.
     andthen (comsa_rplist_immAccess_finalize E ah)
       (comsa_rplist_imm_finalize E)))))"

definition IMPLEMENTER_NAME :: "string \<Rightarrow> string" where
  "IMPLEMENTER_NAME c = c @ ''SaRepListOI''"

text \<open>
  Another attempt is made when the implementer name is still held by somebody
  (\<open>SA_AIS_ERR_NO_RESOURCES\<close>); what the attempt returns is ignored.
\<close>

partial_function (option) comsa_rplist_immOi_set :: "outside \<Rightarrow> MafReturnT rlp" where
  "comsa_rplist_immOi_set E w =
     bnd (comsa_rplist_imm_init E) (\<lambda>rc v. if rc \<noteq> MafOk then return rc v else
     bnd (comsa_rplist_immOi_init E) (\<lambda>rc v. if rc \<noteq> MafOk then return rc v else
     bnd (autoRetry_saImmOiImplementerSet E (rplistImmOiHandle v) (IMPLEMENTER_NAME (CC v))) (\<lambda>a v.
       if a_rc a = SA_AIS_OK then
         bnd (modify (\<lambda>w. w\<lparr>retries := 0\<rparr>)) (\<lambda>_ v. comsa_rplist_immAccess_init E v) v
       else if a_rc a \<noteq> SA_AIS_ERR_NO_RESOURCES then return MafFailure v
       else bnd (modify (\<lambda>w. w\<lparr>retries := retries w + 1\<rparr>)) (\<lambda>_ u.
         if retries v <s 3 then
           bnd (comsa_rplist_immOi_finalize E) (\<lambda>_ v.
           bnd (unsetFromEnvironment E ''IMMA_OI_CALLBACK_TIMEOUT'') (\<lambda>_ v.
           bnd (\<lambda>v. comsa_rplist_immOi_set E v) (\<lambda>_ v. comsa_rplist_immAccess_init E v) v) v) u
         else return MafFailure u) v) v) v) w"

definition reset_rplistImmOiHandle :: "outside \<Rightarrow> MafReturnT rlp" where
  "reset_rplistImmOiHandle E =
     andthen (modify (\<lambda>w. w\<lparr>rplistOiSetFlag := False\<rparr>))
    (andthen (clearAndRefreshIMMHandler E)
    (bnd (comsa_rplist_immOi_set E) (\<lambda>rc.
     if rc \<noteq> MafOk then return MafFailure
     else andthen (modify (\<lambda>w. w\<lparr>rplistOiSetFlag := True\<rparr>)) (return MafOk))))"

text \<open>
  The shape shared by the functions below: when the service does not know the handle, all handles
  are obtained again and the call is made once more.  \<open>Inl rc\<close>: the handles could not be obtained;
  \<open>Inr (a, again)\<close>: the answer, and whether it is that of the second call.
\<close>

definition with_reset :: "outside \<Rightarrow> answer rlp \<Rightarrow> (MafReturnT + answer \<times> bool) rlp" where
  "with_reset E m = bnd m (\<lambda>a.
     if a_rc a = SA_AIS_ERR_BAD_HANDLE then bnd (reset_rplistImmOiHandle E) (\<lambda>rc.
       if rc \<noteq> MafOk then return (Inl rc) else bnd m (\<lambda>a. return (Inr (a, True))))
     else return (Inr (a, False)))"

section \<open>Classes\<close>

definition RLIST_CLASS_RDN :: "string \<Rightarrow> string" where
  "RLIST_CLASS_RDN c = c @ ''saRlistClassRdn''"

definition prepareRTImmAttrDefinitions :: "imm_attr_def list" where
  "prepareRTImmAttrDefinitions =
     [\<lparr>defName = sSaRlistRTdn, defType = SA_IMM_ATTR_SANAMET,
        defFlags = [SA_IMM_ATTR_RUNTIME, SA_IMM_ATTR_RDN, SA_IMM_ATTR_CACHED]\<rparr>,
      \<lparr>defName = sData, defType = SA_IMM_ATTR_SAANYT, defFlags = [SA_IMM_ATTR_RUNTIME, SA_IMM_ATTR_CACHED]\<rparr>]"

text \<open>\<open>strdup\<close> of the null pointer is the \<open>Wild\<close> below.\<close>

definition uint_def :: "string \<Rightarrow> imm_attr_def" where
  "uint_def n = \<lparr>defName = n, defType = SA_IMM_ATTR_SAUINT32T, defFlags = [SA_IMM_ATTR_RUNTIME, SA_IMM_ATTR_CACHED]\<rparr>"

definition prepareImmAttrDefinitions :: "imm_attr_def list rlp" where
  "prepareImmAttrDefinitions =
     bnd (gets CC) (\<lambda>c. bnd (gets strRlistBlockSize) (\<lambda>b. bnd (gets strRlistLastId) (\<lambda>l. bnd (gets strRlistNumElements) (\<lambda>n.
     case (b, l, n) of (Some b, Some l, Some n) \<Rightarrow>
       return [\<lparr>defName = RLIST_CLASS_RDN c, defType = SA_IMM_ATTR_SANAMET,
                 defFlags = [SA_IMM_ATTR_RUNTIME, SA_IMM_ATTR_RDN, SA_IMM_ATTR_CACHED]\<rparr>,
               uint_def b, uint_def l, uint_def n]
     | _ \<Rightarrow> die Wild))))"

definition searchclass :: "outside \<Rightarrow> string \<Rightarrow> MafReturnT rlp" where
  "searchclass E className =
     bnd (with_reset E (bnd (gets rplistImmHandle) (\<lambda>h. autoRetry_saImmOmClassDescriptionGet_2 E h className))) (\<lambda>r.
     case r of Inl rc \<Rightarrow> return rc
     | Inr (a, again) \<Rightarrow>
         if \<not> again \<and> a_rc a = SA_AIS_ERR_NOT_EXIST then return MafNotExist
         else if a_rc a \<noteq> SA_AIS_OK then return MafFailure
         else if again then return (maf_coremw_rc (a_rc a))
         else bnd (gets rplistImmHandle) (\<lambda>h.
           andthen (do_call E (SaImmOmClassDescriptionMemoryFree_2 h)) (return (maf_coremw_rc (a_rc a)))))"

definition SA_IMM_CLASS_RUNTIME :: nat where "SA_IMM_CLASS_RUNTIME = 2"

text \<open>After a successful second call the result is still that of the search: \<open>MafNotExist\<close>.\<close>

definition createclass :: "outside \<Rightarrow> string \<Rightarrow> bool \<Rightarrow> MafReturnT rlp" where
  "createclass E className createRunTimeClass =
     bnd (searchclass E className) (\<lambda>maf_rc.
     if maf_rc \<noteq> MafNotExist then return maf_rc
     else bnd (if createRunTimeClass then return prepareRTImmAttrDefinitions else prepareImmAttrDefinitions) (\<lambda>attrDef.
       bnd (with_reset E (bnd (gets rplistImmHandle) (\<lambda>h.
         autoRetry_saImmOmClassCreate_2 E h className SA_IMM_CLASS_RUNTIME attrDef))) (\<lambda>r.
       case r of Inl rc \<Rightarrow> return rc
       | Inr (a, again) \<Rightarrow>
           return (if a_rc a \<noteq> SA_AIS_OK then MafFailure else if again then maf_rc else MafOk))))"

definition deleteclass :: "outside \<Rightarrow> string \<Rightarrow> MafReturnT rlp" where
  "deleteclass E className =
     bnd (with_reset E (bnd (gets rplistImmHandle) (\<lambda>h. autoRetry_saImmOmClassDelete E h className))) (\<lambda>r.
     case r of Inl rc \<Rightarrow> return rc
     | Inr (a, again) \<Rightarrow> return (if a_rc a \<noteq> SA_AIS_OK then MafFailure else MafOk))"

section \<open>Objects\<close>

text \<open>An attribute whose name pointer is null makes the call one of the calls ending in \<open>Null\<close>.\<close>

definition createObject :: "outside \<Rightarrow> string \<Rightarrow> (string option \<times> imm_type \<times> imm_value) list \<Rightarrow> MafReturnT rlp" where
  "createObject E className attrs =
     bnd (with_reset E (bnd (gets rplistImmOiHandle) (\<lambda>h.
       if list_all (\<lambda>(n, ty, v). n \<noteq> None) attrs
       then autoRetry_saImmOiRtObjectCreate_2 E h className None
              (map (\<lambda>(n, ty, v). \<lparr>attrName = the n, attrValueType = ty, attrValues = [v]\<rparr>) attrs)
       else auto_retry E try_again (SaImmOiRtObjectCreateNull h className)))) (\<lambda>r.
     case r of Inl rc \<Rightarrow> return rc
     | Inr (a, again) \<Rightarrow> return (if a_rc a \<noteq> SA_AIS_OK \<and> a_rc a \<noteq> SA_AIS_ERR_EXIST then MafFailure
         else maf_coremw_rc (a_rc a)))"

definition readObject :: "outside \<Rightarrow> string option \<Rightarrow> (MafReturnT \<times> imm_attr list option) rlp" where
  "readObject E immObject =
     bnd (with_reset E (bnd (gets immAccessHandle) (\<lambda>h.
       case immObject of Some n \<Rightarrow> autoRetry_saImmOmAccessorGet_2 E h n []
       | None \<Rightarrow> auto_retry E try_again (SaImmOmAccessorGetNull h)))) (\<lambda>r.
     case r of Inl rc \<Rightarrow> return (rc, None)
     | Inr (a, again) \<Rightarrow>
         return (if a_rc a = SA_AIS_OK then (MafOk, a_attrs a)
                 else (if again then MafFailure else MafNotExist, None)))"

definition modifyObject :: "outside \<Rightarrow> string \<Rightarrow> imm_mod list \<Rightarrow> MafReturnT rlp" where
  "modifyObject E objectName mods =
     bnd (with_reset E (bnd (gets rplistImmOiHandle) (\<lambda>h. autoRetry_saImmOiRtObjectUpdate_2 E h objectName mods))) (\<lambda>r.
     case r of Inl rc \<Rightarrow> return rc
     | Inr (a, again) \<Rightarrow> return (if a_rc a = SA_AIS_OK then MafOk
         else if again \<and> a_rc a = SA_AIS_ERR_NOT_EXIST then MafNotExist else MafFailure))"

definition deleteObject :: "outside \<Rightarrow> string \<Rightarrow> MafReturnT rlp" where
  "deleteObject E objectName =
     bnd (with_reset E (bnd (gets rplistImmOiHandle) (\<lambda>h. autoRetry_saImmOiRtObjectDelete E h objectName))) (\<lambda>r.
     case r of Inl rc \<Rightarrow> return rc
     | Inr (a, again) \<Rightarrow> return (if a_rc a \<noteq> SA_AIS_OK then MafFailure else MafOk))"

definition setObjectUiAttribute :: "outside \<Rightarrow> string \<Rightarrow> string option \<Rightarrow> 32 word \<Rightarrow> MafReturnT rlp" where
  "setObjectUiAttribute E className name attrValue =
     bnd (classToObj className) (\<lambda>objectName.
     bnd (with_reset E (bnd (gets rplistImmOiHandle) (\<lambda>h.
       case name of Some an \<Rightarrow> autoRetry_saImmOiRtObjectUpdate_2 E h objectName [allocateUint32AttrMod an attrValue]
       | None \<Rightarrow> auto_retry E try_again (SaImmOiRtObjectUpdateNull h objectName)))) (\<lambda>r.
     case r of Inl rc \<Rightarrow> return rc
     | Inr (a, again) \<Rightarrow> return (if a_rc a \<noteq> SA_AIS_OK then MafFailure else MafOk)))"

text \<open>
  The attribute array is searched for the name; a value of another type than the one declared
  would be read through a pointer of the wrong type.
\<close>

definition ui_value :: "imm_attr list \<Rightarrow> string option \<Rightarrow> 32 word \<Rightarrow> 32 word rlp" where
  "ui_value attrs name v = (case name of None \<Rightarrow> die Wild
     | Some an \<Rightarrow> (case find (\<lambda>a. attrName a = an) attrs of None \<Rightarrow> return v
        | Some a \<Rightarrow> (case (attrValueType a, attrValues a) of
            (SA_IMM_ATTR_SAUINT32T, VUint32 x # vs) \<Rightarrow> return x
          | (SA_IMM_ATTR_SAUINT32T, y # vs) \<Rightarrow> die Wild
          | _ \<Rightarrow> return v)))"

text \<open>At most three attempts; \<open>v\<close> is what the caller's variable holds.\<close>

primrec ui_attempts :: "nat \<Rightarrow> outside \<Rightarrow> string \<Rightarrow> string option \<Rightarrow> 32 word \<Rightarrow> (MafReturnT \<times> 32 word) rlp" where
  "ui_attempts 0 E className name v = return (MafOk, v)"
| "ui_attempts (Suc n) E className name v =
     bnd (classToObj className) (\<lambda>objName. bnd (readObject E (Some objName)) (\<lambda>(maf_rc, attrs).
     if maf_rc \<noteq> MafOk then return (maf_rc, v)
     else case attrs of None \<Rightarrow> ui_attempts n E className name v
     | Some as \<Rightarrow>
         if as = [] then ui_attempts n E className name v
         else if attrValues (hd as) = [] then bnd (reset_rplistImmOiHandle E) (\<lambda>rc.
           if rc \<noteq> MafOk then return (rc, v) else ui_attempts n E className name v)
         else bnd (ui_value as name v) (\<lambda>v. return (MafOk, v))))"

definition getObjectUiAttribute :: "outside \<Rightarrow> string \<Rightarrow> string option \<Rightarrow> 32 word \<Rightarrow> (MafReturnT \<times> 32 word) rlp" where
  "getObjectUiAttribute E className name v = ui_attempts 3 E className name v"

text \<open>The three numbers the object of a list holds.\<close>

definition get_num :: "outside \<Rightarrow> string \<Rightarrow> 32 word \<Rightarrow> (MafReturnT \<times> 32 word) rlp" where
  "get_num E l v = bnd (gets strRlistNumElements) (\<lambda>n. getObjectUiAttribute E l n v)"

definition get_last :: "outside \<Rightarrow> string \<Rightarrow> 32 word \<Rightarrow> (MafReturnT \<times> 32 word) rlp" where
  "get_last E l v = bnd (gets strRlistLastId) (\<lambda>n. getObjectUiAttribute E l n v)"

definition get_block :: "outside \<Rightarrow> string \<Rightarrow> 32 word \<Rightarrow> (MafReturnT \<times> 32 word) rlp" where
  "get_block E l v = bnd (gets strRlistBlockSize) (\<lambda>n. getObjectUiAttribute E l n v)"

definition set_num :: "outside \<Rightarrow> string \<Rightarrow> 32 word \<Rightarrow> MafReturnT rlp" where
  "set_num E l v = bnd (gets strRlistNumElements) (\<lambda>n. setObjectUiAttribute E l n v)"

definition set_last :: "outside \<Rightarrow> string \<Rightarrow> 32 word \<Rightarrow> MafReturnT rlp" where
  "set_last E l v = bnd (gets strRlistLastId) (\<lambda>n. setObjectUiAttribute E l n v)"

section \<open>Objects that hold items\<close>

text \<open>
  The size of an item is read again while it was not found: after a pause, at most 5 times.  Two
  of the callers stop when a signal interrupts the pause (\<open>stop\<close>).
\<close>

primrec block_size :: "nat \<Rightarrow> outside \<Rightarrow> bool \<Rightarrow> string \<Rightarrow> 32 word \<Rightarrow> (MafReturnT \<times> 32 word) rlp" where
  "block_size 0 E stop className v = get_block E className v"
| "block_size (Suc n) E stop className v =
     bnd (get_block E className v) (\<lambda>(rc, v).
     if v = UINT_MAX \<and> rc = MafOk then
       bnd (call E (SleepSec RPLIST_RETRY_SLEEP_SECOND)) (\<lambda>a.
       if stop \<and> a_num a \<noteq> 0 then return (rc, v) else block_size n E stop className v)
     else return (rc, v))"

definition item_length :: "outside \<Rightarrow> string \<Rightarrow> string option \<Rightarrow> (MafReturnT + 32 word) rlp" where
  "item_length E pClassName buffer =
     (if pClassName = FM_STATUS_SECTION then
        bnd (block_size RPLIST_MAX_RETRIES E True pClassName UINT_MAX) (\<lambda>(rc, len).
        return (if rc = MafOk \<and> len \<noteq> UINT_MAX then Inr len else Inl MafNotExist))
      else bnd (strlen buffer) (\<lambda>len. return (Inr len)))"

definition addRlistRTObject :: "outside \<Rightarrow> string \<Rightarrow> 32 word \<Rightarrow> string option \<Rightarrow> MafReturnT rlp" where
  "addRlistRTObject E pClassName lastId newItemDataBuffer =
     bnd (item_length E pClassName newItemDataBuffer) (\<lambda>r. case r of Inl rc \<Rightarrow> return rc
     | Inr dataBufLen \<Rightarrow>
         bnd (saNameSet (getRTObject pClassName lastId)) (\<lambda>rdn.
         bnd (read_bytes newItemDataBuffer (unat dataBufLen)) (\<lambda>bytes.
         createObject E (pClassName @ sRuntimeIMMSuffix)
           [(Some sSaRlistRTdn, SA_IMM_ATTR_SANAMET, VName rdn), (Some sData, SA_IMM_ATTR_SAANYT, VBytes bytes)])))"

definition modifyRlistRTObject :: "outside \<Rightarrow> string \<Rightarrow> string \<Rightarrow> string option \<Rightarrow> MafReturnT rlp" where
  "modifyRlistRTObject E pClassName lastId newItemDataBuffer =
     bnd (item_length E pClassName newItemDataBuffer) (\<lambda>r. case r of Inl rc \<Rightarrow> return rc
     | Inr dataBufLen \<Rightarrow>
         bnd (convertToRTObjectName pClassName lastId) (\<lambda>(rc, immObject). case immObject of None \<Rightarrow> return rc
         | Some obj \<Rightarrow>
             bnd (read_bytes newItemDataBuffer (unat dataBufLen)) (\<lambda>bytes.
             modifyObject E obj [\<lparr>modType = SA_IMM_ATTR_VALUES_REPLACE,
               modAttr = \<lparr>attrName = sData, attrValueType = SA_IMM_ATTR_SAANYT, attrValues = [VBytes bytes]\<rparr>\<rparr>])))"

definition deleteRTObject :: "outside \<Rightarrow> string \<Rightarrow> string \<Rightarrow> MafReturnT rlp" where
  "deleteRTObject E listInstanceName listItemName =
     bnd (convertToRTObjectName listInstanceName listItemName) (\<lambda>(rc, immObject). case immObject of
       None \<Rightarrow> return MafNoResources
     | Some obj \<Rightarrow> bnd (deleteObject E obj) (\<lambda>rc. return (if rc \<noteq> MafOk then MafNotExist else rc)))"

text \<open>
  All objects of the class of the items, found by a search below the root for the class name.
\<close>

definition SA_IMM_ATTR_CLASS_NAME :: string where "SA_IMM_ATTR_CLASS_NAME = ''SaImmAttrClassName''"
definition SA_IMM_SUBLEVEL :: nat where "SA_IMM_SUBLEVEL = 2"
definition search_options :: nat where "search_options = 0x0201"

definition getAllRTObjects :: "outside \<Rightarrow> string \<Rightarrow> (MafReturnT \<times> string list) rlp" where
  "getAllRTObjects E className =
     bnd (gets rplistImmHandle) (\<lambda>h.
     bnd (autoRetry_saImmOmSearchInitialize_2 E h None SA_IMM_SUBLEVEL search_options
        (Some \<lparr>attrName = SA_IMM_ATTR_CLASS_NAME, attrValueType = SA_IMM_ATTR_SASTRINGT,
           attrValues = [VString (className @ sRuntimeIMMSuffix)]\<rparr>) []) (\<lambda>s.
     if a_rc s \<noteq> SA_AIS_OK then return (MafNotExist, [])
     else bnd (autoRetry_saImmOmSearchNext_2 E (a_handle s)) (\<lambda>a.
       bnd (while_prog (\<lambda>(a, ns). a_rc a = SA_AIS_OK)
              (\<lambda>(a, ns). bnd (autoRetry_saImmOmSearchNext_2 E (a_handle s)) (\<lambda>b.
                 return (b, ns @ [case a_text a of None \<Rightarrow> [] | Some n \<Rightarrow> n])))
              (a, [])) (\<lambda>(a, ns).
       bnd (autoRetry_saImmOmSearchFinalize E (a_handle s)) (\<lambda>f. return (MafOk, ns))))))"

definition getRTObjectsCount :: "outside \<Rightarrow> string \<Rightarrow> (MafReturnT \<times> 32 word) rlp" where
  "getRTObjectsCount E className =
     bnd (getAllRTObjects E className) (\<lambda>(retVal, immRTObjects). return (retVal, of_nat (length immRTObjects)))"

primrec delete_objects :: "outside \<Rightarrow> MafReturnT \<Rightarrow> string list \<Rightarrow> MafReturnT rlp" where
  "delete_objects E retVal [] = return retVal"
| "delete_objects E retVal (n # ns) =
     bnd (saNameSet n) (\<lambda>immObject. bnd (deleteObject E immObject) (\<lambda>retVal.
     if retVal \<noteq> MafOk then return retVal else delete_objects E retVal ns))"

definition deleteAllRTObjects :: "outside \<Rightarrow> string \<Rightarrow> MafReturnT rlp" where
  "deleteAllRTObjects E className =
     bnd (getAllRTObjects E className) (\<lambda>(retVal, immRTObjects). delete_objects E retVal immRTObjects)"

text \<open>
  \<open>getVoidData\<close> clears \<open>dataLen\<close> bytes of the caller's buffer and then copies all bytes of the
  object to it, however many they are.  A size of 32 bits or more is refused.
\<close>

definition write_bytes :: "string \<Rightarrow> string \<Rightarrow> string rlp" where
  "write_bytes buf bytes = (if length bytes \<le> length buf then return (bytes @ drop (length bytes) buf) else die Overflow)"

definition getVoidData :: "imm_attr list option \<Rightarrow> string \<Rightarrow> 32 word \<Rightarrow> (MafReturnT \<times> string) rlp" where
  "getVoidData attrVal data dataLen = (case attrVal of None \<Rightarrow> return (MafInvalidArgument, data)
     | Some as \<Rightarrow> (case find (\<lambda>a. attrName a = sData) as of None \<Rightarrow> return (MafInvalidArgument, data)
        | Some a \<Rightarrow> (case attrValues a of
            VBytes bytes # vs \<Rightarrow>
              if length bytes < 2 ^ 32 - 1 then
                bnd (write_bytes data (replicate (unat dataLen) (CHR 0x00))) (\<lambda>data.
                bnd (write_bytes data bytes) (\<lambda>data. return (MafOk, data)))
              else return (MafInvalidArgument, data)
          | _ \<Rightarrow> die Wild)))"

end
