(* ===== verification/RlFiles.thy ===== *)
theory RlFiles
  imports RlWorld
begin

text \<open>
  The replicated list (\<open>rlist/ComSARlist_imm.cc\<close>), part 2: its files.  The items of list \<open>l\<close> are
  the files \<open>n.bin\<close> of one directory below the clear storage area, whose path a command prints.
  Each path is built in a buffer of 256 bytes.
\<close>

section \<open>Paths\<close>

definition strRpListPath :: string where "strRpListPath = ''rplist/''"
definition strBin :: string where "strBin = ''.bin''"

text \<open>
  The result and what is written to \<open>strPath\<close> (\<open>utils/saname_utils.cc\<close>).  The last character of
  the line is dropped; if the line is empty the loop that copies it does not end in time.
\<close>

definition getClearStorage :: "outside \<Rightarrow> (bool \<times> string option) rlp" where
  "getClearStorage E = bnd (gets cc) (\<lambda>compName.
     bnd (call E (Popen (compName @ ''sa_pso getPath clear''))) (\<lambda>dirPath.
     if a_num dirPath = 0 then return (False, None)
     else bnd (call E (Fgets MAX_PATH_DATA_LENGTH)) (\<lambda>r. case a_text r of
         None \<Rightarrow> andthen (do_call E Pclose) (return (False, None))
       | Some tempPath \<Rightarrow> bnd (call E Pclose) (\<lambda>p.
           if a_num p \<noteq> 0 then return (False, None)
           else if tempPath = [] then die Overflow
           else return (True, Some (butlast tempPath))))))"

text \<open>The result of \<open>getClearStorage\<close> is ignored.\<close>

definition getBaseRepository :: "outside \<Rightarrow> MafReturnT rlp" where
  "getBaseRepository E = bnd (gets pathToStorageDirectory) (\<lambda>p.
     if p \<noteq> [] then return MafOk
     else bnd (getClearStorage E) (\<lambda>(ok, path).
       andthen (case path of None \<Rightarrow> return () | Some s \<Rightarrow> modify (\<lambda>w. w\<lparr>pathToStorageDirectory := s\<rparr>))
         (return MafOk)))"

text \<open>
  \<open>createPath\<close> looks at the last character before it adds a separator, so an empty first part
  makes it read before the buffer (\<open>None\<close>).
\<close>

fun join_path :: "string \<Rightarrow> string list \<Rightarrow> string option" where
  "join_path filePath [] = Some filePath"
| "join_path filePath (s # ss) =
     (if filePath = [] then None
      else join_path ((if last filePath \<noteq> CHR ''/'' then filePath @ ''/'' else filePath) @ s) ss)"

definition createPath :: "string list \<Rightarrow> string option \<Rightarrow> string rlp" where
  "createPath pathArray fileName = (case pathArray of [] \<Rightarrow> die Wild
     | s # ss \<Rightarrow> (case join_path s (ss @ (case fileName of None \<Rightarrow> [] | Some f \<Rightarrow> [f])) of
         None \<Rightarrow> die Wild
       | Some p \<Rightarrow> if length p < MAX_PATH_DATA_LENGTH then return p else die Overflow))"

text \<open>The directory of a list, as most functions build it.\<close>

definition listDir :: "string \<Rightarrow> string rlp" where
  "listDir subDir = bnd (gets pathToStorageDirectory) (\<lambda>base. bnd (gets cc) (\<lambda>c.
     createPath [base, COMSA_FOR_COREMW_DIR c, strRpListPath, subDir] None))"

text \<open>
  \<open>createDir\<close> stores a fifth string in an array of four pointers: it goes on as meant only if the
  word behind the array is not used (\<open>slack\<close>).  It looks for a file with the name of the whole
  command "mkdir -p ...".
\<close>

definition createDir :: "outside \<Rightarrow> string \<Rightarrow> string \<Rightarrow> MafReturnT rlp" where
  "createDir E dirName subDir = bnd (getBaseRepository E) (\<lambda>rc.
     if rc \<noteq> MafOk then return MafFailure
     else bnd (gets slack) (\<lambda>s. if \<not> s then die Overflow
     else bnd (gets pathToStorageDirectory) (\<lambda>base. bnd (gets cc) (\<lambda>c.
       bnd (createPath [''mkdir -p '', base, COMSA_FOR_COREMW_DIR c, subDir, dirName] None) (\<lambda>dir.
       bnd (call E (StatFile dir)) (\<lambda>st.
       if a_num st = 0 then return MafOk
       else bnd (call E (Popen dir)) (\<lambda>result.
         if a_num result = 0 then return MafFailure
         else andthen (do_call E Pclose) (return MafOk))))))))"

definition comsa_rplist_imm_getfullfilename :: "outside \<Rightarrow> string \<Rightarrow> string \<Rightarrow> string rlp" where
  "comsa_rplist_imm_getfullfilename E fileName subDir = bnd (getBaseRepository E) (\<lambda>rc.
     bnd (gets pathToStorageDirectory) (\<lambda>base. bnd (gets cc) (\<lambda>c.
     if length (fileName @ strBin) < MAX_PATH_DATA_LENGTH
     then createPath [base, COMSA_FOR_COREMW_DIR c, strRpListPath, subDir] (Some (fileName @ strBin))
     else die Overflow)))"

definition comsa_rplist_imm_getfullPath :: "outside \<Rightarrow> string \<Rightarrow> string rlp" where
  "comsa_rplist_imm_getfullPath E subDir = bnd (getBaseRepository E) (\<lambda>rc.
     bnd (gets pathToStorageDirectory) (\<lambda>base. bnd (gets cc) (\<lambda>c.
     let fullPath = base @ ''/'' @ COMSA_FOR_COREMW_DIR c @ ''/'' @ strRpListPath @ subDir in
     if length fullPath < MAX_PATH_DATA_LENGTH then return fullPath else die Overflow)))"

section \<open>Reading and writing\<close>

text \<open>\<open>dataSize\<close> is an \<open>int\<close>, extended to \<open>size_t\<close> in the calls; the counts are compared as \<open>int\<close>.\<close>

definition size_t :: "32 word \<Rightarrow> nat" where
  "size_t dataSize = unat (scast dataSize :: 64 word)"

definition writeToFile :: "outside \<Rightarrow> string \<Rightarrow> string \<Rightarrow> string option \<Rightarrow> 32 word \<Rightarrow> MafReturnT rlp" where
  "writeToFile E fileName subDir data dataSize =
     bnd (comsa_rplist_imm_getfullfilename E fileName subDir) (\<lambda>fullName.
     bnd (call E (FopenWb fullName)) (\<lambda>fp.
     if a_num fp = 0 then return MafFailure
     else bnd (read_bytes data (size_t dataSize)) (\<lambda>bytes.
       bnd (call E (Fwrite bytes)) (\<lambda>n.
       bnd (call E Fclose) (\<lambda>c.
       return (if a_num c \<noteq> 0 then MafFailure
               else if of_int (a_num n) \<noteq> dataSize then MafNoResources else MafOk))))))"

primrec write_attempts :: "nat \<Rightarrow> outside \<Rightarrow> string \<Rightarrow> string \<Rightarrow> string option \<Rightarrow> 32 word \<Rightarrow> MafReturnT rlp" where
  "write_attempts 0 E fileName subDir data dataSize = writeToFile E fileName subDir data dataSize"
| "write_attempts (Suc n) E fileName subDir data dataSize =
     bnd (writeToFile E fileName subDir data dataSize) (\<lambda>rc.
     if rc \<noteq> MafOk then andthen (do_call E (SleepSec RPLIST_RETRY_SLEEP_SECOND))
       (write_attempts n E fileName subDir data dataSize)
     else return rc)"

definition autoRetry_writeToFile :: "outside \<Rightarrow> string \<Rightarrow> string \<Rightarrow> string option \<Rightarrow> MafReturnT rlp" where
  "autoRetry_writeToFile E listName itemName replaceItemData =
     bnd (block_size RPLIST_MAX_RETRIES E False listName UINT_MAX) (\<lambda>(rc, itemDataSize).
     if rc = MafOk \<and> itemDataSize \<noteq> UINT_MAX
     then write_attempts RPLIST_MAX_RETRIES E itemName listName replaceItemData itemDataSize
     else return MafNotExist)"

definition readFromFile :: "outside \<Rightarrow> string \<Rightarrow> string \<Rightarrow> string \<Rightarrow> 32 word \<Rightarrow> (MafReturnT \<times> string) rlp" where
  "readFromFile E fileName subDir data dataSize =
     bnd (comsa_rplist_imm_getfullfilename E fileName subDir) (\<lambda>fullName.
     bnd (call E (FopenRb fullName)) (\<lambda>fp.
     if a_num fp = 0 then return (MafFailure, data)
     else bnd (call E (Fread (size_t dataSize))) (\<lambda>r.
       let bytes = take (size_t dataSize) (case a_text r of None \<Rightarrow> [] | Some s \<Rightarrow> s) in
       bnd (write_bytes data bytes) (\<lambda>data.
       bnd (call E Fclose) (\<lambda>c.
       return (if a_num c \<noteq> 0 \<or> of_nat (length bytes) \<noteq> dataSize then MafFailure else MafOk, data))))))"

primrec read_attempts :: "nat \<Rightarrow> outside \<Rightarrow> string \<Rightarrow> string \<Rightarrow> string \<Rightarrow> 32 word \<Rightarrow> (MafReturnT \<times> string) rlp" where
  "read_attempts 0 E fileName subDir data dataSize = readFromFile E fileName subDir data dataSize"
| "read_attempts (Suc n) E fileName subDir data dataSize =
     bnd (readFromFile E fileName subDir data dataSize) (\<lambda>(rc, data).
     if rc = MafFailure then andthen (do_call E (SleepSec RPLIST_RETRY_SLEEP_SECOND))
       (read_attempts n E fileName subDir data dataSize)
     else return (rc, data))"

definition autoRetry_readFromFile :: "outside \<Rightarrow> string \<Rightarrow> string \<Rightarrow> string \<Rightarrow> 32 word \<Rightarrow> (MafReturnT \<times> string) rlp" where
  "autoRetry_readFromFile E fileName subDir data dataSize =
     read_attempts RPLIST_MAX_RETRIES E fileName subDir data dataSize"

definition findFile :: "outside \<Rightarrow> string \<Rightarrow> string \<Rightarrow> MafReturnT rlp" where
  "findFile E fileName subDir =
     bnd (comsa_rplist_imm_getfullfilename E fileName subDir) (\<lambda>fullName.
     bnd (call E (StatFile fullName)) (\<lambda>st. return (if a_num st = 0 then MafOk else MafNotExist)))"

definition removeFile :: "outside \<Rightarrow> string \<Rightarrow> string \<Rightarrow> MafReturnT rlp" where
  "removeFile E fileName subDir =
     bnd (comsa_rplist_imm_getfullfilename E fileName subDir) (\<lambda>fullName.
     bnd (call E (RemoveFile fullName)) (\<lambda>r. return (if a_num r \<noteq> 0 then MafFailure else MafOk)))"

section \<open>Directories\<close>

text \<open>\<open>strcmp\<close> as the difference of the first two bytes that differ.\<close>

fun strcmp :: "string \<Rightarrow> string \<Rightarrow> int" where
  "strcmp [] [] = 0"
| "strcmp (a # as) [] = of_char a"
| "strcmp [] (b # bs) = - of_char b"
| "strcmp (a # as) (b # bs) = (if a = b then strcmp as bs else of_char a - of_char b)"

text \<open>The names "." and ".." are skipped by a bitwise "and" of two comparisons.\<close>

definition remove_entries :: "outside \<Rightarrow> string \<Rightarrow> bool \<times> MafReturnT \<Rightarrow> (bool \<times> MafReturnT) rlp" where
  "remove_entries E dirName = (\<lambda>(more, maf_rc).
     bnd (call E Readdir) (\<lambda>e. case a_text e of None \<Rightarrow> return (False, maf_rc)
     | Some d_name \<Rightarrow>
         bnd (createPath [dirName] (Some d_name)) (\<lambda>fileName.
         if strcmp d_name ''.'' AND strcmp d_name ''..'' \<noteq> 0 then
           bnd (call E (RemoveFile fileName)) (\<lambda>r.
           return (if a_num r = 0 then (True, maf_rc) else (False, MafFailure)))
         else return (True, maf_rc))))"

definition comsa_rplist_imm_removeAllFiles :: "outside \<Rightarrow> string \<Rightarrow> MafReturnT rlp" where
  "comsa_rplist_imm_removeAllFiles E subDir = bnd (getBaseRepository E) (\<lambda>rc.
     if rc \<noteq> MafOk then return MafFailure
     else bnd (listDir subDir) (\<lambda>dirName.
       bnd (call E (StatFile dirName)) (\<lambda>st.
       if a_num st \<noteq> 0 then return MafOk
       else bnd (call E (Opendir dirName)) (\<lambda>d.
         if a_num d = 0 then return MafFailure
         else bnd (while_prog (\<lambda>(more, rc). more) (remove_entries E dirName) (True, MafOk)) (\<lambda>(more, maf_rc).
           andthen (do_call E Closedir) (return maf_rc))))))"

definition comsa_rplist_imm_deleteDir :: "outside \<Rightarrow> string \<Rightarrow> MafReturnT rlp" where
  "comsa_rplist_imm_deleteDir E subDir =
     bnd (listDir subDir) (\<lambda>dirName.
     bnd (call E (StatFile dirName)) (\<lambda>st.
     if a_num st \<noteq> 0 then return MafOk
     else bnd (call E (Rmdir dirName)) (\<lambda>r. return (if a_num r = 0 then MafOk else MafFailure))))"

section \<open>The number of items\<close>

definition listGetSize :: "outside \<Rightarrow> MafMwSpiListNameT option \<Rightarrow> (MafReturnT \<times> 32 word option) rlp" where
  "listGetSize E listInstanceName = (case listInstanceName of None \<Rightarrow> return (MafNotExist, None)
     | Some l \<Rightarrow>
         if \<not> validateName (Some l) then return (MafNotExist, None)
         else bnd (get_num E (name_value l) 0) (\<lambda>(maf_rc, nListSize).
           return (if maf_rc = MafOk then (MafOk, Some nListSize) else (MafNotExist, None))))"

text \<open>\<open>atoi\<close> and \<open>atol\<close>; numbers too large for the type are not covered by the C standard.\<close>

definition isspace :: "char \<Rightarrow> bool" where
  "isspace c \<longleftrightarrow> c = CHR '' '' \<or> (9 \<le> (of_char c :: nat) \<and> (of_char c :: nat) \<le> 13)"

definition atoi :: "string \<Rightarrow> int" where
  "atoi s = (case dropWhile isspace s of [] \<Rightarrow> 0
     | c # ds \<Rightarrow> if c = CHR ''-'' then - int (digits_value 10 (takeWhile isdigit ds))
        else if c = CHR ''+'' then int (digits_value 10 (takeWhile isdigit ds))
        else int (digits_value 10 (takeWhile isdigit (c # ds))))"

primrec popen_attempts :: "nat \<Rightarrow> outside \<Rightarrow> string \<Rightarrow> bool rlp" where
  "popen_attempts 0 E cmd = bnd (call E (Popen cmd)) (\<lambda>f. return (a_num f \<noteq> 0))"
| "popen_attempts (Suc n) E cmd = bnd (call E (Popen cmd)) (\<lambda>f.
     if a_num f \<noteq> 0 then return True
     else andthen (do_call E (SleepSec RPLIST_RETRY_SLEEP_SECOND)) (popen_attempts n E cmd))"

text \<open>
  The files are counted by a shell command.  If it prints nothing, the number is taken from a
  buffer that was never written.
\<close>

definition count_files :: "outside \<Rightarrow> string \<Rightarrow> (MafReturnT + 32 word) rlp" where
  "count_files E dirName =
     (let cmd = ''ls '' @ dirName @ '' | grep -c -i '' @ strBin in
      if MAX_PATH_DATA_LENGTH \<le> length cmd then die Overflow
      else bnd (popen_attempts RPLIST_MAX_RETRIES E cmd) (\<lambda>ok.
        if \<not> ok then return (Inl MafNotExist)
        else bnd (call E (Fgets MAX_PATH_DATA_LENGTH)) (\<lambda>r.
          bnd (call E Pclose) (\<lambda>p.
          if a_num p = -1 then return (Inl MafNotExist)
          else case a_text r of None \<Rightarrow> die Uninit | Some buff \<Rightarrow> return (Inr (of_int (atoi buff)))))))"

definition reset_numbers :: "outside \<Rightarrow> string \<Rightarrow> unit rlp" where
  "reset_numbers E className =
     bnd (set_num E className 0) (\<lambda>rc. bnd (set_last E className 0) (\<lambda>rc. return ()))"

definition validateImmData :: "outside \<Rightarrow> MafMwSpiListNameT \<Rightarrow> string \<Rightarrow> MafReturnT rlp" where
  "validateImmData E l dirName =
     bnd (listGetSize E (Some l)) (\<lambda>(maf_rc, size). case size of None \<Rightarrow> return MafNotExist
     | Some listSize \<Rightarrow>
         bnd (gets replicateInIMM) (\<lambda>imm.
         bnd (if \<not> imm then count_files E dirName
              else bnd (getRTObjectsCount E (name_value l)) (\<lambda>(rc, n). return (if rc \<noteq> MafOk then Inl MafNotExist else Inr n))) (\<lambda>r.
         case r of Inl rc \<Rightarrow> return rc
         | Inr actualDataSize \<Rightarrow>
             if actualDataSize \<noteq> listSize then andthen (reset_numbers E (name_value l)) (return MafNotExist)
             else return MafOk)))"

section \<open>The state of the cluster\<close>

definition CLUSTER_RESTORED :: nat where "CLUSTER_RESTORED = 1"
definition CLUSTER_REBOOTED_ONLY :: nat where "CLUSTER_REBOOTED_ONLY = 2"
definition CLUSTER_RT_OBJ_EXIST :: nat where "CLUSTER_RT_OBJ_EXIST = 3"

text \<open>The result and the state found; the caller's variable starts at 0.\<close>

definition rt_object_state :: "outside \<Rightarrow> MafMwSpiListNameT \<Rightarrow> string \<Rightarrow> (MafReturnT \<times> nat) rlp" where
  "rt_object_state E l dirName =
     bnd (classToObj (name_value l)) (\<lambda>objName. bnd (readObject E (Some objName)) (\<lambda>(maf_rc, attrs).
     if maf_rc = MafNotExist then return (maf_rc, CLUSTER_REBOOTED_ONLY)
     else if maf_rc = MafOk then
       bnd (validateImmData E l dirName) (\<lambda>rc. return (rc, CLUSTER_RT_OBJ_EXIST))
     else return (maf_rc, 0)))"

definition detectClusterState :: "outside \<Rightarrow> MafMwSpiListNameT \<Rightarrow> (MafReturnT \<times> nat) rlp" where
  "detectClusterState E l = bnd (gets replicateInIMM) (\<lambda>imm.
     if \<not> imm then
       bnd (getBaseRepository E) (\<lambda>rc.
       if rc \<noteq> MafOk then return (MafFailure, 0)
       else bnd (listDir (name_value l)) (\<lambda>dirName.
         bnd (call E (StatFile dirName)) (\<lambda>st.
         if a_num st \<noteq> 0 then return (MafOk, CLUSTER_RESTORED)
         else rt_object_state E l dirName)))
     else rt_object_state E l [])"

text \<open>
  \<open>restore_immData\<close> counts the files of a list and finds the largest number among their names.
\<close>

definition is_bin :: "string \<Rightarrow> bool" where
  "is_bin d_name \<longleftrightarrow> 4 \<le> length d_name \<and> drop (length d_name - 4) d_name = strBin"

definition file_number :: "string \<Rightarrow> 32 word" where
  "file_number d_name = of_int (atoi (takeWhile (\<lambda>c. c \<noteq> CHR ''.'') (dropWhile (\<lambda>c. c = CHR ''.'') d_name)))"

definition count_entries :: "outside \<Rightarrow> bool \<times> 32 word \<times> 32 word \<Rightarrow> (bool \<times> 32 word \<times> 32 word) rlp" where
  "count_entries E = (\<lambda>(more, actualNumOfFiles, lastFile).
     bnd (call E Readdir) (\<lambda>e. case a_text e of None \<Rightarrow> return (False, actualNumOfFiles, lastFile)
     | Some d_name \<Rightarrow>
         if \<not> is_bin d_name then return (True, actualNumOfFiles, lastFile)
         else if MAX_PATH_DATA_LENGTH \<le> length d_name then die Overflow
         else return (True, actualNumOfFiles + 1,
           if file_number d_name > lastFile then file_number d_name else lastFile)))"

definition restore_immData :: "outside \<Rightarrow> MafMwSpiListNameT \<Rightarrow> MafReturnT rlp" where
  "restore_immData E l =
     bnd (listDir (name_value l)) (\<lambda>dirName.
     bnd (call E (Opendir dirName)) (\<lambda>d.
     bnd (if a_num d = 0 then return (MafFailure, 0, 0)
          else bnd (while_prog (\<lambda>(more, n, f). more) (count_entries E) (True, 0, 0)) (\<lambda>(more, n, f).
            andthen (do_call E Closedir) (return (MafOk, n, f)))) (\<lambda>(maf_rc, actualNumOfFiles, lastFile).
     if actualNumOfFiles > 0 then
       bnd (set_num E (name_value l) actualNumOfFiles) (\<lambda>rc.
       bnd (set_last E (name_value l) lastFile) (\<lambda>rc. return MafAlreadyExist))
     else return maf_rc)))"

end
