(* ===== verification/RlList.thy ===== *)
theory RlList
  imports RlFiles
begin

text \<open>
  The replicated list (\<open>rlist/ComSARlist_imm.cc\<close>), part 3: the operations of the interface.  An
  output parameter is a component of the result, \<open>None\<close> when the code does not assign it; pointers
  the code compares with \<open>NULL\<close> are options or, for a mere output, a truth value.
\<close>

section \<open>Creating, deleting and clearing\<close>

text \<open>The first step of \<open>listCreate\<close>: the class of the list, and that of its items.\<close>

definition create_classes :: "outside \<Rightarrow> string \<Rightarrow> bool rlp" where
  "create_classes E className =
     bnd (createclass E className False) (\<lambda>maf_rc.
     if maf_rc \<noteq> MafOk then return False
     else bnd (gets replicateInIMM) (\<lambda>imm.
       if imm then bnd (createclass E (className @ sRuntimeIMMSuffix) True) (\<lambda>maf_rc. return (maf_rc = MafOk))
       else return True))"

text \<open>The second step: what is left from before a reboot is removed.\<close>

definition remove_old_items :: "outside \<Rightarrow> string \<Rightarrow> unit rlp" where
  "remove_old_items E className =
     bnd (gets replicateInIMM) (\<lambda>imm. bnd (gets clearAlarmsOnClusterReboot) (\<lambda>clr.
     if imm then bnd (deleteAllRTObjects E className) (\<lambda>rc. return ())
     else if clr then bnd (comsa_rplist_imm_removeAllFiles E className) (\<lambda>rc. return ())
     else return ()))"

definition create_directories :: "outside \<Rightarrow> string \<Rightarrow> bool rlp" where
  "create_directories E className =
     bnd (createDir E ''rplist'' ''/'') (\<lambda>rc.
     if rc \<noteq> MafOk then return False
     else bnd (createDir E className strRpListPath) (\<lambda>rc. return (rc = MafOk)))"

definition create_list_object :: "outside \<Rightarrow> string \<Rightarrow> 32 word \<Rightarrow> MafReturnT rlp" where
  "create_list_object E className dataBufferSize =
     bnd (classToObj className) (\<lambda>rdnName. bnd (gets CC) (\<lambda>c.
     bnd (gets strRlistBlockSize) (\<lambda>b. bnd (gets strRlistLastId) (\<lambda>l. bnd (gets strRlistNumElements) (\<lambda>n.
     createObject E className
       [(b, SA_IMM_ATTR_SAUINT32T, VUint32 dataBufferSize), (l, SA_IMM_ATTR_SAUINT32T, VUint32 0),
        (n, SA_IMM_ATTR_SAUINT32T, VUint32 0), (Some (RLIST_CLASS_RDN c), SA_IMM_ATTR_SANAMET, VName rdnName)])))))"

definition listCreate :: "outside \<Rightarrow> MafMwSpiListNameT option \<Rightarrow> 32 word \<Rightarrow> MafReturnT rlp" where
  "listCreate E listInstanceName dataBufferSize =
     (case listInstanceName of None \<Rightarrow> return MafNoResources
      | Some l \<Rightarrow>
     if \<not> validateName (Some l) then return MafNoResources
     else bnd (gets rlist_maxsize) (\<lambda>mx. if ucast dataBufferSize > mx then return MafNoResources
     else bnd (create_classes E (name_value l)) (\<lambda>ok. if \<not> ok then return MafNoResources
     else bnd (detectClusterState E l) (\<lambda>(maf_rc, stateFlag).
       if maf_rc = MafOk \<and> stateFlag = CLUSTER_RT_OBJ_EXIST then return MafAlreadyExist
     else andthen (unless (maf_rc \<noteq> MafNotExist) (remove_old_items E (name_value l)))
    (bnd (gets replicateInIMM) (\<lambda>imm.
     bnd (if imm then return True else create_directories E (name_value l)) (\<lambda>ok. if \<not> ok then return MafNoResources
     else bnd (create_list_object E (name_value l) dataBufferSize) (\<lambda>maf_rc.
       if maf_rc \<noteq> MafOk \<and> maf_rc \<noteq> MafAlreadyExist then return MafNoResources
     else bnd (gets clearAlarmsOnClusterReboot) (\<lambda>clr.
       if \<not> imm \<and> \<not> clr then
         bnd (restore_immData E l) (\<lambda>maf_rc.
         return (if maf_rc = MafOk \<or> maf_rc = MafAlreadyExist then maf_rc else MafNoResources))
       else return MafOk)))))))))"

definition listDelete :: "outside \<Rightarrow> MafMwSpiListNameT option \<Rightarrow> MafReturnT rlp" where
  "listDelete E listInstanceName =
     (case listInstanceName of None \<Rightarrow> return MafNotExist
      | Some l \<Rightarrow>
     if \<not> validateName (Some l) then return MafNotExist
     else bnd (classToObj (name_value l)) (\<lambda>rdnName.
     bnd (deleteObject E rdnName) (\<lambda>rc. if rc \<noteq> MafOk then return MafNotExist
     else bnd (deleteclass E (name_value l)) (\<lambda>rc. if rc \<noteq> MafOk then return MafNotExist
     else bnd (gets replicateInIMM) (\<lambda>imm.
     if \<not> imm then
       bnd (comsa_rplist_imm_removeAllFiles E (name_value l)) (\<lambda>rc. if rc \<noteq> MafOk then return MafNotExist
       else bnd (comsa_rplist_imm_deleteDir E (name_value l)) (\<lambda>rc. return (if rc \<noteq> MafOk then MafNotExist else MafOk)))
     else
       bnd (deleteAllRTObjects E (name_value l)) (\<lambda>rc. if rc \<noteq> MafOk then return MafNotExist
       else bnd (deleteclass E (name_value l @ sRuntimeIMMSuffix)) (\<lambda>rc.
         return (if rc \<noteq> MafOk then MafNotExist else MafOk))))))))"

definition listClear :: "outside \<Rightarrow> MafMwSpiListNameT option \<Rightarrow> MafReturnT rlp" where
  "listClear E listInstanceName =
     (case listInstanceName of None \<Rightarrow> return MafNotExist
      | Some l \<Rightarrow>
     if \<not> validateName (Some l) then return MafNotExist
     else bnd (set_num E (name_value l) 0) (\<lambda>rc. if rc \<noteq> MafOk then return MafNotExist
     else bnd (gets replicateInIMM) (\<lambda>imm.
     bnd (if \<not> imm then comsa_rplist_imm_removeAllFiles E (name_value l)
          else deleteAllRTObjects E (name_value l)) (\<lambda>rc.
     return (if rc = MafOk then MafOk else MafNotExist)))))"

section \<open>Is the list empty?\<close>

text \<open>
  A count above 0 is checked against the directory: the first file of an item decides.  For the
  list \<open>FmStatusSection\<close> that file must not be empty; an empty one is removed.
\<close>

definition look_for_item :: "outside \<Rightarrow> string \<Rightarrow> string \<Rightarrow> bool \<times> bool \<Rightarrow> (bool \<times> bool) rlp" where
  "look_for_item E listName fullPath = (\<lambda>(more, isFolderEmpty).
     bnd (call E Readdir) (\<lambda>e. case a_text e of None \<Rightarrow> return (False, isFolderEmpty)
     | Some d_name \<Rightarrow>
         if \<not> is_bin d_name then return (True, isFolderEmpty)
         else if listName \<noteq> FM_STATUS_SECTION then return (False, False)
         else let fullName = (if last fullPath \<noteq> CHR ''/'' then fullPath @ ''/'' else fullPath) @ d_name in
           if MAX_PATH_DATA_LENGTH \<le> length fullName then die Overflow
           else bnd (call E (StatFile fullName)) (\<lambda>st.
             if a_num st \<noteq> 0 then return (False, False)
             else if fst (a_out st) = 0 then andthen (do_call E (RemoveFile fullName)) (return (False, isFolderEmpty))
             else return (False, False))))"

text \<open>\<open>None\<close>: the directory was missing and could not be created.\<close>

definition directory_is_empty :: "outside \<Rightarrow> string \<Rightarrow> bool option rlp" where
  "directory_is_empty E listName =
     bnd (comsa_rplist_imm_getfullPath E listName) (\<lambda>fullPath.
     bnd (call E (Opendir fullPath)) (\<lambda>pDir.
     if a_num pDir \<noteq> 0 then
       bnd (while_prog (\<lambda>(more, e). more) (look_for_item E listName fullPath) (True, True)) (\<lambda>(more, e).
       andthen (do_call E Closedir) (return (Some e)))
     else bnd (createDir E listName strRpListPath) (\<lambda>rc.
       return (if rc \<noteq> MafOk then None else Some True))))"

definition listIsEmpty :: "outside \<Rightarrow> MafMwSpiListNameT option \<Rightarrow> (MafReturnT \<times> bool option) rlp" where
  "listIsEmpty E listInstanceName =
     (case listInstanceName of None \<Rightarrow> return (MafNotExist, None)
      | Some l \<Rightarrow>
     if \<not> validateName (Some l) then return (MafNotExist, None)
     else bnd (get_num E (name_value l) 0) (\<lambda>(maf_rc, nNumElements).
     if maf_rc \<noteq> MafOk then return (MafNotExist, None)
     else if nNumElements = 0 then return (MafOk, Some True)
     else bnd (gets replicateInIMM) (\<lambda>imm.
     if \<not> imm then
       bnd (directory_is_empty E (name_value l)) (\<lambda>r. case r of
         None \<Rightarrow> return (MafNoResources, Some True)
       | Some e \<Rightarrow> andthen (unless (\<not> e) (reset_numbers E (name_value l))) (return (MafOk, Some e)))
     else if name_value l = FM_STATUS_SECTION then
       bnd (classToObj (name_value l @ sRuntimeIMMSuffix)) (\<lambda>objName.
       bnd (readObject E (Some objName)) (\<lambda>(maf_rc, attrs).
       andthen (unless (maf_rc \<noteq> MafNotExist) (reset_numbers E (name_value l))) (return (MafOk, Some False))))
     else return (MafOk, Some False))))"

section \<open>Adding and removing items\<close>

text \<open>\<open>None\<close>: the directory was missing and could not be created; else whether it was there.\<close>

definition path_exists :: "outside \<Rightarrow> string \<Rightarrow> bool option rlp" where
  "path_exists E listName = bnd (gets replicateInIMM) (\<lambda>imm.
     if imm then return (Some True)
     else bnd (comsa_rplist_imm_getfullPath E listName) (\<lambda>fullPath.
       bnd (call E (Opendir fullPath)) (\<lambda>pDir.
       if a_num pDir \<noteq> 0 then andthen (do_call E Closedir) (return (Some True))
       else bnd (createDir E listName strRpListPath) (\<lambda>rc.
         if rc \<noteq> MafOk then return None
         else andthen (reset_numbers E listName) (return (Some False))))))"

text \<open>The last item number and the number of items; both are 0 when the directory was created anew.\<close>

definition list_numbers :: "outside \<Rightarrow> string \<Rightarrow> bool \<Rightarrow> (32 word \<times> 32 word) option rlp" where
  "list_numbers E listName pathExist =
     (if \<not> pathExist then return (Some (0, 0))
      else bnd (get_last E listName 0) (\<lambda>(maf_rc, lastId). if maf_rc \<noteq> MafOk then return None
      else bnd (get_num E listName 0) (\<lambda>(maf_rc, numItems).
        return (if maf_rc \<noteq> MafOk then None else Some (lastId, numItems)))))"

definition item_name :: "32 word \<Rightarrow> MafMwSpiListNameT" where
  "item_name n = \<lparr>name_length = of_nat (length (decimal (unat n))), name_value = decimal (unat n)\<rparr>"

definition store_item :: "outside \<Rightarrow> string \<Rightarrow> 32 word \<Rightarrow> string option \<Rightarrow> MafReturnT rlp" where
  "store_item E listName lastId newItemDataBuffer = bnd (gets replicateInIMM) (\<lambda>imm.
     if \<not> imm then
       bnd (autoRetry_writeToFile E listName (decimal (unat lastId)) newItemDataBuffer) (\<lambda>maf_rc.
       andthen (unless (maf_rc = MafOk) (bnd (removeFile E (decimal (unat lastId)) listName) (\<lambda>rc. return ())))
         (return maf_rc))
     else
       bnd (addRlistRTObject E listName lastId newItemDataBuffer) (\<lambda>maf_rc.
       if maf_rc = MafAlreadyExist then modifyRlistRTObject E listName (decimal (unat lastId)) newItemDataBuffer
       else return maf_rc))"

text \<open>
  The result and the item name.  The test against \<open>ULONG_MAX\<close> compares a 32 bit number with a 64
  bit one.
\<close>

definition ULONG_MAX :: "64 word" where "ULONG_MAX = - 1"

definition listPushBack :: "outside \<Rightarrow> MafMwSpiListNameT option \<Rightarrow> bool \<Rightarrow> string option \<Rightarrow>
    (MafReturnT \<times> MafMwSpiListNameT option) rlp" where
  "listPushBack E listInstanceName nameGiven newItemDataBuffer =
     (case listInstanceName of None \<Rightarrow> return (MafNotExist, None)
      | Some l \<Rightarrow>
     if \<not> validateName (Some l) \<or> newItemDataBuffer = None then return (MafNotExist, None)
     else bnd (path_exists E (name_value l)) (\<lambda>p. case p of None \<Rightarrow> return (MafNoResources, None)
     | Some pathExist \<Rightarrow>
     bnd (list_numbers E (name_value l) pathExist) (\<lambda>nums. case nums of None \<Rightarrow> return (MafNotExist, None)
     | Some (lastId, numItems) \<Rightarrow>
     if \<not> nameGiven then return (MafInvalidArgument, None)
     else if ucast (lastId + 1) = ULONG_MAX then return (MafNoResources, None)
     else bnd (store_item E (name_value l) (lastId + 1) newItemDataBuffer) (\<lambda>maf_rc.
     if maf_rc \<noteq> MafOk then return (MafNoResources, Some (item_name (lastId + 1)))
     else bnd (set_num E (name_value l) (numItems + 1)) (\<lambda>maf_rc.
     if maf_rc \<noteq> MafOk then return (MafNotExist, Some (item_name (lastId + 1)))
     else bnd (set_last E (name_value l) (lastId + 1)) (\<lambda>maf_rc.
     return (if maf_rc \<noteq> MafOk then MafNotExist else MafOk, Some (item_name (lastId + 1)))))))))"

text \<open>
  One item less: the new number, \<open>None\<close> if the object could not be read or written.  The numbers are
  unsigned, so the tests "not below 0" around this step hold always.
\<close>

definition decrement_items :: "outside \<Rightarrow> string \<Rightarrow> 32 word option rlp" where
  "decrement_items E listName =
     bnd (get_num E listName 0) (\<lambda>(rc, numItems). if rc \<noteq> MafOk then return None
     else bnd (set_num E listName (numItems - 1)) (\<lambda>rc.
       return (if rc \<noteq> MafOk then None else Some (numItems - 1))))"

definition remove_item_file :: "outside \<Rightarrow> string \<Rightarrow> string \<Rightarrow> bool rlp" where
  "remove_item_file E listName itemName =
     bnd (findFile E itemName listName) (\<lambda>rc. if rc \<noteq> MafOk then return False
     else bnd (removeFile E itemName listName) (\<lambda>rc. return (rc = MafOk)))"

text \<open>The search for the item that is last now: \<open>(found, nLastId)\<close>.\<close>

definition previous_item :: "outside \<Rightarrow> string \<Rightarrow> bool \<times> 32 word \<Rightarrow> (bool \<times> 32 word) rlp" where
  "previous_item E listName = (\<lambda>(found, n). bnd (gets replicateInIMM) (\<lambda>imm.
     if imm then bnd (convertToRTObjectName listName (decimal (unat (n - 1)))) (\<lambda>(rc, immObject).
       bnd (readObject E immObject) (\<lambda>(rc, attrs). return (rc = MafOk, n - 1)))
     else bnd (findFile E (decimal (unat (n - 1))) listName) (\<lambda>rc. return (rc = MafOk, n - 1))))"

definition listPopBack :: "outside \<Rightarrow> MafMwSpiListNameT option \<Rightarrow> MafReturnT rlp" where
  "listPopBack E listInstanceName =
     (case listInstanceName of None \<Rightarrow> return MafNotExist
      | Some l \<Rightarrow>
     if \<not> validateName (Some l) then return MafNotExist
     else bnd (get_last E (name_value l) 0) (\<lambda>(rc, nLastId). if rc \<noteq> MafOk then return MafNotExist
     else bnd (gets replicateInIMM) (\<lambda>imm.
     bnd (if \<not> imm then remove_item_file E (name_value l) (decimal (unat nLastId))
          else bnd (deleteRTObject E (name_value l) (decimal (unat nLastId))) (\<lambda>rc. return (rc = MafOk))) (\<lambda>ok.
     if \<not> ok then return MafNotExist
     else bnd (decrement_items E (name_value l)) (\<lambda>n. case n of None \<Rightarrow> return MafNotExist
     | Some numItems \<Rightarrow>
         bnd (while_prog (\<lambda>(found, n). \<not> found \<and> 0 < n) (previous_item E (name_value l)) (False, nLastId)) (\<lambda>(found, n).
         bnd (set_last E (name_value l) n) (\<lambda>rc.
         return (if rc \<noteq> MafOk then MafNotExist else MafOk))))))))"

text \<open>For an object, only \<open>MafNotExist\<close> counts as a failure.\<close>

definition listEraseItem :: "outside \<Rightarrow> MafMwSpiListNameT option \<Rightarrow> MafMwSpiListNameT option \<Rightarrow> MafReturnT rlp" where
  "listEraseItem E listInstanceName listItemName =
     (case (listInstanceName, listItemName) of (Some l, Some i) \<Rightarrow>
     if \<not> validateName (Some l) \<or> \<not> validateName (Some i) then return MafNotExist
     else bnd (gets replicateInIMM) (\<lambda>imm.
     bnd (if \<not> imm then remove_item_file E (name_value l) (name_value i)
          else bnd (deleteRTObject E (name_value l) (name_value i)) (\<lambda>rc. return (rc \<noteq> MafNotExist))) (\<lambda>ok.
     if \<not> ok then return MafNotExist
     else bnd (decrement_items E (name_value l)) (\<lambda>n. return (if n = None then MafNotExist else MafOk))))
      | _ \<Rightarrow> return MafNotExist)"

section \<open>Iterating\<close>

text \<open>
  The result and what is assigned to the reference: \<open>None\<close> nothing, \<open>Some None\<close> the null pointer.
\<close>

definition listGetFrontRef :: "outside \<Rightarrow> MafMwSpiListNameT option \<Rightarrow> bool \<Rightarrow> (MafReturnT \<times> nat option option) rlp" where
  "listGetFrontRef E listInstanceName refGiven =
     (case listInstanceName of None \<Rightarrow> return (MafNotExist, None)
      | Some l \<Rightarrow>
     if \<not> validateName (Some l) \<or> \<not> refGiven then return (MafNotExist, None)
     else bnd (listGetSize E (Some l)) (\<lambda>(rc, size). case size of None \<Rightarrow> return (MafNotExist, None)
     | Some listSize \<Rightarrow>
     if listSize = 0 then return (MafOk, Some None)
     else bnd (gets next_iter) (\<lambda>a.
     andthen (modify (\<lambda>w. w\<lparr>next_iter := a + 1, iters := (iters w)(a \<mapsto> \<lparr>it_id = 1, it_index = 0, it_size = None\<rparr>)\<rparr>))
    (bnd (block_size RPLIST_MAX_RETRIES E False (name_value l) UINT_MAX) (\<lambda>(rc, itemDataSize).
     if rc = MafOk \<and> itemDataSize \<noteq> UINT_MAX then
       andthen (modify (\<lambda>w. w\<lparr>iters := (iters w)(a := map_option (\<lambda>i. i\<lparr>it_size := Some (ucast itemDataSize)\<rparr>) (iters w a))\<rparr>))
         (return (MafOk, Some (Some a)))
     else return (MafNotExist, Some (Some a)))))))"

definition listGetFinalize :: "MafMwSpiListNameT option \<Rightarrow> nat option \<Rightarrow> MafReturnT rlp" where
  "listGetFinalize listInstanceName currentItemRef =
     (if \<not> validateName listInstanceName then return MafNotExist
      else case currentItemRef of None \<Rightarrow> return MafOk
      | Some a \<Rightarrow> bnd (gets iters) (\<lambda>h. case h a of None \<Rightarrow> die Wild
          | Some i \<Rightarrow> andthen (modify (\<lambda>w. w\<lparr>iters := (iters w)(a := None)\<rparr>)) (return MafOk)))"

text \<open>
  The search for the next item: \<open>(outcome, n)\<close>, with \<open>outcome\<close> the code and, for an object, its
  attributes once the search has ended.
\<close>

definition try_item :: "outside \<Rightarrow> string \<Rightarrow> (MafReturnT \<times> imm_attr list option) option \<times> 32 word \<Rightarrow>
    ((MafReturnT \<times> imm_attr list option) option \<times> 32 word) rlp" where
  "try_item E listName = (\<lambda>(outcome, n). bnd (gets replicateInIMM) (\<lambda>imm.
     if imm then bnd (convertToRTObjectName listName (decimal (unat n))) (\<lambda>(rc, immObject).
       if rc \<noteq> MafOk then return (Some (rc, None), n)
       else bnd (readObject E immObject) (\<lambda>(rc, attrs).
         return (if rc = MafOk then (Some (MafOk, attrs), n) else (None, n + 1))))
     else bnd (findFile E (decimal (unat n)) listName) (\<lambda>rc.
       return (if rc = MafOk then (Some (MafOk, None), n) else (None, n + 1)))))"

definition findNextListItem :: "outside \<Rightarrow> string \<Rightarrow> 32 word \<Rightarrow> (MafReturnT \<times> 32 word \<times> imm_attr list option) rlp" where
  "findNextListItem E listName currentItemName =
     bnd (get_last E listName 0) (\<lambda>(maf_rc, lastId). if maf_rc \<noteq> MafOk then return (maf_rc, 0, None)
     else bnd (while_prog (\<lambda>(outcome, n). outcome = None \<and> n \<le> lastId) (try_item E listName) (None, currentItemName))
       (\<lambda>(outcome, n). case outcome of None \<Rightarrow> return (MafFailure, 0, None)
        | Some (rc, attrs) \<Rightarrow> return (rc, n, attrs)))"

text \<open>
  An item that was announced is not there or cannot be read: the number of items is lowered, and
  the last item number is cleared with the last item.
\<close>

definition lost_item :: "outside \<Rightarrow> string \<Rightarrow> unit rlp" where
  "lost_item E listName = bnd (decrement_items E listName) (\<lambda>n.
     if n = Some 0 then bnd (set_last E listName 0) (\<lambda>rc. return ()) else return ())"

definition load_item :: "outside \<Rightarrow> string \<Rightarrow> 32 word \<Rightarrow> imm_attr list option \<Rightarrow> string \<Rightarrow> 64 word option \<Rightarrow>
    (MafReturnT \<times> string) rlp" where
  "load_item E listName n attrs copy itSize = (case itSize of None \<Rightarrow> die Uninit
     | Some s \<Rightarrow> bnd (gets replicateInIMM) (\<lambda>imm.
         if imm then getVoidData attrs copy (ucast s)
         else autoRetry_readFromFile E (decimal (unat n)) listName copy (ucast s)))"

definition drop_item :: "outside \<Rightarrow> string \<Rightarrow> 32 word \<Rightarrow> unit rlp" where
  "drop_item E listName n = bnd (gets replicateInIMM) (\<lambda>imm.
     if imm then bnd (deleteRTObject E listName (decimal (unat n))) (\<lambda>rc. return ())
     else bnd (removeFile E (decimal (unat n)) listName) (\<lambda>rc. return ()))"

text \<open>The iterator at an address, and a step that changes it.\<close>

definition iter_at :: "nat \<Rightarrow> RLIterator rlp" where
  "iter_at a = bnd (gets iters) (\<lambda>h. case h a of None \<Rightarrow> die Wild | Some i \<Rightarrow> return i)"

definition set_iter :: "nat \<Rightarrow> RLIterator \<Rightarrow> unit rlp" where
  "set_iter a i = modify (\<lambda>w. w\<lparr>iters := (iters w)(a \<mapsto> i)\<rparr>)"

record next_result =
  nx_rc :: MafReturnT
  nx_ref :: "nat option"
  nx_name :: "MafMwSpiListNameT option"
  nx_data :: string

text \<open>The step after all arguments were checked: the list is \<open>l\<close>, the iterator at \<open>a\<close>, the buffer \<open>copy\<close>.\<close>

definition next_item :: "outside \<Rightarrow> MafMwSpiListNameT \<Rightarrow> nat \<Rightarrow> string \<Rightarrow> next_result rlp" where
  "next_item E l a copy =
     bnd (listGetSize E (Some l)) (\<lambda>(rc, size). case size of None \<Rightarrow> return \<lparr>nx_rc = MafNotExist, nx_ref = Some a, nx_name = None, nx_data = copy\<rparr>
     | Some listSize \<Rightarrow>
     bnd (iter_at a) (\<lambda>i.
     if it_index i \<ge> listSize then
       bnd (listGetFinalize (Some l) (Some a)) (\<lambda>rc.
       return \<lparr>nx_rc = MafOk, nx_ref = None, nx_name = None, nx_data = copy\<rparr>)
     else bnd (findNextListItem E (name_value l) (it_id i)) (\<lambda>(rc, n, attrs).
     if rc \<noteq> MafOk then
       andthen (lost_item E (name_value l)) (return \<lparr>nx_rc = MafNotExist, nx_ref = Some a, nx_name = None, nx_data = copy\<rparr>)
     else andthen (set_iter a (i\<lparr>it_id := n + 1\<rparr>))
    (bnd (load_item E (name_value l) n attrs copy (it_size i)) (\<lambda>(rc, copy).
     if rc \<noteq> MafOk then
       andthen (drop_item E (name_value l) n)
      (andthen (lost_item E (name_value l)) (return \<lparr>nx_rc = MafNotExist, nx_ref = Some a, nx_name = None, nx_data = copy\<rparr>))
     else andthen (set_iter a (i\<lparr>it_id := n + 1, it_index := it_index i + 1\<rparr>))
      (if it_index i + 1 \<ge> listSize then
         bnd (listGetFinalize (Some l) (Some a)) (\<lambda>rc.
         return \<lparr>nx_rc = MafOk, nx_ref = None, nx_name = Some (item_name n), nx_data = copy\<rparr>)
       else return \<lparr>nx_rc = MafOk, nx_ref = Some a, nx_name = Some (item_name n), nx_data = copy\<rparr>))))))"

text \<open>
  \<open>currentItemRef\<close> is \<open>None\<close> for a null pointer to the reference; \<open>nx_ref\<close> is what the reference holds
  afterwards.
\<close>

definition listGetNextItemFront :: "outside \<Rightarrow> MafMwSpiListNameT option \<Rightarrow> nat option option \<Rightarrow> bool \<Rightarrow> string option \<Rightarrow>
    next_result rlp" where
  "listGetNextItemFront E listInstanceName currentItemRef nameGiven copyOfItemData =
     (case listInstanceName of None \<Rightarrow>
        return \<lparr>nx_rc = MafNotExist, nx_ref = Option.bind currentItemRef id, nx_name = None, nx_data = (case copyOfItemData of None \<Rightarrow> [] | Some d \<Rightarrow> d)\<rparr>
      | Some l \<Rightarrow>
     if \<not> validateName (Some l) then
        return \<lparr>nx_rc = MafNotExist, nx_ref = Option.bind currentItemRef id, nx_name = None, nx_data = (case copyOfItemData of None \<Rightarrow> [] | Some d \<Rightarrow> d)\<rparr>
     else case (currentItemRef, nameGiven, copyOfItemData) of
       (Some (Some a), True, Some copy) \<Rightarrow> next_item E l a copy
     | (Some None, True, Some copy) \<Rightarrow>
         bnd (listGetFinalize (Some l) None) (\<lambda>rc.
         return \<lparr>nx_rc = MafInvalidArgument, nx_ref = None, nx_name = None, nx_data = copy\<rparr>)
     | _ \<Rightarrow> return \<lparr>nx_rc = MafInvalidArgument, nx_ref = Option.bind currentItemRef id, nx_name = None, nx_data = (case copyOfItemData of None \<Rightarrow> [] | Some d \<Rightarrow> d)\<rparr>)"

section \<open>Finding and replacing\<close>

definition listFindItem :: "outside \<Rightarrow> MafMwSpiListNameT option \<Rightarrow> MafMwSpiListNameT option \<Rightarrow> string option \<Rightarrow>
    (MafReturnT \<times> string option) rlp" where
  "listFindItem E listInstanceName listItemName copyOfItemData =
     (case (listInstanceName, listItemName, copyOfItemData) of (Some l, Some i, Some copy) \<Rightarrow>
     if \<not> validateName (Some l) \<or> \<not> validateName (Some i) then return (MafNotExist, Some copy)
     else bnd (gets replicateInIMM) (\<lambda>imm.
     if imm \<and> name_value i = ''0'' then return (MafInvalidArgument, Some copy)
     else bnd (if imm then bnd (convertToRTObjectName (name_value l) (name_value i)) (\<lambda>(rc, immObject). readObject E immObject)
               else bnd (findFile E (name_value i) (name_value l)) (\<lambda>rc. return (rc, None))) (\<lambda>(rc, attrs).
     if rc \<noteq> MafOk then return (MafNotExist, Some copy)
     else bnd (get_block E (name_value l) 0) (\<lambda>(rc, itemDataSize). if rc \<noteq> MafOk then return (MafNotExist, Some copy)
     else if imm then bnd (getVoidData attrs copy itemDataSize) (\<lambda>(rc, copy).
       if rc \<noteq> MafOk then
         bnd (deleteRTObject E (name_value l) (name_value i)) (\<lambda>rc. return (MafNotExist, Some copy))
       else return (MafOk, Some copy))
     else bnd (readFromFile E (name_value i) (name_value l) copy itemDataSize) (\<lambda>(rc, copy).
       if rc \<noteq> MafOk then
         bnd (listEraseItem E (Some l) (Some i)) (\<lambda>rc. return (MafNotExist, Some copy))
       else return (MafOk, Some copy)))))
      | _ \<Rightarrow> return (MafInvalidArgument, copyOfItemData))"

definition listReplaceItem :: "outside \<Rightarrow> MafMwSpiListNameT option \<Rightarrow> MafMwSpiListNameT option \<Rightarrow> string option \<Rightarrow>
    MafReturnT rlp" where
  "listReplaceItem E listInstanceName listItemName replaceItemData =
     (case (listInstanceName, listItemName) of (Some l, Some i) \<Rightarrow>
     if \<not> validateName (Some l) \<or> \<not> validateName (Some i) then return MafNotExist
     else bnd (gets replicateInIMM) (\<lambda>imm.
     if \<not> imm then
       bnd (findFile E (name_value i) (name_value l)) (\<lambda>rc. if rc \<noteq> MafOk then return MafNotExist
       else bnd (get_block E (name_value l) 0) (\<lambda>(rc, itemDataSize). if rc \<noteq> MafOk then return MafNotExist
       else bnd (autoRetry_writeToFile E (name_value l) (name_value i) replaceItemData) (\<lambda>rc.
         return (if rc = MafOk then MafOk else MafNotExist))))
     else bnd (modifyRlistRTObject E (name_value l) (name_value i) replaceItemData) (\<lambda>rc.
       return (if rc = MafOk then MafOk else MafNotExist)))
      | _ \<Rightarrow> return MafNotExist)"

section \<open>The two operations that only report\<close>

definition listNumberOfListInstances :: "bool \<Rightarrow> (MafReturnT \<times> 32 word option) rlp" where
  "listNumberOfListInstances given = return (if given then (MafOk, Some 1) else (MafInvalidArgument, None))"

definition listMemoryUsage :: "bool \<Rightarrow> bool \<Rightarrow> (MafReturnT \<times> (32 word \<times> 32 word) option) rlp" where
  "listMemoryUsage usedGiven totalGiven =
     (if \<not> usedGiven \<or> \<not> totalGiven then return (MafInvalidArgument, None)
      else bnd (gets rlist_maxsize) (\<lambda>mx. return (MafOk, Some (10, ucast mx))))"

end
