(* ===== verification/RlStore.thy ===== *)
theory RlStore
  imports RlList
begin

text \<open>
  What the replicated list stores and where: the part of the information model and of the file
  system it uses, as it follows from the calls made and their answers.  \<open>serves\<close> states the
  documented behaviour of a service and an operating system that do not fail; \<open>runs\<close> abstracts the
  trace of a program to the change of the store.
\<close>

section \<open>The store\<close>

text \<open>
  \<open>opened\<close> is the file \<open>fread\<close> and \<open>fwrite\<close> work on; \<open>listing\<close> holds the entries \<open>readdir\<close> has not
  given yet, \<open>found\<close> the objects a search has not given yet.
\<close>

record store =
  objs :: "string \<rightharpoonup> imm_attr list"
  class_of :: "string \<rightharpoonup> string"
  fils :: "string \<rightharpoonup> string"
  dirs :: "string set"
  opened :: "string option"
  listing :: "string set"
  found :: "string set"

definition apply_mod :: "imm_mod \<Rightarrow> imm_attr list \<Rightarrow> imm_attr list" where
  "apply_mod m = map (\<lambda>a. if attrName a = attrName (modAttr m) then a\<lparr>attrValues := attrValues (modAttr m)\<rparr> else a)"

text \<open>The name of a new object is the value of its naming attribute.\<close>

definition naming :: "imm_attr list \<Rightarrow> string" where
  "naming as = (case find (\<lambda>a. attrValueType a = SA_IMM_ATTR_SANAMET) as of
     Some a \<Rightarrow> (case attrValues a of VName n # vs \<Rightarrow> n | _ \<Rightarrow> []) | None \<Rightarrow> [])"

definition searched_class :: "imm_attr option \<Rightarrow> string" where
  "searched_class p = (case p of None \<Rightarrow> [] | Some a \<Rightarrow> (case attrValues a of VString c # vs \<Rightarrow> c | _ \<Rightarrow> []))"

definition entries :: "store \<Rightarrow> string \<Rightarrow> string set" where
  "entries s d = {''.'', ''..''} \<union> {f. CHR ''/'' \<notin> set f \<and> d @ ''/'' @ f \<in> dom (fils s)}"

definition happen :: "ocall \<Rightarrow> answer \<Rightarrow> store \<Rightarrow> store" where
  "happen c a s = (case c of
     SaImmOiRtObjectUpdate_2 h n ms \<Rightarrow>
       if a_rc a = SA_AIS_OK then s\<lparr>objs := (objs s)(n := map_option (fold apply_mod ms) (objs s n))\<rparr> else s
   | SaImmOiRtObjectCreate_2 h cl p as \<Rightarrow>
       if a_rc a = SA_AIS_OK then s\<lparr>objs := (objs s)(naming as \<mapsto> as), class_of := (class_of s)(naming as \<mapsto> cl)\<rparr> else s
   | SaImmOiRtObjectDelete h n \<Rightarrow>
       if a_rc a = SA_AIS_OK then s\<lparr>objs := (objs s)(n := None), class_of := (class_of s)(n := None)\<rparr> else s
   | SaImmOmSearchInitialize_2 h r sc opts p ats \<Rightarrow>
       if a_rc a = SA_AIS_OK then s\<lparr>found := {n. class_of s n = Some (searched_class p)}\<rparr> else s
   | SaImmOmSearchNext_2 h \<Rightarrow> if a_rc a = SA_AIS_OK then s\<lparr>found := found s - set_option (a_text a)\<rparr> else s
   | FopenWb p \<Rightarrow> if a_num a \<noteq> 0 then s\<lparr>fils := (fils s)(p \<mapsto> []), opened := Some p\<rparr> else s
   | FopenRb p \<Rightarrow> if a_num a \<noteq> 0 then s\<lparr>opened := Some p\<rparr> else s
   | Fwrite b \<Rightarrow> (case opened s of None \<Rightarrow> s
       | Some p \<Rightarrow> s\<lparr>fils := (fils s)(p := map_option (\<lambda>x. x @ take (nat (a_num a)) b) (fils s p))\<rparr>)
   | Fclose \<Rightarrow> s\<lparr>opened := None\<rparr>
   | RemoveFile p \<Rightarrow> if a_num a = 0 then s\<lparr>fils := (fils s)(p := None)\<rparr> else s
   | Opendir d \<Rightarrow> if a_num a \<noteq> 0 then s\<lparr>listing := entries s d\<rparr> else s
   | Readdir \<Rightarrow> s\<lparr>listing := listing s - set_option (a_text a)\<rparr>
   | Closedir \<Rightarrow> s\<lparr>listing := {}\<rparr>
   | Rmdir d \<Rightarrow> if a_num a = 0 then s\<lparr>dirs := dirs s - {d}\<rparr> else s
   | _ \<Rightarrow> s)"

lemma happen_simps [simp]:
  "happen (SaImmOiRtObjectUpdate_2 h n ms) a s =
     (if a_rc a = SA_AIS_OK then s\<lparr>objs := (objs s)(n := map_option (fold apply_mod ms) (objs s n))\<rparr> else s)"
  "happen (SaImmOiRtObjectCreate_2 h cl p as) a s =
     (if a_rc a = SA_AIS_OK then s\<lparr>objs := (objs s)(naming as \<mapsto> as), class_of := (class_of s)(naming as \<mapsto> cl)\<rparr> else s)"
  "happen (SaImmOiRtObjectDelete h n) a s =
     (if a_rc a = SA_AIS_OK then s\<lparr>objs := (objs s)(n := None), class_of := (class_of s)(n := None)\<rparr> else s)"
  "happen (SaImmOmSearchInitialize_2 h r sc opts q ats) a s =
     (if a_rc a = SA_AIS_OK then s\<lparr>found := {n. class_of s n = Some (searched_class q)}\<rparr> else s)"
  "happen (SaImmOmSearchNext_2 h) a s = (if a_rc a = SA_AIS_OK then s\<lparr>found := found s - set_option (a_text a)\<rparr> else s)"
  "happen (SaImmOmSearchFinalize h) a s = s"
  "happen (SaImmOmAccessorGet_2 h n ats) a s = s"
  "happen (SaImmOmAccessorGetNull h) a s = s"
  "happen (FopenWb f) a s = (if a_num a \<noteq> 0 then s\<lparr>fils := (fils s)(f \<mapsto> []), opened := Some f\<rparr> else s)"
  "happen (FopenRb f) a s = (if a_num a \<noteq> 0 then s\<lparr>opened := Some f\<rparr> else s)"
  "happen (Fwrite b) a s = (case opened s of None \<Rightarrow> s
       | Some p \<Rightarrow> s\<lparr>fils := (fils s)(p := map_option (\<lambda>x. x @ take (nat (a_num a)) b) (fils s p))\<rparr>)"
  "happen Fclose a s = s\<lparr>opened := None\<rparr>"
  "happen (Fread k) a s = s" "happen (StatFile f) a s = s" "happen (SleepSec k) a s = s" "happen Closedir a s = s\<lparr>listing := {}\<rparr>"
  "happen (RemoveFile f) a s = (if a_num a = 0 then s\<lparr>fils := (fils s)(f := None)\<rparr> else s)"
  "happen (Opendir f) a s = (if a_num a \<noteq> 0 then s\<lparr>listing := entries s f\<rparr> else s)"
  "happen Readdir a s = s\<lparr>listing := listing s - set_option (a_text a)\<rparr>"
  by (simp_all add: happen_def)

section \<open>Services that do not fail\<close>

definition serves :: "store \<Rightarrow> ocall \<Rightarrow> answer \<Rightarrow> bool" where
  "serves s c a = (case c of
     SaImmOmAccessorGet_2 h n ats \<Rightarrow>
       (case objs s n of None \<Rightarrow> a_rc a = SA_AIS_ERR_NOT_EXIST | Some as \<Rightarrow> a_rc a = SA_AIS_OK \<and> a_attrs a = Some as)
   | SaImmOmAccessorGetNull h \<Rightarrow> a_rc a = SA_AIS_ERR_INVALID_PARAM
   | SaImmOiRtObjectUpdate_2 h n ms \<Rightarrow> a_rc a = (if objs s n = None then SA_AIS_ERR_NOT_EXIST else SA_AIS_OK)
   | SaImmOiRtObjectDelete h n \<Rightarrow> a_rc a = (if objs s n = None then SA_AIS_ERR_NOT_EXIST else SA_AIS_OK)
   | SaImmOiRtObjectCreate_2 h cl p as \<Rightarrow> a_rc a = (if objs s (naming as) = None then SA_AIS_OK else SA_AIS_ERR_EXIST)
   | SaImmOmSearchInitialize_2 h r sc opts p ats \<Rightarrow> a_rc a = SA_AIS_OK
   | SaImmOmSearchNext_2 h \<Rightarrow>
       if found s = {} then a_rc a = SA_AIS_ERR_NOT_EXIST
       else a_rc a = SA_AIS_OK \<and> (\<exists>n \<in> found s. a_text a = Some n)
   | SaImmOmSearchFinalize h \<Rightarrow> a_rc a = SA_AIS_OK
   | StatFile p \<Rightarrow> (a_num a = 0) = (p \<in> dom (fils s) \<or> p \<in> dirs s) \<and>
       (case fils s p of None \<Rightarrow> True | Some b \<Rightarrow> fst (a_out a) = int (length b))
   | FopenWb p \<Rightarrow> a_num a \<noteq> 0
   | FopenRb p \<Rightarrow> (a_num a \<noteq> 0) = (p \<in> dom (fils s))
   | Fwrite b \<Rightarrow> a_num a = int (length b)
   | Fread n \<Rightarrow> a_text a = (case opened s of None \<Rightarrow> None | Some p \<Rightarrow> map_option (take n) (fils s p))
   | Fclose \<Rightarrow> a_num a = 0
   | RemoveFile p \<Rightarrow> (a_num a = 0) = (p \<in> dom (fils s))
   | Opendir d \<Rightarrow> (a_num a \<noteq> 0) = (d \<in> dirs s)
   | Readdir \<Rightarrow> if listing s = {} then a_text a = None else (\<exists>d \<in> listing s. a_text a = Some d)
   | Rmdir d \<Rightarrow> a_num a = 0
   | _ \<Rightarrow> True)"

lemma serves_simps [simp]:
  "serves s (SaImmOmAccessorGet_2 h n ats) a =
     (case objs s n of None \<Rightarrow> a_rc a = SA_AIS_ERR_NOT_EXIST | Some as \<Rightarrow> a_rc a = SA_AIS_OK \<and> a_attrs a = Some as)"
  "serves s (SaImmOmAccessorGetNull h) a \<longleftrightarrow> a_rc a = SA_AIS_ERR_INVALID_PARAM"
  "serves s (SaImmOiRtObjectUpdate_2 h n ms) a \<longleftrightarrow> a_rc a = (if objs s n = None then SA_AIS_ERR_NOT_EXIST else SA_AIS_OK)"
  "serves s (SaImmOiRtObjectDelete h n) a \<longleftrightarrow> a_rc a = (if objs s n = None then SA_AIS_ERR_NOT_EXIST else SA_AIS_OK)"
  "serves s (SaImmOiRtObjectCreate_2 h cl p as) a \<longleftrightarrow>
     a_rc a = (if objs s (naming as) = None then SA_AIS_OK else SA_AIS_ERR_EXIST)"
  "serves s (SaImmOmSearchInitialize_2 h r sc opts q ats) a \<longleftrightarrow> a_rc a = SA_AIS_OK"
  "serves s (SaImmOmSearchNext_2 h) a =
       (if found s = {} then a_rc a = SA_AIS_ERR_NOT_EXIST
        else a_rc a = SA_AIS_OK \<and> (\<exists>n \<in> found s. a_text a = Some n))"
  "serves s (SaImmOmSearchFinalize h) a \<longleftrightarrow> a_rc a = SA_AIS_OK"
  "serves s (StatFile f) a \<longleftrightarrow> (a_num a = 0) = (f \<in> dom (fils s) \<or> f \<in> dirs s) \<and>
       (case fils s f of None \<Rightarrow> True | Some b \<Rightarrow> fst (a_out a) = int (length b))"
  "serves s (FopenWb f) a \<longleftrightarrow> a_num a \<noteq> 0"
  "serves s (FopenRb f) a \<longleftrightarrow> (a_num a \<noteq> 0) = (f \<in> dom (fils s))"
  "serves s (Fwrite b) a \<longleftrightarrow> a_num a = int (length b)"
  "serves s (Fread k) a \<longleftrightarrow> a_text a = (case opened s of None \<Rightarrow> None | Some p \<Rightarrow> map_option (take k) (fils s p))"
  "serves s Fclose a \<longleftrightarrow> a_num a = 0"
  "serves s (RemoveFile f) a \<longleftrightarrow> (a_num a = 0) = (f \<in> dom (fils s))"
  "serves s (Opendir f) a \<longleftrightarrow> (a_num a \<noteq> 0) = (f \<in> dirs s)"
  "serves s Readdir a = (if listing s = {} then a_text a = None else (\<exists>d \<in> listing s. a_text a = Some d))"
  by (simp_all add: serves_def)

definition stored :: "store \<Rightarrow> history \<Rightarrow> store" where
  "stored s0 h = fold (\<lambda>(c, a). happen c a) h s0"

lemma stored_snoc [simp]: "stored s0 (h @ [(c, a)]) = happen c a (stored s0 h)"
  by (simp add: stored_def)

definition served :: "store \<Rightarrow> outside \<Rightarrow> bool" where
  "served s0 E \<longleftrightarrow> (\<forall>h c. serves (stored s0 h) c (E h c))"

lemma servedD: "served s0 E \<Longrightarrow> serves (stored s0 h) c (E h c)"
  by (simp add: served_def)

section \<open>An environment that serves\<close>

definition answer0 :: answer where
  "answer0 = \<lparr>a_rc = SA_AIS_OK, a_maf = MafOk, a_handle = 1, a_attr = None, a_attrs = None, a_num = 0, a_errno = 0,
     a_out = (0, 0), a_text = None, a_version = (CHR ''A'', 2, 11), a_ntf = None\<rparr>"

text \<open>It answers as the store says; of several entries or objects it gives some one.\<close>

definition obliging :: "store \<Rightarrow> outside" where
  "obliging s0 h c = (let s = stored s0 h in case c of
     SaImmOmAccessorGet_2 x n ats \<Rightarrow> (case objs s n of None \<Rightarrow> answer0\<lparr>a_rc := SA_AIS_ERR_NOT_EXIST\<rparr> | Some as \<Rightarrow> answer0\<lparr>a_attrs := Some as\<rparr>)
   | SaImmOmAccessorGetNull x \<Rightarrow> answer0\<lparr>a_rc := SA_AIS_ERR_INVALID_PARAM\<rparr>
   | SaImmOiRtObjectUpdate_2 x n ms \<Rightarrow> answer0\<lparr>a_rc := if objs s n = None then SA_AIS_ERR_NOT_EXIST else SA_AIS_OK\<rparr>
   | SaImmOiRtObjectDelete x n \<Rightarrow> answer0\<lparr>a_rc := if objs s n = None then SA_AIS_ERR_NOT_EXIST else SA_AIS_OK\<rparr>
   | SaImmOiRtObjectCreate_2 x cl p as \<Rightarrow> answer0\<lparr>a_rc := if objs s (naming as) = None then SA_AIS_OK else SA_AIS_ERR_EXIST\<rparr>
   | SaImmOmSearchNext_2 x \<Rightarrow> if found s = {} then answer0\<lparr>a_rc := SA_AIS_ERR_NOT_EXIST\<rparr>
       else answer0\<lparr>a_text := Some (SOME n. n \<in> found s)\<rparr>
   | StatFile p \<Rightarrow> answer0\<lparr>a_num := if p \<in> dom (fils s) \<or> p \<in> dirs s then 0 else - 1,
       a_out := (case fils s p of None \<Rightarrow> 0 | Some d \<Rightarrow> int (length d), 0)\<rparr>
   | FopenWb p \<Rightarrow> answer0\<lparr>a_num := 1\<rparr>
   | FopenRb p \<Rightarrow> answer0\<lparr>a_num := if p \<in> dom (fils s) then 1 else 0\<rparr>
   | Fwrite d \<Rightarrow> answer0\<lparr>a_num := int (length d)\<rparr>
   | Fread n \<Rightarrow> answer0\<lparr>a_text := (case opened s of None \<Rightarrow> None | Some p \<Rightarrow> map_option (take n) (fils s p))\<rparr>
   | RemoveFile p \<Rightarrow> answer0\<lparr>a_num := if p \<in> dom (fils s) then 0 else - 1\<rparr>
   | Opendir d \<Rightarrow> answer0\<lparr>a_num := if d \<in> dirs s then 1 else 0\<rparr>
   | Readdir \<Rightarrow> answer0\<lparr>a_text := if listing s = {} then None else Some (SOME d. d \<in> listing s)\<rparr>
   | _ \<Rightarrow> answer0)"

lemma obliging_serves: "served s0 (obliging s0)"
  unfolding served_def
proof (intro allI)
  fix h c
  show "serves (stored s0 h) c (obliging s0 h c)"
    unfolding serves_def obliging_def Let_def
    by (simp add: answer0_def some_in_eq split: ocall.split sys_call.split option.split)
qed

section \<open>Programs as changes of the store\<close>

text \<open>
  \<open>runs s0 m w s r w' s'\<close>: started in state \<open>w\<close> with any trace that leaves the store \<open>s\<close>, \<open>m\<close>
  returns \<open>r\<close> in state \<open>w'\<close> with a trace that leaves the store \<open>s'\<close>.
\<close>

definition runs :: "store \<Rightarrow> 'a rlp \<Rightarrow> rl_world \<Rightarrow> store \<Rightarrow> 'a \<Rightarrow> rl_world \<Rightarrow> store \<Rightarrow> bool" where
  "runs s0 m w s r w' s' \<longleftrightarrow> (\<forall>h. stored s0 h = s \<longrightarrow>
     (\<exists>h'. m (w\<lparr>hist := h\<rparr>) = Some (Inr (r, w'\<lparr>hist := h'\<rparr>)) \<and> stored s0 h' = s'))"

lemma runs_return: "runs s0 (return r) w s r w s"
  by (auto simp: runs_def return_def)

lemma runs_gets: "(\<And>h. f (w\<lparr>hist := h\<rparr>) = f w) \<Longrightarrow> runs s0 (gets f) w s (f w) w s"
  by (auto simp: runs_def gets_def)

lemma runs_modify: "(\<And>h. f (w\<lparr>hist := h\<rparr>) = (f w)\<lparr>hist := h\<rparr>) \<Longrightarrow> runs s0 (modify f) w s () (f w) s"
  by (auto simp: runs_def modify_def)

lemma runs_bnd: "runs s0 m w s a v t \<Longrightarrow> runs s0 (k a) v t r w' s' \<Longrightarrow> runs s0 (bnd m k) w s r w' s'"
  unfolding runs_def by (metis bnd_Some)

lemma runs_andthen: "runs s0 m w s a v t \<Longrightarrow> runs s0 k v t r w' s' \<Longrightarrow> runs s0 (andthen m k) w s r w' s'"
  unfolding andthen_def by (rule runs_bnd)

lemma runs_unless: "(b \<Longrightarrow> w' = w \<and> s' = s) \<Longrightarrow> (\<not> b \<Longrightarrow> runs s0 m w s () w' s') \<Longrightarrow> runs s0 (unless b m) w s () w' s'"
  using runs_return by (auto simp: unless_def)

lemma runs_if: "(b \<Longrightarrow> runs s0 m w s r w' s') \<Longrightarrow> (\<not> b \<Longrightarrow> runs s0 k w s r w' s') \<Longrightarrow>
    runs s0 (if b then m else k) w s r w' s'"
  by simp

lemma runs_call:
  assumes "served s0 E" "\<And>a. serves s c a \<Longrightarrow> runs s0 (k a) w (happen c a s) r w' s'"
  shows "runs s0 (bnd (call E c) k) w s r w' s'"
  unfolding runs_def
proof (intro allI impI)
  fix h
  assume h: "stored s0 h = s"
  let ?a = "E h c"
  have "runs s0 (k ?a) w (happen c ?a s) r w' s'" using assms(2) servedD [OF assms(1), of h c] h by simp
  then have "\<exists>h'. k ?a (w\<lparr>hist := h @ [(c, ?a)]\<rparr>) = Some (Inr (r, w'\<lparr>hist := h'\<rparr>)) \<and> stored s0 h' = s'"
    unfolding runs_def using h by (metis stored_snoc)
  then show "\<exists>h'. bnd (call E c) k (w\<lparr>hist := h\<rparr>) = Some (Inr (r, w'\<lparr>hist := h'\<rparr>)) \<and> stored s0 h' = s'"
    by (simp add: bnd_def call_run)
qed

lemma runs_auto_retry:
  assumes "served s0 E" "\<And>a. serves s c a \<Longrightarrow> \<not> again (a_rc a)"
    "\<And>a. serves s c a \<Longrightarrow> runs s0 (k a) w (happen c a s) r w' s'"
  shows "runs s0 (bnd (auto_retry E again c) k) w s r w' s'"
proof -
  have "auto_retry E again c (w\<lparr>hist := h\<rparr>) = call E c (w\<lparr>hist := h\<rparr>)" if "stored s0 h = s" for h
    using assms(2) servedD [OF assms(1), of h c] that by (simp add: auto_retry_once call_run)
  then have "bnd (auto_retry E again c) k (w\<lparr>hist := h\<rparr>) = bnd (call E c) k (w\<lparr>hist := h\<rparr>)" if "stored s0 h = s" for h
    using that by (simp add: bnd_def)
  with runs_call [OF assms(1,3)] show ?thesis unfolding runs_def by simp
qed

lemma runs_do_call:
  "served s0 E \<Longrightarrow> (\<And>a. serves s c a \<Longrightarrow> happen c a s = s') \<Longrightarrow> runs s0 (do_call E c) w s () w s'"
  unfolding do_call_def by (rule runs_call) (auto intro: runs_return)

end
