(* ===== verification/RlSpec.thy ===== *)
theory RlSpec
  imports RlStore
begin

text \<open>
  What the building blocks of the replicated list do to the store.
\<close>

lemma bnd_assoc: "bnd (bnd m f) k = bnd m (\<lambda>a. bnd (f a) k)"
  by (rule ext) (simp add: bnd_def split: option.split sum.split)

lemma runs_gets_bnd:
  "(\<And>h. f (w\<lparr>hist := h\<rparr>) = f w) \<Longrightarrow> runs s0 (k (f w)) w s r w' s' \<Longrightarrow> runs s0 (bnd (gets f) k) w s r w' s'"
  by (rule runs_bnd [OF runs_gets])

lemma runs_return_bnd: "runs s0 (k a) w s r w' s' \<Longrightarrow> runs s0 (bnd (return a) k) w s r w' s'"
  by (rule runs_bnd [OF runs_return])

lemma runs_with_reset:
  assumes "served s0 E" "\<And>h. f (w\<lparr>hist := h\<rparr>) = f w"
    "\<And>a. serves s (c (f w)) a \<Longrightarrow> a_rc a \<noteq> SA_AIS_ERR_TRY_AGAIN \<and> a_rc a \<noteq> SA_AIS_ERR_BAD_HANDLE"
    "\<And>a. serves s (c (f w)) a \<Longrightarrow> runs s0 (k (Inr (a, False))) w (happen (c (f w)) a s) r w' s'"
  shows "runs s0 (bnd (with_reset E (bnd (gets f) (\<lambda>h. auto_retry E try_again (c h)))) k) w s r w' s'"
  unfolding with_reset_def bnd_assoc
  by (intro runs_gets_bnd runs_auto_retry) (use assms in \<open>auto simp: try_again_def intro: runs_return_bnd\<close>)

lemmas rl_wrappers = autoRetry_saImmOmAccessorGet_2_def autoRetry_saImmOiRtObjectUpdate_2_def
  autoRetry_saImmOiRtObjectCreate_2_def autoRetry_saImmOiRtObjectDelete_def

section \<open>Names\<close>

definition fits :: "rl_world \<Rightarrow> string \<Rightarrow> bool" where
  "fits w n \<longleftrightarrow> bExtendedNameEnabled w \<or> length n < SA_MAX_UNEXTENDED_NAME_LENGTH"

lemma runs_saNameSet: "fits w n \<Longrightarrow> runs s0 (saNameSet n) w s n w s"
  unfolding saNameSet_def
  by (rule runs_gets_bnd) (auto simp: fits_def Let_def intro: runs_return)

text \<open>The names of the attributes are those made at the start of the component.\<close>

definition named :: "rl_world \<Rightarrow> bool" where
  "named w \<longleftrightarrow> strRlistBlockSize w = Some (cc w @ ''saRlistBlockSize'') \<and>
     strRlistLastId w = Some (cc w @ ''saRlistLastId'') \<and>
     strRlistNumElements w = Some (cc w @ ''saRlistNumElements'')"

definition ui_attr :: "string \<Rightarrow> 32 word \<Rightarrow> imm_attr" where
  "ui_attr n v = \<lparr>attrName = n, attrValueType = SA_IMM_ATTR_SAUINT32T, attrValues = [VUint32 v]\<rparr>"

text \<open>The object of list \<open>l\<close> with size of an item \<open>b\<close>, last item number \<open>i\<close> and number of items \<open>n\<close>.\<close>

definition list_attrs :: "rl_world \<Rightarrow> string \<Rightarrow> 32 word \<Rightarrow> 32 word \<Rightarrow> 32 word \<Rightarrow> imm_attr list" where
  "list_attrs w l b i n =
     [ui_attr (cc w @ ''saRlistBlockSize'') b, ui_attr (cc w @ ''saRlistLastId'') i,
      ui_attr (cc w @ ''saRlistNumElements'') n,
      \<lparr>attrName = RLIST_CLASS_RDN (CC w), attrValueType = SA_IMM_ATTR_SANAMET, attrValues = [VName (l @ ''=1'')]\<rparr>]"

lemma attr_names_differ [simp]:
  "c @ ''saRlistBlockSize'' \<noteq> d @ ''saRlistClassRdn''" "c @ ''saRlistLastId'' \<noteq> d @ ''saRlistClassRdn''"
  "c @ ''saRlistNumElements'' \<noteq> d @ ''saRlistClassRdn''"
  "d @ ''saRlistClassRdn'' \<noteq> c @ ''saRlistBlockSize''" "d @ ''saRlistClassRdn'' \<noteq> c @ ''saRlistLastId''"
  "d @ ''saRlistClassRdn'' \<noteq> c @ ''saRlistNumElements''"
  by (auto dest: arg_cong [where f = last])

definition with_numbers :: "rl_world \<Rightarrow> string \<Rightarrow> 32 word \<Rightarrow> 32 word \<Rightarrow> 32 word \<Rightarrow> store \<Rightarrow> store" where
  "with_numbers w l b i n s = s\<lparr>objs := (objs s)(l @ ''=1'' \<mapsto> list_attrs w l b i n)\<rparr>"

definition list_ready :: "rl_world \<Rightarrow> string \<Rightarrow> bool" where
  "list_ready w l \<longleftrightarrow> named w \<and> fits w (l @ ''=1'')"

definition numbers :: "rl_world \<Rightarrow> store \<Rightarrow> string \<Rightarrow> 32 word \<Rightarrow> 32 word \<Rightarrow> 32 word \<Rightarrow> bool" where
  "numbers w s l b i n \<longleftrightarrow> objs s (l @ ''=1'') = Some (list_attrs w l b i n)"

section \<open>Objects\<close>

lemma runs_readObject:
  "served s0 E \<Longrightarrow> runs s0 (readObject E (Some nm)) w s
     (case objs s nm of None \<Rightarrow> (MafNotExist, None) | Some as \<Rightarrow> (MafOk, Some as)) w s"
  unfolding readObject_def rl_wrappers option.case
  by (rule runs_with_reset) (auto split: option.splits intro: runs_return)

lemma runs_classToObj: "fits w (l @ ''=1'') \<Longrightarrow> runs s0 (classToObj l) w s (l @ ''=1'') w s"
  unfolding classToObj_def by (rule runs_saNameSet)

lemma runs_get:
  assumes "served s0 E" "fits w (l @ ''=1'')" "numbers w s l b i n" "ui_value (list_attrs w l b i n) nm v = return x"
  shows "runs s0 (getObjectUiAttribute E l nm v) w s (MafOk, x) w s"
proof -
  have "runs s0 (readObject E (Some (l @ ''=1''))) w s (MafOk, Some (list_attrs w l b i n)) w s"
    using runs_readObject [OF assms(1), of "l @ ''=1''" w s] assms(3) by (simp add: numbers_def)
  then show ?thesis
    unfolding getObjectUiAttribute_def eval_nat_numeral ui_attempts.simps
    by (intro runs_bnd [OF runs_classToObj [OF assms(2)]], elim runs_bnd)
      (simp add: assms(4), simp add: list_attrs_def ui_attr_def runs_return_bnd runs_return)
qed

lemma runs_numbers:
  assumes "served s0 E" "list_ready w l" "numbers w s l b i n"
  shows "runs s0 (get_block E l v) w s (MafOk, b) w s"
    "runs s0 (get_last E l v) w s (MafOk, i) w s"
    "runs s0 (get_num E l v) w s (MafOk, n) w s"
  using assms(2) unfolding get_block_def get_last_def get_num_def list_ready_def named_def
  by (auto intro!: runs_gets_bnd runs_get [OF assms(1) _ assms(3)]
      simp: ui_value_def list_attrs_def ui_attr_def RLIST_CLASS_RDN_def)

lemma runs_set:
  assumes "served s0 E" "fits w (l @ ''=1'')" "numbers w s l b i n"
    "map_option (apply_mod (allocateUint32AttrMod nm v)) (objs s (l @ ''=1'')) = Some (list_attrs w l b' i' n')"
  shows "runs s0 (setObjectUiAttribute E l (Some nm) v) w s MafOk w (with_numbers w l b' i' n' s)"
  unfolding setObjectUiAttribute_def rl_wrappers option.case
  by (rule runs_bnd [OF runs_classToObj [OF assms(2)]], rule runs_with_reset [OF assms(1)])
    (use assms(3,4) in \<open>auto simp: numbers_def with_numbers_def intro: runs_return\<close>)

lemma runs_set_numbers:
  assumes "served s0 E" "list_ready w l" "numbers w s l b i n"
  shows "runs s0 (set_last E l v) w s MafOk w (with_numbers w l b v n s)"
    "runs s0 (set_num E l v) w s MafOk w (with_numbers w l b i v s)"
  using assms(2,3) unfolding set_last_def set_num_def list_ready_def named_def
  by (auto intro!: runs_gets_bnd runs_set [OF assms(1) _ assms(3)]
      simp: numbers_def list_attrs_def ui_attr_def RLIST_CLASS_RDN_def apply_mod_def allocateUint32AttrMod_def
        allocateUint32AttrValueArray_def)

lemma numbers_with [simp]: "numbers w (with_numbers w l b i n s) l b' i' n' \<longleftrightarrow> list_attrs w l b i n = list_attrs w l b' i' n'"
  by (simp add: numbers_def with_numbers_def)

lemma with_with [simp]: "with_numbers w l b i n (with_numbers w l b' i' n' s) = with_numbers w l b i n s"
  by (simp add: with_numbers_def)

lemma block_size_runs:
  assumes "served s0 E" "list_ready w l" "numbers w s l b i n" "b \<noteq> UINT_MAX"
  shows "runs s0 (block_size k E stop l UINT_MAX) w s (MafOk, b) w s"
  by (cases k) (simp_all add: assms(4) runs_numbers [OF assms(1-3)] runs_bnd [OF runs_numbers(1) [OF assms(1-3)]] runs_return)

end
