(* ===== verification/RlItems.thy ===== *)
theory RlItems
  imports RlSpec
begin

text \<open>
  The two ways items are kept, behind one interface: an item has a name and is stored, replaced and
  removed under it, apart from the three numbers of the list.  What the operations do to the list as
  a whole is proved once from the laws of the interface.
\<close>

section \<open>The interface\<close>

locale item_storage =
  fixes get :: "store \<Rightarrow> string \<Rightarrow> string option"
    and put :: "string \<Rightarrow> string \<Rightarrow> store \<Rightarrow> store"
    and del :: "string \<Rightarrow> store \<Rightarrow> store"
    and renumber :: "32 word \<Rightarrow> 32 word \<Rightarrow> 32 word \<Rightarrow> store \<Rightarrow> store"
    and nums :: "store \<Rightarrow> 32 word \<Rightarrow> 32 word \<Rightarrow> 32 word \<Rightarrow> bool"
    and ok :: "store \<Rightarrow> bool"
  assumes get_put: "ok s \<Longrightarrow> get (put k d s) j = (if j = k then Some d else get s j)"
    and get_del: "get (del k s) j = (if j = k then None else get s j)"
    and get_renumber [simp]: "get (renumber b i n s) j = get s j"
    and ok_put: "ok s \<Longrightarrow> ok (put k d s)"
    and ok_del: "ok s \<Longrightarrow> ok (del k s)"
    and ok_renumber: "ok (renumber b i n s) = ok s"
    and nums_put [simp]: "nums (put k d s) b i n = nums s b i n"
    and nums_del [simp]: "nums (del k s) b i n = nums s b i n"
    and nums_renumber [simp]: "nums (renumber b i n s) b i n"
begin

text \<open>
  The store holds the list \<open>xs\<close> of numbered items: their numbers rise and do not exceed the last one
  given out, each is stored under its number in decimal, and nothing else is.
\<close>

definition holds :: "store \<Rightarrow> 32 word \<Rightarrow> 32 word \<Rightarrow> (nat \<times> string) list \<Rightarrow> bool" where
  "holds s b i xs \<longleftrightarrow> ok s \<and> nums s b i (of_nat (length xs)) \<and> length xs < 2 ^ 32 \<and>
     sorted_wrt (<) (map fst xs) \<and> (\<forall>k \<in> fst ` set xs. 0 < k \<and> k \<le> unat i) \<and>
     (\<forall>nm. get s nm = map_of (map (\<lambda>(k, d). (decimal k, d)) xs) nm)"

end

lemma decimal_inj [simp]: "decimal m = decimal n \<longleftrightarrow> m = n"
  by (metis decimal_value)

lemma map_of_decimal: "map_of (map (\<lambda>(k, d). (decimal k, d)) xs) (decimal k) = map_of xs k"
  by (induction xs) auto

lemma map_of_decimal_filter:
  "map_of (map (\<lambda>(k, d). (decimal k, d)) (filter (\<lambda>(j, d). j \<noteq> k) xs)) nm =
     (if nm = decimal k then None else map_of (map (\<lambda>(k, d). (decimal k, d)) xs) nm)"
  by (induction xs) auto

definition set_data :: "nat \<Rightarrow> string \<Rightarrow> (nat \<times> string) list \<Rightarrow> (nat \<times> string) list" where
  "set_data k d = map (\<lambda>(j, e). (j, if j = k then d else e))"

lemma set_data_fst [simp]: "map fst (set_data k d xs) = map fst xs" "length (set_data k d xs) = length xs"
    "fst ` set (set_data k d xs) = fst ` set xs"
  unfolding set_data_def by (induction xs) auto

lemma map_of_decimal_set:
  "map_of (map (\<lambda>(k, d). (decimal k, d)) (set_data k d xs)) nm =
     (if nm = decimal k then map_option (\<lambda>e. d) (map_of xs k) else map_of (map (\<lambda>(k, d). (decimal k, d)) xs) nm)"
proof (induction xs)
  case (Cons x xs)
  then show ?case by (cases x, cases "nm = decimal k") (simp_all add: set_data_def)
qed (simp add: set_data_def)

lemma filter_key_sorted: "sorted_wrt (<) (map fst xs) \<Longrightarrow> sorted_wrt (<) (map fst (filter p xs))"
  by (induction xs) auto

lemma length_filter_key:
  "sorted_wrt (<) (map fst xs) \<Longrightarrow> k \<in> fst ` set xs \<Longrightarrow>
     Suc (length (filter (\<lambda>(j, d). j \<noteq> k) xs)) = length xs" for k :: nat
proof (induction xs)
  case (Cons x xs)
  show ?case
  proof (cases "fst x = k")
    case True
    then have "filter (\<lambda>(j, d). j \<noteq> k) xs = xs" using Cons.prems(1) by (auto simp: filter_id_conv)
    then have "filter (\<lambda>(j, d). j \<noteq> k) (x # xs) = xs" using True by (simp add: case_prod_beta)
    then show ?thesis by simp
  next
    case False
    then show ?thesis using Cons by (auto simp: case_prod_beta)
  qed
qed simp

context item_storage
begin

lemma holds_lookup: "holds s b i xs \<Longrightarrow> get s (decimal k) = map_of xs k"
  by (simp add: holds_def map_of_decimal)

lemma holds_push:
  assumes "holds s b i xs" "unat i + 1 < 2 ^ 32" "length xs + 1 < 2 ^ 32"
  shows "holds (renumber b (i + 1) (of_nat (length xs) + 1) (put (decimal (unat i + 1)) d s)) b (i + 1)
     (xs @ [(unat i + 1, d)])"
proof -
  have i: "unat (i + 1) = unat i + 1" using assms(2) by (simp add: unat_word_ariths)
  have new: "get s (decimal (unat i + 1)) = None"
    using assms(1) by (auto simp: holds_lookup map_of_eq_None_iff holds_def)
  have "sorted_wrt (<) (map fst (xs @ [(unat i + 1, d)]))"
    using assms(1) by (auto simp: holds_def sorted_wrt_append)
  moreover have "get (put (decimal (unat i + 1)) d s) nm =
      map_of (map (\<lambda>(k, d). (decimal k, d)) (xs @ [(unat i + 1, d)])) nm" for nm
    using assms(1) new by (auto simp: get_put holds_def map_add_def split: option.split)
  ultimately show ?thesis using assms(1,3) i nums_renumber [of b "i + 1" "of_nat (length xs) + 1"]
    by (auto simp: holds_def ok_put ok_renumber add.commute)
qed

lemma holds_erase:
  assumes "holds s b i xs" "k \<in> fst ` set xs"
  shows "holds (renumber b i (of_nat (length xs) - 1) (del (decimal k) s)) b i (filter (\<lambda>(j, d). j \<noteq> k) xs)"
proof -
  let ?ys = "filter (\<lambda>(j, d). j \<noteq> k) xs"
  have len: "Suc (length ?ys) = length xs" using assms by (intro length_filter_key) (auto simp: holds_def)
  then have "(of_nat (length xs) - 1 :: 32 word) = of_nat (length ?ys)" by (metis add_diff_cancel_left' of_nat_Suc)
  moreover have "length ?ys < 2 ^ 32" using len assms(1) by (simp add: holds_def)
  moreover have "get (renumber b i (of_nat (length ?ys)) (del (decimal k) s)) nm =
      map_of (map (\<lambda>(k, d). (decimal k, d)) ?ys) nm" for nm
    using assms(1) by (simp add: map_of_decimal_filter get_del holds_def)
  ultimately show ?thesis
    using assms(1) by (auto simp: holds_def ok_del ok_renumber filter_key_sorted)
qed

lemma holds_replace:
  assumes "holds s b i xs" "k \<in> fst ` set xs"
  shows "holds (put (decimal k) d s) b i (set_data k d xs)"
proof -
  obtain e where "map_of xs k = Some e" using assms(2) by (metis map_of_eq_None_iff not_Some_eq)
  then show ?thesis using assms(1) by (simp add: holds_def get_put ok_put map_of_decimal_set)
qed

lemma holds_trim: \<comment> \<open>the last item number may be lowered as long as it covers all items\<close>
  assumes "holds s b i xs" "\<forall>k \<in> fst ` set xs. k \<le> unat j"
  shows "holds (renumber b j (of_nat (length xs)) s) b j xs"
  using assms by (auto simp: holds_def ok_renumber)

end

section \<open>Items in files\<close>

definition slash :: "string \<Rightarrow> string" where
  "slash p = (if last p \<noteq> CHR ''/'' then p @ ''/'' else p)"

definition list_path :: "rl_world \<Rightarrow> string \<Rightarrow> string" where
  "list_path w l = slash (slash (pathToStorageDirectory w) @ COMSA_FOR_COREMW_DIR (cc w)) @ strRpListPath @ l"

definition item_path :: "rl_world \<Rightarrow> string \<Rightarrow> string \<Rightarrow> string" where
  "item_path w l nm = slash (list_path w l) @ nm @ strBin"

lemma item_path_inj [simp]: "item_path w l m = item_path w l n \<longleftrightarrow> m = n"
  by (simp add: item_path_def)

definition put_file :: "string \<Rightarrow> string \<Rightarrow> store \<Rightarrow> store" where
  "put_file p d s = s\<lparr>fils := (fils s)(p \<mapsto> d), opened := None\<rparr>"

definition del_file :: "string \<Rightarrow> store \<Rightarrow> store" where
  "del_file p s = s\<lparr>fils := (fils s)(p := None)\<rparr>"

interpretation files: item_storage "\<lambda>s nm. fils s (item_path w l nm)" "\<lambda>nm. put_file (item_path w l nm)"
    "\<lambda>nm. del_file (item_path w l nm)" "with_numbers w l" "\<lambda>s. numbers w s l" "\<lambda>s. True" for w l
  by unfold_locales (auto simp: put_file_def del_file_def with_numbers_def numbers_def)

section \<open>Items in objects\<close>

definition item_object :: "string \<Rightarrow> string \<Rightarrow> string" where
  "item_object l nm = l @ ''RT='' @ nm"

lemma item_object_neq [simp]: "item_object l m = item_object l n \<longleftrightarrow> m = n" "item_object l m \<noteq> l @ ''=1''"
    "l @ ''=1'' \<noteq> item_object l m"
  by (simp_all add: item_object_def)

definition data_attr :: "imm_attr list \<Rightarrow> string option" where
  "data_attr as = (case find (\<lambda>a. attrName a = sData) as of None \<Rightarrow> None
     | Some a \<Rightarrow> (case attrValues a of VBytes b # vs \<Rightarrow> Some b | _ \<Rightarrow> None))"

definition item_attrs :: "string \<Rightarrow> string \<Rightarrow> string \<Rightarrow> imm_attr list" where
  "item_attrs l nm d =
     [\<lparr>attrName = sSaRlistRTdn, attrValueType = SA_IMM_ATTR_SANAMET, attrValues = [VName (item_object l nm)]\<rparr>,
      \<lparr>attrName = sData, attrValueType = SA_IMM_ATTR_SAANYT, attrValues = [VBytes d]\<rparr>]"

definition data_mod :: "string \<Rightarrow> imm_mod" where
  "data_mod d = \<lparr>modType = SA_IMM_ATTR_VALUES_REPLACE,
     modAttr = \<lparr>attrName = sData, attrValueType = SA_IMM_ATTR_SAANYT, attrValues = [VBytes d]\<rparr>\<rparr>"

lemma data_item_attrs [simp]: "data_attr (item_attrs l nm d) = Some d" "naming (item_attrs l nm d) = item_object l nm"
  by (simp_all add: data_attr_def item_attrs_def naming_def rl_strings)

lemma data_apply_mod [simp]: "data_attr as \<noteq> None \<Longrightarrow> data_attr (apply_mod (data_mod d) as) = Some d"
  by (induction as) (auto simp: data_attr_def apply_mod_def data_mod_def split: if_splits option.splits)

definition get_object :: "string \<Rightarrow> store \<Rightarrow> string \<Rightarrow> string option" where
  "get_object l s nm = Option.bind (objs s (item_object l nm)) data_attr"

definition put_object :: "string \<Rightarrow> string \<Rightarrow> string \<Rightarrow> store \<Rightarrow> store" where
  "put_object l nm d s = (case objs s (item_object l nm) of
     None \<Rightarrow> s\<lparr>objs := (objs s)(item_object l nm \<mapsto> item_attrs l nm d),
                class_of := (class_of s)(item_object l nm \<mapsto> l @ sRuntimeIMMSuffix)\<rparr>
   | Some as \<Rightarrow> s\<lparr>objs := (objs s)(item_object l nm \<mapsto> apply_mod (data_mod d) as)\<rparr>)"

definition del_object :: "string \<Rightarrow> string \<Rightarrow> store \<Rightarrow> store" where
  "del_object l nm s = s\<lparr>objs := (objs s)(item_object l nm := None), class_of := (class_of s)(item_object l nm := None)\<rparr>"

text \<open>Every object of an item has data.\<close>

definition objects_ok :: "string \<Rightarrow> store \<Rightarrow> bool" where
  "objects_ok l s \<longleftrightarrow> (\<forall>nm as. objs s (item_object l nm) = Some as \<longrightarrow> data_attr as \<noteq> None)"

lemma objects_okD: "objects_ok l s \<Longrightarrow> objs s (item_object l nm) = Some as \<Longrightarrow> \<exists>d. data_attr as = Some d"
  unfolding objects_ok_def by blast

interpretation objects: item_storage "get_object l" "put_object l" "del_object l" "with_numbers w l"
    "\<lambda>s. numbers w s l" "objects_ok l" for w l
proof unfold_locales
  show "objects_ok l s \<Longrightarrow> get_object l (put_object l k d s) j = (if j = k then Some d else get_object l s j)" for s k d j
    using objects_okD [of l s k] by (auto simp: get_object_def put_object_def split: option.split)
  show "objects_ok l s \<Longrightarrow> objects_ok l (put_object l k d s)" for s k d
    unfolding objects_ok_def put_object_def by (auto split: option.split if_splits)
qed (auto simp: get_object_def put_object_def del_object_def with_numbers_def numbers_def objects_ok_def split: option.split)

section \<open>Either way\<close>

text \<open>The list \<open>l\<close> holds the numbered items \<open>xs\<close>, each of \<open>b\<close> bytes at most, and \<open>i\<close> is the last number given out.\<close>

definition list_holds :: "rl_world \<Rightarrow> store \<Rightarrow> string \<Rightarrow> 32 word \<Rightarrow> 32 word \<Rightarrow> (nat \<times> string) list \<Rightarrow> bool" where
  "list_holds w s l b i xs \<longleftrightarrow>
     (if replicateInIMM w then objects.holds l w s b i xs else files.holds w l s b i xs)"

definition get_item :: "rl_world \<Rightarrow> string \<Rightarrow> store \<Rightarrow> string \<Rightarrow> string option" where
  "get_item w l s nm = (if replicateInIMM w then get_object l s nm else fils s (item_path w l nm))"

definition put_item :: "rl_world \<Rightarrow> string \<Rightarrow> string \<Rightarrow> string \<Rightarrow> store \<Rightarrow> store" where
  "put_item w l nm d = (if replicateInIMM w then put_object l nm d else put_file (item_path w l nm) d)"

definition del_item :: "rl_world \<Rightarrow> string \<Rightarrow> string \<Rightarrow> store \<Rightarrow> store" where
  "del_item w l nm = (if replicateInIMM w then del_object l nm else del_file (item_path w l nm))"

lemma list_holds_numbers: "list_holds w s l b i xs \<Longrightarrow> numbers w s l b i (of_nat (length xs)) \<and> length xs < 2 ^ 32"
  by (auto simp: list_holds_def files.holds_def objects.holds_def split: if_splits)

lemma list_holds_items: "list_holds w s l b i xs \<Longrightarrow>
    sorted_wrt (<) (map fst xs) \<and> (\<forall>k \<in> fst ` set xs. 0 < k \<and> k \<le> unat i)"
  by (simp add: list_holds_def files.holds_def objects.holds_def split: if_splits)

lemma list_holds_lookup: "list_holds w s l b i xs \<Longrightarrow> get_item w l s (decimal k) = map_of xs k"
  by (auto simp: list_holds_def get_item_def dest: files.holds_lookup objects.holds_lookup split: if_splits)

lemma list_holds_push:
  "list_holds w s l b i xs \<Longrightarrow> unat i + 1 < 2 ^ 32 \<Longrightarrow> length xs + 1 < 2 ^ 32 \<Longrightarrow>
     list_holds w (with_numbers w l b (i + 1) (of_nat (length xs) + 1) (put_item w l (decimal (unat i + 1)) d s)) l b (i + 1)
       (xs @ [(unat i + 1, d)])"
  by (cases "replicateInIMM w"; simp only: list_holds_def put_item_def if_True if_False;
      (erule (2) objects.holds_push | erule (2) files.holds_push))

lemma list_holds_erase:
  "list_holds w s l b i xs \<Longrightarrow> k \<in> fst ` set xs \<Longrightarrow>
     list_holds w (with_numbers w l b i (of_nat (length xs) - 1) (del_item w l (decimal k) s)) l b i
       (filter (\<lambda>(j, d). j \<noteq> k) xs)"
  unfolding list_holds_def del_item_def using files.holds_erase objects.holds_erase by simp

lemma list_holds_replace:
  "list_holds w s l b i xs \<Longrightarrow> k \<in> fst ` set xs \<Longrightarrow> list_holds w (put_item w l (decimal k) d s) l b i (set_data k d xs)"
  unfolding list_holds_def put_item_def using files.holds_replace objects.holds_replace by simp

lemma list_holds_trim:
  "list_holds w s l b i xs \<Longrightarrow> \<forall>k \<in> fst ` set xs. k \<le> unat j \<Longrightarrow>
     list_holds w (with_numbers w l b j (of_nat (length xs)) s) l b j xs"
  by (cases "replicateInIMM w"; simp only: list_holds_def if_True if_False;
      (erule (1) objects.holds_trim | erule (1) files.holds_trim))

end
