(* ===== verification/RlOps.thy ===== *)
theory RlOps
  imports RlItems
begin

text \<open>
  What the operations on items do to the store, whichever way items are kept, when the services and
  the operating system do not fail.
\<close>

section \<open>Conditions on names and paths\<close>

text \<open>An item name fits in the buffers used for it.\<close>

definition name_ok :: "rl_world \<Rightarrow> string \<Rightarrow> string \<Rightarrow> bool" where
  "name_ok w l nm \<longleftrightarrow>
     (if replicateInIMM w then nm \<noteq> ''0'' \<and> fits w (item_object l nm)
      else pathToStorageDirectory w \<noteq> [] \<and> length (item_path w l nm) < MAX_PATH_DATA_LENGTH)"

definition path_ok :: "rl_world \<Rightarrow> string \<Rightarrow> bool" where
  "path_ok w l \<longleftrightarrow> replicateInIMM w \<or>
     pathToStorageDirectory w \<noteq> [] \<and> last (pathToStorageDirectory w) \<noteq> CHR ''/'' \<and>
     l \<noteq> [] \<and> last l \<noteq> CHR ''/'' \<and> length (list_path w l) < MAX_PATH_DATA_LENGTH"

definition ready :: "rl_world \<Rightarrow> string \<Rightarrow> bool" where
  "ready w l \<longleftrightarrow> list_ready w l \<and> path_ok w l \<and> (\<forall>k. 0 < k \<and> k < 2 ^ 32 \<longrightarrow> name_ok w l (decimal k))"

text \<open>
  In files: the directory of the list is there, no file of it is open, none of its item names is a
  directory, and it holds nothing but files with the ending of items.  In objects: the objects of the
  class of the items are those with the names of items.
\<close>

definition store_ready :: "rl_world \<Rightarrow> store \<Rightarrow> string \<Rightarrow> bool" where
  "store_ready w s l \<longleftrightarrow>
     (if replicateInIMM w
      then \<forall>n. class_of s n = Some (l @ sRuntimeIMMSuffix) \<longleftrightarrow> (\<exists>nm. n = item_object l nm) \<and> objs s n \<noteq> None
      else list_path w l \<in> dirs s \<and> (\<forall>nm. item_path w l nm \<notin> dirs s) \<and> opened s = None \<and>
        (\<forall>f y. CHR ''/'' \<notin> set f \<longrightarrow> fils s (slash (list_path w l) @ f) = Some y \<longrightarrow> (\<exists>nm. f = nm @ strBin)))"

lemma store_ready_changes [simp]:
  "store_ready w (with_numbers w' l b i n s) l = store_ready w s l"
  "store_ready w s l \<Longrightarrow> store_ready w (put_item w l nm d s) l"
  "store_ready w s l \<Longrightarrow> store_ready w (del_item w l nm s) l"
proof -
  show "store_ready w (with_numbers w' l b i n s) l = store_ready w s l"
  proof -
    have "(\<exists>nm. m = item_object l nm) \<and> objs (with_numbers w' l b i n s) m \<noteq> None \<longleftrightarrow>
      (\<exists>nm. m = item_object l nm) \<and> objs s m \<noteq> None" for m by (auto simp: with_numbers_def)
    moreover have "class_of (with_numbers w' l b i n s) = class_of s" "dirs (with_numbers w' l b i n s) = dirs s"
      "opened (with_numbers w' l b i n s) = opened s" "fils (with_numbers w' l b i n s) = fils s"
      by (simp_all add: with_numbers_def)
    ultimately show ?thesis by (simp only: store_ready_def)
  qed
  show "store_ready w s l \<Longrightarrow> store_ready w (put_item w l nm d s) l"
    by (cases "objs s (item_object l nm)") (auto simp: store_ready_def put_item_def put_file_def put_object_def item_path_def)
  show "store_ready w s l \<Longrightarrow> store_ready w (del_item w l nm s) l"
    by (auto simp: store_ready_def del_item_def del_file_def del_object_def)
qed

lemma COMSA_dir_last [simp]: "last (COMSA_FOR_COREMW_DIR c) \<noteq> CHR ''/''" "COMSA_FOR_COREMW_DIR c \<noteq> []"
  by (simp_all add: COMSA_FOR_COREMW_DIR_def)

lemma strRpListPath_last [simp]: "last strRpListPath = CHR ''/''" "strRpListPath \<noteq> []" "strBin \<noteq> []"
  by (simp_all add: strRpListPath_def strBin_def)

lemma join_list_path: "pathToStorageDirectory w \<noteq> [] \<Longrightarrow>
    join_path (pathToStorageDirectory w) [COMSA_FOR_COREMW_DIR (cc w), strRpListPath, l] = Some (list_path w l)"
  by (simp add: list_path_def slash_def)

lemma join_item_path: "pathToStorageDirectory w \<noteq> [] \<Longrightarrow>
    join_path (pathToStorageDirectory w) [COMSA_FOR_COREMW_DIR (cc w), strRpListPath, l, nm @ strBin] = Some (item_path w l nm)"
  by (simp add: item_path_def list_path_def slash_def)

section \<open>Files\<close>

lemma runs_getBaseRepository: "pathToStorageDirectory w \<noteq> [] \<Longrightarrow> runs s0 (getBaseRepository E) w s MafOk w s"
  unfolding getBaseRepository_def by (rule runs_gets_bnd) (simp_all add: runs_return)

lemma runs_fullname:
  assumes "\<not> replicateInIMM w" "name_ok w l nm"
  shows "runs s0 (comsa_rplist_imm_getfullfilename E nm l) w s (item_path w l nm) w s"
proof -
  have p: "pathToStorageDirectory w \<noteq> []" "length (item_path w l nm) < MAX_PATH_DATA_LENGTH"
    using assms by (simp_all add: name_ok_def)
  then have "length (nm @ strBin) < MAX_PATH_DATA_LENGTH" by (simp add: item_path_def)
  with p show ?thesis
    unfolding comsa_rplist_imm_getfullfilename_def
    by (intro runs_bnd [OF runs_getBaseRepository] runs_gets_bnd)
      (simp_all add: createPath_def join_item_path runs_return del: join_path.simps)
qed

lemma runs_findFile:
  assumes "served s0 E" "\<not> replicateInIMM w" "name_ok w l nm" "store_ready w s l"
  shows "runs s0 (findFile E nm l) w s (if fils s (item_path w l nm) = None then MafNotExist else MafOk) w s"
  unfolding findFile_def
  by (rule runs_bnd [OF runs_fullname [OF assms(2,3)]], rule runs_call [OF assms(1)])
    (use assms(2,4) in \<open>auto simp: store_ready_def runs_return split: option.splits\<close>)

lemma runs_removeFile:
  assumes "served s0 E" "\<not> replicateInIMM w" "name_ok w l nm" "fils s (item_path w l nm) \<noteq> None"
  shows "runs s0 (removeFile E nm l) w s MafOk w (del_file (item_path w l nm) s)"
  unfolding removeFile_def
  by (rule runs_bnd [OF runs_fullname [OF assms(2,3)]], rule runs_call [OF assms(1)])
    (use assms(4) in \<open>auto simp: del_file_def runs_return\<close>)

lemma size_t_small: "unat b < 2 ^ 31 \<Longrightarrow> size_t b = unat b"
proof -
  assume b: "unat b < 2 ^ 31"
  then have u: "uint b < 2 ^ 31" by (metis of_nat_less_iff of_nat_numeral of_nat_power uint_nat)
  have "- (2 ^ 31) \<le> uint b" by (rule order_trans [of _ 0]) simp_all
  then have "sint b = uint b" using u signed_take_bit_int_eq_self [of 31 "uint b"] by (simp add: sint_uint)
  then have "(scast b :: 64 word) = ucast b" by (simp only: scast_eq ucast_eq)
  moreover have "unat (ucast b :: 64 word) = unat b"
    unfolding unsigned_ucast_eq by (rule take_bit_nat_eq_self) (use b in simp)
  ultimately show ?thesis by (simp only: size_t_def)
qed

lemma runs_read_bytes: "n \<le> length buf \<Longrightarrow> runs s0 (read_bytes (Some buf) n) w s (take n buf) w s"
  by (simp add: read_bytes_def runs_return)

lemma runs_write_bytes:
  "length bytes \<le> length buf \<Longrightarrow> runs s0 (write_bytes buf bytes) w s (bytes @ drop (length bytes) buf) w s"
  by (simp add: write_bytes_def runs_return)

lemma runs_writeToFile:
  assumes "served s0 E" "\<not> replicateInIMM w" "name_ok w l nm" "unat b < 2 ^ 31" "unat b \<le> length buf"
  shows "runs s0 (writeToFile E nm l (Some buf) b) w s MafOk w (put_file (item_path w l nm) (take (unat b) buf) s)"
proof -
  let ?p = "item_path w l nm"
  let ?bytes = "take (unat b) buf"
  have len: "length ?bytes = unat b" using assms(5) by simp
  show ?thesis
    unfolding writeToFile_def size_t_small [OF assms(4)]
  proof (rule runs_bnd [OF runs_fullname [OF assms(2,3)]], rule runs_call [OF assms(1)])
    fix fp
    assume fp: "serves s (FopenWb ?p) fp"
    let ?s1 = "happen (FopenWb ?p) fp s"
    have "runs s0 (bnd (read_bytes (Some buf) (unat b)) (\<lambda>bytes. bnd (call E (Fwrite bytes)) (\<lambda>n. bnd (call E Fclose) (\<lambda>c.
        return (if a_num c \<noteq> 0 then MafFailure else if of_int (a_num n) \<noteq> b then MafNoResources else MafOk))))) w ?s1
        MafOk w (put_file ?p ?bytes s)"
    proof (rule runs_bnd [OF runs_read_bytes [OF assms(5)]], rule runs_call [OF assms(1)], rule runs_call [OF assms(1)])
      fix n c
      assume n: "serves ?s1 (Fwrite ?bytes) n" and c: "serves (happen (Fwrite ?bytes) n ?s1) Fclose c"
      have "a_num n = int (unat b)" "a_num c = 0" using n c len by simp_all
      moreover from this have "happen Fclose c (happen (Fwrite ?bytes) n ?s1) = put_file ?p ?bytes s"
        using fp by (simp add: put_file_def)
      ultimately show "runs s0 (return (if a_num c \<noteq> 0 then MafFailure
            else if of_int (a_num n) \<noteq> b then MafNoResources else MafOk)) w
          (happen Fclose c (happen (Fwrite ?bytes) n ?s1)) MafOk w (put_file ?p ?bytes s)"
        by (simp add: runs_return)
    qed
    with fp show "runs s0 (if a_num fp = 0 then return MafFailure
       else bnd (read_bytes (Some buf) (unat b)) (\<lambda>bytes. bnd (call E (Fwrite bytes)) (\<lambda>n. bnd (call E Fclose) (\<lambda>c.
         return (if a_num c \<noteq> 0 then MafFailure else if of_int (a_num n) \<noteq> b then MafNoResources else MafOk))))) w ?s1
        MafOk w (put_file ?p ?bytes s)" by simp
  qed
qed

lemma runs_readFromFile:
  assumes "served s0 E" "\<not> replicateInIMM w" "name_ok w l nm" "unat b < 2 ^ 31"
    "fils s (item_path w l nm) = Some d" "length d = unat b" "unat b \<le> length buf" "opened s = None"
  shows "runs s0 (readFromFile E nm l buf b) w s (MafOk, d @ drop (unat b) buf) w s"
  unfolding readFromFile_def size_t_small [OF assms(4)] Let_def
proof (rule runs_bnd [OF runs_fullname [OF assms(2,3)]], rule runs_call [OF assms(1)])
  fix fp
  let ?p = "item_path w l nm"
  let ?s1 = "happen (FopenRb ?p) fp s"
  assume fp: "serves s (FopenRb ?p) fp"
  then have s1: "?s1 = s\<lparr>opened := Some ?p\<rparr>" "a_num fp \<noteq> 0" using assms(5) by auto
  let ?bytes = "\<lambda>r. take (unat b) (case a_text r of None \<Rightarrow> [] | Some s \<Rightarrow> s)"
  have "runs s0 (bnd (call E (Fread (unat b))) (\<lambda>r. bnd (write_bytes buf (?bytes r)) (\<lambda>data. bnd (call E Fclose) (\<lambda>c.
      return (if a_num c \<noteq> 0 \<or> of_nat (length (?bytes r)) \<noteq> b then MafFailure else MafOk, data))))) w ?s1
      (MafOk, d @ drop (unat b) buf) w s"
  proof (rule runs_call [OF assms(1)])
    fix r
    assume "serves ?s1 (Fread (unat b)) r"
    then have r: "a_text r = Some d" using s1 assms(5,6) by simp
    have "happen (Fread (unat b)) r ?s1 = ?s1" by simp
    moreover have "happen Fclose c ?s1 = s" for c using s1 assms(8) by simp
    ultimately show "runs s0 (bnd (write_bytes buf (?bytes r)) (\<lambda>data. bnd (call E Fclose) (\<lambda>c.
      return (if a_num c \<noteq> 0 \<or> of_nat (length (?bytes r)) \<noteq> b then MafFailure else MafOk, data)))) w
        (happen (Fread (unat b)) r ?s1) (MafOk, d @ drop (unat b) buf) w s"
      using r assms(6,7) runs_write_bytes [of d buf s0 w ?s1]
      by (auto intro!: runs_call [OF assms(1)] elim!: runs_bnd simp: runs_return)
  qed
  with s1 show "runs s0 (if a_num fp = 0 then return (MafFailure, buf)
     else bnd (call E (Fread (unat b))) (\<lambda>r. bnd (write_bytes buf (?bytes r)) (\<lambda>data. bnd (call E Fclose) (\<lambda>c.
      return (if a_num c \<noteq> 0 \<or> of_nat (length (?bytes r)) \<noteq> b then MafFailure else MafOk, data))))) w ?s1
      (MafOk, d @ drop (unat b) buf) w s" by simp
qed

text \<open>The list as the operations see it: its object can be read and written.\<close>

definition rlist_state :: "rl_world \<Rightarrow> store \<Rightarrow> string \<Rightarrow> 32 word \<Rightarrow> 32 word \<Rightarrow> 32 word \<Rightarrow> bool" where
  "rlist_state w s l b i n \<longleftrightarrow> ready w l \<and> store_ready w s l \<and> numbers w s l b i n \<and> unat b < 2 ^ 31"

lemma UINT_MAX_large: "unat b < 2 ^ 31 \<Longrightarrow> b \<noteq> UINT_MAX"
  by (auto simp: UINT_MAX_def unsigned_minus_1_eq_mask mask_eq_exp_minus_1)

lemma unat32: "unat (k :: 32 word) < 2 ^ 32"
proof -
  have "unat k < 2 ^ LENGTH(32)" by (rule unsigned_less)
  then show ?thesis by simp
qed

lemma rlist_stateD:
  assumes "rlist_state w s l b i n"
  shows "list_ready w l" "path_ok w l" "0 < k \<Longrightarrow> k < 2 ^ 32 \<Longrightarrow> name_ok w l (decimal k)" "store_ready w s l"
    "numbers w s l b i n" "unat b < 2 ^ 31" "b \<noteq> UINT_MAX" "fits w (l @ ''=1'')"
  using assms UINT_MAX_large by (auto simp: rlist_state_def ready_def list_ready_def)

lemma runs_autoRetry_writeToFile:
  assumes "served s0 E" "\<not> replicateInIMM w" "rlist_state w s l b i n" "name_ok w l nm" "unat b \<le> length buf"
  shows "runs s0 (autoRetry_writeToFile E l nm (Some buf)) w s MafOk w (put_file (item_path w l nm) (take (unat b) buf) s)"
proof -
  note D = rlist_stateD [OF assms(3)]
  have "runs s0 (write_attempts k E nm l (Some buf) b) w s MafOk w (put_file (item_path w l nm) (take (unat b) buf) s)" for k
    using runs_writeToFile [OF assms(1,2,4) D(6) assms(5), of s]
    by (cases k) (auto elim!: runs_bnd simp: runs_return)
  then show ?thesis
    unfolding autoRetry_writeToFile_def
    by (intro runs_bnd [OF block_size_runs [OF assms(1) D(1,5,7)]]) (simp add: D(7))
qed

section \<open>Objects\<close>

definition c_string :: "string \<Rightarrow> string" where
  "c_string buf = takeWhile (\<lambda>c. c \<noteq> CHR 0x00) buf"

text \<open>
  The bytes of a caller's buffer that the code stores: in objects, except for one list, those before the
  first NUL only.
\<close>

definition stored_bytes :: "rl_world \<Rightarrow> string \<Rightarrow> 32 word \<Rightarrow> string \<Rightarrow> string" where
  "stored_bytes w l b buf = (if replicateInIMM w \<and> l \<noteq> FM_STATUS_SECTION then c_string buf else take (unat b) buf)"

definition buffer_ok :: "rl_world \<Rightarrow> string \<Rightarrow> 32 word \<Rightarrow> string \<Rightarrow> bool" where
  "buffer_ok w l b buf \<longleftrightarrow>
     (if replicateInIMM w \<and> l \<noteq> FM_STATUS_SECTION then CHR 0x00 \<in> set buf \<and> length (c_string buf) \<le> unat b
      else unat b \<le> length buf)"

lemma c_string_prefix: "take (length (c_string buf)) buf = c_string buf" "length (c_string buf) \<le> length buf"
  unfolding c_string_def by (rule takeWhile_eq_take [symmetric], rule length_takeWhile_le)

lemma runs_item_length:
  assumes "served s0 E" "replicateInIMM w" "rlist_state w s l b i n" "buffer_ok w l b buf"
  shows "\<exists>len. runs s0 (item_length E l (Some buf)) w s (Inr len) w s \<and>
    unat len \<le> length buf \<and> take (unat len) buf = stored_bytes w l b buf"
proof (cases "l = FM_STATUS_SECTION")
  case True
  note D = rlist_stateD [OF assms(3)]
  have "runs s0 (item_length E l (Some buf)) w s (Inr b) w s"
    unfolding item_length_def if_P [OF True]
    by (rule runs_bnd [OF block_size_runs [OF assms(1) D(1,5,7)]]) (simp add: D(7) runs_return)
  then show ?thesis using assms(4) True by (intro exI [of _ b]) (simp add: buffer_ok_def stored_bytes_def)
next
  case False
  let ?n = "length (c_string buf)"
  have n: "?n \<le> unat b" "CHR 0x00 \<in> set buf" using assms(2,4) False by (simp_all add: buffer_ok_def)
  then have "?n < 2 ^ LENGTH(32)" using unat32 [of b] order_le_less_trans by auto
  then have u: "unat (of_nat ?n :: 32 word) = ?n" by (simp add: unat_of_nat)
  have "runs s0 (item_length E l (Some buf)) w s (Inr (of_nat ?n)) w s"
    unfolding item_length_def strlen_def using False n
    by (simp add: c_string_def runs_return_bnd runs_return)
  then show ?thesis using assms(2) False u c_string_prefix [of buf]
    by (intro exI [of _ "of_nat ?n"]) (simp add: stored_bytes_def)
qed

lemma runs_convert:
  "nm \<noteq> ''0'' \<Longrightarrow> fits w (item_object l nm) \<Longrightarrow>
     runs s0 (convertToRTObjectName l nm) w s (MafOk, Some (item_object l nm)) w s"
  unfolding convertToRTObjectName_def rl_strings
  by (auto intro!: runs_bnd runs_saNameSet simp: item_object_def runs_return)

lemma getRTObject_name: "getRTObject l k = item_object l (decimal (unat k))"
  by (simp add: getRTObject_def item_object_def rl_strings)

lemma runs_createObject:
  assumes "served s0 E"
  shows "runs s0 (createObject E (l @ sRuntimeIMMSuffix)
      [(Some sSaRlistRTdn, SA_IMM_ATTR_SANAMET, VName (item_object l nm)), (Some sData, SA_IMM_ATTR_SAANYT, VBytes d)]) w s
    (if objs s (item_object l nm) = None then MafOk else MafAlreadyExist) w
    (if objs s (item_object l nm) = None then put_object l nm d s else s)"
proof -
  have attrs: "map (\<lambda>(n, ty, v). \<lparr>attrName = the n, attrValueType = ty, attrValues = [v]\<rparr>)
      [(Some sSaRlistRTdn, SA_IMM_ATTR_SANAMET, VName (item_object l nm)), (Some sData, SA_IMM_ATTR_SAANYT, VBytes d)] =
      item_attrs l nm d" by (simp add: item_attrs_def)
  have all: "list_all (\<lambda>(n, ty, v). n \<noteq> None)
      [(Some sSaRlistRTdn, SA_IMM_ATTR_SANAMET, VName (item_object l nm)), (Some sData, SA_IMM_ATTR_SAANYT, VBytes d)]"
    by simp
  show ?thesis
    unfolding createObject_def attrs if_P [OF all] rl_wrappers
    by (rule runs_with_reset [OF assms])
      (auto simp: put_object_def runs_return split: if_splits option.splits)
qed

lemma runs_modifyObject:
  assumes "served s0 E" "objs s (item_object l nm) = Some as"
  shows "runs s0 (modifyObject E (item_object l nm) [data_mod d]) w s MafOk w (put_object l nm d s)"
  unfolding modifyObject_def rl_wrappers
  by (rule runs_with_reset [OF assms(1)]) (use assms(2) in \<open>auto simp: put_object_def runs_return\<close>)

lemma runs_addRlistRTObject:
  assumes "served s0 E" "replicateInIMM w" "rlist_state w s l b i n" "buffer_ok w l b buf" "k \<noteq> 0"
  shows "runs s0 (addRlistRTObject E l k (Some buf)) w s
    (if objs s (item_object l (decimal (unat k))) = None then MafOk else MafAlreadyExist) w
    (if objs s (item_object l (decimal (unat k))) = None then put_object l (decimal (unat k)) (stored_bytes w l b buf) s else s)"
proof -
  obtain len where len: "runs s0 (item_length E l (Some buf)) w s (Inr len) w s"
    "unat len \<le> length buf" "take (unat len) buf = stored_bytes w l b buf"
    using runs_item_length [OF assms(1-4)] by blast
  have "0 < unat k" "unat k < 2 ^ 32" using assms(5) unat32 [of k] by (simp_all add: unat_gt_0)
  then have "fits w (item_object l (decimal (unat k)))"
    using rlist_stateD(3) [OF assms(3), of "unat k"] assms(2) by (simp add: name_ok_def)
  then show ?thesis
    unfolding addRlistRTObject_def getRTObject_name
    using len runs_createObject [OF assms(1), of l "decimal (unat k)" "stored_bytes w l b buf" w s]
    by (intro runs_bnd [OF len(1)]) (auto intro!: runs_bnd [OF runs_saNameSet] runs_bnd [OF runs_read_bytes])
qed

lemma runs_modifyRlistRTObject:
  assumes "served s0 E" "replicateInIMM w" "rlist_state w s l b i n" "buffer_ok w l b buf" "name_ok w l nm"
    "objs s (item_object l nm) = Some as"
  shows "runs s0 (modifyRlistRTObject E l nm (Some buf)) w s MafOk w (put_object l nm (stored_bytes w l b buf) s)"
proof -
  obtain len where len: "runs s0 (item_length E l (Some buf)) w s (Inr len) w s"
    "unat len \<le> length buf" "take (unat len) buf = stored_bytes w l b buf"
    using runs_item_length [OF assms(1-4)] by blast
  have "runs s0 (convertToRTObjectName l nm) w s (MafOk, Some (item_object l nm)) w s"
    using assms(2,5) by (auto intro: runs_convert simp: name_ok_def)
  then show ?thesis
    unfolding modifyRlistRTObject_def
    using len runs_modifyObject [OF assms(1,6), of "stored_bytes w l b buf" w]
    by (intro runs_bnd [OF len(1)])
      (auto elim!: runs_bnd intro!: runs_bnd [OF runs_read_bytes] simp: data_mod_def)
qed

section \<open>Either way\<close>

lemma runs_store_item:
  assumes "served s0 E" "rlist_state w s l b i n" "buffer_ok w l b buf" "k \<noteq> 0"
  shows "runs s0 (store_item E l k (Some buf)) w s MafOk w (put_item w l (decimal (unat k)) (stored_bytes w l b buf) s)"
proof -
  have k: "0 < unat k" "unat k < 2 ^ 32" using assms(4) unat32 [of k] by (simp_all add: unat_gt_0)
  note nm = rlist_stateD(3) [OF assms(2) k]
  show ?thesis
    unfolding store_item_def
  proof (rule runs_gets_bnd)
    show "runs s0 (if \<not> replicateInIMM w
      then bnd (autoRetry_writeToFile E l (decimal (unat k)) (Some buf)) (\<lambda>maf_rc.
        andthen (unless (maf_rc = MafOk) (bnd (removeFile E (decimal (unat k)) l) (\<lambda>rc. return ()))) (return maf_rc))
      else bnd (addRlistRTObject E l k (Some buf)) (\<lambda>maf_rc.
        if maf_rc = MafAlreadyExist then modifyRlistRTObject E l (decimal (unat k)) (Some buf) else return maf_rc))
      w s MafOk w (put_item w l (decimal (unat k)) (stored_bytes w l b buf) s)"
    proof (cases "replicateInIMM w")
      case False
      then have "runs s0 (autoRetry_writeToFile E l (decimal (unat k)) (Some buf)) w s MafOk w
          (put_item w l (decimal (unat k)) (stored_bytes w l b buf) s)"
        using runs_autoRetry_writeToFile [OF assms(1) _ assms(2) nm, of buf] assms(3)
        by (simp add: buffer_ok_def stored_bytes_def put_item_def)
      with False show ?thesis by (auto elim!: runs_bnd intro!: runs_andthen runs_unless runs_return)
    next
      case True
      show ?thesis
      proof (cases "objs s (item_object l (decimal (unat k)))")
        case None
        then show ?thesis
          using True runs_addRlistRTObject [OF assms(1) True assms(2-4)]
          by (auto elim!: runs_bnd simp: runs_return put_item_def)
      next
        case (Some as)
        then show ?thesis
          using True runs_addRlistRTObject [OF assms(1) True assms(2-4)]
            runs_modifyRlistRTObject [OF assms(1) True assms(2,3) nm Some]
          by (auto elim!: runs_bnd simp: put_item_def)
      qed
    qed
  qed simp
qed

end
