(* ===== verification/RlConf.thy ===== *)
theory RlConf
  imports RlList AcInit
begin

text \<open>
  The replicated list, part 4: its configuration, start and stop, and the interface table
  (\<open>rlist/ComSARlist.c\<close> and the end of \<open>rlist/ComSARlist_imm.cc\<close>).
\<close>

section \<open>Configuration\<close>

text \<open>
  \<open>strtoull (s, NULL, 0)\<close> on any string: white space, a sign, a prefix that chooses the base, and
  the digits that follow; a negative number is taken modulo \<open>2 ^ 64\<close>, too large ones give \<open>ULLONG_MAX\<close>.
\<close>

definition hex_value :: "char \<Rightarrow> nat" where
  "hex_value c = (if isdigit c then digit_value c
     else let n = of_char c in
       if 97 \<le> n \<and> n \<le> 102 then n - 87 else if 65 \<le> n \<and> n \<le> 70 then n - 55 else 16)"

definition base_value :: "nat \<Rightarrow> string \<Rightarrow> nat" where
  "base_value b s = foldl (\<lambda>v c. v * b + hex_value c) 0 (takeWhile (\<lambda>c. hex_value c < b) s)"

fun magnitude :: "string \<Rightarrow> nat" where
  "magnitude (z # x # h # s) =
     (if z = CHR ''0'' \<and> (x = CHR ''x'' \<or> x = CHR ''X'') \<and> hex_value h < 16 then base_value 16 (h # s)
      else if z = CHR ''0'' then base_value 8 (x # h # s) else base_value 10 (z # x # h # s))"
| "magnitude s = (case s of z # zs \<Rightarrow> if z = CHR ''0'' then base_value 8 zs else base_value 10 s | [] \<Rightarrow> 0)"

definition strtoull :: "string \<Rightarrow> 64 word" where
  "strtoull s = (case dropWhile isspace s of [] \<Rightarrow> 0
     | c # cs \<Rightarrow>
         let neg = (c = CHR ''-''); m = magnitude (if c = CHR ''-'' \<or> c = CHR ''+'' then cs else c # cs) in
         if 2 ^ 64 \<le> m then - 1 else if neg then - of_nat m else of_nat m)"

definition readShmmaxValue :: "outside \<Rightarrow> 64 word rlp" where
  "readShmmaxValue E = bnd (call E (Fopen ''/proc/sys/kernel/shmmax'')) (\<lambda>f. case a_text f of
       None \<Rightarrow> return 0
     | Some content \<Rightarrow> bnd (call E (Fgets SA_MAX_UNEXTENDED_NAME_LENGTH)) (\<lambda>r.
         andthen (do_call E Fclose) (return (case a_text r of None \<Rightarrow> 0 | Some buf \<Rightarrow> strtoull buf))))"

text \<open>The limit becomes that of the system, or stays, and is lowered to the configured value.\<close>

definition set_rlist_maxsize :: "outside \<Rightarrow> xml \<Rightarrow> unit rlp" where
  "set_rlist_maxsize E cfg = (case coremw_xmlnode_get_attribute cfg ''maxsize'' of
       None \<Rightarrow> die Wild
     | Some None \<Rightarrow> return ()
     | Some (Some maxsize) \<Rightarrow>
         let rlist_confsize = strtoull maxsize in
         if rlist_confsize = 0 then return ()
         else bnd (readShmmaxValue E) (\<lambda>systemMaxSize.
           bnd (gets rlist_maxsize) (\<lambda>default_rlist_maxsize.
           let mx = (if systemMaxSize \<noteq> 0 then systemMaxSize else default_rlist_maxsize) in
           modify (\<lambda>w. w\<lparr>rlist_maxsize := if rlist_confsize < mx then rlist_confsize else mx\<rparr>))))"

definition set_clearAlarmsOnClusterReboot :: "xml \<Rightarrow> unit rlp" where
  "set_clearAlarmsOnClusterReboot cfg =
     (case coremw_xmlnode_get_attribute cfg ''clearAlarmsOnClusterReboot'' of
       None \<Rightarrow> die Wild
     | Some None \<Rightarrow> return ()
     | Some (Some v) \<Rightarrow> unless (map to_lower v \<noteq> ''false'') (modify (\<lambda>w. w\<lparr>clearAlarmsOnClusterReboot := False\<rparr>)))"

definition set_replicateInIMM :: "outside \<Rightarrow> unit rlp" where
  "set_replicateInIMM E = bnd (call E (GetEnv ''LDA_DEPLOYMENT'')) (\<lambda>a.
     unless (a_text a \<noteq> Some ''1'') (modify (\<lambda>w. w\<lparr>replicateInIMM := True\<rparr>)))"

definition MW_COMPONENT_NAME :: string where "MW_COMPONENT_NAME = ''MW''"

definition maf_comSAMwComponentInitialize :: "outside \<Rightarrow> xml option \<Rightarrow> MafReturnT rlp" where
  "maf_comSAMwComponentInitialize E config =
     andthen (case coremw_find_config_item config MW_COMPONENT_NAME ''replicatedlist'' of None \<Rightarrow> return ()
        | Some cfg \<Rightarrow> andthen (set_rlist_maxsize E cfg) (set_clearAlarmsOnClusterReboot cfg))
    (andthen (set_replicateInIMM E)
    (bnd (call E (PortalRegister MW_COMPONENT_NAME)) (\<lambda>a. return (a_maf a))))"

definition maf_comSAMwComponentFinalize :: "outside \<Rightarrow> unit rlp" where
  "maf_comSAMwComponentFinalize E = do_call E (PortalUnregister MW_COMPONENT_NAME)"

section \<open>Start and stop\<close>

text \<open>The names of the attributes are made at the start and freed at the stop.\<close>

definition maf_comsa_imm_comSAMwComponentStart :: "outside \<Rightarrow> MafReturnT rlp" where
  "maf_comsa_imm_comSAMwComponentStart E =
     bnd (gets rplistOiSetFlag) (\<lambda>isSet.
     bnd (if isSet then return MafOk else comsa_rplist_immOi_set E) (\<lambda>rc.
     if rc \<noteq> MafOk then return MafFailure
     else andthen (modify (\<lambda>w. w\<lparr>rplistOiSetFlag := True,
         strRlistBlockSize := Some (cc w @ ''saRlistBlockSize''),
         strRlistLastId := Some (cc w @ ''saRlistLastId''),
         strRlistNumElements := Some (cc w @ ''saRlistNumElements'')\<rparr>)) (return MafOk)))"

definition maf_comsa_imm_comSAMwComponentStop :: "outside \<Rightarrow> MafReturnT rlp" where
  "maf_comsa_imm_comSAMwComponentStop E =
     andthen (modify (\<lambda>w. w\<lparr>strRlistBlockSize := None, strRlistLastId := None, strRlistNumElements := None\<rparr>))
    (bnd (gets rplistImmOiHandle) (\<lambda>h. bnd (autoRetry_saImmOiImplementerClear E h) (\<lambda>a.
     bnd (gets cc) (\<lambda>c.
     andthen (comsa_rplist_immOi_finalize E)
    (bnd (gets immAccessHandle) (\<lambda>ah.
     andthen (comsa_rplist_immAccess_finalize E ah)
    (andthen (comsa_rplist_imm_finalize E)
       (return (if a_rc a \<noteq> SA_AIS_OK \<and> c \<noteq> ''lm'' then MafFailure else MafOk)))))))))"

text \<open>The wrappers in \<open>ComSARlist.c\<close>.\<close>

definition maf_comSAMwComponentStart :: "outside \<Rightarrow> MafReturnT rlp" where
  "maf_comSAMwComponentStart E = maf_comsa_imm_comSAMwComponentStart E"

definition maf_comSAMwComponentStop :: "outside \<Rightarrow> MafReturnT rlp" where
  "maf_comSAMwComponentStop E = maf_comsa_imm_comSAMwComponentStop E"

section \<open>The interface\<close>

datatype rl_op =
    ListCreate "MafMwSpiListNameT option" "32 word"
  | ListDelete "MafMwSpiListNameT option"
  | ListClear "MafMwSpiListNameT option"
  | ListGetSize "MafMwSpiListNameT option"
  | ListIsEmpty "MafMwSpiListNameT option"
  | ListGetFrontRef "MafMwSpiListNameT option" bool
  | ListPushBack "MafMwSpiListNameT option" bool "string option"
  | ListPopBack "MafMwSpiListNameT option"
  | ListEraseItem "MafMwSpiListNameT option" "MafMwSpiListNameT option"
  | ListGetNextItemFront "MafMwSpiListNameT option" "nat option option" bool "string option"
  | ListGetFinalize "MafMwSpiListNameT option" "nat option"
  | ListFindItem "MafMwSpiListNameT option" "MafMwSpiListNameT option" "string option"
  | ListReplaceItem "MafMwSpiListNameT option" "MafMwSpiListNameT option" "string option"
  | ListNumberOfListInstances bool
  | ListMemoryUsage bool bool

datatype rl_out =
    NoOut | OutNumber "32 word option" | OutEmpty "bool option" | OutRef "nat option option"
  | OutName "MafMwSpiListNameT option" | OutNext next_result | OutData "string option"
  | OutUsage "(32 word \<times> 32 word) option"

definition code_only :: "MafReturnT rlp \<Rightarrow> (MafReturnT \<times> rl_out) rlp" where
  "code_only m = bnd m (\<lambda>rc. return (rc, NoOut))"

definition with_out :: "('a \<Rightarrow> rl_out) \<Rightarrow> (MafReturnT \<times> 'a) rlp \<Rightarrow> (MafReturnT \<times> rl_out) rlp" where
  "with_out f m = bnd m (\<lambda>(rc, out). return (rc, f out))"

text \<open>The C functions \<open>maf_comsa_imm_list...\<close>, each of which calls one method.\<close>

fun maf_comsa_imm_list :: "outside \<Rightarrow> rl_op \<Rightarrow> (MafReturnT \<times> rl_out) rlp" where
  "maf_comsa_imm_list E (ListCreate l n) = code_only (listCreate E l n)"
| "maf_comsa_imm_list E (ListPushBack l g d) = with_out OutName (listPushBack E l g d)"
| "maf_comsa_imm_list E (ListDelete l) = code_only (listDelete E l)"
| "maf_comsa_imm_list E (ListClear l) = code_only (listClear E l)"
| "maf_comsa_imm_list E (ListGetSize l) = with_out OutNumber (listGetSize E l)"
| "maf_comsa_imm_list E (ListIsEmpty l) = with_out OutEmpty (listIsEmpty E l)"
| "maf_comsa_imm_list E (ListPopBack l) = code_only (listPopBack E l)"
| "maf_comsa_imm_list E (ListEraseItem l i) = code_only (listEraseItem E l i)"
| "maf_comsa_imm_list E (ListGetFrontRef l g) = with_out OutRef (listGetFrontRef E l g)"
| "maf_comsa_imm_list E (ListGetFinalize l r) = code_only (listGetFinalize l r)"
| "maf_comsa_imm_list E (ListGetNextItemFront l r g d) =
     bnd (listGetNextItemFront E l r g d) (\<lambda>n. return (nx_rc n, OutNext n))"
| "maf_comsa_imm_list E (ListFindItem l i d) = with_out OutData (listFindItem E l i d)"
| "maf_comsa_imm_list E (ListReplaceItem l i d) = code_only (listReplaceItem E l i d)"
| "maf_comsa_imm_list E (ListNumberOfListInstances g) = with_out OutNumber (listNumberOfListInstances g)"
| "maf_comsa_imm_list E (ListMemoryUsage u t) = with_out OutUsage (listMemoryUsage u t)"

text \<open>The functions of the table \<open>maf_rlistService\<close>; one of them checks its arguments itself.\<close>

fun maf_comsa_list :: "outside \<Rightarrow> rl_op \<Rightarrow> (MafReturnT \<times> rl_out) rlp" where
  "maf_comsa_list E (ListEraseItem l i) =
     (if l = None \<or> i = None then return (MafInvalidArgument, NoOut)
      else maf_comsa_imm_list E (ListEraseItem l i))"
| "maf_comsa_list E op = maf_comsa_imm_list E op"

end
