(* ===== verification/RlRefine.thy ===== *)
theory RlRefine
  imports RlOps RlConf
begin

text \<open>
  The operations of the replicated list refine those of an abstract one: a list of numbered items in
  the order of their numbers, and the last number given out.
\<close>

section \<open>The state of a list\<close>

text \<open>A file has exactly the size of an item, an object may hold fewer bytes.\<close>

definition sized :: "rl_world \<Rightarrow> 32 word \<Rightarrow> (nat \<times> string) list \<Rightarrow> bool" where
  "sized w b xs \<longleftrightarrow> (\<forall>d \<in> snd ` set xs. if replicateInIMM w then length d \<le> unat b else length d = unat b)"

definition rlist :: "rl_world \<Rightarrow> store \<Rightarrow> string \<Rightarrow> 32 word \<Rightarrow> 32 word \<Rightarrow> (nat \<times> string) list \<Rightarrow> bool" where
  "rlist w s l b i xs \<longleftrightarrow> ready w l \<and> store_ready w s l \<and> b \<noteq> 0 \<and> unat b < 2 ^ 31 \<and> list_holds w s l b i xs \<and> sized w b xs"

lemma rlist_state: "rlist w s l b i xs \<Longrightarrow> rlist_state w s l b i (of_nat (length xs))"
  by (simp add: rlist_def rlist_state_def list_holds_numbers)

lemma numbers_bound:
  assumes "sorted_wrt (<) (map fst xs)" "\<forall>k \<in> fst ` set xs. 0 < k \<and> k \<le> (m :: nat)"
  shows "length xs \<le> m"
proof -
  have d: "distinct (map fst xs)" using assms(1) by (simp add: strict_sorted_iff)
  have "length xs = card (set (map fst xs))" using distinct_card [OF d] by simp
  also have "\<dots> \<le> card {1..m}" by (rule card_mono) (use assms(2) in auto)
  finally show ?thesis by simp
qed

lemma rlist_length: "rlist w s l b i xs \<Longrightarrow> length xs \<le> unat i"
  using list_holds_items by (fastforce simp: rlist_def intro: numbers_bound)

lemma listing_irrelevant [simp]:
  "list_holds w (s\<lparr>listing := x\<rparr>) l b i xs = list_holds w s l b i xs"
  "store_ready w (s\<lparr>listing := x\<rparr>) l = store_ready w s l"
  "numbers w (s\<lparr>listing := x\<rparr>) l b i n = numbers w s l b i n"
  by (simp_all add: list_holds_def files.holds_def objects.holds_def numbers_def get_object_def objects_ok_def store_ready_def)

lemma rlist_listing [simp]: "rlist w (s\<lparr>listing := x\<rparr>) l b i xs = rlist w s l b i xs"
  by (simp add: rlist_def)

text \<open>Names the caller may use for an item: they fit in the buffers.\<close>

definition valid_item :: "rl_world \<Rightarrow> string \<Rightarrow> MafMwSpiListNameT \<Rightarrow> bool" where
  "valid_item w l nm \<longleftrightarrow> validateName (Some nm) \<and> name_ok w l (name_value nm)"

definition item_numbers :: "(nat \<times> string) list \<Rightarrow> string set" where
  "item_numbers xs = decimal ` fst ` set xs"

lemma list_holds_get:
  "list_holds w s l b i xs \<Longrightarrow> get_item w l s nm = map_of (map (\<lambda>(k, d). (decimal k, d)) xs) nm"
  by (simp add: list_holds_def get_item_def files.holds_def objects.holds_def split: if_splits)

lemma present_iff: "list_holds w s l b i xs \<Longrightarrow> get_item w l s nm \<noteq> None \<longleftrightarrow> nm \<in> item_numbers xs"
  by (force simp: list_holds_get item_numbers_def map_of_eq_None_iff image_iff)

section \<open>The size\<close>

lemma runs_listGetSize:
  assumes "served s0 E" "rlist w s (name_value l) b i xs" "validateName (Some l)"
  shows "runs s0 (listGetSize E (Some l)) w s (MafOk, Some (of_nat (length xs))) w s"
proof -
  note D = rlist_stateD [OF rlist_state [OF assms(2)]]
  show ?thesis
    unfolding listGetSize_def option.case using assms(3)
    by (auto intro!: runs_bnd [OF runs_numbers(3) [OF assms(1) D(1,5)]] simp: runs_return)
qed

section \<open>Adding an item\<close>

lemma join_full_path: "path_ok w l \<Longrightarrow> \<not> replicateInIMM w \<Longrightarrow>
    pathToStorageDirectory w @ ''/'' @ COMSA_FOR_COREMW_DIR (cc w) @ ''/'' @ strRpListPath @ l = list_path w l"
  by (simp add: path_ok_def list_path_def slash_def)

lemma runs_fullPath:
  "path_ok w l \<Longrightarrow> \<not> replicateInIMM w \<Longrightarrow> runs s0 (comsa_rplist_imm_getfullPath E l) w s (list_path w l) w s"
  unfolding comsa_rplist_imm_getfullPath_def Let_def
  by (intro runs_bnd [OF runs_getBaseRepository] runs_gets_bnd, simp add: path_ok_def, simp, simp,
      subst (1 2) join_full_path) (simp_all add: path_ok_def runs_return)

lemma runs_path_exists:
  assumes "served s0 E" "path_ok w l" "store_ready w s l"
  shows "\<exists>x. runs s0 (path_exists E l) w s (Some True) w (s\<lparr>listing := x\<rparr>)"
proof (cases "replicateInIMM w")
  case True
  have s: "s = s\<lparr>listing := listing s\<rparr>" by simp
  have "runs s0 (path_exists E l) w s (Some True) w s"
    unfolding path_exists_def by (rule runs_gets_bnd) (simp_all add: True runs_return)
  then show ?thesis using s by metis
next
  case False
  have "runs s0 (path_exists E l) w s (Some True) w (s\<lparr>listing := {}\<rparr>)"
    unfolding path_exists_def
  proof (rule runs_gets_bnd)
    show "runs s0 (if replicateInIMM w then return (Some True)
     else bnd (comsa_rplist_imm_getfullPath E l) (\<lambda>fullPath. bnd (call E (Opendir fullPath)) (\<lambda>pDir.
       if a_num pDir \<noteq> 0 then andthen (do_call E Closedir) (return (Some True))
       else bnd (createDir E l strRpListPath) (\<lambda>rc.
         if rc \<noteq> MafOk then return None
         else andthen (reset_numbers E l) (return (Some False))))))
      w s (Some True) w (s\<lparr>listing := {}\<rparr>)"
      unfolding if_not_P [OF False]
      by (rule runs_bnd [OF runs_fullPath [OF assms(2) False]], rule runs_call [OF assms(1)])
        (use False assms(3) in \<open>auto simp: store_ready_def intro!: runs_andthen [OF runs_do_call [OF assms(1)]] runs_return\<close>)
  qed simp
  then show ?thesis by blast
qed

lemma runs_list_numbers:
  assumes "served s0 E" "rlist_state w s l b i n"
  shows "runs s0 (list_numbers E l True) w s (Some (i, n)) w s"
  unfolding list_numbers_def using rlist_stateD [OF assms(2)]
  by (auto intro!: runs_bnd [OF runs_numbers(2) [OF assms(1)]] runs_bnd [OF runs_numbers(3) [OF assms(1)]] simp: runs_return)

lemma ucast_not_ULONG_MAX: "(ucast (k :: 32 word) :: 64 word) \<noteq> ULONG_MAX"
proof
  assume "(ucast k :: 64 word) = ULONG_MAX"
  then have "unat (ucast k :: 64 word) = 2 ^ 64 - 1"
    by (simp add: ULONG_MAX_def unsigned_minus_1_eq_mask mask_eq_exp_minus_1)
  moreover have "unat (ucast k :: 64 word) = unat k"
    unfolding unsigned_ucast_eq by (rule take_bit_nat_eq_self) (use unat32 [of k] in simp)
  ultimately show False using unat32 [of k] by simp
qed

lemma sized_push: "sized w b xs \<Longrightarrow> buffer_ok w l b buf \<Longrightarrow> sized w b (xs @ [(k, stored_bytes w l b buf)])"
  by (auto simp: sized_def buffer_ok_def stored_bytes_def split: if_splits)

lemma push_refines:
  assumes E: "served s0 E" and R: "rlist w s (name_value l) b i xs" and l: "validateName (Some l)"
    and i: "unat i + 1 < 2 ^ 32" and buf: "buffer_ok w (name_value l) b buf"
  shows "\<exists>s'. runs s0 (listPushBack E (Some l) True (Some buf)) w s (MafOk, Some (item_name (i + 1))) w s' \<and>
     rlist w s' (name_value l) b (i + 1) (xs @ [(unat i + 1, stored_bytes w (name_value l) b buf)])"
proof -
  define n :: "32 word" where "n = of_nat (length xs)"
  let ?l = "name_value l" and ?d = "stored_bytes w (name_value l) b buf"
  obtain x where x: "runs s0 (path_exists E ?l) w s (Some True) w (s\<lparr>listing := x\<rparr>)"
    using runs_path_exists [OF E, of w ?l s] R by (auto simp: rlist_def ready_def)
  define s1 where "s1 = s\<lparr>listing := x\<rparr>"
  have R1: "rlist w s1 ?l b i xs" using R by (simp add: s1_def)
  note S = rlist_state [OF R1, folded n_def]
  note D = rlist_stateD [OF S]
  have i1: "unat (i + 1) = unat i + 1" "i + 1 \<noteq> 0" using i by (auto simp: unat_word_ariths dest: arg_cong [where f = unat])
  define s2 where "s2 = put_item w ?l (decimal (unat i + 1)) ?d s1"
  define s3 where "s3 = with_numbers w ?l b (i + 1) (n + 1) s2"
  have put: "runs s0 (store_item E ?l (i + 1) (Some buf)) w s1 MafOk w s2"
    using runs_store_item [OF E S buf i1(2)] by (simp only: i1(1) s2_def)
  have n2: "numbers w s2 ?l b i n" using D(5) files.nums_put objects.nums_put by (simp add: put_item_def s2_def)
  have setn: "runs s0 (set_num E ?l (n + 1)) w s2 MafOk w (with_numbers w ?l b i (n + 1) s2)"
    by (rule runs_set_numbers(2) [OF E D(1) n2])
  have setl: "runs s0 (set_last E ?l (i + 1)) w (with_numbers w ?l b i (n + 1) s2) MafOk w s3"
    using runs_set_numbers(1) [OF E D(1), of "with_numbers w ?l b i (n + 1) s2" b i "n + 1" "i + 1"] by (simp add: s3_def)
  have "runs s0 (listPushBack E (Some l) True (Some buf)) w s (MafOk, Some (item_name (i + 1))) w s3"
    unfolding listPushBack_def option.case using l ucast_not_ULONG_MAX [of "i + 1"]
    by (auto intro!: runs_bnd [OF x [folded s1_def]] runs_bnd [OF runs_list_numbers [OF E S]] runs_bnd [OF put] runs_bnd [OF setn] runs_bnd [OF setl]
        simp: runs_return)
  moreover have "rlist w s3 ?l b (i + 1) (xs @ [(unat i + 1, ?d)])"
    using R1 list_holds_push [OF _ i, of w s1 ?l b xs ?d] rlist_length [OF R] i sized_push [OF _ buf]
    by (simp add: rlist_def s3_def s2_def n_def)
  ultimately show ?thesis by blast
qed

section \<open>Erasing an item\<close>

lemma objects_present:
  assumes "list_holds w s l b i xs" "replicateInIMM w"
  shows "objs s (item_object l nm) = None \<longleftrightarrow> nm \<notin> item_numbers xs"
proof -
  have "objects_ok l s" using assms by (simp add: list_holds_def objects.holds_def)
  then have "objs s (item_object l nm) = None \<longleftrightarrow> get_item w l s nm = None"
    using assms(2) objects_okD [of l s nm] by (cases "objs s (item_object l nm)") (auto simp: get_item_def get_object_def)
  then show ?thesis using present_iff [OF assms(1), of nm] by blast
qed

lemma files_present:
  "list_holds w s l b i xs \<Longrightarrow> \<not> replicateInIMM w \<Longrightarrow> fils s (item_path w l nm) = None \<longleftrightarrow> nm \<notin> item_numbers xs"
  using present_iff [of w s l b i xs nm] by (auto simp: get_item_def)

lemma runs_deleteRTObject:
  assumes "served s0 E" "replicateInIMM w" "name_ok w l nm"
  shows "runs s0 (deleteRTObject E l nm) w s (if objs s (item_object l nm) = None then MafNotExist else MafOk) w
    (if objs s (item_object l nm) = None then s else del_object l nm s)"
proof -
  have c: "runs s0 (convertToRTObjectName l nm) w s (MafOk, Some (item_object l nm)) w s"
    using assms(2,3) by (auto intro: runs_convert simp: name_ok_def)
  have d: "runs s0 (deleteObject E (item_object l nm)) w s (if objs s (item_object l nm) = None then MafFailure else MafOk) w
    (if objs s (item_object l nm) = None then s else del_object l nm s)"
    unfolding deleteObject_def rl_wrappers
    by (rule runs_with_reset [OF assms(1)]) (auto simp: del_object_def runs_return)
  show ?thesis
    unfolding deleteRTObject_def using d by (auto intro!: runs_bnd [OF c] elim!: runs_bnd simp: runs_return)
qed

lemma runs_remove_item_file:
  assumes "served s0 E" "\<not> replicateInIMM w" "name_ok w l nm" "store_ready w s l"
  shows "runs s0 (remove_item_file E l nm) w s (fils s (item_path w l nm) \<noteq> None) w
    (if fils s (item_path w l nm) = None then s else del_file (item_path w l nm) s)"
  unfolding remove_item_file_def using runs_removeFile [OF assms(1-3), of s]
  by (auto intro!: runs_bnd [OF runs_findFile [OF assms]] elim!: runs_bnd simp: runs_return)

lemma runs_decrement_items:
  assumes "served s0 E" "list_ready w l" "numbers w s l b i n"
  shows "runs s0 (decrement_items E l) w s (Some (n - 1)) w (with_numbers w l b i (n - 1) s)"
  unfolding decrement_items_def
  by (auto intro!: runs_bnd [OF runs_numbers(3) [OF assms]] runs_bnd [OF runs_set_numbers(2) [OF assms]] simp: runs_return)

text \<open>The item is removed; \<open>ok\<close> says whether it was there.\<close>

lemma runs_remove:
  assumes E: "served s0 E" and R: "rlist w s l b i xs" and nm: "name_ok w l nm"
  shows "\<not> replicateInIMM w \<Longrightarrow> runs s0 (remove_item_file E l nm) w s (nm \<in> item_numbers xs) w
      (if nm \<in> item_numbers xs then del_item w l nm s else s)"
    and "replicateInIMM w \<Longrightarrow> runs s0 (deleteRTObject E l nm) w s (if nm \<in> item_numbers xs then MafOk else MafNotExist) w
      (if nm \<in> item_numbers xs then del_item w l nm s else s)"
  using runs_remove_item_file [OF E _ nm, of s] runs_deleteRTObject [OF E _ nm, of s] R
    files_present [of w s l b i xs nm] objects_present [of w s l b i xs nm]
  by (auto simp: rlist_def del_item_def split: if_splits)

lemma filter_absent: "nm \<notin> item_numbers xs \<Longrightarrow> filter (\<lambda>(j, d). decimal j \<noteq> nm) xs = xs"
  by (force simp: item_numbers_def filter_id_conv)

lemma sized_filter: "sized w b xs \<Longrightarrow> sized w b (filter p xs)"
  by (auto simp: sized_def)

lemma rlist_del:
  assumes R: "rlist w s l b i xs" and nm: "nm \<in> item_numbers xs"
  shows "rlist w (with_numbers w l b i (of_nat (length xs) - 1) (del_item w l nm s)) l b i
      (filter (\<lambda>(j, d). decimal j \<noteq> nm) xs)"
proof -
  obtain k where k: "k \<in> fst ` set xs" "nm = decimal k" using nm by (auto simp: item_numbers_def)
  show ?thesis using R list_holds_erase [of w s l b i xs k] k(1) unfolding k(2)
    by (auto simp: rlist_def sized_filter)
qed

lemma erase_refines:
  assumes E: "served s0 E" and R: "rlist w s (name_value l) b i xs" and l: "validateName (Some l)"
    and nm: "valid_item w (name_value l) nm"
  shows "\<exists>s'. runs s0 (listEraseItem E (Some l) (Some nm)) w s
       (if name_value nm \<in> item_numbers xs then MafOk else MafNotExist) w s' \<and>
     rlist w s' (name_value l) b i (filter (\<lambda>(j, d). decimal j \<noteq> name_value nm) xs)"
proof -
  let ?l = "name_value l" and ?nm = "name_value nm"
  note rm = runs_remove [OF E R, of ?nm]
  define ok where "ok \<longleftrightarrow> ?nm \<in> item_numbers xs"
  define s1 where "s1 = (if ok then del_item w ?l ?nm s else s)"
  have v: "validateName (Some nm)" "name_ok w ?l ?nm" using nm by (simp_all add: valid_item_def)
  define m where "m = (if \<not> replicateInIMM w then remove_item_file E ?l ?nm
      else bnd (deleteRTObject E ?l ?nm) (\<lambda>rc. return (rc \<noteq> MafNotExist)))"
  have m: "runs s0 m w s ok w s1"
    using rm [OF v(2)] by (auto simp: m_def ok_def s1_def runs_return elim!: runs_bnd split: if_splits)
  have tail: "runs s0 (listEraseItem E (Some l) (Some nm)) w s r w s'"
    if "runs s0 (if \<not> ok then return MafNotExist
      else bnd (decrement_items E ?l) (\<lambda>n. return (if n = None then MafNotExist else MafOk))) w s1 r w s'" for r s'
    unfolding listEraseItem_def prod.case option.case using l v(1)
    by (auto intro!: runs_gets_bnd runs_bnd [OF m [unfolded m_def]] that simp del: if_not_P)
  show ?thesis
  proof (cases ok)
    case False
    then show ?thesis using tail [of MafNotExist s] R filter_absent [of ?nm xs]
      by (auto simp: ok_def s1_def runs_return)
  next
    case True
    have n: "numbers w s1 ?l b i (of_nat (length xs))"
      using rlist_stateD(5) [OF rlist_state [OF R]] files.nums_del objects.nums_del by (simp add: s1_def True del_item_def)
    have "runs s0 (bnd (decrement_items E ?l) (\<lambda>n. return (if n = None then MafNotExist else MafOk))) w s1 MafOk w
        (with_numbers w ?l b i (of_nat (length xs) - 1) s1)"
      using rlist_stateD(1) [OF rlist_state [OF R]]
      by (auto intro!: runs_bnd [OF runs_decrement_items [OF E _ n]] simp: runs_return)
    from tail [of MafOk, simplified True, simplified, OF this] show ?thesis
      using True rlist_del [OF R, of ?nm] by (auto simp: ok_def s1_def)
  qed
qed

section \<open>Replacing an item\<close>

definition replace_data :: "string \<Rightarrow> string \<Rightarrow> (nat \<times> string) list \<Rightarrow> (nat \<times> string) list" where
  "replace_data nm d = map (\<lambda>(j, e). (j, if decimal j = nm then d else e))"

lemma replace_absent: "nm \<notin> item_numbers xs \<Longrightarrow> replace_data nm d xs = xs"
  unfolding replace_data_def item_numbers_def by (rule map_idI) force

lemma replace_decimal: "replace_data (decimal k) d = set_data k d"
  by (simp add: replace_data_def set_data_def)

lemma sized_replace: "sized w b xs \<Longrightarrow> buffer_ok w l b buf \<Longrightarrow> sized w b (replace_data nm (stored_bytes w l b buf) xs)"
  by (auto simp: sized_def buffer_ok_def stored_bytes_def replace_data_def split: if_splits)

lemma rlist_put:
  assumes R: "rlist w s l b i xs" and nm: "nm \<in> item_numbers xs" and buf: "buffer_ok w l b buf"
  shows "rlist w (put_item w l nm (stored_bytes w l b buf) s) l b i (replace_data nm (stored_bytes w l b buf) xs)"
proof -
  obtain k where k: "k \<in> fst ` set xs" "nm = decimal k" using nm by (auto simp: item_numbers_def)
  show ?thesis
    using R list_holds_replace [of w s l b i xs k] k(1) sized_replace [OF _ buf, of xs nm]
    unfolding k(2) replace_decimal by (auto simp: rlist_def)
qed

lemma runs_modify_absent:
  assumes "served s0 E" "replicateInIMM w" "rlist_state w s l b i n" "buffer_ok w l b buf" "name_ok w l nm"
    "objs s (item_object l nm) = None"
  shows "runs s0 (modifyRlistRTObject E l nm (Some buf)) w s MafFailure w s"
proof -
  obtain len where len: "runs s0 (item_length E l (Some buf)) w s (Inr len) w s"
    "unat len \<le> length buf" "take (unat len) buf = stored_bytes w l b buf"
    using runs_item_length [OF assms(1-4)] by blast
  have c: "runs s0 (convertToRTObjectName l nm) w s (MafOk, Some (item_object l nm)) w s"
    using assms(2,5) by (auto intro: runs_convert simp: name_ok_def)
  have "runs s0 (modifyObject E (item_object l nm) ms) w s MafFailure w s" for ms
    unfolding modifyObject_def rl_wrappers
    by (rule runs_with_reset [OF assms(1)]) (use assms(6) in \<open>auto simp: runs_return\<close>)
  then show ?thesis
    unfolding modifyRlistRTObject_def using len
    by (intro runs_bnd [OF len(1)]) (auto intro!: runs_bnd [OF c] runs_bnd [OF runs_read_bytes])
qed

lemma replace_refines:
  assumes E: "served s0 E" and R: "rlist w s (name_value l) b i xs" and l: "validateName (Some l)"
    and nm: "valid_item w (name_value l) nm" and buf: "buffer_ok w (name_value l) b buf"
  shows "\<exists>s'. runs s0 (listReplaceItem E (Some l) (Some nm) (Some buf)) w s
       (if name_value nm \<in> item_numbers xs then MafOk else MafNotExist) w s' \<and>
     rlist w s' (name_value l) b i (replace_data (name_value nm) (stored_bytes w (name_value l) b buf) xs)"
proof -
  let ?l = "name_value l" and ?nm = "name_value nm" and ?d = "stored_bytes w (name_value l) b buf"
  define rc where "rc = (if ?nm \<in> item_numbers xs then MafOk else MafNotExist)"
  define s1 where "s1 = (if ?nm \<in> item_numbers xs then put_item w ?l ?nm ?d s else s)"
  note S = rlist_state [OF R]
  note D = rlist_stateD [OF S]
  have v: "validateName (Some nm)" "name_ok w ?l ?nm" using nm by (simp_all add: valid_item_def)
  have h: "list_holds w s ?l b i xs" using R by (simp add: rlist_def)
  have "runs s0 (listReplaceItem E (Some l) (Some nm) (Some buf)) w s rc w s1"
  proof (cases "replicateInIMM w")
    case False
    have put: "runs s0 (autoRetry_writeToFile E ?l ?nm (Some buf)) w s MafOk w (put_item w ?l ?nm ?d s)"
      using runs_autoRetry_writeToFile [OF E False S v(2), of buf] buf False
      by (simp add: buffer_ok_def stored_bytes_def put_item_def)
    show ?thesis
      unfolding listReplaceItem_def prod.case option.case
      using l v(1) False files_present [OF h False, of ?nm]
      by (auto simp: rc_def s1_def runs_return intro!: runs_gets_bnd runs_bnd [OF runs_findFile [OF E False v(2) D(4)]]
          runs_bnd [OF runs_numbers(1) [OF E D(1,5)]] runs_bnd [OF put])
  next
    case True
    have m: "runs s0 (modifyRlistRTObject E ?l ?nm (Some buf)) w s (if ?nm \<in> item_numbers xs then MafOk else MafFailure) w s1"
      using runs_modify_absent [OF E True S buf v(2)] runs_modifyRlistRTObject [OF E True S buf v(2)]
        objects_present [OF h True, of ?nm] True
      by (cases "objs s (item_object ?l ?nm)") (auto simp: s1_def put_item_def)
    show ?thesis
      unfolding listReplaceItem_def prod.case option.case
      using l v(1) True by (auto simp: rc_def runs_return intro!: runs_gets_bnd runs_bnd [OF m])
  qed
  moreover have "rlist w s1 ?l b i (replace_data ?nm ?d xs)"
    using R rlist_put [OF R _ buf, of ?nm] replace_absent [of ?nm xs] by (simp add: s1_def)
  ultimately show ?thesis unfolding rc_def by blast
qed

section \<open>Finding an item\<close>

text \<open>What the caller's buffer holds afterwards: the data, padded with NUL to the size of an item.\<close>

definition loaded :: "32 word \<Rightarrow> string \<Rightarrow> string \<Rightarrow> string" where
  "loaded b d buf = d @ replicate (unat b - length d) (CHR 0x00) @ drop (unat b) buf"

lemma runs_getVoidData:
  assumes "data_attr as = Some d" "length d \<le> unat b" "unat b \<le> length buf" "unat b < 2 ^ 31"
  shows "runs s0 (getVoidData (Some as) buf b) w s (MafOk, loaded b d buf) w s"
proof -
  obtain a vs where a: "find (\<lambda>a. attrName a = sData) as = Some a" "attrValues a = VBytes d # vs"
    using assms(1) by (auto simp: data_attr_def split: option.splits list.splits imm_value.splits)
  have 1: "runs s0 (write_bytes buf (replicate (unat b) (CHR 0x00))) w s
      (replicate (unat b) (CHR 0x00) @ drop (unat b) buf) w s"
    using runs_write_bytes [of "replicate (unat b) (CHR 0x00)" buf s0 w s] assms(3) by simp
  have 2: "runs s0 (write_bytes (replicate (unat b) (CHR 0x00) @ drop (unat b) buf) d) w s (loaded b d buf) w s"
    using runs_write_bytes [of d "replicate (unat b) (CHR 0x00) @ drop (unat b) buf" s0 w s] assms(2,3)
    by (simp add: loaded_def)
  show ?thesis unfolding getVoidData_def option.case using a assms(2,4)
    by (auto intro!: runs_bnd [OF 1] runs_bnd [OF 2] simp: runs_return)
qed

lemma find_refines:
  assumes E: "served s0 E" and R: "rlist w s (name_value l) b i xs" and l: "validateName (Some l)"
    and nm: "valid_item w (name_value l) nm" and buf: "unat b \<le> length buf"
  shows "runs s0 (listFindItem E (Some l) (Some nm) (Some buf)) w s
     (case map_of (map (\<lambda>(k, d). (decimal k, d)) xs) (name_value nm) of
        None \<Rightarrow> (MafNotExist, Some buf) | Some d \<Rightarrow> (MafOk, Some (loaded b d buf))) w s"
proof -
  let ?l = "name_value l" and ?nm = "name_value nm"
  note D = rlist_stateD [OF rlist_state [OF R]]
  have v: "validateName (Some nm)" "name_ok w ?l ?nm" using nm by (simp_all add: valid_item_def)
  have h: "list_holds w s ?l b i xs" using R by (simp add: rlist_def)
  define g where "g = map_of (map (\<lambda>(k, d). (decimal k, d)) xs) ?nm"
  have get: "get_item w ?l s ?nm = g" using list_holds_get [OF h] by (simp add: g_def)
  have len: "if replicateInIMM w then length d \<le> unat b else length d = unat b" if "g = Some d" for d
    using that R by (force simp: g_def rlist_def sized_def dest: map_of_SomeD)
  have "runs s0 (listFindItem E (Some l) (Some nm) (Some buf)) w s
     (case g of None \<Rightarrow> (MafNotExist, Some buf) | Some d \<Rightarrow> (MafOk, Some (loaded b d buf))) w s"
  proof (cases "replicateInIMM w")
    case False
    have read: "runs s0 (readFromFile E ?nm ?l buf b) w s (MafOk, loaded b d buf) w s" if "g = Some d" for d
      using runs_readFromFile [OF E False v(2) D(6), of s d buf] that get len [OF that] buf False R
      by (simp add: get_item_def loaded_def rlist_def store_ready_def)
    show ?thesis
      unfolding listFindItem_def prod.case option.case
      using l v(1) False get read
      by (auto simp: runs_return get_item_def bnd_assoc split: option.split
          intro!: runs_gets_bnd runs_bnd [OF runs_findFile [OF E False v(2) D(4)]] runs_return_bnd
            runs_bnd [OF runs_numbers(1) [OF E D(1,5)]] elim!: runs_bnd)
  next
    case True
    have c: "runs s0 (convertToRTObjectName ?l ?nm) w s (MafOk, Some (item_object ?l ?nm)) w s" and n0: "?nm \<noteq> ''0''"
      using True v(2) by (auto intro: runs_convert simp: name_ok_def)
    have obj: "case g of None \<Rightarrow> objs s (item_object ?l ?nm) = None
       | Some d \<Rightarrow> (\<exists>as. objs s (item_object ?l ?nm) = Some as \<and> data_attr as = Some d)"
      using get True objects_present [OF h True, of ?nm] present_iff [OF h, of ?nm]
      by (cases "objs s (item_object ?l ?nm)") (auto simp: get_item_def get_object_def split: option.splits)
    have ld: "runs s0 (getVoidData (Some as) buf b) w s (MafOk, loaded b (the g) buf) w s"
      if "g \<noteq> None" "data_attr as = g" for as
      using runs_getVoidData [of as "the g" b buf] that buf D(6) len [of "the g"] True by auto
    show ?thesis
      unfolding listFindItem_def prod.case option.case
      using l v(1) True obj n0
      by (auto simp: runs_return bnd_assoc split: option.split
          intro!: runs_gets_bnd runs_bnd [OF c] runs_bnd [OF runs_readObject [OF E]]
            runs_bnd [OF runs_numbers(1) [OF E D(1,5)]] runs_bnd [OF ld])
  qed
  then show ?thesis by (simp add: g_def)
qed

end
