(* ===== verification/RlRemove.thy ===== *)
theory RlRemove
  imports RlRefine
begin

text \<open>
  Removing the last item, clearing the list and the test for emptiness refine their abstract
  counterparts; these are the operations with loops.
\<close>

section \<open>Removing the last item\<close>

lemma runs_while: "runs s0 (if b a then bnd (body a) (while_prog b body) else return a) w s r w' s' \<Longrightarrow>
    runs s0 (while_prog b body a) w s r w' s'"
  unfolding runs_def by (subst while_prog.simps) (simp add: bnd_def split: if_splits)

lemma name_ok_number:
  assumes "ready w l" "k < 2 ^ 32" "0 < k \<or> \<not> replicateInIMM w"
  shows "name_ok w l (decimal k)"
proof (cases "k = 0")
  case True
  have "name_ok w l (decimal 1)" using assms(1) by (simp add: ready_def)
  moreover have "length (decimal 0) = length (decimal 1)" by (simp add: decimal.simps)
  ultimately show ?thesis using True assms(3) by (simp add: name_ok_def item_path_def)
qed (use assms in \<open>auto simp: ready_def\<close>)

lemma rlist_name_ok: "rlist w s l b i xs \<Longrightarrow> k < 2 ^ 32 \<Longrightarrow> 0 < k \<or> \<not> replicateInIMM w \<Longrightarrow> name_ok w l (decimal k)"
  using name_ok_number by (auto simp: rlist_def)

lemma in_item_numbers [simp]: "decimal k \<in> item_numbers xs \<longleftrightarrow> k \<in> fst ` set xs"
  by (simp add: item_numbers_def image_iff)

lemma decimal_0: "decimal 0 = ''0''"
  by code_simp

lemma rlist_items: "rlist w s l b i xs \<Longrightarrow>
    sorted_wrt (<) (map fst xs) \<and> (\<forall>k \<in> fst ` set xs. 0 < k \<and> k \<le> unat i)"
  unfolding rlist_def using list_holds_items by blast

lemma runs_previous_item:
  assumes E: "served s0 E" and R: "rlist w s l b i xs" and n: "0 < n"
  shows "runs s0 (previous_item E l (f, n)) w s (unat (n - 1) \<in> fst ` set xs, n - 1) w s"
proof -
  define m where "m = unat (n - 1)"
  define here where "here \<longleftrightarrow> m \<in> fst ` set xs"
  have m: "m < 2 ^ 32" using unat32 by (simp add: m_def)
  have R': "store_ready w s l" "list_holds w s l b i xs" using R by (simp_all add: rlist_def)
  show ?thesis
  proof (cases "replicateInIMM w")
    case False
    have nm: "name_ok w l (decimal m)" using rlist_name_ok [OF R m] False by blast
    have "runs s0 (findFile E (decimal m) l) w s (if here then MafOk else MafNotExist) w s"
      using runs_findFile [OF E False nm R'(1)] files_present [OF R'(2) False, of "decimal m"]
      by (cases here) (simp_all add: here_def)
    then show ?thesis
      unfolding previous_item_def prod.case m_def [symmetric] here_def [symmetric] using False
      by (auto intro!: runs_gets_bnd elim!: runs_bnd simp: runs_return)
  next
    case True
    define r where "r = (if here then (MafOk, objs s (item_object l (decimal m))) else (MafNotExist, None))"
    have "\<exists>rc ob. runs s0 (convertToRTObjectName l (decimal m)) w s (rc, ob) w s \<and> runs s0 (readObject E ob) w s r w s"
    proof (cases "m = 0")
      case True
      then have z: "decimal m = ''0''" "\<not> here"
        using rlist_items [OF R] by (auto simp: decimal_0 here_def)
      have "runs s0 (readObject E None) w s r w s"
        unfolding readObject_def option.case r_def using z
        by (intro runs_with_reset [OF E]) (auto simp: runs_return)
      moreover have "runs s0 (convertToRTObjectName l (decimal m)) w s (MafInvalidArgument, None) w s"
        by (simp add: convertToRTObjectName_def z runs_return)
      ultimately show ?thesis by blast
    next
      case False
      have "name_ok w l (decimal m)" using rlist_name_ok [OF R m] False by simp
      then have "runs s0 (convertToRTObjectName l (decimal m)) w s (MafOk, Some (item_object l (decimal m))) w s"
        using True by (auto intro: runs_convert simp: name_ok_def)
      moreover have "runs s0 (readObject E (Some (item_object l (decimal m)))) w s r w s"
        using runs_readObject [OF E, of "item_object l (decimal m)" w s]
          objects_present [OF R'(2) True, of "decimal m"] by (auto simp: r_def here_def split: option.splits)
      ultimately show ?thesis by blast
    qed
    then obtain rc ob where c: "runs s0 (convertToRTObjectName l (decimal m)) w s (rc, ob) w s"
      and rd: "runs s0 (readObject E ob) w s r w s" by blast
    show ?thesis
      unfolding previous_item_def prod.case m_def [symmetric] here_def [symmetric] using True
      by (auto intro!: runs_gets_bnd runs_bnd [OF c] runs_bnd [OF rd] simp: r_def runs_return)
  qed
qed

text \<open>The largest number of an item below \<open>m\<close>, 0 if there is none.\<close>

definition below :: "nat \<Rightarrow> (nat \<times> string) list \<Rightarrow> nat" where
  "below m xs = last (0 # filter (\<lambda>k. k < m) (map fst xs))"

lemma below_Suc: "sorted_wrt (<) (map fst xs) \<Longrightarrow> below (Suc m) xs = (if m \<in> fst ` set xs then m else below m xs)"
proof -
  assume s: "sorted_wrt (<) (map fst xs)"
  have "sorted_wrt (<) ks \<Longrightarrow> last (0 # filter (\<lambda>k. k < Suc m) ks) =
      (if m \<in> set ks then m else last (0 # filter (\<lambda>k. k < m) ks))" for ks :: "nat list"
  proof (induction ks rule: rev_induct)
    case (snoc k ks)
    then have lt: "\<forall>j \<in> set ks. j < k" and IH: "last (0 # filter (\<lambda>k. k < Suc m) ks) =
      (if m \<in> set ks then m else last (0 # filter (\<lambda>k. k < m) ks))" by (auto simp: sorted_wrt_append)
    show ?case
    proof (cases "k < m")
      case True
      then have "m \<notin> set ks" using lt by auto
      then show ?thesis using True by auto
    next
      case False
      then show ?thesis using IH lt by auto
    qed
  qed simp
  from this [OF s] show ?thesis by (simp add: below_def)
qed

lemma runs_previous_items:
  assumes E: "served s0 E" and R: "rlist w s l b i xs"
  shows "\<exists>f. runs s0 (while_prog (\<lambda>(found, n). \<not> found \<and> 0 < n) (previous_item E l) (False, n)) w s
    (f, of_nat (below (unat n) xs)) w s"
proof (induction "unat n" arbitrary: n)
  case 0
  then have "n = 0" by (simp add: unat_eq_0)
  then show ?case by (intro exI [of _ False] runs_while) (simp add: below_def runs_return)
next
  case (Suc m)
  then have "n \<noteq> 0" by auto
  with Suc(2) have n: "0 < n" "unat (n - 1) = m" by (auto simp: word_gt_0 unat_minus_one)
  have sorted: "sorted_wrt (<) (map fst xs)" using R list_holds_items by (auto simp: rlist_def)
  let ?body = "previous_item E l"
  show ?case
  proof (cases "m \<in> fst ` set xs")
    case True
    have "below (unat n) xs = m" using below_Suc [OF sorted, of m] True Suc(2) by simp
    moreover have "of_nat m = n - 1" using n(2) by auto
    ultimately have "runs s0 (while_prog (\<lambda>(found, n). \<not> found \<and> 0 < n) ?body (False, n)) w s (True, of_nat (below (unat n) xs)) w s"
      using runs_previous_item [OF E R n(1), of False] True n
      by (intro runs_while) (auto elim!: runs_bnd intro!: runs_while simp: runs_return)
    then show ?thesis by blast
  next
    case False
    obtain f where "runs s0 (while_prog (\<lambda>(found, n). \<not> found \<and> 0 < n) ?body (False, n - 1)) w s
        (f, of_nat (below m xs)) w s" using Suc(1) [of "n - 1"] n by blast
    moreover have "below (unat n) xs = below m xs" using below_Suc [OF sorted, of m] False Suc(2) by simp
    ultimately have "runs s0 (while_prog (\<lambda>(found, n). \<not> found \<and> 0 < n) ?body (False, n)) w s
        (f, of_nat (below (unat n) xs)) w s"
      using runs_previous_item [OF E R n(1), of False] False n
      by (intro runs_while) (auto elim!: runs_bnd)
    then show ?thesis by blast
  qed
qed

lemma last_number:
  assumes "sorted_wrt (<) (map fst xs)" "\<forall>k \<in> fst ` set xs. 0 < k \<and> k \<le> (m :: nat)" "m \<in> fst ` set xs"
  shows "\<exists>ys d. xs = ys @ [(m, d)] \<and> filter (\<lambda>(j, d). j \<noteq> m) xs = ys \<and> below m ys = last (0 # map fst ys)"
proof (cases xs rule: rev_cases)
  case (snoc ys x)
  then have lt: "\<forall>k \<in> fst ` set ys. k < fst x" using assms(1) by (auto simp: sorted_wrt_append)
  then have x: "fst x = m" using assms(2,3) snoc by fastforce
  have 1: "filter (\<lambda>(j, d). j \<noteq> m) ys = ys" using lt x by (auto simp: filter_id_conv)
  have 2: "filter (\<lambda>k. k < m) (map fst ys) = map fst ys" using lt x by (auto simp: filter_id_conv)
  show ?thesis using 1 2 snoc x by (intro exI [of _ ys] exI [of _ "snd x"]) (auto simp: below_def case_prod_beta)
qed (use assms in simp)

text \<open>
  What \<open>listPopBack\<close> does: the item with the last number given out is removed, whatever is at the back.
\<close>

definition pop_effect :: "32 word \<Rightarrow> (nat \<times> string) list \<Rightarrow> MafReturnT \<times> 32 word \<times> (nat \<times> string) list" where
  "pop_effect i xs = (if xs \<noteq> [] \<and> fst (last xs) = unat i
     then (MafOk, of_nat (last (0 # map fst (butlast xs))), butlast xs) else (MafNotExist, i, xs))"

lemma pop_effect_last: "xs = ys @ [(unat i, d)] \<Longrightarrow> pop_effect i xs = (MafOk, of_nat (last (0 # map fst ys)), ys)"
  by (simp add: pop_effect_def)

lemma pop_effect_other: "unat i \<notin> fst ` set xs \<Longrightarrow> pop_effect i xs = (MafNotExist, i, xs)"
  by (cases xs rule: rev_cases) (auto simp: pop_effect_def)

lemma pop_refines:
  assumes E: "served s0 E" and R: "rlist w s (name_value l) b i xs" and l: "validateName (Some l)"
  shows "\<exists>s'. runs s0 (listPopBack E (Some l)) w s (fst (pop_effect i xs)) w s' \<and>
     rlist w s' (name_value l) b (fst (snd (pop_effect i xs))) (snd (snd (pop_effect i xs)))"
proof -
  let ?l = "name_value l" and ?nm = "decimal (unat i)"
  define here where "here \<longleftrightarrow> unat i \<in> fst ` set xs"
  define s1 where "s1 = (if here then del_item w ?l ?nm s else s)"
  define m where "m = (if \<not> replicateInIMM w then remove_item_file E ?l ?nm
      else bnd (deleteRTObject E ?l ?nm) (\<lambda>rc. return (rc = MafOk)))"
  note D = rlist_stateD [OF rlist_state [OF R]]
  have items: "sorted_wrt (<) (map fst xs)" "\<forall>k \<in> fst ` set xs. 0 < k \<and> k \<le> unat i"
    using rlist_items [OF R] by simp_all
  have m: "runs s0 m w s here w s1"
  proof (cases "unat i = 0 \<and> replicateInIMM w")
    case True
    then have "decimal (unat i) = ''0''" "\<not> here"
      using items(2) by (auto simp: decimal_0 here_def)
    then show ?thesis using True
      by (auto simp: m_def s1_def deleteRTObject_def convertToRTObjectName_def bnd_assoc runs_return intro!: runs_return_bnd)
  next
    case False
    then have "name_ok w ?l ?nm" using rlist_name_ok [OF R unat32, of i] by fastforce
    from runs_remove [OF E R this, unfolded in_item_numbers, folded here_def s1_def] show ?thesis
      unfolding m_def by (cases here) (auto simp: s1_def runs_return elim!: runs_bnd)
  qed
  have start: "runs s0 (listPopBack E (Some l)) w s r w s'"
    if "runs s0 (if \<not> here then return MafNotExist
      else bnd (decrement_items E ?l) (\<lambda>n. case n of None \<Rightarrow> return MafNotExist
     | Some numItems \<Rightarrow>
         bnd (while_prog (\<lambda>(found, n). \<not> found \<and> 0 < n) (previous_item E ?l) (False, i)) (\<lambda>(found, n).
         bnd (set_last E ?l n) (\<lambda>rc. return (if rc \<noteq> MafOk then MafNotExist else MafOk))))) w s1 r w s'" for r s'
    unfolding listPopBack_def option.case using l
    by (auto intro!: runs_gets_bnd runs_bnd [OF runs_numbers(2) [OF E D(1,5)]] runs_bnd [OF m [unfolded m_def]] that)
  show ?thesis
  proof (cases here)
    case False
    then show ?thesis using start [of MafNotExist s] R pop_effect_other [of i xs] by (intro exI [of _ s]) (simp add: here_def s1_def runs_return)
  next
    case True
    obtain ys d where ys: "xs = ys @ [(unat i, d)]" "filter (\<lambda>(j, d). j \<noteq> unat i) xs = ys"
      "below (unat i) ys = last (0 # map fst ys)"
      using last_number [OF items] True by (auto simp: here_def)
    define k where "k = last (0 # map fst ys)"
    define s2 where "s2 = with_numbers w ?l b i (of_nat (length xs) - 1) s1"
    have R2: "rlist w s2 ?l b i ys"
      using rlist_del [OF R, of ?nm] True ys(2) by (simp add: here_def s1_def s2_def del: in_item_numbers) (simp add: here_def)
    have n1: "numbers w s1 ?l b i (of_nat (length xs))"
      using D(5) files.nums_del objects.nums_del by (simp add: s1_def True del_item_def)
    obtain f where loop: "runs s0 (while_prog (\<lambda>(found, n). \<not> found \<and> 0 < n) (previous_item E ?l) (False, i)) w s2
        (f, of_nat k) w s2"
      using runs_previous_items [OF E R2, of i] ys(3) by (auto simp: k_def)
    define s3 where "s3 = with_numbers w ?l b (of_nat k) (of_nat (length ys)) s2"
    have setl: "runs s0 (set_last E ?l (of_nat k)) w s2 MafOk w s3"
      using runs_set_numbers(1) [OF E D(1) rlist_stateD(5) [OF rlist_state [OF R2]]] by (simp add: s3_def)
    have "runs s0 (listPopBack E (Some l)) w s MafOk w s3"
      using True by (intro start) (auto intro!: runs_bnd [OF runs_decrement_items [OF E D(1) n1]]
        runs_bnd [OF loop [unfolded s2_def]] runs_bnd [OF setl [unfolded s2_def]] simp: runs_return)
    moreover have "rlist w s3 ?l b (of_nat k) ys"
    proof -
      have "sorted_wrt (<) (map fst ys)" and le: "\<forall>k \<in> fst ` set ys. k < unat i"
        using items(1) ys(1) by (auto simp: sorted_wrt_append)
      then have "\<forall>j \<in> fst ` set ys. j \<le> k"
        by (cases ys rule: rev_cases) (auto simp: k_def sorted_wrt_append less_imp_le)
      moreover have "k < 2 ^ 32"
      proof -
        have "k \<le> unat i" using le by (cases ys rule: rev_cases) (auto simp: k_def less_imp_le)
        then show ?thesis using unat32 [of i] by simp
      qed
      then have "unat (of_nat k :: 32 word) = k" by (simp add: unat_of_nat take_bit_nat_eq_self)
      ultimately have "list_holds w s3 ?l b (of_nat k) ys"
        using list_holds_trim [of w s2 ?l b i ys "of_nat k"] R2 by (simp add: rlist_def s3_def)
      then show ?thesis using R2 by (simp add: rlist_def s3_def)
    qed
    ultimately show ?thesis using pop_effect_last [OF ys(1)] by (auto simp: k_def)
  qed
qed

end
