(* ===== verification/RlClear.thy ===== *)
theory RlClear
  imports RlRemove
begin

text \<open>
  Clearing a list and the test for emptiness, which go through a directory or a search: whatever the
  order the entries come in, the store left is the same.
\<close>

section \<open>All files of a directory\<close>

lemma runs_while_bnd: "runs s0 (bnd (if b a then bnd (body a) (while_prog b body) else return a) k) w s r w' s' \<Longrightarrow>
    runs s0 (bnd (while_prog b body a) k) w s r w' s'"
  unfolding runs_def bnd_def by (subst while_prog.simps) (simp add: bnd_def split: if_splits)

lemma bnd_return: "bnd (return a) k = k a"
  by (simp add: bnd_def return_def)

lemma bnd_case: "bnd (case x of (a, b) \<Rightarrow> f a b) k = (case x of (a, b) \<Rightarrow> bnd (f a b) k)"
  by (cases x) simp

text \<open>An entry of a directory that holds items only.\<close>

definition item_entry :: "rl_world \<Rightarrow> string \<Rightarrow> store \<Rightarrow> string \<Rightarrow> bool" where
  "item_entry w l s f \<longleftrightarrow> (\<exists>k < 2 ^ 32. f = decimal k @ strBin) \<and> fils s (slash (list_path w l) @ f) \<noteq> None"

lemma decimal_Cons: "\<exists>c cs. decimal k = c # cs \<and> isdigit c"
proof (cases "decimal k")
  case Nil
  then show ?thesis by (subst (asm) decimal.simps) (simp split: if_splits)
next
  case (Cons c cs)
  then show ?thesis using decimal_digits [of k] by simp
qed

lemma isdigit_neq: "isdigit c \<Longrightarrow> c \<noteq> CHR ''.'' \<and> c \<noteq> CHR ''/''"
  by (auto simp: isdigit_def)

lemma decimal_no_slash: "CHR ''/'' \<notin> set (decimal k @ strBin)"
  using decimal_digits [of k] isdigit_neq by (auto simp: list_all_iff strBin_def)

lemma strcmp_item: "strcmp (decimal k @ strBin) ''.'' AND strcmp (decimal k @ strBin) ''..'' \<noteq> 0"
proof -
  obtain c cs where d: "decimal k = c # cs" "c \<noteq> CHR ''.''" using decimal_Cons isdigit_neq by metis
  then have "(of_char c :: int) \<noteq> of_char CHR ''.''" by (simp only: of_char_eq_iff not_False_eq_True)
  then show ?thesis using d by simp
qed

lemma path_last: "path_ok w l \<Longrightarrow> \<not> replicateInIMM w \<Longrightarrow>
    slash (list_path w l) = list_path w l @ ''/'' \<and> list_path w l \<noteq> [] \<and> last (list_path w l) \<noteq> CHR ''/''"
  by (simp add: path_ok_def list_path_def slash_def)

lemma join_entry: "path_ok w l \<Longrightarrow> \<not> replicateInIMM w \<Longrightarrow>
    join_path (list_path w l) [f] = Some (slash (list_path w l) @ f)"
  using path_last [of w l] by simp

lemma runs_entry_path:
  assumes P: "path_ok w l" and F: "\<not> replicateInIMM w" and R: "ready w l"
    and f: "f \<in> {''.'', ''..''} \<or> item_entry w l s f"
  shows "runs s0 (createPath [list_path w l] (Some f)) w s (slash (list_path w l) @ f) w s"
proof -
  have len: "length (item_path w l (decimal k)) < MAX_PATH_DATA_LENGTH" if "k < 2 ^ 32" for k
    using name_ok_number [OF R that] F by (simp add: name_ok_def)
  have "length (slash (list_path w l) @ f) < MAX_PATH_DATA_LENGTH"
    using f len [of 0] len by (auto simp: item_entry_def item_path_def strBin_def decimal_0)
  then show ?thesis using join_entry [OF P F, of f] by (simp add: createPath_def runs_return del: join_path.simps)
qed

lemma runs_remove_entries:
  assumes E: "served s0 E" and P: "path_ok w l" and F: "\<not> replicateInIMM w" and R: "ready w l"
  shows "finite (listing s) \<Longrightarrow> \<forall>f \<in> listing s. f \<in> {''.'', ''..''} \<or> item_entry w l s f \<Longrightarrow>
    runs s0 (while_prog (\<lambda>(more, rc). more) (remove_entries E (list_path w l)) (True, MafOk)) w s (False, MafOk) w
      (s\<lparr>listing := {}, fils := fils s |` (- ((@) (slash (list_path w l)) ` (listing s - {''.'', ''..''})))\<rparr>)"
proof (induction "card (listing s)" arbitrary: s rule: less_induct)
  case less
  let ?dir = "list_path w l" and ?p = "slash (list_path w l)"
  let ?loop = "while_prog (\<lambda>(more, rc). more) (remove_entries E ?dir)"
  let ?fin = "\<lambda>s. s\<lparr>listing := {}, fils := fils s |` (- ((@) ?p ` (listing s - {''.'', ''..''})))\<rparr>"
  show ?case
  proof (rule runs_while, simp only: prod.case if_True, subst remove_entries_def, simp only: prod.case bnd_assoc,
      rule runs_call [OF E])
    fix e
    assume e: "serves s Readdir e"
    show "runs s0 (bnd (case a_text e of None \<Rightarrow> return (False, MafOk)
       | Some d \<Rightarrow> bnd (createPath [?dir] (Some d)) (\<lambda>fileName.
           if strcmp d ''.'' AND strcmp d ''..'' \<noteq> 0 then
             bnd (call E (RemoveFile fileName)) (\<lambda>r. return (if a_num r = 0 then (True, MafOk) else (False, MafFailure)))
           else return (True, MafOk))) ?loop) w (happen Readdir e s) (False, MafOk) w (?fin s)"
    proof (cases "listing s = {}")
      case True
      then have "happen Readdir e s = ?fin s" using e by (simp add: restrict_map_def)
      moreover have "runs s0 (?loop (False, MafOk)) w t (False, MafOk) w t" for t
        by (rule runs_while) (simp add: runs_return)
      ultimately show ?thesis using e True by (simp add: runs_return_bnd)
    next
      case False
      then obtain f where f: "f \<in> listing s" "a_text e = Some f" using e by auto
      define s1 where "s1 = s\<lparr>listing := listing s - {f}\<rparr>"
      have path: "runs s0 (createPath [?dir] (Some f)) w s1 (?p @ f) w s1"
        using runs_entry_path [OF P F R, of f s1] less.prems(2) f(1) by (auto simp: s1_def item_entry_def)
      have card: "card (listing s - {f}) < card (listing s)" by (rule card_Diff1_less [OF less.prems(1) f(1)])
      show ?thesis
      proof (cases "f \<in> {''.'', ''..''}")
        case True
        then have cmp: "strcmp f ''.'' AND strcmp f ''..'' = 0" by auto
        have "runs s0 (?loop (True, MafOk)) w s1 (False, MafOk) w (?fin s1)"
          by (rule less.hyps) (use card less.prems in \<open>auto simp: s1_def item_entry_def\<close>)
        moreover have "listing s - {f} - {''.'', ''..''} = listing s - {''.'', ''..''}" using True by blast
        then have "?fin s1 = ?fin s" by (simp add: s1_def)
        ultimately show ?thesis using f(2) cmp
          by (auto simp: bnd_assoc s1_def [symmetric] intro!: runs_bnd [OF path] runs_return_bnd)
      next
        case dot: False
        then have it: "item_entry w l s f" using less.prems(2) f(1) by blast
        then have cmp: "strcmp f ''.'' AND strcmp f ''..'' \<noteq> 0" using strcmp_item by (auto simp: item_entry_def)
        have there: "?p @ f \<in> dom (fils s1)" using it by (auto simp: item_entry_def s1_def)
        define s2 where "s2 = s1\<lparr>fils := (fils s1)(?p @ f := None)\<rparr>"
        have "runs s0 (?loop (True, MafOk)) w s2 (False, MafOk) w (?fin s2)"
          by (rule less.hyps) (use card less.prems in \<open>auto simp: s1_def s2_def item_entry_def\<close>)
        moreover have "fils s2 |` (- ((@) ?p ` (listing s2 - {''.'', ''..''}))) =
            fils s |` (- ((@) ?p ` (listing s - {''.'', ''..''})))"
          by (rule ext) (use dot f(1) in \<open>auto simp: s1_def s2_def restrict_map_def\<close>)
        then have "?fin s2 = ?fin s" by (simp add: s1_def s2_def)
        ultimately have "runs s0 (bnd (call E (RemoveFile (?p @ f)))
            (\<lambda>r. bnd (return (if a_num r = 0 then (True, MafOk) else (False, MafFailure))) ?loop)) w s1 (False, MafOk) w (?fin s)"
          by (intro runs_call [OF E]) (use there in \<open>auto simp: s2_def [symmetric] intro!: runs_return_bnd\<close>)
        then show ?thesis using f(2) cmp
          by (auto simp: bnd_assoc s1_def [symmetric] intro!: runs_bnd [OF path])
      qed
    qed
  qed
qed

lemma sized_Nil [simp]: "sized w b []"
  by (simp add: sized_def)

text \<open>Only the names of items can be among the entries.\<close>

lemma rlist_entries:
  assumes R: "rlist w s l b i xs" and F: "\<not> replicateInIMM w"
  shows "finite (entries s (list_path w l))"
    "\<forall>f \<in> entries s (list_path w l). f \<in> {''.'', ''..''} \<or> item_entry w l s f"
    "\<forall>k \<in> fst ` set xs. decimal k @ strBin \<in> entries s (list_path w l) - {''.'', ''..''}"
proof -
  have h: "list_holds w s l b i xs" and r: "store_ready w s l" and p: "path_ok w l"
    using R by (simp_all add: rlist_def ready_def)
  have slash: "slash (list_path w l) = list_path w l @ ''/''" using path_last [OF p F] by blast
  have item: "\<exists>k \<in> fst ` set xs. f = decimal k @ strBin"
    if asm: "CHR ''/'' \<notin> set f" "fils s (slash (list_path w l) @ f) = Some y" for f y
  proof -
    obtain nm where f: "f = nm @ strBin" using r F asm unfolding store_ready_def by auto
    then have "fils s (item_path w l nm) \<noteq> None" using asm by (simp add: item_path_def)
    then have "nm \<in> item_numbers xs" using files_present [OF h F] by metis
    then show ?thesis using f by (auto simp: item_numbers_def)
  qed
  have le: "k < 2 ^ 32" if "k \<in> fst ` set xs" for k
    using rlist_items [OF R] that unat32 [of i] by (meson order_le_less_trans)
  have sub: "entries s (list_path w l) \<subseteq> {''.'', ''..''} \<union> (\<lambda>k. decimal k @ strBin) ` fst ` set xs"
    using item by (auto simp: entries_def slash dom_def)
  then show "finite (entries s (list_path w l))" by (rule finite_subset) simp
  show "\<forall>f \<in> entries s (list_path w l). f \<in> {''.'', ''..''} \<or> item_entry w l s f"
  proof (intro ballI)
    fix f assume f: "f \<in> entries s (list_path w l)"
    show "f \<in> {''.'', ''..''} \<or> item_entry w l s f"
    proof (cases "f \<in> {''.'', ''..''}")
      case False
      then have "fils s (slash (list_path w l) @ f) \<noteq> None" using f by (auto simp: entries_def slash)
      moreover obtain k where "k \<in> fst ` set xs" "f = decimal k @ strBin" using f False sub by blast
      ultimately show ?thesis using le by (auto simp: item_entry_def)
    qed simp
  qed
  show "\<forall>k \<in> fst ` set xs. decimal k @ strBin \<in> entries s (list_path w l) - {''.'', ''..''}"
  proof (intro ballI)
    fix k assume "k \<in> fst ` set xs"
    then have "fils s (item_path w l (decimal k)) \<noteq> None" using files_present [OF h F, of "decimal k"] by simp
    moreover have "CHR ''/'' \<notin> set (decimal k @ strBin)" by (rule decimal_no_slash)
    moreover obtain c cs where "decimal k = c # cs" "c \<noteq> CHR ''.''" using decimal_Cons isdigit_neq by metis
    ultimately show "decimal k @ strBin \<in> entries s (list_path w l) - {''.'', ''..''}"
      by (auto simp: entries_def slash item_path_def)
  qed
qed

lemma with_numbers_simps [simp]:
  "fils (with_numbers w l b i n s) = fils s" "dirs (with_numbers w l b i n s) = dirs s"
  "opened (with_numbers w l b i n s) = opened s" "class_of (with_numbers w l b i n s) = class_of s"
  "objs (with_numbers w l b i n s) (item_object l nm) = objs s (item_object l nm)"
  by (simp_all add: with_numbers_def)

lemma entries_with_numbers [simp]:
  "entries (with_numbers w l b i n s) d = entries s d"
  "item_entry w l' (with_numbers w' l b i n s) f = item_entry w l' s f"
  by (simp_all add: entries_def item_entry_def)

text \<open>
  The number of items is cleared before the items are: the state in between is that of a list but
  for that number.
\<close>

lemma clear_files:
  assumes E: "served s0 E" and R: "rlist w (with_numbers w l b i n s) l b i xs" and F: "\<not> replicateInIMM w"
  shows "\<exists>s'. runs s0 (comsa_rplist_imm_removeAllFiles E l) w s MafOk w s' \<and>
    rlist w (with_numbers w l b i 0 s') l b i [] \<and> objs s' (l @ ''=1'') = objs s (l @ ''=1'')"
proof -
  let ?dir = "list_path w l" and ?p = "slash (list_path w l)"
  have h: "list_holds w (with_numbers w l b i n s) l b i xs" and r: "store_ready w s l" and p: "path_ok w l"
    and rd: "ready w l" using R by (simp_all add: rlist_def ready_def)
  define s1 where "s1 = s\<lparr>listing := entries s ?dir\<rparr>"
  define s2 where "s2 = s1\<lparr>listing := {}, fils := fils s1 |` (- ((@) ?p ` (listing s1 - {''.'', ''..''})))\<rparr>"
  note en = rlist_entries [OF R F]
  have loop: "runs s0 (while_prog (\<lambda>(more, rc). more) (remove_entries E ?dir) (True, MafOk)) w s1 (False, MafOk) w s2"
    unfolding s2_def by (rule runs_remove_entries [OF E p F rd]) (use en in \<open>auto simp: s1_def item_entry_def\<close>)
  have base: "pathToStorageDirectory w \<noteq> []" using p F by (simp add: path_ok_def)
  have dir: "runs s0 (listDir l) w s ?dir w s"
    unfolding listDir_def
    by (intro runs_gets_bnd, simp, simp, simp add: createPath_def join_list_path [OF base] del: join_path.simps)
      (use p F in \<open>simp add: path_ok_def runs_return\<close>)
  have close: "runs s0 (andthen (do_call E Closedir) (return MafOk)) w s2 MafOk w s2"
    by (rule runs_andthen [OF runs_do_call [OF E, where s' = s2]]) (auto simp: s2_def runs_return)
  have "runs s0 (comsa_rplist_imm_removeAllFiles E l) w s MafOk w s2"
    unfolding comsa_rplist_imm_removeAllFiles_def
    by (rule runs_bnd [OF runs_getBaseRepository [OF base]])
      (use r F in \<open>auto simp: store_ready_def s1_def [symmetric] runs_return
        intro!: runs_bnd [OF dir] runs_call [OF E] runs_bnd [OF loop] close\<close>)
  moreover have "rlist w (with_numbers w l b i 0 s2) l b i []"
  proof -
    have "fils s2 (item_path w l nm) = None" for nm
    proof (cases "nm \<in> item_numbers xs")
      case True
      then obtain k where k: "k \<in> fst ` set xs" "nm = decimal k" by (auto simp: item_numbers_def)
      then have "item_path w l nm \<in> (@) ?p ` (listing s1 - {''.'', ''..''})"
        using en(3) by (auto simp: item_path_def s1_def)
      then show ?thesis by (simp add: s2_def restrict_map_def)
    next
      case False
      then show ?thesis using files_present [OF h F, of nm] by (simp add: s2_def s1_def restrict_map_def)
    qed
    then have "list_holds w (with_numbers w l b i 0 s2) l b i []"
      using F files.nums_renumber [of w l b i 0 s2] by (simp add: list_holds_def files.holds_def)
    moreover have "store_ready w s2 l"
      using r F by (auto simp: store_ready_def s2_def s1_def restrict_map_def split: if_splits)
    ultimately show ?thesis using R by (simp add: rlist_def)
  qed
  moreover have "objs s2 (l @ ''=1'') = objs s (l @ ''=1'')" by (simp add: s2_def s1_def)
  ultimately show ?thesis by blast
qed

section \<open>All objects of a class\<close>

lemma runs_search:
  assumes E: "served s0 E"
  shows "finite (found s) \<Longrightarrow> a_rc a = SA_AIS_OK \<Longrightarrow> a_text a = Some m \<Longrightarrow> distinct (ns @ [m]) \<Longrightarrow>
    set (ns @ [m]) \<inter> found s = {} \<Longrightarrow>
    (\<And>a' ns'. distinct ns' \<Longrightarrow> set ns' = set (ns @ [m]) \<union> found s \<Longrightarrow> runs s0 (k (a', ns')) w (s\<lparr>found := {}\<rparr>) r w' s') \<Longrightarrow>
    runs s0 (bnd (while_prog (\<lambda>(a, ns). a_rc a = SA_AIS_OK)
      (\<lambda>(a, ns). bnd (autoRetry_saImmOmSearchNext_2 E h) (\<lambda>b.
         return (b, ns @ [case a_text a of None \<Rightarrow> [] | Some n \<Rightarrow> n]))) (a, ns)) k) w s r w' s'"
proof (induction "card (found s)" arbitrary: s a m ns rule: less_induct)
  case less
  let ?loop = "while_prog (\<lambda>(a, ns). a_rc a = SA_AIS_OK)
      (\<lambda>(a, ns). bnd (autoRetry_saImmOmSearchNext_2 E h) (\<lambda>b.
         return (b, ns @ [case a_text a of None \<Rightarrow> [] | Some n \<Rightarrow> n])))"
  have "runs s0 (bnd (auto_retry E try_again (SaImmOmSearchNext_2 h)) (\<lambda>b. bnd (?loop (b, ns @ [m])) k)) w s r w' s'"
  proof (rule runs_auto_retry [OF E])
    fix b
    assume b: "serves s (SaImmOmSearchNext_2 h) b"
    then show "\<not> try_again (a_rc b)" by (auto simp: try_again_def split: if_splits)
    show "runs s0 (bnd (?loop (b, ns @ [m])) k) w (happen (SaImmOmSearchNext_2 h) b s) r w' s'"
    proof (cases "found s = {}")
      case True
      then have same: "s\<lparr>found := {}\<rparr> = s" by simp
      have "runs s0 (k (b, ns @ [m])) w s r w' s'"
        using less.prems(6) [of "ns @ [m]" b] less.prems(4) True unfolding same by simp
      then show ?thesis using True b
        by (intro runs_while_bnd) (simp add: bnd_return)
    next
      case False
      then obtain q where q: "q \<in> found s" "a_text b = Some q" "a_rc b = SA_AIS_OK" using b by auto
      define t where "t = s\<lparr>found := found s - {q}\<rparr>"
      have "card (found t) < card (found s)"
        using card_Diff1_less [OF less.prems(1) q(1)] by (simp add: t_def)
      then have "runs s0 (bnd (?loop (b, ns @ [m])) k) w t r w' s'"
      proof (rule less.hyps [of t b q "ns @ [m]"])
        fix a' ns'
        assume ns': "distinct ns'" "set ns' = set ((ns @ [m]) @ [q]) \<union> found t"
        have "set ns' = set (ns @ [m]) \<union> found s" using ns'(2) q(1) by (auto simp: t_def)
        then show "runs s0 (k (a', ns')) w (t\<lparr>found := {}\<rparr>) r w' s'"
          using less.prems(6) [OF ns'(1), of a'] by (simp add: t_def)
      qed (use less.prems q in \<open>auto simp: t_def\<close>)
      then show ?thesis using q by (simp add: t_def)
    qed
  qed
  then show ?case using less.prems(2,3)
    by (intro runs_while_bnd) (simp add: bnd_assoc autoRetry_saImmOmSearchNext_2_def bnd_return)
qed

lemma runs_getAllRTObjects:
  assumes E: "served s0 E" and fin: "finite {n. class_of s n = Some (l @ sRuntimeIMMSuffix)}"
    and k: "\<And>ns. distinct ns \<Longrightarrow> set ns = {n. class_of s n = Some (l @ sRuntimeIMMSuffix)} \<Longrightarrow>
      runs s0 (k (MafOk, ns)) w (s\<lparr>found := {}\<rparr>) r w' s'"
  shows "runs s0 (bnd (getAllRTObjects E l) k) w s r w' s'"
proof -
  let ?M = "{n. class_of s n = Some (l @ sRuntimeIMMSuffix)}"
  define s1 where "s1 = s\<lparr>found := ?M\<rparr>"
  have s1: "s1\<lparr>found := {}\<rparr> = s\<lparr>found := {}\<rparr>" "found s1 = ?M" by (simp_all add: s1_def)
  have finish: "runs s0 (bnd (autoRetry_saImmOmSearchFinalize E h) (\<lambda>f. k (MafOk, ns))) w (s\<lparr>found := {}\<rparr>) r w' s'"
    if "distinct ns" "set ns = ?M" for h ns
    unfolding autoRetry_saImmOmSearchFinalize_def
    by (rule runs_auto_retry [OF E]) (use k [OF that] in \<open>auto simp: try_again_def\<close>)
  have start: "runs s0 (bnd (auto_retry E try_again (SaImmOmSearchNext_2 h)) (\<lambda>a.
      bnd (while_prog (\<lambda>(a, ns). a_rc a = SA_AIS_OK)
              (\<lambda>(a, ns). bnd (autoRetry_saImmOmSearchNext_2 E h) (\<lambda>b.
                 return (b, ns @ [case a_text a of None \<Rightarrow> [] | Some n \<Rightarrow> n]))) (a, []))
        (\<lambda>(a, ns). bnd (autoRetry_saImmOmSearchFinalize E h) (\<lambda>f. k (MafOk, ns))))) w s1 r w' s'" (is "runs s0 (bnd _ ?k) w s1 r w' s'") for h
  proof (rule runs_auto_retry [OF E])
    fix a
    assume a: "serves s1 (SaImmOmSearchNext_2 h) a"
    then show "\<not> try_again (a_rc a)" by (auto simp: try_again_def split: if_splits)
    show "runs s0 (?k a) w (happen (SaImmOmSearchNext_2 h) a s1) r w' s'"
    proof (cases "found s1 = {}")
      case True
      have "s1 = s\<lparr>found := {}\<rparr>" using True by (simp add: s1_def)
      then show ?thesis using True a finish [of "[]" h] s1(2)
        by (intro runs_while_bnd) (simp add: bnd_return)
    next
      case False
      then obtain q where q: "q \<in> found s1" "a_text a = Some q" "a_rc a = SA_AIS_OK" using a by auto
      define t where "t = s1\<lparr>found := found s1 - {q}\<rparr>"
      have "runs s0 (?k a) w t r w' s'"
      proof (rule runs_search [OF E _ q(3,2)])
        fix a' ns'
        assume "distinct ns'" "set ns' = set ([] @ [q]) \<union> found t"
        moreover from this have "set ns' = ?M" using q(1) s1(2) by (auto simp: t_def)
        ultimately show "runs s0 (case (a', ns') of (a, ns) \<Rightarrow>
            bnd (autoRetry_saImmOmSearchFinalize E h) (\<lambda>f. k (MafOk, ns))) w (t\<lparr>found := {}\<rparr>) r w' s'"
          using finish [of ns' h] by (simp add: t_def s1_def)
      qed (use fin s1(2) q in \<open>auto simp: t_def\<close>)
      then show ?thesis using q by (simp add: t_def)
    qed
  qed
  show ?thesis
    unfolding getAllRTObjects_def bnd_assoc autoRetry_saImmOmSearchInitialize_2_def
    by (intro runs_gets_bnd runs_auto_retry [OF E])
      (use start in \<open>simp_all add: bnd_assoc bnd_return bnd_case autoRetry_saImmOmSearchNext_2_def searched_class_def
         s1_def try_again_def\<close>)
qed

lemma runs_delete_objects:
  assumes E: "served s0 E"
  shows "distinct ns \<Longrightarrow> \<forall>n \<in> set ns. fits w n \<and> objs s n \<noteq> None \<Longrightarrow>
    runs s0 (delete_objects E MafOk ns) w s MafOk w
      (s\<lparr>objs := objs s |` (- set ns), class_of := class_of s |` (- set ns)\<rparr>)"
proof (induction ns arbitrary: s)
  case Nil
  have "s\<lparr>objs := objs s |` (- set []), class_of := class_of s |` (- set [])\<rparr> = s" by (simp add: restrict_map_def)
  then show ?case by (simp only: delete_objects.simps runs_return)
next
  case (Cons n ns)
  define t where "t = s\<lparr>objs := (objs s)(n := None), class_of := (class_of s)(n := None)\<rparr>"
  have del: "runs s0 (deleteObject E n) w s MafOk w t"
    unfolding deleteObject_def rl_wrappers
    by (rule runs_with_reset [OF E]) (use Cons.prems in \<open>auto simp: t_def runs_return\<close>)
  have "runs s0 (delete_objects E MafOk ns) w t MafOk w
      (t\<lparr>objs := objs t |` (- set ns), class_of := class_of t |` (- set ns)\<rparr>)"
    by (rule Cons.IH) (use Cons.prems in \<open>auto simp: t_def\<close>)
  moreover have "objs t |` (- set ns) = objs s |` (- set (n # ns))" "class_of t |` (- set ns) = class_of s |` (- set (n # ns))"
    by (rule ext, simp add: t_def restrict_map_def)+
  then have "t\<lparr>objs := objs t |` (- set ns), class_of := class_of t |` (- set ns)\<rparr> =
      s\<lparr>objs := objs s |` (- set (n # ns)), class_of := class_of s |` (- set (n # ns))\<rparr>"
    by (simp add: t_def)
  ultimately show ?case
    unfolding delete_objects.simps using Cons.prems
    by (auto intro!: runs_bnd [OF runs_saNameSet] runs_bnd [OF del])
qed

lemma clear_objects:
  assumes E: "served s0 E" and R: "rlist w (with_numbers w l b i n s) l b i xs" and T: "replicateInIMM w"
  shows "\<exists>s'. runs s0 (deleteAllRTObjects E l) w s MafOk w s' \<and>
    rlist w (with_numbers w l b i 0 s') l b i [] \<and> objs s' (l @ ''=1'') = objs s (l @ ''=1'')"
proof -
  let ?M = "{n. class_of s n = Some (l @ sRuntimeIMMSuffix)}"
  have h: "list_holds w (with_numbers w l b i n s) l b i xs" and r: "store_ready w s l"
    using R by (simp_all add: rlist_def)
  have "objs s (item_object l nm) \<noteq> None \<longleftrightarrow> nm \<in> item_numbers xs" for nm
    using objects_present [OF h T, of nm] by auto
  then have M: "?M = item_object l ` item_numbers xs"
    using r T by (auto simp: store_ready_def simp del: not_None_eq)
  define s2 where "s2 = s\<lparr>found := {}, objs := objs s |` (- ?M), class_of := class_of s |` (- ?M)\<rparr>"
  have fits: "fits w n" "objs s n \<noteq> None" if n: "n \<in> ?M" for n
  proof -
    obtain k where k: "k \<in> fst ` set xs" "n = item_object l (decimal k)"
      using n unfolding M item_numbers_def by blast
    have "k < 2 ^ 32" using rlist_items [OF R] k(1) unat32 [of i] by (meson order_le_less_trans)
    moreover have "0 < k" using rlist_items [OF R] k(1) by blast
    ultimately have "name_ok w l (decimal k)" using rlist_name_ok [OF R] by blast
    then show "fits w n" using T k(2) by (simp add: name_ok_def)
    show "objs s n \<noteq> None" using objects_present [OF h T, of "decimal k"] k by simp
  qed
  have del: "runs s0 (case (MafOk, ns) of (retVal, ms) \<Rightarrow> delete_objects E retVal ms) w (s\<lparr>found := {}\<rparr>) MafOk w s2"
    if "distinct ns" "set ns = ?M" for ns
    using runs_delete_objects [OF E that(1), of w "s\<lparr>found := {}\<rparr>"] fits that(2) by (simp add: s2_def)
  have run: "runs s0 (deleteAllRTObjects E l) w s MafOk w s2"
    unfolding deleteAllRTObjects_def
    by (rule runs_getAllRTObjects [OF E], simp add: M item_numbers_def, rule del)
  have none: "objs s2 (item_object l nm) = None" for nm
    using objects_present [OF h T, of nm] M by (auto simp: s2_def restrict_map_def)
  have "list_holds w (with_numbers w l b i 0 s2) l b i []"
    using T objects.nums_renumber [of w l b i 0 s2] none
    by (simp add: list_holds_def objects.holds_def get_object_def objects_ok_def)
  moreover have "store_ready w s2 l"
  proof -
    have "class_of s2 n \<noteq> Some (l @ sRuntimeIMMSuffix)" for n by (simp add: s2_def restrict_map_def)
    then show ?thesis using T none by (auto simp: store_ready_def)
  qed
  ultimately have "rlist w (with_numbers w l b i 0 s2) l b i []" using R by (simp add: rlist_def)
  moreover have "objs s2 (l @ ''=1'') = objs s (l @ ''=1'')"
    unfolding s2_def M by (auto simp: restrict_map_def)
  ultimately show ?thesis using run by blast
qed

section \<open>Clearing\<close>

lemma clear_refines:
  assumes E: "served s0 E" and R: "rlist w s (name_value l) b i xs" and l: "validateName (Some l)"
  shows "\<exists>s'. runs s0 (listClear E (Some l)) w s MafOk w s' \<and> rlist w s' (name_value l) b i []"
proof -
  let ?l = "name_value l"
  note D = rlist_stateD [OF rlist_state [OF R]]
  define s1 where "s1 = with_numbers w ?l b i 0 s"
  have set0: "runs s0 (set_num E ?l 0) w s MafOk w s1"
    using runs_set_numbers(2) [OF E D(1,5)] by (simp add: s1_def)
  have "with_numbers w ?l b i (of_nat (length xs)) s1 = s"
    using D(5) by (simp add: s1_def with_numbers_def numbers_def fun_upd_idem)
  then have R1: "rlist w (with_numbers w ?l b i (of_nat (length xs)) s1) ?l b i xs" using R by simp
  define m where "m = (if \<not> replicateInIMM w then comsa_rplist_imm_removeAllFiles E ?l else deleteAllRTObjects E ?l)"
  obtain s2 where m: "runs s0 m w s1 MafOk w s2" and s2: "rlist w (with_numbers w ?l b i 0 s2) ?l b i []"
      "objs s2 (?l @ ''=1'') = objs s1 (?l @ ''=1'')"
    using clear_files [OF E R1] clear_objects [OF E R1] by (cases "replicateInIMM w") (auto simp: m_def)
  have "with_numbers w ?l b i 0 s2 = s2"
    using s2(2) by (simp add: s1_def with_numbers_def fun_upd_idem)
  with s2 have "rlist w s2 ?l b i []" by simp
  moreover have "runs s0 (listClear E (Some l)) w s MafOk w s2"
    unfolding listClear_def option.case using l
    by (auto intro!: runs_bnd [OF set0] runs_gets_bnd runs_bnd [OF m [unfolded m_def]] simp: runs_return)
  ultimately show ?thesis by blast
qed

end
