(* ===== verification/RlSteps.thy ===== *)
theory RlSteps
  imports RlClear
begin

text \<open>
  The test for emptiness, and the statement for any operation on items: the effect of one call on
  the stored items.
\<close>

section \<open>Is the list empty?\<close>

lemma is_bin_entries: "\<not> is_bin ''.''" "\<not> is_bin ''..''" "is_bin (nm @ strBin)"
  by (simp_all add: is_bin_def strBin_def)

lemma runs_look_for_item:
  assumes E: "served s0 E" and P: "path_ok w l" and F: "\<not> replicateInIMM w" and R: "ready w l"
  shows "finite (listing s) \<Longrightarrow> \<forall>f \<in> listing s. f \<in> {''.'', ''..''} \<or> item_entry w l s f \<Longrightarrow>
    \<exists>f \<in> listing s. f \<notin> {''.'', ''..''} \<Longrightarrow>
    \<forall>f d. item_entry w l s f \<longrightarrow> fils s (slash (list_path w l) @ f) = Some d \<longrightarrow> d \<noteq> [] \<Longrightarrow>
    (\<And>L. runs s0 (k (False, False)) w (s\<lparr>listing := L\<rparr>) r w' s') \<Longrightarrow>
    runs s0 (bnd (while_prog (\<lambda>(more, e). more) (look_for_item E l (list_path w l)) (True, True)) k) w s r w' s'"
proof (induction "card (listing s)" arbitrary: s rule: less_induct)
  case less
  let ?dir = "list_path w l" and ?p = "slash (list_path w l)"
  let ?loop = "while_prog (\<lambda>(more, e). more) (look_for_item E l ?dir)"
  have stop: "runs s0 (bnd (?loop (False, False)) k) w (s\<lparr>listing := L\<rparr>) r w' s'" for L
    by (rule runs_while_bnd) (simp add: bnd_return less.prems(5))
  show ?case
  proof (rule runs_while_bnd, simp only: prod.case if_True, subst look_for_item_def, simp only: prod.case bnd_assoc,
      rule runs_call [OF E])
    fix e
    assume e: "serves s Readdir e"
    obtain f where f: "f \<in> listing s" "a_text e = Some f" using e less.prems(3) by (auto split: if_splits)
    define s1 where "s1 = s\<lparr>listing := listing s - {f}\<rparr>"
    have s1: "happen Readdir e s = s1" using f(2) by (simp add: s1_def)
    show "runs s0 (bnd (case a_text e of None \<Rightarrow> return (False, True)
       | Some d_name \<Rightarrow> if \<not> is_bin d_name then return (True, True)
           else if l \<noteq> FM_STATUS_SECTION then return (False, False)
           else let fullName = (if last ?dir \<noteq> CHR ''/'' then ?dir @ ''/'' else ?dir) @ d_name in
             if MAX_PATH_DATA_LENGTH \<le> length fullName then die Overflow
             else bnd (call E (StatFile fullName)) (\<lambda>st.
               if a_num st \<noteq> 0 then return (False, False)
               else if fst (a_out st) = 0 then andthen (do_call E (RemoveFile fullName)) (return (False, True))
               else return (False, False)))
      (\<lambda>a. bnd (?loop a) k)) w (happen Readdir e s) r w' s'"
    proof (cases "f \<in> {''.'', ''..''}")
      case True
      have "runs s0 (bnd (?loop (True, True)) k) w s1 r w' s'"
      proof (rule less.hyps)
        show "card (listing s1) < card (listing s)"
          using card_Diff1_less [OF less.prems(1) f(1)] by (simp add: s1_def)
        show "\<exists>f \<in> listing s1. f \<notin> {''.'', ''..''}" using less.prems(3) True by (auto simp: s1_def)
      qed (use less.prems in \<open>auto simp: s1_def item_entry_def\<close>)
      moreover have "\<not> is_bin f" using True is_bin_entries by blast
      ultimately show ?thesis unfolding s1 using f(2) by (simp add: bnd_return)
    next
      case False
      then have it: "item_entry w l s f" using less.prems(2) f(1) by blast
      then obtain q d where q: "q < 2 ^ 32" "f = decimal q @ strBin" "fils s (?p @ f) = Some d" by (auto simp: item_entry_def)
      then have d: "d \<noteq> []" using less.prems(4) it by blast
      have "length (item_path w l (decimal q)) < MAX_PATH_DATA_LENGTH"
        using name_ok_number [OF R q(1)] F by (simp add: name_ok_def)
      then have len: "length (?p @ f) < MAX_PATH_DATA_LENGTH" by (simp add: item_path_def q(2))
      have bin: "is_bin f" using is_bin_entries(3) q(2) by simp
      have stat: "runs s0 (bnd (call E (StatFile (?p @ f))) (\<lambda>st.
          bnd (if a_num st \<noteq> 0 then return (False, False)
             else if fst (a_out st) = 0 then andthen (do_call E (RemoveFile (?p @ f))) (return (False, True))
             else return (False, False)) (\<lambda>a. bnd (?loop a) k))) w s1 r w' s'"
        by (rule runs_call [OF E]) (use q(3) d stop [of "listing s - {f}"] in \<open>auto simp: s1_def bnd_return\<close>)
      show ?thesis
        unfolding s1 slash_def [symmetric] Let_def
        using f(2) bin len stat stop [of "listing s - {f}", folded s1_def]
        by (cases "l = FM_STATUS_SECTION") (simp_all add: bnd_return bnd_assoc)
    qed
  qed
qed

lemma is_empty_refines:
  assumes E: "served s0 E" and R: "rlist w s (name_value l) b i xs" and l: "validateName (Some l)"
    and fm: "\<not> (replicateInIMM w \<and> name_value l = FM_STATUS_SECTION)"
  shows "\<exists>s'. runs s0 (listIsEmpty E (Some l)) w s (MafOk, Some (xs = [])) w s' \<and> rlist w s' (name_value l) b i xs"
proof -
  let ?l = "name_value l" and ?dir = "list_path w (name_value l)"
  note D = rlist_stateD [OF rlist_state [OF R]]
  have h: "list_holds w s ?l b i xs" and p: "path_ok w ?l" and rd: "ready w ?l" and r: "store_ready w s ?l" and b: "b \<noteq> 0"
    using R by (simp_all add: rlist_def ready_def)
  have "length xs < 2 ^ 32" using list_holds_numbers [OF h] by blast
  then have n: "(of_nat (length xs) :: 32 word) = 0 \<longleftrightarrow> xs = []"
    by (simp add: word_of_nat_eq_0_iff dvd_imp_le) (metis dvd_imp_le leD length_greater_0_conv list.size(3) dvd_0_right)
  note num = runs_numbers(3) [OF E D(1,5)]
  show ?thesis
  proof (cases "xs = [] \<or> replicateInIMM w")
    case True
    have "runs s0 (listIsEmpty E (Some l)) w s (MafOk, Some (xs = [])) w s"
    proof (cases "xs = []")
      case nil: True
      show ?thesis
        unfolding listIsEmpty_def option.case using l
        by (simp split del: if_split, intro runs_bnd [OF num]) (simp add: nil runs_return)
    next
      case False
      with True fm n have "replicateInIMM w" "?l \<noteq> FM_STATUS_SECTION" "(of_nat (length xs) :: 32 word) \<noteq> 0" by auto
      then show ?thesis
        unfolding listIsEmpty_def option.case using l False
        by (auto intro!: runs_bnd [OF num] runs_gets_bnd simp: runs_return)
    qed
    then show ?thesis using R by blast
  next
    case False
    define s1 where "s1 = s\<lparr>listing := entries s ?dir\<rparr>"
    have F: "\<not> replicateInIMM w" using False by simp
    note en = rlist_entries [OF R F]
    have full: "d \<noteq> []" if it: "item_entry w ?l s1 f" "fils s1 (slash ?dir @ f) = Some d" for f d
    proof -
      obtain k where k: "f = decimal k @ strBin" using it(1) by (auto simp: item_entry_def)
      then have "get_item w ?l s (decimal k) = Some d"
        using it(2) F by (simp add: s1_def get_item_def item_path_def)
      then have "map_of xs k = Some d" using list_holds_lookup [OF h, of k] by simp
      then have "length d = unat b" using R F by (force simp: rlist_def sized_def dest: map_of_SomeD)
      then show ?thesis using b by (auto simp: unat_eq_0)
    qed
    obtain k where "k \<in> fst ` set xs" using False by (cases xs) auto
    then have ex: "\<exists>f \<in> listing s1. f \<notin> {''.'', ''..''}" using en(3) by (auto simp: s1_def)
    have close: "runs s0 (bnd (call E Closedir) (\<lambda>a. return (Some False))) w (s1\<lparr>listing := L\<rparr>) (Some False) w (s\<lparr>listing := {}\<rparr>)" for L
      by (rule runs_call [OF E]) (simp add: s1_def runs_return)
    have loop: "runs s0 (bnd (while_prog (\<lambda>(more, e). more) (look_for_item E ?l ?dir) (True, True))
        (\<lambda>(more, e). andthen (do_call E Closedir) (return (Some e)))) w s1 (Some False) w (s\<lparr>listing := {}\<rparr>)"
    proof (rule runs_look_for_item [OF E p F rd])
      show "finite (listing s1)" using en(1) by (simp add: s1_def)
      show "\<forall>f \<in> listing s1. f \<in> {''.'', ''..''} \<or> item_entry w ?l s1 f"
        using en(2) by (simp add: s1_def item_entry_def)
      show "\<forall>f d. item_entry w ?l s1 f \<longrightarrow> fils s1 (slash ?dir @ f) = Some d \<longrightarrow> d \<noteq> []" using full by blast
      show "runs s0 (case (False, False) of (m, e) \<Rightarrow> andthen (do_call E Closedir) (return (Some e))) w
          (s1\<lparr>listing := L\<rparr>) (Some False) w (s\<lparr>listing := {}\<rparr>)" for L
        using close [of L] by (simp add: andthen_def do_call_def bnd_assoc bnd_return)
    qed (rule ex)
    have dir: "runs s0 (directory_is_empty E ?l) w s (Some False) w (s\<lparr>listing := {}\<rparr>)"
      unfolding directory_is_empty_def
      by (rule runs_bnd [OF runs_fullPath [OF p F]], rule runs_call [OF E])
        (use r F loop in \<open>auto simp: store_ready_def s1_def\<close>)
    have "runs s0 (listIsEmpty E (Some l)) w s (MafOk, Some (xs = [])) w (s\<lparr>listing := {}\<rparr>)"
      unfolding listIsEmpty_def option.case using l
      by (simp split del: if_split, intro runs_bnd [OF num], use n False in \<open>simp split del: if_split\<close>,
          intro runs_gets_bnd runs_bnd [OF dir])
        (simp_all add: unless_def andthen_def bnd_return runs_return split del: if_split,
          use dir in \<open>auto elim!: runs_bnd simp: bnd_return runs_return\<close>)
    then show ?thesis using R by (intro exI [of _ "s\<lparr>listing := {}\<rparr>"]) simp
  qed
qed

section \<open>The effect of one call\<close>

text \<open>
  The operations on the items of one list, the call of the interface each of them is, and its effect in this
  code on the last number given out and on the numbered items as they are stored.  \<open>RlContract\<close> compares it
  with what the interface promises.
\<close>

datatype list_op =
    Push string | Pop | Erase MafMwSpiListNameT | Replace MafMwSpiListNameT string
  | Find MafMwSpiListNameT string | Size | IsEmpty | Clear

fun call_of :: "MafMwSpiListNameT \<Rightarrow> list_op \<Rightarrow> rl_op" where
  "call_of l (Push buf) = ListPushBack (Some l) True (Some buf)"
| "call_of l Pop = ListPopBack (Some l)"
| "call_of l (Erase nm) = ListEraseItem (Some l) (Some nm)"
| "call_of l (Replace nm buf) = ListReplaceItem (Some l) (Some nm) (Some buf)"
| "call_of l (Find nm buf) = ListFindItem (Some l) (Some nm) (Some buf)"
| "call_of l Size = ListGetSize (Some l)"
| "call_of l IsEmpty = ListIsEmpty (Some l)"
| "call_of l Clear = ListClear (Some l)"

type_synonym alist = "32 word \<times> (nat \<times> string) list"

definition found_rc :: "string \<Rightarrow> (nat \<times> string) list \<Rightarrow> MafReturnT" where
  "found_rc nm xs = (if nm \<in> item_numbers xs then MafOk else MafNotExist)"

fun step_effect :: "rl_world \<Rightarrow> string \<Rightarrow> 32 word \<Rightarrow> alist \<Rightarrow> list_op \<Rightarrow> (MafReturnT \<times> rl_out) \<times> alist" where
  "step_effect w l b (i, xs) (Push buf) =
     ((MafOk, OutName (Some (item_name (i + 1)))), (i + 1, xs @ [(unat i + 1, stored_bytes w l b buf)]))"
| "step_effect w l b (i, xs) Pop = ((fst (pop_effect i xs), NoOut), snd (pop_effect i xs))"
| "step_effect w l b (i, xs) (Erase nm) =
     ((found_rc (name_value nm) xs, NoOut), (i, filter (\<lambda>(k, d). decimal k \<noteq> name_value nm) xs))"
| "step_effect w l b (i, xs) (Replace nm buf) =
     ((found_rc (name_value nm) xs, NoOut), (i, replace_data (name_value nm) (stored_bytes w l b buf) xs))"
| "step_effect w l b (i, xs) (Find nm buf) =
     ((case map_of (map (\<lambda>(k, d). (decimal k, d)) xs) (name_value nm) of
        None \<Rightarrow> (MafNotExist, OutData (Some buf)) | Some d \<Rightarrow> (MafOk, OutData (Some (loaded b d buf)))), (i, xs))"
| "step_effect w l b (i, xs) Size = ((MafOk, OutNumber (Some (of_nat (length xs)))), (i, xs))"
| "step_effect w l b (i, xs) IsEmpty = ((MafOk, OutEmpty (Some (xs = []))), (i, xs))"
| "step_effect w l b (i, xs) Clear = ((MafOk, NoOut), (i, []))"

text \<open>The calls whose effect this is: names and buffers of the right size, and numbers left.\<close>

fun handled :: "rl_world \<Rightarrow> string \<Rightarrow> 32 word \<Rightarrow> alist \<Rightarrow> list_op \<Rightarrow> bool" where
  "handled w l b (i, xs) (Push buf) \<longleftrightarrow> buffer_ok w l b buf \<and> unat i + 1 < 2 ^ 32"
| "handled w l b (i, xs) (Erase nm) \<longleftrightarrow> valid_item w l nm"
| "handled w l b (i, xs) (Replace nm buf) \<longleftrightarrow> valid_item w l nm \<and> buffer_ok w l b buf"
| "handled w l b (i, xs) (Find nm buf) \<longleftrightarrow> valid_item w l nm \<and> unat b \<le> length buf"
| "handled w l b (i, xs) IsEmpty \<longleftrightarrow> \<not> (replicateInIMM w \<and> l = FM_STATUS_SECTION)"
| "handled w l b a op \<longleftrightarrow> True"

lemma runs_code_only: "runs s0 m w s r w' s' \<Longrightarrow> runs s0 (code_only m) w s (r, NoOut) w' s'"
  unfolding code_only_def by (erule runs_bnd) (rule runs_return)

lemma runs_with_out: "runs s0 m w s r w' s' \<Longrightarrow> runs s0 (with_out f m) w s (fst r, f (snd r)) w' s'"
  unfolding with_out_def by (erule runs_bnd) (simp add: case_prod_beta runs_return)

lemma step_refines:
  assumes E: "served s0 E" and R: "rlist w s (name_value l) b i xs" and l: "validateName (Some l)"
    and adm: "handled w (name_value l) b (i, xs) op"
  shows "\<exists>s'. runs s0 (maf_comsa_list E (call_of l op)) w s (fst (step_effect w (name_value l) b (i, xs) op)) w s' \<and>
     rlist w s' (name_value l) b (fst (snd (step_effect w (name_value l) b (i, xs) op)))
       (snd (snd (step_effect w (name_value l) b (i, xs) op)))"
proof (cases op)
  case (Push buf)
  then show ?thesis using push_refines [OF E R l, of buf] adm runs_with_out [of s0 _ w s "(MafOk, _)" w _ OutName] by fastforce
next
  case Pop
  then show ?thesis using pop_refines [OF E R l] runs_code_only by fastforce
next
  case (Erase nm)
  then show ?thesis using erase_refines [OF E R l, of nm] adm runs_code_only by (fastforce simp: found_rc_def)
next
  case (Replace nm buf)
  then show ?thesis using replace_refines [OF E R l, of nm buf] adm runs_code_only by (fastforce simp: found_rc_def)
next
  case (Find nm buf)
  have "runs s0 (maf_comsa_list E (call_of l op)) w s (fst (step_effect w (name_value l) b (i, xs) op)) w s"
    using runs_with_out [OF find_refines [OF E R l], of nm buf OutData] adm Find by (auto split: option.splits)
  then show ?thesis using R Find by auto
next
  case Size
  then show ?thesis using runs_with_out [OF runs_listGetSize [OF E R l], of OutNumber] R by auto
next
  case IsEmpty
  then show ?thesis using is_empty_refines [OF E R l] adm runs_with_out [of s0 _ w s "(MafOk, _)" w _ OutEmpty] by fastforce
next
  case Clear
  then show ?thesis using clear_refines [OF E R l] runs_code_only by fastforce
qed

end
