(* ===== verification/RlIter.thy ===== *)
theory RlIter
  imports RlSteps
begin

text \<open>
  Iterating over a list: from the front reference, the calls for the next item give every item once
  and in order, and the iterator is freed with the last one.
\<close>

section \<open>Fields that do not matter\<close>

lemma rlist_other [simp]:
  "rlist (w\<lparr>iters := h\<rparr>) s l b i xs = rlist w s l b i xs"
  "rlist (w\<lparr>next_iter := n\<rparr>) s l b i xs = rlist w s l b i xs"
  "rlist (w\<lparr>hist := t\<rparr>) s l b i xs = rlist w s l b i xs"
proof -
  have same: "rlist v s l b i xs = rlist w s l b i xs"
    if "replicateInIMM v = replicateInIMM w" "pathToStorageDirectory v = pathToStorageDirectory w" "cc v = cc w" "CC v = CC w"
      "strRlistBlockSize v = strRlistBlockSize w" "strRlistLastId v = strRlistLastId w"
      "strRlistNumElements v = strRlistNumElements w" "bExtendedNameEnabled v = bExtendedNameEnabled w" for v w
  proof -
    have a: "list_path v = list_path w" by (rule ext) (simp add: list_path_def that)
    have b: "item_path v = item_path w" by (intro ext) (simp add: item_path_def a)
    have c: "numbers v = numbers w" by (intro ext) (simp add: numbers_def list_attrs_def that)
    have d: "fits v = fits w" by (rule ext) (simp add: fits_def that)
    have e: "name_ok v = name_ok w" by (intro ext) (simp add: name_ok_def that b d)
    have f: "ready v = ready w"
      by (rule ext) (simp add: ready_def list_ready_def named_def path_ok_def that a d e)
    have g: "store_ready v = store_ready w" by (intro ext) (simp add: store_ready_def that a b)
    have "list_holds v s l b i xs = list_holds w s l b i xs"
      by (simp add: list_holds_def that files.holds_def objects.holds_def b c)
    then show ?thesis by (simp add: rlist_def f g sized_def that)
  qed
  show "rlist (w\<lparr>iters := h\<rparr>) s l b i xs = rlist w s l b i xs"
    "rlist (w\<lparr>next_iter := n\<rparr>) s l b i xs = rlist w s l b i xs"
    "rlist (w\<lparr>hist := t\<rparr>) s l b i xs = rlist w s l b i xs"
    by (rule same; simp)+
qed

section \<open>The front reference\<close>

lemma runs_block_size:
  "served s0 E \<Longrightarrow> rlist w s l b i xs \<Longrightarrow> runs s0 (block_size k E stop l UINT_MAX) w s (MafOk, b) w s"
  by (rule block_size_runs [OF _ rlist_stateD(1,5,7)]) (assumption, (rule rlist_state, assumption)+)

lemma runs_listGetFrontRef:
  assumes E: "served s0 E" and R: "rlist w s (name_value l) b i xs" and l: "validateName (Some l)" and ne: "xs \<noteq> []"
  shows "runs s0 (listGetFrontRef E (Some l) True) w s (MafOk, Some (Some (next_iter w)))
    (w\<lparr>next_iter := next_iter w + 1, iters := (iters w)(next_iter w \<mapsto> \<lparr>it_id = 1, it_index = 0, it_size = Some (ucast b)\<rparr>)\<rparr>) s"
proof -
  let ?a = "next_iter w"
  define v where "v = w\<lparr>next_iter := ?a + 1, iters := (iters w)(?a \<mapsto> \<lparr>it_id = 1, it_index = 0, it_size = None\<rparr>)\<rparr>"
  have Rv: "rlist v s (name_value l) b i xs" using R by (simp add: v_def)
  have "length xs < 2 ^ 32" using R list_holds_numbers by (auto simp: rlist_def)
  then have n: "(of_nat (length xs) :: 32 word) \<noteq> 0"
    using ne by (simp add: word_of_nat_eq_0_iff) (metis dvd_imp_le leD length_greater_0_conv)
  have b: "b \<noteq> UINT_MAX" using R UINT_MAX_large by (auto simp: rlist_def)
  have alloc: "runs s0 (modify (\<lambda>w. w\<lparr>next_iter := ?a + 1, iters := (iters w)(?a \<mapsto> \<lparr>it_id = 1, it_index = 0, it_size = None\<rparr>)\<rparr>)) w s () v s"
    unfolding v_def by (rule runs_modify) simp
  have init: "runs s0 (modify (\<lambda>w. w\<lparr>iters := (iters w)(?a := map_option (\<lambda>i. i\<lparr>it_size := Some (ucast b)\<rparr>) (iters w ?a))\<rparr>)) v s ()
      (w\<lparr>next_iter := ?a + 1, iters := (iters w)(?a \<mapsto> \<lparr>it_id = 1, it_index = 0, it_size = Some (ucast b)\<rparr>)\<rparr>) s"
    using runs_modify [of "\<lambda>w. w\<lparr>iters := (iters w)(?a := map_option (\<lambda>i. i\<lparr>it_size := Some (ucast b)\<rparr>) (iters w ?a))\<rparr>" v s0 s]
    by (simp add: v_def)
  show ?thesis
    unfolding listGetFrontRef_def option.case using l n b
    by (auto intro!: runs_bnd [OF runs_listGetSize [OF E R l]] runs_gets_bnd runs_andthen [OF alloc]
        runs_bnd [OF runs_block_size [OF E Rv]] runs_andthen [OF init] simp: runs_return simp del: One_nat_def)
qed

section \<open>The search for the next item\<close>

text \<open>One step of the search: what it finds under the number \<open>n\<close>.\<close>

lemma runs_try_item:
  assumes E: "served s0 E" and R: "rlist w s l b i xs" and n: "n \<noteq> 0"
  shows "runs s0 (try_item E l (None, n)) w s
    (if unat n \<in> fst ` set xs
     then (Some (MafOk, if replicateInIMM w then objs s (item_object l (decimal (unat n))) else None), n)
     else (None, n + 1)) w s"
proof -
  define m where "m = unat n"
  define here where "here \<longleftrightarrow> m \<in> fst ` set xs"
  have m: "m < 2 ^ 32" "0 < m" using unat32 n by (simp_all add: m_def unat_gt_0)
  have R': "store_ready w s l" "list_holds w s l b i xs" using R by (simp_all add: rlist_def)
  have nm: "name_ok w l (decimal m)" using rlist_name_ok [OF R m(1)] m(2) by blast
  show ?thesis
  proof (cases "replicateInIMM w")
    case False
    have "runs s0 (findFile E (decimal m) l) w s (if here then MafOk else MafNotExist) w s"
      using runs_findFile [OF E False nm R'(1)] files_present [OF R'(2) False, of "decimal m"]
      by (cases here) (simp_all add: here_def)
    then show ?thesis
      unfolding try_item_def prod.case m_def [symmetric] here_def [symmetric] using False
      by (auto intro!: runs_gets_bnd elim!: runs_bnd simp: runs_return)
  next
    case True
    have c: "runs s0 (convertToRTObjectName l (decimal m)) w s (MafOk, Some (item_object l (decimal m))) w s"
      using True nm by (auto intro: runs_convert simp: name_ok_def)
    have rd: "runs s0 (readObject E (Some (item_object l (decimal m)))) w s
        (if here then (MafOk, objs s (item_object l (decimal m))) else (MafNotExist, None)) w s"
      using runs_readObject [OF E, of "item_object l (decimal m)" w s]
        objects_present [OF R'(2) True, of "decimal m"] by (auto simp: here_def split: option.splits)
    show ?thesis
      unfolding try_item_def prod.case m_def [symmetric] here_def [symmetric] using True
      by (auto intro!: runs_gets_bnd runs_bnd [OF c] runs_bnd [OF rd] simp: runs_return)
  qed
qed

lemma runs_findNextListItem:
  assumes E: "served s0 E" and R: "rlist w s l b i xs" and k: "k \<in> fst ` set xs" "n \<noteq> 0" "unat n \<le> k"
    and skip: "\<forall>j \<in> fst ` set xs. unat n \<le> j \<longrightarrow> k \<le> j"
  shows "runs s0 (findNextListItem E l n) w s
    (MafOk, of_nat k, if replicateInIMM w then objs s (item_object l (decimal k)) else None) w s"
proof -
  note D = rlist_stateD [OF rlist_state [OF R]]
  have ki: "k \<le> unat i" using rlist_items [OF R] k(1) by blast
  then have k32: "k < 2 ^ 32" using unat32 [of i] by simp
  have loop: "n \<noteq> 0 \<Longrightarrow> unat n \<le> k \<Longrightarrow> \<forall>j \<in> fst ` set xs. unat n \<le> j \<longrightarrow> k \<le> j \<Longrightarrow>
    runs s0 (while_prog (\<lambda>(outcome, n). outcome = None \<and> n \<le> i) (try_item E l) (None, n)) w s
      (Some (MafOk, if replicateInIMM w then objs s (item_object l (decimal k)) else None), of_nat k) w s" for n
  proof (induction "k - unat n" arbitrary: n)
    case 0
    then have n: "unat n = k" by simp
    then have n': "n = of_nat k" by auto
    have "n \<le> i" using n ki by (simp add: word_le_nat_alt)
    then show ?case using runs_try_item [OF E R 0(2)] k(1) n n'
      by (intro runs_while) (auto elim!: runs_bnd intro!: runs_while simp: runs_return)
  next
    case (Suc d)
    then have lt: "unat n < k" by simp
    then have n1: "unat (n + 1) = unat n + 1" using k32 by (simp add: unat_word_ariths)
    then have n0: "n + 1 \<noteq> 0" by auto
    have "n \<le> i" using lt ki by (simp add: word_le_nat_alt)
    moreover have "unat n \<notin> fst ` set xs" using Suc.prems(3) lt by auto
    ultimately show ?case
      using runs_try_item [OF E R Suc.prems(1)] Suc.hyps(1) [of "n + 1"] Suc.hyps(2) Suc.prems(3) n1 n0 lt
      by (intro runs_while) (auto elim!: runs_bnd)
  qed
  show ?thesis
    unfolding findNextListItem_def
    by (auto intro!: runs_bnd [OF runs_numbers(2) [OF E D(1,5)]] runs_bnd [OF loop [OF k(2,3) skip]] simp: runs_return)
qed

section \<open>The next item\<close>

text \<open>The iterator when \<open>j\<close> items were given.\<close>

definition item_iter :: "32 word \<Rightarrow> (nat \<times> string) list \<Rightarrow> nat \<Rightarrow> RLIterator" where
  "item_iter b xs j = \<lparr>it_id = (if j = 0 then 1 else of_nat (fst (xs ! (j - 1))) + 1), it_index = of_nat j, it_size = Some (ucast b)\<rparr>"

lemma ucast_back [simp]: "(ucast (ucast (b :: 32 word) :: 64 word) :: 32 word) = b"
  by (rule bit_word_eqI) (auto simp: bit_simps)

lemma rlist_nth:
  assumes R: "rlist w s l b i xs" and j: "j < length xs"
  shows "fst (xs ! j) \<in> fst ` set xs" "0 < fst (xs ! j)" "fst (xs ! j) \<le> unat i"
    "get_item w l s (decimal (fst (xs ! j))) = Some (snd (xs ! j))"
    "if replicateInIMM w then length (snd (xs ! j)) \<le> unat b else length (snd (xs ! j)) = unat b"
proof -
  note it = rlist_items [OF R]
  have x: "xs ! j \<in> set xs" using j by simp
  then show k: "fst (xs ! j) \<in> fst ` set xs" by simp
  then show "0 < fst (xs ! j)" "fst (xs ! j) \<le> unat i" using it by blast+
  have h: "list_holds w s l b i xs" and z: "sized w b xs" using R by (simp_all add: rlist_def)
  have "distinct (map fst xs)" using it by (simp add: strict_sorted_iff)
  then have "map_of xs (fst (xs ! j)) = Some (snd (xs ! j))" using x by (simp add: map_of_eq_Some_iff)
  then show "get_item w l s (decimal (fst (xs ! j))) = Some (snd (xs ! j))" using list_holds_lookup [OF h] by simp
  show "if replicateInIMM w then length (snd (xs ! j)) \<le> unat b else length (snd (xs ! j)) = unat b"
    using z x by (auto simp: sized_def)
qed

lemma runs_load_item:
  assumes E: "served s0 E" and R: "rlist w s l b i xs" and j: "j < length xs" and buf: "unat b \<le> length copy"
    and attrs: "attrs = (if replicateInIMM w then objs s (item_object l (decimal (fst (xs ! j)))) else None)"
  shows "runs s0 (load_item E l (of_nat (fst (xs ! j))) attrs copy (Some (ucast b))) w s
    (MafOk, loaded b (snd (xs ! j)) copy) w s"
proof -
  define k where "k = fst (xs ! j)"
  define d where "d = snd (xs ! j)"
  note nth = rlist_nth [OF R j, folded k_def d_def]
  have k32: "k < 2 ^ 32" using nth(3) unat32 [of i] by simp
  have k: "unat (of_nat k :: 32 word) = k" using k32 by (simp add: unat_of_nat take_bit_nat_eq_self)
  have b: "unat b < 2 ^ 31" using R by (simp add: rlist_def)
  show ?thesis
  proof (cases "replicateInIMM w")
    case False
    have nm: "name_ok w l (decimal k)" using rlist_name_ok [OF R k32] False by blast
    have "runs s0 (readFromFile E (decimal k) l copy b) w s (MafOk, loaded b d copy) w s"
      using runs_readFromFile [OF E False nm b, of s d copy] nth(4,5) False buf R
      by (simp add: get_item_def rlist_def store_ready_def loaded_def)
    then have "runs s0 (read_attempts c E (decimal k) l copy b) w s (MafOk, loaded b d copy) w s" for c
      by (cases c) (auto elim!: runs_bnd simp: runs_return)
    then show ?thesis
      unfolding load_item_def option.case k_def [symmetric] d_def [symmetric] autoRetry_readFromFile_def using False k
      by (auto intro!: runs_gets_bnd)
  next
    case True
    obtain as where "attrs = Some as" "data_attr as = Some d"
      using nth(4) True attrs by (auto simp: get_item_def get_object_def k_def [symmetric] split: bind_splits)
    then show ?thesis
      unfolding load_item_def option.case k_def [symmetric] d_def [symmetric] using True runs_getVoidData [of as d b copy s0 w s] nth(5) buf b
      by (auto intro!: runs_gets_bnd)
  qed
qed

lemma runs_set_iter: "runs s0 (set_iter a x) w s () (w\<lparr>iters := (iters w)(a \<mapsto> x)\<rparr>) s"
  unfolding set_iter_def by (rule runs_modify) simp

lemma runs_iter_at: "iters w a = Some x \<Longrightarrow> runs s0 (iter_at a) w s x w s"
  unfolding iter_at_def by (rule runs_gets_bnd) (auto simp: runs_return)

lemma runs_finalize: "validateName (Some l) \<Longrightarrow> iters w a = Some x \<Longrightarrow>
    runs s0 (listGetFinalize (Some l) (Some a)) w s MafOk (w\<lparr>iters := (iters w)(a := None)\<rparr>) s"
  unfolding listGetFinalize_def
  by (auto intro!: runs_gets_bnd runs_andthen [OF runs_modify] simp: runs_return)

lemma next_item_runs:
  assumes E: "served s0 E" and R: "rlist w s (name_value l) b i xs" and l: "validateName (Some l)"
    and j: "j < length xs" and a: "iters w a = Some (item_iter b xs j)" and buf: "unat b \<le> length copy"
  shows "runs s0 (listGetNextItemFront E (Some l) (Some (Some a)) True (Some copy)) w s
    \<lparr>nx_rc = MafOk, nx_ref = (if j + 1 < length xs then Some a else None),
      nx_name = Some (item_name (of_nat (fst (xs ! j)))), nx_data = loaded b (snd (xs ! j)) copy\<rparr>
    (w\<lparr>iters := (iters w)(a := if j + 1 < length xs then Some (item_iter b xs (j + 1)) else None)\<rparr>) s"
proof -
  let ?l = "name_value l"
  define k where "k = fst (xs ! j)"
  note nth = rlist_nth [OF R j, folded k_def]
  have len: "length xs < 2 ^ 32" using R list_holds_numbers by (auto simp: rlist_def)
  have sorted: "fst (xs ! p) < fst (xs ! q)" if "p < q" "q < length xs" for p q
    using rlist_items [OF R] that by (auto simp: sorted_wrt_iff_nth_less)
  define n where "n = it_id (item_iter b xs j)"
  have n: "n \<noteq> 0" "unat n \<le> k" "\<forall>m \<in> fst ` set xs. unat n \<le> m \<longrightarrow> k \<le> m"
  proof -
    have un: "unat n = (if j = 0 then 1 else fst (xs ! (j - 1)) + 1)"
    proof (cases "j = 0")
      case False
      then have lt: "fst (xs ! (j - 1)) < k" using sorted [of "j - 1" j] j by (simp add: k_def)
      then have "fst (xs ! (j - 1)) + 1 < 2 ^ 32" using nth(3) unat32 [of i] by simp
      then show ?thesis using False
        by (simp add: n_def item_iter_def unat_word_ariths unat_of_nat take_bit_nat_eq_self)
    qed (simp add: n_def item_iter_def)
    then show "n \<noteq> 0" by (auto split: if_splits)
    show "unat n \<le> k" using un sorted [of "j - 1" j] j nth(2) by (cases "j = 0") (auto simp: k_def)
    show "\<forall>m \<in> fst ` set xs. unat n \<le> m \<longrightarrow> k \<le> m"
    proof (intro ballI impI)
      fix m assume "m \<in> fst ` set xs" and m: "unat n \<le> m"
      then obtain q where q: "q < length xs" "m = fst (xs ! q)" by (auto simp: in_set_conv_nth)
      have "\<not> q < j"
      proof
        assume "q < j"
        then have "fst (xs ! q) \<le> fst (xs ! (j - 1))" using sorted [of q "j - 1"] j by (cases "q = j - 1") (auto simp: less_imp_le)
        then show False using un m q \<open>q < j\<close> by simp
      qed
      then show "k \<le> m" using sorted [of j q] q by (cases "q = j") (auto simp: k_def less_imp_le)
    qed
  qed
  define attrs where "attrs = (if replicateInIMM w then objs s (item_object ?l (decimal k)) else None)"
  have find: "runs s0 (findNextListItem E ?l n) w s (MafOk, of_nat k, attrs) w s"
    unfolding attrs_def by (rule runs_findNextListItem [OF E R nth(1) n])
  define w1 where "w1 = w\<lparr>iters := (iters w)(a \<mapsto> (item_iter b xs j)\<lparr>it_id := of_nat k + 1\<rparr>)\<rparr>"
  define w2 where "w2 = w\<lparr>iters := (iters w)(a \<mapsto> item_iter b xs (j + 1))\<rparr>"
  have R1: "rlist w1 s ?l b i xs" using R by (simp add: w1_def)
  have set1: "runs s0 (set_iter a ((item_iter b xs j)\<lparr>it_id := of_nat k + 1\<rparr>)) w s () w1 s"
    unfolding w1_def by (rule runs_set_iter)
  have load: "runs s0 (load_item E ?l (of_nat k) attrs copy (it_size (item_iter b xs j))) w1 s (MafOk, loaded b (snd (xs ! j)) copy) w1 s"
  proof -
    have "attrs = (if replicateInIMM w1 then objs s (item_object ?l (decimal (fst (xs ! j)))) else None)"
      by (simp add: attrs_def k_def w1_def)
    from runs_load_item [OF E R1 j buf this] show ?thesis by (simp add: k_def item_iter_def)
  qed
  have set2: "runs s0 (set_iter a ((item_iter b xs j)\<lparr>it_id := of_nat k + 1, it_index := it_index (item_iter b xs j) + 1\<rparr>)) w1 s () w2 s"
  proof -
    have "(item_iter b xs j)\<lparr>it_id := of_nat k + 1, it_index := it_index (item_iter b xs j) + 1\<rparr> = item_iter b xs (j + 1)"
      by (simp add: item_iter_def k_def add.commute)
    then show ?thesis using runs_set_iter [of s0 a "item_iter b xs (j + 1)" w1 s] by (simp add: w1_def w2_def)
  qed
  have ix: "it_index (item_iter b xs j) \<ge> of_nat (length xs) \<longleftrightarrow> False"
    "it_index (item_iter b xs j) + 1 \<ge> of_nat (length xs) \<longleftrightarrow> \<not> j + 1 < length xs"
  proof -
    have "unat (of_nat m :: 32 word) = m" if "m \<le> length xs" for m
      using that len by (simp add: unat_of_nat take_bit_nat_eq_self)
    from this [of j] this [of "length xs"] this [of "j + 1"] j
    show "it_index (item_iter b xs j) \<ge> of_nat (length xs) \<longleftrightarrow> False"
      "it_index (item_iter b xs j) + 1 \<ge> of_nat (length xs) \<longleftrightarrow> \<not> j + 1 < length xs"
      by (auto simp: item_iter_def word_le_nat_alt add.commute)
  qed
  have fin: "runs s0 (listGetFinalize (Some l) (Some a)) w2 s MafOk (w\<lparr>iters := (iters w)(a := None)\<rparr>) s"
    using runs_finalize [OF l, of w2 a "item_iter b xs (j + 1)" s0 s] by (simp add: w2_def)
  show ?thesis
    unfolding listGetNextItemFront_def option.case prod.case next_item_def
    using l
    by (auto intro!: runs_bnd [OF runs_listGetSize [OF E R l]] runs_bnd [OF runs_iter_at [OF a]] runs_bnd [OF find [unfolded n_def]]
        runs_andthen [OF set1] runs_bnd [OF load] runs_andthen [OF set2] runs_bnd [OF fin]
        simp: ix runs_return w2_def k_def [symmetric])
qed

end
