(* ===== verification/RlExample.thy ===== *)
theory RlExample
  imports RlIter
begin

text \<open>
  A list "L" of items of 8 bytes, in files or in objects, for the examples: the state of the service
  after its start, and a store that holds the empty list.
\<close>

definition w_ex :: "bool \<Rightarrow> rl_world" where
  "w_ex imm = \<lparr>hist = [], imm_version_latest = imm_version, rplistImmHandle = 1, rplistImmOiHandle = 2, immAccessHandle = 3,
     rplistOiSetFlag = True, retries = 0, pathToStorageDirectory = ''/storage'',
     strRlistBlockSize = Some ''comsaRlistBlockSize'', strRlistLastId = Some ''comsaRlistLastId'',
     strRlistNumElements = Some ''comsaRlistNumElements'', rlist_maxsize = 1000, clearAlarmsOnClusterReboot = True,
     replicateInIMM = imm, bExtendedNameEnabled = False, cc = ''com'', CC = ''Com'', iters = Map.empty, next_iter = 0, slack = True\<rparr>"

definition s_of :: "bool \<Rightarrow> string \<Rightarrow> store" where
  "s_of imm l = \<lparr>objs = [l @ ''=1'' \<mapsto> list_attrs (w_ex imm) l 8 0 0], class_of = Map.empty, fils = Map.empty,
     dirs = {list_path (w_ex imm) l}, opened = None, listing = {}, found = {}\<rparr>"

definition s_ex :: "bool \<Rightarrow> store" where "s_ex imm = s_of imm ''L''"

definition short_name :: "string \<Rightarrow> bool" where
  "short_name l \<longleftrightarrow> l \<noteq> [] \<and> last l \<noteq> CHR ''/'' \<and> length l \<le> 20"

definition l_ex :: MafMwSpiListNameT where "l_ex = \<lparr>name_length = 1, name_value = ''L''\<rparr>"

lemma l_ex [simp]: "name_value l_ex = ''L''" "validateName (Some l_ex)"
  by (simp_all add: l_ex_def validateName_def MW_SPI_MAX_NAME_LENGTH_def)

lemma w_ex_simps [simp]:
  "replicateInIMM (w_ex imm) = imm" "pathToStorageDirectory (w_ex imm) = ''/storage''" "cc (w_ex imm) = ''com''"
  "CC (w_ex imm) = ''Com''" "bExtendedNameEnabled (w_ex imm) = False" "hist (w_ex imm) = []" "iters (w_ex imm) = Map.empty"
  "next_iter (w_ex imm) = 0"
  by (simp_all add: w_ex_def)

lemma number_length: "k < 2 ^ 32 \<Longrightarrow> length (decimal k) \<le> 10"
  by (rule decimal_length) simp_all

lemma list_path_ex: "list_path (w_ex imm) l = ''/storage/'' @ COMSA_FOR_COREMW_DIR ''com'' @ ''/rplist/'' @ l"
  by (simp add: list_path_def slash_def strRpListPath_def)

lemma item_path_length: "short_name l \<Longrightarrow> length (item_path (w_ex imm) l nm) = length nm + length (list_path (w_ex imm) l) + 5"
  by (simp add: item_path_def slash_def list_path_ex strBin_def short_name_def)

lemma short_path: "short_name l \<Longrightarrow> length (list_path (w_ex imm) l) \<le> 80"
  by (simp add: list_path_ex COMSA_FOR_COREMW_DIR_def short_name_def)

lemma name_ok_ex: "short_name l \<Longrightarrow> k < 2 ^ 32 \<Longrightarrow> 0 < k \<Longrightarrow> name_ok (w_ex imm) l (decimal k)"
  using number_length [of k] short_path [of l imm] decimal_hd [of k]
  by (auto simp: name_ok_def fits_def item_object_def SA_MAX_UNEXTENDED_NAME_LENGTH_def MAX_PATH_DATA_LENGTH_def item_path_length
      short_name_def)

lemma ready_ex: "short_name l \<Longrightarrow> ready (w_ex imm) l"
proof -
  assume l: "short_name l"
  have "named (w_ex imm)" by (simp add: named_def w_ex_def)
  moreover have "fits (w_ex imm) (l @ ''=1'')" using l by (simp add: fits_def SA_MAX_UNEXTENDED_NAME_LENGTH_def short_name_def)
  moreover have "path_ok (w_ex imm) l"
    using short_path [OF l, of imm] l by (simp add: path_ok_def MAX_PATH_DATA_LENGTH_def short_name_def)
  ultimately show ?thesis using name_ok_ex [OF l] by (simp add: ready_def list_ready_def)
qed

lemma rlist_of: "short_name l \<Longrightarrow> rlist (w_ex imm) (s_of imm l) l 8 0 []"
proof -
  assume l: "short_name l"
  have len: "item_path (w_ex imm) l nm \<noteq> list_path (w_ex imm) l" for nm
    using arg_cong [of "item_path (w_ex imm) l nm" "list_path (w_ex imm) l" length] item_path_length [OF l, of imm nm] by auto
  have "store_ready (w_ex imm) (s_of imm l) l"
    using len by (auto simp: store_ready_def s_of_def)
  moreover have "list_holds (w_ex imm) (s_of imm l) l 8 0 []"
    by (auto simp: list_holds_def files.holds_def objects.holds_def numbers_def s_of_def get_object_def objects_ok_def)
  ultimately show ?thesis using ready_ex [OF l] by (simp add: rlist_def)
qed

lemma short_L [simp]: "short_name ''L''"
  by (simp add: short_name_def)

lemma rlist_ex: "rlist (w_ex imm) (s_ex imm) ''L'' 8 0 []"
  by (simp add: s_ex_def rlist_of)

lemma item_name_valid: "k < 2 ^ 32 \<Longrightarrow> 0 < k \<Longrightarrow> validateName (Some (item_name (of_nat k)))"
proof -
  assume k: "k < 2 ^ 32" "0 < k"
  then have "length (decimal k) \<le> 10" using number_length by blast
  moreover have "decimal k \<noteq> []" using decimal_hd [OF k(2)] by auto
  ultimately have "0 < length (decimal k)" "length (decimal k) < 2 ^ 16" "length (decimal k) \<le> 10" by auto
  then show ?thesis using k
    by (simp add: validateName_def item_name_def MW_SPI_MAX_NAME_LENGTH_def unat_of_nat take_bit_nat_eq_self
        word_of_nat_eq_0_iff nat_dvd_not_less word_less_nat_alt)
qed

end
