(* ===== verification/RlProps.thy ===== *)
theory RlProps
  imports RlExample
begin

text \<open>
  The replicated list: the effect of its operations on items, one by one and in sequence, on the stored
  items, and iterating, which gives all items; with an environment in which the theorems apply.
\<close>

section \<open>From the store to the state of the program\<close>

definition list_at :: "store \<Rightarrow> rl_world \<Rightarrow> string \<Rightarrow> 32 word \<Rightarrow> alist \<Rightarrow> bool" where
  "list_at s0 w l b a \<longleftrightarrow> rlist w (stored s0 (hist w)) l b (fst a) (snd a)"

lemma runs_world: "runs s0 m w (stored s0 (hist w)) r w' s' \<Longrightarrow>
    \<exists>h. m w = Some (Inr (r, w'\<lparr>hist := h\<rparr>)) \<and> stored s0 h = s'"
  unfolding runs_def by (drule spec [of _ "hist w"]) simp

lemma step_world:
  assumes "served s0 E" "list_at s0 w (name_value l) b a" "validateName (Some l)" "handled w (name_value l) b a op"
  shows "\<exists>h. maf_comsa_list E (call_of l op) w = Some (Inr (fst (step_effect w (name_value l) b a op), w\<lparr>hist := h\<rparr>)) \<and>
    list_at s0 (w\<lparr>hist := h\<rparr>) (name_value l) b (snd (step_effect w (name_value l) b a op))"
proof -
  obtain i xs where a: "a = (i, xs)" by (cases a)
  have R: "rlist w (stored s0 (hist w)) (name_value l) b i xs" using assms(2) by (simp add: list_at_def a)
  define r a' where "r = fst (step_effect w (name_value l) b a op)" and "a' = snd (step_effect w (name_value l) b a op)"
  obtain s' where run: "runs s0 (maf_comsa_list E (call_of l op)) w (stored s0 (hist w)) r w s'"
    and R': "rlist w s' (name_value l) b (fst a') (snd a')"
    using step_refines [OF assms(1) R assms(3), of op] assms(4) unfolding a r_def a'_def by auto
  obtain h where "maf_comsa_list E (call_of l op) w = Some (Inr (r, w\<lparr>hist := h\<rparr>))" "stored s0 h = s'"
    using runs_world [OF run] by blast
  then show ?thesis unfolding r_def [symmetric] a'_def [symmetric] using R' by (intro exI [of _ h]) (simp add: list_at_def)
qed

section \<open>Sequences of calls\<close>

primrec run_calls :: "outside \<Rightarrow> MafMwSpiListNameT \<Rightarrow> list_op list \<Rightarrow> (MafReturnT \<times> rl_out) list rlp" where
  "run_calls E l [] = return []"
| "run_calls E l (op # ops) = bnd (maf_comsa_list E (call_of l op)) (\<lambda>r. bnd (run_calls E l ops) (\<lambda>rs. return (r # rs)))"

primrec run_effect :: "rl_world \<Rightarrow> string \<Rightarrow> 32 word \<Rightarrow> alist \<Rightarrow> list_op list \<Rightarrow> (MafReturnT \<times> rl_out) list \<times> alist" where
  "run_effect w l b a [] = ([], a)"
| "run_effect w l b a (op # ops) = (let (r, a') = step_effect w l b a op; (rs, a'') = run_effect w l b a' ops in (r # rs, a''))"

primrec all_handled :: "rl_world \<Rightarrow> string \<Rightarrow> 32 word \<Rightarrow> alist \<Rightarrow> list_op list \<Rightarrow> bool" where
  "all_handled w l b a [] \<longleftrightarrow> True"
| "all_handled w l b a (op # ops) \<longleftrightarrow> handled w l b a op \<and> all_handled w l b (snd (step_effect w l b a op)) ops"

text \<open>The effect depends on the configuration only, not on the calls made.\<close>

lemma config_hist [simp]:
  "step_effect (w\<lparr>hist := h\<rparr>) l b a op = step_effect w l b a op"
  "handled (w\<lparr>hist := h\<rparr>) l b a op = handled w l b a op"
  by (cases a; cases op; simp add: stored_bytes_def buffer_ok_def valid_item_def name_ok_def fits_def item_path_def list_path_def)+

lemma config_hist_run [simp]:
  "run_effect (w\<lparr>hist := h\<rparr>) l b a ops = run_effect w l b a ops"
  "all_handled (w\<lparr>hist := h\<rparr>) l b a ops = all_handled w l b a ops"
  by (induction ops arbitrary: a) simp_all

lemma run_world:
  assumes "served s0 E" "validateName (Some l)"
  shows "list_at s0 w (name_value l) b a \<Longrightarrow> all_handled w (name_value l) b a ops \<Longrightarrow>
    \<exists>h. run_calls E l ops w = Some (Inr (fst (run_effect w (name_value l) b a ops), w\<lparr>hist := h\<rparr>)) \<and>
    list_at s0 (w\<lparr>hist := h\<rparr>) (name_value l) b (snd (run_effect w (name_value l) b a ops))"
proof (induction ops arbitrary: w a)
  case Nil
  then show ?case by (intro exI [of _ "hist w"]) (simp add: return_def)
next
  case (Cons op ops)
  let ?l = "name_value l"
  obtain r a' where st: "step_effect w ?l b a op = (r, a')" by (cases "step_effect w ?l b a op")
  obtain rs a'' where run: "run_effect w ?l b a' ops = (rs, a'')" by (cases "run_effect w ?l b a' ops")
  obtain h where h: "maf_comsa_list E (call_of l op) w = Some (Inr (r, w\<lparr>hist := h\<rparr>))" "list_at s0 (w\<lparr>hist := h\<rparr>) ?l b a'"
    using step_world [OF assms(1) Cons.prems(1) assms(2), of op] Cons.prems(2) st by auto
  obtain h' where "run_calls E l ops (w\<lparr>hist := h\<rparr>) = Some (Inr (rs, w\<lparr>hist := h'\<rparr>))" "list_at s0 (w\<lparr>hist := h'\<rparr>) ?l b a''"
    using Cons.IH [OF h(2)] Cons.prems(2) st run by auto
  then show ?case using h(1) st run by (intro exI [of _ h']) (simp add: bnd_def return_def)
qed

lemma list_at_ex: "list_at (s_ex imm) (w_ex imm) ''L'' 8 (0, [])"
  using rlist_ex by (simp add: list_at_def stored_def)

lemma buffers_ex: "buffer_ok (w_ex imm) ''L'' 8 (''abcdefg'' @ [CHR 0x00])"
  by (auto simp: buffer_ok_def c_string_def)

section \<open>Iterating\<close>

text \<open>A client that asks for items until the reference is the null pointer.\<close>

definition all_items :: "outside \<Rightarrow> MafMwSpiListNameT \<Rightarrow> string \<Rightarrow>
    (MafReturnT \<times> (MafReturnT \<times> MafMwSpiListNameT option \<times> string) list) rlp" where
  "all_items E l copy = bnd (listGetFrontRef E (Some l) True) (\<lambda>(rc, ref). case ref of None \<Rightarrow> return (rc, [])
     | Some first \<Rightarrow>
         bnd (while_prog (\<lambda>(r, acc). r \<noteq> None)
                (\<lambda>(r, acc). bnd (listGetNextItemFront E (Some l) (Some r) True (Some copy)) (\<lambda>x.
                   return (nx_ref x, acc @ [(nx_rc x, nx_name x, nx_data x)]))) (first, []))
           (\<lambda>(r, acc). return (rc, acc)))"

definition item_result :: "32 word \<Rightarrow> string \<Rightarrow> nat \<times> string \<Rightarrow> MafReturnT \<times> MafMwSpiListNameT option \<times> string" where
  "item_result b copy x = (MafOk, Some (item_name (of_nat (fst x))), loaded b (snd x) copy)"

lemma runs_all_next:
  assumes E: "served s0 E" and l: "validateName (Some l)" and buf: "unat b \<le> length copy"
  shows "rlist w s (name_value l) b i xs \<Longrightarrow> j < length xs \<Longrightarrow> iters w a = Some (item_iter b xs j) \<Longrightarrow>
    runs s0 (while_prog (\<lambda>(r, acc). r \<noteq> None)
        (\<lambda>(r, acc). bnd (listGetNextItemFront E (Some l) (Some r) True (Some copy)) (\<lambda>x.
           return (nx_ref x, acc @ [(nx_rc x, nx_name x, nx_data x)]))) (Some a, acc)) w s
      (None, acc @ map (item_result b copy) (drop j xs)) (w\<lparr>iters := (iters w)(a := None)\<rparr>) s"
proof (induction "length xs - j" arbitrary: w j acc)
  case 0
  then show ?case by simp
next
  case (Suc n)
  let ?v = "w\<lparr>iters := (iters w)(a := if j + 1 < length xs then Some (item_iter b xs (j + 1)) else None)\<rparr>"
  have drop: "drop j xs = xs ! j # drop (Suc j) xs" using Suc.prems(2) by (simp add: Cons_nth_drop_Suc)
  note nx = next_item_runs [OF E Suc.prems(1) l Suc.prems(2,3) buf]
  show ?case
  proof (cases "j + 1 < length xs")
    case True
    have "runs s0 (while_prog (\<lambda>(r, acc). r \<noteq> None)
        (\<lambda>(r, acc). bnd (listGetNextItemFront E (Some l) (Some r) True (Some copy)) (\<lambda>x.
           return (nx_ref x, acc @ [(nx_rc x, nx_name x, nx_data x)]))) (Some a, acc @ [item_result b copy (xs ! j)])) ?v s
      (None, (acc @ [item_result b copy (xs ! j)]) @ map (item_result b copy) (drop (j + 1) xs)) (?v\<lparr>iters := (iters ?v)(a := None)\<rparr>) s"
      by (rule Suc.hyps(1)) (use Suc True in auto)
    then show ?thesis using True drop
      by (intro runs_while)
        (auto intro!: runs_bnd [OF nx] simp: bnd_assoc bnd_return item_result_def)
  next
    case False
    then show ?thesis using drop
      by (intro runs_while)
        (auto intro!: runs_bnd [OF nx] runs_while simp: bnd_assoc bnd_return item_result_def runs_return)
  qed
qed

lemma runs_while_None: "runs s0 (while_prog (\<lambda>(r, acc). r \<noteq> None) body (None, acc)) w s (None, acc) w s"
  by (rule runs_while) (simp add: runs_return)

lemma runs_all_items:
  assumes E: "served s0 E" and R: "rlist w s (name_value l) b i xs" and l: "validateName (Some l)"
    and buf: "unat b \<le> length copy" and fresh: "iters w (next_iter w) = None"
  shows "runs s0 (all_items E l copy) w s (MafOk, map (item_result b copy) xs)
    (w\<lparr>next_iter := next_iter w + (if xs = [] then 0 else 1)\<rparr>) s"
proof (cases "xs = []")
  case True
  have "runs s0 (listGetFrontRef E (Some l) True) w s (MafOk, Some None) w s"
    unfolding listGetFrontRef_def option.case using l True
    by (auto intro!: runs_bnd [OF runs_listGetSize [OF E R l]] simp: runs_return)
  then show ?thesis unfolding all_items_def using True
    by (auto elim!: runs_bnd intro!: runs_bnd [OF runs_while_None] simp: runs_return simp del: not_None_eq)
next
  case False
  let ?a = "next_iter w"
  define v where "v = w\<lparr>next_iter := ?a + 1, iters := (iters w)(?a \<mapsto> \<lparr>it_id = 1, it_index = 0, it_size = Some (ucast b)\<rparr>)\<rparr>"
  have front: "runs s0 (listGetFrontRef E (Some l) True) w s (MafOk, Some (Some ?a)) v s"
    unfolding v_def by (rule runs_listGetFrontRef [OF E R l False])
  have Rv: "rlist v s (name_value l) b i xs" using R by (simp add: v_def)
  have it: "iters v ?a = Some (item_iter b xs 0)" by (simp add: v_def item_iter_def)
  have "v\<lparr>iters := (iters v)(?a := None)\<rparr> = w\<lparr>next_iter := ?a + 1\<rparr>"
    using fresh by (simp add: v_def fun_upd_idem)
  then show ?thesis
    unfolding all_items_def using runs_all_next [OF E l buf Rv _ it, of "[]"] False
    by (auto intro!: runs_bnd [OF front] elim!: runs_bnd simp: runs_return)
qed

text \<open>
  C15. Iterating gives every item of the list exactly once, in the order in which they were added,
  each with its name and its data; the last one comes with the null reference, and by then the
  iterator is freed: no memory is kept.
\<close>

theorem rlist_iterates:
  assumes "served s0 E" "list_at s0 w (name_value l) b (i, xs)" "validateName (Some l)" "unat b \<le> length copy"
    "iters w (next_iter w) = None"
  shows "\<exists>h. all_items E l copy w = Some (Inr ((MafOk, map (item_result b copy) xs),
      w\<lparr>next_iter := next_iter w + (if xs = [] then 0 else 1), hist := h\<rparr>)) \<and>
    list_at s0 (w\<lparr>next_iter := next_iter w + (if xs = [] then 0 else 1), hist := h\<rparr>) (name_value l) b (i, xs)"
proof -
  let ?v = "w\<lparr>next_iter := next_iter w + (if xs = [] then 0 else 1)\<rparr>"
  have R: "rlist w (stored s0 (hist w)) (name_value l) b i xs" using assms(2) by (simp add: list_at_def)
  obtain h where h: "all_items E l copy w = Some (Inr ((MafOk, map (item_result b copy) xs), ?v\<lparr>hist := h\<rparr>))"
    "stored s0 h = stored s0 (hist w)" using runs_world [OF runs_all_items [OF assms(1) R assms(3-5)]] by blast
  then show ?thesis using R by (intro exI [of _ h]) (simp add: list_at_def)
qed

theorem rlist_iterates_witness:
  "\<exists>w h. all_items (obliging (s_ex False)) l_ex ''01234567'' w = Some (Inr ((MafOk, map (item_result 8 ''01234567'')
      [(1, stored_bytes w ''L'' 8 (''abcdefg'' @ [CHR 0x00])), (2, stored_bytes w ''L'' 8 (''abcdefg'' @ [CHR 0x00]))]),
    w\<lparr>next_iter := 1, hist := h\<rparr>))"
proof -
  let ?buf = "''abcdefg'' @ [CHR 0x00]" and ?d = "stored_bytes (w_ex False) ''L'' 8 (''abcdefg'' @ [CHR 0x00])"
  let ?ops = "[Push ?buf, Push ?buf]"
  have adm: "all_handled (w_ex False) (name_value l_ex) 8 (0, []) ?ops" using buffers_ex by simp
  have spec: "snd (run_effect (w_ex False) ''L'' 8 (0, []) ?ops) = (2, [(1, ?d), (2, ?d)])" by simp
  obtain h where h: "list_at (s_ex False) ((w_ex False)\<lparr>hist := h\<rparr>) ''L'' 8 (2, [(1, ?d), (2, ?d)])"
    using run_world [OF obliging_serves l_ex(2) _ adm, of "s_ex False", unfolded l_ex(1) spec] list_at_ex by blast
  let ?w = "(w_ex False)\<lparr>hist := h\<rparr>"
  have "\<exists>h'. all_items (obliging (s_ex False)) l_ex ''01234567'' ?w =
      Some (Inr ((MafOk, map (item_result 8 ''01234567'') [(1, ?d), (2, ?d)]), ?w\<lparr>next_iter := 1, hist := h'\<rparr>))"
    using rlist_iterates [OF obliging_serves _ l_ex(2), of "s_ex False" ?w 8 2 "[(1, ?d), (2, ?d)]" "''01234567''"] h by auto
  moreover have "stored_bytes ?w ''L'' 8 ?buf = ?d" by (simp add: stored_bytes_def)
  ultimately show ?thesis by (intro exI [of _ ?w]) simp
qed

end
