(* ===== verification/RlContract.thy ===== *)
theory RlContract
  imports RlProps
begin

text \<open>
  The replicated list against its interface \<open>MafMwSpiReplicatedList_1.h\<close>: an item is a block of
  \<open>dataBufferSize\<close> bytes, removing the back item removes the last one, and finding gives a copy of the
  item.  The calls for which the code keeps this are those \<open>admitted\<close> lets through; where it does not, the
  theorems say what it does instead.
\<close>

section \<open>The interface\<close>

fun spec_step :: "32 word \<Rightarrow> alist \<Rightarrow> list_op \<Rightarrow> (MafReturnT \<times> rl_out) \<times> alist" where
  "spec_step b (i, ys) (Push buf) =
     ((MafOk, OutName (Some (item_name (i + 1)))), (i + 1, ys @ [(unat i + 1, take (unat b) buf)]))"
| "spec_step b (i, ys) Pop = ((MafOk, NoOut), (of_nat (last (0 # map fst (butlast ys))), butlast ys))"
| "spec_step b (i, ys) (Erase nm) =
     ((found_rc (name_value nm) ys, NoOut), (i, filter (\<lambda>(k, d). decimal k \<noteq> name_value nm) ys))"
| "spec_step b (i, ys) (Replace nm buf) =
     ((found_rc (name_value nm) ys, NoOut), (i, replace_data (name_value nm) (take (unat b) buf) ys))"
| "spec_step b (i, ys) (Find nm buf) =
     ((case map_of (map (\<lambda>(k, d). (decimal k, d)) ys) (name_value nm) of
        None \<Rightarrow> (MafNotExist, OutData (Some buf))
      | Some d \<Rightarrow> (MafOk, OutData (Some (d @ drop (unat b) buf)))), (i, ys))"
| "spec_step b (i, ys) Size = ((MafOk, OutNumber (Some (of_nat (length ys)))), (i, ys))"
| "spec_step b (i, ys) IsEmpty = ((MafOk, OutEmpty (Some (ys = []))), (i, ys))"
| "spec_step b (i, ys) Clear = ((MafOk, NoOut), (i, []))"

primrec spec_run :: "32 word \<Rightarrow> alist \<Rightarrow> list_op list \<Rightarrow> (MafReturnT \<times> rl_out) list \<times> alist" where
  "spec_run b a [] = ([], a)"
| "spec_run b a (op # ops) = (let (r, a') = spec_step b a op; (rs, a'') = spec_run b a' ops in (r # rs, a''))"

text \<open>
  A caller's buffer the code stores as a whole: in files any of the size of an item, in objects one with a
  NUL and nothing but NULs behind it.
\<close>

definition cut_at_nul :: "rl_world \<Rightarrow> string \<Rightarrow> bool" where
  "cut_at_nul w l \<longleftrightarrow> replicateInIMM w \<and> l \<noteq> FM_STATUS_SECTION"

definition nothing_behind :: "32 word \<Rightarrow> string \<Rightarrow> bool" where
  "nothing_behind b buf \<longleftrightarrow> (\<forall>c \<in> set (drop (length (c_string buf)) (take (unat b) buf)). c = CHR 0x00)"

definition whole_item :: "rl_world \<Rightarrow> string \<Rightarrow> 32 word \<Rightarrow> string \<Rightarrow> bool" where
  "whole_item w l b buf \<longleftrightarrow> buffer_ok w l b buf \<and> unat b \<le> length buf \<and> (cut_at_nul w l \<longrightarrow> nothing_behind b buf)"

text \<open>
  The calls for which the code keeps to the interface: the names fit, items are stored as a whole, there are
  numbers left, and the item with the last number given out is still the one at the back when it is removed.
  The test for emptiness of \<open>FmStatusSection\<close> in objects is left out; it may forget items.
\<close>

fun admitted :: "rl_world \<Rightarrow> string \<Rightarrow> 32 word \<Rightarrow> alist \<Rightarrow> list_op \<Rightarrow> bool" where
  "admitted w l b (i, ys) (Push buf) \<longleftrightarrow> whole_item w l b buf \<and> unat i + 1 < 2 ^ 32"
| "admitted w l b (i, ys) Pop \<longleftrightarrow> ys \<noteq> [] \<and> fst (last ys) = unat i"
| "admitted w l b (i, ys) (Erase nm) \<longleftrightarrow> valid_item w l nm"
| "admitted w l b (i, ys) (Replace nm buf) \<longleftrightarrow> valid_item w l nm \<and> whole_item w l b buf"
| "admitted w l b (i, ys) (Find nm buf) \<longleftrightarrow> valid_item w l nm \<and> unat b \<le> length buf"
| "admitted w l b (i, ys) IsEmpty \<longleftrightarrow> \<not> (replicateInIMM w \<and> l = FM_STATUS_SECTION)"
| "admitted w l b a op \<longleftrightarrow> True"

primrec all_admitted :: "rl_world \<Rightarrow> string \<Rightarrow> 32 word \<Rightarrow> alist \<Rightarrow> list_op list \<Rightarrow> bool" where
  "all_admitted w l b a [] \<longleftrightarrow> True"
| "all_admitted w l b a (op # ops) \<longleftrightarrow> admitted w l b a op \<and> all_admitted w l b (snd (spec_step b a op)) ops"

section \<open>Stored items and items\<close>

text \<open>What is stored of an item stands for a block of the size of an item, filled with NULs.\<close>

definition padded :: "32 word \<Rightarrow> string \<Rightarrow> string" where
  "padded b d = d @ replicate (unat b - length d) (CHR 0x00)"

definition items :: "32 word \<Rightarrow> (nat \<times> string) list \<Rightarrow> (nat \<times> string) list" where
  "items b xs = map (\<lambda>(k, d). (k, padded b d)) xs"

definition list_is :: "store \<Rightarrow> rl_world \<Rightarrow> string \<Rightarrow> 32 word \<Rightarrow> alist \<Rightarrow> bool" where
  "list_is s0 w l b a \<longleftrightarrow> (\<exists>xs. list_at s0 w l b (fst a, xs) \<and> snd a = items b xs)"

lemma items_simps [simp]:
  "items b [] = []" "items b (xs @ ys) = items b xs @ items b ys" "items b xs = [] \<longleftrightarrow> xs = []"
  "length (items b xs) = length xs" "map fst (items b xs) = map fst xs" "fst ` set (items b xs) = fst ` set xs"
  "butlast (items b xs) = items b (butlast xs)" "item_numbers (items b xs) = item_numbers xs"
  "found_rc nm (items b xs) = found_rc nm xs"
  by (force simp: items_def map_butlast item_numbers_def found_rc_def image_image case_prod_beta)+

lemma items_one [simp]: "items b [(k, d)] = [(k, padded b d)]"
  by (simp add: items_def)

lemma items_last: "xs \<noteq> [] \<Longrightarrow> fst (last (items b xs)) = fst (last xs)"
  by (simp add: items_def last_map case_prod_beta)

lemma items_filter: "items b (filter (\<lambda>(k, d). P k) xs) = filter (\<lambda>(k, d). P k) (items b xs)"
  by (induction xs) (auto simp: items_def)

lemma items_replace: "items b (replace_data nm d xs) = replace_data nm (padded b d) (items b xs)"
  by (simp add: items_def replace_data_def case_prod_beta)

lemma items_map_of:
  "map_of (map (\<lambda>(k, d). (decimal k, d)) (items b xs)) nm = map_option (padded b) (map_of (map (\<lambda>(k, d). (decimal k, d)) xs) nm)"
  by (induction xs) (auto simp: items_def)

lemma loaded_padded: "loaded b d buf = padded b d @ drop (unat b) buf"
  by (simp add: loaded_def padded_def)

lemma c_string_split: "length (c_string buf) \<le> n \<Longrightarrow> take n buf = c_string buf @ drop (length (c_string buf)) (take n buf)"
  using append_take_drop_id [of "length (c_string buf)" "take n buf"] c_string_prefix(1) [of buf] by (simp add: min_def)

lemma all_nul: "(\<forall>c \<in> set xs. c = CHR 0x00) \<longleftrightarrow> xs = replicate (length xs) (CHR 0x00)"
  using replicate_length_same [of xs "CHR 0x00"] by (metis in_set_replicate)

text \<open>The block a caller gives is kept exactly if nothing follows its first NUL.\<close>

lemma padded_stored:
  assumes "buffer_ok w l b buf" "unat b \<le> length buf"
  shows "padded b (stored_bytes w l b buf) = take (unat b) buf \<longleftrightarrow> (cut_at_nul w l \<longrightarrow> nothing_behind b buf)"
proof (cases "cut_at_nul w l")
  case False
  then have "stored_bytes w l b buf = take (unat b) buf" by (auto simp: cut_at_nul_def stored_bytes_def)
  then show ?thesis using False assms(2) by (simp add: padded_def)
next
  case True
  let ?n = "length (c_string buf)" and ?rest = "drop (length (c_string buf)) (take (unat b) buf)"
  have n: "?n \<le> unat b" using assms(1) True by (simp add: buffer_ok_def cut_at_nul_def)
  have "padded b (stored_bytes w l b buf) = take (unat b) buf \<longleftrightarrow> replicate (unat b - ?n) (CHR 0x00) = ?rest"
    using True by (subst c_string_split [OF n]) (simp add: padded_def stored_bytes_def cut_at_nul_def)
  also have "\<dots> \<longleftrightarrow> nothing_behind b buf"
    using assms(2) unfolding nothing_behind_def all_nul by auto
  finally show ?thesis using True by simp
qed

lemma whole_stored: "whole_item w l b buf \<Longrightarrow> padded b (stored_bytes w l b buf) = take (unat b) buf"
  using padded_stored by (simp add: whole_item_def)

section \<open>The code keeps to the interface\<close>

lemma admitted_handled: "admitted w l b (i, items b xs) op \<Longrightarrow> handled w l b (i, xs) op"
  by (cases op) (simp_all add: whole_item_def)

lemma admitted_effect:
  assumes "admitted w l b (i, items b xs) op" "step_effect w l b (i, xs) op = (r, i', xs')"
  shows "spec_step b (i, items b xs) op = (r, i', items b xs')"
proof (cases op)
  case Pop
  then show ?thesis using assms items_last [of xs b]
    by (auto simp: pop_effect_def split: if_splits)
next
  case (Find nm buf)
  then show ?thesis using assms by (auto simp: items_map_of loaded_padded split: option.splits)
qed (use assms in \<open>auto simp: whole_stored items_filter items_replace\<close>)

lemma admitted_run:
  "all_admitted w l b (i, items b xs) ops \<Longrightarrow> run_effect w l b (i, xs) ops = (rs, j, ys) \<Longrightarrow>
    all_handled w l b (i, xs) ops \<and> spec_run b (i, items b xs) ops = (rs, j, items b ys)"
proof (induction ops arbitrary: i xs rs)
  case (Cons op ops)
  obtain r i' xs' where st: "step_effect w l b (i, xs) op = (r, i', xs')" by (cases "step_effect w l b (i, xs) op") auto
  obtain rs' where rs: "run_effect w l b (i', xs') ops = (rs', j, ys)" "rs = r # rs'"
    using Cons.prems(2) st by (auto split: prod.splits)
  have sp: "spec_step b (i, items b xs) op = (r, i', items b xs')"
    by (rule admitted_effect [OF _ st]) (use Cons.prems(1) in simp)
  show ?case using Cons.IH [OF _ rs(1)] Cons.prems(1) admitted_handled [of w l b i xs op] st sp rs(2) by simp
qed simp

text \<open>
  C13. Any sequence of admitted calls on the items of one list gives the results the interface promises and
  leaves the promised list, item by item and byte by byte, in the files or objects: adding, removing the
  last, erasing, replacing, finding, counting, testing for emptiness and clearing.  Services and operating
  system are taken not to fail.  One call that is not admitted breaks the promise: if the item with the last
  number given out was erased, removing the last item answers "does not exist" and removes nothing, although
  the list exists and may have items.
\<close>

theorem rlist_refines:
  assumes "served s0 E" "list_is s0 w (name_value l) b a" "validateName (Some l)"
    "all_admitted w (name_value l) b a ops" "spec_run b a ops = (rs, i, ys)"
  shows "\<exists>h. run_calls E l ops w = Some (Inr (rs, w\<lparr>hist := h\<rparr>)) \<and> list_is s0 (w\<lparr>hist := h\<rparr>) (name_value l) b (i, ys) \<and>
    (unat i \<notin> fst ` set ys \<longrightarrow>
      (\<exists>g. maf_comsa_list E (ListPopBack (Some l)) (w\<lparr>hist := h\<rparr>) = Some (Inr ((MafNotExist, NoOut), w\<lparr>hist := g\<rparr>)) \<and>
        list_is s0 (w\<lparr>hist := g\<rparr>) (name_value l) b (i, ys)))"
proof -
  obtain xs where xs: "list_at s0 w (name_value l) b (fst a, xs)" "a = (fst a, items b xs)"
    using assms(2) by (metis list_is_def prod.collapse)
  obtain rs' j zs where run: "run_effect w (name_value l) b (fst a, xs) ops = (rs', j, zs)"
    by (cases "run_effect w (name_value l) b (fst a, xs) ops") auto
  have all: "all_handled w (name_value l) b (fst a, xs) ops" and eq: "rs' = rs" "j = i" "ys = items b zs"
    using admitted_run [OF _ run] assms(4,5) xs(2) by (metis prod.inject)+
  obtain h where h: "run_calls E l ops w = Some (Inr (rs, w\<lparr>hist := h\<rparr>))" "list_at s0 (w\<lparr>hist := h\<rparr>) (name_value l) b (i, zs)"
    using run_world [OF assms(1,3) xs(1) all] run eq by auto
  have "\<exists>g. maf_comsa_list E (ListPopBack (Some l)) (w\<lparr>hist := h\<rparr>) = Some (Inr ((MafNotExist, NoOut), w\<lparr>hist := g\<rparr>)) \<and>
      list_at s0 (w\<lparr>hist := g\<rparr>) (name_value l) b (i, zs)" if "unat i \<notin> fst ` set zs"
    using step_world [OF assms(1) h(2) assms(3), of Pop] pop_effect_other [OF that] by auto
  with h show ?thesis using eq(3) by (auto simp: list_is_def)
qed

lemma list_is_ex: "list_is (s_ex imm) (w_ex imm) ''L'' 8 (0, [])"
  unfolding list_is_def using list_at_ex by (intro exI [of _ "[]"]) simp

lemma whole_ex: "whole_item (w_ex imm) ''L'' 8 (''abcdefg'' @ [CHR 0x00])"
  using buffers_ex by (simp add: whole_item_def nothing_behind_def c_string_def)

text \<open>Two items are added, the last one is removed and another one added, which is erased: one item is left.\<close>

theorem rlist_refines_witness:
  "\<exists>h g. run_calls (obliging (s_ex True)) l_ex [Push (''abcdefg'' @ [CHR 0x00]), Push (''abcdefg'' @ [CHR 0x00]), Pop,
        Push (''abcdefg'' @ [CHR 0x00]), Erase (item_name 2), Size] (w_ex True) =
     Some (Inr ([(MafOk, OutName (Some (item_name 1))), (MafOk, OutName (Some (item_name 2))), (MafOk, NoOut),
        (MafOk, OutName (Some (item_name 2))), (MafOk, NoOut), (MafOk, OutNumber (Some 1))], (w_ex True)\<lparr>hist := h\<rparr>)) \<and>
     maf_comsa_list (obliging (s_ex True)) (ListPopBack (Some l_ex)) ((w_ex True)\<lparr>hist := h\<rparr>) =
       Some (Inr ((MafNotExist, NoOut), (w_ex True)\<lparr>hist := g\<rparr>))"
proof -
  let ?buf = "''abcdefg'' @ [CHR 0x00]"
  let ?ops = "[Push ?buf, Push ?buf, Pop, Push ?buf, Erase (item_name 2), Size]"
  have two: "unat (1 + 1 :: 32 word) = 2" by simp
  have nm: "valid_item (w_ex True) ''L'' (item_name 2)"
    using item_name_valid [of 2] name_ok_ex [of "''L''" 2 True] by (simp add: valid_item_def item_name_def)
  have n2: "name_value (item_name 2) = decimal 2" by (simp add: item_name_def)
  have adm: "all_admitted (w_ex True) (name_value l_ex) 8 (0, []) ?ops" using whole_ex nm by simp
  have run: "spec_run 8 (0, []) ?ops = ([(MafOk, OutName (Some (item_name 1))), (MafOk, OutName (Some (item_name 2))),
      (MafOk, NoOut), (MafOk, OutName (Some (item_name 2))), (MafOk, NoOut), (MafOk, OutNumber (Some 1))], 2, [(1, ?buf)])"
    by (simp add: n2 found_rc_def item_numbers_def)
  show ?thesis using rlist_refines [OF obliging_serves _ l_ex(2) adm run] list_is_ex by fastforce
qed

text \<open>
  C20. An item that was added is found under the name given out for it: the caller's buffer then starts with
  a block of the size of an item.  It is the block that was added, except in objects, where the block is cut
  at its first NUL and filled with NULs again: there it is the same exactly if nothing but NULs followed.
\<close>

theorem rlist_push_find:
  assumes "served s0 E" "list_is s0 w (name_value l) b (i, ys)" "validateName (Some l)"
    "unat i + 1 < 2 ^ 32" "buffer_ok w (name_value l) b buf" "unat b \<le> length buf"
    "valid_item w (name_value l) (item_name (i + 1))" "unat b \<le> length copy"
  shows "\<exists>h d. run_calls E l [Push buf, Find (item_name (i + 1)) copy] w =
      Some (Inr ([(MafOk, OutName (Some (item_name (i + 1)))), (MafOk, OutData (Some (d @ drop (unat b) copy)))],
        w\<lparr>hist := h\<rparr>)) \<and>
    d = (if cut_at_nul w (name_value l) then padded b (c_string buf) else take (unat b) buf) \<and>
    (d = take (unat b) buf \<longleftrightarrow> (cut_at_nul w (name_value l) \<longrightarrow> nothing_behind b buf))"
proof -
  obtain xs where xs: "list_at s0 w (name_value l) b (i, xs)" using assms(2) by (auto simp: list_is_def)
  let ?d = "stored_bytes w (name_value l) b buf"
  have i: "unat (i + 1) = unat i + 1" using assms(4) by (simp add: unat_word_ariths)
  have "map_of xs (unat i + 1) = None" using xs rlist_items by (fastforce simp: list_at_def map_of_eq_None_iff)
  then have "map_of (map (\<lambda>(k, d). (decimal k, d)) (xs @ [(unat i + 1, d)])) (decimal (unat i + 1)) = Some d" for d
    by (simp only: map_of_decimal map_of_append map_add_def) simp
  then have "run_effect w (name_value l) b (i, xs) [Push buf, Find (item_name (i + 1)) copy] =
     ([(MafOk, OutName (Some (item_name (i + 1)))), (MafOk, OutData (Some (padded b ?d @ drop (unat b) copy)))],
      (i + 1, xs @ [(unat i + 1, ?d)]))"
    by (simp add: item_name_def i loaded_padded)
  moreover have "all_handled w (name_value l) b (i, xs) [Push buf, Find (item_name (i + 1)) copy]"
    using assms(4-8) by simp
  ultimately obtain h where "run_calls E l [Push buf, Find (item_name (i + 1)) copy] w =
      Some (Inr ([(MafOk, OutName (Some (item_name (i + 1)))), (MafOk, OutData (Some (padded b ?d @ drop (unat b) copy)))],
        w\<lparr>hist := h\<rparr>))"
    using run_world [OF assms(1,3) xs] by fastforce
  moreover have "padded b ?d = (if cut_at_nul w (name_value l) then padded b (c_string buf) else take (unat b) buf)"
    using assms(6) by (simp add: stored_bytes_def cut_at_nul_def padded_def)
  ultimately show ?thesis using padded_stored [OF assms(5,6)] by blast
qed

text \<open>In objects, what follows the first NUL is lost.\<close>

theorem rlist_push_find_witness:
  "\<exists>h. run_calls (obliging (s_ex True)) l_ex [Push (''abc'' @ [CHR 0x00] @ ''efgh''), Find (item_name 1) ''01234567''] (w_ex True) =
     Some (Inr ([(MafOk, OutName (Some (item_name 1))), (MafOk, OutData (Some (''abc'' @ replicate 5 (CHR 0x00))))],
       (w_ex True)\<lparr>hist := h\<rparr>))"
proof -
  let ?buf = "''abc'' @ [CHR 0x00] @ ''efgh''"
  have "valid_item (w_ex True) ''L'' (item_name 1)"
    using item_name_valid [of 1] name_ok_ex [of "''L''" 1 True] by (simp add: valid_item_def item_name_def)
  then have nm: "valid_item (w_ex True) (name_value l_ex) (item_name (0 + 1))" by simp
  have buf: "buffer_ok (w_ex True) (name_value l_ex) 8 ?buf" by (simp add: buffer_ok_def c_string_def)
  have "padded 8 (c_string ?buf) = ''abc'' @ replicate 5 (CHR 0x00)"
    by (simp add: padded_def c_string_def)
  then show ?thesis
    using rlist_push_find [OF obliging_serves _ l_ex(2) _ buf _ nm, of "s_ex True" "[]" "''01234567''"] list_is_ex
    by (auto simp: cut_at_nul_def FM_STATUS_SECTION_def)
qed

end
