(* ===== verification/RlSafe.thy ===== *)
theory RlSafe
  imports RlConf
begin

text \<open>
  What holds whatever the services and the operating system answer: which operations end, and what
  they leave alone.
\<close>

section \<open>Programs that leave the configuration and the iterators alone\<close>

definition same_config :: "rl_world \<Rightarrow> rl_world \<Rightarrow> bool" where
  "same_config v w \<longleftrightarrow> strRlistBlockSize v = strRlistBlockSize w \<and> strRlistLastId v = strRlistLastId w \<and>
     strRlistNumElements v = strRlistNumElements w \<and> rlist_maxsize v = rlist_maxsize w \<and>
     clearAlarmsOnClusterReboot v = clearAlarmsOnClusterReboot w \<and> replicateInIMM v = replicateInIMM w \<and>
     bExtendedNameEnabled v = bExtendedNameEnabled w \<and> cc v = cc w \<and> CC v = CC w \<and> slack v = slack w"

text \<open>The number of attempts to become the implementer is left alone, too, if \<open>k\<close>.\<close>

definition frame :: "bool \<Rightarrow> rl_world \<Rightarrow> rl_world \<Rightarrow> bool" where
  "frame k v w \<longleftrightarrow> same_config v w \<and> iters v = iters w \<and> next_iter v = next_iter w \<and> (k \<longrightarrow> retries v = retries w)"

lemma frame_refl [simp]: "frame k w w"
  by (simp add: frame_def same_config_def)

lemma frame_trans: "frame k u v \<Longrightarrow> frame k v w \<Longrightarrow> frame k u w"
  by (simp add: frame_def same_config_def)

lemma frame_weaken: "frame True v w \<Longrightarrow> frame k v w"
  by (simp add: frame_def)

lemma frame_hist [simp]: "frame k (w\<lparr>hist := h\<rparr>) w"
  by (simp add: frame_def same_config_def)

definition tame :: "bool \<Rightarrow> bool \<Rightarrow> 'a rlp \<Rightarrow> bool" where
  "tame d k m \<longleftrightarrow> (\<forall>w. wp d m (\<lambda>r v. frame k v w) (\<lambda>f v. True) w)"

lemma tame_weaken: "tame False True m \<Longrightarrow> tame d k m"
  unfolding tame_def by (cases d) (auto intro!: wp_partial intro: wp_mono frame_weaken)

lemma tame_partial: "tame False k m \<Longrightarrow> tame d k m"
  unfolding tame_def by (cases d) (auto intro!: wp_partial)

lemma tame_basic [intro!]:
  "tame d k (return r)" "tame d k (die f)" "tame d k (gets g)" "tame d k (call E c)" "tame d k (do_call E c)"
  by (simp_all add: tame_def wp_call wp_do_call)

lemma tame_modify: "(\<And>w. frame k (h w) w) \<Longrightarrow> tame d k (modify h)"
  by (simp add: tame_def)

lemma tame_bnd [intro!]: "tame d k m \<Longrightarrow> (\<And>a. tame d k (f a)) \<Longrightarrow> tame d k (bnd m f)"
  unfolding tame_def wp_bnd by (blast intro: wp_mono frame_trans)

lemma tame_andthen [intro!]: "tame d k m \<Longrightarrow> tame d k n \<Longrightarrow> tame d k (andthen m n)"
  unfolding andthen_def by (rule tame_bnd)

lemma tame_unless [intro!]: "tame d k m \<Longrightarrow> tame d k (unless b m)"
  unfolding unless_def by auto

lemma tame_if [intro!]: "(b \<Longrightarrow> tame d k m) \<Longrightarrow> (\<not> b \<Longrightarrow> tame d k n) \<Longrightarrow> tame d k (if b then m else n)"
  by simp

lemma tame_case [intro!]:
  "(\<And>a b. tame d k (f a b)) \<Longrightarrow> tame d k (case p of (a, b) \<Rightarrow> f a b)"
  by (cases p) simp

lemma tame_option [intro!]:
  "tame d k m \<Longrightarrow> (\<And>a. tame d k (f a)) \<Longrightarrow> tame d k (case x of None \<Rightarrow> m | Some a \<Rightarrow> f a)"
  by (cases x) simp_all

lemma tame_sum [intro!]:
  "(\<And>a. tame d k (g a)) \<Longrightarrow> (\<And>a. tame d k (f a)) \<Longrightarrow> tame d k (case x of Inl a \<Rightarrow> g a | Inr a \<Rightarrow> f a)"
  by (cases x) simp_all

lemma tame_Let [intro!]: "(\<And>a. tame d k (f a)) \<Longrightarrow> tame d k (let a = x in f a)"
  by simp

lemma tame_while: "(\<And>a. tame True k (body a)) \<Longrightarrow> tame True k (while_prog b body a)"
proof -
  assume body: "\<And>a. tame True k (body a)"
  show ?thesis
    unfolding tame_def
  proof
    fix w
    show "wp True (while_prog b body a) (\<lambda>r v. frame k v w) (\<lambda>f v. True) w"
      by (rule while_partial [where I = "\<lambda>a v. frame k v w"])
        (use body in \<open>auto simp: tame_def intro: wp_mono frame_trans\<close>)
  qed
qed

section \<open>Services that do not ask to try again for ever\<close>

definition patient :: "outside \<Rightarrow> bool" where
  "patient E \<longleftrightarrow> (\<forall>nxt c h. \<exists>n. \<not> try_again (a_rc (attempt_answer E nxt c h n)))"

lemma tame_auto_retry_from:
  assumes "patient E"
  shows "tame d k (auto_retry_from E try_again nxt c)"
  unfolding tame_def
proof
  fix w :: rl_world
  let ?P = "\<lambda>n. \<not> try_again (a_rc (attempt_answer E nxt c (hist w) n))"
  have "\<exists>n. ?P n" using assms by (simp add: patient_def)
  then have "?P (LEAST n. ?P n)" by (rule LeastI_ex)
  then have "\<exists>a h. auto_retry_from E try_again nxt c w = Some (Inr (a, w\<lparr>hist := h\<rparr>))"
    using retry_returns [of try_again E nxt c w "LEAST n. ?P n"] not_less_Least [of _ ?P] by blast
  then show "wp d (auto_retry_from E try_again nxt c) (\<lambda>r v. frame k v w) (\<lambda>f v. True) w" by (auto simp: wp_def)
qed

lemma tame_auto_retry: "patient E \<Longrightarrow> tame d k (auto_retry E try_again c)"
  unfolding auto_retry_def by (rule tame_auto_retry_from)

named_theorems tames

lemmas api_wrappers = autoRetry_saImmOmFinalize_def autoRetry_saImmOmAccessorFinalize_def
  autoRetry_saImmOmAccessorInitialize_def autoRetry_saImmOiFinalize_def autoRetry_saImmOiImplementerClear_def
  autoRetry_saImmOiImplementerSet_def autoRetry_saImmOmClassDescriptionGet_2_def autoRetry_saImmOmClassCreate_2_def
  autoRetry_saImmOmClassDelete_def autoRetry_saImmOiRtObjectCreate_2_def autoRetry_saImmOmAccessorGet_2_def
  autoRetry_saImmOiRtObjectUpdate_2_def autoRetry_saImmOiRtObjectDelete_def autoRetry_saImmOmSearchInitialize_2_def
  autoRetry_saImmOmSearchNext_2_def autoRetry_saImmOmSearchFinalize_def

lemma tame_api:
  assumes "patient E"
  shows "tame d k (autoRetry_saImmOmInitialize E cb ver)" "tame d k (autoRetry_saImmOiInitialize_2 E cb ver)"
  unfolding autoRetry_saImmOmInitialize_def autoRetry_saImmOmInitializeAttempt_def autoRetry_saImmOiInitialize_2_def
  by (auto intro!: tame_auto_retry_from tame_auto_retry assms tame_modify simp: frame_def same_config_def)

lemma tame_unsetFromEnvironment [tames]: "tame d k (unsetFromEnvironment E n)"
  unfolding unsetFromEnvironment_def by auto

lemma tame_handles:
  assumes "patient E"
  shows "tame d k (comsa_rplist_imm_finalize E)" "tame d k (comsa_rplist_imm_init E)"
    "tame d k (comsa_rplist_immAccess_finalize E h)" "tame d k (comsa_rplist_immAccess_init E)"
    "tame d k (comsa_rplist_immOi_init E)" "tame d k (comsa_rplist_immOi_finalize E)"
    "tame d k (clearAndRefreshIMMHandler E)"
proof -
  note api = tame_api [OF assms] tame_auto_retry [OF assms]
  have f: "frame k (w\<lparr>rplistImmHandle := x\<rparr>) w" "frame k (w\<lparr>rplistImmOiHandle := x\<rparr>) w" "frame k (w\<lparr>immAccessHandle := x\<rparr>) w" for w x
    by (simp_all add: frame_def same_config_def)
  show 1: "tame d k (comsa_rplist_imm_finalize E)"
    unfolding comsa_rplist_imm_finalize_def api_wrappers by (auto intro!: api tame_modify f)
  show "tame d k (comsa_rplist_imm_init E)"
    unfolding comsa_rplist_imm_init_def by (auto intro!: api 1 tame_modify f)
  show 2: "tame d k (comsa_rplist_immAccess_finalize E h)" for h
    unfolding comsa_rplist_immAccess_finalize_def api_wrappers by (auto intro!: api)
  show "tame d k (comsa_rplist_immAccess_init E)"
    unfolding comsa_rplist_immAccess_init_def api_wrappers by (auto intro!: api 2 tame_modify f)
  show "tame d k (comsa_rplist_immOi_init E)"
    unfolding comsa_rplist_immOi_init_def by (auto intro!: api tame_modify f)
  show 3: "tame d k (comsa_rplist_immOi_finalize E)"
    unfolding comsa_rplist_immOi_finalize_def api_wrappers by (auto intro!: api tame_modify f)
  show "tame d k (clearAndRefreshIMMHandler E)"
    unfolding clearAndRefreshIMMHandler_def api_wrappers by (auto intro!: api 1 2 3)
qed

text \<open>
  The recursion ends: the number of attempts is below 3 when another one is made, and one more
  afterwards; nothing in between changes it.
\<close>

lemma immOi_set_unfold: "comsa_rplist_immOi_set E =
    bnd (comsa_rplist_imm_init E) (\<lambda>rc. if rc \<noteq> MafOk then return rc else
    bnd (comsa_rplist_immOi_init E) (\<lambda>rc. if rc \<noteq> MafOk then return rc else
    bnd (gets (\<lambda>v. v)) (\<lambda>v.
    bnd (autoRetry_saImmOiImplementerSet E (rplistImmOiHandle v) (IMPLEMENTER_NAME (CC v))) (\<lambda>a.
      if a_rc a = SA_AIS_OK then andthen (modify (\<lambda>w. w\<lparr>retries := 0\<rparr>)) (comsa_rplist_immAccess_init E)
      else if a_rc a \<noteq> SA_AIS_ERR_NO_RESOURCES then return MafFailure
      else bnd (gets retries) (\<lambda>n. andthen (modify (\<lambda>w. w\<lparr>retries := retries w + 1\<rparr>))
        (if n <s 3 then
           andthen (comsa_rplist_immOi_finalize E)
          (andthen (unsetFromEnvironment E ''IMMA_OI_CALLBACK_TIMEOUT'')
          (andthen (comsa_rplist_immOi_set E) (comsa_rplist_immAccess_init E)))
         else return MafFailure))))))" (is "_ = ?m")
proof
  fix w
  have if_app: "(if c then f else g) v = (if c then f v else g v)" for c f g and v :: rl_world by simp
  show "comsa_rplist_immOi_set E w = ?m w"
    by (subst comsa_rplist_immOi_set.simps) (simp add: andthen_def gets_def bnd_def if_app cong: if_cong option.case_cong sum.case_cong prod.case_cong)
qed

lemma wp_tame:
  "tame False k m \<Longrightarrow> (\<And>r u. frame k u v \<Longrightarrow> Q r u) \<Longrightarrow> wp False m Q (\<lambda>f v. True) v"
  unfolding tame_def by (blast intro: wp_mono)

lemma retries_step: "n <s 3 \<Longrightarrow> nat (3 - sint (n + 1)) < nat (3 - sint n)" for n :: "16 word"
proof -
  assume n: "n <s 3"
  then have lt: "sint n < 3" by (simp add: word_sless_alt)
  have "- (2 ^ 15) \<le> sint n" using sint_greater_eq [of n] by simp
  then have "sint (n + 1) = sint n + 1"
    using lt by (simp add: signed_take_bit_int_eq_self sint_word_ariths)
  then show ?thesis using lt by simp
qed

definition near :: "16 word \<Rightarrow> rl_world \<Rightarrow> rl_world \<Rightarrow> bool" where
  "near n v w \<longleftrightarrow> frame False v w \<and> retries v = n"

lemma near_refl: "near (retries w) w w"
  by (simp add: near_def)

lemma nearD: "near n v w \<Longrightarrow> retries v = n \<and> frame False v w"
  by (simp add: near_def)

lemma near_set: "near n v w \<Longrightarrow> near m (v\<lparr>retries := m\<rparr>) w"
  by (simp add: near_def frame_def same_config_def)

lemma near_trans: "frame True u v \<Longrightarrow> near n v w \<Longrightarrow> near n u w"
  by (simp add: near_def frame_def same_config_def)

lemma wp_near: "tame False True m \<Longrightarrow> near n v w \<Longrightarrow> (\<And>r u. near n u w \<Longrightarrow> Q r u) \<Longrightarrow> wp False m Q (\<lambda>f v. True) v"
  by (erule wp_tame) (blast intro: near_trans)

lemma tame_immOi_set:
  assumes P: "patient E"
  shows "tame d False (comsa_rplist_immOi_set E)"
proof (rule tame_partial, unfold tame_def, rule allI)
  fix w
  note hs = tame_handles [OF P, of False True]
  show "wp False (comsa_rplist_immOi_set E) (\<lambda>r v. frame False v w) (\<lambda>f v. True) w"
  proof (induction "nat (3 - sint (retries w))" arbitrary: w rule: less_induct)
    case less
    let ?Q = "\<lambda>r v. frame False v w" and ?n = "retries w"
    have acc: "wp False (comsa_rplist_immAccess_init E) ?Q (\<lambda>f v. True) v" if "near n v w" for v n
      by (rule wp_near [OF hs(4) that]) (blast dest: nearD)
    have again: "wp False (comsa_rplist_immOi_set E) (\<lambda>a. wp False (comsa_rplist_immAccess_init E) ?Q (\<lambda>f v. True)) (\<lambda>f v. True) v"
      if "near (?n + 1) v w" "?n <s 3" for v
    proof -
      have "wp False (comsa_rplist_immOi_set E) (\<lambda>r u. frame False u v) (\<lambda>f v. True) v"
        by (rule less) (use retries_step [OF that(2)] nearD [OF that(1)] in simp)
      then show ?thesis
      proof (rule wp_mono)
        fix a u
        assume "frame False u v"
        then have "near (retries u) u w" using nearD [OF that(1)] frame_trans by (auto simp: near_def)
        then show "wp False (comsa_rplist_immAccess_init E) ?Q (\<lambda>f v. True) u" by (rule acc)
      qed
    qed
    have inc: "near (?n + 1) (v\<lparr>retries := retries v + 1\<rparr>) w" if "near ?n v w" for v
      using near_set [OF that] nearD [OF that] by simp
    have retry: "wp False (comsa_rplist_immOi_finalize E)
        (\<lambda>a. wp False (andthen (unsetFromEnvironment E ''IMMA_OI_CALLBACK_TIMEOUT'')
           (andthen (comsa_rplist_immOi_set E) (comsa_rplist_immAccess_init E))) ?Q (\<lambda>f v. True))
        (\<lambda>f v. True) (v\<lparr>retries := retries v + 1\<rparr>)"
      if v: "near ?n v w" "retries v <s 3" for v
    proof -
      have "?n <s 3" using v nearD [OF v(1)] by simp
      then have set: "wp False (comsa_rplist_immOi_set E) (\<lambda>a. wp False (comsa_rplist_immAccess_init E) ?Q (\<lambda>f v. True))
          (\<lambda>f v. True) u" if "near (?n + 1) u w" for u
        by (rule again [OF that])
      have "wp False (unsetFromEnvironment E ''IMMA_OI_CALLBACK_TIMEOUT'')
          (\<lambda>a. wp False (comsa_rplist_immOi_set E) (\<lambda>a. wp False (comsa_rplist_immAccess_init E) ?Q (\<lambda>f v. True)) (\<lambda>f v. True))
          (\<lambda>f v. True) u" if "near (?n + 1) u w" for u
        by (rule wp_near [OF tame_unsetFromEnvironment that set])
      then show ?thesis
        unfolding wp_andthen by (rule wp_near [OF hs(6) inc [OF v(1)]])
    qed
    have stop: "frame False v w" "frame False (v\<lparr>retries := retries v + 1\<rparr>) w" if "near ?n v w" for v
      using nearD [OF that] nearD [OF inc [OF that]] by blast+
    have set0: "wp False (comsa_rplist_immAccess_init E) ?Q (\<lambda>f v. True) (v\<lparr>retries := 0\<rparr>)" if "near ?n v w" for v
      by (rule acc [OF near_set [OF that]])
    show ?case
      by (subst immOi_set_unfold, simp only: wp_bnd wp_andthen wp_if wp_basic autoRetry_saImmOiImplementerSet_def,
          rule wp_near [OF hs(2) near_refl], simp only: split: if_split, intro conjI impI)
        (auto intro!: wp_near [OF hs(5), where n = ?n] wp_near [OF tame_auto_retry [OF P], where n = ?n] retry set0 stop)
  qed
qed

section \<open>Names, buffers and objects\<close>

lemma tame_plain:
  "tame d k (saNameSet n)" "tame d k (classToObj l)" "tame d k (convertToRTObjectName l nm)" "tame d k (read_bytes buf m)"
  "tame d k (strlen buf)" "tame d k (write_bytes b bytes)" "tame d k (ui_value attrs an v)" "tame d k (getVoidData as b len)"
proof -
  show n: "tame d k (saNameSet n)" for n unfolding saNameSet_def by auto
  show "tame d k (classToObj l)" unfolding classToObj_def by (rule n)
  show "tame d k (convertToRTObjectName l nm)" unfolding convertToRTObjectName_def by (auto intro!: n)
  show "tame d k (read_bytes buf m)" unfolding read_bytes_def by auto
  show "tame d k (strlen buf)" unfolding strlen_def by auto
  show b: "tame d k (write_bytes b bytes)" for b bytes unfolding write_bytes_def by auto
  show "tame d k (ui_value attrs an v)" unfolding ui_value_def by (auto split: imm_type.split imm_value.split list.split)
  show "tame d k (getVoidData as b len)" unfolding getVoidData_def by (auto intro!: b split: list.split imm_value.split)
qed

lemma tame_reset: "patient E \<Longrightarrow> tame d False (reset_rplistImmOiHandle E)"
  unfolding reset_rplistImmOiHandle_def
  by (auto intro!: tame_modify tame_handles tame_immOi_set simp: frame_def same_config_def)

lemma tame_with_reset: "patient E \<Longrightarrow> tame d False m \<Longrightarrow> tame d False (with_reset E m)"
  unfolding with_reset_def by (auto intro!: tame_reset)

lemma tame_objects:
  assumes P: "patient E"
  shows "tame d False (createObject E c attrs)" "tame d False (readObject E ob)" "tame d False (modifyObject E n ms)"
    "tame d False (deleteObject E n)" "tame d False (setObjectUiAttribute E c an v)" "tame d False (getObjectUiAttribute E c an v)"
proof -
  note api = tame_with_reset [OF P] tame_auto_retry [OF P] tame_plain
  show "tame d False (createObject E c attrs)" unfolding createObject_def api_wrappers by (auto intro!: api)
  show read: "tame d False (readObject E ob)" for ob unfolding readObject_def api_wrappers by (auto intro!: api)
  show "tame d False (modifyObject E n ms)" unfolding modifyObject_def api_wrappers by (auto intro!: api)
  show "tame d False (deleteObject E n)" unfolding deleteObject_def api_wrappers by (auto intro!: api)
  show "tame d False (setObjectUiAttribute E c an v)" unfolding setObjectUiAttribute_def api_wrappers by (auto intro!: api)
  have "tame d False (ui_attempts n E c an v)" for n
    by (induction n) (auto intro!: api read tame_reset [OF P])
  then show "tame d False (getObjectUiAttribute E c an v)" unfolding getObjectUiAttribute_def .
qed

lemma tame_numbers:
  assumes P: "patient E"
  shows "tame d False (get_num E l v)" "tame d False (get_last E l v)" "tame d False (get_block E l v)"
    "tame d False (set_num E l v)" "tame d False (set_last E l v)" "tame d False (block_size n E stop l v)"
    "tame d False (decrement_items E l)" "tame d False (reset_numbers E l)"
proof -
  note ob = tame_objects [OF P]
  show n: "tame d False (get_num E l v)" for v unfolding get_num_def by (auto intro!: ob)
  show "tame d False (get_last E l v)" unfolding get_last_def by (auto intro!: ob)
  show b: "tame d False (get_block E l v)" for v unfolding get_block_def by (auto intro!: ob)
  show sn: "tame d False (set_num E l v)" for v unfolding set_num_def by (auto intro!: ob)
  show sl: "tame d False (set_last E l v)" for v unfolding set_last_def by (auto intro!: ob)
  show "tame d False (block_size n E stop l v)" by (induction n arbitrary: v) (auto intro!: b)
  show "tame d False (decrement_items E l)" unfolding decrement_items_def by (auto intro!: n sn)
  show "tame d False (reset_numbers E l)" unfolding reset_numbers_def by (auto intro!: sn sl)
qed

lemma tame_rt_objects:
  assumes P: "patient E"
  shows "tame d False (item_length E l buf)" "tame d False (addRlistRTObject E l i buf)"
    "tame d False (modifyRlistRTObject E l nm buf)" "tame d False (deleteRTObject E l nm)"
proof -
  note t = tame_plain tame_objects [OF P] tame_numbers [OF P]
  show len: "tame d False (item_length E l buf)" unfolding item_length_def by (auto intro!: t)
  show "tame d False (addRlistRTObject E l i buf)" unfolding addRlistRTObject_def by (auto intro!: t len)
  show "tame d False (modifyRlistRTObject E l nm buf)" unfolding modifyRlistRTObject_def by (auto intro!: t len)
  show "tame d False (deleteRTObject E l nm)" unfolding deleteRTObject_def by (auto intro!: t)
qed

section \<open>Files\<close>

lemma tame_paths:
  "tame d k (getClearStorage E)" "tame d k (getBaseRepository E)" "tame d k (createPath ps f)" "tame d k (listDir l)"
  "tame d k (createDir E l sub)" "tame d k (comsa_rplist_imm_getfullfilename E nm l)" "tame d k (comsa_rplist_imm_getfullPath E l)"
proof -
  show c: "tame d k (getClearStorage E)" unfolding getClearStorage_def by auto
  show b: "tame d k (getBaseRepository E)"
    unfolding getBaseRepository_def by (auto intro!: c tame_modify simp: frame_def same_config_def)
  show p: "tame d k (createPath ps f)" for ps f unfolding createPath_def by (auto split: list.split option.split)
  show "tame d k (listDir l)" unfolding listDir_def by (auto intro!: p)
  show "tame d k (createDir E l sub)" unfolding createDir_def by (auto intro!: b p)
  show "tame d k (comsa_rplist_imm_getfullfilename E nm l)" unfolding comsa_rplist_imm_getfullfilename_def by (auto intro!: b p)
  show "tame d k (comsa_rplist_imm_getfullPath E l)" unfolding comsa_rplist_imm_getfullPath_def by (auto intro!: b)
qed

lemma tame_files:
  assumes P: "patient E"
  shows "tame d False (writeToFile E nm l buf n)" "tame d False (autoRetry_writeToFile E l nm buf)"
    "tame d False (readFromFile E nm l copy n)" "tame d False (autoRetry_readFromFile E nm l copy n)"
    "tame d False (findFile E nm l)" "tame d False (removeFile E nm l)" "tame d False (remove_item_file E l nm)"
proof -
  note t = tame_paths tame_plain tame_numbers [OF P]
  show wr: "tame d False (writeToFile E nm l buf n)" for n unfolding writeToFile_def by (auto intro!: t)
  have "tame d False (write_attempts m E nm l buf n)" for m n by (induction m) (auto intro!: wr)
  then show "tame d False (autoRetry_writeToFile E l nm buf)" unfolding autoRetry_writeToFile_def by (auto intro!: t)
  show rd: "tame d False (readFromFile E nm l copy n)" for copy unfolding readFromFile_def by (auto intro!: t)
  have "tame d False (read_attempts m E nm l copy n)" for m by (induction m arbitrary: copy) (auto intro!: rd)
  then show "tame d False (autoRetry_readFromFile E nm l copy n)" unfolding autoRetry_readFromFile_def .
  show f: "tame d False (findFile E nm l)" unfolding findFile_def by (auto intro!: t)
  show r: "tame d False (removeFile E nm l)" unfolding removeFile_def by (auto intro!: t)
  show "tame d False (remove_item_file E l nm)" unfolding remove_item_file_def by (auto intro!: f r)
qed

section \<open>The operations\<close>

lemma tame_size: "patient E \<Longrightarrow> tame d False (listGetSize E l)"
  unfolding listGetSize_def by (auto intro!: tame_numbers)

lemma tame_push: "patient E \<Longrightarrow> tame d False (listPushBack E l g buf)"
  unfolding listPushBack_def path_exists_def list_numbers_def store_item_def
  by (auto intro!: tame_numbers tame_paths tame_files tame_rt_objects)

lemma tame_erase: "patient E \<Longrightarrow> tame d False (listEraseItem E l i)"
  unfolding listEraseItem_def by (auto intro!: tame_numbers tame_files tame_rt_objects)

lemma tame_find: "patient E \<Longrightarrow> tame d False (listFindItem E l i copy)"
  unfolding listFindItem_def by (auto intro!: tame_numbers tame_files tame_rt_objects tame_objects tame_erase tame_plain)

lemma tame_replace: "patient E \<Longrightarrow> tame d False (listReplaceItem E l i buf)"
  unfolding listReplaceItem_def by (auto intro!: tame_numbers tame_files tame_rt_objects)

lemma wp_framed: "tame False k m \<Longrightarrow> frame k v w \<Longrightarrow> (\<And>r u. frame k u w \<Longrightarrow> Q r u) \<Longrightarrow> wp False m Q (\<lambda>f v. True) v"
  by (erule wp_tame) (blast intro: frame_trans)

text \<open>The search for the item that is last now goes down to 0.\<close>

lemma tame_previous_items:
  assumes P: "patient E"
  shows "tame d False (while_prog (\<lambda>(found, n). \<not> found \<and> 0 < n) (previous_item E l) (f, n))"
proof (rule tame_partial, unfold tame_def, rule allI)
  fix w
  let ?T = "\<lambda>f v. True"
  have step: "wp False (previous_item E l (f, n)) (\<lambda>(f', n') v. n' = n - 1 \<and> frame False v w) ?T v"
    if "frame False v w" for f n v
  proof -
    have t: "tame False False (convertToRTObjectName l nm)" "tame False False (readObject E ob)" "tame False False (findFile E nm l)" for nm ob
      by (auto intro!: tame_plain tame_objects [OF P] tame_files [OF P])
    show ?thesis
      unfolding previous_item_def prod.case using that
      by (auto intro!: wp_framed [OF t(1), of v w] wp_framed [OF t(2), of _ w] wp_framed [OF t(3), of v w])
  qed
  show "wp False (while_prog (\<lambda>(found, n). \<not> found \<and> 0 < n) (previous_item E l) (f, n)) (\<lambda>r v. frame False v w) ?T w"
  proof (rule while_total [where I = "\<lambda>a v. frame False v w" and \<mu> = "\<lambda>a v. unat (snd a)"])
    fix a :: "bool \<times> 32 word" and v
    assume v: "frame False v w"
    obtain f n where a: "a = (f, n)" by (cases a)
    show "if case a of (found, n) \<Rightarrow> \<not> found \<and> 0 < n
      then wp False (previous_item E l a) (\<lambda>a' v'. frame False v' w \<and> unat (snd a') < unat (snd a)) ?T v else frame False v w"
    proof (cases "\<not> f \<and> 0 < n")
      case True
      then have "unat (n - 1) < unat n" by (simp add: word_gt_0 unat_minus_one unat_gt_0)
      with True show ?thesis using step [OF v, of f n] by (auto simp: a elim!: wp_mono)
    next
      case False
      then have "\<not> (case a of (found, n) \<Rightarrow> \<not> found \<and> 0 < n)" by (simp add: a)
      then show ?thesis using v by (simp only: if_False)
    qed
  qed simp
qed

lemma tame_pop: "patient E \<Longrightarrow> tame d False (listPopBack E l)"
  unfolding listPopBack_def
  by (auto intro!: tame_numbers tame_files tame_rt_objects tame_previous_items)

section \<open>Iterators\<close>

lemma tame_next_parts:
  assumes P: "patient E"
  shows "tame True False (findNextListItem E l n)" "tame d False (lost_item E l)" "tame d False (load_item E l n attrs copy sz)"
    "tame d False (drop_item E l n)"
proof -
  note t = tame_numbers [OF P] tame_files [OF P] tame_objects [OF P] tame_rt_objects [OF P] tame_plain
  have "tame True False (try_item E l x)" for x unfolding try_item_def by (auto intro!: t)
  then have loop: "tame True False (while_prog b (try_item E l) x)" for b x by (rule tame_while)
  show "tame True False (findNextListItem E l n)" unfolding findNextListItem_def by (auto intro!: t loop)
  show "tame d False (lost_item E l)" unfolding lost_item_def by (auto intro!: t)
  show "tame d False (load_item E l n attrs copy sz)" unfolding load_item_def by (auto intro!: t)
  show "tame d False (drop_item E l n)" unfolding drop_item_def by (auto intro!: t)
qed

text \<open>The iterator at \<open>a\<close> is alive and no other one has changed.\<close>

definition alive :: "nat \<Rightarrow> rl_world \<Rightarrow> rl_world \<Rightarrow> bool" where
  "alive a w v \<longleftrightarrow> iters v a \<noteq> None \<and> (\<forall>c. c \<noteq> a \<longrightarrow> iters v c = iters w c)"

lemma wp_alive: "tame d False m \<Longrightarrow> alive a w v \<Longrightarrow> (\<And>r u. alive a w u \<Longrightarrow> Q r u) \<Longrightarrow> wp d m Q (\<lambda>f v. True) v"
  unfolding tame_def by (drule spec, erule wp_mono) (auto simp: alive_def frame_def)

lemma wp_iter_at: "alive a w v \<Longrightarrow> (\<And>i. Q i v) \<Longrightarrow> wp d (iter_at a) Q F v"
  by (auto simp: iter_at_def alive_def)

lemma wp_set_iter: "alive a w v \<Longrightarrow> (\<And>u. alive a w u \<Longrightarrow> Q () u) \<Longrightarrow> wp d (set_iter a i) Q F v"
  by (simp add: set_iter_def alive_def)

definition given_back :: "nat \<Rightarrow> rl_world \<Rightarrow> nat option \<Rightarrow> rl_world \<Rightarrow> bool" where
  "given_back a w r v \<longleftrightarrow> (\<forall>c. c \<noteq> a \<longrightarrow> iters v c = iters w c) \<and>
     (r = None \<and> iters v a = None \<or> r = Some a \<and> iters v a \<noteq> None)"

lemma wp_free: "alive a w v \<Longrightarrow> validateName (Some l) \<Longrightarrow> (\<And>rc u. given_back a w None u \<Longrightarrow> Q rc u) \<Longrightarrow>
    wp d (listGetFinalize (Some l) (Some a)) Q F v"
  by (auto simp: listGetFinalize_def alive_def given_back_def)

lemma alive_given_back: "alive a w v \<Longrightarrow> given_back a w (Some a) v"
  by (simp add: alive_def given_back_def)

lemma next_item_iterator:
  assumes P: "patient E" and l: "validateName (Some l)" and a: "iters w a \<noteq> None"
  shows "wp True (listGetNextItemFront E (Some l) (Some (Some a)) True (Some copy)) (\<lambda>x v. given_back a w (nx_ref x) v) (\<lambda>f v. True) w"
proof -
  have w: "alive a w w" using a by (simp add: alive_def)
  show ?thesis
    unfolding listGetNextItemFront_def option.case prod.case next_item_def using l w
    by (auto intro!: wp_alive [OF tame_size [OF P], of a w] wp_iter_at [of a w] wp_free [of a w]
        wp_alive [OF tame_next_parts(1) [OF P], of a w] wp_alive [OF tame_next_parts(2) [OF P], of a w]
        wp_alive [OF tame_next_parts(3) [OF P], of a w] wp_alive [OF tame_next_parts(4) [OF P], of a w]
        wp_set_iter [of a w] alive_given_back split: option.split)
qed

end
