(* ===== verification/RlEnds.thy ===== *)
theory RlEnds
  imports RlSafe
begin

text \<open>
  Every operation of the replicated list ends, if what it scans is finite: the entries of a directory, the
  objects of a search, and the item numbers, of which the largest must not be in use.
\<close>

section \<open>Finite surroundings\<close>

definition is_opendir :: "ocall \<Rightarrow> bool" where
  "is_opendir c = (case c of Sys s \<Rightarrow> (case s of C_opendir d \<Rightarrow> True | _ \<Rightarrow> False) | _ \<Rightarrow> False)"

definition is_search_start :: "ocall \<Rightarrow> bool" where
  "is_search_start c = (case c of SaImmOmSearchInitialize_2 h r s f a ns \<Rightarrow> True | _ \<Rightarrow> False)"

definition is_search_next :: "ocall \<Rightarrow> bool" where
  "is_search_next c = (case c of SaImmOmSearchNext_2 h \<Rightarrow> True | _ \<Rightarrow> False)"

text \<open>The entries asked for since the last directory was opened, and the objects found in the last search.\<close>

definition entries_read :: "history \<Rightarrow> nat" where
  "entries_read h = length (filter (\<lambda>(c, a). c = Readdir) (takeWhile (\<lambda>(c, a). \<not> is_opendir c) (rev h)))"

definition objects_found :: "history \<Rightarrow> nat" where
  "objects_found h = length (filter (\<lambda>(c, a). is_search_next c \<and> a_rc a = SA_AIS_OK)
     (takeWhile (\<lambda>(c, a). \<not> is_search_start c) (rev h)))"

definition directories_end :: "outside \<Rightarrow> bool" where
  "directories_end E \<longleftrightarrow> (\<exists>N. \<forall>h. N \<le> entries_read h \<longrightarrow> a_text (E h Readdir) = None)"

definition searches_end :: "outside \<Rightarrow> bool" where
  "searches_end E \<longleftrightarrow> (\<exists>N. \<forall>h s. N \<le> objects_found h \<longrightarrow> a_rc (E h (SaImmOmSearchNext_2 s)) \<noteq> SA_AIS_OK)"

text \<open>No number read from an object is the largest one.\<close>

definition no_max :: "imm_attr list \<Rightarrow> bool" where
  "no_max as \<longleftrightarrow> (\<forall>a \<in> set as. VUint32 UINT_MAX \<notin> set (attrValues a))"

definition numbers_left :: "outside \<Rightarrow> bool" where
  "numbers_left E \<longleftrightarrow> (\<forall>h c as. a_attrs (E h c) = Some as \<longrightarrow> no_max as)"

lemma entries_read_more [simp]:
  "entries_read (h @ [(c, a)]) = (if is_opendir c then 0 else if c = Readdir then Suc (entries_read h) else entries_read h)"
  by (simp add: entries_read_def)

lemma objects_found_more [simp]:
  "objects_found (h @ [(c, a)]) = (if is_search_start c then 0
     else if is_search_next c \<and> a_rc a = SA_AIS_OK then Suc (objects_found h) else objects_found h)"
  by (simp add: objects_found_def)

lemma entries_read_two [simp]: "\<not> is_opendir d \<Longrightarrow> d \<noteq> Readdir \<Longrightarrow>
    entries_read (h @ [(c, a), (d, b)]) = entries_read (h @ [(c, a)])"
  using entries_read_more [of "h @ [(c, a)]" d b] by simp

lemma objects_found_two [simp]: "\<not> is_search_start d \<Longrightarrow> \<not> is_search_next d \<Longrightarrow>
    objects_found (h @ [(c, a), (d, b)]) = objects_found (h @ [(c, a)])"
  using objects_found_more [of "h @ [(c, a)]" d b] by simp

lemma is_opendir_simps [simp]: "\<not> is_opendir Readdir" "\<not> is_opendir (RemoveFile f)" "\<not> is_opendir (StatFile f)"
  by (simp_all add: is_opendir_def)

lemma search_simps [simp]: "is_search_next (SaImmOmSearchNext_2 s)" "\<not> is_search_start (SaImmOmSearchNext_2 s)"
  "\<not> is_search_start pause" "\<not> is_search_next pause"
  by (simp_all add: is_search_next_def is_search_start_def pause_def)

section \<open>Reading a directory\<close>

lemma tame_reading:
  assumes E: "directories_end E" and b: "\<And>x. b x = fst x"
    and body: "\<And>x w. wp False (body (True, x)) (\<lambda>a v. frame k v w \<and>
      (fst a \<longrightarrow> a_text (E (hist w) Readdir) \<noteq> None \<and> entries_read (hist w) < entries_read (hist v))) (\<lambda>f v. True) w"
  shows "tame False k (while_prog b body x)"
  unfolding tame_def
proof
  fix w
  obtain N where N: "\<And>h. a_text (E h Readdir) \<noteq> None \<Longrightarrow> entries_read h < N"
    using E unfolding directories_end_def by (metis not_less)
  show "wp False (while_prog b body x) (\<lambda>r v. frame k v w) (\<lambda>f v. True) w"
  proof (rule while_total [where I = "\<lambda>a v. frame k v w" and \<mu> = "\<lambda>a v. if fst a then Suc (N - entries_read (hist v)) else 0"])
    fix a v
    assume v: "frame k v w"
    show "if b a then wp False (body a) (\<lambda>a' v'. frame k v' w \<and>
        (if fst a' then Suc (N - entries_read (hist v')) else 0) < (if fst a then Suc (N - entries_read (hist v)) else 0))
        (\<lambda>f v. True) v else frame k v w"
    proof (cases a)
      case (Pair more y)
      have "wp False (body (True, y)) (\<lambda>a' v'. frame k v' w \<and>
          (if fst a' then Suc (N - entries_read (hist v')) else 0) < Suc (N - entries_read (hist v))) (\<lambda>f v. True) v"
        by (rule wp_mono [OF body]) (use v N [of "hist v"] in \<open>auto intro: frame_trans\<close>)
      then show ?thesis using v by (simp add: b Pair)
    qed
  qed simp
qed

lemma wp_createPath: "wp False (createPath ps f) Q (\<lambda>f v. True) w" if "\<And>p. Q p w"
  unfolding createPath_def using that by (auto split: list.split option.split)

lemma tame_remove_entries:
  assumes "directories_end E"
  shows "tame False k (while_prog (\<lambda>(more, rc). more) (remove_entries E d) (True, MafOk))"
  by (rule tame_reading [OF assms])
    (auto simp: remove_entries_def wp_call split: option.split intro!: wp_createPath)

lemma tame_look_for_item:
  assumes "directories_end E"
  shows "tame False k (while_prog (\<lambda>(more, e). more) (look_for_item E l p) (True, True))"
  by (rule tame_reading [OF assms])
    (auto simp: look_for_item_def wp_call wp_do_call Let_def split: option.split)

lemma tame_count_entries:
  assumes "directories_end E"
  shows "tame False k (while_prog (\<lambda>(more, n, f). more) (count_entries E) (True, 0, 0))"
  by (rule tame_reading [OF assms]) (auto simp: count_entries_def wp_call split: option.split prod.split)

section \<open>Searching for objects\<close>

lemma attempt_found: "attempt E (\<lambda>a. SaImmOmSearchNext_2 s) (SaImmOmSearchNext_2 s) h n = (d, g) \<Longrightarrow>
    d = SaImmOmSearchNext_2 s \<and> objects_found h \<le> objects_found g"
proof (induction n arbitrary: d g)
  case 0
  then show ?case by (simp add: attempt_def)
next
  case (Suc n)
  obtain d' g' where "attempt E (\<lambda>a. SaImmOmSearchNext_2 s) (SaImmOmSearchNext_2 s) h n = (d', g')" by fastforce
  with Suc.IH [OF this] Suc.prems show ?case
    by (auto simp: attempt_last attempt_history_def Let_def le_Suc_eq)
qed

text \<open>One more object found is one less to find.\<close>

lemma wp_search_next:
  assumes P: "patient E" and N: "\<And>h s. N \<le> objects_found h \<Longrightarrow> a_rc (E h (SaImmOmSearchNext_2 s)) \<noteq> SA_AIS_OK"
  shows "wp False (autoRetry_saImmOmSearchNext_2 E s) (\<lambda>a v. frame k v w \<and>
    (a_rc a = SA_AIS_OK \<longrightarrow> objects_found (hist w) < N \<and> objects_found (hist w) < objects_found (hist v))) (\<lambda>f v. True)
    (w :: rl_world)"
proof -
  let ?c = "SaImmOmSearchNext_2 s"
  let ?P = "\<lambda>n. \<not> try_again (a_rc (attempt_answer E (\<lambda>a. ?c) ?c (hist w) n))"
  have "\<exists>n. ?P n" using P by (simp add: patient_def)
  then have "?P (LEAST n. ?P n)" by (rule LeastI_ex)
  then obtain n where n: "auto_retry E try_again ?c w = Some (Inr (attempt_answer E (\<lambda>a. ?c) ?c (hist w) n,
      w\<lparr>hist := attempt_history E (\<lambda>a. ?c) ?c (hist w) n\<rparr>))"
    using retry_returns [of try_again E "\<lambda>a. ?c" ?c w "LEAST n. ?P n"] not_less_Least [of _ ?P] unfolding auto_retry_def by blast
  obtain d g where dg: "attempt E (\<lambda>a. ?c) ?c (hist w) n = (d, g)" by fastforce
  note f = attempt_found [OF dg]
  have "objects_found g < N" if "a_rc (E g ?c) = SA_AIS_OK" using N [of g s] that by (metis not_less)
  then show ?thesis using n f dg
    by (auto simp: wp_def autoRetry_saImmOmSearchNext_2_def attempt_answer_def attempt_history_def)
qed

lemma tame_getAllRTObjects:
  assumes P: "patient E" and S: "searches_end E"
  shows "tame False False (getAllRTObjects E l)"
proof -
  obtain N where N: "\<And>h s. N \<le> objects_found h \<Longrightarrow> a_rc (E h (SaImmOmSearchNext_2 s)) \<noteq> SA_AIS_OK"
    using S unfolding searches_end_def by blast
  have loop: "tame False False (while_prog (\<lambda>(a, ns). a_rc a = SA_AIS_OK)
      (\<lambda>(a, ns). bnd (autoRetry_saImmOmSearchNext_2 E s) (\<lambda>b. return (b, ns @ [case a_text a of None \<Rightarrow> [] | Some n \<Rightarrow> n]))) x)" for s x
    unfolding tame_def
  proof
    fix w
    let ?body = "\<lambda>(a, ns). bnd (autoRetry_saImmOmSearchNext_2 E s) (\<lambda>b. return (b, ns @ [case a_text a of None \<Rightarrow> [] | Some n \<Rightarrow> n]))"
    let ?m = "\<lambda>(a, ns) v. if a_rc a = SA_AIS_OK then Suc (Suc N - objects_found (hist v)) else 0"
    show "wp False (while_prog (\<lambda>(a, ns). a_rc a = SA_AIS_OK) ?body x) (\<lambda>r v. frame False v w) (\<lambda>f v. True) w"
    proof (rule while_total [where I = "\<lambda>a v. frame False v w" and \<mu> = ?m])
      fix x :: "unit answer_scheme \<times> string list" and v
      assume v: "frame False v w"
      obtain a ns where x: "x = (a, ns)" by (cases x)
      have "wp False (?body x) (\<lambda>x' v'. frame False v' w \<and> ?m x' v' < ?m x v) (\<lambda>f v. True) v" if "a_rc a = SA_AIS_OK"
        unfolding x prod.case wp_bnd wp_basic
        by (rule wp_mono [OF wp_search_next [OF P N, where k = False]]) (use v that in \<open>auto intro: frame_trans\<close>)
      then show "if case x of (a, ns) \<Rightarrow> a_rc a = SA_AIS_OK
        then wp False (?body x) (\<lambda>x' v'. frame False v' w \<and> ?m x' v' < ?m x v) (\<lambda>f v. True) v else frame False v w"
        using v by (simp add: x)
    qed simp
  qed
  show ?thesis unfolding getAllRTObjects_def api_wrappers
    by (auto intro!: tame_auto_retry [OF P] loop [unfolded api_wrappers])
qed

section \<open>Classes, objects and files\<close>

lemma tame_classes:
  assumes P: "patient E"
  shows "tame d False (createclass E c r)" "tame d False (deleteclass E c)"
proof -
  note api = tame_with_reset [OF P] tame_auto_retry [OF P]
  have "tame d False (searchclass E c)" unfolding searchclass_def api_wrappers by (auto intro!: api)
  moreover have "tame d False prepareImmAttrDefinitions" unfolding prepareImmAttrDefinitions_def by (auto split: option.split)
  ultimately show "tame d False (createclass E c r)" unfolding createclass_def api_wrappers by (auto intro!: api)
  show "tame d False (deleteclass E c)" unfolding deleteclass_def api_wrappers by (auto intro!: api)
qed

lemma tame_deleteAllRTObjects:
  assumes "patient E" "searches_end E"
  shows "tame False False (deleteAllRTObjects E l)"
proof -
  have "tame False False (delete_objects E rc ns)" for rc ns
    by (induction ns arbitrary: rc) (auto intro!: tame_plain tame_objects [OF assms(1)])
  then show ?thesis unfolding deleteAllRTObjects_def by (auto intro!: tame_getAllRTObjects assms)
qed

lemma tame_removeAllFiles:
  assumes "patient E" "directories_end E"
  shows "tame False False (comsa_rplist_imm_removeAllFiles E l)"
  unfolding comsa_rplist_imm_removeAllFiles_def
  by (auto intro!: tame_paths tame_remove_entries assms)

lemma tame_cluster:
  assumes P: "patient E" and S: "searches_end E"
  shows "tame False False (detectClusterState E l)"
proof -
  have pa: "tame False False (popen_attempts n E cmd)" for n cmd by (induction n) auto
  have cf: "tame False False (count_files E d)" for d
    unfolding count_files_def Let_def by (auto intro!: pa)
  have v: "tame False False (validateImmData E l d)" for d
    unfolding validateImmData_def getRTObjectsCount_def
    by (auto intro!: cf tame_size [OF P] tame_getAllRTObjects [OF P S] tame_numbers [OF P])
  have "tame False False (rt_object_state E l d)" for d
    unfolding rt_object_state_def by (auto intro!: v tame_plain tame_objects [OF P])
  then show ?thesis unfolding detectClusterState_def by (auto intro!: tame_paths)
qed

lemma tame_restore:
  assumes "patient E" "directories_end E"
  shows "tame False False (restore_immData E l)"
  unfolding restore_immData_def
  by (auto intro!: tame_paths tame_numbers tame_count_entries assms)

section \<open>Creating, deleting, clearing, testing for emptiness\<close>

lemma tame_create:
  assumes "patient E" "directories_end E" "searches_end E"
  shows "tame False False (listCreate E l n)"
  unfolding listCreate_def create_classes_def remove_old_items_def create_directories_def create_list_object_def
  by (auto intro!: tame_classes tame_cluster tame_deleteAllRTObjects tame_removeAllFiles tame_paths tame_plain tame_objects
      tame_restore assms)

lemma tame_delete:
  assumes "patient E" "directories_end E" "searches_end E"
  shows "tame False False (listDelete E l)"
proof -
  have "tame False False (comsa_rplist_imm_deleteDir E d)" for d
    unfolding comsa_rplist_imm_deleteDir_def by (auto intro!: tame_paths)
  then show ?thesis unfolding listDelete_def
    by (auto intro!: tame_classes tame_deleteAllRTObjects tame_removeAllFiles tame_plain tame_objects assms)
qed

lemma tame_clear:
  assumes "patient E" "directories_end E" "searches_end E"
  shows "tame False False (listClear E l)"
  unfolding listClear_def by (auto intro!: tame_numbers tame_deleteAllRTObjects tame_removeAllFiles assms)

lemma tame_is_empty:
  assumes "patient E" "directories_end E"
  shows "tame False False (listIsEmpty E l)"
  unfolding listIsEmpty_def directory_is_empty_def
  by (auto intro!: tame_numbers tame_look_for_item tame_paths tame_plain tame_objects assms)

section \<open>The search for the next item\<close>

definition gives :: "('a \<Rightarrow> bool) \<Rightarrow> 'a rlp \<Rightarrow> bool" where
  "gives P m \<longleftrightarrow> (\<forall>w. wp True m (\<lambda>r v. P r) (\<lambda>f v. True) w)"

lemma gives_basic: "P r \<Longrightarrow> gives P (return r)" "gives P (die f)"
  by (simp_all add: gives_def)

lemma gives_bnd: "gives R m \<Longrightarrow> (\<And>a. R a \<Longrightarrow> gives P (k a)) \<Longrightarrow> gives P (bnd m k)"
  unfolding gives_def wp_bnd by (blast intro: wp_mono)

lemma gives_any: "gives (\<lambda>r. True) m"
  by (auto simp: gives_def wp_def split: option.split sum.split)

lemma gives_auto_retry: "gives (answered E) (auto_retry E again c)"
  unfolding gives_def by (auto intro: wp_auto_retry)

lemma gives_with_reset:
  "gives (answered E) m \<Longrightarrow> gives (\<lambda>r. case r of Inl rc \<Rightarrow> True | Inr (a, again) \<Rightarrow> answered E a) (with_reset E m)"
proof -
  assume m: "gives (answered E) m"
  have again: "gives (\<lambda>r. case r of Inl rc \<Rightarrow> True | Inr (a, again) \<Rightarrow> answered E a) (bnd m (\<lambda>a. return (Inr (a, True))))"
    by (rule gives_bnd [OF m]) (simp add: gives_basic)
  show ?thesis unfolding with_reset_def
    by (rule gives_bnd [OF m]) (auto intro!: gives_bnd [OF gives_any] again gives_basic)
qed

lemma gives_readObject:
  assumes "numbers_left E"
  shows "gives (\<lambda>(rc, attrs). \<forall>as. attrs = Some as \<longrightarrow> no_max as) (readObject E ob)"
proof -
  have "gives (answered E) (bnd (gets immAccessHandle) (\<lambda>h. case ob of Some n \<Rightarrow> autoRetry_saImmOmAccessorGet_2 E h n []
       | None \<Rightarrow> auto_retry E try_again (SaImmOmAccessorGetNull h)))"
    by (intro gives_bnd [OF gives_any]) (auto simp: api_wrappers gives_auto_retry split: option.split)
  moreover have "no_max as" if "answered E a" "a_attrs a = Some as" for a as
    using assms that unfolding numbers_left_def answered_def by blast
  ultimately show ?thesis unfolding readObject_def
    by (intro gives_bnd [OF gives_with_reset]) (auto intro!: gives_basic split: sum.splits)
qed

lemma gives_ui_value: "no_max as \<Longrightarrow> v \<noteq> UINT_MAX \<Longrightarrow> gives (\<lambda>x. x \<noteq> UINT_MAX) (ui_value as nm v)"
  by (auto simp: ui_value_def find_Some_iff no_max_def
      intro!: gives_basic split: option.split imm_type.split list.split imm_value.split) (metis list.set_intros(1) nth_mem)

lemma gives_ui_attempts:
  assumes E: "numbers_left E"
  shows "v \<noteq> UINT_MAX \<Longrightarrow> gives (\<lambda>(rc, x). x \<noteq> UINT_MAX) (ui_attempts n E c nm v)"
proof (induction n)
  case (Suc n)
  note IH = Suc.IH [OF Suc.prems]
  have val: "gives (\<lambda>(rc, x). x \<noteq> UINT_MAX) (bnd (ui_value as nm v) (\<lambda>v. return (MafOk, v)))" if "no_max as" for as
    by (rule gives_bnd [OF gives_ui_value [OF that Suc.prems]]) (simp add: gives_basic)
  have reset: "gives (\<lambda>(rc, x). x \<noteq> UINT_MAX) (bnd (reset_rplistImmOiHandle E) (\<lambda>rc.
           if rc \<noteq> MafOk then return (rc, v) else ui_attempts n E c nm v))"
    by (rule gives_bnd [OF gives_any]) (use IH Suc.prems in \<open>simp add: gives_basic\<close>)
  show ?case
    unfolding ui_attempts.simps
    by (rule gives_bnd [OF gives_any], rule gives_bnd [OF gives_readObject [OF E]])
      (use IH Suc.prems val reset in \<open>auto simp: gives_basic split: option.split\<close>)
qed (simp add: gives_basic)

lemma tame_findNextListItem:
  assumes P: "patient E" and M: "numbers_left E"
  shows "tame False False (findNextListItem E l n)"
proof -
  have t: "tame False False (convertToRTObjectName l nm)" "tame False False (readObject E ob)" "tame False False (findFile E nm l)" for nm ob
    by (auto intro!: tame_plain tame_objects [OF P] tame_files [OF P])
  let ?T = "\<lambda>f v. True"
  have loop: "tame False False (while_prog (\<lambda>(oc, n). oc = None \<and> n \<le> i) (try_item E l) (None, n))"
    if i: "i \<noteq> UINT_MAX" for i
    unfolding tame_def
  proof
    fix w
    let ?m = "\<lambda>(oc, n :: 32 word) v. if oc = None then Suc (Suc (unat i) - unat n) else 0"
    have step: "wp False (try_item E l (oc, n)) (\<lambda>(oc', n') v. frame False v w \<and> (oc' = None \<longrightarrow> n' = n + 1)) ?T v"
      if "frame False v w" for oc n v
      unfolding try_item_def prod.case using that
      by (auto intro!: wp_framed [OF t(1), of v w] wp_framed [OF t(2), of _ w] wp_framed [OF t(3), of v w])
    show "wp False (while_prog (\<lambda>(oc, n). oc = None \<and> n \<le> i) (try_item E l) (None, n)) (\<lambda>r v. frame False v w) ?T w"
    proof (rule while_total [where I = "\<lambda>a v. frame False v w" and \<mu> = ?m])
      fix x :: "(MafReturnT \<times> imm_attr list option) option \<times> 32 word" and v
      assume v: "frame False v w"
      obtain oc n where x: "x = (oc, n)" by (cases x)
      have "wp False (try_item E l x) (\<lambda>x' v'. frame False v' w \<and> ?m x' v' < ?m x v) ?T v" if "oc = None" "n \<le> i"
      proof -
        have "n \<noteq> - 1" using that(2) i word_order.extremum_uniqueI [of i] by (auto simp: UINT_MAX_def)
        then have "n + 1 \<noteq> 0" by (simp add: eq_neg_iff_add_eq_0)
        then have "unat (n + 1) = Suc (unat n)" using unatSuc [of n] by (simp add: add.commute)
        then show ?thesis unfolding x
          by (intro wp_mono [OF step [OF v]]) (use that in \<open>auto simp: word_le_nat_alt\<close>)
      qed
      then show "if case x of (oc, n) \<Rightarrow> oc = None \<and> n \<le> i
        then wp False (try_item E l x) (\<lambda>x' v'. frame False v' w \<and> ?m x' v' < ?m x v) ?T v else frame False v w"
        using v by (simp add: x)
    qed simp
  qed
  have last: "wp False (get_last E l 0) (\<lambda>(rc, i) v. frame False v w \<and> i \<noteq> UINT_MAX) ?T w" for w
  proof -
    have "gives (\<lambda>(rc, i). i \<noteq> UINT_MAX) (get_last E l 0)" unfolding get_last_def getObjectUiAttribute_def
      by (intro gives_bnd [OF gives_any] gives_ui_attempts [OF M]) (simp add: UINT_MAX_def)
    then have "wp True (get_last E l 0) (\<lambda>r v. case r of (rc, i) \<Rightarrow> i \<noteq> UINT_MAX) ?T w" by (simp add: gives_def)
    moreover have "wp False (get_last E l 0) (\<lambda>r v. frame False v w) ?T w" using tame_numbers(2) [OF P] by (simp add: tame_def)
    ultimately show ?thesis by (auto simp: wp_def split: option.splits sum.splits)
  qed
  show ?thesis
    unfolding tame_def
  proof
    fix w
    have end_case: "wp False (case oc of None \<Rightarrow> return (MafFailure, 0, None) | Some (rc, attrs) \<Rightarrow> return (rc, n, attrs))
        (\<lambda>r v. frame False v w) ?T v" if "frame False v w" for oc n v using that by (cases oc) auto
    show "wp False (findNextListItem E l n) (\<lambda>r v. frame False v w) ?T w"
      unfolding findNextListItem_def wp_bnd
      by (rule wp_mono [OF last]) (auto intro!: wp_framed [OF loop, where w = w] end_case)
  qed
qed

section \<open>The operations on iterators\<close>

text \<open>Only the iterators at \<open>A\<close> may differ.\<close>

definition but_iters :: "nat set \<Rightarrow> rl_world \<Rightarrow> rl_world \<Rightarrow> bool" where
  "but_iters A v w \<longleftrightarrow> same_config v w \<and> (\<forall>c. c \<notin> A \<longrightarrow> iters v c = iters w c)"

lemma but_iters_refl [simp]: "but_iters A w w"
  by (simp add: but_iters_def same_config_def)

lemma but_iters_step: "frame k v u \<Longrightarrow> but_iters A u w \<Longrightarrow> but_iters A v w"
  by (auto simp: but_iters_def frame_def same_config_def)

lemma but_iters_set [simp]: "but_iters A (v\<lparr>iters := f\<rparr>) w \<longleftrightarrow> same_config v w \<and> (\<forall>c. c \<notin> A \<longrightarrow> f c = iters w c)"
  by (simp add: but_iters_def same_config_def)

lemma same_config_iters [simp]: "same_config (v\<lparr>iters := f\<rparr>) w = same_config v w"
  by (simp add: same_config_def)

lemma wp_others: "tame False False m \<Longrightarrow> but_iters A v w \<and> next_iter v = n \<Longrightarrow>
    (\<And>r u. but_iters A u w \<and> next_iter u = n \<Longrightarrow> Q r u) \<Longrightarrow> wp False m Q (\<lambda>f v. True) v"
proof -
  assume m: "tame False False m" and v: "but_iters A v w \<and> next_iter v = n"
    and Q: "\<And>r u. but_iters A u w \<and> next_iter u = n \<Longrightarrow> Q r u"
  have "but_iters A u w \<and> next_iter u = n" if "frame False u v" for u
    using v that but_iters_step [OF that] by (simp add: frame_def)
  then show ?thesis using m unfolding tame_def by (blast intro: wp_mono Q)
qed

lemma tame_front:
  assumes P: "patient E"
  shows "wp False (listGetFrontRef E l g) (\<lambda>r v. but_iters {next_iter w} v w \<and> next_iter v \<in> {next_iter w, next_iter w + 1})
    (\<lambda>f v. True) w"
proof -
  let ?a = "next_iter w" and ?T = "\<lambda>f v. True"
  let ?R = "\<lambda>r v. but_iters {next_iter w} v w \<and> next_iter v \<in> {next_iter w, next_iter w + 1}"
  let ?init = "\<lambda>a. modify (\<lambda>w. w\<lparr>next_iter := a + 1, iters := (iters w)(a \<mapsto> \<lparr>it_id = 1, it_index = 0, it_size = None\<rparr>)\<rparr>)"
  let ?rest = "\<lambda>nm a. bnd (block_size RPLIST_MAX_RETRIES E False nm UINT_MAX) (\<lambda>(rc, itemDataSize).
     if rc = MafOk \<and> itemDataSize \<noteq> UINT_MAX then
       andthen (modify (\<lambda>w. w\<lparr>iters := (iters w)(a := map_option (\<lambda>i. i\<lparr>it_size := Some (ucast itemDataSize)\<rparr>) (iters w a))\<rparr>))
         (return (MafOk, Some (Some a)))
     else return (MafNotExist, Some (Some a)))"
  have rest: "wp False (?rest nm ?a) ?R ?T u" if "but_iters {?a} u w \<and> next_iter u = ?a + 1" for nm u
    unfolding wp_bnd by (rule wp_others [OF tame_numbers(6) [OF P] that]) (auto simp: but_iters_def)
  have size: "wp False (case sz of None \<Rightarrow> return (MafNotExist, None)
     | Some listSize \<Rightarrow> if listSize = 0 then return (MafOk, Some None)
     else bnd (gets next_iter) (\<lambda>a. andthen (?init a) (?rest nm a))) ?R ?T u"
    if u: "but_iters {?a} u w \<and> next_iter u = ?a" for sz nm u
  proof (cases sz)
    case (Some k)
    have "but_iters {?a} (u\<lparr>next_iter := ?a + 1, iters := (iters u)(?a \<mapsto> i)\<rparr>) w" for i
      using u by (simp add: but_iters_def same_config_def)
    then have "wp False (andthen (?init ?a) (?rest nm ?a)) ?R ?T u" using rest [of _ nm] by (simp only: wp_andthen wp_basic) simp
    moreover have "next_iter u = ?a" using u by blast
    ultimately have "wp False (bnd (gets next_iter) (\<lambda>a. andthen (?init a) (?rest nm a))) ?R ?T u"
      by (simp only: wp_bnd [of _ "gets _"] wp_basic)
    then show ?thesis using u Some by simp
  qed (use u in simp)
  show ?thesis
  proof (cases "\<exists>x. l = Some x \<and> validateName (Some x) \<and> g")
    case True
    then obtain x where x: "l = Some x" "validateName (Some x)" g by blast
    let ?k = "\<lambda>sz. case sz of None \<Rightarrow> return (MafNotExist, None)
     | Some listSize \<Rightarrow> if listSize = 0 then return (MafOk, Some None)
     else bnd (gets next_iter) (\<lambda>a. andthen (?init a) (?rest (name_value x) a))"
    have "listGetFrontRef E l g = bnd (listGetSize E (Some x)) (\<lambda>(rc, sz). ?k sz)"
      using x by (simp add: listGetFrontRef_def)
    moreover have "wp False (bnd (listGetSize E (Some x)) (\<lambda>(rc, sz). ?k sz)) ?R ?T w"
      unfolding wp_bnd [of _ "listGetSize E (Some x)"]
    proof (rule wp_others [OF tame_size [OF P], of "{?a}" w w ?a])
      fix r :: "MafReturnT \<times> 32 word option" and u
      assume u: "but_iters {?a} u w \<and> next_iter u = ?a"
      obtain rc sz where "r = (rc, sz)" by (cases r)
      then show "wp False (case r of (rc, sz) \<Rightarrow> ?k sz) ?R ?T u" using size [OF u] by (simp only: prod.case)
    qed simp
    ultimately show ?thesis by simp
  qed (auto simp: listGetFrontRef_def split: option.split)
qed

lemma wp_any_iter: "(\<And>i. Q i v) \<Longrightarrow> wp d (iter_at a) Q (\<lambda>f v. True) v"
  by (auto simp: iter_at_def split: option.split)

lemma wp_any_free: "but_iters {a} v w \<and> next_iter v = n \<Longrightarrow>
    (\<And>rc u. but_iters {a} u w \<and> next_iter u = n \<Longrightarrow> Q rc u) \<Longrightarrow> wp d (listGetFinalize l (Some a)) Q (\<lambda>f v. True) v"
  by (auto simp: listGetFinalize_def but_iters_def split: option.split)

lemma wp_any_set: "but_iters {a} v w \<and> next_iter v = n \<Longrightarrow>
    (\<And>u. but_iters {a} u w \<and> next_iter u = n \<Longrightarrow> Q () u) \<Longrightarrow> wp d (set_iter a i) Q F v"
  by (simp add: set_iter_def but_iters_def)

lemma tame_next:
  assumes P: "patient E" and M: "numbers_left E"
  shows "wp False (next_item E l a copy) (\<lambda>x v. but_iters {a} v w \<and> next_iter v = next_iter w) (\<lambda>f v. True) w"
  unfolding next_item_def
  by (auto intro!: wp_others [OF tame_size [OF P], of "{a}" w w "next_iter w"] wp_any_iter
      wp_any_free [of a _ w "next_iter w"] wp_others [OF tame_findNextListItem [OF P M], of "{a}" _ w "next_iter w"]
      wp_others [OF tame_next_parts(2) [OF P], of "{a}" _ w "next_iter w"]
      wp_others [OF tame_next_parts(3) [OF P], of "{a}" _ w "next_iter w"]
      wp_others [OF tame_next_parts(4) [OF P], of "{a}" _ w "next_iter w"]
      wp_any_set [of a _ w "next_iter w"] split: option.split)

end
