(* ===== verification/RlFaults.thy ===== *)
theory RlFaults
  imports RlEnds RlProps
begin

text \<open>
  The replicated list in any environment: invalid arguments, ending, memory safety of iterators, and
  the limits of its buffers and numbers.
\<close>

section \<open>Invalid names\<close>

fun list_arg :: "rl_op \<Rightarrow> MafMwSpiListNameT option option" where
  "list_arg (ListCreate l n) = Some l"
| "list_arg (ListDelete l) = Some l"
| "list_arg (ListClear l) = Some l"
| "list_arg (ListGetSize l) = Some l"
| "list_arg (ListIsEmpty l) = Some l"
| "list_arg (ListGetFrontRef l g) = Some l"
| "list_arg (ListPushBack l g d) = Some l"
| "list_arg (ListPopBack l) = Some l"
| "list_arg (ListEraseItem l i) = Some l"
| "list_arg (ListGetNextItemFront l r g d) = Some l"
| "list_arg (ListGetFinalize l r) = Some l"
| "list_arg (ListFindItem l i d) = Some l"
| "list_arg (ListReplaceItem l i d) = Some l"
| "list_arg op = None"

text \<open>
  C21. A call with an invalid list name (the null pointer, an empty name, one of more than
  256 bytes) is refused before anything else happens: no call to the outside, no change.
\<close>

theorem rlist_invalid_names:
  assumes "list_arg op = Some l" "\<not> validateName l"
  shows "\<exists>rc out. maf_comsa_list E op w = Some (Inr ((rc, out), w)) \<and> rc \<noteq> MafOk"
proof -
  have l: "validateName (Some m) \<Longrightarrow> l \<noteq> Some m" for m using assms(2) by auto
  show ?thesis
    using assms l
    by (cases op)
      (auto simp: code_only_def with_out_def bnd_return listCreate_def listDelete_def listClear_def listGetSize_def
        listIsEmpty_def listGetFrontRef_def listPushBack_def listPopBack_def listEraseItem_def listGetNextItemFront_def
        listGetFinalize_def listFindItem_def listReplaceItem_def return_def bnd_def split: option.splits)
qed

theorem rlist_invalid_names_witness:
  "\<exists>rc out. maf_comsa_list (\<lambda>h c. yes) (ListPopBack None) (w_ex True) = Some (Inr ((rc, out), w_ex True)) \<and> rc \<noteq> MafOk"
  using rlist_invalid_names [of "ListPopBack None" None] by (simp add: validateName_def)

section \<open>Ending\<close>

text \<open>
  What has to be finite for an operation to end: the entries of a directory and the objects of a search for
  the operations that scan them; for the next item, the numbers below the last one given out.
\<close>

fun scan_ends :: "outside \<Rightarrow> rl_op \<Rightarrow> bool" where
  "scan_ends E (ListCreate l n) \<longleftrightarrow> directories_end E \<and> searches_end E"
| "scan_ends E (ListDelete l) \<longleftrightarrow> directories_end E \<and> searches_end E"
| "scan_ends E (ListClear l) \<longleftrightarrow> directories_end E \<and> searches_end E"
| "scan_ends E (ListIsEmpty l) \<longleftrightarrow> directories_end E"
| "scan_ends E (ListGetNextItemFront l r g d) \<longleftrightarrow> numbers_left E"
| "scan_ends E op \<longleftrightarrow> True"

text \<open>The iterators an operation may change, and the numbers of iterators made so far it may leave.\<close>

fun touched :: "rl_op \<Rightarrow> nat \<Rightarrow> nat set" where
  "touched (ListGetFrontRef l g) n = {n}"
| "touched (ListGetNextItemFront l (Some (Some a)) g d) n = {a}"
| "touched (ListGetFinalize l (Some a)) n = {a}"
| "touched op n = {}"

fun made :: "rl_op \<Rightarrow> nat \<Rightarrow> nat set" where
  "made (ListGetFrontRef l g) n = {n, n + 1}"
| "made op n = {n}"

definition ends_well :: "rl_op \<Rightarrow> rl_world \<Rightarrow> (MafReturnT \<times> rl_out) rlp \<Rightarrow> bool" where
  "ends_well op w m \<longleftrightarrow> wp False m (\<lambda>r v. but_iters (touched op (next_iter w)) v w \<and> next_iter v \<in> made op (next_iter w)) (\<lambda>f v. True) w"

lemma tame_ends_well: "tame False False m \<Longrightarrow> ends_well op w m"
  unfolding ends_well_def
  by (rule wp_others [where n = "next_iter w"]) (auto, cases op, auto)

lemma ends_well_code: "wp False m (\<lambda>r v. but_iters (touched op (next_iter w)) v w \<and> next_iter v \<in> made op (next_iter w)) (\<lambda>f v. True) w \<Longrightarrow>
    ends_well op w (code_only m)"
  unfolding ends_well_def code_only_def wp_bnd by (erule wp_mono) simp_all

lemma ends_well_out: "wp False m (\<lambda>r v. but_iters (touched op (next_iter w)) v w \<and> next_iter v \<in> made op (next_iter w)) (\<lambda>f v. True) w \<Longrightarrow>
    ends_well op w (with_out f m)"
  unfolding ends_well_def with_out_def wp_bnd by (erule wp_mono) (simp_all add: case_prod_beta)

lemma tame_code_only: "tame False False m \<Longrightarrow> tame False False (code_only m)"
  unfolding code_only_def by auto

lemma tame_with_out: "tame False False m \<Longrightarrow> tame False False (with_out f m)"
  unfolding with_out_def by auto

lemma all_end_well:
  assumes P: "patient E" and S: "scan_ends E op"
  shows "ends_well op w (maf_comsa_list E op)"
proof (cases op)
  case (ListGetFrontRef l g)
  have "wp False (listGetFrontRef E l g) (\<lambda>r v. but_iters (touched op (next_iter w)) v w \<and> next_iter v \<in> made op (next_iter w)) (\<lambda>f v. True) w"
    using tame_front [OF P, of l g w] by (simp add: ListGetFrontRef)
  then show ?thesis using ends_well_out [of "listGetFrontRef E l g" op w OutRef] by (simp add: ListGetFrontRef)
next
  case (ListGetNextItemFront l r g d)
  then have "numbers_left E" using S by simp
  note nx = tame_next [OF P this]
  have "wp False (listGetNextItemFront E l r g d) (\<lambda>x v. but_iters (touched op (next_iter w)) v w \<and> next_iter v \<in> made op (next_iter w)) (\<lambda>f v. True) w"
    unfolding listGetNextItemFront_def
    by (auto simp: ListGetNextItemFront listGetFinalize_def intro!: nx split: option.split bool.split)
  then show ?thesis unfolding ends_well_def ListGetNextItemFront maf_comsa_list.simps maf_comsa_imm_list.simps wp_bnd
    by (rule wp_mono) simp_all
next
  case (ListGetFinalize l r)
  have "wp False (listGetFinalize l r) (\<lambda>x v. but_iters (touched op (next_iter w)) v w \<and> next_iter v \<in> made op (next_iter w)) (\<lambda>f v. True) w"
    by (cases r) (auto simp: ListGetFinalize listGetFinalize_def same_config_def split: option.split)
  then show ?thesis using ends_well_code [of "listGetFinalize l r" op w] by (simp add: ListGetFinalize)
next
  case (ListNumberOfListInstances g)
  then show ?thesis by (auto intro!: tame_ends_well tame_with_out simp: listNumberOfListInstances_def)
next
  case (ListMemoryUsage u t)
  then show ?thesis by (auto intro!: tame_ends_well tame_with_out simp: listMemoryUsage_def)
qed (use P S in \<open>auto intro!: tame_ends_well tame_code_only tame_with_out tame_size tame_push tame_pop tame_erase tame_find
    tame_replace tame_create tame_delete tame_clear tame_is_empty\<close>)

text \<open>
  C17. Every call of the interface ends, the recursion that obtains new handles included, whatever the
  services and the operating system answer, as long as they do not answer "try again" for ever and what
  the call scans is finite: the entries of a directory and the objects of a search for creating, deleting,
  clearing and testing for emptiness, and, for asking for the next item, no list has given out the largest
  number.  A call returns or stops with a fault, and when it returns, the configuration and all iterators
  but the one it is about are as before.
\<close>

theorem rlist_ends:
  assumes "patient E" "scan_ends E op"
  shows "\<exists>r. maf_comsa_list E op w = Some r \<and>
    (case r of Inl f \<Rightarrow> True | Inr (out, v) \<Rightarrow> same_config v w \<and> next_iter v \<in> made op (next_iter w) \<and>
      (\<forall>a. a \<notin> touched op (next_iter w) \<longrightarrow> iters v a = iters w a))"
  using all_end_well [OF assms, of w]
  by (auto simp: ends_well_def but_iters_def wp_def split: option.splits sum.splits)

lemma patient_yes: "patient (\<lambda>h c. yes)"
  by (auto simp: patient_def attempt_answer_def try_again_def yes_def split: prod.split)

theorem rlist_ends_witness:
  "\<exists>r t. maf_comsa_list (\<lambda>h c. yes) (ListGetNextItemFront (Some l_ex) (Some (Some 0)) True (Some ''01234567'')) (w_ex False) = Some r \<and>
     maf_comsa_list (\<lambda>h c. yes) (ListIsEmpty (Some l_ex)) (w_ex False) = Some t"
proof -
  have "numbers_left (\<lambda>h c. yes)" "directories_end (\<lambda>h c. yes)"
    by (simp_all add: numbers_left_def directories_end_def yes_def)
  then show ?thesis
    using rlist_ends [OF patient_yes, of "ListGetNextItemFront (Some l_ex) (Some (Some 0)) True (Some ''01234567'')" "w_ex False"]
      rlist_ends [OF patient_yes, of "ListIsEmpty (Some l_ex)" "w_ex False"] by auto
qed

section \<open>Iterators\<close>

text \<open>
  C19. In any such environment, asking for the next item with a live iterator touches no other
  iterator, and gives back the null reference exactly if the iterator was freed: a client that goes
  on with what it is given never uses freed memory.
\<close>

theorem rlist_iterators:
  assumes "patient E" "validateName (Some l)" "iters w a \<noteq> None"
    "maf_comsa_list E (ListGetNextItemFront (Some l) (Some (Some a)) True (Some copy)) w = Some (Inr ((rc, OutNext x), v))"
  shows "(\<forall>c. c \<noteq> a \<longrightarrow> iters v c = iters w c) \<and> (nx_ref x = None \<and> iters v a = None \<or> nx_ref x = Some a \<and> iters v a \<noteq> None)"
proof -
  let ?m = "listGetNextItemFront E (Some l) (Some (Some a)) True (Some copy)"
  have "?m w = Some (Inr (x, v))"
    using assms(4) by (cases "?m w") (auto simp: bnd_def return_def split: sum.splits)
  then show ?thesis
    using wp_Inr [OF next_item_iterator [OF assms(1-3)]] by (simp add: given_back_def)
qed

text \<open>Where every call succeeds and no attribute is ever given, a list appears empty.\<close>

lemma read_yes: "\<exists>h. readObject (\<lambda>h c. yes) (Some n) w = Some (Inr ((MafOk, None), w\<lparr>hist := h\<rparr>))"
  by (simp add: readObject_def with_reset_def autoRetry_saImmOmAccessorGet_2_def bnd_def gets_def return_def auto_retry_once
      try_again_def yes_def) (intro exI, rule refl)

lemma size_yes: "list_ready w (name_value l) \<Longrightarrow> validateName (Some l) \<Longrightarrow>
    \<exists>h. listGetSize (\<lambda>h c. yes) (Some l) w = Some (Inr ((MafOk, Some 0), w\<lparr>hist := h\<rparr>))"
proof -
  assume w: "list_ready w (name_value l)" and l: "validateName (Some l)"
  have c: "classToObj (name_value l) (w\<lparr>hist := h\<rparr>) = Some (Inr (name_value l @ ''=1'', w\<lparr>hist := h\<rparr>))" for h
    using w by (auto simp: classToObj_def saNameSet_def list_ready_def fits_def bnd_def gets_def return_def)
  have "\<exists>h'. ui_attempts n (\<lambda>h c. yes) (name_value l) a 0 (w\<lparr>hist := h\<rparr>) = Some (Inr ((MafOk, 0), w\<lparr>hist := h'\<rparr>))" for n a h
  proof (induction n arbitrary: h)
    case 0
    show ?case by (intro exI [of _ h]) (simp add: return_def)
  next
    case (Suc n)
    obtain h' where "readObject (\<lambda>h c. yes) (Some (name_value l @ ''=1'')) (w\<lparr>hist := h\<rparr>) = Some (Inr ((MafOk, None), w\<lparr>hist := h'\<rparr>))"
      using read_yes [of "name_value l @ ''=1''" "w\<lparr>hist := h\<rparr>"] by auto
    with Suc [of h'] c show ?case by (simp add: bnd_def)
  qed
  from this [of 3 "strRlistNumElements w" "hist w"] obtain h'
    where "ui_attempts 3 (\<lambda>h c. yes) (name_value l) (strRlistNumElements w) 0 w = Some (Inr ((MafOk, 0), w\<lparr>hist := h'\<rparr>))" by auto
  then show ?thesis using l
    by (auto simp: listGetSize_def get_num_def getObjectUiAttribute_def bnd_def gets_def return_def)
qed

theorem rlist_iterators_witness:
  "\<exists>w v x. maf_comsa_list (\<lambda>h c. yes) (ListGetNextItemFront (Some l_ex) (Some (Some 0)) True (Some ''01234567'')) w =
      Some (Inr ((MafOk, OutNext x), v)) \<and> nx_ref x = None \<and> iters v 0 = None \<and> iters w 0 \<noteq> None"
proof -
  define w where "w = (w_ex True)\<lparr>iters := [0 \<mapsto> \<lparr>it_id = 1, it_index = 0, it_size = None\<rparr>]\<rparr>"
  have "list_ready w (name_value l_ex)" using ready_ex [of "''L''" True] by (simp add: w_def ready_def list_ready_def named_def fits_def)
  then obtain h where h: "listGetSize (\<lambda>h c. yes) (Some l_ex) w = Some (Inr ((MafOk, Some 0), w\<lparr>hist := h\<rparr>))"
    using size_yes by fastforce
  define x where "x = \<lparr>nx_rc = MafOk, nx_ref = None, nx_name = None, nx_data = ''01234567''\<rparr>"
  have run: "maf_comsa_list (\<lambda>h c. yes) (ListGetNextItemFront (Some l_ex) (Some (Some 0)) True (Some ''01234567'')) w =
      Some (Inr ((MafOk, OutNext x), w\<lparr>hist := h, iters := Map.empty\<rparr>))"
    using h by (simp add: listGetNextItemFront_def next_item_def bnd_def iter_at_def listGetFinalize_def gets_def return_def
        andthen_def modify_def w_def x_def)
  have "iters w 0 \<noteq> None" by (simp add: w_def)
  moreover from rlist_iterators [OF patient_yes l_ex(2) this run]
  have "iters (w\<lparr>hist := h, iters := Map.empty\<rparr>) 0 = None" by (simp add: x_def)
  moreover have "nx_ref x = None" by (simp add: x_def)
  ultimately show ?thesis using run by blast
qed

section \<open>Limits\<close>

text \<open>
  A list name of up to 256 bytes is accepted, but without long names the object name made
  from it must stay below 256 bytes: with a name of 254 bytes or more, asking for the size writes
  past the end of the name.  With a shorter name the object name is right.
\<close>

theorem rlist_long_names:
  assumes "validateName (Some l)" "\<not> bExtendedNameEnabled w"
  shows "classToObj (name_value l) w =
      (if length (name_value l) < 254 then Some (Inr (name_value l @ ''=1'', w)) else Some (Inl (Overflow, w))) \<and>
    (length (name_value l) < 254 \<or> maf_comsa_list E (ListGetSize (Some l)) w = Some (Inl (Overflow, w)))"
proof -
  have c: "classToObj (name_value l) w =
      (if length (name_value l) < 254 then Some (Inr (name_value l @ ''=1'', w)) else Some (Inl (Overflow, w)))"
    using assms(2) by (auto simp: classToObj_def saNameSet_def SA_MAX_UNEXTENDED_NAME_LENGTH_def bnd_def gets_def return_def die_def)
  then have "maf_comsa_list E (ListGetSize (Some l)) w = Some (Inl (Overflow, w))" if "\<not> length (name_value l) < 254"
    using that assms(1)
    by (simp add: with_out_def listGetSize_def get_num_def getObjectUiAttribute_def eval_nat_numeral bnd_def gets_def)
  with c show ?thesis by blast
qed

theorem rlist_long_names_witness:
  "maf_comsa_list (\<lambda>h c. yes) (ListGetSize (Some \<lparr>name_length = 256, name_value = replicate 256 CHR ''x''\<rparr>)) (w_ex True) =
     Some (Inl (Overflow, w_ex True))"
  using rlist_long_names [of "\<lparr>name_length = 256, name_value = replicate 256 CHR ''x''\<rparr>" "w_ex True" "\<lambda>h c. yes"]
  by (simp add: validateName_def MW_SPI_MAX_NAME_LENGTH_def)

text \<open>
  When the directory of a list is missing, adding an item to it means to create the directory,
  and that writes past the end of an array of four pointers: the call cannot do what it means to.
\<close>

theorem rlist_missing_directory:
  assumes "validateName (Some l)" "\<not> replicateInIMM w" "path_ok w (name_value l)" "\<not> slack w"
    "a_num (E (hist w) (Opendir (list_path w (name_value l)))) = 0"
  shows "\<exists>h. maf_comsa_list E (ListPushBack (Some l) True (Some buf)) w = Some (Inl (Overflow, w\<lparr>hist := h\<rparr>))"
proof -
  let ?p = "list_path w (name_value l)"
  have base: "pathToStorageDirectory w \<noteq> []" using assms(2,3) by (simp add: path_ok_def)
  have len2: "Suc (Suc (length (pathToStorageDirectory w) + (length (COMSA_FOR_COREMW_DIR (cc w)) +
      (length strRpListPath + length (name_value l))))) < MAX_PATH_DATA_LENGTH"
    using assms(2,3) by (auto simp: path_ok_def list_path_def slash_def)
  have full: "comsa_rplist_imm_getfullPath E (name_value l) w = Some (Inr (?p, w))"
    unfolding comsa_rplist_imm_getfullPath_def getBaseRepository_def Let_def
    using base len2 join_full_path [OF assms(3,2)] by (simp add: bnd_def gets_def return_def)
  have "path_exists E (name_value l) w =
      Some (Inl (Overflow, w\<lparr>hist := hist w @ [(Opendir ?p, E (hist w) (Opendir ?p))]\<rparr>))"
    unfolding path_exists_def createDir_def getBaseRepository_def
    using full assms(2,4,5) base by (simp add: bnd_def gets_def return_def die_def call_run)
  then show ?thesis using assms(1)
    by (intro exI [of _ "hist w @ [(Opendir ?p, E (hist w) (Opendir ?p))]"]) (simp add: with_out_def listPushBack_def bnd_def)
qed

theorem rlist_missing_directory_witness:
  "\<exists>h. maf_comsa_list (\<lambda>h c. yes) (ListPushBack (Some l_ex) True (Some ''01234567'')) ((w_ex False)\<lparr>slack := False\<rparr>) =
     Some (Inl (Overflow, (w_ex False)\<lparr>slack := False, hist := h\<rparr>))"
proof -
  let ?w = "(w_ex False)\<lparr>slack := False\<rparr>"
  have "path_ok ?w (name_value l_ex)"
    using ready_ex [of "''L''" False] by (simp add: ready_def path_ok_def list_path_def)
  then show ?thesis
    using rlist_missing_directory [OF l_ex(2), of ?w "\<lambda>h c. yes" "''01234567''"] by (simp add: yes_def)
qed

lemma wp_readShmmax: "wp False (readShmmaxValue E) (\<lambda>r v. \<exists>h. v = w\<lparr>hist := h\<rparr>) (\<lambda>f v. False) w"
  unfolding readShmmaxValue_def by (auto simp: wp_call wp_do_call split: option.splits)

text \<open>
  The size given for the items of a new list is limited: above the limit the call is refused with
  no call to the outside.  The limit is never raised above the larger of what it was and what the
  system allows.
\<close>

theorem rlist_size_limit:
  assumes "validateName (Some l)"
  shows "(ucast n \<le> rlist_maxsize w \<or> maf_comsa_list E (ListCreate (Some l) n) w = Some (Inr ((MafNoResources, NoOut), w))) \<and>
    wp False (set_rlist_maxsize E cfg) (\<lambda>_ v. rlist_maxsize v \<le> rlist_maxsize w \<or>
       (\<exists>u sys. readShmmaxValue E w = Some (Inr (sys, u)) \<and> sys \<noteq> 0 \<and> rlist_maxsize v \<le> sys)) (\<lambda>f v. f = Wild) w"
proof -
  have "maf_comsa_list E (ListCreate (Some l) n) w = Some (Inr ((MafNoResources, NoOut), w))" if "\<not> ucast n \<le> rlist_maxsize w"
    using that assms by (auto simp: code_only_def listCreate_def bnd_def gets_def return_def not_le)
  moreover
  obtain sys h where sys: "readShmmaxValue E w = Some (Inr (sys, w\<lparr>hist := h\<rparr>))"
    using wp_readShmmax [of E w] by (auto simp: wp_def split: option.splits sum.splits)
  have "wp False (set_rlist_maxsize E cfg) (\<lambda>_ v. rlist_maxsize v \<le> rlist_maxsize w \<or>
       (\<exists>u sys. readShmmaxValue E w = Some (Inr (sys, u)) \<and> sys \<noteq> 0 \<and> rlist_maxsize v \<le> sys)) (\<lambda>f v. f = Wild) w"
    using sys unfolding set_rlist_maxsize_def
    by (auto simp: Let_def split: option.split)
      (auto simp: wp_def bnd_def gets_def modify_def not_less intro: less_imp_le)
  ultimately show ?thesis by blast
qed

theorem rlist_size_limit_witness:
  "maf_comsa_list (\<lambda>h c. yes) (ListCreate (Some l_ex) 1001) (w_ex True) = Some (Inr ((MafNoResources, NoOut), w_ex True))"
proof -
  have "ucast (1001 :: 32 word) \<le> rlist_maxsize (w_ex True) \<longleftrightarrow> False"
    by (simp add: w_ex_def)
  then show ?thesis using rlist_size_limit [OF l_ex(2), of 1001 "w_ex True" "\<lambda>h c. yes"] by blast
qed

end
