(* ===== verification/RlNumbers.thy ===== *)
theory RlNumbers
  imports RlFaults
begin

text \<open>
  The replicated list: what happens to the numbers of a list at their limits and to the handles of the
  service over a restart.
\<close>

section \<open>Numbers\<close>

text \<open>
  In objects, the test for emptiness of the list \<open>FmStatusSection\<close> looks at the item number 1 only:
  when that item is gone but others are left, it reports "not empty" and at the same time sets the
  number of items and the last number given out to 0, so that the other items are lost.
\<close>

theorem rlist_fm_forgets_items:
  assumes "served s0 E" "list_at s0 w (name_value l) b (i, xs)" "validateName (Some l)"
    "replicateInIMM w" "name_value l = FM_STATUS_SECTION" "xs \<noteq> []" "1 \<notin> fst ` set xs"
  shows "\<exists>h. maf_comsa_list E (ListIsEmpty (Some l)) w = Some (Inr ((MafOk, OutEmpty (Some False)), w\<lparr>hist := h\<rparr>)) \<and>
    numbers w (stored s0 h) (name_value l) b 0 0"
proof -
  let ?l = "name_value l" and ?s = "stored s0 (hist w)"
  have R: "rlist w ?s ?l b i xs" using assms(2) by (simp add: list_at_def)
  note D = rlist_stateD [OF rlist_state [OF R]]
  have h: "list_holds w ?s ?l b i xs" using R by (simp add: rlist_def)
  have len: "length xs < 2 ^ 32" using list_holds_numbers [OF h] by blast
  then have n: "(of_nat (length xs) :: 32 word) \<noteq> 0"
    using assms(6) by (simp add: word_of_nat_eq_0_iff) (metis dvd_imp_le leD length_greater_0_conv)
  have nm: "name_ok w ?l (decimal 1)" by (rule rlist_name_ok [OF R]) simp_all
  have one: "?l @ ''RT=1'' = item_object ?l (decimal 1)"
  proof -
    have "decimal 1 = ''1''" by code_simp
    then show ?thesis by (simp add: item_object_def)
  qed
  have obj: "runs s0 (classToObj (?l @ sRuntimeIMMSuffix)) w ?s (item_object ?l (decimal 1)) w ?s"
    unfolding classToObj_def using nm assms(4) runs_saNameSet [of w "item_object ?l (decimal 1)"] one
    by (simp add: rl_strings name_ok_def)
  have rd: "runs s0 (readObject E (Some (item_object ?l (decimal 1)))) w ?s (MafNotExist, None) w ?s"
    using runs_readObject [OF assms(1), of "item_object ?l (decimal 1)" w ?s] objects_present [OF h assms(4), of "decimal 1"] assms(7)
    by simp
  define s1 where "s1 = with_numbers w ?l b i 0 ?s"
  define s2 where "s2 = with_numbers w ?l b 0 0 s1"
  have s1: "runs s0 (set_num E ?l 0) w ?s MafOk w s1"
    using runs_set_numbers(2) [OF assms(1) D(1,5)] by (simp add: s1_def)
  have s2: "runs s0 (set_last E ?l 0) w s1 MafOk w s2"
    using runs_set_numbers(1) [OF assms(1) D(1), of s1 b i 0 0] by (simp add: s1_def s2_def)
  have reset: "runs s0 (reset_numbers E ?l) w ?s () w s2"
    unfolding reset_numbers_def by (intro runs_bnd [OF s1] runs_bnd [OF s2] runs_return)
  have "runs s0 (listIsEmpty E (Some l)) w ?s (MafOk, Some False) w s2"
    unfolding listIsEmpty_def option.case using assms(3)
    by (simp split del: if_split, intro runs_bnd [OF runs_numbers(3) [OF assms(1) D(1,5)]],
        use n in \<open>simp split del: if_split\<close>, intro runs_gets_bnd, simp)
      (use assms(4,5) in \<open>simp\<close>, use obj rd reset assms(5) in \<open>auto elim!: runs_bnd intro!: runs_andthen runs_return simp: unless_def\<close>)
  from runs_world [OF runs_with_out [OF this, of OutEmpty]]
  obtain g where "maf_comsa_list E (ListIsEmpty (Some l)) w = Some (Inr ((MafOk, OutEmpty (Some False)), w\<lparr>hist := g\<rparr>))" "stored s0 g = s2"
    by auto
  then show ?thesis by (intro exI [of _ g]) (simp add: s2_def)
qed

definition l_fm :: MafMwSpiListNameT where "l_fm = \<lparr>name_length = 15, name_value = FM_STATUS_SECTION\<rparr>"

lemma l_fm [simp]: "name_value l_fm = FM_STATUS_SECTION" "validateName (Some l_fm)" "short_name FM_STATUS_SECTION"
  by (simp_all add: l_fm_def validateName_def MW_SPI_MAX_NAME_LENGTH_def short_name_def FM_STATUS_SECTION_def)

theorem rlist_fm_forgets_items_witness:
  "\<exists>w h. (\<exists>d. list_at (s_of True FM_STATUS_SECTION) w FM_STATUS_SECTION 8 (2, [(2, d)])) \<and>
    maf_comsa_list (obliging (s_of True FM_STATUS_SECTION)) (ListIsEmpty (Some l_fm)) w =
      Some (Inr ((MafOk, OutEmpty (Some False)), w\<lparr>hist := h\<rparr>)) \<and>
    numbers w (stored (s_of True FM_STATUS_SECTION) h) FM_STATUS_SECTION 8 0 0"
proof -
  let ?w = "w_ex True" and ?s = "s_of True FM_STATUS_SECTION"
  let ?buf = "''01234567''" and ?d = "stored_bytes (w_ex True) FM_STATUS_SECTION 8 ''01234567''"
  have nm: "valid_item ?w FM_STATUS_SECTION (item_name 1)"
    using item_name_valid [of 1] name_ok_ex [of FM_STATUS_SECTION 1 True] by (simp add: valid_item_def item_name_def)
  have n1: "name_value (item_name 1) = decimal 1" by (simp add: item_name_def)
  let ?ops = "[Push ?buf, Push ?buf, Erase (item_name 1)]"
  have adm: "all_handled ?w (name_value l_fm) 8 (0, []) ?ops" using nm by (simp add: buffer_ok_def)
  have spec: "snd (run_effect ?w FM_STATUS_SECTION 8 (0, []) ?ops) = (2, [(2, ?d)])" by (simp add: n1)
  have start: "list_at ?s ?w FM_STATUS_SECTION 8 (0, [])" using rlist_of [OF l_fm(3)] by (simp add: list_at_def stored_def)
  obtain g where g: "list_at ?s (?w\<lparr>hist := g\<rparr>) FM_STATUS_SECTION 8 (2, [(2, ?d)])"
    using run_world [OF obliging_serves l_fm(2) _ adm, of ?s, unfolded l_fm(1) spec] start by blast
  from rlist_fm_forgets_items [OF obliging_serves _ l_fm(2), unfolded l_fm(1), OF this] g
  show ?thesis by (intro exI [of _ "?w\<lparr>hist := g\<rparr>"]) auto
qed

text \<open>
  C24. The numbers given out for items wrap around: after the largest one the next item gets the
  number 0, because the test against the largest number compares 32 bits with 64.  The last number
  given out is then 0, and the next items take the numbers of those that are still there.
\<close>

theorem rlist_number_wraps:
  assumes "served s0 E" "list_at s0 w (name_value l) b (- 1, xs)" "validateName (Some l)"
    "\<not> replicateInIMM w" "unat b \<le> length buf"
  shows "\<exists>h. maf_comsa_list E (ListPushBack (Some l) True (Some buf)) w =
      Some (Inr ((MafOk, OutName (Some (item_name 0))), w\<lparr>hist := h\<rparr>)) \<and>
    fils (stored s0 h) (item_path w (name_value l) ''0'') = Some (take (unat b) buf) \<and>
    numbers w (stored s0 h) (name_value l) b 0 (of_nat (length xs) + 1)"
proof -
  define n :: "32 word" where "n = of_nat (length xs)"
  let ?l = "name_value l" and ?s = "stored s0 (hist w)"
  have R: "rlist w ?s ?l b (- 1) xs" using assms(2) by (simp add: list_at_def)
  obtain x where x: "runs s0 (path_exists E ?l) w ?s (Some True) w (?s\<lparr>listing := x\<rparr>)"
    using runs_path_exists [OF assms(1), of w ?l ?s] R by (auto simp: rlist_def ready_def)
  define s1 where "s1 = ?s\<lparr>listing := x\<rparr>"
  have R1: "rlist w s1 ?l b (- 1) xs" using R by (simp add: s1_def)
  note S = rlist_state [OF R1, folded n_def]
  note D = rlist_stateD [OF S]
  define s2 where "s2 = put_file (item_path w ?l ''0'') (take (unat b) buf) s1"
  define s3 where "s3 = with_numbers w ?l b 0 (n + 1) s2"
  have nm: "name_ok w ?l ''0''" using rlist_name_ok [OF R, of 0] assms(4) by (simp add: decimal_0)
  have put: "runs s0 (store_item E ?l (- 1 + 1) (Some buf)) w s1 MafOk w s2"
    unfolding store_item_def using assms(4) runs_autoRetry_writeToFile [OF assms(1,4) S nm assms(5)]
    by (intro runs_gets_bnd) (auto simp: decimal_0 s2_def unless_def elim!: runs_bnd intro!: runs_andthen runs_return)
  have n2: "numbers w s2 ?l b (- 1) n" using D(5) by (simp add: s2_def)
  have setn: "runs s0 (set_num E ?l (n + 1)) w s2 MafOk w (with_numbers w ?l b (- 1) (n + 1) s2)"
    by (rule runs_set_numbers(2) [OF assms(1) D(1) n2])
  have setl: "runs s0 (set_last E ?l 0) w (with_numbers w ?l b (- 1) (n + 1) s2) MafOk w s3"
    using runs_set_numbers(1) [OF assms(1) D(1), of "with_numbers w ?l b (- 1) (n + 1) s2" b "- 1" "n + 1" 0] by (simp add: s3_def)
  have "runs s0 (listPushBack E (Some l) True (Some buf)) w ?s (MafOk, Some (item_name 0)) w s3"
    unfolding listPushBack_def option.case using assms(3) ucast_not_ULONG_MAX [of 0] put
    by (auto intro!: runs_bnd [OF x [folded s1_def]] runs_bnd [OF runs_list_numbers [OF assms(1) S]]
        runs_bnd [OF setn] runs_bnd [OF setl] elim!: runs_bnd simp: runs_return)
  from runs_world [OF runs_with_out [OF this, of OutName]]
  obtain h where "maf_comsa_list E (ListPushBack (Some l) True (Some buf)) w =
      Some (Inr ((MafOk, OutName (Some (item_name 0))), w\<lparr>hist := h\<rparr>))" "stored s0 h = s3" by auto
  moreover have "fils s3 (item_path w ?l ''0'') = Some (take (unat b) buf)"
    by (simp add: s3_def s2_def put_file_def)
  moreover have "numbers w s3 ?l b 0 (n + 1)" by (simp add: s3_def)
  ultimately show ?thesis by (auto simp: n_def)
qed

text \<open>An empty list in files that has given out the largest number.\<close>

definition s_last :: store where "s_last = with_numbers (w_ex False) ''L'' 8 (- 1) 0 (s_ex False)"

lemma used_up: "list_at s_last (w_ex False) (name_value l_ex) 8 (- 1, [])"
proof -
  have "rlist (w_ex False) s_last ''L'' 8 (- 1) []"
    using rlist_ex [of False] list_holds_trim [of "w_ex False" "s_ex False" "''L''" 8 0 "[]" "- 1"]
    by (simp add: rlist_def s_last_def)
  then show ?thesis by (simp add: list_at_def stored_def)
qed

theorem rlist_number_wraps_witness:
  "\<exists>s0 h. maf_comsa_list (obliging s0) (ListPushBack (Some l_ex) True (Some ''01234567'')) (w_ex False) =
      Some (Inr ((MafOk, OutName (Some (item_name 0))), (w_ex False)\<lparr>hist := h\<rparr>)) \<and>
    numbers (w_ex False) (stored s0 h) ''L'' 8 0 1"
  using rlist_number_wraps [OF obliging_serves used_up l_ex(2), of "''01234567''"] by (intro exI [of _ s_last]) auto

text \<open>
  When the largest number was given out and no item can be found, the search for the next one goes round
  all numbers for ever: every number is at most the last one given out.
\<close>

theorem rlist_search_endless:
  assumes E: "served s0 E" and at: "list_at s0 w l b (- 1, [])" and "\<not> replicateInIMM w"
  shows "findNextListItem E l n w = None"
proof -
  let ?s = "stored s0 (hist w)"
  have R: "rlist w ?s l b (- 1) []" using at by (simp add: list_at_def)
  note S = rlist_state [OF R] and D = rlist_stateD [OF rlist_state [OF R]]
  have step: "runs s0 (try_item E l (None, m)) w ?s (None, m + 1) w ?s" for m
  proof -
    have nm: "name_ok w l (decimal (unat m))" by (rule rlist_name_ok [OF R]) (use assms(3) unat32 [of m] in auto)
    have "fils ?s (item_path w l (decimal (unat m))) = None"
      using R files_present [of w ?s l b "- 1" "[]" "decimal (unat m)"] assms(3) by (simp add: rlist_def)
    then show ?thesis unfolding try_item_def prod.case using assms(3) runs_findFile [OF E assms(3) nm D(4)]
      by (auto intro!: runs_gets_bnd elim!: runs_bnd simp: runs_return)
  qed
  obtain h where h: "get_last E l 0 w = Some (Inr ((MafOk, - 1), w\<lparr>hist := h\<rparr>))" "stored s0 h = ?s"
    using runs_world [OF runs_numbers(2) [OF E D(1,5), of 0]] by auto
  have "wp True (while_prog (\<lambda>(outcome, n). outcome = None \<and> n \<le> - 1) (try_item E l) (None, n)) (\<lambda>r v. False) (\<lambda>f v. False) (w\<lparr>hist := h\<rparr>)"
  proof (rule while_partial [where I = "\<lambda>a v. fst a = None \<and> (\<exists>g. v = w\<lparr>hist := g\<rparr> \<and> stored s0 g = ?s)"])
    fix a :: "(MafReturnT \<times> imm_attr list option) option \<times> 32 word" and v
    assume "fst a = None \<and> (\<exists>g. v = w\<lparr>hist := g\<rparr> \<and> stored s0 g = ?s)"
    then obtain m g where a: "a = (None, m)" "v = w\<lparr>hist := g\<rparr>" "stored s0 g = ?s" by (cases a) auto
    then obtain g' where "try_item E l (None, m) v = Some (Inr ((None, m + 1), w\<lparr>hist := g'\<rparr>))" "stored s0 g' = ?s"
      using step [of m] unfolding runs_def by fastforce
    then show "if case a of (outcome, n) \<Rightarrow> outcome = None \<and> n \<le> - 1
      then wp True (try_item E l a) (\<lambda>a v. fst a = None \<and> (\<exists>g. v = w\<lparr>hist := g\<rparr> \<and> stored s0 g = ?s)) (\<lambda>f v. False) v else False"
      by (auto simp: a wp_def)
  qed (use h(2) in auto)
  then have "while_prog (\<lambda>(outcome, n). outcome = None \<and> n \<le> - 1) (try_item E l) (None, n) (w\<lparr>hist := h\<rparr>) = None"
    by (auto simp: wp_def split: option.splits sum.splits)
  then show ?thesis using h(1) by (simp add: findNextListItem_def bnd_def)
qed

theorem rlist_search_endless_witness: "findNextListItem (obliging s_last) (name_value l_ex) 1 (w_ex False) = None"
  by (rule rlist_search_endless [OF obliging_serves used_up]) simp

section \<open>Start and stop\<close>

text \<open>
  Once the component was started it takes its handles for granted: stopping gives them back but
  leaves the mark that they were obtained, so that starting again makes no call at all and reports
  success, without a handle.
\<close>

theorem rlist_restart_without_handles:
  assumes "rplistOiSetFlag w" "maf_comSAMwComponentStop E w = Some (Inr (rc, v))"
  shows "\<exists>u. maf_comSAMwComponentStart E v = Some (Inr (MafOk, u)) \<and> hist u = hist v \<and>
    rplistImmHandle u = rplistImmHandle v \<and> rplistImmOiHandle u = rplistImmOiHandle v"
proof -
  have r: "wp True (auto_retry E try_again c) Q F x" if "\<And>a h. Q a (x\<lparr>hist := h\<rparr>)" for c Q F and x :: rl_world
    by (rule wp_auto_retry) (rule that)
  have "wp True (maf_comSAMwComponentStop E) (\<lambda>r v. rplistOiSetFlag v) (\<lambda>f v. True) w"
    unfolding maf_comSAMwComponentStop_def maf_comsa_imm_comSAMwComponentStop_def comsa_rplist_immOi_finalize_def
      comsa_rplist_immAccess_finalize_def comsa_rplist_imm_finalize_def api_wrappers
    using assms(1) by (auto intro!: r)
  then have "rplistOiSetFlag v" using assms(2) wp_Inr by fastforce
  then show ?thesis
    by (simp add: maf_comSAMwComponentStart_def maf_comsa_imm_comSAMwComponentStart_def bnd_def gets_def return_def andthen_def modify_def)
qed

theorem rlist_restart_without_handles_witness:
  "\<exists>v u. maf_comSAMwComponentStop (\<lambda>h c. yes) (w_ex True) = Some (Inr (MafOk, v)) \<and> rplistImmOiHandle v = 0 \<and>
     maf_comSAMwComponentStart (\<lambda>h c. yes) v = Some (Inr (MafOk, u)) \<and> rplistImmOiHandle u = 0"
proof -
  have "\<exists>v. maf_comSAMwComponentStop (\<lambda>h c. yes) (w_ex True) = Some (Inr (MafOk, v)) \<and> rplistImmOiHandle v = 0"
    by (simp add: maf_comSAMwComponentStop_def maf_comsa_imm_comSAMwComponentStop_def comsa_rplist_immOi_finalize_def
        comsa_rplist_immAccess_finalize_def comsa_rplist_imm_finalize_def api_wrappers prog_defs once try_again_def yes_def w_ex_def)
  then obtain v where v: "maf_comSAMwComponentStop (\<lambda>h c. yes) (w_ex True) = Some (Inr (MafOk, v))" "rplistImmOiHandle v = 0" by blast
  have "rplistOiSetFlag (w_ex True)" by (simp add: w_ex_def)
  from rlist_restart_without_handles [OF this v(1)] v show ?thesis by auto
qed

end
