(* ===== verification/NtfWorld.thy ===== *)
theory NtfWorld
  imports LogRules
begin

text \<open>
  The notification service (\<open>ntf/ComSANtf.c\<close>), part 1: its state and the alarms it owns.

  The alarms made for COM, the nodes of the list of alarms COM has not released yet
  (\<open>valueList4T\<close>) and the nodes of the queue of alarms that wait (\<open>AlarmObjectT\<close>) are
  \<open>malloc\<close>ed objects in stores; all three share the addresses from \<open>next_addr\<close> on.
  The strings of an alarm are kept in its record.
\<close>

section \<open>State\<close>

datatype UuidCfg = UuidDisableHandle | UuidMapToAddInfoName | UuidMapValueToAddText

record valueList4T =
  vl_comNot :: addr
  vl_comNot_2 :: "addr option"
  vl_next :: "addr option"

record AlarmObjectT =
  ao_alarm :: "addr option"
  ao_next :: "addr option"

record MafFilterT =
  consumerHandle :: "64 word"
  eventType :: "string option"
  filter_of :: "ntf_filter option"
  subscriptionId :: "32 word"

record ntf_world = world +
  ntfHandle :: handle
  addFilter_setup :: bool
  is_ntf_stop_component :: bool
  ntf_stop_thread :: bool
  uuid_cfg_flag :: UuidCfg
  readOldAlarm :: bool
  lastNotificationMatched :: bool
  readOldAlarmDone :: bool
  sReaderMaxRetries :: "32 word"
  alarmQueue :: "addr option"
  alarmQueueFront :: "addr option"
  callbackLastCmwNotificationID :: "64 word"
  readerLastNotificationID :: "64 word"
  producer_handle :: handle
  event_router_MAF :: bool              \<comment> \<open>the pointer is not null\<close>
  consumer_handle :: handle
  nFilter_V4 :: MafFilterT
  nVlist4 :: "addr option"
  nVlLast4 :: "addr option"
  isSubscribed :: bool
  notificationFilterHandles :: "handle \<times> handle \<times> handle"
  mafSpiNtfFmVersion :: nat             \<comment> \<open>\<open>_mafSpiNtfFmVersion\<close>: 0 before it is set\<close>
  reason_failing_over :: bool           \<comment> \<open>\<open>_reason == MafFailingOver\<close>\<close>
  ntf_poll :: TimeHandle                \<comment> \<open>\<open>comSASThandle_ntf\<close>\<close>
  bExtendedNameEnabled :: bool
  cc_name :: string                     \<comment> \<open>\<open>_CC_NAME\<close>\<close>
  fms :: "addr \<rightharpoonup> MafOamSpiNotificationFmStruct_4T"
  fms2 :: "addr \<rightharpoonup> MafOamSpiNotificationFmStruct_2T"
  vls :: "addr \<rightharpoonup> valueList4T"
  aos :: "addr \<rightharpoonup> AlarmObjectT"
  next_addr :: addr

type_synonym 'a ntfp = "(ntf_world, 'a) prog"

definition OAM_SA_NTF_RETRY_SLEEP :: nat where "OAM_SA_NTF_RETRY_SLEEP = 100000"
definition OAM_SA_RETRY_SLEEP :: nat where "OAM_SA_RETRY_SLEEP = 1000"
definition OAM_SA_NTF_MAX_RETRIES :: nat where "OAM_SA_NTF_MAX_RETRIES = 100"
definition CM_NOTIFICATIONS_SUBS_ID :: "32 word" where "CM_NOTIFICATIONS_SUBS_ID = 45"
definition OAM_SA_NTF_READER_MAX_RETRIES :: "32 word" where "OAM_SA_NTF_READER_MAX_RETRIES = 5"
definition COMSA_NTF_SUBSCRIPTION_ID :: "32 word" where "COMSA_NTF_SUBSCRIPTION_ID = 44"
definition UUID_LENGTH :: nat where "UUID_LENGTH = 36"
definition UUID_ADDTEXT_HEADER :: string where "UUID_ADDTEXT_HEADER = '';uuid:''"
definition ERICSSON_VENDOR_ID :: "32 word" where "ERICSSON_VENDOR_ID = 193"
definition UUID :: "16 word" where "UUID = 99"
definition PM_THRESHOLD_FMALARMTYPE_DN :: string where
  "PM_THRESHOLD_FMALARMTYPE_DN = ''fmAlarmTypeId=PMThresholdCrossedOrReached,fmAlarmModelId=PM,fmId=1''"
definition FmEventType_4 :: string where "FmEventType_4 = ''MafOamSpiNotificationFmEventType_4''"
definition FmEventType_2 :: string where "FmEventType_2 = ''MafOamSpiNotificationFmEventType_2''"
definition FmEventComponent_4 :: string where "FmEventComponent_4 = ''MafOamSpiNotificationFmEventComponent_4''"
definition FmEventComponent_3 :: string where "FmEventComponent_3 = ''MafOamSpiNotificationFmEventComponent_3''"

text \<open>\<open>OAM_SA_NTF_RETRY(F)\<close>, with the counter as an argument: its last value is never used.\<close>

primrec ntf_tries :: "nat \<Rightarrow> outside \<Rightarrow> SaAisErrorT ntfp \<Rightarrow> SaAisErrorT ntfp" where
  "ntf_tries 0 E m = m"
| "ntf_tries (Suc n) E m = bnd m (\<lambda>rc.
     if rc = SA_AIS_ERR_TRY_AGAIN then andthen (do_call E (Usleep OAM_SA_NTF_RETRY_SLEEP)) (ntf_tries n E m)
     else return rc)"

definition ntf_retry :: "outside \<Rightarrow> SaAisErrorT ntfp \<Rightarrow> SaAisErrorT ntfp" where
  "ntf_retry E m = ntf_tries OAM_SA_NTF_MAX_RETRIES E m"

text \<open>
  Two of the mutexes end the process when the call fails; for the other two (\<open>alarm_queue_lock\<close>,
  \<open>cm_notification_lock\<close>) the code only logs the failure and goes on.
\<close>

definition mutex_lock :: "outside \<Rightarrow> ntf_lock \<Rightarrow> unit ntfp" where
  "mutex_lock E l = bnd (call E (Ntf (MutexLock l))) (\<lambda>a. if a_num a \<noteq> 0 then die Abort else return ())"

definition mutex_unlock :: "outside \<Rightarrow> ntf_lock \<Rightarrow> unit ntfp" where
  "mutex_unlock E l = bnd (call E (Ntf (MutexUnlock l))) (\<lambda>a. if a_num a \<noteq> 0 then die Abort else return ())"

section \<open>Names\<close>

definition MAX_DN_LENGTH :: nat where "MAX_DN_LENGTH = 2048"

definition saNameMaxLen :: "nat ntfp" where
  "saNameMaxLen = bnd (gets bExtendedNameEnabled) (\<lambda>e. return (if e then MAX_DN_LENGTH else 256))"

definition saNameMaxLenNtf :: "nat ntfp" where
  "saNameMaxLenNtf = bnd (gets bExtendedNameEnabled) (\<lambda>e. return (if e then MAX_DN_LENGTH else 256 + 1))"

text \<open>\<open>saNameSet\<close>: see \<open>RlWorld\<close>.  \<open>saNameSetLen\<close> takes the length from its caller.\<close>

definition saNameSet :: "string \<Rightarrow> string ntfp" where
  "saNameSet s = bnd (gets bExtendedNameEnabled) (\<lambda>e.
     if e \<or> length s < 256 then return s else die Overflow)"

section \<open>The alarms COM has not released\<close>

definition alloc_fm :: "MafOamSpiNotificationFmStruct_4T \<Rightarrow> addr ntfp" where
  "alloc_fm c = bnd (gets next_addr) (\<lambda>a.
     andthen (modify (\<lambda>w. w\<lparr>next_addr := Suc a, fms := (fms w)(a \<mapsto> c)\<rparr>)) (return a))"

definition get_fm :: "addr \<Rightarrow> MafOamSpiNotificationFmStruct_4T ntfp" where
  "get_fm a = (\<lambda>w. case fms w a of None \<Rightarrow> die Wild w | Some c \<Rightarrow> return c w)"

definition free_fm :: "addr \<Rightarrow> unit ntfp" where
  "free_fm a = bnd (get_fm a) (\<lambda>c. modify (\<lambda>w. w\<lparr>fms := (fms w)(a := None)\<rparr>))"

definition free_fm2 :: "addr \<Rightarrow> unit ntfp" where
  "free_fm2 a = (\<lambda>w. case fms2 w a of None \<Rightarrow> die Wild w | Some c \<Rightarrow> return () (w\<lparr>fms2 := (fms2 w)(a := None)\<rparr>))"

definition get_vl :: "addr \<Rightarrow> valueList4T ntfp" where
  "get_vl a = (\<lambda>w. case vls w a of None \<Rightarrow> die Wild w | Some n \<Rightarrow> return n w)"

definition free_vl :: "addr \<Rightarrow> unit ntfp" where
  "free_vl a = bnd (get_vl a) (\<lambda>n. modify (\<lambda>w. w\<lparr>vls := (vls w)(a := None)\<rparr>))"

definition set_vl_next :: "addr \<Rightarrow> addr option \<Rightarrow> unit ntfp" where
  "set_vl_next a p = bnd (get_vl a) (\<lambda>n. modify (\<lambda>w. w\<lparr>vls := (vls w)(a \<mapsto> n\<lparr>vl_next := p\<rparr>)\<rparr>))"

definition clean_one :: "addr option \<Rightarrow> addr option ntfp" where
  "clean_one tmp = (case tmp of None \<Rightarrow> return None | Some a \<Rightarrow>
     bnd (get_vl a) (\<lambda>n.
     andthen (free_fm (vl_comNot n))
    (bnd (gets mafSpiNtfFmVersion) (\<lambda>v.
     andthen (if v = 3 then (case vl_comNot_2 n of None \<Rightarrow> return () | Some b \<Rightarrow> free_fm2 b) else return ())
    (andthen (free_vl a) (return (vl_next n)))))))"

definition cleanVlist4 :: "outside \<Rightarrow> unit ntfp" where
  "cleanVlist4 E =
     andthen (mutex_lock E ListLock)
    (bnd (gets nVlist4) (\<lambda>tmp.
     andthen (while_prog (\<lambda>p. p \<noteq> None) clean_one tmp)
    (andthen (modify (\<lambda>w. w\<lparr>nVlist4 := None, nVlLast4 := None\<rparr>))
       (mutex_unlock E ListLock))))"

text \<open>The older structure is made only for the older interface; else its pointer is never set or read.\<close>

definition alloc_fm2 :: "addr \<Rightarrow> addr option ntfp" where
  "alloc_fm2 comNot = bnd (gets mafSpiNtfFmVersion) (\<lambda>v.
     if v \<noteq> 3 then return None
     else bnd (get_fm comNot) (\<lambda>c. bnd (gets next_addr) (\<lambda>b.
       andthen (modify (\<lambda>w. w\<lparr>next_addr := Suc b, fms2 := (fms2 w)(b \<mapsto>
         \<lparr>fm2_dn = fm_dn c, fm2_majorType = majorType c, fm2_minorType = minorType c,
          fm2_eventTime = eventTime c, fm2_additionalText = additionalText c, fm2_severity = fm_severity c\<rparr>)\<rparr>))
         (return (Some b)))))"

definition addNotValue4 :: "outside \<Rightarrow> addr \<Rightarrow> addr ntfp" where
  "addNotValue4 E comNot =
     andthen (mutex_lock E ListLock)
    (bnd (gets next_addr) (\<lambda>ne.
     andthen (modify (\<lambda>w. w\<lparr>next_addr := Suc ne\<rparr>))
    (bnd (alloc_fm2 comNot) (\<lambda>c2.
     andthen (modify (\<lambda>w. w\<lparr>vls := (vls w)(ne \<mapsto> \<lparr>vl_comNot = comNot, vl_comNot_2 = c2, vl_next = None\<rparr>)\<rparr>))
    (bnd (gets nVlist4) (\<lambda>first. bnd (gets nVlLast4) (\<lambda>last.
     andthen (case first of
         None \<Rightarrow> modify (\<lambda>w. w\<lparr>nVlist4 := Some ne, nVlLast4 := Some ne\<rparr>)
       | Some f \<Rightarrow> (case last of None \<Rightarrow> die Wild
           | Some l \<Rightarrow> andthen (set_vl_next l (Some ne)) (modify (\<lambda>w. w\<lparr>nVlLast4 := Some ne\<rparr>))))
    (andthen (mutex_unlock E ListLock) (return ne)))))))))"

text \<open>
  COM gives back an alarm (\<open>doneWithValue\<close>).  \<open>held\<close> tells whether a node holds the value: the value is
  the alarm, or in the older interface the older structure, which is freed when found.
\<close>

definition held :: "nat \<Rightarrow> addr \<Rightarrow> valueList4T \<Rightarrow> bool" where
  "held version v n \<longleftrightarrow> (if version = 4 then vl_comNot n = v else vl_comNot_2 n = Some v)"

definition find_value :: "nat \<Rightarrow> addr \<Rightarrow> (addr option \<times> addr option \<times> bool) ntfp" where
  "find_value version v = bnd (gets nVlist4) (\<lambda>p.
     while_prog (\<lambda>(prev, tmp, found). tmp \<noteq> None \<and> \<not> found)
       (\<lambda>(prev, tmp, found). case tmp of None \<Rightarrow> return (prev, tmp, found)
          | Some a \<Rightarrow> bnd (get_vl a) (\<lambda>n.
              return (if held version v n then (prev, tmp, True) else (tmp, vl_next n, False))))
       (p, p, False))"

definition unlink_value :: "addr option \<Rightarrow> addr \<Rightarrow> unit ntfp" where
  "unlink_value prev a = bnd (gets nVlist4) (\<lambda>first. bnd (gets nVlLast4) (\<lambda>last.
     if Some a = last then
       if first = last then modify (\<lambda>w. w\<lparr>nVlLast4 := None, nVlist4 := None\<rparr>)
       else andthen (modify (\<lambda>w. w\<lparr>nVlLast4 := prev\<rparr>))
         (case prev of None \<Rightarrow> die Wild | Some p \<Rightarrow> set_vl_next p None)
     else bnd (get_vl a) (\<lambda>n.
       if Some a = first then modify (\<lambda>w. w\<lparr>nVlist4 := vl_next n\<rparr>)
       else case prev of None \<Rightarrow> die Wild | Some p \<Rightarrow> set_vl_next p (vl_next n))))"

definition release_value :: "nat \<Rightarrow> addr \<Rightarrow> MafReturnT ntfp" where
  "release_value version v = bnd (find_value version v) (\<lambda>(prev, tmp, found). case tmp of
       None \<Rightarrow> return MafNotExist
     | Some a \<Rightarrow> bnd (get_vl a) (\<lambda>n.
         andthen (if version = 3 then free_fm2 v else return ())
        (andthen (unlink_value prev a)
        (andthen (free_fm (vl_comNot n))
        (andthen (free_vl a) (return MafOk))))))"

definition doneWithValue :: "outside \<Rightarrow> string option \<Rightarrow> addr option \<Rightarrow> MafReturnT ntfp" where
  "doneWithValue E ty val =
     andthen (mutex_lock E ListLock)
    (bnd (case val of None \<Rightarrow> return MafFailure
        | Some v \<Rightarrow>
            if ty = None \<or> ty = Some FmEventType_4 \<or> ty = Some FmEventType_2 then
              bnd (gets mafSpiNtfFmVersion) (\<lambda>version.
                if version = 4 \<or> version = 3 then release_value version v
                else bnd (gets nVlist4) (\<lambda>p. if p = None then return MafNotExist else die Uninit))
            else return MafFailure) (\<lambda>rv.
     andthen (mutex_unlock E ListLock) (return rv)))"

definition doneWithValue_V4 :: "outside \<Rightarrow> string option \<Rightarrow> addr option \<Rightarrow> MafReturnT ntfp" where
  "doneWithValue_V4 E ty val = doneWithValue E ty val"

end
