(* ===== verification/NtfConvert.thy ===== *)
theory NtfConvert
  imports NtfWorld
begin

text \<open>
  The notification service (\<open>ntf/ComSANtf.c\<close>), part 2: an alarm of the notification service becomes
  an alarm for COM and back.  The translation between names of the information model and
  names of COM (\<open>convertTo3Gpp\<close>, \<open>convertToImm\<close>) is made by another part of the
  component and is a call here.  The alarm for COM under construction is passed as a value: no other
  part of the program knows its address yet.
\<close>

section \<open>Strings\<close>

fun strstr :: "string \<Rightarrow> string \<Rightarrow> string option" where
  "strstr [] needle = (if needle = [] then Some [] else None)"
| "strstr (c # cs) needle = (if take (length needle) (c # cs) = needle then Some (c # cs) else strstr cs needle)"

text \<open>
  The text behind the needle up to the next comma, at most \<open>maxlen\<close> characters; the NUL is written
  behind them, so the buffer must have one more.
\<close>

definition parseDnValues :: "string \<Rightarrow> string \<Rightarrow> nat \<Rightarrow> string option" where
  "parseDnValues hayStack needle maxlen = (case strstr hayStack needle of None \<Rightarrow> None
     | Some jStart \<Rightarrow> Some (take maxlen (takeWhile (\<lambda>c. c \<noteq> CHR '','') (drop (length needle) jStart))))"

definition parse_into :: "nat \<Rightarrow> string \<Rightarrow> string \<Rightarrow> string option ntfp" where
  "parse_into len hayStack needle = (case parseDnValues hayStack needle len of None \<Rightarrow> return None
     | Some r \<Rightarrow> if length r < len then return (Some r) else die Overflow)"

text \<open>\<open>strncmp (s, t, strlen (t)) == 0\<close>.\<close>

definition starts_with :: "string \<Rightarrow> string \<Rightarrow> bool" where
  "starts_with s t \<longleftrightarrow> take (length t) s = t"

section \<open>Additional information\<close>

definition convertTo3Gpp :: "outside \<Rightarrow> string \<Rightarrow> string option ntfp" where
  "convertTo3Gpp E n = bnd (call E (Ntf (ConvertTo3Gpp n))) (\<lambda>a. return (a_text a))"

text \<open>
  The name \<open>3GPP...\<close> is already one of COM: its rest is copied to a buffer of \<open>saNameMaxLenNtf()\<close>
  bytes, at most 5 less, and ended at its full length.
\<close>

definition convertTo3GPPDN :: "outside \<Rightarrow> string \<Rightarrow> string option ntfp" where
  "convertTo3GPPDN E no =
     (if 4 \<le> length no \<and> starts_with no ''3GPP'' then bnd saNameMaxLenNtf (\<lambda>mx.
        let rest = drop 4 no in
        if mx \<le> length rest then die Overflow
        else if mx - 5 < length rest then die Uninit
        else return (Some rest))
      else convertTo3Gpp E no)"

definition getAdditionalInfoName :: "outside \<Rightarrow> handle \<Rightarrow> SaNtfAdditionalInfoT \<Rightarrow> string option ntfp" where
  "getAdditionalInfoName E h nextAddInfo =
     (if infoType nextAddInfo = SA_NTF_VALUE_STRING then
        bnd (call E (Ntf (SaNtfPtrValGet h (infoValue nextAddInfo)))) (\<lambda>a.
        return (if a_rc a = SA_AIS_OK then a_text a else None))
      else if infoType nextAddInfo = SA_NTF_VALUE_LDAP_NAME then
        bnd (call E (Ntf (SaNtfPtrValGet h (infoValue nextAddInfo)))) (\<lambda>a.
        if a_rc a = SA_AIS_OK then (case a_text a of None \<Rightarrow> return None | Some n \<Rightarrow> convertTo3Gpp E n)
        else return None)
      else return None)"

definition is_uuid :: "SaNtfAdditionalInfoT \<Rightarrow> bool" where
  "is_uuid i \<longleftrightarrow> infoId i = UUID \<and> infoType i = SA_NTF_VALUE_STRING"

definition isUUIDAlarm :: "SaNtfNotificationHeaderT \<Rightarrow> SaNtfAdditionalInfoT \<Rightarrow> bool" where
  "isUUIDAlarm nh i \<longleftrightarrow> is_uuid i \<and> vendorId nh = ERICSSON_VENDOR_ID"

primrec copy_infos :: "outside \<Rightarrow> handle \<Rightarrow> SaNtfNotificationHeaderT \<Rightarrow> UuidCfg \<Rightarrow> SaNtfAdditionalInfoT list \<Rightarrow>
    (string \<times> string) list ntfp" where
  "copy_infos E h nh cfg [] = return []"
| "copy_infos E h nh cfg (i # is) =
     (if cfg = UuidMapValueToAddText \<and> isUUIDAlarm nh i then copy_infos E h nh cfg is
      else bnd (getAdditionalInfoName E h i) (\<lambda>strValue.
        bnd (copy_infos E h nh cfg is) (\<lambda>rest.
        return ((if cfg = UuidMapToAddInfoName \<and> isUUIDAlarm nh i then ''uuid'' else [],
                 case strValue of None \<Rightarrow> [] | Some v \<Rightarrow> v) # rest))))"

definition copyAdditionalInfo :: "outside \<Rightarrow> SaNtfNotificationHeaderT \<Rightarrow> handle \<Rightarrow>
    MafOamSpiNotificationFmStruct_4T \<Rightarrow> MafOamSpiNotificationFmStruct_4T ntfp" where
  "copyAdditionalInfo E nh h comNot = bnd (gets uuid_cfg_flag) (\<lambda>cfg.
     bnd (copy_infos E h nh cfg (nh_additionalInfo nh)) (\<lambda>infos.
     return (comNot\<lparr>additionalInfo := infos\<rparr>)))"

text \<open>
  The identifiers are collected in a buffer: behind the header each of at most 36 characters and a
  comma.  The last comma becomes the NUL.
\<close>

primrec collect_uuids :: "outside \<Rightarrow> handle \<Rightarrow> nat \<Rightarrow> SaNtfAdditionalInfoT list \<Rightarrow> string \<Rightarrow> string ntfp" where
  "collect_uuids E h space [] dest = return dest"
| "collect_uuids E h space (i # is) dest =
     (if \<not> is_uuid i then collect_uuids E h space is dest
      else bnd (getAdditionalInfoName E h i) (\<lambda>strValue. case strValue of None \<Rightarrow> collect_uuids E h space is dest
        | Some v \<Rightarrow>
            if length v \<le> UUID_LENGTH then
              if length dest + length v + 1 \<le> space then collect_uuids E h space is (dest @ v @ '','')
              else die Overflow
            else collect_uuids E h space is dest))"

definition getUUIDFromAdditionalInfo :: "outside \<Rightarrow> SaNtfNotificationHeaderT \<Rightarrow> handle \<Rightarrow> string option ntfp" where
  "getUUIDFromAdditionalInfo E nh h = bnd (gets uuid_cfg_flag) (\<lambda>cfg.
     if cfg = UuidMapValueToAddText \<and> vendorId nh = ERICSSON_VENDOR_ID then
       let iNumUUIDInfo = length (filter is_uuid (nh_additionalInfo nh)) in
       if 0 < iNumUUIDInfo then
         bnd (collect_uuids E h (iNumUUIDInfo * (UUID_LENGTH + 1)) (nh_additionalInfo nh) []) (\<lambda>dest.
         return (if dest \<noteq> [] then Some (UUID_ADDTEXT_HEADER @ butlast dest) else None))
       else return None
     else return None)"

end
