(* ===== verification/NtfPm.thy ===== *)
theory NtfPm
  imports NtfConvert
begin

text \<open>
  The notification service (\<open>ntf/ComSANtf.c\<close>), part 3: the alarms of performance measurement.
  Such a notification names a job and a type of measurement; the alarm to be sent, the reader of
  the measurement and the direction of the threshold are looked up in the information model.
  The two handles of the information model are obtained again when the service does not know
  them, so the functions below give back the handles to go on with.
\<close>

section \<open>Reading attributes\<close>

definition reInitializeBadHandler :: "outside \<Rightarrow> handle \<Rightarrow> handle \<Rightarrow> (SaAisErrorT \<times> handle \<times> handle) ntfp" where
  "reInitializeBadHandler E om acc =
     andthen (do_call E (SaImmOmAccessorFinalize acc))
    (andthen (do_call E (SaImmOmFinalize om))
    (bnd (call E (SaImmOmInitialize 0 imm_version)) (\<lambda>a.
     if a_rc a \<noteq> SA_AIS_OK then return (a_rc a, om, acc)
     else bnd (call E (SaImmOmAccessorInitialize (a_handle a))) (\<lambda>b.
       return (a_rc b, a_handle a, if a_rc b = SA_AIS_OK then a_handle b else acc)))))"

definition try_again_or_busy :: "SaAisErrorT \<Rightarrow> bool" where
  "try_again_or_busy rc \<longleftrightarrow> rc = SA_AIS_ERR_TRY_AGAIN \<or> rc = SA_AIS_ERR_BUSY"

definition getMOAttributesRetry :: "outside \<Rightarrow> handle \<Rightarrow> handle \<Rightarrow> string \<Rightarrow> string list \<Rightarrow>
    (MafReturnT \<times> handle \<times> handle \<times> imm_attr list option) ntfp" where
  "getMOAttributesRetry E om acc objectName attributeNames =
     bnd (call E (SaImmOmAccessorGet_2 acc objectName attributeNames)) (\<lambda>a.
     bnd (if a_rc a = SA_AIS_ERR_BAD_HANDLE then
            bnd (reInitializeBadHandler E om acc) (\<lambda>(rc, om, acc).
            if rc = SA_AIS_OK then bnd (call E (SaImmOmAccessorGet_2 acc objectName attributeNames)) (\<lambda>a. return (a, om, acc))
            else return (a, om, acc))
          else return (a, om, acc)) (\<lambda>(a, om, acc).
     bnd (more_tries E try_again_or_busy (Usleep 1000) (SaImmOmAccessorGet_2 acc objectName attributeNames)
            OAM_SA_NTF_MAX_RETRIES a) (\<lambda>a.
     return (if a_rc a \<noteq> SA_AIS_OK then MafFailure else MafOk, om, acc, a_attrs a))))"

text \<open>The first value of the first attribute, if this is the one asked for.\<close>

definition direction_in :: "imm_attr list option \<Rightarrow> 32 word \<Rightarrow> 32 word ntfp" where
  "direction_in attrs d = (case attrs of None \<Rightarrow> die Wild
     | Some [] \<Rightarrow> return d
     | Some (a # _) \<Rightarrow>
         if starts_with (attrName a) ''thresholdDirection'' then
           (case attrValues a of [] \<Rightarrow> return d | VInt32 x # _ \<Rightarrow> return x | _ \<Rightarrow> die Wild)
         else return d)"

definition getThresholdDirection :: "outside \<Rightarrow> handle \<Rightarrow> handle \<Rightarrow> string \<Rightarrow> string \<Rightarrow> string \<Rightarrow>
    (MafReturnT \<times> handle \<times> handle \<times> 32 word) ntfp" where
  "getThresholdDirection E om acc thePmJobName theMeasReaderId measTypeIMMDn =
     bnd (saNameSet (''measurementReaderId='' @ theMeasReaderId @ '',pmJobId='' @ thePmJobName @ '',CmwPmpmId=1'')) (\<lambda>dn.
     bnd (getMOAttributesRetry E om acc dn [''thresholdDirection'']) (\<lambda>(ret, om, acc, attrs).
     if ret \<noteq> MafOk then return (MafFailure, om, acc, 3)
     else bnd (direction_in attrs 3) (\<lambda>d.
     if d \<noteq> 3 then return (MafOk, om, acc, d)
     else bnd (getMOAttributesRetry E om acc measTypeIMMDn [''thresholdDirection'']) (\<lambda>(ret, om, acc, attrs).
       if ret \<noteq> MafOk then return (MafFailure, om, acc, d)
       else bnd (direction_in attrs d) (\<lambda>d. return (MafOk, om, acc, d))))))"

section \<open>Finding the reader of the measurement\<close>

definition SA_IMM_SUBTREE :: nat where "SA_IMM_SUBTREE = 3"
definition reader_search_options :: nat where "reader_search_options = 0x0101"

text \<open>
  One object found below the job: is it the specification that refers to the type of
  measurement?  Then its name has the identifier of the reader.
\<close>

primrec reader_in :: "string \<Rightarrow> string \<Rightarrow> imm_attr list \<Rightarrow> string option ntfp" where
  "reader_in objectName measTypeDn [] = return None"
| "reader_in objectName measTypeDn (oneAttr # attrs) =
     (if starts_with (attrName oneAttr) ''measurementTypeRef'' \<and> attrValueType oneAttr = SA_IMM_ATTR_SANAMET then
        (case attrValues oneAttr of
           VName n # _ \<Rightarrow>
             if starts_with n measTypeDn then bnd saNameMaxLen (\<lambda>mx.
               bnd (parse_into mx objectName ''measurementReaderId='') (\<lambda>r. case r of
                 Some reader \<Rightarrow> return (Some reader)
               | None \<Rightarrow> reader_in objectName measTypeDn attrs))
             else reader_in objectName measTypeDn attrs
         | _ \<Rightarrow> die Wild)
      else reader_in objectName measTypeDn attrs)"

definition search_init :: "outside \<Rightarrow> handle \<Rightarrow> string \<Rightarrow> answer ntfp" where
  "search_init E om root = call E (SaImmOmSearchInitialize_2 om (Some root) SA_IMM_SUBTREE reader_search_options None [])"

text \<open>At most three attempts; there is a pause after each that fails.\<close>

primrec search_attempts :: "nat \<Rightarrow> outside \<Rightarrow> handle \<Rightarrow> string \<Rightarrow> answer ntfp" where
  "search_attempts 0 E om root = bnd (search_init E om root) (\<lambda>a.
     if a_rc a = SA_AIS_OK then return a else andthen (do_call E (Usleep OAM_SA_RETRY_SLEEP)) (return a))"
| "search_attempts (Suc n) E om root = bnd (search_init E om root) (\<lambda>a.
     if a_rc a = SA_AIS_OK then return a
     else andthen (do_call E (Usleep OAM_SA_RETRY_SLEEP))
       (if a_rc a = SA_AIS_ERR_TRY_AGAIN then search_attempts n E om root else return a))"

text \<open>
  The loop over the objects found: \<open>Inl r\<close> is the result.  The search is finalized only when a
  result is there; when no more object is found it is not.
\<close>

definition search_step :: "outside \<Rightarrow> handle \<Rightarrow> string \<Rightarrow> answer \<Rightarrow> (string option + answer) ntfp" where
  "search_step E sh measTypeDn a =
     bnd (more_tries E (\<lambda>rc. rc = SA_AIS_ERR_TRY_AGAIN) (Usleep OAM_SA_RETRY_SLEEP) (SaImmOmSearchNext_2 sh) 2 a) (\<lambda>a.
     if a_rc a \<noteq> SA_AIS_OK then andthen (do_call E (SaImmOmSearchFinalize sh)) (return (Inl None))
     else case a_attrs a of None \<Rightarrow> die Wild
     | Some attrs \<Rightarrow> bnd (reader_in (case a_text a of None \<Rightarrow> [] | Some n \<Rightarrow> n) measTypeDn attrs) (\<lambda>r. case r of
           Some reader \<Rightarrow> andthen (do_call E (SaImmOmSearchFinalize sh)) (return (Inl (Some reader)))
         | None \<Rightarrow> bnd (call E (SaImmOmSearchNext_2 sh)) (\<lambda>a. return (Inr a))))"

definition findThatEcimMeasReader :: "outside \<Rightarrow> handle \<Rightarrow> string \<Rightarrow> string \<Rightarrow> string option ntfp" where
  "findThatEcimMeasReader E om ecimMeasTypeDn theJobName =
     (if theJobName = [] then die Assert
      else bnd saNameMaxLen (\<lambda>mx.
        bnd (saNameSet (take (mx - 1) (''pmJobId='' @ theJobName @ '',CmwPmpmId=1''))) (\<lambda>theEcimPmJobId.
        bnd (search_attempts 2 E om theEcimPmJobId) (\<lambda>s.
        if a_rc s \<noteq> SA_AIS_OK then return None
        else bnd (call E (SaImmOmSearchNext_2 (a_handle s))) (\<lambda>a.
          bnd (while_prog (\<lambda>r. case r of Inl _ \<Rightarrow> False | Inr a \<Rightarrow> a_rc a = SA_AIS_OK \<or> a_rc a = SA_AIS_ERR_TRY_AGAIN)
                 (\<lambda>r. case r of Inl x \<Rightarrow> return (Inl x) | Inr a \<Rightarrow> search_step E (a_handle s) ecimMeasTypeDn a)
                 (Inr a)) (\<lambda>r.
          return (case r of Inl x \<Rightarrow> x | Inr a \<Rightarrow> None)))))))"

section \<open>The additional text\<close>

text \<open>
  \<open>getThresholdInfoData\<close> and \<open>formatAdditionalText\<close> of \<open>utils/saname_utils.cc\<close>.  The numbers of 8 bits are
  written as characters, because their C++ types are character types; a NUL ends the text.
\<close>

definition decimal_int :: "int \<Rightarrow> string" where
  "decimal_int i = (if i < 0 then ''-'' @ decimal (nat (- i)) else decimal (nat i))"

definition one_char :: "8 word \<Rightarrow> string" where
  "one_char w = (if w = 0 then [] else [char_of (unat w)])"

fun value_text :: "threshold_value \<Rightarrow> string" where
  "value_text (Uint8Val w) = one_char w"
| "value_text (Int8Val w) = one_char w"
| "value_text (Uint16Val w) = decimal (unat w)"
| "value_text (Int16Val w) = decimal_int (sint w)"
| "value_text (Uint32Val w) = decimal (unat w)"
| "value_text (Int32Val w) = decimal_int (sint w)"
| "value_text (Uint64Val w) = decimal (unat w)"
| "value_text (Int64Val w) = decimal_int (sint w)"
| "value_text (FloatVal s) = s"
| "value_text (DoubleVal s) = s"
| "value_text OtherVal = []"

definition getThresholdInfoData :: "SaNtfThresholdInformationT option \<Rightarrow> string \<times> string" where
  "getThresholdInfoData t = (case t of None \<Rightarrow> ([], [])
     | Some i \<Rightarrow> (value_text (observedValue i), value_text (thresholdValue i)))"

definition formatAdditionalText :: "SaNtfThresholdInformationT option \<Rightarrow> string option \<Rightarrow> 32 word \<Rightarrow> string \<Rightarrow> string" where
  "formatAdditionalText t measurementTypeDn thresholdDirection moInstance =
     (let (observed, threshold) = getThresholdInfoData t in
      ''Observed value: '' @ observed @ ''; Threshold level: '' @ threshold @ ''; MeasurementType: '' @
      (case measurementTypeDn of None \<Rightarrow> [] | Some d \<Rightarrow> d) @ ''; Threshold Direction: '' @
      (if thresholdDirection = 2 then ''DECREASING'' else ''INCREASING'') @ ''; MO instance: '' @ moInstance)"

section \<open>The conversion\<close>

text \<open>
  The three attributes that describe the alarm come in any order.  When one of the two
  numbers has another type, the message about it reads the entry number -1.
\<close>

fun alarm_codes :: "imm_attr list \<Rightarrow> 32 word \<times> 32 word \<times> string option \<Rightarrow> (32 word \<times> 32 word \<times> string option) option ntfp" where
  "alarm_codes [] codes = return (Some codes)"
| "alarm_codes (a # as) (majAlarm, minAlarm, addText) =
     (if starts_with (attrName a) ''majorType'' then
        (case (attrValueType a, attrValues a) of
           (SA_IMM_ATTR_SAUINT32T, VUint32 x # _) \<Rightarrow> alarm_codes as (x, minAlarm, addText) | _ \<Rightarrow> die Wild)
      else if starts_with (attrName a) ''minorType'' then
        (case (attrValueType a, attrValues a) of
           (SA_IMM_ATTR_SAUINT32T, VUint32 x # _) \<Rightarrow> alarm_codes as (majAlarm, x, addText) | _ \<Rightarrow> die Wild)
      else if attrValueType a \<noteq> SA_IMM_ATTR_SASTRINGT then return None
      else (case attrValues a of
           [] \<Rightarrow> alarm_codes as (majAlarm, minAlarm, addText)
         | VString s # _ \<Rightarrow> alarm_codes as (majAlarm, minAlarm, Some s)
         | _ \<Rightarrow> die Wild))"

text \<open>
  The handles, with their attempts.  Each attempt asks for the version the one before left.
  \<open>None\<close>: no handle is left.
\<close>

primrec om_tries :: "nat \<Rightarrow> outside \<Rightarrow> answer \<Rightarrow> answer ntfp" where
  "om_tries 0 E a = return a"
| "om_tries (Suc n) E a = (if try_again_or_busy (a_rc a) then
     andthen (do_call E (Usleep OAM_SA_RETRY_SLEEP)) (bnd (call E (SaImmOmInitialize 0 (a_version a))) (om_tries n E))
     else return a)"

definition pm_handles :: "outside \<Rightarrow> (handle \<times> handle) option ntfp" where
  "pm_handles E =
     bnd (call E (SaImmOmInitialize 0 imm_version)) (\<lambda>a.
     bnd (om_tries OAM_SA_NTF_MAX_RETRIES E a) (\<lambda>a.
     if a_rc a \<noteq> SA_AIS_OK then return None
     else bnd (call E (SaImmOmAccessorInitialize (a_handle a))) (\<lambda>b.
       bnd (more_tries E (\<lambda>rc. rc = SA_AIS_ERR_TRY_AGAIN) (Usleep 1000) (SaImmOmAccessorInitialize (a_handle a))
              OAM_SA_NTF_MAX_RETRIES b) (\<lambda>b.
       if a_rc b \<noteq> SA_AIS_OK then andthen (do_call E (SaImmOmFinalize (a_handle a))) (return None)
       else return (Some (a_handle a, a_handle b))))))"

definition pm_release :: "outside \<Rightarrow> handle \<Rightarrow> handle \<Rightarrow> 'a \<Rightarrow> 'a ntfp" where
  "pm_release E om acc r = andthen (do_call E (SaImmOmAccessorFinalize acc))
     (andthen (do_call E (SaImmOmFinalize om)) (return r))"

text \<open>The name of the alarm to be sent, and whether it is the general one.\<close>

definition alarm_type :: "imm_value list \<Rightarrow> (string \<times> bool) ntfp" where
  "alarm_type vs = (case vs of
       [] \<Rightarrow> bnd (saNameSet PM_THRESHOLD_FMALARMTYPE_DN) (\<lambda>dn. return (dn, True))
     | VName n # _ \<Rightarrow> bnd (saNameSet n) (\<lambda>dn.
         if dn = ''0'' \<or> dn = [] then bnd (saNameSet PM_THRESHOLD_FMALARMTYPE_DN) (\<lambda>dn. return (dn, True))
         else return (dn, dn = PM_THRESHOLD_FMALARMTYPE_DN))
     | _ \<Rightarrow> die Wild)"

text \<open>The text of the general alarm; it may take new handles.\<close>

definition generic_text :: "outside \<Rightarrow> handle \<Rightarrow> handle \<Rightarrow> SaNtfNotificationsT \<Rightarrow> string \<Rightarrow> string \<Rightarrow> string \<Rightarrow>
    (MafReturnT \<times> handle \<times> handle \<times> string option) ntfp" where
  "generic_text E om acc n text thePmJobName theMeasReaderId =
     bnd (saNameSet text) (\<lambda>ntfAddText.
     bnd (getThresholdDirection E om acc thePmJobName theMeasReaderId ntfAddText) (\<lambda>(ret, om, acc, d).
     if ret \<noteq> MafOk then return (ret, om, acc, None)
     else bnd (convertTo3Gpp E ntfAddText) (\<lambda>measTypeDn.
       return (MafOk, om, acc, Some (formatAdditionalText
         (if notificationType n = SA_NTF_TYPE_SECURITY_ALARM then None else thresholdInformation n)
         measTypeDn d (notificationObject (notificationHeader n)))))))"

definition convertPmThresholdHeader4 :: "outside \<Rightarrow> SaNtfNotificationsT \<Rightarrow> MafOamSpiNotificationFmStruct_4T \<Rightarrow>
    (MafReturnT \<times> MafOamSpiNotificationFmStruct_4T) ntfp" where
  "convertPmThresholdHeader4 E n comNot =
     (let nh = notificationHeader n in
      bnd saNameMaxLenNtf (\<lambda>mx.
      bnd (parse_into mx (notifyingObject nh) ([CHR 0x5C] @ '',safPm=1,safJob='')) (\<lambda>job. case job of None \<Rightarrow> return (MafInvalidArgument, comNot)
      | Some thePmJobName \<Rightarrow>
      bnd (pm_handles E) (\<lambda>hs. case hs of None \<Rightarrow> return (MafFailure, comNot)
      | Some (om, acc) \<Rightarrow>
      case nh_additionalText nh of None \<Rightarrow> die Wild
      | Some text \<Rightarrow>
      if text = [] then pm_release E om acc (MafInvalidArgument, comNot)
      else bnd (saNameSet text) (\<lambda>ecimMeasTypeDN.
      bnd (getMOAttributesRetry E om acc ecimMeasTypeDN [''fmAlarmType'']) (\<lambda>(ret, om, acc, attrs).
      if ret \<noteq> MafOk then pm_release E om acc (MafFailure, comNot)
      else case attrs of None \<Rightarrow> die Wild | Some [] \<Rightarrow> die Assert
      | Some (oneAttr # _) \<Rightarrow>
      if attrValueType oneAttr \<noteq> SA_IMM_ATTR_SANAMET then pm_release E om acc (MafFailure, comNot)
      else bnd (alarm_type (attrValues oneAttr)) (\<lambda>(alarmDn, isGeneric).
      bnd (getMOAttributesRetry E om acc alarmDn [''majorType'', ''minorType'', ''additionalText'']) (\<lambda>(ret, om, acc, codes).
      if ret \<noteq> MafOk then pm_release E om acc (MafFailure, comNot)
      else case codes of None \<Rightarrow> die Wild
      | Some as \<Rightarrow>
      if length as < 3 then die Assert
      else bnd (alarm_codes (take 3 as) (0, 0, None)) (\<lambda>c. case c of None \<Rightarrow> pm_release E om acc (MafFailure, comNot)
      | Some (majAlarm, minAlarm, addText) \<Rightarrow>
      bnd (findThatEcimMeasReader E om ecimMeasTypeDN thePmJobName) (\<lambda>reader. case reader of
        None \<Rightarrow> pm_release E om acc (MafFailure, comNot)
      | Some theMeasReaderId \<Rightarrow>
      let comNot = comNot\<lparr>fm_dn := Some (''ManagedElement=1,SystemFunctions=1,Pm=1,PmJob='' @ thePmJobName @
            '',MeasurementReader='' @ theMeasReaderId @ '':'' @ notificationObject nh)\<rparr> in
      bnd (if isGeneric then generic_text E om acc n text thePmJobName theMeasReaderId
           else return (MafOk, om, acc, addText)) (\<lambda>(ret, om, acc, addText).
      if ret \<noteq> MafOk then pm_release E om acc (ret, comNot)
      else bnd (copyAdditionalInfo E nh (notificationHandle n)
             (comNot\<lparr>additionalText := Some (case addText of None \<Rightarrow> [] | Some t \<Rightarrow> t),
                eventTime := nh_eventTime nh, majorType := majAlarm, minorType := minAlarm\<rparr>)) (\<lambda>comNot.
        pm_release E om acc (MafOk, comNot)))))))))))))"

end
