(* ===== verification/NtfHeader.thy ===== *)
theory NtfHeader
  imports NtfPm
begin

text \<open>
  The notification service (\<open>ntf/ComSANtf.c\<close>), part 4: whole alarms, from the notification service
  to COM (\<open>convertHeader4\<close>) and from COM to the notification service
  (\<open>convertMafHeader4ToNtf\<close>, \<open>comsaNotify4\<close>).
\<close>

section \<open>To COM\<close>

definition SA_NTF_VENDOR_ID_SAF :: "32 word" where "SA_NTF_VENDOR_ID_SAF = 18568"

definition is_pm_threshold :: "SaNtfNotificationHeaderT \<Rightarrow> bool" where
  "is_pm_threshold nh \<longleftrightarrow> vendorId nh = SA_NTF_VENDOR_ID_SAF \<and> majorId nh = 20 \<and> minorId nh = 1"

definition alarm_text :: "outside \<Rightarrow> SaNtfNotificationsT \<Rightarrow> string option ntfp" where
  "alarm_text E n = (case nh_additionalText (notificationHeader n) of None \<Rightarrow> return None
     | Some t \<Rightarrow> bnd (gets uuid_cfg_flag) (\<lambda>cfg.
         if cfg = UuidMapValueToAddText then
           bnd (getUUIDFromAdditionalInfo E (notificationHeader n) (notificationHandle n)) (\<lambda>u.
           return (Some (case u of None \<Rightarrow> t | Some uuidList \<Rightarrow> t @ uuidList)))
         else return (Some t)))"

definition legacy_header :: "outside \<Rightarrow> SaNtfNotificationsT \<Rightarrow> MafOamSpiNotificationFmStruct_4T \<Rightarrow>
    (MafReturnT \<times> MafOamSpiNotificationFmStruct_4T) ntfp" where
  "legacy_header E n comNot =
     (let nh = notificationHeader n; comNot = comNot\<lparr>eventTime := nh_eventTime nh\<rparr> in
      bnd (gets mafSpiNtfFmVersion) (\<lambda>v.
      bnd (if v \<noteq> 3 then copyAdditionalInfo E nh (notificationHandle n) comNot else return comNot) (\<lambda>comNot.
      bnd (alarm_text E n) (\<lambda>t.
      let comNot = comNot\<lparr>additionalText := t\<rparr> in
      bnd (convertTo3GPPDN E (notificationObject nh)) (\<lambda>dn. case dn of
          None \<Rightarrow> return (MafNoResources, comNot)
        | Some d \<Rightarrow> return (MafOk, comNot\<lparr>fm_dn := Some d, majorType := vendorId nh,
            minorType := push_bit 16 (ucast (majorId nh)) OR ucast (minorId nh)\<rparr>))))))"

definition convertHeader4 :: "outside \<Rightarrow> SaNtfNotificationsT \<Rightarrow> MafOamSpiNotificationFmStruct_4T \<Rightarrow>
    (MafReturnT \<times> MafOamSpiNotificationFmStruct_4T) ntfp" where
  "convertHeader4 E n comNot = bnd (gets nFilter_V4) (\<lambda>f.
     if filter_of f = None then return (MafNotExist, comNot)
     else if is_pm_threshold (notificationHeader n) then
       bnd (convertPmThresholdHeader4 E n comNot) (\<lambda>(rc, comNot).
       if rc = MafOk then return (rc, comNot) else legacy_header E n comNot)
     else legacy_header E n comNot)"

section \<open>From COM\<close>

text \<open>
  \<open>removeMOMPrefix\<close> of \<open>motransaction/OamSACache.cc\<close> writes into a buffer of \<open>room\<close> bytes: the
  characters of the new name, and a NUL one byte further than their end.
\<close>

datatype dn_status = DN_LMID string | DN_IMM

definition find_text :: "string \<Rightarrow> string \<Rightarrow> string option" where
  "find_text s needle = map_option (drop (length needle)) (strstr s needle)"

definition removeMOMPrefix :: "string \<Rightarrow> nat \<Rightarrow> dn_status ntfp" where
  "removeMOMPrefix immDn room = (case find_text immDn ''licenseId='' of
       None \<Rightarrow> return DN_IMM
     | Some v \<Rightarrow>
         if CHR ''='' \<in> set v then return DN_IMM
         else let s = ''licenseId='' @ v @ '',lmId=1,systemFunctionsId=1'' in
           if length s + 1 < room then return (DN_LMID s) else die Overflow)"

definition convertToImm :: "outside \<Rightarrow> string \<Rightarrow> string option ntfp" where
  "convertToImm E dn = bnd (call E (Ntf (ConvertToImm dn))) (\<lambda>a. return (a_text a))"

text \<open>The object names; \<open>None\<close> when the name cannot be converted.\<close>

definition alarm_objects :: "outside \<Rightarrow> string \<Rightarrow> SaNtfNotificationHeaderT \<Rightarrow> SaNtfNotificationHeaderT option ntfp" where
  "alarm_objects E dn nh = bnd (gets cc_name) (\<lambda>cc.
     if cc = ''lm'' then
       let nh = nh\<lparr>nh_eventType := SA_NTF_ALARM_QOS\<rparr> in
       bnd (removeMOMPrefix dn (length dn + 1)) (\<lambda>st.
       bnd (case st of
           DN_IMM \<Rightarrow> convertToImm E dn
         | DN_LMID immDn \<Rightarrow> bnd (saNameSet immDn) (\<lambda>n. return (Some n))) (\<lambda>no.
       bnd (saNameSet ''lmId=1'') (\<lambda>by.
       return (map_option (\<lambda>n. nh\<lparr>notificationObject := n, notifyingObject := by\<rparr>) no))))
     else
       let nh = nh\<lparr>nh_eventType := SA_NTF_TYPE_ALARM\<rparr> in
       bnd (convertToImm E dn) (\<lambda>no.
       bnd (saNameSet (case no of Some n \<Rightarrow> n | None \<Rightarrow> notificationObject nh)) (\<lambda>by.
       return (map_option (\<lambda>n. nh\<lparr>notificationObject := n, notifyingObject := by\<rparr>) no))))"

text \<open>
  Additional information goes into the array the library allocated, \<open>room\<close> entries long; each
  value is copied to memory asked for it.  \<open>None\<close>: the library has no such memory.
\<close>

primrec put_infos :: "outside \<Rightarrow> handle \<Rightarrow> nat \<Rightarrow> (string \<times> string) list \<Rightarrow> SaNtfAdditionalInfoT list option ntfp" where
  "put_infos E h room [] = return (Some [])"
| "put_infos E h room (i # is) =
     (if room = 0 then die Overflow
      else bnd (call E (Ntf (SaNtfPtrValAllocate h (length (snd i) + 1)))) (\<lambda>a.
        if a_rc a \<noteq> SA_AIS_OK then return None
        else andthen (do_call E (Ntf (NtfPtrWrite (nat (a_num a)) (snd i))))
          (bnd (put_infos E h (room - 1) is) (\<lambda>rest.
           return (map_option (\<lambda>r. \<lparr>infoId = 20, infoType = SA_NTF_VALUE_STRING, infoValue = nat (a_num a)\<rparr> # r) rest)))))"

definition fill_header :: "MafOamSpiNotificationFmStruct_4T \<Rightarrow> SaNtfNotificationHeaderT \<Rightarrow> SaNtfNotificationHeaderT" where
  "fill_header comNot nh = nh\<lparr>
     vendorId := majorType comNot,
     majorId := ucast (minorType comNot div 65536),
     minorId := ucast (minorType comNot mod 65536),
     nh_eventTime := eventTime comNot,
     nh_additionalText := (case additionalText comNot of None \<Rightarrow> nh_additionalText nh | Some t \<Rightarrow> Some t)\<rparr>"

definition convertMafHeader4ToNtf :: "outside \<Rightarrow> MafOamSpiNotificationFmStruct_4T \<Rightarrow> SaNtfNotificationHeaderT \<Rightarrow> handle \<Rightarrow>
    (MafReturnT \<times> SaNtfNotificationHeaderT) ntfp" where
  "convertMafHeader4ToNtf E comNot nh h = (case fm_dn comNot of None \<Rightarrow> return (MafFailure, nh)
     | Some dn \<Rightarrow> bnd (alarm_objects E dn nh) (\<lambda>o1. case o1 of None \<Rightarrow> return (MafFailure, nh)
     | Some nh \<Rightarrow>
         if (case additionalText comNot of None \<Rightarrow> False | Some t \<Rightarrow> 65536 \<le> length t + 1) then die Overflow
         else let nh = fill_header comNot nh in
         bnd (gets mafSpiNtfFmVersion) (\<lambda>v.
         if v = 3 then return (MafOk, nh\<lparr>nh_additionalInfo := []\<rparr>)
         else bnd (put_infos E h (length (additionalInfo comNot) mod 65536) (additionalInfo comNot)) (\<lambda>is. case is of
             None \<Rightarrow> return (MafFailure, nh)
           | Some is \<Rightarrow> return (MafOk, nh\<lparr>nh_additionalInfo := is\<rparr>)))))"

text \<open>The event COM's router passes: the caller decides which structure the pointer points to.\<close>

datatype fm_value = Fm4 MafOamSpiNotificationFmStruct_4T | Fm2 MafOamSpiNotificationFmStruct_2T

definition from_fm2 :: "MafOamSpiNotificationFmStruct_2T \<Rightarrow> MafOamSpiNotificationFmStruct_4T" where
  "from_fm2 n = \<lparr>fm_dn = fm2_dn n, majorType = fm2_majorType n, minorType = fm2_minorType n,
     eventTime = fm2_eventTime n, additionalText = fm2_additionalText n, fm_severity = fm2_severity n, additionalInfo = []\<rparr>"

definition fm_value_4 :: "nat \<Rightarrow> fm_value \<Rightarrow> MafOamSpiNotificationFmStruct_4T ntfp" where
  "fm_value_4 version val = (case val of
       Fm4 n \<Rightarrow> if version = 3 then die Wild else return n
     | Fm2 n \<Rightarrow> if version = 3 then return (from_fm2 n) else die Wild)"

definition text_room :: "MafOamSpiNotificationFmStruct_4T \<Rightarrow> nat" where
  "text_room n = (case additionalText n of None \<Rightarrow> 0 | Some t \<Rightarrow> length t + 1)"

text \<open>\<open>strncmp (eventType, component, strlen (component) - 1) == 0\<close>.\<close>

definition comsaNotify4 :: "outside \<Rightarrow> handle \<Rightarrow> string option \<Rightarrow> ntf_filter option \<Rightarrow> fm_value option \<Rightarrow> MafReturnT ntfp" where
  "comsaNotify4 E h ty f val = (case (ty, f, val) of
     (Some ty, Some f, Some val) \<Rightarrow>
       if h = 0 then return MafInvalidArgument
       else bnd (gets mafSpiNtfFmVersion) (\<lambda>v.
         if \<not> starts_with ty (butlast (if v = 3 then FmEventComponent_3 else FmEventComponent_4)) then return MafInvalidArgument
         else bnd (fm_value_4 v val) (\<lambda>notification.
           bnd (gets ntfHandle) (\<lambda>nh.
           bnd (call E (Ntf (SaNtfAlarmNotificationAllocate nh (of_nat (text_room notification))
                  (of_nat (length (additionalInfo notification)))))) (\<lambda>a.
           if a_rc a \<noteq> SA_AIS_OK then return MafFailure
           else case a_ntf a of None \<Rightarrow> die Wild
           | Some ntfAlarm \<Rightarrow>
             bnd (convertMafHeader4ToNtf E notification (notificationHeader ntfAlarm) (notificationHandle ntfAlarm)) (\<lambda>(rc, hd).
             if rc \<noteq> MafOk then
               andthen (do_call E (Ntf (SaNtfNotificationFree (notificationHandle ntfAlarm)))) (return MafFailure)
             else case thresholdInformation ntfAlarm of None \<Rightarrow> die Wild
             | Some ti \<Rightarrow>
               bnd (gets cc_name) (\<lambda>cc.
               bnd (call E (Ntf (SaNtfNotificationSend (ntfAlarm\<lparr>notificationHeader := hd,
                      perceivedSeverity := fm_severity notification, probableCause := SA_NTF_UNSPECIFIED_REASON,
                      trend := if cc = ''lm'' then SA_NTF_TREND_NO_CHANGE else trend ntfAlarm,
                      thresholdInformation := Some (ti\<lparr>thresholdId := 0xFF\<rparr>)\<rparr>)))) (\<lambda>s.
               andthen (do_call E (Ntf (SaNtfNotificationFree (notificationHandle ntfAlarm))))
                 (return (if a_rc s \<noteq> SA_AIS_OK then MafFailure else MafOk)))))))))
   | _ \<Rightarrow> return MafInvalidArgument)"

definition comsaNotify :: "outside \<Rightarrow> handle \<Rightarrow> string option \<Rightarrow> ntf_filter option \<Rightarrow> fm_value option \<Rightarrow> MafReturnT ntfp" where
  "comsaNotify E h ty f val = comsaNotify4 E h ty f val"

end
