(* ===== verification/NtfAlarm.thy ===== *)
theory NtfAlarm
  imports NtfHeader
begin

text \<open>
  The notification service (\<open>ntf/ComSANtf.c\<close>), part 5: the way of an alarm to COM.  Two
  threads deliver alarms: the poll thread, in the call-back of the notification service, and
  the reader, which fetches the alarms that were raised while nobody subscribed.  While the reader
  is at work the call-back puts new alarms into a queue, which the reader sends last.

  The call-back is made of the parts between which the other thread can run: up to the decision,
  under the lock of the queue, and the rest.  The functions of the code are their compositions.
\<close>

section \<open>Sending and queueing\<close>

text \<open>The number of a notification, as the code computes it: the value of the pointer to the number.\<close>

definition getNotificationId :: "SaNtfNotificationsT \<Rightarrow> 64 word" where
  "getNotificationId n =
     (if notificationType n = SA_NTF_TYPE_ALARM \<or> notificationType n = SA_NTF_ALARM_QOS \<or>
         notificationType n = SA_NTF_TYPE_SECURITY_ALARM
      then notificationId_ptr (notificationHeader n) else 0)"

definition sendSaNtfNotification :: "outside \<Rightarrow> addr \<Rightarrow> unit ntfp" where
  "sendSaNtfNotification E comNot = bnd (addNotValue4 E comNot) (\<lambda>ne.
     bnd (gets event_router_MAF) (\<lambda>r.
     if \<not> r then return ()
     else bnd (get_vl ne) (\<lambda>ntfContainer. bnd (gets nFilter_V4) (\<lambda>f. bnd (gets producer_handle) (\<lambda>p.
       bnd (gets mafSpiNtfFmVersion) (\<lambda>v.
       if v = 4 then
         do_call E (Ntf (RouterNotify p (consumerHandle f) FmEventType_4 (filter_of f) (vl_comNot ntfContainer)))
       else if v = 3 then
         do_call E (Ntf (RouterNotify p (consumerHandle f) FmEventType_2 (filter_of f)
           (case vl_comNot_2 ntfContainer of None \<Rightarrow> 0 | Some b \<Rightarrow> b)))
       else return ()))))))"

definition get_ao :: "addr \<Rightarrow> AlarmObjectT ntfp" where
  "get_ao a = (\<lambda>w. case aos w a of None \<Rightarrow> die Wild w | Some n \<Rightarrow> return n w)"

definition set_ao :: "addr \<Rightarrow> AlarmObjectT \<Rightarrow> unit ntfp" where
  "set_ao a n = bnd (get_ao a) (\<lambda>old. modify (\<lambda>w. w\<lparr>aos := (aos w)(a \<mapsto> n)\<rparr>))"

definition free_ao :: "addr \<Rightarrow> unit ntfp" where
  "free_ao a = bnd (get_ao a) (\<lambda>n. modify (\<lambda>w. w\<lparr>aos := (aos w)(a := None)\<rparr>))"

definition push_alarm :: "addr \<Rightarrow> unit ntfp" where
  "push_alarm comNot = bnd (gets next_addr) (\<lambda>newAlarm.
     andthen (modify (\<lambda>w. w\<lparr>next_addr := Suc newAlarm,
       aos := (aos w)(newAlarm \<mapsto> \<lparr>ao_alarm = Some comNot, ao_next = None\<rparr>)\<rparr>))
    (bnd (gets alarmQueue) (\<lambda>q. case q of
       None \<Rightarrow> modify (\<lambda>w. w\<lparr>alarmQueue := Some newAlarm, alarmQueueFront := Some newAlarm\<rparr>)
     | Some l \<Rightarrow> bnd (get_ao l) (\<lambda>n.
         andthen (set_ao l (n\<lparr>ao_next := Some newAlarm\<rparr>))
           (modify (\<lambda>w. w\<lparr>alarmQueue := Some newAlarm\<rparr>))))))"

text \<open>
  One turn of the loop of \<open>sendQueuedAlarms\<close>, under the lock of the queue: \<open>True\<close> if it goes on.
\<close>

definition drain_one :: "outside \<Rightarrow> bool ntfp" where
  "drain_one E =
     andthen (do_call E (Ntf (MutexLock AlarmQueueLock)))
    (bnd (gets alarmQueueFront) (\<lambda>q. case q of
       None \<Rightarrow> andthen (modify (\<lambda>w. w\<lparr>readOldAlarm := False, alarmQueue := None\<rparr>))
         (andthen (do_call E (Ntf (MutexUnlock AlarmQueueLock))) (return False))
     | Some d \<Rightarrow> bnd (get_ao d) (\<lambda>n.
         andthen (case ao_alarm n of None \<Rightarrow> die Wild | Some a \<Rightarrow> sendSaNtfNotification E a)
        (andthen (modify (\<lambda>w. w\<lparr>alarmQueueFront := ao_next n\<rparr>))
        (andthen (free_ao d)
        (andthen (do_call E (Ntf (MutexUnlock AlarmQueueLock))) (return True)))))))"

definition drain_turn :: "outside \<Rightarrow> bool ntfp" where
  "drain_turn E = bnd (gets ntf_stop_thread) (\<lambda>s. if s then return False else drain_one E)"

definition sendQueuedAlarms :: "outside \<Rightarrow> unit ntfp" where
  "sendQueuedAlarms E = bnd (while_prog (\<lambda>go. go) (\<lambda>_. drain_turn E) True) (\<lambda>_. return ())"

section \<open>The call-back\<close>

text \<open>
  \<open>cmNotificationCallback\<close>: an overflow of configuration events, made here, or a conversion done
  elsewhere.  A notification of another type is not freed.
\<close>

definition cmNotificationCallback :: "outside \<Rightarrow> SaNtfNotificationsT \<Rightarrow> unit ntfp" where
  "cmNotificationCallback E n = bnd (gets ntf_stop_thread) (\<lambda>s.
     if s then return ()
     else andthen (do_call E (Ntf (MutexLock CmNotificationLock)))
       (andthen
         (case notificationType n of
            SA_NTF_TYPE_STATE_CHANGE \<Rightarrow> bnd (call E (Ntf GetTime)) (\<lambda>t.
              andthen (do_call E (Ntf (PushCmOverflow (a_handle t))))
                (do_call E (Ntf (SaNtfNotificationFree (notificationHandle n)))))
          | SA_NTF_TYPE_OBJECT_CREATE_DELETE \<Rightarrow> andthen (do_call E (Ntf (ConvertCMNotificationHeader n)))
                (do_call E (Ntf (SaNtfNotificationFree (notificationHandle n))))
          | SA_NTF_TYPE_ATTRIBUTE_CHANGE \<Rightarrow> andthen (do_call E (Ntf (ConvertCMNotificationHeader n)))
                (do_call E (Ntf (SaNtfNotificationFree (notificationHandle n))))
          | _ \<Rightarrow> return ())
         (do_call E (Ntf (MutexUnlock CmNotificationLock)))))"

datatype delivery =
    Ended              \<comment> \<open>the call-back has returned\<close>
  | SendNow addr       \<comment> \<open>\<open>sendSaNtfNotification\<close> comes next\<close>
  | AtQueue addr       \<comment> \<open>the lock of the queue comes next\<close>
  | Stored             \<comment> \<open>the alarm is in the queue\<close>
  | Dropped addr       \<comment> \<open>the alarm will be freed\<close>

definition fm_zero :: MafOamSpiNotificationFmStruct_4T where
  "fm_zero = \<lparr>fm_dn = None, majorType = 0, minorType = 0, eventTime = 0, additionalText = None, fm_severity = 0, additionalInfo = []\<rparr>"

definition is_alarm :: "SaNtfNotificationTypeT \<Rightarrow> bool" where
  "is_alarm t \<longleftrightarrow> t = SA_NTF_TYPE_ALARM \<or> t = SA_NTF_ALARM_QOS \<or> t = SA_NTF_TYPE_SECURITY_ALARM"

definition make_alarm :: "outside \<Rightarrow> SaNtfNotificationsT \<Rightarrow> addr \<Rightarrow> MafReturnT ntfp" where
  "make_alarm E n comNot =
     (if is_alarm (notificationType n) then
        bnd (get_fm comNot) (\<lambda>c. bnd (convertHeader4 E n c) (\<lambda>(rc, c).
        if rc \<noteq> MafOk \<and> rc \<noteq> MafNotExist then die Assert
        else andthen (modify (\<lambda>w. w\<lparr>fms := (fms w)(comNot \<mapsto> c\<lparr>fm_severity := perceivedSeverity n\<rparr>)\<rparr>)) (return rc)))
      else return MafOk)"

definition local_sub_id :: "outside \<Rightarrow> 32 word ntfp" where
  "local_sub_id E = andthen (mutex_lock E NotifyLock)
     (bnd (gets nFilter_V4) (\<lambda>f. andthen (mutex_unlock E NotifyLock) (return (subscriptionId f))))"

definition invalid_type :: "SaNtfNotificationTypeT \<Rightarrow> bool" where
  "invalid_type t \<longleftrightarrow> t = SA_NTF_TYPE_STATE_CHANGE \<or> t = SA_NTF_TYPE_OBJECT_CREATE_DELETE \<or> t = SA_NTF_TYPE_ATTRIBUTE_CHANGE"

definition callback_decide :: "outside \<Rightarrow> 32 word \<Rightarrow> SaNtfNotificationsT \<Rightarrow> delivery ntfp" where
  "callback_decide E sub n =
     (if sub = CM_NOTIFICATIONS_SUBS_ID then andthen (cmNotificationCallback E n) (return Ended)
      else bnd (alloc_fm fm_zero) (\<lambda>comNot.
        if invalid_type (notificationType n) then
          andthen (do_call E (Ntf (SaNtfNotificationFree (notificationHandle n))))
            (andthen (free_fm comNot) (return Ended))
        else bnd (make_alarm E n comNot) (\<lambda>maf_rc.
          bnd (local_sub_id E) (\<lambda>localSubId. bnd (gets readOldAlarmDone) (\<lambda>done.
          return (if localSubId \<noteq> 0 \<and> maf_rc = MafOk then
                    (if sub = 0 \<or> done then SendNow comNot else AtQueue comNot)
                  else Dropped comNot))))))"

definition callback_queue :: "outside \<Rightarrow> SaNtfNotificationsT \<Rightarrow> addr \<Rightarrow> delivery ntfp" where
  "callback_queue E n comNot =
     andthen (do_call E (Ntf (MutexLock AlarmQueueLock)))
    (bnd (gets readOldAlarm) (\<lambda>r.
     bnd (if \<not> r then andthen (modify (\<lambda>w. w\<lparr>callbackLastCmwNotificationID := getNotificationId n\<rparr>)) (return (SendNow comNot))
          else andthen (push_alarm comNot) (return Stored)) (\<lambda>d.
     andthen (do_call E (Ntf (MutexUnlock AlarmQueueLock))) (return d))))"

definition callback_finish :: "outside \<Rightarrow> SaNtfNotificationsT \<Rightarrow> delivery \<Rightarrow> unit ntfp" where
  "callback_finish E n d = (case d of
       Ended \<Rightarrow> return ()
     | _ \<Rightarrow> andthen (case d of SendNow a \<Rightarrow> sendSaNtfNotification E a | Dropped a \<Rightarrow> free_fm a | _ \<Rightarrow> return ())
         (if notificationType n = SA_NTF_TYPE_ALARM \<or> notificationType n = SA_NTF_TYPE_SECURITY_ALARM
          then do_call E (Ntf (SaNtfNotificationFree (notificationHandle n))) else return ()))"

definition saNtfNotificationCallback4 :: "outside \<Rightarrow> 32 word \<Rightarrow> SaNtfNotificationsT \<Rightarrow> unit ntfp" where
  "saNtfNotificationCallback4 E sub n = bnd (callback_decide E sub n) (\<lambda>d.
     bnd (case d of AtQueue a \<Rightarrow> callback_queue E n a | _ \<Rightarrow> return d) (callback_finish E n))"

section \<open>Reading old alarms\<close>

definition search_time :: "outside \<Rightarrow> 64 word ntfp" where
  "search_time E = andthen (mutex_lock E NotifyLock)
     (bnd (gets nFilter_V4) (\<lambda>f. andthen (mutex_unlock E NotifyLock)
       (return (case filter_of f of Some fl \<Rightarrow> (case f_first fl of Some (Some t) \<Rightarrow> t | _ \<Rightarrow> 0) | None \<Rightarrow> 0))))"

text \<open>
  The start: filters, the kind of search, and the search itself.  \<open>Inl rc\<close>: the function returns
  \<open>rc\<close>.  When the second filter is refused, the handle of the first is freed from a variable that
  was not assigned yet; when the search is refused, its handle is finalized nevertheless.
\<close>

record reading =
  rd_time :: "64 word"
  rd_alarms :: handle
  rd_security :: handle
  rd_search :: handle

definition close_reading :: "outside \<Rightarrow> reading \<Rightarrow> unit ntfp" where
  "close_reading E r =
     andthen (do_call E (Ntf (SaNtfNotificationFilterFree (rd_security r))))
    (andthen (do_call E (Ntf (SaNtfNotificationReadFinalize (rd_search r))))
       (do_call E (Ntf (SaNtfNotificationFilterFree (rd_alarms r)))))"

definition search_criteria :: "bool \<Rightarrow> 64 word \<Rightarrow> (SaNtfSearchModeT \<times> 64 word) ntfp" where
  "search_criteria isDiscarded t =
     (if isDiscarded then return (SA_NTF_SEARCH_ONLY_FILTER, 0)
      else andthen (modify (\<lambda>w. w\<lparr>sReaderMaxRetries := sReaderMaxRetries w + 1\<rparr>))
        (bnd (gets readOldAlarm) (\<lambda>old.
         if old then bnd (gets readerLastNotificationID) (\<lambda>i. return (SA_NTF_SEARCH_NOTIFICATION_ID, i))
         else andthen (modify (\<lambda>w. w\<lparr>readOldAlarm := True\<rparr>)) (return (SA_NTF_SEARCH_ONLY_FILTER, 0)))))"

definition open_reading :: "outside \<Rightarrow> bool \<Rightarrow> (SaAisErrorT + reading) ntfp" where
  "open_reading E isDiscarded = bnd (search_time E) (\<lambda>t. bnd (gets ntfHandle) (\<lambda>h.
     bnd (call E (Ntf (SaNtfAlarmNotificationFilterAllocate h))) (\<lambda>af.
     if a_rc af \<noteq> SA_AIS_OK then return (Inl (a_rc af))
     else bnd (call E (Ntf (SaNtfSecurityAlarmNotificationFilterAllocate h))) (\<lambda>saf.
       if a_rc saf \<noteq> SA_AIS_OK then die Uninit
       else bnd (search_criteria isDiscarded t) (\<lambda>(mode, i).
         bnd (call E (Ntf (SaNtfNotificationReadInitialize mode t i [a_handle af, a_handle saf]))) (\<lambda>s.
         let r = \<lparr>rd_time = t, rd_alarms = a_handle af, rd_security = a_handle saf, rd_search = a_handle s\<rparr> in
         if a_rc s \<noteq> SA_AIS_OK then andthen (close_reading E r) (return (Inl (a_rc s)))
         else return (Inr r)))))))"

text \<open>
  The notification read is freed by its handle; for a type that is not an alarm the variable keeps
  what it had, at first nothing.
\<close>

definition free_read :: "outside \<Rightarrow> SaNtfNotificationsT \<Rightarrow> handle option \<Rightarrow> handle option ntfp" where
  "free_read E n nh =
     (let nh = if is_alarm (notificationType n) then Some (notificationHandle n) else nh in
      case nh of None \<Rightarrow> die Uninit
      | Some h \<Rightarrow> bnd (call E (Ntf (SaNtfNotificationFree h))) (\<lambda>a. if a_rc a \<noteq> SA_AIS_OK then die Assert else return nh))"

definition freed_by_callback :: "SaNtfNotificationTypeT \<Rightarrow> bool" where
  "freed_by_callback t \<longleftrightarrow> t = SA_NTF_TYPE_ALARM \<or> t = SA_NTF_TYPE_SECURITY_ALARM \<or> invalid_type t"

text \<open>
  The loop over the numbers of discarded notifications: each turn looks at the notification, which the
  turn before may have freed.
\<close>

primrec match_discarded :: "outside \<Rightarrow> SaNtfNotificationsT \<Rightarrow> bool \<Rightarrow> handle option \<Rightarrow> 64 word list \<Rightarrow> handle option ntfp" where
  "match_discarded E n freed nh [] = return nh"
| "match_discarded E n freed nh (i # is) =
     (if freed then die Wild
      else if i = notificationId (notificationHeader n) then
        andthen (saNtfNotificationCallback4 E 0 n)
          (match_discarded E n (freed_by_callback (notificationType n)) nh is)
      else bnd (free_read E n nh) (\<lambda>nh. match_discarded E n True nh is))"

text \<open>One notification read; \<open>True\<close> if the loop ends with it.\<close>

definition read_one :: "outside \<Rightarrow> 64 word list \<Rightarrow> bool \<Rightarrow> 64 word \<Rightarrow> SaNtfNotificationsT \<Rightarrow> handle option \<Rightarrow> (bool \<times> handle option) ntfp" where
  "read_one E ids isDiscarded t n nh =
     (if ids \<noteq> [] then bnd (match_discarded E n False nh ids) (\<lambda>nh. return (False, nh))
      else if sint t < sint (nh_eventTime (notificationHeader n)) \<or> t = 0 then
        bnd (if isDiscarded then return False
             else andthen (modify (\<lambda>w. w\<lparr>readerLastNotificationID := getNotificationId n\<rparr>))
               (bnd (gets callbackLastCmwNotificationID) (\<lambda>c.
                if getNotificationId n = c then andthen (modify (\<lambda>w. w\<lparr>lastNotificationMatched := True\<rparr>)) (return True)
                else return False))) (\<lambda>brk.
        andthen (saNtfNotificationCallback4 E 0 n) (return (brk, nh)))
      else bnd (free_read E n nh) (\<lambda>nh. return (False, nh)))"

text \<open>One turn of the loop: \<open>Inl rc\<close> when it ends, with the last return code.\<close>

definition read_turn :: "outside \<Rightarrow> 64 word list \<Rightarrow> bool \<Rightarrow> reading \<Rightarrow> handle option \<Rightarrow> (SaAisErrorT + handle option) ntfp" where
  "read_turn E ids isDiscarded r nh = bnd (call E (Ntf (SaNtfNotificationReadNext (rd_search r)))) (\<lambda>a.
     if a_rc a \<noteq> SA_AIS_OK then return (Inl (a_rc a))
     else bnd (gets ntf_stop_thread) (\<lambda>s.
       if s then return (Inl SA_AIS_OK)
       else case a_ntf a of None \<Rightarrow> die Wild
       | Some n \<Rightarrow> bnd (read_one E ids isDiscarded (rd_time r) n nh) (\<lambda>(brk, nh).
           return (if brk then Inl SA_AIS_OK else Inr nh))))"

definition read_loop :: "outside \<Rightarrow> 64 word list \<Rightarrow> bool \<Rightarrow> reading \<Rightarrow> SaAisErrorT ntfp" where
  "read_loop E ids isDiscarded r = bnd (while_prog (\<lambda>s. \<not> isl s)
       (\<lambda>s. case s of Inl rc \<Rightarrow> return s | Inr nh \<Rightarrow> read_turn E ids isDiscarded r nh) (Inr None)) (\<lambda>s.
     return (case s of Inl rc \<Rightarrow> if rc = SA_AIS_ERR_NOT_EXIST then SA_AIS_OK else rc | Inr nh \<Rightarrow> SA_AIS_OK))"

text \<open>Behind the loop: \<open>True\<close> if the queue is to be sent, \<open>False\<close> if the search is repeated.\<close>

definition reader_done :: "bool ntfp" where
  "reader_done = bnd (gets lastNotificationMatched) (\<lambda>m. bnd (gets callbackLastCmwNotificationID) (\<lambda>c.
     bnd (gets sReaderMaxRetries) (\<lambda>k. return (m \<or> c = 0 \<or> \<not> k < OAM_SA_NTF_READER_MAX_RETRIES))))"

definition component_gone :: "bool ntfp" where
  "component_gone = bnd (gets is_ntf_stop_component) (\<lambda>s. bnd (gets reason_failing_over) (\<lambda>f. return (s \<and> f)))"

partial_function (option) readOldAlarms :: "outside \<Rightarrow> 64 word list \<Rightarrow> bool \<Rightarrow> SaAisErrorT ntfp" where
  "readOldAlarms E ids isDiscarded w =
     bnd component_gone (\<lambda>g v.
     if g then return SA_AIS_OK v
     else bnd (open_reading E isDiscarded) (\<lambda>s v. case s of
         Inl rc \<Rightarrow> return rc v
       | Inr r \<Rightarrow> bnd (read_loop E ids isDiscarded r) (\<lambda>rc v.
           if isDiscarded then andthen (close_reading E r) (return rc) v
           else bnd reader_done (\<lambda>d v.
             if d then andthen (sendQueuedAlarms E) (andthen (close_reading E r) (return rc)) v
             else bnd (do_call E (Usleep OAM_SA_NTF_RETRY_SLEEP)) (\<lambda>_ v.
               bnd (\<lambda>v. readOldAlarms E [] False v) (\<lambda>rc v.
                 andthen (close_reading E r) (return rc) v) v) v) v) v) v) w"

definition saNtfNotificationDiscardedCallback :: "outside \<Rightarrow> 64 word list \<Rightarrow> unit ntfp" where
  "saNtfNotificationDiscardedCallback E ids = bnd (readOldAlarms E ids True) (\<lambda>_. return ())"

definition readerThread :: "outside \<Rightarrow> unit ntfp" where
  "readerThread E = bnd (ntf_retry E (readOldAlarms E [] False)) (\<lambda>_. modify (\<lambda>w. w\<lparr>readOldAlarmDone := True\<rparr>))"

definition dispatch_ntf :: "outside \<Rightarrow> unit ntfp" where
  "dispatch_ntf E = bnd (gets ntfHandle) (\<lambda>h. bnd (sa_rc E (Ntf (SaNtfDispatch h))) (\<lambda>rc.
     if rc = SA_AIS_ERR_BAD_HANDLE \<or> rc = SA_AIS_OK then return () else die Quit))"

end
