(* ===== verification/NtfService.thy ===== *)
theory NtfService
  imports NtfAlarm
begin

text \<open>
  The notification service (\<open>ntf/ComSANtf.c\<close>), part 6: subscriptions, the interface towards the
  event router of MAF, and the start and stop of the service.
\<close>

section \<open>Subscriptions\<close>

text \<open>When the second filter is refused, the first stays allocated.\<close>

definition subscribeForNotifications :: "outside \<Rightarrow> 32 word \<Rightarrow> SaAisErrorT ntfp" where
  "subscribeForNotifications E sub = bnd (gets ntfHandle) (\<lambda>h.
     bnd (call E (Ntf (SaNtfAlarmNotificationFilterAllocate h))) (\<lambda>af.
     if a_rc af \<noteq> SA_AIS_OK then return (a_rc af)
     else bnd (call E (Ntf (SaNtfSecurityAlarmNotificationFilterAllocate h))) (\<lambda>saf.
     if a_rc saf \<noteq> SA_AIS_OK then return (a_rc saf)
     else bnd (sa_rc E (Ntf (SaNtfNotificationSubscribe [a_handle af, a_handle saf] sub))) (\<lambda>rc.
     andthen (if rc = SA_AIS_OK then return ()
              else bnd (sa_rc E (Ntf (SaNtfNotificationFilterFree (a_handle af)))) (\<lambda>rc2.
                if rc2 \<noteq> SA_AIS_OK then return ()
                else do_call E (Ntf (SaNtfNotificationFilterFree (a_handle saf)))))
       (return rc)))))"

text \<open>Three filters are freed one after the other, until one is refused.\<close>

definition free_cm_filters :: "outside \<Rightarrow> SaAisErrorT ntfp" where
  "free_cm_filters E = bnd (gets notificationFilterHandles) (\<lambda>(oc, ac, sc).
     bnd (sa_rc E (Ntf (SaNtfNotificationFilterFree oc))) (\<lambda>rc.
     if rc \<noteq> SA_AIS_OK then return rc
     else bnd (sa_rc E (Ntf (SaNtfNotificationFilterFree ac))) (\<lambda>rc.
     if rc \<noteq> SA_AIS_OK then return rc
     else sa_rc E (Ntf (SaNtfNotificationFilterFree sc)))))"

definition subscribeFor_CM_Notifications :: "outside \<Rightarrow> SaAisErrorT ntfp" where
  "subscribeFor_CM_Notifications E =
     andthen (modify (\<lambda>w. w\<lparr>notificationFilterHandles := (0, 0, 0)\<rparr>))
    (bnd (gets ntfHandle) (\<lambda>h.
     bnd (call E (Ntf (SaNtfObjectCreateDeleteNotificationFilterAllocate h))) (\<lambda>oc.
     if a_rc oc \<noteq> SA_AIS_OK then return (a_rc oc)
     else bnd (call E (Ntf (SaNtfStateChangeNotificationFilterAllocate h))) (\<lambda>sc.
     if a_rc sc \<noteq> SA_AIS_OK then return (a_rc sc)
     else bnd (call E (Ntf (SaNtfAttributeChangeNotificationFilterAllocate h))) (\<lambda>ac.
     if a_rc ac \<noteq> SA_AIS_OK then return (a_rc ac)
     else andthen (modify (\<lambda>w. w\<lparr>notificationFilterHandles := (a_handle oc, a_handle ac, a_handle sc)\<rparr>))
       (bnd (sa_rc E (Ntf (SaNtfNotificationSubscribe [a_handle oc, a_handle ac, a_handle sc] CM_NOTIFICATIONS_SUBS_ID))) (\<lambda>rc.
        if rc = SA_AIS_OK then andthen (modify (\<lambda>w. w\<lparr>isSubscribed := True\<rparr>)) (return rc)
        else free_cm_filters E)))))))"

definition unsubscribeFor_CM_Notifications :: "outside \<Rightarrow> SaAisErrorT ntfp" where
  "unsubscribeFor_CM_Notifications E = bnd (gets isSubscribed) (\<lambda>s.
     if \<not> s then return SA_AIS_OK
     else bnd (free_cm_filters E) (\<lambda>rc.
       if rc \<noteq> SA_AIS_OK then return rc
       else bnd (ntf_retry E (sa_rc E (Ntf (SaNtfNotificationUnsubscribe CM_NOTIFICATIONS_SUBS_ID)))) (\<lambda>rc.
         andthen (if rc = SA_AIS_OK then modify (\<lambda>w. w\<lparr>isSubscribed := False\<rparr>) else return ()) (return rc))))"

definition setMafStateChangeReason :: "bool \<Rightarrow> unit ntfp" where
  "setMafStateChangeReason failing_over = modify (\<lambda>w. w\<lparr>reason_failing_over := failing_over\<rparr>)"

section \<open>Filters of COM\<close>

definition createReaderThread :: "outside \<Rightarrow> MafReturnT ntfp" where
  "createReaderThread E = bnd (call E (Ntf ReaderThreadCreate)) (\<lambda>a.
     if a_num a \<noteq> 0 then return MafFailure
     else bnd (call E (Ntf ReaderThreadDetach)) (\<lambda>a. return (if a_num a \<noteq> 0 then MafFailure else MafOk)))"

definition setupInterface :: "outside \<Rightarrow> unit ntfp" where
  "setupInterface E = bnd (gets addFilter_setup) (\<lambda>s.
     if s then return ()
     else bnd (gets event_router_MAF) (\<lambda>r. bnd (gets consumer_handle) (\<lambda>c. bnd (gets mafSpiNtfFmVersion) (\<lambda>v.
       bnd (if \<not> r then return MafOk
            else if v = 4 then bnd (call E (Ntf (RouterAddSubscription c FmEventComponent_4))) (\<lambda>a. return (a_maf a))
            else if v = 3 then bnd (call E (Ntf (RouterAddSubscription c FmEventComponent_3))) (\<lambda>a. return (a_maf a))
            else return MafFailure) (\<lambda>ret.
       if ret \<noteq> MafOk then return () else modify (\<lambda>w. w\<lparr>addFilter_setup := True\<rparr>))))))"

definition no_filter :: MafFilterT where
  "no_filter = \<lparr>consumerHandle = 0, eventType = None, filter_of = None, subscriptionId = 0\<rparr>"

text \<open>The first part, under \<open>notify_lock\<close>.\<close>

definition add_filter :: "outside \<Rightarrow> 64 word \<Rightarrow> string \<Rightarrow> ntf_filter option \<Rightarrow> MafReturnT ntfp" where
  "add_filter E consumer ty f = bnd (gets nFilter_V4) (\<lambda>old.
     if filter_of old \<noteq> None then return MafAlreadyExist
     else andthen (modify (\<lambda>w. w\<lparr>nFilter_V4 := (nFilter_V4 w)\<lparr>subscriptionId := COMSA_NTF_SUBSCRIPTION_ID\<rparr>\<rparr>))
       (bnd (ntf_retry E (subscribeForNotifications E COMSA_NTF_SUBSCRIPTION_ID)) (\<lambda>rc.
        if rc \<noteq> SA_AIS_OK then
          andthen (modify (\<lambda>w. w\<lparr>nFilter_V4 := (nFilter_V4 w)\<lparr>subscriptionId := 0\<rparr>\<rparr>)) (return (maf_coremw_rc rc))
        else andthen (modify (\<lambda>w. w\<lparr>nFilter_V4 := (nFilter_V4 w)\<lparr>consumerHandle := consumer, eventType := Some ty, filter_of := f\<rparr>\<rparr>))
          (andthen (bnd (createReaderThread E) (\<lambda>_. return ())) (return (maf_coremw_rc rc))))))"

definition addFilter_V4 :: "outside \<Rightarrow> 64 word \<Rightarrow> string \<Rightarrow> ntf_filter option \<Rightarrow> MafReturnT ntfp" where
  "addFilter_V4 E consumer ty f = bnd (gets mafSpiNtfFmVersion) (\<lambda>v.
     if v = 4 \<and> ty \<noteq> FmEventType_4 \<or> v = 3 \<and> ty \<noteq> FmEventType_2 then return MafNotExist
     else andthen (setupInterface E)
       (andthen (mutex_lock E NotifyLock)
         (bnd (add_filter E consumer ty f) (\<lambda>rc. andthen (mutex_unlock E NotifyLock) (return rc)))))"

text \<open>The message about a refused call reads the name of the first pair of the filter.\<close>

definition removeFilter_V4 :: "outside \<Rightarrow> 64 word \<Rightarrow> string option \<Rightarrow> ntf_filter option \<Rightarrow> MafReturnT ntfp" where
  "removeFilter_V4 E consumer ty f =
     andthen (mutex_lock E NotifyLock)
    (bnd (gets nFilter_V4) (\<lambda>old.
     bnd (if consumerHandle old = consumer \<and> map_option f_addr (filter_of old) = map_option f_addr f then
            bnd (ntf_retry E (sa_rc E (Ntf (SaNtfNotificationUnsubscribe (subscriptionId old))))) (\<lambda>rc.
            if rc = SA_AIS_OK \<or> rc = SA_AIS_ERR_NOT_EXIST then
              andthen (modify (\<lambda>w. w\<lparr>nFilter_V4 := no_filter\<rparr>)) (return MafOk)
            else case filter_of old of None \<Rightarrow> die Wild
              | Some fl \<Rightarrow> (case f_first fl of None \<Rightarrow> die Wild | Some _ \<Rightarrow> return MafFailure))
          else return MafFailure) (\<lambda>rc.
     andthen (mutex_unlock E NotifyLock) (return rc))))"

definition clearAll_V4 :: "outside \<Rightarrow> MafReturnT ntfp" where
  "clearAll_V4 E = bnd (gets nFilter_V4) (\<lambda>f.
     bnd (if consumerHandle f \<noteq> 0 then removeFilter_V4 E (consumerHandle f) (eventType f) (filter_of f) else return MafOk) (\<lambda>rc.
     return (if rc \<noteq> MafOk then MafFailure else MafOk)))"

section \<open>Start and stop\<close>

definition dispatch_ntf_callback :: nat where "dispatch_ntf_callback = 7"

definition ntf_poll_set :: "nat \<Rightarrow> int \<Rightarrow> int ntfp" where
  "ntf_poll_set f d = (\<lambda>w. case poll_setcallback (ntf_poll w) f \<lparr>fd = d, events = POLLIN, revents = 0\<rparr> 0 of
     None \<Rightarrow> die Assert w | Some (rc, h) \<Rightarrow> return rc (w\<lparr>ntf_poll := h\<rparr>))"

definition ntf_poll_unset :: "int \<Rightarrow> unit ntfp" where
  "ntf_poll_unset d = (\<lambda>w. case poll_unsetcallback (ntf_poll w) d of
     None \<Rightarrow> die Assert w | Some h \<Rightarrow> return () (w\<lparr>ntf_poll := h\<rparr>))"

definition EWOULDBLOCK :: int where "EWOULDBLOCK = 11"

definition stop_ntf_polling :: "outside \<Rightarrow> int \<Rightarrow> unit ntfp" where
  "stop_ntf_polling E pipe0 = bnd (call E (Ntf (NtfPipeRead 16))) (\<lambda>a.
     if a_num a < 0 \<and> a_errno a \<noteq> EWOULDBLOCK then die Quit
     else andthen (modify (\<lambda>w. w\<lparr>ntf_stop_thread := True\<rparr>)) (ntf_poll_unset pipe0))"

definition ntfApiVersion :: version where "ntfApiVersion = (CHR ''A'', 1, 1)"

definition open_reset :: "ntf_world \<Rightarrow> ntf_world" where
  "open_reset w = w\<lparr>event_router_MAF := False, addFilter_setup := False, is_ntf_stop_component := False,
     readOldAlarm := False, lastNotificationMatched := False, readOldAlarmDone := False, sReaderMaxRetries := 0,
     callbackLastCmwNotificationID := 0, readerLastNotificationID := 0, alarmQueue := None, alarmQueueFront := None,
     nFilter_V4 := no_filter\<rparr>"

text \<open>The call that starts: repeated, with a pause behind each repetition.\<close>

primrec init_tries :: "nat \<Rightarrow> outside \<Rightarrow> answer \<Rightarrow> SaAisErrorT ntfp" where
  "init_tries 0 E a = return (a_rc a)"
| "init_tries (Suc n) E a = (if a_rc a \<noteq> SA_AIS_ERR_TRY_AGAIN then return (a_rc a)
     else bnd (call E (Ntf (SaNtfInitialize ntfApiVersion))) (\<lambda>a.
       andthen (modify (\<lambda>w. w\<lparr>ntfHandle := a_handle a\<rparr>))
      (andthen (do_call E (Usleep OAM_SA_NTF_RETRY_SLEEP)) (init_tries n E a))))"

definition ntf_initialize :: "outside \<Rightarrow> SaAisErrorT ntfp" where
  "ntf_initialize E = bnd (call E (Ntf (SaNtfInitialize ntfApiVersion))) (\<lambda>a.
     andthen (modify (\<lambda>w. w\<lparr>ntfHandle := a_handle a\<rparr>)) (init_tries OAM_SA_NTF_MAX_RETRIES E a))"

definition open_polling :: "outside \<Rightarrow> unit ntfp" where
  "open_polling E = bnd (gets ntfHandle) (\<lambda>h. bnd (call E (Ntf (SaNtfSelectionObjectGet h))) (\<lambda>a.
     if a_rc a \<noteq> SA_AIS_OK then die Quit
     else bnd (ntf_poll_set dispatch_ntf_callback (a_num a)) (\<lambda>rv. if rv \<noteq> 0 then die Quit else return ())))"

definition register_router :: "outside \<Rightarrow> MafReturnT ntfp" where
  "register_router E = bnd (call E (Ntf RouterRegisterProducer)) (\<lambda>a.
     andthen (modify (\<lambda>w. w\<lparr>producer_handle := a_handle a\<rparr>))
    (if a_maf a \<noteq> MafOk then return (a_maf a)
     else bnd (gets mafSpiNtfFmVersion) (\<lambda>v.
       bnd (call E (Ntf (RouterAddProducerEvent (a_handle a) (if v = 3 then FmEventType_2 else FmEventType_4)))) (\<lambda>e.
       if a_maf e \<noteq> MafOk then return (a_maf e)
       else bnd (call E (Ntf RouterRegisterConsumer)) (\<lambda>c.
         andthen (modify (\<lambda>w. w\<lparr>consumer_handle := a_handle c\<rparr>))
        (if a_maf c \<noteq> MafOk then return (a_maf c)
         else andthen (setupInterface E) (return MafOk)))))))"

text \<open>The portal is used before it is compared with the null pointer.\<close>

definition maf_ComNtfServiceOpen :: "outside \<Rightarrow> bool \<Rightarrow> MafReturnT ntfp" where
  "maf_ComNtfServiceOpen E portal_MAF =
     andthen (modify open_reset)
    (bnd (ntf_initialize E) (\<lambda>rc.
     if rc \<noteq> SA_AIS_OK then return (maf_coremw_rc rc)
     else andthen (open_polling E)
      (andthen (modify (\<lambda>w. w\<lparr>mafSpiNtfFmVersion := 4\<rparr>))
      (if \<not> portal_MAF then die Wild
       else bnd (call E (Ntf PortalGetEventService)) (\<lambda>a.
         let router = a_maf a = MafOk in
         andthen (modify (\<lambda>w. w\<lparr>event_router_MAF := router\<rparr>))
        (andthen (do_call E (Ntf StartCmEventHandler))
        (if router then register_router E else return (a_maf a))))))))"

text \<open>The router's side of the stop; each failure ends the function, and the lock stays held.\<close>

definition unregister_router :: "outside \<Rightarrow> MafReturnT ntfp" where
  "unregister_router E = bnd (gets mafSpiNtfFmVersion) (\<lambda>v. bnd (gets producer_handle) (\<lambda>p. bnd (gets consumer_handle) (\<lambda>c.
     bnd (call E (Ntf (RouterRemoveProducerEvent p (if v = 3 then FmEventType_2 else FmEventType_4)))) (\<lambda>a.
     if a_maf a \<noteq> MafOk then return (a_maf a)
     else bnd (call E (Ntf (RouterUnregisterProducer p))) (\<lambda>a.
     if a_maf a \<noteq> MafOk then return (a_maf a)
     else bnd (call E (Ntf (RouterRemoveSubscription c (if v = 3 then FmEventComponent_3 else FmEventComponent_4)))) (\<lambda>a.
     if a_maf a \<noteq> MafOk then return (a_maf a)
     else bnd (call E (Ntf (RouterUnregisterConsumer c))) (\<lambda>a.
     if a_maf a \<noteq> MafOk then return (a_maf a)
     else andthen (modify (\<lambda>w. w\<lparr>event_router_MAF := False, addFilter_setup := False\<rparr>)) (return MafOk))))))))"

definition close_rest :: "outside \<Rightarrow> MafReturnT ntfp" where
  "close_rest E = bnd (gets cc_name) (\<lambda>cc. bnd (gets ntfHandle) (\<lambda>h.
     andthen (if cc \<noteq> ''lm'' then do_call E (Ntf StopCmEventHandler) else return ())
    (bnd (ntf_retry E (sa_rc E (Ntf (SaNtfFinalize h)))) (\<lambda>rc.
     andthen (modify (\<lambda>w. w\<lparr>ntf_stop_thread := False, is_ntf_stop_component := True\<rparr>))
    (andthen (cleanVlist4 E)
    (andthen (do_call E (Ntf (MutexUnlock CmNotificationLock)))
       (return (maf_coremw_rc rc))))))))"

definition maf_ComNtfServiceClose :: "outside \<Rightarrow> MafReturnT ntfp" where
  "maf_ComNtfServiceClose E =
     andthen (modify (\<lambda>w. w\<lparr>ntf_stop_thread := True\<rparr>))
    (andthen (do_call E (Ntf (MutexLock CmNotificationLock)))
    (bnd (gets ntfHandle) (\<lambda>h. bnd (call E (Ntf (SaNtfSelectionObjectGet h))) (\<lambda>a.
     andthen (if a_rc a \<noteq> SA_AIS_OK then return () else ntf_poll_unset (a_num a))
    (bnd (gets event_router_MAF) (\<lambda>r.
     bnd (if r then unregister_router E else return MafOk) (\<lambda>ret.
     if ret \<noteq> MafOk then return ret else close_rest E)))))))"

end
