(* ===== verification/NtfHeap.thy ===== *)
theory NtfHeap
  imports NtfService
begin

text \<open>
  The notification service, part 7: the two linked lists as lists.  \<open>seg\<close> is a path through a
  store of nodes; \<open>vl_rep\<close> relates the list of the alarms COM holds, \<open>q_rep\<close> the queue of alarms
  that wait, to the sequence of their nodes and of the alarms in them.  The rules below say what
  each operation does to these sequences, and what it leaves alone.
\<close>

section \<open>Paths\<close>

primrec seg :: "('n \<Rightarrow> addr option) \<Rightarrow> (addr \<rightharpoonup> 'n) \<Rightarrow> addr option \<Rightarrow> addr list \<Rightarrow> addr option \<Rightarrow> bool" where
  "seg nx st p [] q \<longleftrightarrow> p = q"
| "seg nx st p (a # as) q \<longleftrightarrow> p = Some a \<and> (\<exists>n. st a = Some n \<and> seg nx st (nx n) as q)"

lemma seg_append: "seg nx st p (as @ bs) q \<longleftrightarrow> (\<exists>y. seg nx st p as y \<and> seg nx st y bs q)"
  by (induction as arbitrary: p) auto

lemma seg_upd [simp]: "u \<notin> set as \<Longrightarrow> seg nx (st(u := v)) p as q \<longleftrightarrow> seg nx st p as q"
  by (induction as arbitrary: p) auto

lemma seg_dom: "seg nx st p as q \<Longrightarrow> set as \<subseteq> dom st"
  by (induction as arbitrary: p) auto

lemma seg_None_start: "seg nx st None as None \<longleftrightarrow> as = []"
  by (cases as) auto

section \<open>The alarms COM holds\<close>

definition holds_alarm :: "ntf_world \<Rightarrow> addr \<Rightarrow> addr" where
  "holds_alarm w a = vl_comNot (the (vls w a))"

definition vl_rep :: "ntf_world \<Rightarrow> addr list \<Rightarrow> addr list \<Rightarrow> bool" where
  "vl_rep w xs as \<longleftrightarrow> seg vl_next (vls w) (nVlist4 w) xs None \<and> distinct xs \<and> dom (vls w) = set xs \<and>
     nVlLast4 w = (if xs = [] then None else Some (last xs)) \<and>
     as = map (holds_alarm w) xs \<and> (\<forall>a\<in>set xs. a < next_addr w)"

text \<open>What a call tells COM: the alarm a notification is about.\<close>

fun notify_of :: "ocall \<times> answer \<Rightarrow> addr option" where
  "notify_of (Ntf (RouterNotify p h ty f v), a) = Some v"
| "notify_of _ = None"

definition notified :: "history \<Rightarrow> addr list" where
  "notified h = List.map_filter notify_of h"

lemma notified_simps [simp]: "notified [] = []" "notified (xs @ ys) = notified xs @ notified ys"
    "notified (x # ys) = (case notify_of x of None \<Rightarrow> notified ys | Some a \<Rightarrow> a # notified ys)"
  by (simp_all add: notified_def map_filter_def split: option.splits)

text \<open>The operations on this list change the list and nothing else but the trace.\<close>

definition list_frame :: "ntf_world \<Rightarrow> ntf_world \<Rightarrow> bool" where
  "list_frame w v \<longleftrightarrow>
     v\<lparr>vls := vls w, nVlist4 := nVlist4 w, nVlLast4 := nVlLast4 w, next_addr := next_addr w, hist := hist w\<rparr> = w \<and>
     next_addr w \<le> next_addr v \<and> notified (hist v) = notified (hist w)"

lemma list_frameD:
  assumes "list_frame w v"
  shows "fms v = fms w" "fms2 v = fms2 w" "aos v = aos w" "alarmQueue v = alarmQueue w" "alarmQueueFront v = alarmQueueFront w"
    "readOldAlarm v = readOldAlarm w" "readOldAlarmDone v = readOldAlarmDone w" "ntf_stop_thread v = ntf_stop_thread w"
    "mafSpiNtfFmVersion v = mafSpiNtfFmVersion w" "event_router_MAF v = event_router_MAF w"
    "nFilter_V4 v = nFilter_V4 w" "producer_handle v = producer_handle w"
    "callbackLastCmwNotificationID v = callbackLastCmwNotificationID w"
    "next_addr w \<le> next_addr v" "notified (hist v) = notified (hist w)"
proof -
  have e: "w = v\<lparr>vls := vls w, nVlist4 := nVlist4 w, nVlLast4 := nVlLast4 w, next_addr := next_addr w, hist := hist w\<rparr>"
    using assms by (simp add: list_frame_def)
  show "fms v = fms w" "fms2 v = fms2 w" "aos v = aos w" "alarmQueue v = alarmQueue w" "alarmQueueFront v = alarmQueueFront w"
    "readOldAlarm v = readOldAlarm w" "readOldAlarmDone v = readOldAlarmDone w" "ntf_stop_thread v = ntf_stop_thread w"
    "mafSpiNtfFmVersion v = mafSpiNtfFmVersion w" "event_router_MAF v = event_router_MAF w"
    "nFilter_V4 v = nFilter_V4 w" "producer_handle v = producer_handle w"
    "callbackLastCmwNotificationID v = callbackLastCmwNotificationID w"
    by (subst e, simp)+
  show "next_addr w \<le> next_addr v" "notified (hist v) = notified (hist w)" using assms by (simp_all add: list_frame_def)
qed

lemma wp_mutex_lock [wps]:
  "wp d (mutex_lock E l) Q F w =
    (let a = E (hist w) (Ntf (MutexLock l)); v = w\<lparr>hist := hist w @ [(Ntf (MutexLock l), a)]\<rparr> in
     if a_num a \<noteq> 0 then F Abort v else Q () v)"
  by (simp add: mutex_lock_def wp_call Let_def)

lemma wp_mutex_unlock [wps]:
  "wp d (mutex_unlock E l) Q F w =
    (let a = E (hist w) (Ntf (MutexUnlock l)); v = w\<lparr>hist := hist w @ [(Ntf (MutexUnlock l), a)]\<rparr> in
     if a_num a \<noteq> 0 then F Abort v else Q () v)"
  by (simp add: mutex_unlock_def wp_call Let_def)

lemma wp_get_vl: "vls w a = Some n \<Longrightarrow> wp d (get_vl a) Q F w = Q n w"
  by (simp add: get_vl_def wp_def return_def)

lemma wp_get_fm: "fms w a = Some c \<Longrightarrow> wp d (get_fm a) Q F w = Q c w"
  by (simp add: get_fm_def wp_def return_def)

lemma wp_free_fm: "fms w a = Some c \<Longrightarrow> wp d (free_fm a) Q F w = Q () (w\<lparr>fms := (fms w)(a := None)\<rparr>)"
  by (simp add: free_fm_def wp_get_fm)

lemma wp_free_vl: "vls w a = Some n \<Longrightarrow> wp d (free_vl a) Q F w = Q () (w\<lparr>vls := (vls w)(a := None)\<rparr>)"
  by (simp add: free_vl_def wp_get_vl)

lemma wp_set_vl_next:
  "vls w a = Some n \<Longrightarrow> wp d (set_vl_next a p) Q F w = Q () (w\<lparr>vls := (vls w)(a \<mapsto> n\<lparr>vl_next := p\<rparr>)\<rparr>)"
  by (simp add: set_vl_next_def wp_get_vl)

lemma wp_alloc_fm2: "mafSpiNtfFmVersion w = 4 \<Longrightarrow> wp d (alloc_fm2 c) Q F w = Q None w"
  by (simp add: alloc_fm2_def)

lemma last_split: "xs \<noteq> [] \<Longrightarrow> \<exists>ys l. xs = ys @ [l]"
  by (metis append_butlast_last_id)

lemma wp_addNotValue4:
  assumes r: "vl_rep w xs as" and v4: "mafSpiNtfFmVersion w = 4"
    and Q: "\<And>v ne. vl_rep v (xs @ [ne]) (as @ [c]) \<Longrightarrow> list_frame w v \<Longrightarrow> Q ne v" and F: "\<And>v. F Abort v"
  shows "wp False (addNotValue4 E c) Q F w"
proof (cases "xs = []")
  case True
  with r have e: "nVlist4 w = None" "nVlLast4 w = None" "vls w = Map.empty" "as = []"
    by (auto simp: vl_rep_def)
  have "Q (next_addr w) v" if v: "v = w\<lparr>next_addr := Suc (next_addr w),
      vls := (vls w)(next_addr w \<mapsto> \<lparr>vl_comNot = c, vl_comNot_2 = None, vl_next = None\<rparr>),
      nVlist4 := Some (next_addr w), nVlLast4 := Some (next_addr w), hist := h\<rparr>" and h: "notified h = notified (hist w)" for v h
    by (rule Q) (use True e v h in \<open>auto simp: vl_rep_def holds_alarm_def list_frame_def\<close>)
  then show ?thesis
    using e(1,2) v4 F by (auto simp: addNotValue4_def wps wp_alloc_fm2 Let_def simp del: fun_upd_apply)
next
  case False
  then obtain ys l where xs: "xs = ys @ [l]" using last_split by blast
  from r obtain n where n: "vls w l = Some n" "vl_next n = None" "seg vl_next (vls w) (nVlist4 w) ys (Some l)"
    by (auto simp: vl_rep_def xs seg_append)
  have first: "\<exists>f. nVlist4 w = Some f" using n(3) by (cases ys) auto
  have fresh: "next_addr w \<notin> set ys" "next_addr w \<noteq> l" "l \<notin> set ys"
    using r by (auto simp: vl_rep_def xs)
  have "Q (next_addr w) v" if v: "v = w\<lparr>next_addr := Suc (next_addr w),
      vls := (vls w)(next_addr w \<mapsto> \<lparr>vl_comNot = c, vl_comNot_2 = None, vl_next = None\<rparr>, l \<mapsto> n\<lparr>vl_next := Some (next_addr w)\<rparr>),
      nVlLast4 := Some (next_addr w), hist := h\<rparr>" and h: "notified h = notified (hist w)" for v h
    by (rule Q) (use r v h n fresh in \<open>auto simp: xs vl_rep_def holds_alarm_def list_frame_def seg_append\<close>)
  moreover have l: "nVlLast4 w = Some l" using r by (simp add: vl_rep_def xs)
  ultimately show ?thesis
    using first fresh n v4 F
    by (auto simp: addNotValue4_def wps wp_alloc_fm2 wp_set_vl_next Let_def)
qed

text \<open>The search for a value: the node in front of it, and its node.\<close>

primrec search :: "(addr \<Rightarrow> bool) \<Rightarrow> addr option \<Rightarrow> addr list \<Rightarrow> addr option \<times> addr option \<times> bool" where
  "search P prev [] = (prev, None, False)"
| "search P prev (a # as) = (if P a then (prev, Some a, True) else search P (Some a) as)"

lemma search_split:
  "(\<forall>a\<in>set xs. \<not> P a) \<and> (\<exists>q. search P prev xs = (q, None, False)) \<or>
   (\<exists>ys a zs. xs = ys @ a # zs \<and> P a \<and> (\<forall>y\<in>set ys. \<not> P y) \<and>
     search P prev xs = (if ys = [] then prev else Some (last ys), Some a, True))"
proof (induction xs arbitrary: prev)
  case Nil
  then show ?case by simp
next
  case (Cons b bs)
  show ?case
  proof (cases "P b")
    case True
    then show ?thesis by (intro disjI2 exI [of _ "[]"]) auto
  next
    case False
    from Cons.IH [of "Some b"] show ?thesis
    proof (elim disjE exE conjE)
      fix ys a zs
      assume "bs = ys @ a # zs" "P a" "\<forall>y\<in>set ys. \<not> P y"
        "search P (Some b) bs = (if ys = [] then Some b else Some (last ys), Some a, True)"
      then show ?thesis using False by (intro disjI2 exI [of _ "b # ys"] exI [of _ a] exI [of _ zs]) simp
    qed (use False in auto)
  qed
qed

lemma find_loop:
  "seg vl_next (vls w) p xs None \<Longrightarrow>
   wp False (while_prog (\<lambda>(prev, tmp, found). tmp \<noteq> None \<and> \<not> found)
     (\<lambda>(prev, tmp, found). case tmp of None \<Rightarrow> return (prev, tmp, found)
          | Some a \<Rightarrow> bnd (get_vl a) (\<lambda>n.
              return (if held version x n then (prev, tmp, True) else (tmp, vl_next n, False))))
     (prev, p, False)) Q F w = Q (search (\<lambda>a. held version x (the (vls w a))) prev xs) w"
proof (induction xs arbitrary: p prev)
  case Nil
  then show ?case by (subst while_unfold) simp
next
  case (Cons a as)
  then obtain n where n: "p = Some a" "vls w a = Some n" "seg vl_next (vls w) (vl_next n) as None" by auto
  show ?case
  proof (cases "held version x n")
    case True
    then show ?thesis using n by (subst while_unfold) (simp add: wp_get_vl while_unfold)
  next
    case False
    then show ?thesis using n Cons.IH [OF n(3)] by (subst while_unfold) (simp add: wp_get_vl)
  qed
qed

lemma vl_rep_nodes: "vl_rep w xs as \<Longrightarrow> a \<in> set xs \<Longrightarrow> \<exists>n. vls w a = Some n \<and> holds_alarm w a = vl_comNot n"
  unfolding vl_rep_def holds_alarm_def by (metis domD option.sel)

lemma wp_find_value:
  assumes r: "vl_rep w xs as"
  shows "wp False (find_value 4 x) Q F w = Q (search (\<lambda>a. holds_alarm w a = x) (nVlist4 w) xs) w"
proof -
  have "seg vl_next (vls w) (nVlist4 w) xs None" using r by (simp add: vl_rep_def)
  from find_loop [OF this, of 4 x "nVlist4 w"] show ?thesis
    by (simp add: find_value_def held_def holds_alarm_def)
qed

lemma wp_unlink_value:
  assumes r: "vl_rep w (ys @ a # zs) as" and n: "vls w a = Some n"
    and Q: "\<And>v. seg vl_next (vls v) (nVlist4 v) (ys @ zs) None \<Longrightarrow> dom (vls v) = set (ys @ a # zs) \<Longrightarrow>
        nVlLast4 v = (if ys @ zs = [] then None else Some (last (ys @ zs))) \<Longrightarrow>
        (\<forall>b. holds_alarm v b = holds_alarm w b) \<Longrightarrow> v\<lparr>vls := vls w, nVlist4 := nVlist4 w, nVlLast4 := nVlLast4 w\<rparr> = w \<Longrightarrow> Q () v"
  shows "wp False (unlink_value (if ys = [] then nVlist4 w else Some (last ys)) a) Q F w"
proof -
  have d: "a \<notin> set ys" "a \<notin> set zs" "distinct ys" "distinct zs" "set ys \<inter> set zs = {}" and dom: "dom (vls w) = set (ys @ a # zs)"
    and l: "nVlLast4 w = Some (last (a # zs))"
    using r by (auto simp: vl_rep_def)
  from r n have s: "seg vl_next (vls w) (nVlist4 w) ys (Some a)" "seg vl_next (vls w) (vl_next n) zs None"
    by (auto simp: vl_rep_def seg_append)
  show ?thesis
  proof (cases ys rule: rev_cases)
    case Nil
    then have "nVlist4 w = Some a" using s by simp
    moreover have "zs = [] \<or> zs \<noteq> [] \<and> last zs \<noteq> a" using d(2) by auto
    moreover have "\<forall>b\<in>set zs. \<exists>m. vls w b = Some m" using dom by (auto simp: dom_def)
    ultimately show ?thesis using Nil s(2) l n dom
      by (auto simp: unlink_value_def wp_get_vl holds_alarm_def simp del: fun_upd_apply intro!: Q)
  next
    case (snoc us p)
    then obtain m where m: "vls w p = Some m" "seg vl_next (vls w) (nVlist4 w) us (Some p)" "vl_next m = Some a"
      using s(1) by (auto simp: seg_append)
    have p: "p \<notin> set us" "p \<noteq> a" "p \<notin> set zs" "nVlist4 w \<noteq> Some a"
      using d snoc s(1) by (auto simp: seg_append) (cases us; auto)+
    show ?thesis
    proof (cases zs rule: rev_cases)
      case Nil
      then have "vl_next n = None" using s(2) by simp
      then show ?thesis using Nil snoc m p d l s n dom
        by (auto simp: unlink_value_def wp_set_vl_next seg_append holds_alarm_def intro!: Q)
    next
      case (snoc vs q)
      then show ?thesis using \<open>ys = us @ [p]\<close> m p d l s n dom
        by (auto simp: unlink_value_def wp_set_vl_next wp_get_vl seg_append holds_alarm_def intro!: Q)
    qed
  qed
qed

lemma seg_drop:
  assumes "seg nx st p (ys @ zs) q" "a \<notin> set ys" "a \<notin> set zs"
  shows "seg nx (st(a := v)) p (ys @ zs) q"
  using assms by (auto simp: seg_append)

lemma wp_release_value:
  assumes r: "vl_rep w xs as" and d: "distinct as" and m: "set as \<subseteq> dom (fms w)"
    and Q0: "x \<notin> set as \<Longrightarrow> Q MafNotExist w"
    and Q1: "\<And>v zs. x \<in> set as \<Longrightarrow> vl_rep v zs (remove1 x as) \<Longrightarrow> list_frame (w\<lparr>fms := (fms w)(x := None)\<rparr>) v \<Longrightarrow> Q MafOk v"
  shows "wp False (release_value 4 x) Q F w"
proof -
  have as: "as = map (holds_alarm w) xs" using r by (simp add: vl_rep_def)
  from search_split [of xs "\<lambda>a. holds_alarm w a = x" "nVlist4 w"] show ?thesis
  proof (elim disjE exE conjE)
    fix q
    assume "\<forall>a\<in>set xs. holds_alarm w a \<noteq> x" "search (\<lambda>a. holds_alarm w a = x) (nVlist4 w) xs = (q, None, False)"
    then show ?thesis using Q0 as by (auto simp: release_value_def wp_find_value [OF r])
  next
    fix ys a zs
    assume xs: "xs = ys @ a # zs" and a: "holds_alarm w a = x" and ys: "\<forall>y\<in>set ys. holds_alarm w y \<noteq> x"
      and s: "search (\<lambda>a. holds_alarm w a = x) (nVlist4 w) xs = (if ys = [] then nVlist4 w else Some (last ys), Some a, True)"
    from vl_rep_nodes [OF r, of a] obtain n where n: "vls w a = Some n" "vl_comNot n = x" using xs a by auto
    have x: "x \<in> set as" "remove1 x as = map (holds_alarm w) (ys @ zs)"
      using as a ys xs by (auto simp: remove1_append)
    obtain c where c: "fms w x = Some c" using m x by auto
    have "wp False (unlink_value (if ys = [] then nVlist4 w else Some (last ys)) a)
        (\<lambda>_. wp False (andthen (free_fm x) (andthen (free_vl a) (return MafOk))) Q F) F w"
    proof (rule wp_unlink_value [OF r [unfolded xs] n(1)])
      fix v
      assume v: "seg vl_next (vls v) (nVlist4 v) (ys @ zs) None" "dom (vls v) = set (ys @ a # zs)"
        "nVlLast4 v = (if ys @ zs = [] then None else Some (last (ys @ zs)))"
        "\<forall>b. holds_alarm v b = holds_alarm w b" "v\<lparr>vls := vls w, nVlist4 := nVlist4 w, nVlLast4 := nVlLast4 w\<rparr> = w"
      let ?v = "v\<lparr>fms := (fms v)(x := None), vls := (vls v)(a := None)\<rparr>"
      have w: "fms v = fms w" "next_addr v = next_addr w" "hist v = hist w"
        using arg_cong [OF v(5), of fms] arg_cong [OF v(5), of next_addr] arg_cong [OF v(5), of hist] by simp_all
      obtain k where k: "vls v a = Some k" using v(2) by (auto simp: dom_def)
      have "vl_rep ?v (ys @ zs) (remove1 x as)"
        using v seg_drop [OF v(1), of a None] x(2) r w by (auto simp: vl_rep_def xs holds_alarm_def)
      moreover have "?v\<lparr>vls := vls w, nVlist4 := nVlist4 w, nVlLast4 := nVlLast4 w\<rparr> =
          v\<lparr>vls := vls w, nVlist4 := nVlist4 w, nVlLast4 := nVlLast4 w, fms := (fms v)(x := None)\<rparr>" by simp
      then have "list_frame (w\<lparr>fms := (fms w)(x := None)\<rparr>) ?v"
        using v(5) w by (simp add: list_frame_def)
      ultimately have "Q MafOk ?v" by (rule Q1 [OF x(1)])
      then show "wp False (andthen (free_fm x) (andthen (free_vl a) (return MafOk))) Q F v"
        using c k w by (simp add: wp_free_fm wp_free_vl)
    qed
    then show ?thesis using n by (simp add: release_value_def wp_find_value [OF r] s wp_get_vl)
  qed
qed

lemma vl_rep_cong:
  "vl_rep w xs as \<Longrightarrow> vls v = vls w \<Longrightarrow> nVlist4 v = nVlist4 w \<Longrightarrow> nVlLast4 v = nVlLast4 w \<Longrightarrow>
   next_addr w \<le> next_addr v \<Longrightarrow> vl_rep v xs as"
  by (auto simp: vl_rep_def holds_alarm_def)

lemma vl_rep_hist [simp]: "vl_rep (w\<lparr>hist := h\<rparr>) xs as = vl_rep w xs as"
  by (simp add: vl_rep_def holds_alarm_def [abs_def])

lemma list_frame_refl: "list_frame w w"
  by (simp add: list_frame_def)

lemma list_frame_trans:
  assumes "list_frame u v" "list_frame v w"
  shows "list_frame u w"
proof -
  let ?r = "\<lambda>x y. y\<lparr>vls := vls x, nVlist4 := nVlist4 x, nVlLast4 := nVlLast4 x, next_addr := next_addr x, hist := hist x\<rparr>"
  have "?r u v = u" "?r v w = v" using assms by (simp_all add: list_frame_def)
  then have "?r u (?r v w) = u" by metis
  moreover have "?r u (?r v w) = ?r u w" by simp
  ultimately have "?r u w = u" by simp
  then show ?thesis using assms by (simp add: list_frame_def)
qed

lemma list_frame_hist: "notified h = notified (hist w) \<Longrightarrow> list_frame w (w\<lparr>hist := h\<rparr>)"
  by (simp add: list_frame_def)

lemma list_frame_fms: "list_frame w v \<Longrightarrow> list_frame (w\<lparr>fms := m\<rparr>) (v\<lparr>fms := m\<rparr>)"
proof -
  assume a: "list_frame w v"
  let ?r = "\<lambda>y. y\<lparr>vls := vls w, nVlist4 := nVlist4 w, nVlLast4 := nVlLast4 w, next_addr := next_addr w, hist := hist w\<rparr>"
  have "?r (v\<lparr>fms := m\<rparr>) = (?r v)\<lparr>fms := m\<rparr>" by simp
  moreover have "?r v = w" using a by (simp add: list_frame_def)
  ultimately show ?thesis using a by (simp add: list_frame_def)
qed

text \<open>COM gives back one alarm.\<close>

definition known_type :: "string option \<Rightarrow> bool" where
  "known_type ty \<longleftrightarrow> ty = None \<or> ty = Some FmEventType_4 \<or> ty = Some FmEventType_2"

definition done_result :: "ntf_world \<Rightarrow> addr list \<Rightarrow> addr \<Rightarrow> MafReturnT \<Rightarrow> ntf_world \<Rightarrow> bool" where
  "done_result w as x rv v \<longleftrightarrow> (if x \<in> set as then
       rv = MafOk \<and> (\<exists>zs. vl_rep v zs (remove1 x as)) \<and> list_frame (w\<lparr>fms := (fms w)(x := None)\<rparr>) v
     else rv = MafNotExist \<and> (\<exists>zs. vl_rep v zs as) \<and> list_frame w v)"

lemma wp_unlock_return: "wp d (andthen (mutex_unlock E l) (return r)) Q F = wp d (mutex_unlock E l) (\<lambda>_. Q r) F"
  by (rule ext) (simp add: wp_mutex_unlock Let_def)

lemma wp_doneWithValue:
  assumes r: "vl_rep w xs as" and v4: "mafSpiNtfFmVersion w = 4" and d: "distinct as" and m: "set as \<subseteq> dom (fms w)"
    and ty: "known_type ty" and Q: "\<And>rv v. done_result w as x rv v \<Longrightarrow> Q rv v" and F: "\<And>v. F Abort v"
  shows "wp False (doneWithValue E ty (Some x)) Q F w"
proof -
  let ?l = "(Ntf (MutexLock ListLock), E (hist w) (Ntf (MutexLock ListLock)))"
  let ?w = "w\<lparr>hist := hist w @ [?l]\<rparr>"
  have r': "vl_rep ?w xs as" by (rule vl_rep_cong [OF r]) simp_all
  have l: "list_frame w ?w" by (rule list_frame_hist) simp
  have unlock: "wp False (mutex_unlock E ListLock) (\<lambda>_. Q rv) F v" if v: "done_result w as x rv v" for rv v
  proof -
    have "done_result w as x rv (v\<lparr>hist := hist v @ [(Ntf (MutexUnlock ListLock), a)]\<rparr>)" for a
      using v list_frame_trans [OF _ list_frame_hist [of "hist v @ [(Ntf (MutexUnlock ListLock), a)]" v]]
      by (auto simp: done_result_def split: if_splits)
    then show ?thesis using Q F by (simp add: wp_mutex_unlock Let_def)
  qed
  have "wp False (release_value 4 x) (\<lambda>rv. wp False (mutex_unlock E ListLock) (\<lambda>_. Q rv) F) F ?w"
  proof (rule wp_release_value [OF r' d])
    show "set as \<subseteq> dom (fms ?w)" using m by simp
    show "wp False (mutex_unlock E ListLock) (\<lambda>_. Q MafNotExist) F ?w" if "x \<notin> set as"
      by (rule unlock) (use that r' l in \<open>auto simp: done_result_def\<close>)
    show "wp False (mutex_unlock E ListLock) (\<lambda>_. Q MafOk) F v"
      if "x \<in> set as" "vl_rep v zs (remove1 x as)" "list_frame (?w\<lparr>fms := (fms ?w)(x := None)\<rparr>) v" for v zs
      by (rule unlock) (use that list_frame_trans [OF list_frame_fms [OF l]] in \<open>auto simp: done_result_def\<close>)
  qed
  then show ?thesis using ty v4 F by (simp add: doneWithValue_def known_type_def [symmetric] wp_mutex_lock wp_unlock_return Let_def)
qed

text \<open>The stop of the service gives back all of them.\<close>

lemma clean_loop:
  assumes "seg vl_next (vls v) p zs None" "distinct zs" "dom (vls v) = set zs" "distinct (map (holds_alarm v) zs)"
    "set (map (holds_alarm v) zs) \<subseteq> dom (fms v)" "mafSpiNtfFmVersion v = 4"
    "Q None (v\<lparr>vls := Map.empty, fms := fms v |` (- set (map (holds_alarm v) zs))\<rparr>)"
  shows "wp False (while_prog (\<lambda>p. p \<noteq> None) clean_one p) Q F v"
  using assms
proof (induction zs arbitrary: p v)
  case Nil
  have "vls v = Map.empty" "fms v |` (- set (map (holds_alarm v) [])) = fms v"
    using Nil.prems(3) by (simp_all add: restrict_map_def)
  then have e: "v\<lparr>vls := Map.empty, fms := fms v |` (- set (map (holds_alarm v) []))\<rparr> = v\<lparr>vls := vls v, fms := fms v\<rparr>"
    by (rule arg_cong2 [of _ _ _ _ "\<lambda>x y. v\<lparr>vls := x, fms := y\<rparr>", OF sym])
  have "Q None v" using Nil.prems(7) by (simp only: e) simp
  then show ?case using Nil.prems(1) by (simp add: while_unfold)
next
  case (Cons a as)
  from Cons.prems(1) obtain n where n: "p = Some a" "vls v a = Some n" "seg vl_next (vls v) (vl_next n) as None" by auto
  obtain c where c: "fms v (vl_comNot n) = Some c" using Cons.prems(5) n by (auto simp: holds_alarm_def)
  let ?v = "v\<lparr>fms := (fms v)(vl_comNot n := None), vls := (vls v)(a := None)\<rparr>"
  have h: "holds_alarm v a = vl_comNot n" using n by (simp add: holds_alarm_def)
  have e: "map (holds_alarm ?v) as = map (holds_alarm v) as" using Cons.prems(2) by (auto simp: holds_alarm_def)
  have "wp False (while_prog (\<lambda>p. p \<noteq> None) clean_one (vl_next n)) Q F ?v"
  proof (rule Cons.IH)
    show "seg vl_next (vls ?v) (vl_next n) as None" using n(3) Cons.prems(2) by simp
    show "distinct as" "mafSpiNtfFmVersion ?v = 4" using Cons.prems by simp_all
    show "dom (vls ?v) = set as" using Cons.prems(2,3) by auto
    show "distinct (map (holds_alarm ?v) as)" unfolding e using Cons.prems(4) by simp
    show "set (map (holds_alarm ?v) as) \<subseteq> dom (fms ?v)" 
      unfolding e using Cons.prems(4,5) h by (auto simp: image_iff)
    have "fms ?v |` (- set (map (holds_alarm v) as)) = fms v |` (- set (map (holds_alarm v) (a # as)))"
      using h by (auto simp: restrict_map_def fun_eq_iff)
    then have "?v\<lparr>vls := Map.empty, fms := fms ?v |` (- set (map (holds_alarm ?v) as))\<rparr> =
        v\<lparr>vls := Map.empty, fms := fms v |` (- set (map (holds_alarm v) (a # as)))\<rparr>"
      unfolding e by simp
    then show "Q None (?v\<lparr>vls := Map.empty, fms := fms ?v |` (- set (map (holds_alarm ?v) as))\<rparr>)"
      using Cons.prems(7) by simp
  qed
  then show ?case using n c Cons.prems(6)
    by (subst while_unfold) (simp add: clean_one_def wp_get_vl wp_free_fm wp_free_vl)
qed

lemma wp_cleanVlist4:
  assumes r: "vl_rep w xs as" and v4: "mafSpiNtfFmVersion w = 4" and d: "distinct as" and m: "set as \<subseteq> dom (fms w)"
    and Q: "\<And>v. vl_rep v [] [] \<Longrightarrow> list_frame (w\<lparr>fms := fms w |` (- set as)\<rparr>) v \<Longrightarrow> Q () v" and F: "\<And>v. F Abort v"
  shows "wp False (cleanVlist4 E) Q F w"
proof -
  let ?w = "w\<lparr>hist := hist w @ [(Ntf (MutexLock ListLock), E (hist w) (Ntf (MutexLock ListLock)))]\<rparr>"
  have as: "as = map (holds_alarm ?w) xs" using r by (simp add: vl_rep_def holds_alarm_def)
  let ?Q = "\<lambda>_. wp False (andthen (modify (\<lambda>w. w\<lparr>nVlist4 := None, nVlLast4 := None\<rparr>)) (mutex_unlock E ListLock)) Q F"
  have "wp False (while_prog (\<lambda>p. p \<noteq> None) clean_one (nVlist4 ?w)) ?Q F ?w"
  proof (rule clean_loop)
    show "seg vl_next (vls ?w) (nVlist4 ?w) xs None" "distinct xs" "dom (vls ?w) = set xs" "mafSpiNtfFmVersion ?w = 4"
      using r v4 by (simp_all add: vl_rep_def)
    show "distinct (map (holds_alarm ?w) xs)" "set (map (holds_alarm ?w) xs) \<subseteq> dom (fms ?w)" using d m as by simp_all
    show "?Q None (?w\<lparr>vls := Map.empty, fms := fms ?w |` (- set (map (holds_alarm ?w) xs))\<rparr>)"
      unfolding as [symmetric] using Q F
      by (auto simp: wp_mutex_unlock Let_def vl_rep_def list_frame_def)
  qed
  then show ?thesis using F by (simp add: cleanVlist4_def wp_mutex_lock Let_def)
qed

end
