(* ===== verification/NtfQueue.thy ===== *)
theory NtfQueue
  imports NtfHeap
begin

text \<open>
  The notification service, part 8: the queue of alarms, and what sending, queueing and making
  an alarm do to the lists.  \<open>quiet\<close> programs only talk to the libraries: they leave nothing
  but calls in the trace, and none of these tells COM an alarm.
\<close>

section \<open>Programs and what they leave alone\<close>

text \<open>
  \<open>pres R m\<close>: if \<open>m\<close> returns, its last state is related to its first.  For a relation that is
  reflexive and transitive this is shown program by program.
\<close>

definition pres :: "('w \<Rightarrow> 'w \<Rightarrow> bool) \<Rightarrow> ('w, 'a) prog \<Rightarrow> bool" where
  "pres R m \<longleftrightarrow> (\<forall>w. wp True m (\<lambda>_. R w) (\<lambda>_ _. True) w)"

locale frame =
  fixes R :: "'w \<Rightarrow> 'w \<Rightarrow> bool"
  assumes refl: "R w w" and trans: "R u v \<Longrightarrow> R v w \<Longrightarrow> R u w"
begin

lemma pD: "pres R m \<Longrightarrow> (\<And>a v. R w v \<Longrightarrow> Q a v) \<Longrightarrow> (\<And>f v. F f v) \<Longrightarrow> wp True m Q F w"
  unfolding pres_def by (erule allE [of _ w], erule wp_mono) auto

lemma p_return: "pres R (return r)" and p_die: "pres R (die f)" and p_gets: "pres R (gets g)"
  by (simp_all add: pres_def refl)

lemma p_modify: "(\<And>w. R w (h w)) \<Longrightarrow> pres R (modify h)"
  by (simp add: pres_def)

lemma p_bnd: "pres R m \<Longrightarrow> (\<And>a. pres R (k a)) \<Longrightarrow> pres R (bnd m k)"
  unfolding pres_def [of R "bnd m k"] wp_bnd by (auto intro!: pD [of m] pD [of "k _"] elim: trans)

lemma p_andthen: "pres R m \<Longrightarrow> pres R k \<Longrightarrow> pres R (andthen m k)"
  unfolding andthen_def by (rule p_bnd)

lemma p_if: "(b \<Longrightarrow> pres R m) \<Longrightarrow> (\<not> b \<Longrightarrow> pres R k) \<Longrightarrow> pres R (if b then m else k)"
  by simp

lemma p_option: "pres R m \<Longrightarrow> (\<And>x. pres R (k x)) \<Longrightarrow> pres R (case v of None \<Rightarrow> m | Some x \<Rightarrow> k x)"
  by (cases v) simp_all

lemma p_prod: "(\<And>x y. pres R (k' x y)) \<Longrightarrow> pres R (case p of (x, y) \<Rightarrow> k' x y)"
  by (cases p) simp

lemma p_list: "pres R m \<Longrightarrow> (\<And>x xs. pres R (k' x xs)) \<Longrightarrow> pres R (case l of [] \<Rightarrow> m | x # xs \<Rightarrow> k' x xs)"
  by (cases l) simp_all

lemma p_sum: "(\<And>x. pres R (m' x)) \<Longrightarrow> (\<And>x. pres R (k' x)) \<Longrightarrow> pres R (case s of Inl x \<Rightarrow> m' x | Inr x \<Rightarrow> k' x)"
  by (cases s) simp_all

lemma p_Let: "(\<And>x. pres R (m' x)) \<Longrightarrow> pres R (Let y m')"
  by simp

lemma p_while:
  assumes "\<And>a. pres R (body a)"
  shows "pres R (while_prog b body a)"
  unfolding pres_def
proof
  fix w
  show "wp True (while_prog b body a) (\<lambda>_. R w) (\<lambda>_ _. True) w"
    by (rule while_partial [where I = "\<lambda>_. R w"]) (auto intro!: pD [OF assms] refl elim: trans)
qed

lemmas p_intros = p_return p_die p_gets p_bnd p_andthen p_if p_option p_prod p_list p_sum p_Let p_while

end

section \<open>Programs that only make calls\<close>

definition quiet_rel :: "ntf_world \<Rightarrow> ntf_world \<Rightarrow> bool" where
  "quiet_rel w v \<longleftrightarrow> (\<exists>h. v = w\<lparr>hist := h\<rparr> \<and> notified h = notified (hist w))"

definition quiet :: "'a ntfp \<Rightarrow> bool" where
  "quiet m \<longleftrightarrow> pres quiet_rel m"

interpretation calls: frame quiet_rel
proof
  show "quiet_rel w w" for w by (auto simp: quiet_rel_def intro!: exI [of _ "hist w"])
  show "quiet_rel u v \<Longrightarrow> quiet_rel v w \<Longrightarrow> quiet_rel u w" for u v w by (auto simp: quiet_rel_def)
qed

named_theorems quiets

lemma quietD:
  "quiet m \<Longrightarrow> (\<And>a h. notified h = notified (hist w) \<Longrightarrow> Q a (w\<lparr>hist := h\<rparr>)) \<Longrightarrow> (\<And>f v. F f v) \<Longrightarrow> wp True m Q F w"
  unfolding quiet_def by (rule calls.pD) (auto simp: quiet_rel_def)

lemmas quiet_basic [quiets] = calls.p_intros [folded quiet_def]
lemmas quiet_gets = calls.p_gets [folded quiet_def] and quiet_return = calls.p_return [folded quiet_def]
  and quiet_die = calls.p_die [folded quiet_def]

lemma quiet_call [quiets]: "(\<And>a. notify_of (c, a) = None) \<Longrightarrow> quiet (call E c)"
  by (auto simp: quiet_def pres_def quiet_rel_def wp_call)

lemma quiet_do_call [quiets]: "(\<And>a. notify_of (c, a) = None) \<Longrightarrow> quiet (do_call E c)"
  unfolding do_call_def by (intro quiets)

lemma quiet_sa_rc [quiets]: "(\<And>a. notify_of (c, a) = None) \<Longrightarrow> quiet (sa_rc E c)"
  unfolding sa_rc_def by (intro quiets)

lemma quiet_case_value [quiets]:
  "(\<And>x. quiet (a x)) \<Longrightarrow> (\<And>x. quiet (b x)) \<Longrightarrow> (\<And>x. quiet (c x)) \<Longrightarrow> (\<And>x. quiet (d x)) \<Longrightarrow> (\<And>x. quiet (e x)) \<Longrightarrow>
   (\<And>x. quiet (f x)) \<Longrightarrow> (\<And>x. quiet (g x)) \<Longrightarrow>
   quiet (case v of VInt32 x \<Rightarrow> a x | VUint32 x \<Rightarrow> b x | VInt64 x \<Rightarrow> c x | VUint64 x \<Rightarrow> d x | VString x \<Rightarrow> e x | VName x \<Rightarrow> f x | VBytes x \<Rightarrow> g x)"
  by (cases v) simp_all

lemma quiet_case_type [quiets]:
  "quiet a \<Longrightarrow> quiet b \<Longrightarrow> quiet c \<Longrightarrow> quiet d \<Longrightarrow> quiet e \<Longrightarrow> quiet f \<Longrightarrow> quiet g \<Longrightarrow> quiet h \<Longrightarrow> quiet i \<Longrightarrow> quiet j \<Longrightarrow>
   quiet (case v of SA_IMM_ATTR_SAINT32T \<Rightarrow> a | SA_IMM_ATTR_SAUINT32T \<Rightarrow> b | SA_IMM_ATTR_SAINT64T \<Rightarrow> c
     | SA_IMM_ATTR_SAUINT64T \<Rightarrow> d | SA_IMM_ATTR_SATIMET \<Rightarrow> e | SA_IMM_ATTR_SANAMET \<Rightarrow> f | SA_IMM_ATTR_SAFLOATT \<Rightarrow> g
     | SA_IMM_ATTR_SADOUBLET \<Rightarrow> h | SA_IMM_ATTR_SASTRINGT \<Rightarrow> i | SA_IMM_ATTR_SAANYT \<Rightarrow> j)"
  by (cases v) simp_all

lemma quiet_more_tries [quiets]:
  "(\<And>a. notify_of (p, a) = None) \<Longrightarrow> (\<And>a. notify_of (c, a) = None) \<Longrightarrow> quiet (more_tries E again p c n a)"
  by (induction n arbitrary: a) (auto intro!: quiets)

lemma quiet_om_tries [quiets]: "quiet (om_tries n E a)"
  by (induction n arbitrary: a) (auto intro!: quiets)

lemma quiet_ntf_retry [quiets]: "quiet m \<Longrightarrow> quiet (ntf_retry E m)"
proof -
  assume "quiet m"
  then have "quiet (ntf_tries n E m)" for n by (induction n) (auto intro!: quiets)
  then show ?thesis by (simp add: ntf_retry_def)
qed

lemma quiet_locks [quiets]: "quiet (mutex_lock E l)" "quiet (mutex_unlock E l)"
  by (auto simp: mutex_lock_def mutex_unlock_def intro!: quiets)

section \<open>The conversions are quiet\<close>

lemma quiet_names [quiets]: "quiet saNameMaxLen" "quiet saNameMaxLenNtf" "quiet (saNameSet s)"
    "quiet (parse_into k u s)" "quiet (convertTo3Gpp E s)" "quiet (convertTo3GPPDN E s)" "quiet (getAdditionalInfoName E h i)"
  by (auto simp: saNameMaxLen_def saNameMaxLenNtf_def saNameSet_def parse_into_def convertTo3Gpp_def convertTo3GPPDN_def
      getAdditionalInfoName_def Let_def intro!: quiets)

lemma quiet_infos [quiets]: "quiet (copyAdditionalInfo E nh h c)" "quiet (getUUIDFromAdditionalInfo E nh h)"
proof -
  have "quiet (copy_infos E h nh cfg is)" for cfg "is" by (induction "is") (auto intro!: quiets)
  then show "quiet (copyAdditionalInfo E nh h c)" by (auto simp: copyAdditionalInfo_def intro!: quiets)
  have "quiet (collect_uuids E h k is d)" for k "is" d by (induction "is" arbitrary: d) (auto intro!: quiets)
  then show "quiet (getUUIDFromAdditionalInfo E nh h)" by (auto simp: getUUIDFromAdditionalInfo_def Let_def intro!: quiets)
qed

lemma quiet_attributes [quiets]: "quiet (reInitializeBadHandler E om acc)" "quiet (getMOAttributesRetry E om acc n as)"
    "quiet (direction_in at d)" "quiet (getThresholdDirection E om acc j r t)"
proof -
  show 1: "quiet (reInitializeBadHandler E om acc)" for om acc by (auto simp: reInitializeBadHandler_def intro!: quiets)
  show 2: "quiet (getMOAttributesRetry E om acc n as)" for om acc n as
    unfolding getMOAttributesRetry_def by (intro quiets 1) simp_all
  show 3: "quiet (direction_in at d)" for "at" d unfolding direction_in_def by (intro quiets)
  show "quiet (getThresholdDirection E om acc j r t)" unfolding getThresholdDirection_def by (intro quiets 2 3)
qed

lemma quiet_reader [quiets]: "quiet (findThatEcimMeasReader E om t j)"
proof -
  have 1: "quiet (reader_in n t attrs)" for n t attrs
    by (induction attrs) (auto intro!: quiets split: list.split)
  have 2: "quiet (search_init E om r)" for om r unfolding search_init_def by (intro quiets) simp
  have 3: "quiet (search_attempts k E om r)" for k om r by (induction k) (auto intro!: quiets 2)
  have 4: "quiet (search_step E sh t a)" for sh t a unfolding search_step_def by (intro quiets 1) simp_all
  show ?thesis unfolding findThatEcimMeasReader_def by (intro quiets 3 4) simp_all
qed

lemma quiet_convertHeader4 [quiets]: "quiet (convertHeader4 E n c)"
proof -
  have 1: "quiet (alarm_codes as cs)" for as cs
    by (induction as cs rule: alarm_codes.induct) (auto intro!: quiets split: imm_type.split list.split imm_value.split)
  have 2: "quiet (pm_handles E)" unfolding pm_handles_def by (intro quiets) simp_all
  have 3: "quiet (pm_release E om acc r)" for om acc and r :: "MafReturnT \<times> MafOamSpiNotificationFmStruct_4T"
    unfolding pm_release_def by (intro quiets) simp_all
  have 4: "quiet (alarm_type vs)" for vs unfolding alarm_type_def by (intro quiets)
  have 5: "quiet (generic_text E om acc n t j r)" for om acc t j r unfolding generic_text_def by (intro quiets)
  have 6: "quiet (convertPmThresholdHeader4 E n c)" for c
    unfolding convertPmThresholdHeader4_def by (intro quiets 1 2 3 4 5)
  have 7: "quiet (alarm_text E n)" unfolding alarm_text_def by (intro quiets)
  have 8: "quiet (legacy_header E n c)" for c unfolding legacy_header_def by (intro quiets 7)
  show ?thesis unfolding convertHeader4_def by (intro quiets 6 8)
qed

end
