(* ===== verification/NtfDeliver.thy ===== *)
theory NtfDeliver
  imports NtfQueue
begin

text \<open>
  The notification service, part 9: what the steps of the two threads that deliver alarms do to the
  list of alarms COM holds, to the queue, and to the alarm a thread has in its hands.
\<close>

section \<open>Sending\<close>

definition sent :: "ntf_world \<Rightarrow> addr \<Rightarrow> ntf_world \<Rightarrow> bool" where
  "sent w a v \<longleftrightarrow> list_frame w (v\<lparr>hist := hist w\<rparr>) \<and> notified (hist v) = notified (hist w) @ [a]"

lemma sentD:
  assumes "sent w a v"
  shows "fms v = fms w" "aos v = aos w" "alarmQueue v = alarmQueue w" "alarmQueueFront v = alarmQueueFront w"
    "readOldAlarm v = readOldAlarm w" "readOldAlarmDone v = readOldAlarmDone w"
    "mafSpiNtfFmVersion v = mafSpiNtfFmVersion w" "event_router_MAF v = event_router_MAF w" "ntf_stop_thread v = ntf_stop_thread w"
    "next_addr w \<le> next_addr v" "notified (hist v) = notified (hist w) @ [a]"
  using list_frameD [of w "v\<lparr>hist := hist w\<rparr>"] assms by (simp_all add: sent_def)

lemma wp_sendSaNtfNotification:
  assumes r: "vl_rep w xs as" and v4: "mafSpiNtfFmVersion w = 4" and e: "event_router_MAF w"
    and Q: "\<And>v ne. vl_rep v (xs @ [ne]) (as @ [a]) \<Longrightarrow> sent w a v \<Longrightarrow> Q () v" and F: "\<And>v. F Abort v"
  shows "wp False (sendSaNtfNotification E a) Q F w"
proof -
  have main: "wp False (bnd (gets event_router_MAF) (\<lambda>r.
     if \<not> r then return ()
     else bnd (get_vl ne) (\<lambda>ntfContainer. bnd (gets nFilter_V4) (\<lambda>f. bnd (gets producer_handle) (\<lambda>p.
       bnd (gets mafSpiNtfFmVersion) (\<lambda>v.
       if v = 4 then
         do_call E (Ntf (RouterNotify p (consumerHandle f) FmEventType_4 (filter_of f) (vl_comNot ntfContainer)))
       else if v = 3 then
         do_call E (Ntf (RouterNotify p (consumerHandle f) FmEventType_2 (filter_of f)
           (case vl_comNot_2 ntfContainer of None \<Rightarrow> 0 | Some b \<Rightarrow> b)))
       else return ())))))) Q F v"
    if v: "vl_rep v (xs @ [ne]) (as @ [a])" and l: "list_frame w v" for v ne
  proof -
    obtain n where n: "vls v ne = Some n" "holds_alarm v ne = vl_comNot n" using vl_rep_nodes [OF v, of ne] by auto
    moreover have "holds_alarm v ne = a" using v by (simp add: vl_rep_def)
    moreover have "Q () (v\<lparr>hist := hist v @ [(Ntf (RouterNotify p c t f a), x)]\<rparr>)" for p c t f x
    proof (rule Q)
      show "vl_rep (v\<lparr>hist := hist v @ [(Ntf (RouterNotify p c t f a), x)]\<rparr>) (xs @ [ne]) (as @ [a])" using v by simp
      show "sent w a (v\<lparr>hist := hist v @ [(Ntf (RouterNotify p c t f a), x)]\<rparr>)"
        using l by (simp add: sent_def list_frame_def)
    qed
    ultimately show ?thesis using list_frameD(9,10) [OF l] v4 e by (simp add: wp_get_vl wp_do_call)
  qed
  then show ?thesis unfolding sendSaNtfNotification_def wp_bnd [of _ "addNotValue4 E a"]
    by (rule wp_addNotValue4 [OF r v4]) (iprover intro: main F)+
qed

section \<open>The queue\<close>

definition q_rep :: "ntf_world \<Rightarrow> addr list \<Rightarrow> addr list \<Rightarrow> bool" where
  "q_rep w qs bs \<longleftrightarrow> seg ao_next (aos w) (alarmQueueFront w) qs None \<and> distinct qs \<and> dom (aos w) = set qs \<and>
     (qs \<noteq> [] \<longrightarrow> alarmQueue w = Some (last qs)) \<and> map (\<lambda>a. ao_alarm (the (aos w a))) qs = map Some bs \<and>
     (\<forall>a\<in>set qs. a < next_addr w) \<and> (\<forall>l. alarmQueue w = Some l \<longrightarrow> l < next_addr w)"

lemma q_rep_cong:
  "q_rep w qs bs \<Longrightarrow> aos v = aos w \<Longrightarrow> alarmQueue v = alarmQueue w \<Longrightarrow> alarmQueueFront v = alarmQueueFront w \<Longrightarrow>
   next_addr w \<le> next_addr v \<Longrightarrow> q_rep v qs bs"
  by (auto simp: q_rep_def)

lemma wp_get_ao: "aos w a = Some n \<Longrightarrow> wp d (get_ao a) Q F w = Q n w"
  by (simp add: get_ao_def wp_def return_def)

lemma wp_set_ao: "aos w a = Some n \<Longrightarrow> wp d (set_ao a m) Q F w = Q () (w\<lparr>aos := (aos w)(a \<mapsto> m)\<rparr>)"
  by (simp add: set_ao_def wp_get_ao)

lemma wp_free_ao: "aos w a = Some n \<Longrightarrow> wp d (free_ao a) Q F w = Q () (w\<lparr>aos := (aos w)(a := None)\<rparr>)"
  by (simp add: free_ao_def wp_get_ao)

text \<open>The tail of an empty queue points to freed memory once an alarm has been taken out.\<close>

definition dangling :: "ntf_world \<Rightarrow> bool" where
  "dangling w \<longleftrightarrow> alarmQueueFront w = None \<and> alarmQueue w \<noteq> None"

lemma q_rep_empty: "q_rep w qs bs \<Longrightarrow> qs = [] \<longleftrightarrow> alarmQueueFront w = None"
  by (cases qs) (auto simp: q_rep_def)

lemma q_rep_Nil: "q_rep w qs bs \<Longrightarrow> qs = [] \<longleftrightarrow> bs = []"
  unfolding q_rep_def by (metis length_0_conv length_map)

lemma wp_push_alarm:
  assumes q: "q_rep w qs bs" and nd: "\<not> dangling w"
    and Q: "\<And>v ne. q_rep v (qs @ [ne]) (bs @ [c]) \<Longrightarrow>
      v\<lparr>aos := aos w, alarmQueue := alarmQueue w, alarmQueueFront := alarmQueueFront w, next_addr := next_addr w\<rparr> = w \<Longrightarrow>
      next_addr w \<le> next_addr v \<Longrightarrow> Q () v"
  shows "wp False (push_alarm c) Q F w"
proof (cases "qs = []")
  case True
  then have e: "alarmQueueFront w = None" "alarmQueue w = None" "aos w = Map.empty" "bs = []"
    using q nd q_rep_empty [OF q] q_rep_Nil [OF q] by (auto simp: q_rep_def dangling_def)
  have "Q () (w\<lparr>next_addr := Suc (next_addr w), aos := (aos w)(next_addr w \<mapsto> \<lparr>ao_alarm = Some c, ao_next = None\<rparr>),
      alarmQueue := Some (next_addr w), alarmQueueFront := Some (next_addr w)\<rparr>)" (is "Q () ?v")
    by (rule Q [of _ "next_addr w"]) (use e True in \<open>simp_all add: q_rep_def\<close>)
  then show ?thesis using e(2) by (simp add: push_alarm_def)
next
  case False
  then obtain ys l where qs: "qs = ys @ [l]" using last_split by blast
  with q obtain n where n: "aos w l = Some n" "ao_next n = None" "seg ao_next (aos w) (alarmQueueFront w) ys (Some l)"
    by (auto simp: q_rep_def seg_append)
  have fresh: "next_addr w \<notin> set ys" "next_addr w \<noteq> l" "l \<notin> set ys" and l: "alarmQueue w = Some l"
    using q by (auto simp: q_rep_def qs)
  have "Q () (w\<lparr>next_addr := Suc (next_addr w),
      aos := (aos w)(next_addr w \<mapsto> \<lparr>ao_alarm = Some c, ao_next = None\<rparr>, l \<mapsto> n\<lparr>ao_next := Some (next_addr w)\<rparr>),
      alarmQueue := Some (next_addr w)\<rparr>)" (is "Q () ?v")
  proof (rule Q)
    have "map (\<lambda>a. ao_alarm (the (aos ?v a))) ys = map (\<lambda>a. ao_alarm (the (aos w a))) ys"
      using fresh by (intro map_cong) auto
    note eq = this
    have A: "ao_alarm (the (aos ?v l)) = ao_alarm (the (aos w l))" "ao_alarm (the (aos ?v (next_addr w))) = Some c"
      using fresh n(1) by simp_all
    have m: "map (\<lambda>a. ao_alarm (the (aos ?v a))) (qs @ [next_addr w]) = map Some (bs @ [c])"
      unfolding qs map_append list.map eq A using q by (simp add: q_rep_def qs)
    show "q_rep ?v (qs @ [next_addr w]) (bs @ [c])"
      unfolding q_rep_def m using q n fresh by (auto simp: q_rep_def qs seg_append)
  qed simp_all
  then show ?thesis using fresh n l by (simp add: push_alarm_def wp_get_ao wp_set_ao)
qed

lemma push_dangling:
  assumes q: "q_rep w qs bs" and d: "dangling w"
  shows "\<exists>v. push_alarm c w = Some (Inl (Wild, v))"
proof -
  obtain l where l: "alarmQueueFront w = None" "alarmQueue w = Some l" using d by (auto simp: dangling_def)
  have qs: "qs = []" using q_rep_empty [OF q] l by simp
  then have "aos w l = None" "l \<noteq> next_addr w" using q l by (auto simp: q_rep_def)
  then show ?thesis using l
    by (simp add: push_alarm_def bnd_def andthen_def gets_def modify_def get_ao_def die_def)
qed

text \<open>One turn of the loop that empties the queue.\<close>

definition drained :: "ntf_world \<Rightarrow> addr list \<Rightarrow> addr list \<Rightarrow> bool \<Rightarrow> ntf_world \<Rightarrow> bool" where
  "drained w as bs go v \<longleftrightarrow> fms v = fms w \<and> mafSpiNtfFmVersion v = 4 \<and> event_router_MAF v \<and>
     readOldAlarmDone v = readOldAlarmDone w \<and> next_addr w \<le> next_addr v \<and>
     (case bs of
        [] \<Rightarrow> \<not> go \<and> (\<exists>xs. vl_rep v xs as) \<and> (\<exists>qs. q_rep v qs []) \<and> \<not> dangling v \<and>
          \<not> readOldAlarm v \<and> notified (hist v) = notified (hist w)
      | b # bs \<Rightarrow> go \<and> (\<exists>xs. vl_rep v xs (as @ [b])) \<and> (\<exists>qs. q_rep v qs bs) \<and>
          readOldAlarm v = readOldAlarm w \<and> notified (hist v) = notified (hist w) @ [b])"

lemma wp_drain_one:
  assumes r: "vl_rep w xs as" and q: "q_rep w qs bs" and v4: "mafSpiNtfFmVersion w = 4" and e: "event_router_MAF w"
    and Q: "\<And>go v. drained w as bs go v \<Longrightarrow> Q go v" and F: "\<And>v. F Abort v"
  shows "wp False (drain_one E) Q F w"
proof (cases qs)
  case Nil
  then have n: "alarmQueueFront w = None" "bs = []" "aos w = Map.empty"
    using q_rep_empty [OF q] q_rep_Nil [OF q] q by (auto simp: q_rep_def)
  have "Q False (w\<lparr>readOldAlarm := False, alarmQueue := None, hist := h\<rparr>)" if h: "notified h = notified (hist w)" for h
    by (rule Q) (use n r v4 e h in \<open>auto simp: drained_def dangling_def q_rep_def intro: vl_rep_cong intro!: exI [of _ xs]\<close>)
  then show ?thesis using n by (simp add: drain_one_def wp_do_call)
next
  case (Cons d ds)
  then obtain n b bs' where n: "aos w d = Some n" "alarmQueueFront w = Some d" "seg ao_next (aos w) (ao_next n) ds None"
    and b: "bs = b # bs'" "ao_alarm n = Some b" using q by (auto simp: q_rep_def map_eq_Cons_conv)
  let ?w = "w\<lparr>hist := hist w @ [(Ntf (MutexLock AlarmQueueLock), E (hist w) (Ntf (MutexLock AlarmQueueLock)))]\<rparr>"
  have s: "wp False (andthen (modify (\<lambda>w. w\<lparr>alarmQueueFront := ao_next n\<rparr>)) (andthen (free_ao d)
        (andthen (do_call E (Ntf (MutexUnlock AlarmQueueLock))) (return True)))) Q F v"
    if v: "vl_rep v (xs @ [ne]) (as @ [b])" "sent ?w b v" for v ne
  proof -
    note f = sentD [OF v(2)]
    let ?v = "v\<lparr>alarmQueueFront := ao_next n, aos := (aos v)(d := None),
      hist := hist v @ [(Ntf (MutexUnlock AlarmQueueLock), E (hist v) (Ntf (MutexUnlock AlarmQueueLock)))]\<rparr>"
    have "map (\<lambda>a. ao_alarm (the (aos ?v a))) ds = map Some bs'"
    proof -
      have "map (\<lambda>a. ao_alarm (the (aos w a))) ds = map Some bs'" "d \<notin> set ds"
        using q b n(1) by (simp_all add: q_rep_def Cons)
      moreover have "map (\<lambda>a. ao_alarm (the (aos ?v a))) ds = map (\<lambda>a. ao_alarm (the (aos w a))) ds"
        using f(2) \<open>d \<notin> set ds\<close> by (intro map_cong) auto
      ultimately show ?thesis by simp
    qed
    then have "q_rep ?v ds bs'" unfolding q_rep_def using q n f by (auto simp: q_rep_def Cons)
    moreover have "vl_rep ?v (xs @ [ne]) (as @ [b])" by (rule vl_rep_cong [OF v(1)]) simp_all
    ultimately have "Q True ?v" by (intro Q) (use f v4 e b in \<open>auto simp: drained_def\<close>)
    then show ?thesis using f(2) n(1) by (simp add: wp_free_ao wp_do_call)
  qed
  have "wp False (sendSaNtfNotification E b) (\<lambda>_. wp False (andthen (modify (\<lambda>w. w\<lparr>alarmQueueFront := ao_next n\<rparr>)) (andthen (free_ao d)
        (andthen (do_call E (Ntf (MutexUnlock AlarmQueueLock))) (return True)))) Q F) F ?w"
    by (rule wp_sendSaNtfNotification [where xs = xs and as = as]) (use r v4 e F s in simp_all)
  then show ?thesis using n b by (simp add: drain_one_def wp_do_call wp_get_ao)
qed

end
