(* ===== verification/NtfSystem.thy ===== *)
theory NtfSystem
  imports NtfDeliver
begin

text \<open>
  The notification service, part 10: the poll thread, the reader and COM together.  One step of the
  system is one part of a call-back, one turn of the reader, or one alarm given back by COM; these
  are the pieces of the code between which another thread can run.
\<close>

section \<open>The reader as a machine\<close>

text \<open>
  Where the reader is.  \<open>readOldAlarms\<close> calls itself: the searches of the outer calls, which are
  closed when the inner ones have returned, form a stack.  The number counts the repetitions by
  \<open>readerThread\<close>.
\<close>

datatype reader_pc =
    RStart "reading list" nat
  | RLoop reading "handle option" "reading list" nat
  | RBehind SaAisErrorT reading "reading list" nat
  | RDrain SaAisErrorT "reading list" nat
  | RReturn SaAisErrorT "reading list" nat
  | REnd

primrec close_all :: "outside \<Rightarrow> reading list \<Rightarrow> unit ntfp" where
  "close_all E [] = return ()"
| "close_all E (r # rs) = andthen (close_reading E r) (close_all E rs)"

fun reader_step :: "outside \<Rightarrow> reader_pc \<Rightarrow> reader_pc ntfp" where
  "reader_step E (RStart st k) = bnd component_gone (\<lambda>g.
     if g then return (RReturn SA_AIS_OK st k)
     else bnd (open_reading E False) (\<lambda>s. return (case s of Inl rc \<Rightarrow> RReturn rc st k | Inr r \<Rightarrow> RLoop r None st k)))"
| "reader_step E (RLoop r nh st k) = bnd (read_turn E [] False r nh) (\<lambda>s. return (case s of
       Inl rc \<Rightarrow> RBehind (if rc = SA_AIS_ERR_NOT_EXIST then SA_AIS_OK else rc) r st k | Inr nh \<Rightarrow> RLoop r nh st k))"
| "reader_step E (RBehind rc r st k) = bnd reader_done (\<lambda>d.
     if d then return (RDrain rc (r # st) k)
     else andthen (do_call E (Usleep OAM_SA_NTF_RETRY_SLEEP)) (return (RStart (r # st) k)))"
| "reader_step E (RDrain rc st k) = bnd (drain_turn E) (\<lambda>go. return (if go then RDrain rc st k else RReturn rc st k))"
| "reader_step E (RReturn rc st k) = andthen (close_all E st)
     (if rc = SA_AIS_ERR_TRY_AGAIN \<and> k < OAM_SA_NTF_MAX_RETRIES then
        andthen (do_call E (Usleep OAM_SA_NTF_RETRY_SLEEP)) (return (RStart [] (Suc k)))
      else andthen (modify (\<lambda>w. w\<lparr>readOldAlarmDone := True\<rparr>)) (return REnd))"
| "reader_step E REnd = return REnd"

section \<open>The system\<close>

text \<open>
  \<open>arrived\<close> lists the alarms the poll thread has made for COM since the start, \<open>gave_up\<close> tells
  that the reader ended without having sent what waits: both are for the statements only.
\<close>

record ntf_system =
  ntf_state :: ntf_world
  poll_thread :: "(SaNtfNotificationsT \<times> delivery) option"
  reader :: reader_pc
  arrived :: "addr list"
  gave_up :: bool

definition live :: "delivery \<Rightarrow> addr list" where
  "live d = (case d of SendNow a \<Rightarrow> [a] | AtQueue a \<Rightarrow> [a] | _ \<Rightarrow> [])"

definition in_hand :: "delivery \<Rightarrow> addr list" where
  "in_hand d = (case d of SendNow a \<Rightarrow> [a] | AtQueue a \<Rightarrow> [a] | Dropped a \<Rightarrow> [a] | _ \<Rightarrow> [])"

inductive ntf_step :: "outside \<Rightarrow> ntf_system \<Rightarrow> ntf_system \<Rightarrow> bool" for E where
  arrive: "poll_thread s = None \<Longrightarrow> callback_decide E sub n (ntf_state s) = Some (Inr (d, w)) \<Longrightarrow> sub \<noteq> 0 \<Longrightarrow>
     ntf_step E s (s\<lparr>ntf_state := w, poll_thread := Some (n, d), arrived := arrived s @ live d\<rparr>)"
| queue: "poll_thread s = Some (n, AtQueue a) \<Longrightarrow> callback_queue E n a (ntf_state s) = Some (Inr (d, w)) \<Longrightarrow>
     ntf_step E s (s\<lparr>ntf_state := w, poll_thread := Some (n, d)\<rparr>)"
| finish: "poll_thread s = Some (n, d) \<Longrightarrow> (\<And>a. d \<noteq> AtQueue a) \<Longrightarrow> callback_finish E n d (ntf_state s) = Some (Inr (u, w)) \<Longrightarrow>
     ntf_step E s (s\<lparr>ntf_state := w, poll_thread := None\<rparr>)"
| discarded: "poll_thread s = None \<Longrightarrow> saNtfNotificationDiscardedCallback E ids (ntf_state s) = Some (Inr (u, w)) \<Longrightarrow>
     ntf_step E s (s\<lparr>ntf_state := w\<rparr>)"
| read: "reader s \<noteq> REnd \<Longrightarrow> reader_step E (reader s) (ntf_state s) = Some (Inr (pc, w)) \<Longrightarrow>
     ntf_step E s (s\<lparr>ntf_state := w, reader := pc, gave_up := gave_up s \<or> pc = REnd \<and> readOldAlarm w\<rparr>)"
| release: "doneWithValue_V4 E ty val (ntf_state s) = Some (Inr (rv, w)) \<Longrightarrow>
     ntf_step E s (s\<lparr>ntf_state := w\<rparr>)"
| stop: "ntf_step E s (s\<lparr>ntf_state := (ntf_state s)\<lparr>ntf_stop_thread := True\<rparr>\<rparr>)"

definition ntf_run :: "outside \<Rightarrow> ntf_system \<Rightarrow> ntf_system \<Rightarrow> bool" where
  "ntf_run E = (ntf_step E)\<^sup>*\<^sup>*"

text \<open>A service that was just opened and has got its filter.\<close>

definition service_start :: "ntf_world \<Rightarrow> bool" where
  "service_start w \<longleftrightarrow> fms w = Map.empty \<and> vls w = Map.empty \<and> aos w = Map.empty \<and> nVlist4 w = None \<and> nVlLast4 w = None \<and>
     alarmQueue w = None \<and> alarmQueueFront w = None \<and> \<not> readOldAlarm w \<and> \<not> readOldAlarmDone w \<and>
     mafSpiNtfFmVersion w = 4 \<and> event_router_MAF w \<and> notified (hist w) = []"

definition system_start :: "ntf_world \<Rightarrow> ntf_system" where
  "system_start w = \<lparr>ntf_state = w, poll_thread = None, reader = RStart [] 0, arrived = [], gave_up = False\<rparr>"

section \<open>Ownership\<close>

definition owned :: "ntf_world \<Rightarrow> addr list \<Rightarrow> bool" where
  "owned w as \<longleftrightarrow> distinct as \<and> dom (fms w) = set as \<and> (\<forall>a\<in>set as. a < next_addr w) \<and> (\<forall>a\<in>set (notified (hist w)). a < next_addr w)"

definition reps :: "ntf_world \<Rightarrow> addr list \<Rightarrow> addr list \<Rightarrow> bool" where
  "reps w as bs \<longleftrightarrow> (\<exists>xs. vl_rep w xs as) \<and> (\<exists>qs. q_rep w qs bs) \<and> mafSpiNtfFmVersion w = 4 \<and> event_router_MAF w"

lemma reps_cong:
  "reps w as bs \<Longrightarrow> vls v = vls w \<Longrightarrow> nVlist4 v = nVlist4 w \<Longrightarrow> nVlLast4 v = nVlLast4 w \<Longrightarrow>
   aos v = aos w \<Longrightarrow> alarmQueue v = alarmQueue w \<Longrightarrow> alarmQueueFront v = alarmQueueFront w \<Longrightarrow>
   next_addr w \<le> next_addr v \<Longrightarrow> mafSpiNtfFmVersion v = mafSpiNtfFmVersion w \<Longrightarrow> event_router_MAF v = event_router_MAF w \<Longrightarrow>
   reps v as bs"
  unfolding reps_def by (metis vl_rep_cong q_rep_cong)

text \<open>Nothing the statements talk about has changed, except for flags of the reader.\<close>

definition same :: "ntf_world \<Rightarrow> ntf_world \<Rightarrow> bool" where
  "same w v \<longleftrightarrow> vls v = vls w \<and> nVlist4 v = nVlist4 w \<and> nVlLast4 v = nVlLast4 w \<and> aos v = aos w \<and>
     alarmQueue v = alarmQueue w \<and> alarmQueueFront v = alarmQueueFront w \<and> next_addr v = next_addr w \<and>
     mafSpiNtfFmVersion v = mafSpiNtfFmVersion w \<and> event_router_MAF v = event_router_MAF w \<and> fms v = fms w \<and>
     notified (hist v) = notified (hist w) \<and> readOldAlarmDone v = readOldAlarmDone w"

lemma same_refl [simp]: "same w w"
  by (simp add: same_def)

lemma same_trans: "same u v \<Longrightarrow> same v w \<Longrightarrow> same u w"
  by (simp add: same_def)

lemma same_hist: "notified h = notified (hist w) \<Longrightarrow> same w (w\<lparr>hist := h\<rparr>)"
  by (simp add: same_def)

lemma same_reps: "same w v \<Longrightarrow> reps w as bs \<Longrightarrow> reps v as bs"
  by (erule reps_cong) (simp_all add: same_def)

lemma same_owned: "same w v \<Longrightarrow> owned w as \<Longrightarrow> owned v as"
  by (simp add: owned_def same_def)

lemma quiet_same: "quiet m \<Longrightarrow> (\<And>a v. same w v \<Longrightarrow> readOldAlarm v = readOldAlarm w \<Longrightarrow> Q a v) \<Longrightarrow> (\<And>f v. F f v) \<Longrightarrow> wp True m Q F w"
  by (rule quietD) (auto simp: same_hist)

section \<open>The parts of a call-back\<close>

lemma wp_return_fun: "wp d (return r) Q F = Q r"
  by (rule ext) simp

definition decided :: "addr list \<Rightarrow> addr list \<Rightarrow> addr list \<Rightarrow> ntf_world \<Rightarrow> 32 word \<Rightarrow> delivery \<Rightarrow> ntf_world \<Rightarrow> bool" where
  "decided as bs zs w sub d v \<longleftrightarrow> reps v as bs \<and> owned v (in_hand d @ zs) \<and> readOldAlarm v = readOldAlarm w \<and>
     readOldAlarmDone v = readOldAlarmDone w \<and> notified (hist v) = notified (hist w) \<and> next_addr w \<le> next_addr v \<and>
     (\<forall>a\<in>set (in_hand d). next_addr w \<le> a) \<and> d \<noteq> Stored \<and>
     (\<forall>a. d = SendNow a \<longrightarrow> sub = 0 \<or> readOldAlarmDone w) \<and> (sub = 0 \<longrightarrow> (\<forall>a. d \<noteq> AtQueue a))"

lemma wp_callback_decide:
  assumes l: "reps w as bs" and o: "owned w zs"
    and Q: "\<And>d v. decided as bs zs w sub d v \<Longrightarrow> Q d v" and F: "\<And>f v. F f v"
  shows "wp True (callback_decide E sub n) Q F w"
proof -
  have ended: "Q Ended v" if "same w v" "readOldAlarm v = readOldAlarm w" for v
    by (rule Q) (use that same_reps [OF that(1) l] same_owned [OF that(1) o] in \<open>auto simp: decided_def in_hand_def same_def\<close>)
  have made: "Q d v" if d: "d = SendNow (next_addr w) \<and> (sub = 0 \<or> readOldAlarmDone w) \<or>
        d = AtQueue (next_addr w) \<and> sub \<noteq> 0 \<or> d = Dropped (next_addr w)"
      and v: "same (w\<lparr>next_addr := Suc (next_addr w), fms := (fms w)(next_addr w \<mapsto> c)\<rparr>) v" "readOldAlarm v = readOldAlarm w" for d v c
  proof (rule Q)
    let ?w = "w\<lparr>next_addr := Suc (next_addr w), fms := (fms w)(next_addr w \<mapsto> c)\<rparr>"
    have "reps ?w as bs" by (rule reps_cong [OF l]) simp_all
    then have "reps v as bs" by (rule same_reps [OF v(1)])
    moreover have "owned ?w (next_addr w # zs)" using o by (force simp: owned_def)
    then have "owned v (next_addr w # zs)" by (rule same_owned [OF v(1)])
    ultimately show "decided as bs zs w sub d v" using v d by (auto simp: decided_def in_hand_def same_def)
  qed
  have cm: "wp True (cmNotificationCallback E n) (\<lambda>_. Q Ended) F w"
  proof (rule quiet_same)
    show "quiet (cmNotificationCallback E n)"
      by (cases "notificationType n"; simp only: cmNotificationCallback_def SaNtfNotificationTypeT.case; intro quiets) simp_all
  qed (use ended F in auto)
  have inval: "Q Ended v" if "v = w\<lparr>next_addr := Suc (next_addr w), hist := h, fms := (fms w)(next_addr w := None)\<rparr>"
      "notified h = notified (hist w)" for v h
  proof (rule Q)
    have "fms w (next_addr w) = None" using o by (force simp: owned_def)
    then have "(fms w)(next_addr w := None) = fms w" by (simp add: fun_upd_idem)
    then have "owned v zs" using o that by (force simp: owned_def)
    moreover have "reps v as bs" by (rule reps_cong [OF l]) (use that in simp_all)
    ultimately show "decided as bs zs w sub Ended v" using that by (simp add: decided_def in_hand_def)
  qed
  let ?w = "\<lambda>c. w\<lparr>next_addr := Suc (next_addr w), fms := (fms w)(next_addr w \<mapsto> c)\<rparr>"
  have rest: "wp True (bnd (local_sub_id E) (\<lambda>localSubId. bnd (gets readOldAlarmDone) (\<lambda>done.
          return (if localSubId \<noteq> 0 \<and> maf_rc = MafOk then
                    (if sub = 0 \<or> done then SendNow (next_addr w) else AtQueue (next_addr w))
                  else Dropped (next_addr w))))) Q F v"
    if v: "same (?w c) v" "readOldAlarm v = readOldAlarm w" for v c maf_rc
    unfolding wp_bnd
  proof (rule quiet_same)
    show "quiet (local_sub_id E)" unfolding local_sub_id_def by (intro quiets)
    fix i u
    assume u: "same v u" "readOldAlarm u = readOldAlarm v"
    have d: "readOldAlarmDone u = readOldAlarmDone w" using u v by (simp add: same_def)
    show "wp True (gets readOldAlarmDone) (\<lambda>a. wp True (return (if i \<noteq> 0 \<and> maf_rc = MafOk then
        if sub = 0 \<or> a then SendNow (next_addr w) else AtQueue (next_addr w) else Dropped (next_addr w))) Q F) F u"
      using made [OF _ same_trans [OF v(1) u(1)]] u v d by simp
  qed (rule F)
  have make: "wp True (make_alarm E n (next_addr w)) (\<lambda>maf_rc. wp True (bnd (local_sub_id E) (\<lambda>localSubId. bnd (gets readOldAlarmDone) (\<lambda>done.
          return (if localSubId \<noteq> 0 \<and> maf_rc = MafOk then
                    (if sub = 0 \<or> done then SendNow (next_addr w) else AtQueue (next_addr w))
                  else Dropped (next_addr w))))) Q F) F (?w fm_zero)" (is "wp _ _ ?Q _ _")
  proof (cases "is_alarm (notificationType n)")
    case False
    then show ?thesis using rest [where c = fm_zero and v = "?w fm_zero" and maf_rc = MafOk] by (simp add: make_alarm_def del: wp_bnd)
  next
    case True
    have "wp True (convertHeader4 E n fm_zero) (\<lambda>(rc, c). wp True (if rc \<noteq> MafOk \<and> rc \<noteq> MafNotExist then die Assert
        else andthen (modify (\<lambda>w'. w'\<lparr>fms := (fms w')(next_addr w \<mapsto> c\<lparr>fm_severity := perceivedSeverity n\<rparr>)\<rparr>)) (return rc)) ?Q F) F (?w fm_zero)"
    proof (rule quietD [OF quiet_convertHeader4], clarify)
      fix rc c h
      assume h: "notified h = notified (hist (?w fm_zero))"
      have "?Q rc ((?w fm_zero)\<lparr>hist := h, fms := (fms w)(next_addr w \<mapsto> c\<lparr>fm_severity := perceivedSeverity n\<rparr>)\<rparr>)"
        by (rule rest [where c = "c\<lparr>fm_severity := perceivedSeverity n\<rparr>"]) (use h in \<open>simp_all add: same_def\<close>)
      then show "wp True (if rc \<noteq> MafOk \<and> rc \<noteq> MafNotExist then die Assert
          else andthen (modify (\<lambda>w'. w'\<lparr>fms := (fms w')(next_addr w \<mapsto> c\<lparr>fm_severity := perceivedSeverity n\<rparr>)\<rparr>)) (return rc)) ?Q F
          ((?w fm_zero)\<lparr>hist := h\<rparr>)"
        using F by (simp del: wp_bnd)
    qed (rule F)
    then show ?thesis using True unfolding make_alarm_def
      by (simp add: wp_get_fm case_prod_unfold del: wp_bnd) (simp add: wp_bnd [of _ "get_fm _"] wp_bnd [of _ "convertHeader4 E n _"] wp_get_fm case_prod_unfold del: wp_bnd)
  qed
  have a: "wp True (alloc_fm fm_zero) R F w = R (next_addr w) (?w fm_zero)" for R
    by (simp add: alloc_fm_def)
  show ?thesis
    unfolding callback_decide_def wp_if wp_andthen wp_return_fun wp_bnd [of _ "alloc_fm fm_zero"] wp_bnd [of _ "make_alarm E n _"] a
    using cm make by (auto simp: wp_do_call wp_free_fm simp del: wp_bnd intro!: inval)
qed

definition queued :: "addr list \<Rightarrow> addr list \<Rightarrow> addr list \<Rightarrow> addr \<Rightarrow> ntf_world \<Rightarrow> delivery \<Rightarrow> ntf_world \<Rightarrow> bool" where
  "queued as bs zs a w d v \<longleftrightarrow> owned v zs \<and> readOldAlarm v = readOldAlarm w \<and> readOldAlarmDone v = readOldAlarmDone w \<and>
     notified (hist v) = notified (hist w) \<and> next_addr w \<le> next_addr v \<and>
     (if readOldAlarm w then d = Stored \<and> reps v as (bs @ [a]) else d = SendNow a \<and> reps v as bs)"

lemma wp_callback_queue:
  assumes l: "reps w as bs" and o: "owned w zs" and nd: "readOldAlarm w \<Longrightarrow> \<not> dangling w"
    and Q: "\<And>d v. queued as bs zs a w d v \<Longrightarrow> Q d v" and F: "\<And>v. F Abort v"
  shows "wp False (callback_queue E n a) Q F w"
proof -
  let ?l = "(Ntf (MutexLock AlarmQueueLock), E (hist w) (Ntf (MutexLock AlarmQueueLock)))"
  let ?w = "w\<lparr>hist := hist w @ [?l]\<rparr>"
  let ?K = "\<lambda>d v. Q d (v\<lparr>hist := hist v @ [(Ntf (MutexUnlock AlarmQueueLock), E (hist v) (Ntf (MutexUnlock AlarmQueueLock)))]\<rparr>)"
  have K: "?K d v" if "queued as bs zs a w d v" for d v
  proof -
    have "queued as bs zs a w d (v\<lparr>hist := hist v @ [(Ntf (MutexUnlock AlarmQueueLock), x)]\<rparr>)" for x
      using that same_reps [OF same_hist, of "hist v @ [(Ntf (MutexUnlock AlarmQueueLock), x)]" v]
      by (auto simp: queued_def owned_def)
    then show ?thesis using Q by (simp add: wp_do_call)
  qed
  show ?thesis
  proof (cases "readOldAlarm w")
    case True
    obtain xs qs where x: "vl_rep w xs as" "q_rep w qs bs" using l by (auto simp: reps_def)
    have q: "q_rep ?w qs bs" by (rule q_rep_cong [OF x(2)]) simp_all
    have "wp False (push_alarm a) (\<lambda>_. ?K Stored) F ?w"
    proof (rule wp_push_alarm [OF q])
      show "\<not> dangling ?w" using nd [OF True] by (simp add: dangling_def)
      fix v ne
      assume v: "q_rep v (qs @ [ne]) (bs @ [a])" "v\<lparr>aos := aos ?w, alarmQueue := alarmQueue ?w, alarmQueueFront := alarmQueueFront ?w, next_addr := next_addr ?w\<rparr> = ?w"
        "next_addr ?w \<le> next_addr v"
      have f: "vls v = vls w" "nVlist4 v = nVlist4 w" "nVlLast4 v = nVlLast4 w" "fms v = fms w" "hist v = hist w @ [?l]"
        "mafSpiNtfFmVersion v = mafSpiNtfFmVersion w" "event_router_MAF v = event_router_MAF w"
        "readOldAlarm v = readOldAlarm w" "readOldAlarmDone v = readOldAlarmDone w"
        using arg_cong [OF v(2), of vls] arg_cong [OF v(2), of nVlist4] arg_cong [OF v(2), of nVlLast4] arg_cong [OF v(2), of fms]
          arg_cong [OF v(2), of hist] arg_cong [OF v(2), of mafSpiNtfFmVersion] arg_cong [OF v(2), of event_router_MAF]
          arg_cong [OF v(2), of readOldAlarm] arg_cong [OF v(2), of readOldAlarmDone] by simp_all
      have "vl_rep v xs as" by (rule vl_rep_cong [OF x(1)]) (use f v(3) in simp_all)
      then have "reps v as (bs @ [a])" using l f v(1) by (auto simp: reps_def)
      then show "?K Stored v" by (intro K) (use o f v(3) True in \<open>auto simp: queued_def owned_def\<close>)
    qed
    then show ?thesis using True by (simp add: callback_queue_def wp_do_call wp_return_fun)
  next
    case False
    let ?v = "?w\<lparr>callbackLastCmwNotificationID := getNotificationId n\<rparr>"
    have "?K (SendNow a) ?v"
    proof (rule K)
      have "reps ?v as bs" by (rule reps_cong [OF l]) simp_all
      then show "queued as bs zs a w (SendNow a) ?v" using False o by (simp add: queued_def owned_def)
    qed
    then show ?thesis using False by (simp add: callback_queue_def wp_do_call)
  qed
qed

text \<open>The rest of the call-back: \<open>telling d\<close> is what COM is told.\<close>

definition telling :: "delivery \<Rightarrow> addr list" where
  "telling d = (case d of SendNow a \<Rightarrow> [a] | _ \<Rightarrow> [])"

definition finished :: "addr list \<Rightarrow> addr list \<Rightarrow> addr list \<Rightarrow> ntf_world \<Rightarrow> delivery \<Rightarrow> ntf_world \<Rightarrow> bool" where
  "finished as bs zs w d v \<longleftrightarrow> reps v (as @ telling d) bs \<and> owned v (telling d @ zs) \<and> readOldAlarm v = readOldAlarm w \<and>
     readOldAlarmDone v = readOldAlarmDone w \<and> notified (hist v) = notified (hist w) @ telling d \<and> next_addr w \<le> next_addr v"

lemma wp_callback_finish:
  assumes l: "reps w as bs" and o: "owned w (in_hand d @ zs)" and d: "\<And>a. d \<noteq> AtQueue a"
    and Q: "\<And>v. finished as bs zs w d v \<Longrightarrow> Q () v" and F: "\<And>v. F Abort v"
  shows "wp False (callback_finish E n d) Q F w"
proof -
  let ?K = "wp False (if notificationType n = SA_NTF_TYPE_ALARM \<or> notificationType n = SA_NTF_TYPE_SECURITY_ALARM
          then do_call E (Ntf (SaNtfNotificationFree (notificationHandle n))) else return ()) Q F"
  have K: "?K v" if v: "finished as bs zs w d v" for v
  proof -
    have "finished as bs zs w d (v\<lparr>hist := hist v @ [(Ntf (SaNtfNotificationFree h), x)]\<rparr>)" for h x
      using v same_reps [OF same_hist, of "hist v @ [(Ntf (SaNtfNotificationFree h), x)]" v]
      by (auto simp: finished_def owned_def)
    then show ?thesis using v Q by (simp add: wp_do_call)
  qed
  show ?thesis
  proof (cases d)
    case (SendNow a)
    obtain xs qs where x: "vl_rep w xs as" "q_rep w qs bs" using l by (auto simp: reps_def)
    have "wp False (sendSaNtfNotification E a) (\<lambda>_. ?K) F w"
    proof (rule wp_sendSaNtfNotification [OF x(1)])
      fix v ne
      assume v: "vl_rep v (xs @ [ne]) (as @ [a])" "sent w a v"
      note f = sentD [OF v(2)]
      have "q_rep v qs bs" by (rule q_rep_cong [OF x(2)]) (use f in simp_all)
      then have "reps v (as @ [a]) bs" using v(1) f l by (auto simp: reps_def)
      moreover have "owned v (a # zs)" using o f SendNow by (force simp: owned_def in_hand_def)
      ultimately show "?K v" by (intro K) (use f SendNow in \<open>simp add: finished_def telling_def\<close>)
    qed (use l F in \<open>simp_all add: reps_def\<close>)
    then show ?thesis using SendNow by (simp add: callback_finish_def)
  next
    case (AtQueue a)
    then show ?thesis using d by simp
  next
    case (Dropped a)
    have "a \<in> dom (fms w)" using o Dropped by (simp add: owned_def in_hand_def)
    then obtain c where c: "fms w a = Some c" by blast
    have "?K (w\<lparr>fms := (fms w)(a := None)\<rparr>)"
    proof (rule K)
      have "reps (w\<lparr>fms := (fms w)(a := None)\<rparr>) as bs" by (rule reps_cong [OF l]) simp_all
      then show "finished as bs zs w d (w\<lparr>fms := (fms w)(a := None)\<rparr>)"
        using o Dropped by (auto simp: finished_def telling_def owned_def in_hand_def)
    qed
    then show ?thesis using Dropped c by (simp add: callback_finish_def wp_free_fm)
  next
    case Ended
    have "Q () w" by (rule Q) (use l o Ended in \<open>simp add: finished_def telling_def in_hand_def\<close>)
    then show ?thesis using Ended by (simp add: callback_finish_def)
  next
    case Stored
    have "?K w" by (rule K) (use l o Stored in \<open>simp add: finished_def telling_def in_hand_def\<close>)
    then show ?thesis using Stored by (simp add: callback_finish_def)
  qed
qed

end
