(* ===== verification/NtfReader.thy ===== *)
theory NtfReader
  imports NtfSystem
begin

text \<open>
  The notification service, part 11: what a whole call-back, and so the reader, does.  A program
  \<open>tells\<close> if all it does to the lists is to hand new alarms to COM, each of which COM is told.
\<close>

definition told :: "addr list \<Rightarrow> addr list \<Rightarrow> addr list \<Rightarrow> ntf_world \<Rightarrow> ntf_world \<Rightarrow> bool" where
  "told as bs zs w v \<longleftrightarrow> (\<exists>new. reps v (as @ new) bs \<and> owned v (new @ zs) \<and> notified (hist v) = notified (hist w) @ new \<and>
     (\<forall>a\<in>set new. next_addr w \<le> a)) \<and> next_addr w \<le> next_addr v \<and>
     readOldAlarm v = readOldAlarm w \<and> readOldAlarmDone v = readOldAlarmDone w"

lemma told_same: "same w v \<Longrightarrow> readOldAlarm v = readOldAlarm w \<Longrightarrow> reps w as bs \<Longrightarrow> owned w zs \<Longrightarrow> told as bs zs w v"
  using same_reps [of w v as bs] same_owned [of w v zs]
  by (auto simp: told_def same_def intro!: exI [of _ "[]"])

lemma owned_swap: "owned w (xs @ ys @ zs) \<Longrightarrow> owned w ((ys @ xs) @ zs)"
  by (auto simp: owned_def)

lemma told_step:
  assumes t: "told as bs zs w v"
    and m: "\<And>as' zs'. reps v as' bs \<Longrightarrow> owned v zs' \<Longrightarrow> wp True m (\<lambda>_. told as' bs zs' v) (\<lambda>_ _. True) v"
  shows "wp True m (\<lambda>_. told as bs zs w) (\<lambda>_ _. True) v"
proof -
  from t obtain new where n: "reps v (as @ new) bs" "owned v (new @ zs)" "notified (hist v) = notified (hist w) @ new"
      "\<forall>a\<in>set new. next_addr w \<le> a" "next_addr w \<le> next_addr v"
      "readOldAlarm v = readOldAlarm w" "readOldAlarmDone v = readOldAlarmDone w"
    by (auto simp: told_def)
  from m [OF n(1,2)] show ?thesis
  proof (rule wp_mono)
    fix u
    assume "told (as @ new) bs (new @ zs) v u"
    then obtain new' where n': "reps u ((as @ new) @ new') bs" "owned u (new' @ new @ zs)" "notified (hist u) = notified (hist v) @ new'"
        "\<forall>a\<in>set new'. next_addr v \<le> a" "next_addr v \<le> next_addr u"
        "readOldAlarm u = readOldAlarm v" "readOldAlarmDone u = readOldAlarmDone v"
      by (auto simp: told_def)
    have "\<forall>a\<in>set (new @ new'). next_addr w \<le> a" using n(4,5) n'(4) by auto
    moreover have "owned u ((new @ new') @ zs)" using n'(2) by (rule owned_swap)
    ultimately show "told as bs zs w u"
      unfolding told_def using n n' by (intro conjI exI [of _ "new @ new'"]) auto
  qed
qed

definition tells :: "'a ntfp \<Rightarrow> bool" where
  "tells m \<longleftrightarrow> (\<forall>w as bs zs. reps w as bs \<longrightarrow> owned w zs \<longrightarrow> wp True m (\<lambda>_. told as bs zs w) (\<lambda>_ _. True) w)"

lemma tellsD: "tells m \<Longrightarrow> reps w as bs \<Longrightarrow> owned w zs \<Longrightarrow> wp True m (\<lambda>_. told as bs zs w) (\<lambda>_ _. True) w"
  by (simp add: tells_def)

named_theorems tell

lemma tells_quiet: "quiet m \<Longrightarrow> tells m"
  unfolding tells_def by (auto intro!: quiet_same told_same)

lemma tells_bnd [tell]: "tells m \<Longrightarrow> (\<And>a. tells (k a)) \<Longrightarrow> tells (bnd m k)"
  unfolding tells_def [of "bnd m k"] wp_bnd
proof (intro allI impI)
  fix w as bs zs
  assume m: "tells m" and k: "\<And>a. tells (k a)" and w: "reps w as bs" "owned w zs"
  show "wp True m (\<lambda>a. wp True (k a) (\<lambda>_. told as bs zs w) (\<lambda>_ _. True)) (\<lambda>_ _. True) w"
    using tellsD [OF m w] by (rule wp_mono) (auto intro: told_step tellsD [OF k])
qed

lemma tells_andthen [tell]: "tells m \<Longrightarrow> tells k \<Longrightarrow> tells (andthen m k)"
  unfolding andthen_def by (rule tells_bnd)

lemma tells_if [tell]: "(b \<Longrightarrow> tells m) \<Longrightarrow> (\<not> b \<Longrightarrow> tells k) \<Longrightarrow> tells (if b then m else k)"
  by simp

lemma tells_case_option [tell]: "tells m \<Longrightarrow> (\<And>x. tells (k x)) \<Longrightarrow> tells (case v of None \<Rightarrow> m | Some x \<Rightarrow> k x)"
  by (cases v) simp_all

lemma tells_case_prod [tell]: "(\<And>x y. tells (k x y)) \<Longrightarrow> tells (case p of (x, y) \<Rightarrow> k x y)"
  by (cases p) simp

lemma tells_case_sum [tell]: "(\<And>x. tells (m x)) \<Longrightarrow> (\<And>x. tells (k x)) \<Longrightarrow> tells (case v of Inl x \<Rightarrow> m x | Inr x \<Rightarrow> k x)"
  by (cases v) simp_all

lemma tells_Let [tell]: "(\<And>x. tells (m x)) \<Longrightarrow> tells (Let y m)"
  by simp

lemma tells_modify: "(\<And>w. same w (f w) \<and> readOldAlarm (f w) = readOldAlarm w) \<Longrightarrow> tells (modify f)"
  unfolding tells_def by (auto intro: told_same)

lemmas tells_basic [tell] = quiet_return [THEN tells_quiet] quiet_die [THEN tells_quiet] quiet_gets [THEN tells_quiet]
  quiet_call [THEN tells_quiet] quiet_do_call [THEN tells_quiet]

lemma tells_while [tell]:
  fixes a :: 'a
  assumes "\<And>a. tells (body a)"
  shows "tells (while_prog b body a)"
  unfolding tells_def
proof (intro allI impI)
  fix w as bs zs
  assume w: "reps w as bs" "owned w zs"
  let ?I = "\<lambda>(_ :: 'a). told as bs zs w"
  show "wp True (while_prog b body a) ?I (\<lambda>_ _. True) w"
  proof (rule while_partial [where I = ?I])
    fix a v
    assume "told as bs zs w v"
    then show "if b a then wp True (body a) ?I (\<lambda>_ _. True) v else told as bs zs w v"
      by (auto intro: told_step tellsD [OF assms])
  next
    show "told as bs zs w w" by (rule told_same) (use w in simp_all)
  qed
qed

section \<open>Call-backs for old alarms\<close>

lemma tells_callback [tell]: "tells (saNtfNotificationCallback4 E 0 n)"
  unfolding tells_def saNtfNotificationCallback4_def wp_bnd
proof (intro allI impI)
  fix w as bs zs
  assume w: "reps w as bs" "owned w zs"
  show "wp True (callback_decide E 0 n) (\<lambda>d. wp True (case d of AtQueue a \<Rightarrow> callback_queue E n a | _ \<Rightarrow> return d)
      (\<lambda>d. wp True (callback_finish E n d) (\<lambda>_. told as bs zs w) (\<lambda>_ _. True)) (\<lambda>_ _. True)) (\<lambda>_ _. True) w"
  proof (rule wp_callback_decide [OF w])
    fix d v
    assume d: "decided as bs zs w 0 d v"
    then have nq: "d \<noteq> AtQueue a" for a by (simp add: decided_def)
    have "wp False (callback_finish E n d) (\<lambda>_. told as bs zs w) (\<lambda>_ _. True) v"
    proof (rule wp_callback_finish)
      show "reps v as bs" "owned v (in_hand d @ zs)" using d by (simp_all add: decided_def)
      fix u
      assume u: "finished as bs zs v d u"
      have "set (telling d) \<subseteq> set (in_hand d)" by (cases d) (auto simp: telling_def in_hand_def)
      then show "told as bs zs w u"
        using u d unfolding told_def finished_def decided_def by (intro conjI exI [of _ "telling d"]) auto
    qed (simp_all add: nq)
    then have "wp True (callback_finish E n d) (\<lambda>_. told as bs zs w) (\<lambda>_ _. True) v" by (rule wp_partial)
    then show "wp True (case d of AtQueue a \<Rightarrow> callback_queue E n a | _ \<Rightarrow> return d)
      (\<lambda>d. wp True (callback_finish E n d) (\<lambda>_. told as bs zs w) (\<lambda>_ _. True)) (\<lambda>_ _. True) v"
    proof (cases d)
      case (AtQueue a)
      then show ?thesis using nq [of a] by simp
    qed simp_all
  qed simp
qed

lemma quiet_close [quiets]: "quiet (close_reading E r)"
  unfolding close_reading_def by (intro quiets) simp_all

lemma quiet_free_read [quiets]: "quiet (free_read E n nh)"
  unfolding free_read_def by (intro quiets) simp_all

lemma tells_match_discarded [tell]: "tells (match_discarded E n fr nh is)"
  by (induction "is" arbitrary: fr nh) (auto intro!: tell quiet_free_read [THEN tells_quiet])

lemma tells_read_turn [tell]: "tells (read_turn E ids disc r nh)"
proof -
  have "tells (read_one E ids disc t n nh)" for t n nh
    unfolding read_one_def
    by (intro tell quiet_free_read [THEN tells_quiet] tells_modify) (simp_all add: same_def)
  then show ?thesis unfolding read_turn_def by (intro tell) simp_all
qed

lemma tells_read_loop [tell]: "tells (read_loop E ids disc r)"
  unfolding read_loop_def by (intro tell)

lemma tells_open_discarded: "tells (open_reading E True)"
proof -
  have "quiet (search_time E)" unfolding search_time_def by (intro quiets)
  moreover have "quiet (search_criteria True t)" for t unfolding search_criteria_def by (simp add: quiet_return)
  ultimately have "quiet (open_reading E True)" unfolding open_reading_def by (intro quiets) simp_all
  then show ?thesis by (rule tells_quiet)
qed

lemma tells_discarded: "tells (saNtfNotificationDiscardedCallback E ids)"
proof -
  have "readOldAlarms E ids True =
     bnd component_gone (\<lambda>g. if g then return SA_AIS_OK
     else bnd (open_reading E True) (\<lambda>s. case s of Inl rc \<Rightarrow> return rc
       | Inr r \<Rightarrow> bnd (read_loop E ids True r) (\<lambda>rc. andthen (close_reading E r) (return rc))))"
    by (rule ext, subst readOldAlarms.simps) (auto simp: bnd_def split: option.splits sum.splits)
  moreover have "quiet component_gone" unfolding component_gone_def by (intro quiets)
  ultimately have "tells (readOldAlarms E ids True)"
    by (simp only:) (intro tell tells_open_discarded quiet_close [THEN tells_quiet] tells_quiet [of component_gone])
  then show ?thesis unfolding saNtfNotificationDiscardedCallback_def by (intro tell)
qed

end
