(* ===== verification/NtfOrder.thy ===== *)
theory NtfOrder
  imports NtfReader
begin

text \<open>
  The notification service, part 12: the invariant of the system of poll thread, reader and COM.
  Every alarm has one owner, and COM is told the alarms in the order of their arrival.
\<close>

section \<open>One step of the reader\<close>

definition flag_rel :: "ntf_world \<Rightarrow> ntf_world \<Rightarrow> bool" where
  "flag_rel w v \<longleftrightarrow> same w v \<and> (readOldAlarm w \<longrightarrow> readOldAlarm v)"

interpretation flag: frame flag_rel
  by unfold_locales (auto simp: flag_rel_def elim: same_trans)

lemma flags_quiet: "quiet m \<Longrightarrow> pres flag_rel m"
  unfolding pres_def by (auto simp: flag_rel_def intro: quiet_same)

lemmas flags = flag.p_intros quiet_call [THEN flags_quiet] quiet_do_call [THEN flags_quiet] quiet_close [THEN flags_quiet]
  quiet_locks [THEN flags_quiet]

lemma flagsD: "pres flag_rel m \<Longrightarrow> (\<And>a v. same w v \<Longrightarrow> (readOldAlarm w \<Longrightarrow> readOldAlarm v) \<Longrightarrow> Q a v) \<Longrightarrow> wp True m Q (\<lambda>_ _. True) w"
  by (rule flag.pD) (auto simp: flag_rel_def)

lemma flags_open: "pres flag_rel (open_reading E False)"
proof -
  have "pres flag_rel (search_criteria False t)" for t
    unfolding search_criteria_def by (intro flags flag.p_modify) (simp_all add: same_def flag_rel_def)
  moreover have "pres flag_rel (search_time E)" unfolding search_time_def by (intro flags)
  ultimately show ?thesis unfolding open_reading_def by (intro flags) simp_all
qed

definition reader_result :: "addr list \<Rightarrow> addr list \<Rightarrow> addr list \<Rightarrow> ntf_world \<Rightarrow> reader_pc \<Rightarrow> ntf_world \<Rightarrow> bool" where
  "reader_result as bs zs w pc v \<longleftrightarrow> next_addr w \<le> next_addr v \<and>
     (readOldAlarmDone v \<longrightarrow> readOldAlarmDone w \<or> pc = REnd) \<and>
     ((\<exists>new. reps v (as @ new) bs \<and> owned v (new @ zs) \<and> notified (hist v) = notified (hist w) @ new \<and>
         (\<forall>a\<in>set new. next_addr w \<le> a) \<and> (\<not> readOldAlarm v \<longrightarrow> bs = [])) \<or>
      (\<exists>b bs'. bs = b # bs' \<and> reps v (as @ [b]) bs' \<and> owned v zs \<and> notified (hist v) = notified (hist w) @ [b] \<and>
         readOldAlarm v = readOldAlarm w))"

lemma reader_result_told:
  "told as bs zs w v \<Longrightarrow> \<not> readOldAlarm w \<longrightarrow> bs = [] \<Longrightarrow> reader_result as bs zs w pc v"
  by (auto simp: told_def reader_result_def)

lemma reader_result_same:
  assumes "same w v" "readOldAlarm w \<Longrightarrow> readOldAlarm v" "reps w as bs" "owned w zs" "\<not> readOldAlarm w \<longrightarrow> bs = []"
  shows "reader_result as bs zs w pc v"
  using assms same_reps [OF assms(1,3)] same_owned [OF assms(1,4)]
  by (auto simp: reader_result_def same_def intro!: exI [of _ "[]"])

lemma wp_reader_step:
  assumes w: "reps w as bs" "owned w zs" and old: "\<not> readOldAlarm w \<longrightarrow> bs = []" and b: "set bs \<subseteq> set zs"
  shows "wp True (reader_step E pc) (reader_result as bs zs w) (\<lambda>_ _. True) w"
proof (cases pc)
  case (RStart st k)
  have "pres flag_rel component_gone" unfolding component_gone_def by (intro flags)
  then have "pres flag_rel (reader_step E pc)" unfolding RStart reader_step.simps by (intro flags flags_open)
  then show ?thesis by (rule flagsD, intro reader_result_same) (use w old in auto)
next
  case (RLoop r nh st k)
  have "tells (reader_step E pc)" unfolding RLoop reader_step.simps by (intro tell)
  from tellsD [OF this w] show ?thesis by (rule wp_mono) (simp_all add: reader_result_told [OF _ old])
next
  case (RBehind rc r st k)
  have "pres flag_rel reader_done" unfolding reader_done_def by (intro flags)
  then have "pres flag_rel (reader_step E pc)" unfolding RBehind reader_step.simps by (intro flags) simp_all
  then show ?thesis by (rule flagsD, intro reader_result_same) (use w old in auto)
next
  case (RDrain rc st k)
  obtain xs qs where r: "vl_rep w xs as" "q_rep w qs bs" "mafSpiNtfFmVersion w = 4" "event_router_MAF w" using w by (auto simp: reps_def)
  have d: "reader_result as bs zs w pc' v" if d: "drained w as bs go v" for go v pc'
  proof (cases bs)
    case Nil
    then have "reps v as []" "owned v zs" using d w(2) by (auto simp: drained_def reps_def owned_def)
    then show ?thesis using d Nil unfolding reader_result_def
      by (intro conjI disjI1 exI [of _ "[]"]) (auto simp: drained_def)
  next
    case (Cons c cs)
    then have "reps v (as @ [c]) cs" "owned v zs"
      using d w(2) b by (auto simp: drained_def reps_def owned_def)
    then show ?thesis using d Cons unfolding reader_result_def
      by (intro conjI disjI2 exI [of _ c] exI [of _ cs]) (auto simp: drained_def)
  qed
  have "wp False (drain_one E) (\<lambda>go. reader_result as bs zs w (if go then RDrain rc st k else RReturn rc st k)) (\<lambda>_ _. True) w"
    by (rule wp_drain_one [OF r]) (auto intro: d)
  from wp_partial [OF this] show ?thesis
    unfolding RDrain using reader_result_same [of w w] w old
    by (simp add: drain_turn_def wp_return_fun)
next
  case (RReturn rc st k)
  have q: "quiet (close_all E st)" by (induction st) (auto intro!: quiets)
  have "wp True (close_all E st) (\<lambda>_. wp True (if rc = SA_AIS_ERR_TRY_AGAIN \<and> k < OAM_SA_NTF_MAX_RETRIES then
        andthen (do_call E (Usleep OAM_SA_NTF_RETRY_SLEEP)) (return (RStart [] (Suc k)))
      else andthen (modify (\<lambda>w. w\<lparr>readOldAlarmDone := True\<rparr>)) (return REnd)) (reader_result as bs zs w) (\<lambda>_ _. True)) (\<lambda>_ _. True) w"
  proof (rule quiet_same [OF q])
    fix v
    assume v: "same w v" "readOldAlarm v = readOldAlarm w"
    have again: "reader_result as bs zs w (RStart [] (Suc k)) (v\<lparr>hist := hist v @ [(Usleep t, a)]\<rparr>)" for t a
      by (rule reader_result_same) (use v w old in \<open>simp_all add: same_def\<close>)
    have l: "reps (v\<lparr>readOldAlarmDone := True\<rparr>) as bs"
      by (rule reps_cong [OF same_reps [OF v(1) w(1)]]) simp_all
    have e: "reader_result as bs zs w REnd (v\<lparr>readOldAlarmDone := True\<rparr>)"
      unfolding reader_result_def using l same_owned [OF v(1) w(2)] v old
      by (intro conjI disjI1 exI [of _ "[]"]) (auto simp: same_def owned_def)
    show "wp True (if rc = SA_AIS_ERR_TRY_AGAIN \<and> k < OAM_SA_NTF_MAX_RETRIES then
        andthen (do_call E (Usleep OAM_SA_NTF_RETRY_SLEEP)) (return (RStart [] (Suc k)))
      else andthen (modify (\<lambda>w. w\<lparr>readOldAlarmDone := True\<rparr>)) (return REnd)) (reader_result as bs zs w) (\<lambda>_ _. True) v"
      using again e by (simp add: wp_do_call)
  qed simp
  then show ?thesis unfolding RReturn by simp
next
  case REnd
  then show ?thesis using reader_result_same [of w w] w old by simp
qed

section \<open>The invariant\<close>

definition hand :: "ntf_system \<Rightarrow> addr list" where
  "hand s = (case poll_thread s of None \<Rightarrow> [] | Some (n, d) \<Rightarrow> in_hand d)"

definition waits :: "ntf_system \<Rightarrow> addr list" where
  "waits s = (case poll_thread s of None \<Rightarrow> [] | Some (n, d) \<Rightarrow> live d)"

definition told_of :: "ntf_system \<Rightarrow> addr list" where
  "told_of s = filter (\<lambda>a. a \<in> set (arrived s)) (notified (hist (ntf_state s)))"

definition in_order :: "ntf_system \<Rightarrow> addr list \<Rightarrow> bool" where
  "in_order s bs \<longleftrightarrow> told_of s @ bs @ waits s = arrived s \<and>
     (\<forall>n a. poll_thread s = Some (n, SendNow a) \<longrightarrow> bs = []) \<and>
     (readOldAlarmDone (ntf_state s) \<longrightarrow> \<not> readOldAlarm (ntf_state s))"

definition sys_inv :: "ntf_system \<Rightarrow> addr list \<Rightarrow> addr list \<Rightarrow> bool" where
  "sys_inv s as bs \<longleftrightarrow> reps (ntf_state s) as bs \<and> owned (ntf_state s) (hand s @ as @ bs) \<and>
     (\<not> readOldAlarm (ntf_state s) \<longrightarrow> bs = []) \<and> (\<forall>a\<in>set (arrived s). a < next_addr (ntf_state s)) \<and>
     (readOldAlarmDone (ntf_state s) \<longrightarrow> reader s = REnd) \<and> (\<not> gave_up s \<longrightarrow> in_order s bs)"

lemma sys_inv_start: "service_start w \<Longrightarrow> sys_inv (system_start w) [] []"
  by (auto simp: service_start_def system_start_def sys_inv_def reps_def vl_rep_def q_rep_def owned_def hand_def in_order_def
      told_of_def waits_def intro!: exI [of _ "[]"])

lemma owned_perm: "owned w xs \<Longrightarrow> set xs = set ys \<Longrightarrow> (distinct xs \<Longrightarrow> distinct ys) \<Longrightarrow> owned w ys"
  by (simp add: owned_def)

lemma filter_new:
  "\<forall>a\<in>set new. n \<le> a \<Longrightarrow> \<forall>a\<in>set xs. a < (n :: nat) \<Longrightarrow> filter (\<lambda>a. a \<in> set xs) (ys @ new) = filter (\<lambda>a. a \<in> set xs) ys"
  by (fastforce simp: filter_empty_conv)

lemma filter_grow:
  "\<forall>a\<in>set new. n \<le> a \<Longrightarrow> \<forall>a\<in>set ys. a < (n :: nat) \<Longrightarrow> filter (\<lambda>a. a \<in> set (xs @ new)) ys = filter (\<lambda>a. a \<in> set xs) ys"
  by (rule filter_cong) fastforce+

lemma step_arrive:
  assumes i: "sys_inv s as bs" and p: "poll_thread s = None" and sub: "sub \<noteq> 0"
    and d: "decided as bs (as @ bs) (ntf_state s) sub d w"
  shows "sys_inv (s\<lparr>ntf_state := w, poll_thread := Some (n, d), arrived := arrived s @ live d\<rparr>) as bs"
proof -
  let ?w = "ntf_state s"
  have old: "\<forall>a\<in>set (notified (hist ?w)). a < next_addr ?w" and arr: "\<forall>a\<in>set (arrived s). a < next_addr ?w"
    using i by (auto simp: sys_inv_def owned_def)
  have l: "set (live d) \<subseteq> set (in_hand d)" by (cases d) (auto simp: live_def in_hand_def)
  have o: "owned w (in_hand d @ as @ bs)" using d by (simp add: decided_def)
  then have new: "\<forall>a\<in>set (live d). a < next_addr w" using l by (auto simp: owned_def)
  have ge: "\<forall>a\<in>set (live d). next_addr ?w \<le> a" using d l by (auto simp: decided_def)
  have "in_order (s\<lparr>ntf_state := w, poll_thread := Some (n, d), arrived := arrived s @ live d\<rparr>) bs" (is "in_order ?s bs")
    if g: "\<not> gave_up s"
  proof -
    have io: "in_order s bs" using i g by (simp add: sys_inv_def)
    have "notified (hist w) = notified (hist ?w)" using d by (simp add: decided_def)
    then have "told_of ?s = told_of s"
      unfolding told_of_def using filter_grow [OF ge old] by simp
    moreover have "waits s = []" using p by (simp add: waits_def)
    moreover have "bs = []" if "d = SendNow a" for a
      using d that sub io i by (auto simp: decided_def in_order_def sys_inv_def)
    ultimately show ?thesis using io d by (auto simp: in_order_def waits_def decided_def)
  qed
  then show ?thesis using i d o new arr p
    by (auto simp: sys_inv_def hand_def decided_def)
qed

lemma step_queue:
  assumes i: "sys_inv s as bs" and p: "poll_thread s = Some (n, AtQueue a)"
    and d: "queued as bs (a # as @ bs) a (ntf_state s) d w"
  shows "\<exists>bs'. sys_inv (s\<lparr>ntf_state := w, poll_thread := Some (n, d)\<rparr>) as bs'"
proof (cases "readOldAlarm (ntf_state s)")
  case True
  let ?s = "s\<lparr>ntf_state := w, poll_thread := Some (n, d)\<rparr>"
  have d': "d = Stored" "reps w as (bs @ [a])" using d True by (simp_all add: queued_def)
  have "owned w (as @ bs @ [a])" by (rule owned_perm [of w "a # as @ bs"]) (use d in \<open>auto simp: queued_def\<close>)
  moreover have "in_order ?s (bs @ [a])" if "\<not> gave_up s"
    using that i d d' p True by (auto simp: sys_inv_def in_order_def told_of_def waits_def live_def queued_def)
  ultimately have "sys_inv ?s as (bs @ [a])"
    using i d d' p True by (auto simp: sys_inv_def hand_def in_hand_def queued_def)
  then show ?thesis by blast
next
  case False
  let ?s = "s\<lparr>ntf_state := w, poll_thread := Some (n, d)\<rparr>"
  have d': "d = SendNow a" "reps w as bs" using d False by (simp_all add: queued_def)
  have "in_order ?s bs" if "\<not> gave_up s"
    using that i d d' p False by (auto simp: sys_inv_def in_order_def told_of_def waits_def live_def queued_def)
  then have "sys_inv ?s as bs"
    using i d d' p False by (auto simp: sys_inv_def hand_def in_hand_def queued_def)
  then show ?thesis by blast
qed

lemma step_finish:
  assumes i: "sys_inv s as bs" and p: "poll_thread s = Some (n, d)" and nq: "\<And>a. d \<noteq> AtQueue a"
    and f: "finished as bs (as @ bs) (ntf_state s) d w"
  shows "\<exists>as'. sys_inv (s\<lparr>ntf_state := w, poll_thread := None\<rparr>) as' bs"
proof -
  let ?s = "s\<lparr>ntf_state := w, poll_thread := None\<rparr>"
  have "owned w ((as @ telling d) @ bs)"
    by (rule owned_perm [of w "telling d @ as @ bs"]) (use f in \<open>auto simp: finished_def\<close>)
  moreover have "in_order ?s bs" if g: "\<not> gave_up s"
  proof (cases "\<exists>a. d = SendNow a")
    case True
    then obtain a where a: "d = SendNow a" by blast
    have io: "told_of s @ bs @ [a] = arrived s" "bs = []" using i g p a by (auto simp: sys_inv_def in_order_def waits_def live_def)
    then have "a \<in> set (arrived s)" by (metis append_Nil in_set_conv_decomp)
    then have "told_of ?s = told_of s @ [a]" using f a by (simp add: told_of_def finished_def telling_def)
    then show ?thesis using io i g p f by (auto simp: sys_inv_def in_order_def waits_def finished_def)
  next
    case False
    then have "telling d = []" "live d = []" using nq by (cases d; simp add: telling_def live_def)+
    then show ?thesis using i g p f by (auto simp: sys_inv_def in_order_def waits_def finished_def told_of_def)
  qed
  ultimately have "sys_inv ?s (as @ telling d) bs"
    using i f by (auto simp: sys_inv_def hand_def finished_def)
  then show ?thesis by blast
qed

lemma step_read:
  assumes i: "sys_inv s as bs" and e: "reader s \<noteq> REnd"
    and r: "reader_result as bs (hand s @ as @ bs) (ntf_state s) pc w"
  shows "\<exists>as' bs'. sys_inv (s\<lparr>ntf_state := w, reader := pc, gave_up := gave_up s \<or> pc = REnd \<and> readOldAlarm w\<rparr>) as' bs'"
    (is "\<exists>as' bs'. sys_inv ?s as' bs'")
proof -
  let ?w = "ntf_state s"
  have nd: "\<not> readOldAlarmDone ?w" using i e by (auto simp: sys_inv_def)
  have arr: "\<forall>a\<in>set (arrived s). a < next_addr ?w" using i by (simp add: sys_inv_def)
  from r have mono: "next_addr ?w \<le> next_addr w" and dn: "readOldAlarmDone w \<longrightarrow> pc = REnd"
    and ways: "(\<exists>new. reps w (as @ new) bs \<and> owned w (new @ hand s @ as @ bs) \<and> notified (hist w) = notified (hist ?w) @ new \<and>
         (\<forall>a\<in>set new. next_addr ?w \<le> a) \<and> (\<not> readOldAlarm w \<longrightarrow> bs = [])) \<or>
      (\<exists>b bs'. bs = b # bs' \<and> reps w (as @ [b]) bs' \<and> owned w (hand s @ as @ bs) \<and> notified (hist w) = notified (hist ?w) @ [b] \<and>
         readOldAlarm w = readOldAlarm ?w)"
    using nd by (simp_all add: reader_result_def)
  have arr': "\<forall>a\<in>set (arrived ?s). a < next_addr (ntf_state ?s)" using arr mono by auto
  from ways show ?thesis
  proof (elim disjE exE conjE)
    fix new
    assume a: "reps w (as @ new) bs" "owned w (new @ hand s @ as @ bs)" "notified (hist w) = notified (hist ?w) @ new"
      "\<forall>a\<in>set new. next_addr ?w \<le> a" "\<not> readOldAlarm w \<longrightarrow> bs = []"
    have "owned w (hand s @ (as @ new) @ bs)" by (rule owned_perm [OF a(2)]) auto
    moreover have "in_order ?s bs" if g: "\<not> gave_up ?s"
    proof -
      have "told_of ?s = told_of s" unfolding told_of_def using a(3) filter_new [OF a(4) arr] by simp
      then show ?thesis using i g dn by (auto simp: sys_inv_def in_order_def waits_def)
    qed
    ultimately have "sys_inv ?s (as @ new) bs" using a arr' dn by (simp add: sys_inv_def hand_def)
    then show ?thesis by blast
  next
    fix b bs'
    assume a: "bs = b # bs'" "reps w (as @ [b]) bs'" "owned w (hand s @ as @ bs)" "notified (hist w) = notified (hist ?w) @ [b]"
      "readOldAlarm w = readOldAlarm ?w"
    have "owned w (hand s @ (as @ [b]) @ bs')" by (rule owned_perm [OF a(3)]) (auto simp: a(1))
    moreover have "in_order ?s bs'" if g: "\<not> gave_up ?s"
    proof -
      have io: "told_of s @ (b # bs') @ waits s = arrived s" "\<And>n a. poll_thread s \<noteq> Some (n, SendNow a)"
        using i g a(1) by (auto simp: sys_inv_def in_order_def)
      have "b \<in> set (arrived s)" using arg_cong [OF io(1), of set] by auto
      then have "told_of ?s = told_of s @ [b]" using a(4) by (simp add: told_of_def)
      then show ?thesis using io g dn by (auto simp: in_order_def waits_def)
    qed
    moreover have "readOldAlarm w" using a(1,5) i by (auto simp: sys_inv_def)
    ultimately have "sys_inv ?s (as @ [b]) bs'" using a arr' dn by (simp add: sys_inv_def hand_def)
    then show ?thesis by blast
  qed
qed

lemma step_discarded:
  assumes i: "sys_inv s as bs" and t: "told as bs (hand s @ as @ bs) (ntf_state s) w"
  shows "\<exists>as'. sys_inv (s\<lparr>ntf_state := w\<rparr>) as' bs"
proof -
  let ?s = "s\<lparr>ntf_state := w\<rparr>"
  have arr: "\<forall>a\<in>set (arrived s). a < next_addr (ntf_state s)" using i by (simp add: sys_inv_def)
  from t obtain new where a: "reps w (as @ new) bs" "owned w (new @ hand s @ as @ bs)"
    "notified (hist w) = notified (hist (ntf_state s)) @ new" "\<forall>a\<in>set new. next_addr (ntf_state s) \<le> a"
    and m: "next_addr (ntf_state s) \<le> next_addr w" "readOldAlarm w = readOldAlarm (ntf_state s)"
      "readOldAlarmDone w = readOldAlarmDone (ntf_state s)"
    by (auto simp: told_def)
  have "owned w (hand s @ (as @ new) @ bs)" by (rule owned_perm [OF a(2)]) auto
  moreover have "told_of ?s = told_of s" unfolding told_of_def using a(3) filter_new [OF a(4) arr] by simp
  then have "in_order ?s bs" if "\<not> gave_up s" using i that m by (simp add: sys_inv_def in_order_def waits_def)
  moreover have "\<forall>a\<in>set (arrived s). a < next_addr w" using arr m(1) by auto
  ultimately have "sys_inv ?s (as @ new) bs" using a(1) m i by (simp add: sys_inv_def hand_def)
  then show ?thesis by blast
qed

lemma step_same:
  assumes i: "sys_inv s as bs" and w: "same (ntf_state s) w" "readOldAlarm w = readOldAlarm (ntf_state s)"
  shows "sys_inv (s\<lparr>ntf_state := w\<rparr>) as bs"
  using i same_reps [OF w(1), of as bs] same_owned [OF w(1), of "hand s @ as @ bs"] w
  by (auto simp: sys_inv_def hand_def in_order_def told_of_def waits_def same_def)

lemma owned_sub:
  assumes "owned w xs" "distinct ys" "dom (fms v) = set ys" "set ys \<subseteq> set xs" "next_addr w \<le> next_addr v"
    "notified (hist v) = notified (hist w)"
  shows "owned v ys"
  unfolding owned_def
proof (intro conjI ballI)
  fix a
  assume "a \<in> set ys"
  then have "a < next_addr w" using assms(1,4) by (auto simp: owned_def)
  then show "a < next_addr v" using assms(5) by simp
next
  fix a
  assume "a \<in> set (notified (hist v))"
  then have "a < next_addr w" using assms(1,6) by (auto simp: owned_def)
  then show "a < next_addr v" using assms(5) by simp
qed (rule assms)+

lemma step_release:
  assumes i: "sys_inv s as bs" and d: "done_result (ntf_state s) as x rv w" 
  shows "\<exists>as'. sys_inv (s\<lparr>ntf_state := w\<rparr>) as' bs"
proof -
  let ?s = "s\<lparr>ntf_state := w\<rparr>" and ?w = "ntf_state s"
  obtain qs where q: "q_rep ?w qs bs" and o: "owned ?w (hand s @ as @ bs)" and l: "mafSpiNtfFmVersion ?w = 4" "event_router_MAF ?w"
    using i by (auto simp: sys_inv_def reps_def)
  define u where "u = (if x \<in> set as then ?w\<lparr>fms := (fms ?w)(x := None)\<rparr> else ?w)"
  have f: "list_frame u w" using d by (auto simp: done_result_def u_def split: if_splits)
  note g = list_frameD [OF f]
  have u: "aos u = aos ?w" "alarmQueue u = alarmQueue ?w" "alarmQueueFront u = alarmQueueFront ?w" "next_addr u = next_addr ?w"
    "mafSpiNtfFmVersion u = 4" "event_router_MAF u" "hist u = hist ?w" "readOldAlarm u = readOldAlarm ?w"
    "readOldAlarmDone u = readOldAlarmDone ?w"
    using l by (simp_all add: u_def)
  have "q_rep w qs bs" by (rule q_rep_cong [OF q]) (use g u in simp_all)
  moreover have "\<exists>zs. vl_rep w zs (remove1 x as)"
    using d by (auto simp: done_result_def remove1_idem split: if_splits)
  ultimately have "reps w (remove1 x as) bs" using g u by (auto simp: reps_def)
  moreover have "distinct as" using o by (simp add: owned_def)
  then have "owned w (hand s @ remove1 x as @ bs)"
  proof (intro owned_sub [OF o])
    have d: "distinct (hand s @ as @ bs)" using o by (simp add: owned_def)
    then show "distinct (hand s @ remove1 x as @ bs)" by (auto simp: set_remove1_eq)
    have f: "dom (fms ?w) = set (hand s @ as @ bs)" using o by (simp add: owned_def)
    show "dom (fms w) = set (hand s @ remove1 x as @ bs)"
    proof (cases "x \<in> set as")
      case True
      have "dom (fms w) = dom (fms ?w) - {x}" using g(1) True by (auto simp: u_def)
      also have "\<dots> = set (hand s @ remove1 x as @ bs)" unfolding f using d True by (auto simp: set_remove1_eq)
      finally show ?thesis .
    next
      case False
      then show ?thesis using g(1) f by (simp add: u_def remove1_idem)
    qed
    show "set (hand s @ remove1 x as @ bs) \<subseteq> set (hand s @ as @ bs)" using set_remove1_subset [of x as] by auto
  qed (use g u in simp_all)
  moreover have "in_order ?s bs" if "\<not> gave_up s"
    using i that g u by (simp add: sys_inv_def in_order_def told_of_def waits_def)
  moreover have "\<forall>a\<in>set (arrived s). a < next_addr w" using i g u by (auto simp: sys_inv_def)
  ultimately have "sys_inv ?s (remove1 x as) bs"
    using i g u by (simp add: sys_inv_def hand_def)
  then show ?thesis by blast
qed

lemma step_done:
  assumes i: "sys_inv s as bs" and d: "doneWithValue_V4 E ty val (ntf_state s) = Some (Inr (rv, w))"
  shows "\<exists>as'. sys_inv (s\<lparr>ntf_state := w\<rparr>) as' bs"
proof (cases "known_type ty \<and> val \<noteq> None")
  case True
  then obtain x where x: "val = Some x" "known_type ty" by blast
  obtain xs where r: "vl_rep (ntf_state s) xs as" "mafSpiNtfFmVersion (ntf_state s) = 4" "distinct as" "set as \<subseteq> dom (fms (ntf_state s))"
    using i by (auto simp: sys_inv_def reps_def owned_def)
  have "wp False (doneWithValue E ty (Some x)) (\<lambda>rv w. \<exists>as'. sys_inv (s\<lparr>ntf_state := w\<rparr>) as' bs) (\<lambda>_ _. True) (ntf_state s)"
    by (rule wp_doneWithValue [OF r x(2)]) (auto intro: step_release [OF i])
  then show ?thesis using d x(1) by (auto simp: doneWithValue_V4_def dest: wp_Inr)
next
  case False
  have "quiet (doneWithValue_V4 E ty val)"
  proof (cases val)
    case None
    then show ?thesis by (auto simp: doneWithValue_V4_def doneWithValue_def intro!: quiets)
  next
    case (Some x)
    then have "\<not> known_type ty" using False by simp
    then show ?thesis using Some
      by (auto simp: doneWithValue_V4_def doneWithValue_def known_type_def intro!: quiets)
  qed
  then have "wp True (doneWithValue_V4 E ty val) (\<lambda>rv w. sys_inv (s\<lparr>ntf_state := w\<rparr>) as bs) (\<lambda>_ _. True) (ntf_state s)"
    by (rule quiet_same) (auto intro: step_same [OF i])
  then show ?thesis using d by (auto dest: wp_Inr)
qed

theorem sys_inv_step:
  assumes "ntf_step E s s'" and "sys_inv s as bs"
  shows "\<exists>as' bs'. sys_inv s' as' bs'"
  using assms
proof (induction rule: ntf_step.induct)
  case (arrive s sub n d w)
  have "reps (ntf_state s) as bs" "owned (ntf_state s) (as @ bs)"
    using arrive by (auto simp: sys_inv_def hand_def)
  then have "wp True (callback_decide E sub n) (decided as bs (as @ bs) (ntf_state s) sub) (\<lambda>_ _. True) (ntf_state s)"
    by (rule wp_callback_decide) simp_all
  from step_arrive [OF arrive(4,1,3) wp_Inr [OF this arrive(2)]] show ?case by blast
next
  case (queue s n a d w)
  have o: "reps (ntf_state s) as bs" "owned (ntf_state s) (a # as @ bs)"
    using queue by (auto simp: sys_inv_def hand_def in_hand_def)
  have "wp True (callback_queue E n a) (queued as bs (a # as @ bs) a (ntf_state s)) (\<lambda>_ _. True) (ntf_state s)"
  proof (cases "dangling (ntf_state s) \<and> readOldAlarm (ntf_state s)")
    case True
    let ?w = "(ntf_state s)\<lparr>hist := hist (ntf_state s) @ [(Ntf (MutexLock AlarmQueueLock), E (hist (ntf_state s)) (Ntf (MutexLock AlarmQueueLock)))]\<rparr>"
    obtain qs where "q_rep (ntf_state s) qs bs" using o by (auto simp: reps_def)
    then have "q_rep ?w qs bs" by (rule q_rep_cong) simp_all
    then obtain v where "push_alarm a ?w = Some (Inl (Wild, v))" using push_dangling [of ?w qs bs] True by (auto simp: dangling_def)
    then show ?thesis using True by (simp add: callback_queue_def wp_do_call) (simp add: wp_def)
  next
    case False
    show ?thesis by (rule wp_partial, rule wp_callback_queue [OF o]) (use False in simp_all)
  qed
  from step_queue [OF queue(3,1) wp_Inr [OF this queue(2)]] show ?case by blast
next
  case (finish s n d u w)
  have o: "reps (ntf_state s) as bs" "owned (ntf_state s) (in_hand d @ as @ bs)"
    using finish by (auto simp: sys_inv_def hand_def)
  have "wp False (callback_finish E n d) (\<lambda>_. finished as bs (as @ bs) (ntf_state s) d) (\<lambda>_ _. True) (ntf_state s)"
    by (rule wp_callback_finish [OF o finish(2)]) simp_all
  from step_finish [OF finish(4,1,2) wp_Inr [OF this finish(3)]] show ?case by blast
next
  case (discarded s ids u w)
  have "wp True (saNtfNotificationDiscardedCallback E ids) (\<lambda>_. told as bs (hand s @ as @ bs) (ntf_state s)) (\<lambda>_ _. True) (ntf_state s)"
    by (rule tellsD [OF tells_discarded]) (use discarded in \<open>simp_all add: sys_inv_def\<close>)
  from step_discarded [OF discarded(3) wp_Inr [OF this discarded(2)]] show ?case by blast
next
  case (read s pc w)
  have "wp True (reader_step E (reader s)) (reader_result as bs (hand s @ as @ bs) (ntf_state s)) (\<lambda>_ _. True) (ntf_state s)"
    by (rule wp_reader_step) (use read in \<open>auto simp: sys_inv_def\<close>)
  from step_read [OF read(3,1) wp_Inr [OF this read(2)]] show ?case .
next
  case (release ty val s rv w)
  from step_done [OF release(2,1)] show ?case by blast
next
  case (stop s)
  have "sys_inv (s\<lparr>ntf_state := (ntf_state s)\<lparr>ntf_stop_thread := True\<rparr>\<rparr>) as bs"
    by (rule step_same [OF stop]) (simp_all add: same_def)
  then show ?case by blast
qed

lemma sys_inv_run:
  assumes "ntf_run E s s'" "sys_inv s as bs"
  shows "\<exists>as' bs'. sys_inv s' as' bs'"
proof -
  have "(ntf_step E)\<^sup>*\<^sup>* s s'" using assms(1) by (simp add: ntf_run_def)
  then show ?thesis
  proof (induction rule: rtranclp_induct)
    case base
    then show ?case using assms(2) by blast
  next
    case (step y z)
    then show ?case using sys_inv_step by blast
  qed
qed

end
