(* ===== verification/NtfDemo.thy ===== *)
theory NtfDemo
  imports NtfOrder
begin

text \<open>
  The notification service, part 13: a run of the system, step by step, for the examples.
  An alarm arrives while the reader is about to read the old alarms, and waits in the queue.  A second one
  arrives and is about to be queued when the reader sends the first.
\<close>

definition result :: "'a ntfp \<Rightarrow> ntf_world \<Rightarrow> 'a option" where
  "result m w = (case m w of Some (Inr (a, v)) \<Rightarrow> Some a | _ \<Rightarrow> None)"

definition after :: "'a ntfp \<Rightarrow> ntf_world \<Rightarrow> ntf_world" where
  "after m w = (case m w of Some (Inr (a, v)) \<Rightarrow> v | _ \<Rightarrow> w)"

lemma result_after: "result m w = Some a \<Longrightarrow> m w = Some (Inr (a, after m w))"
  by (auto simp: result_def after_def split: option.splits sum.splits)

definition demo_outside :: outside where
  "demo_outside h c = (case c of Ntf (SaNtfNotificationReadNext r) \<Rightarrow> yes\<lparr>a_rc := SA_AIS_ERR_NOT_EXIST\<rparr> | _ \<Rightarrow> yes)"

definition demo_world :: ntf_world where
  "demo_world = \<lparr>hist = [], imm_version_latest = imm_version, ntfHandle = 1, addFilter_setup = True, is_ntf_stop_component = False,
     ntf_stop_thread = False, uuid_cfg_flag = UuidDisableHandle, readOldAlarm = False, lastNotificationMatched = False,
     readOldAlarmDone = False, sReaderMaxRetries = 0, alarmQueue = None, alarmQueueFront = None,
     callbackLastCmwNotificationID = 0, readerLastNotificationID = 0, producer_handle = 2, event_router_MAF = True,
     consumer_handle = 3, nFilter_V4 = \<lparr>consumerHandle = 5, eventType = Some FmEventType_4,
       filter_of = Some \<lparr>f_addr = 9, f_first = Some None\<rparr>, subscriptionId = COMSA_NTF_SUBSCRIPTION_ID\<rparr>,
     nVlist4 = None, nVlLast4 = None, isSubscribed = False, notificationFilterHandles = (0, 0, 0), mafSpiNtfFmVersion = 4,
     reason_failing_over = False, ntf_poll = timerCreateHandle_r, bExtendedNameEnabled = False, cc_name = ''com'',
     fms = Map.empty, fms2 = Map.empty, vls = Map.empty, aos = Map.empty, next_addr = 0\<rparr>"

definition demo_alarm :: SaNtfNotificationsT where
  "demo_alarm = \<lparr>notificationType = SA_NTF_TYPE_ALARM, notificationHandle = 8,
     notificationHeader = \<lparr>nh_eventType = SA_NTF_TYPE_ALARM, notificationObject = ''3GPPManagedElement=1'', notifyingObject = ''a=1'',
       vendorId = 193, majorId = 4, minorId = 5, nh_eventTime = 100, notificationId_ptr = 4096, notificationId = 17,
       nh_additionalText = None, nh_additionalInfo = []\<rparr>, perceivedSeverity = 3, thresholdInformation = None,
     probableCause = SA_NTF_UNSPECIFIED_REASON, trend = SA_NTF_TREND_NO_CHANGE\<rparr>"

definition demo_reading :: reading where
  "demo_reading = \<lparr>rd_time = 0, rd_alarms = 7, rd_security = 7, rd_search = 7\<rparr>"

definition "demo1 = after (reader_step demo_outside (RStart [] 0)) demo_world"
definition "demo2 = after (callback_decide demo_outside COMSA_NTF_SUBSCRIPTION_ID demo_alarm) demo1"
definition "demo3 = after (callback_queue demo_outside demo_alarm 0) demo2"
definition "demo4 = after (callback_finish demo_outside demo_alarm Stored) demo3"
definition "demo5 = after (callback_decide demo_outside COMSA_NTF_SUBSCRIPTION_ID demo_alarm) demo4"
definition "demo6 = after (reader_step demo_outside (RLoop demo_reading None [] 0)) demo5"
definition "demo7 = after (reader_step demo_outside (RBehind SA_AIS_OK demo_reading [] 0)) demo6"
definition "demo8 = after (reader_step demo_outside (RDrain SA_AIS_OK [demo_reading] 0)) demo7"

lemma demo_results:
  "result (reader_step demo_outside (RStart [] 0)) demo_world = Some (RLoop demo_reading None [] 0)"
  "result (callback_decide demo_outside COMSA_NTF_SUBSCRIPTION_ID demo_alarm) demo1 = Some (AtQueue 0)"
  "result (callback_queue demo_outside demo_alarm 0) demo2 = Some Stored"
  "result (callback_finish demo_outside demo_alarm Stored) demo3 = Some ()"
  "result (callback_decide demo_outside COMSA_NTF_SUBSCRIPTION_ID demo_alarm) demo4 = Some (AtQueue 2)"
  "result (reader_step demo_outside (RLoop demo_reading None [] 0)) demo5 = Some (RBehind SA_AIS_OK demo_reading [] 0)"
  "result (reader_step demo_outside (RBehind SA_AIS_OK demo_reading [] 0)) demo6 = Some (RDrain SA_AIS_OK [demo_reading] 0)"
  "result (reader_step demo_outside (RDrain SA_AIS_OK [demo_reading] 0)) demo7 = Some (RDrain SA_AIS_OK [demo_reading] 0)"
  by code_simp+

section \<open>The run\<close>

definition demo_system :: "ntf_world \<Rightarrow> delivery option \<Rightarrow> reader_pc \<Rightarrow> addr list \<Rightarrow> ntf_system" where
  "demo_system w d pc as = \<lparr>ntf_state = w, poll_thread = map_option (\<lambda>d. (demo_alarm, d)) d, reader = pc, arrived = as, gave_up = False\<rparr>"

lemma demo_start: "service_start demo_world" "system_start demo_world = demo_system demo_world None (RStart [] 0) []"
  by (simp_all add: service_start_def demo_world_def system_start_def demo_system_def)

lemma demo_read:
  assumes "result (reader_step demo_outside pc) w = Some pc'" "pc \<noteq> REnd" "pc' \<noteq> REnd"
  shows "ntf_step demo_outside (demo_system w d pc as) (demo_system (after (reader_step demo_outside pc) w) d pc' as)"
  using ntf_step.read [of "demo_system w d pc as" demo_outside pc' "after (reader_step demo_outside pc) w"]
    result_after [OF assms(1)] assms(2,3) by (simp add: demo_system_def)

lemma demo_arrive:
  assumes "result (callback_decide demo_outside COMSA_NTF_SUBSCRIPTION_ID demo_alarm) w = Some d"
  shows "ntf_step demo_outside (demo_system w None pc as)
    (demo_system (after (callback_decide demo_outside COMSA_NTF_SUBSCRIPTION_ID demo_alarm) w) (Some d) pc (as @ live d))"
  using ntf_step.arrive [of "demo_system w None pc as" demo_outside COMSA_NTF_SUBSCRIPTION_ID demo_alarm d] result_after [OF assms]
  by (simp add: demo_system_def COMSA_NTF_SUBSCRIPTION_ID_def)

lemma demo_queue:
  assumes "result (callback_queue demo_outside demo_alarm a) w = Some d"
  shows "ntf_step demo_outside (demo_system w (Some (AtQueue a)) pc as)
    (demo_system (after (callback_queue demo_outside demo_alarm a) w) (Some d) pc as)"
  using ntf_step.queue [of "demo_system w (Some (AtQueue a)) pc as" demo_alarm a demo_outside d] result_after [OF assms]
  by (simp add: demo_system_def)

lemma demo_finish:
  assumes "result (callback_finish demo_outside demo_alarm d) w = Some ()" "\<And>a. d \<noteq> AtQueue a"
  shows "ntf_step demo_outside (demo_system w (Some d) pc as)
    (demo_system (after (callback_finish demo_outside demo_alarm d) w) None pc as)"
  using ntf_step.finish [of "demo_system w (Some d) pc as" demo_alarm d demo_outside "()"] result_after [OF assms(1)] assms(2)
  by (simp add: demo_system_def)

lemma demo_run:
  "ntf_run demo_outside (system_start demo_world) (demo_system demo8 (Some (AtQueue 2)) (RDrain SA_AIS_OK [demo_reading] 0) [0, 2])"
proof -
  note r = demo_results
  have "ntf_step demo_outside (system_start demo_world) (demo_system demo1 None (RLoop demo_reading None [] 0) [])"
    using demo_read [OF r(1)] by (simp add: demo_start demo1_def)
  moreover have "ntf_step demo_outside (demo_system demo1 None (RLoop demo_reading None [] 0) [])
      (demo_system demo2 (Some (AtQueue 0)) (RLoop demo_reading None [] 0) [0])"
    using demo_arrive [OF r(2), of "RLoop demo_reading None [] 0" "[]"] by (simp add: demo2_def live_def)
  moreover have "ntf_step demo_outside (demo_system demo2 (Some (AtQueue 0)) (RLoop demo_reading None [] 0) [0])
      (demo_system demo3 (Some Stored) (RLoop demo_reading None [] 0) [0])"
    using demo_queue [OF r(3)] by (simp add: demo3_def)
  moreover have "ntf_step demo_outside (demo_system demo3 (Some Stored) (RLoop demo_reading None [] 0) [0])
      (demo_system demo4 None (RLoop demo_reading None [] 0) [0])"
    using demo_finish [OF r(4)] by (simp add: demo4_def)
  moreover have "ntf_step demo_outside (demo_system demo4 None (RLoop demo_reading None [] 0) [0])
      (demo_system demo5 (Some (AtQueue 2)) (RLoop demo_reading None [] 0) [0, 2])"
    using demo_arrive [OF r(5), of "RLoop demo_reading None [] 0" "[0]"] by (simp add: demo5_def live_def)
  moreover have "ntf_step demo_outside (demo_system demo5 (Some (AtQueue 2)) (RLoop demo_reading None [] 0) [0, 2])
      (demo_system demo6 (Some (AtQueue 2)) (RBehind SA_AIS_OK demo_reading [] 0) [0, 2])"
    using demo_read [OF r(6)] by (simp add: demo6_def)
  moreover have "ntf_step demo_outside (demo_system demo6 (Some (AtQueue 2)) (RBehind SA_AIS_OK demo_reading [] 0) [0, 2])
      (demo_system demo7 (Some (AtQueue 2)) (RDrain SA_AIS_OK [demo_reading] 0) [0, 2])"
    using demo_read [OF r(7)] by (simp add: demo7_def)
  moreover have "ntf_step demo_outside (demo_system demo7 (Some (AtQueue 2)) (RDrain SA_AIS_OK [demo_reading] 0) [0, 2])
      (demo_system demo8 (Some (AtQueue 2)) (RDrain SA_AIS_OK [demo_reading] 0) [0, 2])"
    using demo_read [OF r(8)] by (simp add: demo8_def)
  ultimately show ?thesis unfolding ntf_run_def by (meson rtranclp.rtrancl_into_rtrancl rtranclp.rtrancl_refl)
qed

end
