(* ===== verification/NtfProps.thy ===== *)
theory NtfProps
  imports NtfDemo
begin

text \<open>
  The notification service, part 14: the properties of the delivery of alarms.
\<close>

section \<open>Order and ownership\<close>

definition only_aborts :: "'a ntfp \<Rightarrow> ntf_world \<Rightarrow> bool" where
  "only_aborts m w \<longleftrightarrow> (case m w of None \<Rightarrow> False | Some (Inl (f, v)) \<Rightarrow> f = Abort | Some (Inr _) \<Rightarrow> True)"

lemma only_aborts: "wp False m (\<lambda>_ _. True) (\<lambda>f _. f = Abort) w \<Longrightarrow> only_aborts m w"
  by (auto simp: only_aborts_def wp_def split: option.splits sum.splits)

lemma run_inv: "service_start w \<Longrightarrow> ntf_run E (system_start w) s \<Longrightarrow> \<exists>as bs. sys_inv s as bs"
  by (rule sys_inv_run [OF _ sys_inv_start])

text \<open>
  C1. Alarms reach COM in the order in which they arrived, and none is lost.  In every run of poll
  thread, reader and COM that has not ended in a fault, unless the reader has given up: the live
  alarms COM was told, followed by those in the queue and the one in the hands of the poll thread,
  are the live alarms that arrived, in order.
\<close>

theorem alarms_in_order:
  assumes "service_start w" "ntf_run E (system_start w) s" "\<not> gave_up s"
  shows "\<exists>qs bs. q_rep (ntf_state s) qs bs \<and> told_of s @ bs @ waits s = arrived s"
  using run_inv [OF assms(1,2)] assms(3) by (auto simp: sys_inv_def in_order_def reps_def)

lemma alarms_in_order_witness:
  "service_start demo_world \<and> (\<exists>s. ntf_run demo_outside (system_start demo_world) s \<and> arrived s = [0, 2] \<and>
     (\<exists>qs bs. q_rep (ntf_state s) qs bs \<and> told_of s @ bs @ waits s = arrived s))"
  using alarms_in_order [OF demo_start(1) demo_run] demo_run demo_start(1) by (fastforce simp: demo_system_def)

text \<open>
  C2. Every alarm has exactly one owner.  At every point of every run that has not ended in a fault,
  the alarms in memory are the one in the hands of the poll thread, those COM holds and those in the queue, each
  of them once: no alarm is leaked, and none belongs to two.
\<close>

theorem alarms_owned_once:
  assumes "service_start w" "ntf_run E (system_start w) s"
  shows "\<exists>xs as qs bs. vl_rep (ntf_state s) xs as \<and> q_rep (ntf_state s) qs bs \<and>
    distinct (hand s @ as @ bs) \<and> dom (fms (ntf_state s)) = set (hand s @ as @ bs)"
proof -
  obtain as bs where "sys_inv s as bs" using run_inv [OF assms] by blast
  then obtain xs qs where "vl_rep (ntf_state s) xs as" "q_rep (ntf_state s) qs bs" "owned (ntf_state s) (hand s @ as @ bs)"
    by (auto simp: sys_inv_def reps_def)
  then show ?thesis unfolding owned_def by blast
qed

lemma alarms_owned_once_witness:
  "service_start demo_world \<and> (\<exists>s xs as qs bs. ntf_run demo_outside (system_start demo_world) s \<and> hand s = [2] \<and>
     vl_rep (ntf_state s) xs as \<and> q_rep (ntf_state s) qs bs \<and>
     distinct (hand s @ as @ bs) \<and> dom (fms (ntf_state s)) = set (hand s @ as @ bs))"
proof -
  have "hand (demo_system demo8 (Some (AtQueue 2)) (RDrain SA_AIS_OK [demo_reading] 0) [0, 2]) = [2]"
    by (simp add: hand_def demo_system_def in_hand_def)
  then show ?thesis using alarms_owned_once [OF demo_start(1) demo_run] demo_run demo_start(1) by blast
qed

section \<open>Memory faults\<close>

text \<open>
  C3. What can go wrong with the memory of the queue and of the alarms.  At every point of every
  run, sending what waits, giving back an alarm and the end of a call-back return or end the process
  only because a lock is refused.  The same holds for queueing an alarm, except while the
  old alarms are read and the tail of the queue is a stale pointer: then it writes to freed memory.
\<close>

theorem queue_faults:
  assumes "service_start w" "ntf_run E (system_start w) s"
  shows "only_aborts (drain_turn E) (ntf_state s) \<and>
    (known_type ty \<longrightarrow> only_aborts (doneWithValue_V4 E ty (Some x)) (ntf_state s)) \<and>
    (poll_thread s = Some (n, d) \<and> (\<forall>a. d \<noteq> AtQueue a) \<longrightarrow> only_aborts (callback_finish E n d) (ntf_state s)) \<and>
    (poll_thread s = Some (n, AtQueue a) \<longrightarrow>
      (if readOldAlarm (ntf_state s) \<and> dangling (ntf_state s)
       then \<exists>v. callback_queue E n a (ntf_state s) = Some (Inl (Wild, v))
       else only_aborts (callback_queue E n a) (ntf_state s)))"
proof -
  let ?w = "ntf_state s"
  obtain as bs where i: "sys_inv s as bs" using run_inv [OF assms] by blast
  then obtain xs qs where r: "vl_rep ?w xs as" and q: "q_rep ?w qs bs" and l: "mafSpiNtfFmVersion ?w = 4" "event_router_MAF ?w"
      and o: "reps ?w as bs" "owned ?w (hand s @ as @ bs)"
    by (auto simp: sys_inv_def reps_def)
  have 1: "only_aborts (drain_turn E) ?w"
    by (rule only_aborts) (auto simp: drain_turn_def intro!: wp_drain_one [OF r q l])
  have 2: "only_aborts (doneWithValue_V4 E ty (Some x)) ?w" if "known_type ty"
    unfolding doneWithValue_V4_def
    by (rule only_aborts, rule wp_doneWithValue [OF r l(1) _ _ that]) (use o(2) in \<open>auto simp: owned_def\<close>)
  have 3: "only_aborts (callback_finish E n d) ?w" if "poll_thread s = Some (n, d)" "\<forall>a. d \<noteq> AtQueue a"
    by (rule only_aborts, rule wp_callback_finish [OF o(1)]) (use o(2) that in \<open>auto simp: hand_def\<close>)
  have 4: "only_aborts (callback_queue E n a) ?w" if "\<not> (readOldAlarm ?w \<and> dangling ?w)"
    by (rule only_aborts, rule wp_callback_queue [OF o]) (use that in auto)
  have 5: "\<exists>v. callback_queue E n a ?w = Some (Inl (Wild, v))" if t: "readOldAlarm ?w" "dangling ?w"
  proof -
    let ?v = "?w\<lparr>hist := hist ?w @ [(Ntf (MutexLock AlarmQueueLock), E (hist ?w) (Ntf (MutexLock AlarmQueueLock)))]\<rparr>"
    have "q_rep ?v qs bs" by (rule q_rep_cong [OF q]) simp_all
    moreover have "dangling ?v" using t(2) by (simp add: dangling_def)
    ultimately obtain u where "push_alarm a ?v = Some (Inl (Wild, u))" using push_dangling by blast
    then show ?thesis using t(1) by (simp add: callback_queue_def andthen_def do_call_def call_def bnd_def gets_def return_def Let_def)
  qed
  show ?thesis using 1 2 3 4 5 by simp
qed

lemma queue_faults_witness:
  "service_start demo_world \<and> (\<exists>s. ntf_run demo_outside (system_start demo_world) s \<and>
     only_aborts (drain_turn demo_outside) (ntf_state s) \<and> known_type None \<and>
     only_aborts (doneWithValue_V4 demo_outside None (Some 0)) (ntf_state s))"
  using queue_faults [OF demo_start(1) demo_run, of None 0 demo_alarm Stored 2] demo_run demo_start(1)
  by (auto simp: known_type_def)

text \<open>
  C23. The fault happens: from the start of the service a run leads to a point where the poll
  thread is to queue an alarm just after the reader has sent the last one in the queue, and the
  next step of the poll thread writes to the freed node of that alarm.
\<close>

theorem queue_use_after_free:
  "service_start demo_world \<and>
   (\<exists>s n a v. ntf_run demo_outside (system_start demo_world) s \<and> poll_thread s = Some (n, AtQueue a) \<and>
      callback_queue demo_outside n a (ntf_state s) = Some (Inl (Wild, v)))"
proof -
  have "(case callback_queue demo_outside demo_alarm 2 demo8 of Some (Inl (f, v)) \<Rightarrow> f = Wild | _ \<Rightarrow> False)"
    by code_simp
  then obtain v where "callback_queue demo_outside demo_alarm 2 demo8 = Some (Inl (Wild, v))"
    by (auto split: option.splits sum.splits)
  then show ?thesis using demo_start(1) demo_run by (fastforce simp: demo_system_def)
qed

end
