(* ===== verification/NtfLedger.thy ===== *)
theory NtfLedger
  imports NtfDemo
begin

text \<open>
  The notification service, part 15: the contract between COM and the service about the alarms COM
  holds.  COM gives back alarms one by one; what it may rely on is stated once, for any
  keeper of a list of things, and holds for \<open>doneWithValue_V4\<close>.
\<close>

primrec back_all :: "('a \<Rightarrow> 'w \<Rightarrow> bool \<Rightarrow> 'w \<Rightarrow> bool) \<Rightarrow> 'a list \<Rightarrow> 'w \<Rightarrow> 'w \<Rightarrow> bool" where
  "back_all gb [] w v \<longleftrightarrow> v = w"
| "back_all gb (a # as) w v \<longleftrightarrow> (\<exists>ok u. gb a w ok u \<and> back_all gb as u v)"

locale ledger =
  fixes rep :: "'w \<Rightarrow> 'a list \<Rightarrow> bool" and gb :: "'a \<Rightarrow> 'w \<Rightarrow> bool \<Rightarrow> 'w \<Rightarrow> bool" and mem :: "'w \<Rightarrow> 'a set"
  assumes rep_distinct: "rep w as \<Longrightarrow> distinct as"
    and back_rep: "rep w as \<Longrightarrow> gb a w ok v \<Longrightarrow> rep v (remove1 a as)"
    and back_ok: "rep w as \<Longrightarrow> gb a w ok v \<Longrightarrow> ok \<longleftrightarrow> a \<in> set as"
    and back_mem: "rep w as \<Longrightarrow> gb a w ok v \<Longrightarrow> mem v = mem w - {a} \<inter> set as"
begin

lemma back_all_rep: "rep w as \<Longrightarrow> back_all gb bs w v \<Longrightarrow> rep v (filter (\<lambda>a. a \<notin> set bs) as) \<and> mem v = mem w - set bs \<inter> set as"
proof (induction bs arbitrary: w as)
  case Nil
  then show ?case by simp
next
  case (Cons b bs)
  then obtain ok u where u: "gb b w ok u" "back_all gb bs u v" by auto
  have d: "distinct as" using rep_distinct Cons.prems(1) .
  from Cons.IH [OF back_rep [OF Cons.prems(1) u(1)] u(2)] back_mem [OF Cons.prems(1) u(1)] d
  show ?case by (auto simp: distinct_remove1_removeAll removeAll_filter_not_eq conj_commute eq_commute [of b])
qed

lemma twice: "rep w as \<Longrightarrow> gb a w ok u \<Longrightarrow> gb a u ok' v \<Longrightarrow> \<not> ok'"
  using back_rep [of w as a ok u] back_ok [of u "remove1 a as" a ok' v] rep_distinct [of w as] by auto

end

definition com_holds :: "ntf_world \<Rightarrow> addr list \<Rightarrow> bool" where
  "com_holds w as \<longleftrightarrow> (\<exists>xs. vl_rep w xs as) \<and> mafSpiNtfFmVersion w = 4 \<and> distinct as \<and> set as \<subseteq> dom (fms w)"

definition gives_back :: "outside \<Rightarrow> addr \<Rightarrow> ntf_world \<Rightarrow> bool \<Rightarrow> ntf_world \<Rightarrow> bool" where
  "gives_back E a w ok v \<longleftrightarrow> (\<exists>rv. doneWithValue_V4 E None (Some a) w = Some (Inr (rv, v)) \<and> ok = (rv = MafOk))"

lemma gives_back_done:
  assumes "com_holds w as" "gives_back E a w ok v"
  shows "com_holds v (remove1 a as) \<and> (ok \<longleftrightarrow> a \<in> set as) \<and> dom (fms v) = dom (fms w) - {a} \<inter> set as"
proof -
  obtain xs where r: "vl_rep w xs as" "mafSpiNtfFmVersion w = 4" "distinct as" "set as \<subseteq> dom (fms w)"
    using assms(1) by (auto simp: com_holds_def)
  obtain rv where d: "doneWithValue E None (Some a) w = Some (Inr (rv, v))" "ok = (rv = MafOk)"
    using assms(2) by (auto simp: gives_back_def doneWithValue_V4_def)
  have "wp False (doneWithValue E None (Some a)) (done_result w as a) (\<lambda>_ _. True) w"
    by (rule wp_doneWithValue [OF r]) (simp_all add: known_type_def)
  then have "done_result w as a rv v" using d(1) by (rule wp_Inr)
  then show ?thesis
    using r d(2) list_frameD(1,9) [of "w\<lparr>fms := (fms w)(a := None)\<rparr>" v] list_frameD(1,9) [of w v] set_remove1_subset [of a as]
    by (auto simp: done_result_def com_holds_def remove1_idem set_remove1_eq split: if_splits)
qed

interpretation com_alarms: ledger com_holds "gives_back E" "\<lambda>w. dom (fms w)" for E
proof
  show "com_holds w as \<Longrightarrow> distinct as" for w as by (simp add: com_holds_def)
qed (use gives_back_done in blast)+

section \<open>The properties\<close>

text \<open>
  C7. What COM gives back is released, once.  When COM holds the alarms \<open>as\<close> and gives back
  alarms in any order, those it held among them, and only those, leave the memory and the list; an
  alarm given back a second time is refused.
\<close>

theorem alarms_given_back:
  assumes "com_holds w as"
  shows "(back_all (gives_back E) bs w v \<longrightarrow>
      com_holds v (filter (\<lambda>a. a \<notin> set bs) as) \<and> dom (fms v) = dom (fms w) - set bs \<inter> set as) \<and>
    (gives_back E a w ok u \<and> gives_back E a u ok' v \<longrightarrow> \<not> ok')"
  using com_alarms.back_all_rep [OF assms] com_alarms.twice [OF assms] by blast

lemma demo_holds: "com_holds demo8 [0]"
proof -
  obtain as bs where i: "sys_inv (demo_system demo8 (Some (AtQueue 2)) (RDrain SA_AIS_OK [demo_reading] 0) [0, 2]) as bs"
    using sys_inv_run [OF demo_run sys_inv_start [OF demo_start(1)]] by blast
  then obtain xs where r: "vl_rep demo8 xs as" "mafSpiNtfFmVersion demo8 = 4" "distinct as" "set as \<subseteq> dom (fms demo8)"
    by (auto simp: sys_inv_def demo_system_def reps_def owned_def)
  have e: "nVlist4 demo8 = Some 3" "nVlLast4 demo8 = Some 3" "map_option vl_comNot (vls demo8 3) = Some 0" by code_simp+
  have ne: "xs \<noteq> []" using r(1) e(1) by (auto simp: vl_rep_def)
  then obtain ys where ys: "xs = ys @ [3]" using r(1) e(2) last_split [OF ne] by (auto simp: vl_rep_def)
  have "ys = []"
  proof (cases ys)
    case (Cons y zs)
    then have "y = 3" using r(1) e(1) ys by (simp add: vl_rep_def)
    then show ?thesis using r(1) ys Cons by (simp add: vl_rep_def)
  qed simp
  then have "as = [0]" using r(1) ys e(3) by (auto simp: vl_rep_def holds_alarm_def)
  then show ?thesis using r by (auto simp: com_holds_def)
qed

lemma alarms_given_back_witness:
  "com_holds demo8 [0] \<and> (\<exists>u. gives_back demo_outside 0 demo8 True u \<and> com_holds u [] \<and>
     (\<forall>ok v. gives_back demo_outside 0 u ok v \<longrightarrow> \<not> ok))"
proof -
  obtain xs where r: "vl_rep demo8 xs [0]" "mafSpiNtfFmVersion demo8 = 4" "0 \<in> dom (fms demo8)"
    using demo_holds by (auto simp: com_holds_def)
  let ?w = "demo8\<lparr>hist := hist demo8 @ [(Ntf (MutexLock ListLock), demo_outside (hist demo8) (Ntf (MutexLock ListLock)))]\<rparr>"
  have n: "a_num (demo_outside h (Ntf (MutexLock l))) = 0" "a_num (demo_outside h (Ntf (MutexUnlock l))) = 0" for h l
    by (simp_all add: demo_outside_def yes_def)
  have "wp False (release_value 4 0) (\<lambda>rv. wp False (mutex_unlock demo_outside ListLock) (\<lambda>_ _. rv = MafOk) (\<lambda>_ _. False)) (\<lambda>_ _. False) ?w"
    by (rule wp_release_value [of _ xs "[0]"]) (use r in \<open>auto simp: wp_mutex_unlock n Let_def\<close>)
  then have "wp False (doneWithValue_V4 demo_outside None (Some 0)) (\<lambda>rv _. rv = MafOk) (\<lambda>_ _. False) demo8"
    using r(2) by (simp add: doneWithValue_V4_def doneWithValue_def wp_mutex_lock n Let_def wp_unlock_return)
  then have "\<exists>u. doneWithValue_V4 demo_outside None (Some 0) demo8 = Some (Inr (MafOk, u))"
    by (auto simp: wp_def split: option.splits sum.splits)
  then obtain u where g: "gives_back demo_outside 0 demo8 True u" by (auto simp: gives_back_def)
  then have b: "back_all (gives_back demo_outside) [0] demo8 u" by auto
  have 2: "\<not> ok'" if "gives_back demo_outside 0 u ok' v" for ok' v
    using alarms_given_back [OF demo_holds, of demo_outside "[]" v 0 True u ok'] g that by blast
  have "com_holds u []" using alarms_given_back [OF demo_holds, of demo_outside "[0]" u] b by simp
  then show ?thesis using g demo_holds 2 by blast
qed

end
