(* ===== verification/NtfText.thy ===== *)
theory NtfText
  imports NtfDemo
begin

text \<open>
  The notification service, part 16: the properties of the conversion of alarms.
\<close>

section \<open>Identifiers of alarms\<close>

definition fine :: "'a ntfp \<Rightarrow> bool" where
  "fine m \<longleftrightarrow> (\<forall>w. wp False m (\<lambda>_ _. True) (\<lambda>_ _. False) w)"

lemma fine_name: "fine (getAdditionalInfoName E h i)"
  by (auto simp: fine_def getAdditionalInfoName_def convertTo3Gpp_def wp_call split: option.split)

lemma fineD: "fine m \<Longrightarrow> (\<And>a v. Q a v) \<Longrightarrow> wp False m Q F w"
  unfolding fine_def by (erule allE [of _ w], erule wp_mono) auto

lemma fine_bnd: "fine m \<Longrightarrow> (\<And>a. fine (k a)) \<Longrightarrow> fine (bnd m k)"
  unfolding fine_def [of "bnd m k"] wp_bnd by (auto intro!: fineD [of m] fineD [of "k _"])

lemma fine_basic: "fine (return r)" "fine (gets f)"
  by (simp_all add: fine_def)

text \<open>The answers in a trace are those of the surroundings.\<close>

primrec answered_by :: "outside \<Rightarrow> history \<Rightarrow> history \<Rightarrow> bool" where
  "answered_by E h [] \<longleftrightarrow> True"
| "answered_by E h (p # t) \<longleftrightarrow> snd p = E h (fst p) \<and> answered_by E (h @ [p]) t"

text \<open>The identifiers in the answers to the requests for them: strings of at most 36 characters.\<close>

definition identifiers :: "history \<Rightarrow> string list" where
  "identifiers t = List.map_filter (\<lambda>(c, a). if a_rc a = SA_AIS_OK then
     case a_text a of None \<Rightarrow> None | Some v \<Rightarrow> if length v \<le> UUID_LENGTH then Some v else None else None) t"

definition uuid_calls :: "handle \<Rightarrow> SaNtfAdditionalInfoT list \<Rightarrow> ocall list" where
  "uuid_calls h is = map (\<lambda>i. Ntf (SaNtfPtrValGet h (infoValue i))) (filter is_uuid is)"

fun joined :: "string list \<Rightarrow> string" where
  "joined [] = []"
| "joined [v] = v"
| "joined (v # vs) = v @ '','' @ joined vs"

lemma identifiers_simps [simp]:
  "identifiers [] = []"
  "identifiers ((c, a) # t) = (if a_rc a = SA_AIS_OK then case a_text a of None \<Rightarrow> identifiers t
     | Some v \<Rightarrow> if length v \<le> UUID_LENGTH then v # identifiers t else identifiers t else identifiers t)"
  by (simp_all add: identifiers_def List.map_filter_simps split: option.split)

lemma uuid_calls_simps [simp]:
  "uuid_calls h [] = []"
  "uuid_calls h (i # is) = (if is_uuid i then [Ntf (SaNtfPtrValGet h (infoValue i))] else []) @ uuid_calls h is"
  by (simp_all add: uuid_calls_def)

lemma joined_commas: "vs \<noteq> [] \<Longrightarrow> butlast (concat (map (\<lambda>v. v @ '','') vs)) = joined vs"
  by (induction vs rule: joined.induct) (auto simp: butlast_append)

lemma commas_empty: "concat (map (\<lambda>v. v @ '','') vs) = [] \<longleftrightarrow> vs = []"
  by (cases vs) auto

lemma name_of_uuid: "is_uuid i \<Longrightarrow> getAdditionalInfoName E h i =
    bnd (call E (Ntf (SaNtfPtrValGet h (infoValue i)))) (\<lambda>a. return (if a_rc a = SA_AIS_OK then a_text a else None))"
  by (simp add: getAdditionalInfoName_def is_uuid_def)

lemma collect_exact:
  "length dest + (UUID_LENGTH + 1) * length (filter is_uuid is) \<le> space \<Longrightarrow>
   \<exists>t. collect_uuids E h space is dest w =
      Some (Inr (dest @ concat (map (\<lambda>v. v @ '','') (identifiers t)), w\<lparr>hist := hist w @ t\<rparr>)) \<and>
    answered_by E (hist w) t \<and> map fst t = uuid_calls h is"
proof (induction "is" arbitrary: dest w)
  case Nil
  then show ?case by (intro exI [of _ "[]"]) (simp add: return_def)
next
  case (Cons i "is")
  show ?case
  proof (cases "is_uuid i")
    case False
    then show ?thesis using Cons by simp
  next
    case True
    define c where "c = Ntf (SaNtfPtrValGet h (infoValue i))"
    define a where "a = E (hist w) c"
    define w1 where "w1 = w\<lparr>hist := hist w @ [(c, a)]\<rparr>"
    define vs where "vs = identifiers [(c, a)]"
    define new where "new = dest @ concat (map (\<lambda>v. v @ '','') vs)"
    have len: "length new \<le> length dest + (UUID_LENGTH + 1)" by (simp add: new_def vs_def split: option.split)
    have run: "collect_uuids E h space (i # is) dest w = collect_uuids E h space is new w1"
      using Cons.prems True
      by (simp add: name_of_uuid c_def [symmetric] bnd_def call_run return_def a_def [symmetric] w1_def [symmetric]
          new_def vs_def split: option.split)
    have "length new + (UUID_LENGTH + 1) * length (filter is_uuid is) \<le> space" using len Cons.prems True by simp
    from Cons.IH [OF this, of w1] obtain t where t: "collect_uuids E h space is new w1 =
        Some (Inr (new @ concat (map (\<lambda>v. v @ '','') (identifiers t)), w1\<lparr>hist := hist w1 @ t\<rparr>))"
      "answered_by E (hist w1) t" "map fst t = uuid_calls h is" by blast
    have "identifiers ((c, a) # t) = vs @ identifiers t" by (simp add: vs_def split: option.split)
    then show ?thesis using t run True
      by (intro exI [of _ "(c, a) # t"]) (simp add: new_def w1_def a_def c_def)
  qed
qed

lemma identifiers_length: "length (identifiers t) \<le> length t" "\<forall>v \<in> set (identifiers t). length v \<le> UUID_LENGTH"
  by (induction t) (auto simp: le_SucI split: option.splits if_splits)

lemma joined_length: "\<forall>v \<in> set vs. length v \<le> UUID_LENGTH \<Longrightarrow> length (joined vs) \<le> 37 * length vs"
  by (induction vs rule: joined.induct) (auto simp: UUID_LENGTH_def)

lemma uuid_exact:
  "\<exists>r t. getUUIDFromAdditionalInfo E nh h w = Some (Inr (r, w\<lparr>hist := hist w @ t\<rparr>)) \<and> answered_by E (hist w) t \<and>
     map fst t = (if uuid_cfg_flag w = UuidMapValueToAddText \<and> vendorId nh = ERICSSON_VENDOR_ID
                  then uuid_calls h (nh_additionalInfo nh) else []) \<and>
     r = (if identifiers t = [] then None else Some (UUID_ADDTEXT_HEADER @ joined (identifiers t)))"
proof (cases "uuid_cfg_flag w = UuidMapValueToAddText \<and> vendorId nh = ERICSSON_VENDOR_ID")
  case False
  then show ?thesis
    by (intro exI [of _ None] exI [of _ "[]"]) (auto simp: getUUIDFromAdditionalInfo_def bnd_def gets_def return_def)
next
  case True
  let ?is = "nh_additionalInfo nh" and ?n = "length (filter is_uuid (nh_additionalInfo nh))"
  show ?thesis
  proof (cases "?n = 0")
    case none: True
    then have "uuid_calls h ?is = []" by (simp add: uuid_calls_def)
    then show ?thesis using True none
      by (intro exI [of _ None] exI [of _ "[]"]) (auto simp: getUUIDFromAdditionalInfo_def bnd_def gets_def return_def Let_def)
  next
    case False
    obtain t where t: "collect_uuids E h (?n * (UUID_LENGTH + 1)) ?is [] w =
        Some (Inr (concat (map (\<lambda>v. v @ '','') (identifiers t)), w\<lparr>hist := hist w @ t\<rparr>))"
      "answered_by E (hist w) t" "map fst t = uuid_calls h ?is"
      using collect_exact [of "[]" ?is "?n * (UUID_LENGTH + 1)" E h w] by auto
    show ?thesis using True False t
      by (intro exI [of _ "if identifiers t = [] then None else Some (UUID_ADDTEXT_HEADER @ joined (identifiers t))"] exI [of _ t])
        (simp add: getUUIDFromAdditionalInfo_def bnd_def gets_def return_def Let_def commas_empty joined_commas
          del: concat_eq_Nil_conv)
  qed
qed

lemma uuid_fine:
  "\<exists>r v. getUUIDFromAdditionalInfo E nh h w = Some (Inr (r, v))"
  using uuid_exact by blast

text \<open>
  C40. Collecting the identifiers of an alarm always ends and never writes outside its buffer.  If it is
  switched on and the alarm is Ericsson's, each additional information that is an identifier is asked for
  once, in order, and nothing else is.  The result is the header \<open>;uuid:\<close> and, in that order and separated by
  commas, the answers of at most 36 characters, or nothing if there is none; it is never longer than the
  buffer.
\<close>

theorem uuid_text_exact:
  "\<exists>r t. getUUIDFromAdditionalInfo E nh h w = Some (Inr (r, w\<lparr>hist := hist w @ t\<rparr>)) \<and> answered_by E (hist w) t \<and>
     map fst t = (if uuid_cfg_flag w = UuidMapValueToAddText \<and> vendorId nh = ERICSSON_VENDOR_ID
                  then uuid_calls h (nh_additionalInfo nh) else []) \<and>
     r = (if identifiers t = [] then None else Some (UUID_ADDTEXT_HEADER @ joined (identifiers t))) \<and>
     length (case r of None \<Rightarrow> [] | Some x \<Rightarrow> x) \<le> length UUID_ADDTEXT_HEADER + 37 * length (filter is_uuid (nh_additionalInfo nh))"
proof -
  obtain r t where t: "getUUIDFromAdditionalInfo E nh h w = Some (Inr (r, w\<lparr>hist := hist w @ t\<rparr>))" "answered_by E (hist w) t"
    "map fst t = (if uuid_cfg_flag w = UuidMapValueToAddText \<and> vendorId nh = ERICSSON_VENDOR_ID
                  then uuid_calls h (nh_additionalInfo nh) else [])"
    "r = (if identifiers t = [] then None else Some (UUID_ADDTEXT_HEADER @ joined (identifiers t)))"
    using uuid_exact by blast
  have "length t \<le> length (filter is_uuid (nh_additionalInfo nh))"
    using arg_cong [OF t(3), of length] by (simp add: uuid_calls_def split: if_splits)
  then have "length (joined (identifiers t)) \<le> 37 * length (filter is_uuid (nh_additionalInfo nh))"
    using joined_length [OF identifiers_length(2), of t] identifiers_length(1) [of t] by linarith
  then show ?thesis using t by (intro exI [of _ r] exI [of _ t]) simp
qed

section \<open>Numbers of alarms\<close>

lemma number_parts: "push_bit 16 (ucast (ucast (x div 65536) :: 16 word)) OR ucast (ucast (x mod 65536) :: 16 word) = (x :: 32 word)"
proof (rule bit_word_eqI)
  fix n
  assume n: "n < LENGTH(32)"
  have d: "x div 65536 = drop_bit 16 x" "x mod 65536 = take_bit 16 x"
    by (simp_all add: drop_bit_eq_div take_bit_eq_mod)
  show "bit (push_bit 16 (ucast (ucast (x div 65536) :: 16 word)) OR ucast (ucast (x mod 65536) :: 16 word) :: 32 word) n = bit x n"
    unfolding d using n
    by (auto simp: bit_or_iff bit_push_bit_iff bit_unsigned_iff bit_drop_bit_eq bit_take_bit_iff)
qed

lemma wp_any: "(\<And>a v. Q a v) \<Longrightarrow> (\<And>f v. F f v) \<Longrightarrow> wp True m Q F w"
  by (simp add: wp_def split: option.split sum.split)

definition numbered :: "MafOamSpiNotificationFmStruct_4T \<Rightarrow> SaNtfNotificationHeaderT \<Rightarrow> bool" where
  "numbered c nh \<longleftrightarrow> vendorId nh = majorType c \<and> majorId nh = ucast (minorType c div 65536) \<and>
     minorId nh = ucast (minorType c mod 65536) \<and> nh_eventTime nh = eventTime c"

lemma numbered_fill: "numbered c (fill_header c nh)" "numbered c ((fill_header c nh)\<lparr>nh_additionalInfo := is\<rparr>)"
  by (simp_all add: numbered_def fill_header_def)

lemma to_ntf_numbered:
  "wp True (convertMafHeader4ToNtf E c nh h) (\<lambda>(rc, nh) v. rc = MafOk \<longrightarrow> numbered c nh) (\<lambda>_ _. True) w"
proof (cases "fm_dn c")
  case None
  then show ?thesis by (simp add: convertMafHeader4ToNtf_def)
next
  case (Some dn)
  show ?thesis unfolding convertMafHeader4ToNtf_def Some option.case wp_bnd
    by (rule wp_any) (auto simp: Let_def wp_return_fun numbered_fill
        intro!: wp_any [where m = "put_infos E h k is" for k "is"] split: option.split)
qed

lemma legacy_numbers:
  "wp True (legacy_header E n c) (\<lambda>(rc, d) v. rc = MafOk \<longrightarrow> majorType d = vendorId (notificationHeader n) \<and>
     minorType d = push_bit 16 (ucast (majorId (notificationHeader n))) OR ucast (minorId (notificationHeader n)) \<and>
     eventTime d = nh_eventTime (notificationHeader n)) (\<lambda>_ _. True) w"
proof -
  have "wp True (copyAdditionalInfo E nh h c') (\<lambda>d v. eventTime d = eventTime c') (\<lambda>_ _. True) u" for nh h c' u
    unfolding copyAdditionalInfo_def wp_bnd
    by (auto simp: wp_return_fun intro!: wp_any [where m = "copy_infos E h nh cfg is" for cfg "is"])
  note copy = wp_mono [OF this]
  note any = wp_any [where m = "alarm_text E n"] wp_any [where m = "convertTo3GPPDN E no" for no]
  show ?thesis unfolding legacy_header_def Let_def wp_bnd
    by (auto simp: wp_return_fun intro!: copy any split: option.split)
qed

text \<open>
  The number of an alarm survives the way from COM to the notification service and back.  When
  COM's alarm is converted to the header of a notification and a notification with this header is converted for
  COM, the alarm has the major and minor type and the time COM gave it.
\<close>

theorem alarm_number_roundtrip:
  assumes "convertMafHeader4ToNtf E1 c nh h w1 = Some (Inr ((MafOk, nh'), v1))"
    and "notificationHeader n = nh'" and "\<not> is_pm_threshold nh'"
    and "convertHeader4 E2 n fm_zero w2 = Some (Inr ((MafOk, d), v2))"
  shows "majorType d = majorType c \<and> minorType d = minorType c \<and> eventTime d = eventTime c"
proof -
  have p: "numbered c nh'" using wp_Inr [OF to_ntf_numbered assms(1)] by simp
  have "legacy_header E2 n fm_zero w2 = Some (Inr ((MafOk, d), v2))"
    using assms(2,3,4) by (auto simp: convertHeader4_def bnd_def gets_def return_def split: if_splits)
  from wp_Inr [OF legacy_numbers this] show ?thesis
    using p assms(2) number_parts [of "minorType c"] by (simp add: numbered_def)
qed

definition demo_fm :: MafOamSpiNotificationFmStruct_4T where
  "demo_fm = \<lparr>fm_dn = Some ''ManagedElement=1'', majorType = 193, minorType = 262149, eventTime = 100,
     additionalText = Some ''door'', fm_severity = 3, additionalInfo = [(''a'', ''b'')]\<rparr>"

definition demo_names :: outside where
  "demo_names h c = (case c of Ntf (ConvertToImm n) \<Rightarrow> yes\<lparr>a_text := Some ''safNode=1''\<rparr>
     | Ntf (ConvertTo3Gpp n) \<Rightarrow> yes\<lparr>a_text := Some ''ManagedElement=1''\<rparr> | _ \<Rightarrow> yes)"

definition demo_header :: SaNtfNotificationHeaderT where
  "demo_header = (fill_header demo_fm (notificationHeader demo_alarm))\<lparr>notificationObject := ''safNode=1'', notifyingObject := ''safNode=1'',
     nh_additionalInfo := [\<lparr>infoId = 20, infoType = SA_NTF_VALUE_STRING, infoValue = 0\<rparr>]\<rparr>"

lemma demo_to_ntf:
  "\<exists>v. convertMafHeader4ToNtf demo_names demo_fm (notificationHeader demo_alarm) 8 demo_world = Some (Inr ((MafOk, demo_header), v))"
  by (simp add: convertMafHeader4ToNtf_def demo_fm_def alarm_objects_def convertToImm_def saNameSet_def call_run prog_defs
      demo_names_def yes_def demo_world_def demo_alarm_def demo_header_def fill_header_def Let_def)

lemma demo_from_ntf:
  "\<exists>d v. convertHeader4 demo_names (demo_alarm\<lparr>notificationHeader := demo_header\<rparr>) fm_zero demo_world = Some (Inr ((MafOk, d), v))"
  by (simp add: convertHeader4_def legacy_header_def is_pm_threshold_def demo_header_def fill_header_def demo_fm_def demo_alarm_def
      demo_world_def copyAdditionalInfo_def getAdditionalInfoName_def alarm_text_def convertTo3GPPDN_def convertTo3Gpp_def starts_with_def
      call_run prog_defs demo_names_def yes_def SA_NTF_VENDOR_ID_SAF_def Let_def)

lemma alarm_number_roundtrip_witness:
  "\<exists>d v1 v2. convertMafHeader4ToNtf demo_names demo_fm (notificationHeader demo_alarm) 8 demo_world = Some (Inr ((MafOk, demo_header), v1)) \<and>
     convertHeader4 demo_names (demo_alarm\<lparr>notificationHeader := demo_header\<rparr>) fm_zero demo_world = Some (Inr ((MafOk, d), v2)) \<and>
     majorType d = 193 \<and> minorType d = 262149 \<and> eventTime d = 100"
proof -
  obtain v1 d v2 where r: "convertMafHeader4ToNtf demo_names demo_fm (notificationHeader demo_alarm) 8 demo_world = Some (Inr ((MafOk, demo_header), v1))"
    "convertHeader4 demo_names (demo_alarm\<lparr>notificationHeader := demo_header\<rparr>) fm_zero demo_world = Some (Inr ((MafOk, d), v2))"
    using demo_to_ntf demo_from_ntf by blast
  have "\<not> is_pm_threshold demo_header"
    by (simp add: is_pm_threshold_def demo_header_def fill_header_def demo_fm_def SA_NTF_VENDOR_ID_SAF_def)
  from alarm_number_roundtrip [OF r(1) _ this r(2)] show ?thesis using r by (simp add: demo_fm_def)
qed

section \<open>Names\<close>

text \<open>
  The buffer for the name of a license is too small unless the name of the alarm's object
  is long enough: \<open>removeMOMPrefix\<close> puts 27 characters behind the license and ends the name one
  byte too far, and writes outside the buffer unless at least 28 characters stand in front of
  \<open>licenseId=\<close>.
\<close>

theorem license_name_overflow:
  assumes "find_text dn ''licenseId='' = Some v" "CHR ''='' \<notin> set v"
  shows "removeMOMPrefix dn (length dn + 1) w =
    (if length dn < length v + 38 then Some (Inl (Overflow, w))
     else Some (Inr (DN_LMID (''licenseId='' @ v @ '',lmId=1,systemFunctionsId=1''), w)))"
  using assms by (simp add: removeMOMPrefix_def Let_def return_def die_def)

lemma license_name_overflow_witness:
  "removeMOMPrefix ''Lm=1,licenseId=abc'' (length ''Lm=1,licenseId=abc'' + 1) demo_world = Some (Inl (Overflow, demo_world))"
  using license_name_overflow [of "''Lm=1,licenseId=abc''" "''abc''" demo_world]
  by (simp only: find_text_def) (simp add: find_text_def)

text \<open>
  An alarm about an object whose name has no translation ends the process.  Whatever else the libraries
  answer, the call-back for an alarm, with a filter set, runs into a failed assertion when
  the name cannot be converted.
\<close>

theorem unknown_name_kills:
  assumes "is_alarm (notificationType n)" "sub \<noteq> CM_NOTIFICATIONS_SUBS_ID" "filter_of (nFilter_V4 w) \<noteq> None"
    and "\<not> is_pm_threshold (notificationHeader n)" "\<not> starts_with (notificationObject (notificationHeader n)) ''3GPP''"
    and "\<And>h. a_text (E h (Ntf (ConvertTo3Gpp (notificationObject (notificationHeader n))))) = None"
  shows "\<exists>v. callback_decide E sub n w = Some (Inl (Assert, v))"
proof -
  let ?nh = "notificationHeader n"
  have "fine (copy_infos E h nh cfg is)" for h nh cfg "is"
    by (induction "is") (auto intro!: fine_bnd fine_basic fine_name)
  then have copy: "fine (copyAdditionalInfo E ?nh h c)" for h c
    unfolding copyAdditionalInfo_def by (intro fine_bnd fine_basic)
  have "fine (getUUIDFromAdditionalInfo E ?nh h)" for h
  proof (unfold fine_def, rule allI)
    fix u
    show "wp False (getUUIDFromAdditionalInfo E ?nh h) (\<lambda>_ _. True) (\<lambda>_ _. False) u"
      using uuid_fine [of E ?nh h u] by (auto simp: wp_def)
  qed
  then have txt1: "fine (alarm_text E n)"
    by (auto simp: alarm_text_def intro!: fine_bnd fine_basic split: option.split)
  have "wp False (legacy_header E n c) (\<lambda>(rc, c) _. rc = MafNoResources) (\<lambda>_ _. False) u" for c u
    unfolding legacy_header_def Let_def wp_bnd
    by (auto simp: wp_return_fun convertTo3GPPDN_def assms(5) convertTo3Gpp_def wp_call assms(6) intro!: fineD [OF copy] fineD [OF txt1])
  then have hd: "wp False (convertHeader4 E n c) (\<lambda>(rc, c) _. rc = MafNoResources) (\<lambda>_ _. False) u"
    if "filter_of (nFilter_V4 u) \<noteq> None" for c u
    using that assms(4) by (simp add: convertHeader4_def)
  let ?w = "w\<lparr>next_addr := Suc (next_addr w), fms := (fms w)(next_addr w \<mapsto> fm_zero)\<rparr>"
  have "wp False (make_alarm E n (next_addr w)) (\<lambda>_ _. False) (\<lambda>f _. f = Assert) ?w"
    using assms(1,3) by (auto simp: make_alarm_def wp_get_fm intro!: wp_mono [OF hd])
  then have "wp False (callback_decide E sub n) (\<lambda>_ _. False) (\<lambda>f _. f = Assert) w"
    using assms(1,2) by (auto simp: callback_decide_def alloc_fm_def is_alarm_def invalid_type_def elim: wp_mono)
  then show ?thesis by (auto simp: wp_def split: option.splits sum.splits)
qed

lemma unknown_name_kills_witness:
  "filter_of (nFilter_V4 demo_world) \<noteq> None \<and>
   (\<exists>v. callback_decide (\<lambda>h c. yes) COMSA_NTF_SUBSCRIPTION_ID
      (demo_alarm\<lparr>notificationHeader := (notificationHeader demo_alarm)\<lparr>notificationObject := ''safNode=9''\<rparr>\<rparr>) demo_world = Some (Inl (Assert, v)))"
  by (intro conjI unknown_name_kills)
    (simp_all add: demo_world_def demo_alarm_def is_alarm_def is_pm_threshold_def starts_with_def yes_def
      COMSA_NTF_SUBSCRIPTION_ID_def CM_NOTIFICATIONS_SUBS_ID_def)

end
