(* ===== verification/NtfLife.thy ===== *)
theory NtfLife
  imports NtfDemo LogLife
begin

text \<open>
  The notification service, part 17: the properties of its subscriptions, its start and its stop.
\<close>

lemma wp_bnd_fun: "wp d (bnd m k) Q F = wp d m (\<lambda>a. wp d (k a) Q F) F"
  by (rule ext) simp

section \<open>The filter of COM\<close>

text \<open>COM has a filter exactly when there is a subscription.\<close>

definition filter_ok :: "MafFilterT \<Rightarrow> bool" where
  "filter_ok f \<longleftrightarrow> subscriptionId f = (if filter_of f = None then 0 else COMSA_NTF_SUBSCRIPTION_ID)"

definition same_filter :: "ntf_world \<Rightarrow> ntf_world \<Rightarrow> bool" where
  "same_filter w v \<longleftrightarrow> nFilter_V4 v = nFilter_V4 w"

interpretation kept: frame same_filter
  by unfold_locales (auto simp: same_filter_def)

lemma kept_quiet: "quiet m \<Longrightarrow> pres same_filter m"
  unfolding pres_def by (auto simp: same_filter_def intro: quietD)

lemma kept_setup: "pres same_filter (setupInterface E)"
  unfolding setupInterface_def
  by (intro kept.p_intros kept.p_modify kept_quiet [OF quiet_call]) (simp_all add: same_filter_def)

lemma quiet_subscribe [quiets]: "quiet (subscribeForNotifications E sub)"
  unfolding subscribeForNotifications_def by (intro quiets) simp_all

lemma quiet_create_reader [quiets]: "quiet (createReaderThread E)"
  unfolding createReaderThread_def by (intro quiets) simp_all

definition added :: "ntf_world \<Rightarrow> ntf_filter \<Rightarrow> MafReturnT \<Rightarrow> ntf_world \<Rightarrow> bool" where
  "added w f rc v \<longleftrightarrow> filter_ok (nFilter_V4 v) \<and>
     (if filter_of (nFilter_V4 w) \<noteq> None then rc = MafAlreadyExist \<and> nFilter_V4 v = nFilter_V4 w
      else if rc = MafOk then filter_of (nFilter_V4 v) = Some f else nFilter_V4 v = nFilter_V4 w)"

lemma wp_add_filter:
  assumes "filter_ok (nFilter_V4 w)"
  shows "wp True (add_filter E c ty (Some f)) (added w f) (\<lambda>_ _. True) w"
proof (cases "filter_of (nFilter_V4 w)")
  case (Some g)
  then show ?thesis using assms by (simp add: add_filter_def added_def)
next
  case None
  obtain c0 e0 where n: "nFilter_V4 w = \<lparr>consumerHandle = c0, eventType = e0, filter_of = None, subscriptionId = 0\<rparr>"
    using None assms by (cases "nFilter_V4 w") (auto simp: filter_ok_def)
  let ?w = "w\<lparr>nFilter_V4 := (nFilter_V4 w)\<lparr>subscriptionId := COMSA_NTF_SUBSCRIPTION_ID\<rparr>\<rparr>"
  let ?K = "\<lambda>rc. if rc \<noteq> SA_AIS_OK then
          andthen (modify (\<lambda>w. w\<lparr>nFilter_V4 := (nFilter_V4 w)\<lparr>subscriptionId := 0\<rparr>\<rparr>)) (return (maf_coremw_rc rc))
        else andthen (modify (\<lambda>w. w\<lparr>nFilter_V4 := (nFilter_V4 w)\<lparr>consumerHandle := c, eventType := Some ty, filter_of := Some f\<rparr>\<rparr>))
          (andthen (bnd (createReaderThread E) (\<lambda>_. return ())) (return (maf_coremw_rc rc)))"
  have "wp True (ntf_retry E (subscribeForNotifications E COMSA_NTF_SUBSCRIPTION_ID))
      (\<lambda>rc. wp True (?K rc) (added w f) (\<lambda>_ _. True)) (\<lambda>_ _. True) ?w"
  proof (rule quietD)
    show "quiet (ntf_retry E (subscribeForNotifications E COMSA_NTF_SUBSCRIPTION_ID))" by (intro quiets)
    fix rc h
    show "wp True (?K rc) (added w f) (\<lambda>_ _. True) (?w\<lparr>hist := h\<rparr>)"
    proof (cases "rc = SA_AIS_OK")
      case True
      have "added w f MafOk (?w\<lparr>hist := h, nFilter_V4 := \<lparr>consumerHandle = c, eventType = Some ty, filter_of = Some f,
          subscriptionId = COMSA_NTF_SUBSCRIPTION_ID\<rparr>, hist := k\<rparr>)" for k
        by (simp add: added_def n filter_ok_def)
      then show ?thesis using True n by (auto simp: wp_return_fun intro!: quietD [OF quiet_create_reader])
    next
      case False
      then have "maf_coremw_rc rc \<noteq> MafOk" by (cases rc) simp_all
      then show ?thesis using False n by (simp add: added_def filter_ok_def)
    qed
  qed simp
  then show ?thesis using None by (simp add: add_filter_def del: wp_if)
qed

lemma wp_addFilter:
  assumes "filter_ok (nFilter_V4 w)"
  shows "wp True (addFilter_V4 E c ty (Some f)) (\<lambda>rc v. rc = MafNotExist \<and> v = w \<or> added w f rc v) (\<lambda>_ _. True) w"
proof -
  let ?Q = "\<lambda>rc v. rc = MafNotExist \<and> v = w \<or> added w f rc v"
  have add: "wp True (add_filter E c ty (Some f)) (\<lambda>rc. wp True (mutex_unlock E NotifyLock) (\<lambda>_. ?Q rc) (\<lambda>_ _. True)) (\<lambda>_ _. True) v"
    if v: "nFilter_V4 v = nFilter_V4 w" for v
  proof -
    have "wp True (add_filter E c ty (Some f)) (added v f) (\<lambda>_ _. True) v" by (rule wp_add_filter) (use v assms in simp)
    then show ?thesis by (rule wp_mono) (use v in \<open>auto simp: added_def split: if_splits intro!: quietD [OF quiet_locks(2)]\<close>)
  qed
  have "pres same_filter (mutex_lock E NotifyLock)" by (rule kept_quiet [OF quiet_locks(1)])
  then have "wp True (mutex_lock E NotifyLock) (\<lambda>_. wp True (add_filter E c ty (Some f))
      (\<lambda>rc. wp True (mutex_unlock E NotifyLock) (\<lambda>_. ?Q rc) (\<lambda>_ _. True)) (\<lambda>_ _. True)) (\<lambda>_ _. True) v"
    if "nFilter_V4 v = nFilter_V4 w" for v
    by (rule kept.pD) (use that in \<open>auto simp: same_filter_def intro!: add\<close>)
  then show ?thesis
    by (auto simp: addFilter_V4_def wp_unlock_return wp_bnd_fun same_filter_def intro!: kept.pD [OF kept_setup])
qed

lemma wp_removeFilter:
  "wp True (removeFilter_V4 E c ty g) (\<lambda>rc v. rc \<in> {MafOk, MafFailure} \<and> nFilter_V4 v = (if rc = MafOk then no_filter else nFilter_V4 w))
     (\<lambda>_ _. True) w" (is "wp True _ ?Q _ _")
proof -
  have retry: "quiet (ntf_retry E (sa_rc E (Ntf (SaNtfNotificationUnsubscribe i))))" for i by (intro quiets) simp
  show ?thesis
    unfolding removeFilter_V4_def wp_andthen
    by (rule quietD [OF quiet_locks(1)])
      (auto simp: wp_unlock_return wp_return_fun split: option.split intro!: quietD [OF quiet_locks(2)] quietD [OF retry])
qed

text \<open>
  C22. COM has at most one subscription.  Adding a filter keeps it true that COM has a filter exactly when it has a
  subscription with the number of alarms; adding a second filter is refused and changes neither, and
  a filter that cannot be subscribed leaves none.  Removing and clearing leave no filter, or
  report a failure and leave the filter as it was.
\<close>

theorem one_subscription:
  assumes "filter_ok (nFilter_V4 w)"
  shows "(addFilter_V4 E c ty (Some f) w = Some (Inr (rc, v)) \<longrightarrow> filter_ok (nFilter_V4 v) \<and>
       (filter_of (nFilter_V4 w) \<noteq> None \<or> rc \<noteq> MafOk \<longrightarrow> rc \<noteq> MafOk \<and> nFilter_V4 v = nFilter_V4 w)) \<and>
    (removeFilter_V4 E c ty' g w = Some (Inr (rc, v)) \<or> consumerHandle (nFilter_V4 w) \<noteq> 0 \<and> clearAll_V4 E w = Some (Inr (rc, v)) \<longrightarrow>
       nFilter_V4 v = (if rc = MafOk then no_filter else nFilter_V4 w))"
proof -
  have 1: "filter_ok (nFilter_V4 v) \<and>
       (filter_of (nFilter_V4 w) \<noteq> None \<or> rc \<noteq> MafOk \<longrightarrow> rc \<noteq> MafOk \<and> nFilter_V4 v = nFilter_V4 w)"
    if "addFilter_V4 E c ty (Some f) w = Some (Inr (rc, v))"
    using wp_Inr [OF wp_addFilter [OF assms] that] assms by (auto simp: added_def split: if_splits)
  have 2: "removeFilter_V4 E c ty' g w = Some (Inr (rc, v)) \<Longrightarrow> nFilter_V4 v = (if rc = MafOk then no_filter else nFilter_V4 w)"
    using wp_Inr [OF wp_removeFilter] by blast
  have "wp True (clearAll_V4 E) (\<lambda>rc v. nFilter_V4 v = (if rc = MafOk then no_filter else nFilter_V4 w)) (\<lambda>_ _. True) w"
    if "consumerHandle (nFilter_V4 w) \<noteq> 0"
    using that by (simp add: clearAll_V4_def wp_return_fun) (rule wp_mono [OF wp_removeFilter], auto)
  then have 3: "consumerHandle (nFilter_V4 w) \<noteq> 0 \<Longrightarrow> clearAll_V4 E w = Some (Inr (rc, v)) \<Longrightarrow>
      nFilter_V4 v = (if rc = MafOk then no_filter else nFilter_V4 w)"
    by (rule wp_Inr)
  show ?thesis using 1 2 3 by (intro conjI impI) auto
qed

lemma one_subscription_witness:
  "\<exists>v. addFilter_V4 demo_outside 6 FmEventType_4 (Some \<lparr>f_addr = 9, f_first = None\<rparr>) demo_world = Some (Inr (MafAlreadyExist, v)) \<and>
     filter_ok (nFilter_V4 v) \<and> nFilter_V4 v = nFilter_V4 demo_world"
proof -
  have "result (addFilter_V4 demo_outside 6 FmEventType_4 (Some \<lparr>f_addr = 9, f_first = None\<rparr>)) demo_world = Some MafAlreadyExist"
    by code_simp
  from result_after [OF this] show ?thesis
    using one_subscription [of demo_world demo_outside 6 FmEventType_4 "\<lparr>f_addr = 9, f_first = None\<rparr>" MafAlreadyExist
        "after (addFilter_V4 demo_outside 6 FmEventType_4 (Some \<lparr>f_addr = 9, f_first = None\<rparr>)) demo_world"]
    by (auto simp: filter_ok_def demo_world_def)
qed

end
