(* ===== verification/Spec2Isabelle.thy ===== *)
theory Spec2Isabelle
  imports TimerContract AcStart LogParse LogOpen RlContract RlNumbers NtfProps NtfLedger NtfText NtfLife
begin

text \<open>
  Verification of the COM SA support agent: the component between the SA Forum middleware (AMF,
  the log service, the information model IMM) and the management agent COM.

  \<^bold>\<open>The program.\<close> \<open>src/src/generic/ac\<close> is the entry of the library: \<open>ComSAAc.c\<close> is loaded and started
  by COM, talks to AMF in a thread of its own and turns each AMF up-call into an event for COM;
  \<open>SelectTimer.c\<close> is the timer queue and poll loop under that thread and under the notification
  thread.  \<open>src/src/generic/log/ComSALogService.c\<close> opens the five log streams (system, alarm,
  alert, command, security), reads and writes their configuration in IMM and offers COM a write
  function.  \<open>src/src/generic/rlist\<close> is the replicated list in which COM keeps its active alarms: lists
  of numbered items, each an object in IMM with the numbers of the list, and the items in files or,
  on some deployments, in IMM too.  \<open>src/src/generic/utils/imm_utils.cc\<close> repeats IMM calls that are to be
  tried again.

  \<^bold>\<open>Shared model.\<close> \<open>Prelude\<close> holds generic lemmas.  \<open>Effects\<close> defines the results of the
  availability controller's operations (a value and a state, or a fault: assertion, wild pointer, abort,
  buffer overflow, killed, quit).  \<open>SafTypes\<close> has the return codes.  \<open>Outside\<close> has the calls into
  libraries and the operating system as one data type, their answers, and the trace of both; what
  is outside of the repository is a parameter \<open>E\<close> of type \<open>outside\<close>, a function from the trace so far and the
  next call to the answer, so that the answers may depend on everything that happened before.  Programs
  over such a state may return, end the process or never return (\<open>None\<close>), loops that may not end
  are \<open>while_prog\<close>, and \<open>wp\<close> is the calculus for both partial and total correctness.

  \<^bold>\<open>Timers.\<close> \<open>SelectTimer\<close> is the code: records in a store linked by their next field, the running
  list, the list of reusable records, the table of file descriptors.  \<open>TimerQueue\<close> relates the
  linked list to a list sorted by expiry; \<open>TimerInv\<close> has the invariant of a handle and that every
  operation keeps it; \<open>PollTable\<close> shows the descriptor table to be a finite map; \<open>TimerRun\<close> and
  \<open>TimerClock\<close> treat time-outs and the clock, with a measure for the loop over expired timers;
  \<open>TimerProps\<close> and \<open>TimerContract\<close> have the properties, the latter over locales for a timer
  service and its clients.

  \<^bold>\<open>Availability controller.\<close> \<open>AcEvents\<close> (event queue and wake-up pipe), \<open>AcAmf\<close> (AMF call-backs, event
  handlers, both threads) and \<open>AcInit\<close> (library load and unload, configuration, SSHD decision) are the code;
  \<open>AcSystem\<close> interleaves the threads by the step relation \<open>ac_step\<close> at the granularity of the
  mutex.  \<open>AcQueue\<close>, \<open>AcLedger\<close> and \<open>AcSafe\<close> hold the invariants of the reachable states (queue and pipe,
  a ledger of the AMF invocations, no use of freed memory); \<open>AcContract\<close> and \<open>AcStart\<close> the behaviour of
  single operations.  No starting of another service is taken to succeed: the ledger counts the requests that
  are asked twice because the object implementer did not start, and the responses that are dropped because the thread of
  the notification service did not; the ends of the process include the failures of the system calls that
  the code answers with \<open>abort\<close>.

  \<^bold>\<open>Log service.\<close> \<open>LogConf\<close> is the parser of the configuration file, \<open>LogStream\<close> the state, call-backs, threads and
  closing functions, \<open>LogService\<close> the traffic with IMM, the opening functions and the write
  function; \<open>ImmUtils\<close> the repeating wrappers.  The five copies of the code for one stream are one
  definition with the stream as an argument where they agree.  \<open>LogParse\<close> shows the parser equal to a
  table look-up and its round trip; \<open>ImmRetry\<close> when the wrappers return; \<open>LogRules\<close> and \<open>TraceObserver\<close>
  give rules for programs with repeated calls, the latter as a locale for functions folded over the
  trace, interpreted for handles to give back, for change bundles, for the types of values and
  for the sinks of messages.  A security message given to the audit logger counts as delivered only if that
  logger is there (\<open>audit_logging\<close>); without it the function drops the message.  \<open>LogImm\<close>, \<open>LogWrite\<close> and \<open>LogOpen\<close> have
  the properties, the latter with all outcomes of the opening threads, the full table of descriptors included;
  \<open>LogLife\<close> has the relation \<open>log_step\<close> over all operations and its invariant.

  \<^bold>\<open>Replicated list.\<close> The code is in four theories: \<open>RlWorld\<close> (state, names, handles, classes and objects),
  \<open>RlFiles\<close> (paths, files, directories, the state after a restart), \<open>RlList\<close> (the fifteen operations of
  \<open>OamSARList\<close>), \<open>RlConf\<close> (\<open>ComSARlist.c\<close>: configuration, start and stop, the table of the interface
  \<open>maf_comsa_list\<close>).  A buffer of a caller is the list of its bytes, so accesses outside of it are
  faults; iterators are records in a heap.
  For the functional theorems the surroundings are made concrete: \<open>RlStore\<close> has a store of files, attributes and
  objects, how each call changes it, and \<open>served\<close>: the answers are those of the store, and no call fails.  \<open>obliging\<close> is
  an environment that serves.  \<open>RlSpec\<close> is the abstract list and \<open>RlItems\<close> the locale of the
  storage of items, interpreted for files and for objects; \<open>RlOps\<close>, \<open>RlRefine\<close>, \<open>RlRemove\<close> and \<open>RlClear\<close> show
  each operation to have exactly the effect \<open>step_effect\<close> on it, with what the code really stores
  (\<open>stored_bytes\<close>) and removes (\<open>pop_effect\<close>), and \<open>RlSteps\<close> that sequences of calls have.  \<open>RlContract\<close> states the interface
  of the header file (\<open>spec_step\<close>: items are blocks of the size of an item, removing the last item removes the last
  one) and shows for which calls the code keeps to it and what it does in the others.
  \<open>RlIter\<close> treats iterators, \<open>RlExample\<close> is a concrete list for the witnesses, and \<open>RlProps\<close>,
  \<open>RlContract\<close>, \<open>RlFaults\<close> and \<open>RlNumbers\<close> have the properties.  \<open>RlSafe\<close> and \<open>RlEnds\<close> show what holds in every
  environment that does not ask to try again for ever (\<open>patient\<close>), the latter that every operation ends when the
  directories and searches it reads do, and no list has given out the largest number (\<open>RlNumbers\<close> has the search that
  never ends when one has).

  \<^bold>\<open>Notification service.\<close> \<open>NtfData\<close> has the data; the code is in \<open>NtfWorld\<close> (state, names, the list of
  alarms COM holds), \<open>NtfConvert\<close> (additional information), \<open>NtfPm\<close> (alarms of performance measurement),
  \<open>NtfHeader\<close> (whole alarms, both directions), \<open>NtfAlarm\<close> (call-back, queue, reader of old alarms) and
  \<open>NtfService\<close> (filters, subscriptions, start and stop).  Alarms, list nodes and queue nodes are in stores; an
  access to a freed one is a fault.  \<open>NtfSystem\<close> runs the poll thread, the reader and COM together
  by the step relation \<open>ntf_step\<close>: the call-back is cut where the lock of the queue is taken, the reader at each turn of its
  two loops, and COM gives back one alarm at a time.  \<open>NtfHeap\<close> relates the list to a list of alarms,
  \<open>NtfQueue\<close> has the locale \<open>frame\<close> of relations between states that every composition of programs
  keeps, interpreted for what conversions and other calls leave alone and twice more below; \<open>NtfDeliver\<close>, \<open>NtfReader\<close> and
  \<open>NtfOrder\<close> lead to the invariant of the reachable states, \<open>NtfDemo\<close> is a concrete run, and
  \<open>NtfProps\<close>, \<open>NtfLedger\<close> (a locale for ledgers, interpreted for the alarms of COM), \<open>NtfText\<close> and
  \<open>NtfLife\<close> have the properties.

  \<^bold>\<open>Bounds and fuel.\<close> No definition uses fuel: loops are structural, have a measure, or are \<open>while_prog\<close>, and where a
  property says that code returns, this is proved.  Word widths are those of the code: 16 bit
  severities and flags, 32 and 64 bit attribute values, a 32 bit count of tries.  The bounds 4 and 3 of
  \<open>log_api_call_try_again\<close> and \<open>imm_api_call\<close> are those of the macros.

  \<^bold>\<open>Assumptions.\<close> Named hypotheses state documented behaviour of what is outside: \<open>handles_nonzero\<close> (a successful SA Forum
  call returns a handle that is not 0), \<open>sleep_interrupted_only\<close> and \<open>settled\<close> (for the liveness of the opening
  threads), \<open>served\<close> (functional theorems of the replicated list), \<open>patient\<close> and the three conditions of \<open>scan_ends\<close>, and the
  contracts of clock and handlers in the timer theories.  No property of the availability controller takes for
  granted that code of this repository succeeds.  Outside of the availability controller, which has \<open>malloc_fails\<close>,
  \<open>malloc\<close> succeeds.

  \<^bold>\<open>Not modelled.\<close> Debug and internal trace output.  The operations of the log service are
  taken one after another; the threads that open a log are one step each.  The call-back for discarded notifications
  is one step of the notification system, and the start and stop of that service are not steps of it.  Of the program:
  the conversion of configuration changes (\<open>convertCMNotificationHeader\<close>) and the handler and producer of
  configuration events, both calls of the notification service here; the trace service (\<open>trace\<close>), object model,
  translation and transactions (\<open>motransaction\<close>), the key re-encryption tool, and the tests.
\<close>

end
